(* ===== verification/Prelude.thy ===== *)
theory Prelude
  imports Complex_Main "HOL-Library.Product_Lexorder"
begin

text \<open>
  Shared vocabulary of the development.

  \<^item> \<open>exn\<close>: the exceptions of the services. The NestJS exception classes become
    constructors that carry the machine readable \<open>code\<close> of the response; the human readable
    message is not modelled. \<open>Failure\<close> is any other thrown value (a driver error, a
    \<open>TypeError\<close>).
  \<^item> \<open>op\<close>: a service method, a state transformer that either returns a value or raises.
    The state reached before an exception is kept (\<open>seqM\<close>) unless the code runs inside
    \<open>dataSource.transaction\<close> (\<open>txnM\<close>), which rolls back.
  \<^item> the few JavaScript library functions the modelled code calls (\<open>trim\<close>,
    \<open>toUpperCase\<close>, \<open>Math.round\<close>, \<open>[...new Set(xs)]\<close>, truthiness of
    strings).

  Money and percentages are JavaScript numbers. They are modelled by exact rationals
  (\<open>rat\<close>): IEEE rounding of intermediate results is the one aspect of the numbers that
  is not modelled. Dates are milliseconds since the epoch (\<open>int\<close>).
\<close>

section \<open>Exceptions and service methods\<close>

datatype exn =
    BadRequest string
  | NotFound string
  | Forbidden string
  | Conflict string
  | Unauthorized string
  | Failure string

type_synonym 'a result = "exn + 'a"
type_synonym ('s, 'a) op = "'s \<Rightarrow> 'a result \<times> 's"

type_synonym money = rat
type_synonym date = int

named_theorems pres "rules for preservation of invariants by service methods"

definition retM :: "'a \<Rightarrow> ('s, 'a) op" where
  "retM x = (\<lambda>s. (Inr x, s))"

definition raiseM :: "exn \<Rightarrow> ('s, 'a) op" where
  "raiseM e = (\<lambda>s. (Inl e, s))"

definition seqM :: "('s, 'a) op \<Rightarrow> ('a \<Rightarrow> ('s, 'b) op) \<Rightarrow> ('s, 'b) op" where
  "seqM m f = (\<lambda>s. case m s of (Inl e, s') \<Rightarrow> (Inl e, s') | (Inr x, s') \<Rightarrow> f x s')"

definition getM :: "('s \<Rightarrow> 'a) \<Rightarrow> ('s, 'a) op" where
  "getM f = (\<lambda>s. (Inr (f s), s))"

definition modM :: "('s \<Rightarrow> 's) \<Rightarrow> ('s, unit) op" where
  "modM f = (\<lambda>s. (Inr (), f s))"

definition liftM :: "'a result \<Rightarrow> ('s, 'a) op" where
  "liftM r = (\<lambda>s. (r, s))"

text \<open>A fallible read: the state decides the outcome and stays.\<close>

definition readM :: "('s \<Rightarrow> 'a result) \<Rightarrow> ('s, 'a) op" where
  "readM f = (\<lambda>s. (f s, s))"

text \<open>\<open>if (b) throw e;\<close>\<close>

definition failIf :: "bool \<Rightarrow> exn \<Rightarrow> ('s, unit) op" where
  "failIf b e = (if b then raiseM e else retM ())"

text \<open>\<open>dataSource.transaction(cb)\<close>: an exception of the callback rolls the state back.\<close>

definition txnM :: "('s, 'a) op \<Rightarrow> ('s, 'a) op" where
  "txnM m = (\<lambda>s. case m s of (Inl e, s') \<Rightarrow> (Inl e, s) | (Inr x, s') \<Rightarrow> (Inr x, s'))"

text \<open>\<open>try { m } catch (e) { h e }\<close>\<close>

definition catchM :: "('s, 'a) op \<Rightarrow> (exn \<Rightarrow> ('s, 'a) op) \<Rightarrow> ('s, 'a) op" where
  "catchM m h = (\<lambda>s. case m s of (Inl e, s') \<Rightarrow> h e s' | (Inr x, s') \<Rightarrow> (Inr x, s'))"

text \<open>\<open>for (const x of xs) await f(x)\<close>, collecting the results.\<close>

fun forM :: "('a \<Rightarrow> ('s, 'b) op) \<Rightarrow> 'a list \<Rightarrow> ('s, 'b list) op" where
  "forM f [] = retM []"
| "forM f (x # xs) = seqM (f x) (\<lambda>y. seqM (forM f xs) (\<lambda>ys. retM (y # ys)))"

lemma op_apply [simp]:
  "retM x s = (Inr x, s)"
  "raiseM e s = (Inl e, s)"
  "getM f s = (Inr (f s), s)"
  "modM g s = (Inr (), g s)"
  "liftM r s = (r, s)"
  "readM h s = (h s, s)"
  by (simp_all add: readM_def retM_def raiseM_def getM_def modM_def liftM_def)

lemma seqM_simps [simp]:
  "m s = (Inl e, s') \<Longrightarrow> seqM m f s = (Inl e, s')"
  "m s = (Inr x, s') \<Longrightarrow> seqM m f s = f x s'"
  by (simp_all add: seqM_def)

lemma seqM_ret [simp]: "seqM (retM x) f = f x"
  and seqM_raise [simp]: "seqM (raiseM e) f' = raiseM e"
  and seqM_get [simp]: "seqM (getM g) h s = h (g s) s"
  and seqM_mod [simp]: "seqM (modM k) n s = n () (k s)"
  by (auto simp: seqM_def retM_def raiseM_def getM_def modM_def)

lemma seqM_lift [simp]:
  "seqM (liftM (Inl e)) f = raiseM e"
  "seqM (liftM (Inr x)) f = f x"
  by (auto simp: seqM_def liftM_def raiseM_def)

lemma seqM_if [simp]:
  "seqM (if b then m else n) f s = (if b then seqM m f s else seqM n f s)"
  by simp

lemma failIf_simps [simp]:
  "failIf True e = raiseM e"
  "failIf False e = retM ()"
  by (simp_all add: failIf_def)

lemma seqM_failIf [simp]:
  "seqM (failIf b e) f s = (if b then (Inl e, s) else f () s)"
  by (cases b) simp_all

lemma seqM_assoc [simp]: "seqM (seqM m f) g = seqM m (\<lambda>x. seqM (f x) g)"
  by (auto simp: seqM_def fun_eq_iff split: prod.splits sum.splits)

lemma seqM_Inr_iff:
  "seqM m f s = (Inr y, t) \<longleftrightarrow> (\<exists>x s'. m s = (Inr x, s') \<and> f x s' = (Inr y, t))"
  by (auto simp: seqM_def split: prod.splits sum.splits)

lemma seqM_Inl_iff:
  "seqM m f s = (Inl e, t) \<longleftrightarrow>
     m s = (Inl e, t) \<or> (\<exists>x s'. m s = (Inr x, s') \<and> f x s' = (Inl e, t))"
  by (auto simp: seqM_def split: prod.splits sum.splits)

lemma txnM_Inr_iff [simp]: "txnM m s = (Inr x, t) \<longleftrightarrow> m s = (Inr x, t)"
  by (auto simp: txnM_def split: prod.splits sum.splits)

lemma txnM_Inl_iff: "txnM m s = (Inl e, t) \<longleftrightarrow> t = s \<and> (\<exists>s'. m s = (Inl e, s'))"
  by (auto simp: txnM_def split: prod.splits sum.splits)

lemma txnM_simps:
  "m s = (Inl e, s') \<Longrightarrow> txnM m s = (Inl e, s)"
  "m s = (Inr x, s') \<Longrightarrow> txnM m s = (Inr x, s')"
  by (simp_all add: txnM_def)

lemma catchM_simps:
  "m s = (Inl e, s') \<Longrightarrow> catchM m h s = h e s'"
  "m s = (Inr x, s') \<Longrightarrow> catchM m h s = (Inr x, s')"
  by (simp_all add: catchM_def)

text \<open>
  \<open>preserves I m\<close>: the method keeps the invariant whether it returns or raises.
\<close>

definition preserves :: "('s \<Rightarrow> bool) \<Rightarrow> ('s, 'a) op \<Rightarrow> bool" where
  "preserves I m \<longleftrightarrow> (\<forall>s. I s \<longrightarrow> I (snd (m s)))"

lemma preservesI: "(\<And>s. I s \<Longrightarrow> I (snd (m s))) \<Longrightarrow> preserves I m"
  by (simp add: preserves_def)

lemma preservesD: "preserves I m \<Longrightarrow> I s \<Longrightarrow> m s = (r, t) \<Longrightarrow> I t"
  by (metis preserves_def snd_conv)

lemma preserves_ret [pres]: "preserves I (retM x)"
  and preserves_raise [pres]: "preserves I (raiseM e)"
  and preserves_get [pres]: "preserves I (getM f)"
  and preserves_lift [pres]: "preserves I (liftM r)"
  by (simp_all add: preserves_def)

lemma preserves_read [pres]: "preserves I (readM h)"
  by (simp add: preserves_def)

lemma preserves_failIf [pres]: "preserves I (failIf b e)"
  by (cases b) (simp_all add: preserves_def)

lemma preserves_mod [pres]: "(\<And>s. I s \<Longrightarrow> I (f s)) \<Longrightarrow> preserves I (modM f)"
  by (simp add: preserves_def)

lemma preserves_seq [pres]:
  "preserves I m \<Longrightarrow> (\<And>x. preserves I (f x)) \<Longrightarrow> preserves I (seqM m f)"
  by (fastforce simp: preserves_def seqM_def split: prod.splits sum.splits)

lemma preserves_txn [pres]: "preserves I m \<Longrightarrow> preserves I (txnM m)"
  by (fastforce simp: preserves_def txnM_def split: prod.splits sum.splits)

lemma preserves_catch [pres]:
  "preserves I m \<Longrightarrow> (\<And>e. preserves I (h e)) \<Longrightarrow> preserves I (catchM m h)"
  by (fastforce simp: preserves_def catchM_def split: prod.splits sum.splits)

lemma preserves_forM [pres]: "(\<And>x. preserves I (f x)) \<Longrightarrow> preserves I (forM f xs)"
  by (induction xs) (auto intro!: pres)

lemma preserves_if [pres]:
  "(b \<Longrightarrow> preserves I m) \<Longrightarrow> (\<not> b \<Longrightarrow> preserves I n) \<Longrightarrow> preserves I (if b then m else n)"
  by simp

lemma preserves_option [pres]:
  "preserves I m \<Longrightarrow> (\<And>x. preserves I (f x)) \<Longrightarrow>
     preserves I (case a of None \<Rightarrow> m | Some x \<Rightarrow> f x)"
  by (cases a) simp_all

text \<open>
  \<open>yields P m\<close>: every result of the method, value or exception, satisfies \<open>P\<close>.
\<close>

named_theorems yields_intro "rules for the possible results of a service method"

definition yields :: "('a result \<Rightarrow> bool) \<Rightarrow> ('s, 'a) op \<Rightarrow> bool" where
  "yields P m \<longleftrightarrow> (\<forall>s. P (fst (m s)))"

lemma yieldsD: "yields P m \<Longrightarrow> P (fst (m s))"
  by (simp add: yields_def)

lemma yields_basic [yields_intro]:
  "P (Inr x) \<Longrightarrow> yields P (retM x)"
  "P (Inl e) \<Longrightarrow> yields P (raiseM e)"
  "P r \<Longrightarrow> yields P (liftM r)"
  by (simp_all add: yields_def)

lemma yields_failIf [yields_intro]:
  "(b \<Longrightarrow> P (Inl e)) \<Longrightarrow> (\<not> b \<Longrightarrow> yields P (f ())) \<Longrightarrow> yields P (seqM (failIf b e) f)"
  by (cases b) (simp_all add: yields_def)

lemma yields_if [yields_intro]:
  "(b \<Longrightarrow> yields P f) \<Longrightarrow> (\<not> b \<Longrightarrow> yields P g) \<Longrightarrow> yields P (if b then f else g)"
  by simp

lemma yields_option [yields_intro]:
  "(a = None \<Longrightarrow> yields P f) \<Longrightarrow> (\<And>x. a = Some x \<Longrightarrow> yields P (g x)) \<Longrightarrow>
     yields P (case a of None \<Rightarrow> f | Some x \<Rightarrow> g x)"
  by (cases a) simp_all

lemma yields_seq:
  assumes "yields Q m" and "\<And>e. Q (Inl e) \<Longrightarrow> P (Inl e)" and "\<And>x. Q (Inr x) \<Longrightarrow> yields P (f x)"
  shows "yields P (seqM m f)"
  unfolding yields_def
proof
  fix s
  obtain r t where m: "m s = (r, t)" by (cases "m s")
  from yieldsD [OF assms(1), of s] m have Q: "Q r" by simp
  show "P (fst (seqM m f s))"
  proof (cases r)
    case (Inl e)
    with m Q assms(2) show ?thesis by simp
  next
    case (Inr x)
    with Q assms(3) have "yields P (f x)" by simp
    from yieldsD [OF this] m Inr show ?thesis by simp
  qed
qed

text \<open>
  \<open>wp m Q E s\<close>: run in \<open>s\<close>, the method returns a value and a state that satisfy
  \<open>Q\<close>, or raises in a state that satisfies \<open>E\<close>. The collection \<open>wp\<close> computes it
  over the structure of a method, so that a property of a handler reduces to its guards.
\<close>

named_theorems wp "weakest preconditions of service methods"

definition wp :: "('s, 'a) op \<Rightarrow> ('a \<Rightarrow> 's \<Rightarrow> bool) \<Rightarrow> (exn \<Rightarrow> 's \<Rightarrow> bool) \<Rightarrow> 's \<Rightarrow> bool" where
  "wp m Q E s \<longleftrightarrow> (case m s of (Inr x, t) \<Rightarrow> Q x t | (Inl e, t) \<Rightarrow> E e t)"

lemma wp_ret [wp]: "wp (retM x) Q E s = Q x s"
  and wp_raise [wp]: "wp (raiseM e) Q' E s = E e s"
  and wp_get [wp]: "wp (getM f) Q'' E s = Q'' (f s) s"
  and wp_mod [wp]: "wp (modM g) R E s = R () (g s)"
  and wp_lift [wp]: "wp (liftM r) Q3 E s = (case r of Inl e \<Rightarrow> E e s | Inr x \<Rightarrow> Q3 x s)"
  and wp_failIf [wp]: "wp (failIf b e) R E s = (if b then E e s else R () s)"
  by (simp_all add: wp_def failIf_def split: sum.split)

lemma wp_readM [wp]: "wp (readM h) Q E s = (case h s of Inl e \<Rightarrow> E e s | Inr x \<Rightarrow> Q x s)"
  by (simp add: wp_def)

lemma wp_Pair [wp]: "wp (Pair (Inr x)) Q E s = Q x s"
  and wp_Pair_raise [wp]: "wp (Pair (Inl e)) Q' E s = E e s"
  by (simp_all add: wp_def)

lemma wp_seq [wp]: "wp (seqM m f) Q E s = wp m (\<lambda>x. wp (f x) Q E) E s"
  by (auto simp: wp_def seqM_def split: prod.splits sum.splits)

lemma wp_txn [wp]: "wp (txnM m) Q E s = wp m Q (\<lambda>e _. E e s) s"
  by (auto simp: wp_def txnM_def split: prod.splits sum.splits)

lemma wp_catch [wp]: "wp (catchM m h) Q E s = wp m Q (\<lambda>e. wp (h e) Q E) s"
  by (auto simp: wp_def catchM_def split: prod.splits sum.splits)

lemma wp_if [wp]: "wp (if b then m else n) Q E s = (if b then wp m Q E s else wp n Q E s)"
  by simp

lemma wp_option [wp]:
  "wp (case a of None \<Rightarrow> m | Some x \<Rightarrow> f x) Q E s =
     (case a of None \<Rightarrow> wp m Q E s | Some x \<Rightarrow> wp (f x) Q E s)"
  by (simp split: option.split)

lemma wp_let [wp]: "wp (let x = a in f x) Q E s = (let x = a in wp (f x) Q E s)"
  by simp

lemma wp_prod [wp]: "wp (case p of (a, b) \<Rightarrow> f a b) Q E s = (case p of (a, b) \<Rightarrow> wp (f a b) Q E s)"
  by (simp split: prod.split)

lemma wp_conseq:
  assumes "wp m Q E s" and "\<And>x t. Q x t \<Longrightarrow> Q' x t" and "\<And>e t. E e t \<Longrightarrow> E' e t"
  shows "wp m Q' E' s"
  using assms by (auto simp: wp_def split: prod.splits sum.splits)

lemma wp_Inr: "wp m Q E s \<Longrightarrow> m s = (Inr x, t) \<Longrightarrow> Q x t"
  by (simp add: wp_def)

lemma wp_Inl: "wp m Q E s \<Longrightarrow> m s = (Inl e, t) \<Longrightarrow> E e t"
  by (simp add: wp_def)

lemma wpI: "(\<And>x t. m s = (Inr x, t) \<Longrightarrow> Q x t) \<Longrightarrow> (\<And>e t. m s = (Inl e, t) \<Longrightarrow> E e t) \<Longrightarrow> wp m Q E s"
  by (auto simp: wp_def split: prod.split sum.split)

text \<open>A step that only reads: what it establishes is assumed for the rest.\<close>

lemma wp_read:
  assumes "wp m (\<lambda>x t. t = s \<and> P x) (\<lambda>_ t. t = s) s" and "\<And>e. E e s" and "\<And>x. P x \<Longrightarrow> Q x s"
  shows "wp m Q E s"
  using assms by (auto intro: wp_conseq)

lemma wp_guard: "E e s \<Longrightarrow> (\<not> b \<Longrightarrow> Q () s) \<Longrightarrow> wp (failIf b e) Q E s"
  by (simp add: wp)

lemma preserves_wp: "preserves I m \<longleftrightarrow> (\<forall>s. I s \<longrightarrow> wp m (\<lambda>_. I) (\<lambda>_. I) s)"
proof -
  have "I (snd (m s)) = wp m (\<lambda>_. I) (\<lambda>_. I) s" for s
    by (cases "m s"; cases "fst (m s)") (auto simp: wp_def)
  then show ?thesis by (simp add: preserves_def)
qed

lemma wp_invariant: "wp m (\<lambda>_. I) (\<lambda>_. I) s \<Longrightarrow> I (snd (m s))"
  by (cases "m s"; cases "fst (m s)") (auto simp: wp_def)

lemma wp_forM:
  assumes "\<And>x t. x \<in> set xs \<Longrightarrow> I t \<Longrightarrow> wp (f x) (\<lambda>_. I) E t" and "I s"
  shows "wp (forM f xs) (\<lambda>_. I) E s"
  using assms
proof (induction xs arbitrary: s)
  case Nil
  then show ?case by (simp add: wp)
next
  case (Cons x xs)
  have "wp (f x) (\<lambda>_. I) E s" using Cons.prems by simp
  then show ?case
    unfolding forM.simps wp_seq
    by (rule wp_conseq) (auto simp: wp intro!: wp_conseq [OF Cons.IH] Cons.prems(1))
qed

section \<open>JavaScript library functions used by the code\<close>

text \<open>
  Strings are lists of Latin-1 code units. \<open>trim\<close> strips the JavaScript white space of
  that range; \<open>toUpperCase\<close> is modelled on ASCII letters.
\<close>

definition js_ws :: "char \<Rightarrow> bool" where
  "js_ws c \<longleftrightarrow> c \<in> {CHR 0x09, CHR 0x0A, CHR 0x0B, CHR 0x0C, CHR 0x0D, CHR 0x20, CHR 0xA0}"

definition js_trim :: "string \<Rightarrow> string" where
  "js_trim s = rev (dropWhile js_ws (rev (dropWhile js_ws s)))"

definition js_upper_char :: "char \<Rightarrow> char" where
  "js_upper_char c =
     (if 97 \<le> (of_char c :: nat) \<and> (of_char c :: nat) \<le> 122
      then char_of ((of_char c :: nat) - 32) else c)"

definition js_upper :: "string \<Rightarrow> string" where
  "js_upper s = map js_upper_char s"

text \<open>\<open>replace(/\D/g, '')\<close>\<close>

definition digitsOf :: "string \<Rightarrow> string" where
  "digitsOf s = filter (\<lambda>c. 48 \<le> (of_char c :: nat) \<and> (of_char c :: nat) \<le> 57) s"

text \<open>\<open>split(d)\<close> for a separator of one character.\<close>

fun splitOn :: "char \<Rightarrow> string \<Rightarrow> string list" where
  "splitOn d [] = [[]]"
| "splitOn d (c # t) = (if c = d then [] # splitOn d t
     else (case splitOn d t of [] \<Rightarrow> [[c]] | w # ws \<Rightarrow> (c # w) # ws))"

lemma splitOn_word: "d \<notin> set w \<Longrightarrow> splitOn d w = [w]"
  by (induction w) auto

lemma splitOn_cons: "d \<notin> set w \<Longrightarrow> splitOn d (w @ d # t) = w # splitOn d t"
  by (induction w) auto

text \<open>\<open>s\<close> is truthy: neither null, undefined nor the empty string.\<close>

definition truthy :: "string option \<Rightarrow> bool" where
  "truthy x = (case x of None \<Rightarrow> False | Some s \<Rightarrow> s \<noteq> [])"

definition str_or :: "string option \<Rightarrow> string \<Rightarrow> string" where
  "str_or x d = (case x of None \<Rightarrow> d | Some s \<Rightarrow> if s = [] then d else s)"

text \<open>\<open>a ?? b\<close>\<close>

definition nullish :: "'a option \<Rightarrow> 'a \<Rightarrow> 'a" where
  "nullish x d = (case x of None \<Rightarrow> d | Some y \<Rightarrow> y)"

definition orElse :: "'a option \<Rightarrow> 'a option \<Rightarrow> 'a option" where
  "orElse x y = (case x of None \<Rightarrow> y | Some _ \<Rightarrow> x)"

lemma truthy_simps [simp]:
  "truthy None = False"
  "truthy (Some s) = (s \<noteq> [])"
  by (simp_all add: truthy_def)

lemma nullish_simps [simp]:
  "nullish None d = d"
  "nullish (Some x) d = x"
  by (simp_all add: nullish_def)

lemma orElse_simps [simp]:
  "orElse None y = y"
  "orElse (Some x) y = Some x"
  by (simp_all add: orElse_def)

text \<open>\<open>Math.round\<close>: the nearest integer, halves towards plus infinity.\<close>

definition js_round :: "rat \<Rightarrow> int" where
  "js_round x = \<lfloor>x + 1 / 2\<rfloor>"

lemma js_round_of_int [simp]: "js_round (of_int n) = n"
  by (simp add: js_round_def floor_eq_iff)

lemma js_round_mono: "x \<le> y \<Longrightarrow> js_round x \<le> js_round y"
  by (simp add: js_round_def floor_mono)

text \<open>Evaluation of floors at concrete rationals.\<close>

lemma floor_rat_numeral_div [simp]: "\<lfloor>numeral a / numeral b :: rat\<rfloor> = numeral a div numeral b"
  using floor_divide_of_int_eq [of "numeral a" "numeral b", where 'a = rat] by simp

lemma floor_rat_one_div [simp]: "\<lfloor>1 / numeral b :: rat\<rfloor> = 1 div numeral b"
  using floor_divide_of_int_eq [of 1 "numeral b", where 'a = rat] by simp

text \<open>\<open>[...new Set(xs)]\<close>: the distinct elements in order of first occurrence.\<close>

definition uniq :: "'a list \<Rightarrow> 'a list" where
  "uniq xs = rev (remdups (rev xs))"

lemma set_uniq [simp]: "set (uniq xs) = set xs"
  and distinct_uniq [simp]: "distinct (uniq xs)"
  by (simp_all add: uniq_def)

text \<open>Decimal notation of a count, as template literals print it.\<close>

fun show_nat :: "nat \<Rightarrow> string" where
  "show_nat n = (if n < 10 then [char_of (48 + n)] else show_nat (n div 10) @ [char_of (48 + n mod 10)])"

declare show_nat.simps [simp del]

section \<open>Lists\<close>

lemma find_Some_in: "List.find P xs = Some x \<Longrightarrow> x \<in> set xs \<and> P x"
  by (induction xs) (auto split: if_splits)

lemma find_None_all: "List.find P xs = None \<longleftrightarrow> (\<forall>x \<in> set xs. \<not> P x)"
  by (auto simp: find_None_iff)

lemma sum_list_nonneg_rat: "(\<And>x. x \<in> set xs \<Longrightarrow> 0 \<le> f x) \<Longrightarrow> 0 \<le> (\<Sum>x\<leftarrow>xs. f x :: rat)"
  by (induction xs) auto

lemma list_all_map_iff: "list_all P (map f xs) \<longleftrightarrow> (\<forall>x \<in> set xs. P (f x))"
  by (induction xs) auto

end
