(* ===== verification/Entities.thy ===== *)
theory Entities
  imports Prelude
begin

text \<open>
  The data model: one \<open>datatype\<close> per enum and one \<open>record\<close> per TypeORM entity of
  \<^verbatim>\<open>src/src/database/entities\<close> that the modelled services read or write, with the persisted
  columns of the entity in its order. A nullable column is an \<open>option\<close>. Navigation
  properties (the \<open>@ManyToOne\<close>, \<open>@OneToMany\<close> members) are not stored in the row: they are
  the joins of the tables over the foreign keys, written out where the code loads relations.
  Record fields carry a prefix (\<open>o_\<close>, \<open>oi_\<close>, \<dots>) because HOL record fields are global.

  \<open>jsonb\<close> columns are \<open>json\<close> values (or association lists where the entity says
  \<open>Record<string, string>\<close>). \<open>numeric\<close> columns are rationals.

  \<open>db\<close> is the database the services share, with the counter of generated ids and the trace
  of outgoing effects (notifications, webhooks, gateway calls) whose receivers are outside the
  model.
\<close>

section \<open>Enums\<close>

datatype order_status =
    OS_PENDING_PAYMENT | OS_PAID | OS_PROCESSING | OS_ON_HOLD | OS_SHIPPED | OS_DELIVERED
  | OS_CANCELLED | OS_REFUNDED

datatype payment_method =
    PM_PROMPTPAY | PM_CREDIT_CARD | PM_COD | PM_BANK_TRANSFER | PM_TRUEMONEY | PM_SHOPEEPAY

datatype fulfillment_status =
    FS_PENDING | FS_PROCESSING | FS_ON_HOLD | FS_SHIPPED | FS_DELIVERED | FS_CANCELLED

datatype data_source = DS_PLATFORM | DS_VENDOR_IMPORT

datatype inventory_tx_type = IT_PURCHASE | IT_SALE | IT_ADJUSTMENT | IT_RETURN | IT_DAMAGED

datatype payment_status = PY_PENDING | PY_PAID | PY_FAILED | PY_REFUNDED

datatype payout_status = PS_PENDING | PS_PROCESSING | PS_COMPLETED | PS_FAILED

datatype settlement_rail = RAIL_OMISE | RAIL_MANUAL

datatype promotion_type =
    PT_PERCENTAGE | PT_FIXED_AMOUNT | PT_FREE_SHIPPING | PT_BUY_X_GET_Y
  | PT_FIXED_SHIPPING_DISCOUNT | PT_PERCENTAGE_SHIPPING_DISCOUNT

datatype promotion_scope = SC_PLATFORM | SC_STORE

datatype store_status = ST_PENDING | ST_APPROVED | ST_REJECTED | ST_SUSPENDED

datatype member_role = MR_OWNER | MR_MANAGER | MR_STAFF

datatype user_role = UR_ADMIN | UR_VENDOR | UR_CUSTOMER

datatype payout_schedule =
    SCH_MANUAL | SCH_DAILY | SCH_WEEKLY | SCH_BIWEEKLY | SCH_MONTHLY

datatype recipient_status = RS_NOT_CONNECTED | RS_PENDING | RS_ACTIVE | RS_FAILED

datatype product_status = PR_DRAFT | PR_PUBLISHED | PR_ARCHIVED

datatype audit_event =
    AE_ORDER_PLACED | AE_PAYMENT_METHOD_CHANGED | AE_PAYMENT_APPROVED | AE_ORDER_ACCEPTED

datatype audit_actor = AA_customer | AA_admin | AA_vendor | AA_system

datatype method_type = MT_CREDIT_CARD | MT_DEBIT_CARD

datatype reactivation_status = RQ_PENDING | RQ_APPROVED | RQ_REJECTED

datatype request_status = SR_PENDING | SR_APPROVED | SR_REJECTED

datatype invitation_status = IN_PENDING | IN_ACCEPTED | IN_EXPIRED | IN_REVOKED

datatype review_status = RV_PENDING | RV_APPROVED | RV_REJECTED

datatype review_source = VS_CUSTOMER | VS_VENDOR_IMPORT

text \<open>The value of a \<open>jsonb\<close> column, as \<open>JSON.parse\<close> yields it.\<close>

datatype json =
    JNull
  | JBool bool
  | JNum rat
  | JStr string
  | JArr "json list"
  | JObj "(string \<times> json) list"

text \<open>The database value of an order status, as it is spliced into history notes.\<close>

fun order_status_text :: "order_status \<Rightarrow> string" where
  "order_status_text OS_PENDING_PAYMENT = ''pending_payment''"
| "order_status_text OS_PAID = ''paid''"
| "order_status_text OS_PROCESSING = ''processing''"
| "order_status_text OS_ON_HOLD = ''on_hold''"
| "order_status_text OS_SHIPPED = ''shipped''"
| "order_status_text OS_DELIVERED = ''delivered''"
| "order_status_text OS_CANCELLED = ''cancelled''"
| "order_status_text OS_REFUNDED = ''refunded''"

section \<open>Rows\<close>

record order_row =
  o_id :: string
  o_orderNumber :: string
  o_customerId :: "string option"
  o_guestPhone :: "string option"
  o_guestName :: "string option"
  o_guestEmail :: "string option"
  o_guestPayTokenHash :: "string option"
  o_guestPayTokenExpiresAt :: "date option"
  o_status :: order_status
  o_previousStatus :: "order_status option"
  o_subtotal :: money
  o_discountAmount :: money
  o_shippingFee :: money
  o_total :: money
  o_paymentMethod :: payment_method
  o_paymentReference :: "string option"
  o_paidAt :: "date option"
  o_notes :: "string option"
  o_sourceDisputeId :: "string option"
  o_source :: data_source
  o_createdAt :: date
  o_updatedAt :: date

record item_row =
  oi_id :: string
  oi_orderId :: string
  oi_storeId :: string
  oi_variantId :: string
  oi_productName :: string
  oi_variantOptions :: "(string \<times> string) list"
  oi_unitPrice :: money
  oi_catalogUnitPrice :: "money option"
  oi_saleCampaignId :: "string option"
  oi_saleDiscountPercent :: "rat option"
  oi_quantity :: int
  oi_subtotal :: money
  oi_fulfillmentStatus :: fulfillment_status
  oi_previousFulfillmentStatus :: "fulfillment_status option"
  oi_holdStartedAt :: "date option"
  oi_trackingNumber :: "string option"
  oi_fulfillmentProvider :: "string option"
  oi_trackingUrl :: "string option"
  oi_shippedAt :: "date option"
  oi_deliveredAt :: "date option"
  oi_createdAt :: date
  oi_updatedAt :: date

record store_shipping_row =
  ss_id :: string
  ss_orderId :: string
  ss_storeId :: string
  ss_shippingOptionId :: string
  ss_optionName :: string
  ss_shippingFee :: money
  ss_createdAt :: date

record history_row =
  h_id :: string
  h_orderId :: string
  h_status :: order_status
  h_changedBy :: "string option"
  h_notes :: "string option"
  h_createdAt :: date

record audit_row =
  al_id :: string
  al_orderId :: string
  al_eventType :: audit_event
  al_occurredAt :: date
  al_actorType :: audit_actor
  al_actorId :: "string option"
  al_actorLabel :: "string option"
  al_storeId :: "string option"
  al_details :: json
  al_createdAt :: date

record variant_row =
  v_id :: string
  v_productId :: string
  v_sku :: string
  v_options :: "(string \<times> string) list"
  v_priceAdjustment :: money
  v_compareAtPrice :: "money option"
  v_stockQuantity :: int
  v_lowStockThreshold :: "int option"
  v_imageUrl :: "string option"
  v_weight :: "rat option"
  v_createdAt :: date
  v_updatedAt :: date
  v_deletedAt :: "date option"
  v_retiredAt :: "date option"

record product_row =
  p_id :: string
  p_storeId :: string
  p_name :: string
  p_slug :: string
  p_description :: "string option"
  p_basePrice :: money
  p_compareAtPrice :: "money option"
  p_status :: product_status
  p_categoryId :: "string option"
  p_petTypeId :: "string option"
  p_brandId :: "string option"
  p_category :: "string option"
  p_tags :: "string list"
  p_warning :: "string option"
  p_expiryDate :: "string option"
  p_metadata :: json
  p_averageRating :: rat
  p_reviewCount :: int
  p_createdAt :: date
  p_updatedAt :: date
  p_deletedAt :: "date option"

record store_row =
  st_id :: string
  st_ownerId :: string
  st_name :: string
  st_slug :: string
  st_description :: "string option"
  st_logoUrl :: "string option"
  st_bannerUrl :: "string option"
  st_status :: store_status
  st_approvedBy :: "string option"
  st_approvedAt :: "date option"
  st_rejectionReason :: "string option"
  st_contactPhone :: "string option"
  st_contactEmail :: "string option"
  st_address :: "string option"
  st_bankAccountName :: "string option"
  st_bankAccountNumber :: "string option"
  st_bankName :: "string option"
  st_bankCode :: "string option"
  st_omiseRecipientId :: "string option"
  st_omiseRecipientStatus :: recipient_status
  st_omiseRecipientFailureMessage :: "string option"
  st_payoutSchedule :: payout_schedule
  st_payoutSchedulePaused :: bool
  st_commissionRate :: "int option"
  st_createdAt :: date
  st_updatedAt :: date
  st_deletedAt :: "date option"

record member_row =
  mb_id :: string
  mb_storeId :: string
  mb_userId :: string
  mb_role :: member_role
  mb_permissions :: "(string \<times> bool) list"
  mb_createdAt :: date
  mb_updatedAt :: date

record user_row =
  u_id :: string
  u_email :: string
  u_passwordHash :: string
  u_fullName :: string
  u_profilePhotoUrl :: "string option"
  u_role :: user_role
  u_isActive :: bool
  u_emailVerified :: bool
  u_lastLoginAt :: "date option"
  u_tokenVersion :: int
  u_createdAt :: date
  u_updatedAt :: date
  u_deletedAt :: "date option"

record inventory_tx_row =
  it_id :: string
  it_variantId :: string
  it_type :: inventory_tx_type
  it_quantityChange :: int
  it_quantityAfter :: int
  it_referenceId :: "string option"
  it_referenceType :: "string option"
  it_notes :: "string option"
  it_performedBy :: "string option"
  it_createdAt :: date

record payment_row =
  py_id :: string
  py_orderId :: string
  py_amount :: money
  py_currency :: string
  py_paymentMethod :: payment_method
  py_status :: payment_status
  py_authorizeUri :: "string option"
  py_qrCodeUrl :: "string option"
  py_expiresAt :: "date option"
  py_omiseChargeId :: "string option"
  py_createdAt :: date
  py_updatedAt :: date

record payout_row =
  po_id :: string
  po_storeId :: string
  po_amount :: money
  po_fee :: money
  po_netAmount :: money
  po_commissionRate :: "int option"
  po_productSold :: "money option"
  po_shippingFees :: "money option"
  po_commissionAmount :: "money option"
  po_status :: payout_status
  po_settlementRail :: settlement_rail
  po_transferReference :: "string option"
  po_processedBy :: "string option"
  po_processedAt :: "date option"
  po_failureReason :: "string option"
  po_notes :: "string option"
  po_createdAt :: date
  po_updatedAt :: date

record promotion_row =
  pm_id :: string
  pm_storeId :: "string option"
  pm_code :: string
  pm_name :: string
  pm_description :: "string option"
  pm_type :: promotion_type
  pm_scope :: promotion_scope
  pm_discountValue :: rat
  pm_minPurchaseAmount :: "money option"
  pm_maxDiscountAmount :: "money option"
  pm_usageLimit :: "int option"
  pm_usagePerCustomer :: int
  pm_usageCount :: int
  pm_isActive :: bool
  pm_autoApply :: bool
  pm_priority :: int
  pm_conditions :: "(string \<times> json) list"
  pm_startsAt :: "date option"
  pm_expiresAt :: "date option"
  pm_createdAt :: date
  pm_updatedAt :: date
  pm_deletedAt :: "date option"

record promotion_usage_row =
  pu_id :: string
  pu_promotionId :: string
  pu_orderId :: string
  pu_discountAmount :: money
  pu_createdAt :: date

record customer_row =
  c_id :: string
  c_phone :: string
  c_fullName :: "string option"
  c_email :: "string option"
  c_dateOfBirth :: "string option"
  c_profilePhotoUrl :: "string option"
  c_isVerified :: bool
  c_isActive :: bool
  c_deletionRequestedAt :: "date option"
  c_lastLoginAt :: "date option"
  c_tokenVersion :: int
  c_omiseCustomerId :: "string option"
  c_source :: data_source
  c_importStoreId :: "string option"
  c_externalId :: "string option"
  c_createdAt :: date
  c_updatedAt :: date
  c_deletedAt :: "date option"

record cart_row =
  ct_id :: string
  ct_customerId :: "string option"
  ct_sessionId :: "string option"
  ct_mergedAt :: "date option"
  ct_createdAt :: date
  ct_updatedAt :: date

record cart_item_row =
  ci_id :: string
  ci_cartId :: string
  ci_variantId :: string
  ci_quantity :: int
  ci_createdAt :: date
  ci_updatedAt :: date

record sale_campaign_row =
  sc_id :: string
  sc_storeId :: string
  sc_name :: string
  sc_description :: "string option"
  sc_startsAt :: "date option"
  sc_expiresAt :: "date option"
  sc_isActive :: bool
  sc_priority :: int
  sc_createdAt :: date
  sc_updatedAt :: date
  sc_deletedAt :: "date option"

record sale_campaign_item_row =
  sci_id :: string
  sci_campaignId :: string
  sci_productId :: string
  sci_variantId :: "string option"
  sci_compareAtPrice :: "money option"
  sci_discountPercent :: "rat option"
  sci_createdAt :: date
  sci_updatedAt :: date

record shipping_address_row =
  sa_id :: string
  sa_orderId :: string
  sa_savedAddressId :: "string option"
  sa_fullName :: string
  sa_phone :: string
  sa_addressLine1 :: string
  sa_addressLine2 :: "string option"
  sa_tumbon :: "string option"
  sa_amphoe :: string
  sa_province :: string
  sa_postalCode :: string
  sa_createdAt :: date

record saved_address_row =
  sv_id :: string
  sv_customerId :: string
  sv_fullName :: string
  sv_phone :: string
  sv_addressLine1 :: string
  sv_addressLine2 :: "string option"
  sv_tumbon :: "string option"
  sv_amphoe :: string
  sv_district :: string
  sv_province :: string
  sv_postalCode :: string
  sv_isDefault :: bool
  sv_label :: "string option"
  sv_createdAt :: date
  sv_updatedAt :: date
  sv_deletedAt :: "date option"

record shipping_option_row =
  so_id :: string
  so_storeId :: string
  so_name :: string
  so_description :: "string option"
  so_price :: money
  so_sortOrder :: int
  so_isActive :: bool
  so_providerId :: "string option"
  so_createdAt :: date
  so_updatedAt :: date
  so_deletedAt :: "date option"

record saved_method_row =
  sm_id :: string
  sm_customerId :: string
  sm_type :: method_type
  sm_omiseCardToken :: string
  sm_cardFingerprint :: "string option"
  sm_lastFour :: string
  sm_brand :: string
  sm_expiryMonth :: int
  sm_expiryYear :: int
  sm_isDefault :: bool
  sm_createdAt :: date
  sm_updatedAt :: date
  sm_deletedAt :: "date option"

record reactivation_row =
  rr_id :: string
  rr_storeId :: string
  rr_submittedByUserId :: string
  rr_title :: string
  rr_content :: string
  rr_status :: reactivation_status
  rr_reviewNote :: "string option"
  rr_reviewedBy :: "string option"
  rr_reviewedAt :: "date option"
  rr_createdAt :: date
  rr_updatedAt :: date

record reactivation_image_row =
  ri_id :: string
  ri_requestId :: string
  ri_imageUrl :: string
  ri_sortOrder :: int
  ri_createdAt :: date

record store_request_row =
  sr_id :: string
  sr_vendorUserId :: string
  sr_storeName :: string
  sr_description :: "string option"
  sr_contactPhone :: "string option"
  sr_contactEmail :: "string option"
  sr_address :: "string option"
  sr_logoUrl :: "string option"
  sr_status :: request_status
  sr_rejectionReason :: "string option"
  sr_reviewedBy :: "string option"
  sr_reviewedAt :: "date option"
  sr_createdStoreId :: "string option"
  sr_createdAt :: date
  sr_updatedAt :: date

record member_invitation_row =
  mi_id :: string
  mi_storeId :: string
  mi_invitedBy :: string
  mi_email :: string
  mi_role :: member_role
  mi_token :: string
  mi_status :: invitation_status
  mi_expiresAt :: date
  mi_acceptedAt :: "date option"
  mi_createdAt :: date
  mi_updatedAt :: date

record vendor_invitation_row =
  vi_id :: string
  vi_email :: string
  vi_token :: string
  vi_invitedBy :: string
  vi_status :: invitation_status
  vi_expiresAt :: date
  vi_acceptedAt :: "date option"
  vi_createdAt :: date
  vi_updatedAt :: date

record review_row =
  rv_id :: string
  rv_productId :: string
  rv_customerId :: "string option"
  rv_orderId :: "string option"
  rv_rating :: int
  rv_comment :: "string option"
  rv_variantOptions :: "string option"
  rv_status :: review_status
  rv_source :: review_source
  rv_moderatedBy :: "string option"
  rv_moderatedAt :: "date option"
  rv_createdAt :: date
  rv_updatedAt :: date
  rv_deletedAt :: "date option"

record review_image_row =
  rg_id :: string
  rg_reviewId :: string
  rg_url :: string
  rg_createdAt :: date

record review_reply_row =
  ry_id :: string
  ry_reviewId :: string
  ry_body :: string
  ry_createdAt :: date
  ry_updatedAt :: date

section \<open>The database and the outgoing effects\<close>

text \<open>
  Calls to services whose work happens outside the model are recorded in order: customer and
  vendor notifications, vendor webhooks, dashboard events, audit log entries (actor, action, resource), and the
  transfers sent to Omise (recipient and amount in satang). Charges are recorded with the payment they
  are for and the amount in satang, the release of a charge with its id.
\<close>

datatype effect =
    NotifyOrderStatus string order_status
  | NotifyVendorsStatus string order_status
  | NotifyVendorsNewOrder string
  | DashboardOrder string "string option" "string list"
  | NotifyItemsOnHold string string
  | NotifyItemsResumed string string
  | NotifyManualPayout string
  | VendorWebhook string string
  | DashboardPayout string
  | OmiseTransferSent string int
  | NotifyVendorStoreStatus string string store_status
  | DashboardStoreStatus string string
  | AuditLogged string string string
  | EmailVendorSuspended string "string option"
  | PaymentUpdated string payment_status
  | ChargeRequested string int
  | ChargeCancelRequested string
  | CardRequested string
  | NotifyOrderPaid string
  | DashboardBankTransfer string "string option" "string list"
  | DashboardReactivation string "string option" "string list"
  | DashboardStoreRequest string "string option" "string list"
  | NotifyStoreRequest string string bool
  | EmailStoreInvite string string
  | EmailVendorInvite string
  | DashboardReview string "string option" "string option"

record db =
  dbOrders :: "order_row list"
  dbItems :: "item_row list"
  dbShippings :: "store_shipping_row list"
  dbHistory :: "history_row list"
  dbAudits :: "audit_row list"
  dbVariants :: "variant_row list"
  dbProducts :: "product_row list"
  dbStores :: "store_row list"
  dbMembers :: "member_row list"
  dbUsers :: "user_row list"
  dbInventoryTxs :: "inventory_tx_row list"
  dbPayments :: "payment_row list"
  dbPayouts :: "payout_row list"
  dbPromotions :: "promotion_row list"
  dbPromotionUsages :: "promotion_usage_row list"
  dbCustomers :: "customer_row list"
  dbCarts :: "cart_row list"
  dbCartItems :: "cart_item_row list"
  dbSaleCampaigns :: "sale_campaign_row list"
  dbSaleCampaignItems :: "sale_campaign_item_row list"
  dbShippingAddresses :: "shipping_address_row list"
  dbSavedAddresses :: "saved_address_row list"
  dbShippingOptions :: "shipping_option_row list"
  dbSavedMethods :: "saved_method_row list"
  dbReactivations :: "reactivation_row list"
  dbReactivationImages :: "reactivation_image_row list"
  dbStoreRequests :: "store_request_row list"
  dbMemberInvitations :: "member_invitation_row list"
  dbVendorInvitations :: "vendor_invitation_row list"
  dbReviews :: "review_row list"
  dbReviewImages :: "review_image_row list"
  dbReviewReplies :: "review_reply_row list"
  idCount :: nat
  dbEffects :: "effect list"

definition empty_db :: db where
  "empty_db = \<lparr>dbOrders = [], dbItems = [], dbShippings = [], dbHistory = [], dbAudits = [], dbVariants = [],
     dbProducts = [], dbStores = [], dbMembers = [], dbUsers = [], dbInventoryTxs = [], dbPayments = [], dbPayouts = [], dbPromotions = [],
     dbPromotionUsages = [], dbCustomers = [], dbCarts = [], dbCartItems = [], dbSaleCampaigns = [],
     dbSaleCampaignItems = [], dbShippingAddresses = [], dbSavedAddresses = [], dbShippingOptions = [],
     dbSavedMethods = [], dbReactivations = [], dbReactivationImages = [], dbStoreRequests = [], dbMemberInvitations = [], dbVendorInvitations = [], dbReviews = [], dbReviewImages = [], dbReviewReplies = [], idCount = 0, dbEffects = []\<rparr>"

text \<open>
  What a call is given by its environment: the clock, and the ids PostgreSQL generates (the
  \<open>n\<close>-th id of a run is \<open>envUuid env n\<close>; code that needs them distinct says so by
  \<open>inj (envUuid env)\<close>), and the orders whose status e-mail the mail provider refuses.
\<close>

record env =
  envNow :: date
  envUuid :: "nat \<Rightarrow> string"
  envMailFails :: "string \<Rightarrow> bool"

definition freshId :: "env \<Rightarrow> (db, string) op" where
  "freshId env = (\<lambda>s. (Inr (envUuid env (idCount s)), s\<lparr>idCount := Suc (idCount s)\<rparr>))"

definition emit :: "effect \<Rightarrow> (db, unit) op" where
  "emit e = modM (\<lambda>s. s\<lparr>dbEffects := dbEffects s @ [e]\<rparr>)"

text \<open>
  \<open>notifyOrderStatusChanged\<close> of the notifications service is awaited and rethrows a refused e-mail
  (\<open>EmailService.send\<close>) after it has stored the in-app notification.
\<close>

definition notifyOrderStatusChanged :: "env \<Rightarrow> string \<Rightarrow> order_status \<Rightarrow> (db, unit) op" where
  "notifyOrderStatusChanged env orderId status = seqM (emit (NotifyOrderStatus orderId status)) (\<lambda>_.
     failIf (envMailFails env orderId) (Failure ''Failed to send email''))"

lemma freshId_apply [simp]:
  "freshId env s = (Inr (envUuid env (idCount s)), s\<lparr>idCount := Suc (idCount s)\<rparr>)"
  by (simp add: freshId_def)

lemma emit_apply [simp]: "emit e s = (Inr (), s\<lparr>dbEffects := dbEffects s @ [e]\<rparr>)"
  by (simp add: emit_def)

lemma wp_freshId [wp]:
  "wp (freshId env) Q E s = Q (envUuid env (idCount s)) (s\<lparr>idCount := Suc (idCount s)\<rparr>)"
  by (simp add: wp_def)

lemma wp_emit [wp]: "wp (emit e) Q E s = Q () (s\<lparr>dbEffects := dbEffects s @ [e]\<rparr>)"
  by (simp add: wp_def)

lemma wp_notifyOrderStatusChanged [wp]:
  "wp (notifyOrderStatusChanged env i st) Q E s =
     (let t = s\<lparr>dbEffects := dbEffects s @ [NotifyOrderStatus i st]\<rparr> in
      if envMailFails env i then E (Failure ''Failed to send email'') t else Q () t)"
  by (simp add: notifyOrderStatusChanged_def wp Let_def)

lemma preserves_freshId [pres]:
  "(\<And>s. I s \<Longrightarrow> I (s\<lparr>idCount := Suc (idCount s)\<rparr>)) \<Longrightarrow> preserves I (freshId env)"
  by (simp add: preserves_def)

lemma preserves_emit [pres]:
  "(\<And>s. I s \<Longrightarrow> I (s\<lparr>dbEffects := dbEffects s @ [e]\<rparr>)) \<Longrightarrow> preserves I (emit e)"
  by (simp add: preserves_def)

end
