(* ===== verification/Repository.thy ===== *)
theory Repository
  imports Entities
begin

text \<open>
  TypeORM repositories as lists of rows in insertion order: \<open>save\<close> replaces the row with the
  same primary key or appends a new one, \<open>findOne\<close> takes the first match, \<open>find\<close> is
  \<open>filter\<close>, \<open>delete\<close> removes the matches. The locale \<open>repository\<close> is the contract the
  services rely on: what a lookup by primary key returns after a save, and that the key stays
  unique. It is interpreted on every table the services write.
\<close>

section \<open>Operations\<close>

fun saveRow :: "('r \<Rightarrow> string) \<Rightarrow> 'r \<Rightarrow> 'r list \<Rightarrow> 'r list" where
  "saveRow key r [] = [r]"
| "saveRow key r (x # xs) = (if key x = key r then r # xs else x # saveRow key r xs)"

definition saveRows :: "('r \<Rightarrow> string) \<Rightarrow> 'r list \<Rightarrow> 'r list \<Rightarrow> 'r list" where
  "saveRows key rs xs = fold (saveRow key) rs xs"

definition byKey :: "('r \<Rightarrow> string) \<Rightarrow> string \<Rightarrow> 'r list \<Rightarrow> 'r option" where
  "byKey key i xs = List.find (\<lambda>x. key x = i) xs"

definition uniqueKey :: "('r \<Rightarrow> string) \<Rightarrow> 'r list \<Rightarrow> bool" where
  "uniqueKey key xs \<longleftrightarrow> distinct (map key xs)"

lemma saveRows_simps [simp]:
  "saveRows key [] xs = xs"
  "saveRows key (r # rs) xs = saveRows key rs (saveRow key r xs)"
  by (simp_all add: saveRows_def)

lemma byKey_simps [simp]:
  "byKey key i [] = None"
  "byKey key i (x # xs) = (if key x = i then Some x else byKey key i xs)"
  by (simp_all add: byKey_def)

lemma byKey_Some: "byKey key i xs = Some x \<Longrightarrow> x \<in> set xs \<and> key x = i"
  by (induction xs) (auto split: if_splits)

lemma byKey_None_iff: "byKey key i xs = None \<longleftrightarrow> i \<notin> key ` set xs"
  by (induction xs) auto

lemma byKey_in: "uniqueKey key xs \<Longrightarrow> x \<in> set xs \<Longrightarrow> byKey key (key x) xs = Some x"
  by (induction xs) (auto simp: uniqueKey_def rev_image_eqI)

lemma keys_saveRow: "key ` set (saveRow key r xs) = insert (key r) (key ` set xs)"
  by (induction xs) auto

lemma uniqueKey_saveRow: "uniqueKey key xs \<Longrightarrow> uniqueKey key (saveRow key r xs)"
proof (induction xs)
  case Nil
  then show ?case by (simp add: uniqueKey_def)
next
  case (Cons x xs)
  then have IH: "uniqueKey key (saveRow key r xs)" by (simp add: uniqueKey_def)
  have "key x \<noteq> key r \<Longrightarrow> key x \<notin> key ` set (saveRow key r xs)"
    using Cons.prems by (auto simp: keys_saveRow uniqueKey_def)
  with IH Cons.prems show ?case by (auto simp: uniqueKey_def)
qed

lemma byKey_saveRow:
  "byKey key i (saveRow key r xs) = (if i = key r then Some r else byKey key i xs)"
  by (induction xs) auto

lemma mem_saveRow: "x \<in> set (saveRow key r xs) \<Longrightarrow> x = r \<or> x \<in> set xs"
  by (induction xs) (auto split: if_splits)

lemma mem_saveRows: "x \<in> set (saveRows key rs xs) \<Longrightarrow> x \<in> set rs \<or> x \<in> set xs"
proof (induction rs arbitrary: xs)
  case Nil
  then show ?case by simp
next
  case (Cons r rs)
  from Cons.prems have "x \<in> set rs \<or> x \<in> set (saveRow key r xs)"
    using Cons.IH by simp
  then show ?case by (auto dest: mem_saveRow)
qed

text \<open>A filter that the saved row meets as its stored version did commutes with the save.\<close>

lemma filter_saveRow_other:
  assumes "\<not> P r" and "\<And>x. x \<in> set xs \<Longrightarrow> key x = key r \<Longrightarrow> \<not> P x"
  shows "filter P (saveRow key r xs) = filter P xs"
  using assms by (induction xs) auto

lemma map_saveRow_congr:
  assumes "\<And>x. x \<in> set xs \<Longrightarrow> key x = key r \<Longrightarrow> f x = f r" and "key r \<in> key ` set xs"
  shows "map f (saveRow key r xs) = map f xs"
  using assms by (induction xs) auto

text \<open>
  Saving rows that carry the keys of the table, one per key, replaces them all in place.
\<close>

lemma saveRow_present: "byKey key (key r) xs = Some y \<Longrightarrow>
   uniqueKey key xs \<Longrightarrow> saveRow key r xs = map (\<lambda>x. if key x = key r then r else x) xs"
proof (induction xs)
  case Nil
  then show ?case by simp
next
  case (Cons x xs)
  show ?case
  proof (cases "key x = key r")
    case True
    with Cons.prems(2) have "\<forall>z \<in> set xs. key z \<noteq> key r"
      by (auto simp: uniqueKey_def image_iff)
    with True show ?thesis by (simp add: map_idI)
  next
    case False
    with Cons show ?thesis by (simp add: uniqueKey_def)
  qed
qed

section \<open>The contract of a repository\<close>

locale repository =
  fixes key :: "'r \<Rightarrow> string"
    and save :: "'r \<Rightarrow> 'r list \<Rightarrow> 'r list"
    and byId :: "string \<Rightarrow> 'r list \<Rightarrow> 'r option"
    and unique :: "'r list \<Rightarrow> bool"
  assumes byId_save: "byId i (save r rs) = (if i = key r then Some r else byId i rs)"
    and byId_key: "byId i rs = Some r \<Longrightarrow> key r = i"
    and byId_mem: "byId i rs = Some r \<Longrightarrow> r \<in> set rs"
    and unique_save: "unique rs \<Longrightarrow> unique (save r rs)"
    and save_mem: "x \<in> set (save r rs) \<Longrightarrow> x = r \<or> x \<in> set rs"
begin

lemma read_own_write: "byId (key r) (save r rs) = Some r"
  by (simp add: byId_save)

lemma read_other: "i \<noteq> key r \<Longrightarrow> byId i (save r rs) = byId i rs"
  by (simp add: byId_save)

lemma last_write_wins: "key q = key r \<Longrightarrow> byId i (save q (save r rs)) = byId i (save q rs)"
  by (simp add: byId_save)

lemma writes_commute:
  "key q \<noteq> key r \<Longrightarrow> byId i (save q (save r rs)) = byId i (save r (save q rs))"
  by (simp add: byId_save)

text \<open>A property of all rows survives a save of a row that has it.\<close>

lemma all_rows_save: "(\<forall>x \<in> set rs. P x) \<Longrightarrow> P r \<Longrightarrow> (\<forall>x \<in> set (save r rs). P x)"
  using save_mem by blast

lemma unique_fold_save: "unique rs \<Longrightarrow> unique (fold save qs rs)"
  by (induction qs arbitrary: rs) (auto intro: unique_save)

lemma byId_fold_save_other:
  "i \<notin> key ` set qs \<Longrightarrow> byId i (fold save qs rs) = byId i rs"
  by (induction qs arbitrary: rs) (auto simp: byId_save)

end

lemma repository_saveRow: "repository key (saveRow key) (byKey key) (uniqueKey key)"
  by unfold_locales
    (auto simp: byKey_saveRow uniqueKey_saveRow dest: byKey_Some mem_saveRow)

interpretation order_repo: repository o_id "saveRow o_id" "byKey o_id" "uniqueKey o_id"
  by (rule repository_saveRow)

interpretation item_repo: repository oi_id "saveRow oi_id" "byKey oi_id" "uniqueKey oi_id"
  by (rule repository_saveRow)

interpretation variant_repo: repository v_id "saveRow v_id" "byKey v_id" "uniqueKey v_id"
  by (rule repository_saveRow)

interpretation inventory_tx_repo: repository it_id "saveRow it_id" "byKey it_id" "uniqueKey it_id"
  by (rule repository_saveRow)

interpretation payout_repo: repository po_id "saveRow po_id" "byKey po_id" "uniqueKey po_id"
  by (rule repository_saveRow)

interpretation store_repo: repository st_id "saveRow st_id" "byKey st_id" "uniqueKey st_id"
  by (rule repository_saveRow)

interpretation payment_repo: repository py_id "saveRow py_id" "byKey py_id" "uniqueKey py_id"
  by (rule repository_saveRow)

interpretation promotion_repo: repository pm_id "saveRow pm_id" "byKey pm_id" "uniqueKey pm_id"
  by (rule repository_saveRow)

interpretation cart_repo: repository ct_id "saveRow ct_id" "byKey ct_id" "uniqueKey ct_id"
  by (rule repository_saveRow)

interpretation cart_item_repo: repository ci_id "saveRow ci_id" "byKey ci_id" "uniqueKey ci_id"
  by (rule repository_saveRow)

end
