(* ===== verification/Payout_Commission.thy ===== *)
theory Payout_Commission
  imports Repository
begin

text \<open>
  \<^verbatim>\<open>src/src/modules/payouts/payout-commission.calculator.ts\<close>: the pure payout math. Amounts come
  in as baht and are converted to integer satang; all arithmetic is on integers.
  \<open>consumeToAmount\<close> searches for the largest product amount whose net fits a requested sum;
  the locale \<open>commission_scheme\<close> states what that search needs of the commission and is
  interpreted on \<open>commissionSatang\<close>.
\<close>

section \<open>The calculator\<close>

record unpaid_buckets =
  ub_pre :: money
  ub_post :: money
  ub_ship :: money

record prior_payout =
  pp_amount :: money
  pp_productSold :: "money option"
  pp_shippingFees :: "money option"
  pp_commissionAmount :: "money option"
  pp_commissionRate :: "int option"

record breakdown =
  bd_productSold :: money
  bd_shippingFees :: money
  bd_commissionAmount :: money
  bd_commissionRate :: int
  bd_net :: money

definition effectiveRate :: "int option \<Rightarrow> int \<Rightarrow> int" where
  "effectiveRate stored defaultRate = nullish stored defaultRate"

definition commissionSatang :: "int \<Rightarrow> int \<Rightarrow> int" where
  "commissionSatang postProductSatang ratePercent = (postProductSatang * ratePercent + 50) div 100"

definition toSatang :: "money \<Rightarrow> int" where
  "toSatang thb = \<lfloor>thb * 100 + 1 / 2\<rfloor>"

definition fromSatang :: "int \<Rightarrow> money" where
  "fromSatang satang = of_int satang / 100"

definition hasSnapshot :: "prior_payout \<Rightarrow> bool" where
  "hasSnapshot p \<longleftrightarrow> pp_productSold p \<noteq> None \<and> pp_shippingFees p \<noteq> None \<and>
     pp_commissionAmount p \<noteq> None \<and> pp_commissionRate p \<noteq> None"

text \<open>
  One iteration of the loop over prior payouts, on the three running buckets. The type guard
  \<open>hasSnapshot\<close> makes the two columns it reads present.
\<close>

definition consumeOne :: "prior_payout \<Rightarrow> int \<times> int \<times> int \<Rightarrow> int \<times> int \<times> int" where
  "consumeOne p b = (case b of (pre, post, ship) \<Rightarrow>
     (if hasSnapshot p then
        let takeProduct = toSatang (the (pp_productSold p));
            fromPre = min pre takeProduct
        in (pre - fromPre, post - min post (takeProduct - fromPre),
            ship - min ship (toSatang (the (pp_shippingFees p))))
      else
        let takeAll = toSatang (pp_amount p);
            fromPre = min pre takeAll
        in (pre - fromPre, post - min post (takeAll - fromPre), ship)))"

definition consumePriorPayouts :: "money \<Rightarrow> money \<Rightarrow> money \<Rightarrow> prior_payout list \<Rightarrow> unpaid_buckets" where
  "consumePriorPayouts preProduct postProduct postShipping priorPayouts =
     (case fold consumeOne priorPayouts (toSatang preProduct, toSatang postProduct, toSatang postShipping) of
        (pre, post, ship) \<Rightarrow>
          \<lparr>ub_pre = fromSatang pre, ub_post = fromSatang post, ub_ship = fromSatang ship\<rparr>)"

text \<open>An order slice is the pair of its product and its shipping amount.\<close>

fun shipUncovered :: "(money \<times> money) list \<Rightarrow> int \<Rightarrow> int \<Rightarrow> int" where
  "shipUncovered [] cover ship = ship"
| "shipUncovered ((product, shipping) # orders) cover ship =
     (if toSatang product \<le> cover then shipUncovered orders (cover - toSatang product) ship
      else shipUncovered orders 0 (ship + toSatang shipping))"

definition unpaidShippingForRemainingProduct :: "(money \<times> money) list \<Rightarrow> money \<Rightarrow> money" where
  "unpaidShippingForRemainingProduct orders unpaidProduct =
     (let lifetime = (\<Sum>(product, _)\<leftarrow>orders. toSatang product)
      in fromSatang (shipUncovered orders (max 0 (lifetime - toSatang unpaidProduct)) 0))"

definition finalizeBreakdown :: "unpaid_buckets \<Rightarrow> int \<Rightarrow> breakdown" where
  "finalizeBreakdown u rate =
     (let pre = toSatang (ub_pre u); post = toSatang (ub_post u); ship = toSatang (ub_ship u);
          commission = commissionSatang post rate; sold = pre + post
      in \<lparr>bd_productSold = fromSatang sold, bd_shippingFees = fromSatang ship,
          bd_commissionAmount = fromSatang commission, bd_commissionRate = rate,
          bd_net = fromSatang (sold - commission + ship)\<rparr>)"

text \<open>The binary search of \<open>largestPostProduct\<close>: one call per iteration of its \<open>while\<close>.\<close>

function searchPost :: "int \<Rightarrow> int \<Rightarrow> int \<Rightarrow> int \<Rightarrow> int \<Rightarrow> int" where
  "searchPost remaining rate lo hi best =
     (if lo \<le> hi then
        let mid = (lo + hi) div 2
        in if mid - commissionSatang mid rate \<le> remaining
           then searchPost remaining rate (mid + 1) hi mid
           else searchPost remaining rate lo (mid - 1) best
      else best)"
  by pat_completeness auto
termination
  by (relation "measure (\<lambda>(remaining, rate, lo, hi, best). nat (hi - lo + 1))") (auto simp: Let_def)

declare searchPost.simps [simp del]

definition largestPostProduct :: "int \<Rightarrow> int \<Rightarrow> int \<Rightarrow> int" where
  "largestPostProduct upper remaining rate = searchPost remaining rate 0 upper 0"

definition consumeToAmount :: "unpaid_buckets \<Rightarrow> money \<Rightarrow> int \<Rightarrow> breakdown" where
  "consumeToAmount u amount rate =
     (let pre = toSatang (ub_pre u); post = toSatang (ub_post u); ship = toSatang (ub_ship u);
          remaining0 = toSatang amount;
          takePre0 = min pre remaining0;
          remaining1 = remaining0 - takePre0;
          maxPostNet = post - commissionSatang post rate;
          takePost = (if maxPostNet \<le> remaining1 then post
                      else largestPostProduct post remaining1 rate);
          remaining2 = (if maxPostNet \<le> remaining1 then remaining1 - maxPostNet
                        else remaining1 - (takePost - commissionSatang takePost rate));
          takeShip0 = min ship remaining2;
          remaining3 = remaining2 - takeShip0;
          absorbShip = (if 0 < remaining3 then min (ship - takeShip0) remaining3 else 0);
          takeShip = takeShip0 + absorbShip;
          remaining4 = remaining3 - absorbShip;
          takePre = (if 0 < remaining4 then takePre0 + min (pre - takePre0) remaining4 else takePre0);
          commission = commissionSatang takePost rate;
          sold = takePre + takePost
      in \<lparr>bd_productSold = fromSatang sold, bd_shippingFees = fromSatang takeShip,
          bd_commissionAmount = fromSatang commission, bd_commissionRate = rate,
          bd_net = fromSatang (sold - commission + takeShip)\<rparr>)"

section \<open>Satang\<close>

lemma toSatang_fromSatang [simp]: "toSatang (fromSatang n) = n"
  by (simp add: toSatang_def fromSatang_def floor_eq_iff)

lemma fromSatang_inject [simp]: "fromSatang m = fromSatang n \<longleftrightarrow> m = n"
  by (metis toSatang_fromSatang)

lemma fromSatang_le [simp]: "fromSatang m \<le> fromSatang n \<longleftrightarrow> m \<le> n"
  and fromSatang_less [simp]: "fromSatang m < fromSatang n \<longleftrightarrow> m < n"
  by (simp_all add: fromSatang_def divide_le_cancel divide_less_cancel)

lemma fromSatang_0 [simp]: "fromSatang 0 = 0"
  by (simp add: fromSatang_def)

lemma fromSatang_nonneg [simp]: "0 \<le> fromSatang n \<longleftrightarrow> 0 \<le> n"
  and fromSatang_pos [simp]: "0 < fromSatang n \<longleftrightarrow> 0 < n"
  by (simp_all add: fromSatang_def)

lemma fromSatang_add: "fromSatang (m + n) = fromSatang m + fromSatang n"
  by (simp add: fromSatang_def add_divide_distrib)

lemma toSatang_mono: "x \<le> y \<Longrightarrow> toSatang x \<le> toSatang y"
  by (simp add: toSatang_def floor_mono)

lemma toSatang_0 [simp]: "toSatang 0 = 0"
  by (simp add: toSatang_def floor_eq_iff)

lemma toSatang_of_int: "toSatang (of_int n) = n * 100"
  by (simp add: toSatang_def floor_eq_iff)

lemma toSatang_numeral [simp]: "toSatang (numeral n) = numeral n * 100"
  using toSatang_of_int [of "numeral n"] by simp

lemma toSatang_one [simp]: "toSatang 1 = 100"
  using toSatang_of_int [of 1] by simp

lemma toSatang_nonneg [intro]: "0 \<le> x \<Longrightarrow> 0 \<le> toSatang x"
  using toSatang_mono [of 0 x] by simp

section \<open>What the search needs of a commission\<close>

locale commission_scheme =
  fixes comm :: "int \<Rightarrow> int \<Rightarrow> int"
    and valid :: "int \<Rightarrow> bool"
  assumes comm_zero: "valid r \<Longrightarrow> comm 0 r = 0"
    and comm_up: "valid r \<Longrightarrow> 0 \<le> n \<Longrightarrow> comm n r \<le> comm (n + 1) r"
    and comm_step: "valid r \<Longrightarrow> 0 \<le> n \<Longrightarrow> comm (n + 1) r \<le> comm n r + 1"
begin

lemma comm_mono: "m \<le> n \<Longrightarrow> valid r \<Longrightarrow> 0 \<le> m \<Longrightarrow> comm m r \<le> comm n r"
proof (induction n rule: int_ge_induct)
  case base
  then show ?case by simp
next
  case (step i)
  then show ?case using comm_up [of r i] by simp
qed

lemma net_mono: "m \<le> n \<Longrightarrow> valid r \<Longrightarrow> 0 \<le> m \<Longrightarrow> m - comm m r \<le> n - comm n r"
proof (induction n rule: int_ge_induct)
  case base
  then show ?case by simp
next
  case (step i)
  then show ?case using comm_step [of r i] by simp
qed

lemma comm_bounds: "valid r \<Longrightarrow> 0 \<le> n \<Longrightarrow> 0 \<le> comm n r \<and> comm n r \<le> n"
  using comm_mono [of 0 n r] net_mono [of 0 n r] comm_zero [of r] by simp

text \<open>The net value passes through every integer: consecutive nets differ by 0 or 1.\<close>

lemma net_hits:
  assumes r: "valid r" and b: "0 \<le> b" "b < u"
    and le: "b - comm b r \<le> a" and gt: "\<And>n. b < n \<Longrightarrow> n \<le> u \<Longrightarrow> a < n - comm n r"
  shows "b - comm b r = a"
proof -
  have "a < (b + 1) - comm (b + 1) r" using gt [of "b + 1"] b by simp
  moreover have "comm b r \<le> comm (b + 1) r" using comm_up [OF r b(1)] .
  ultimately show ?thesis using le by simp
qed

end

interpretation satang: commission_scheme commissionSatang "\<lambda>r. 0 \<le> r \<and> r \<le> 100"
proof
  fix r n :: int
  assume r: "0 \<le> r \<and> r \<le> 100"
  show "commissionSatang 0 r = 0" by (simp add: commissionSatang_def)
  assume n: "0 \<le> n"
  show "commissionSatang n r \<le> commissionSatang (n + 1) r"
    using r by (auto simp: commissionSatang_def algebra_simps intro!: zdiv_mono1)
  have "(n + 1) * r + 50 \<le> (n * r + 50) + 100 * 1" using r by (simp add: algebra_simps)
  then have "((n + 1) * r + 50) div 100 \<le> ((n * r + 50) + 100 * 1) div 100" by (rule zdiv_mono1) simp
  then show "commissionSatang (n + 1) r \<le> commissionSatang n r + 1"
    by (simp add: commissionSatang_def)
qed

section \<open>The binary search\<close>

text \<open>
  The invariant of the loop: everything below \<open>lo\<close> fits, everything above \<open>hi\<close> does not,
  and \<open>best\<close> is the last value known to fit.
\<close>

definition searchInv :: "int \<Rightarrow> int \<Rightarrow> int \<Rightarrow> int \<Rightarrow> int \<Rightarrow> int \<Rightarrow> bool" where
  "searchInv upper remaining rate lo hi best \<longleftrightarrow>
     0 \<le> lo \<and> hi \<le> upper \<and> lo \<le> hi + 1 \<and> best = max 0 (lo - 1) \<and>
     (0 < lo \<longrightarrow> best - commissionSatang best rate \<le> remaining) \<and>
     (\<forall>n. hi < n \<and> n \<le> upper \<longrightarrow> remaining < n - commissionSatang n rate)"

lemma searchPost_inv:
  assumes r: "0 \<le> rate \<and> rate \<le> 100" and inv: "searchInv upper remaining rate lo hi best"
  shows "\<exists>k. searchInv upper remaining rate (k + 1) k (searchPost remaining rate lo hi best)"
  using r inv
proof (induction remaining rate lo hi best rule: searchPost.induct)
  case (1 remaining rate lo hi best)
  note r = "1.prems"(1) and inv = "1.prems"(2)
  show ?case
  proof (cases "lo \<le> hi")
    case False
    with inv have "lo = hi + 1" by (simp add: searchInv_def)
    with inv have "searchInv upper remaining rate (hi + 1) hi best" by simp
    with False show ?thesis by (auto simp: searchPost.simps [of remaining rate lo hi best])
  next
    case True
    define mid where "mid = (lo + hi) div 2"
    have mid: "lo \<le> mid" "mid \<le> hi" using True by (auto simp: mid_def)
    note unfold = searchPost.simps [of remaining rate lo hi best] Let_def mid_def [symmetric]
    show ?thesis
    proof (cases "mid - commissionSatang mid rate \<le> remaining")
      case fits: True
      with inv mid have "searchInv upper remaining rate (mid + 1) hi mid"
        by (auto simp: searchInv_def)
      with "1.IH"(1) [OF True mid_def fits r] fits True show ?thesis by (simp add: unfold)
    next
      case nofit: False
      have mid0: "0 \<le> mid" using mid inv by (simp add: searchInv_def)
      have above: "remaining < n - commissionSatang n rate" if "mid \<le> n" "n \<le> upper" for n
        using satang.net_mono [OF that(1) r mid0] nofit by linarith
      with inv mid have "searchInv upper remaining rate lo (mid - 1) best"
        by (auto simp: searchInv_def)
      with "1.IH"(2) [OF True mid_def nofit r] nofit True show ?thesis by (simp add: unfold)
    qed
  qed
qed

lemma largestPostProduct_spec:
  assumes r: "0 \<le> rate \<and> rate \<le> 100" and u: "0 \<le> upper" and a: "0 \<le> remaining"
  shows "0 \<le> largestPostProduct upper remaining rate"
    and "largestPostProduct upper remaining rate \<le> upper"
    and "largestPostProduct upper remaining rate
           - commissionSatang (largestPostProduct upper remaining rate) rate \<le> remaining"
    and "largestPostProduct upper remaining rate < n \<Longrightarrow> n \<le> upper \<Longrightarrow>
           remaining < n - commissionSatang n rate"
proof -
  have "searchInv upper remaining rate 0 upper 0"
    using u by (simp add: searchInv_def)
  from searchPost_inv [OF r this] obtain k
    where k: "searchInv upper remaining rate (k + 1) k (largestPostProduct upper remaining rate)"
    by (auto simp: largestPostProduct_def)
  then have best: "largestPostProduct upper remaining rate = max 0 k"
    and fits: "0 < k + 1 \<Longrightarrow> max 0 k - commissionSatang (max 0 k) rate \<le> remaining"
    and above: "\<And>n. k < n \<Longrightarrow> n \<le> upper \<Longrightarrow> remaining < n - commissionSatang n rate"
    and ku: "k \<le> upper" "0 \<le> k + 1"
    by (auto simp: searchInv_def)
  show "0 \<le> largestPostProduct upper remaining rate" using best by simp
  show "largestPostProduct upper remaining rate \<le> upper" using best ku u by simp
  have zero: "commissionSatang 0 rate = 0" using satang.comm_zero [OF r] .
  show "largestPostProduct upper remaining rate
      - commissionSatang (largestPostProduct upper remaining rate) rate \<le> remaining"
    using best fits a zero by (cases "0 \<le> k") auto
  show "remaining < n - commissionSatang n rate"
    if "largestPostProduct upper remaining rate < n" "n \<le> upper"
    using above [of n] that best by simp
qed

text \<open>When the whole product does not fit, the amount found uses the remainder up exactly.\<close>

lemma largestPostProduct_exact:
  assumes r: "0 \<le> rate \<and> rate \<le> 100" and u: "0 \<le> upper" and a: "0 \<le> remaining"
    and lt: "remaining < upper - commissionSatang upper rate"
  shows "largestPostProduct upper remaining rate
           - commissionSatang (largestPostProduct upper remaining rate) rate = remaining"
proof -
  let ?b = "largestPostProduct upper remaining rate"
  note spec = largestPostProduct_spec [OF r u a]
  have "?b \<noteq> upper" using spec(3) lt by auto
  then have "?b < upper" using spec(2) by simp
  then show ?thesis
    using satang.net_hits [OF r spec(1) _ spec(3) spec(4)] by simp
qed

section \<open>What a payout of a requested amount takes\<close>

text \<open>
  The three takes of \<open>consumeToAmount\<close> in satang. The two absorbing steps for left-over
  satang never take anything: \<open>consumeToAmount_takes\<close> has no trace of them.
\<close>

definition takePreOf :: "unpaid_buckets \<Rightarrow> money \<Rightarrow> int" where
  "takePreOf u a = min (toSatang (ub_pre u)) (toSatang a)"

definition takePostOf :: "unpaid_buckets \<Rightarrow> money \<Rightarrow> int \<Rightarrow> int" where
  "takePostOf u a r =
     (let post = toSatang (ub_post u); left = toSatang a - takePreOf u a
      in if post - commissionSatang post r \<le> left then post else largestPostProduct post left r)"

definition takeShipOf :: "unpaid_buckets \<Rightarrow> money \<Rightarrow> int \<Rightarrow> int" where
  "takeShipOf u a r =
     (let post = toSatang (ub_post u); left = toSatang a - takePreOf u a
      in if post - commissionSatang post r \<le> left
         then min (toSatang (ub_ship u)) (left - (post - commissionSatang post r)) else 0)"

definition validBuckets :: "unpaid_buckets \<Rightarrow> bool" where
  "validBuckets u \<longleftrightarrow> 0 \<le> ub_pre u \<and> 0 \<le> ub_post u \<and> 0 \<le> ub_ship u"

lemma validBuckets_satang:
  "validBuckets u \<Longrightarrow> 0 \<le> toSatang (ub_pre u) \<and> 0 \<le> toSatang (ub_post u) \<and> 0 \<le> toSatang (ub_ship u)"
  by (auto simp: validBuckets_def)

lemma consumeToAmount_takes:
  assumes r: "0 \<le> rate \<and> rate \<le> 100" and u: "validBuckets u" and a: "0 \<le> amount"
  shows "consumeToAmount u amount rate =
    \<lparr>bd_productSold = fromSatang (takePreOf u amount + takePostOf u amount rate),
     bd_shippingFees = fromSatang (takeShipOf u amount rate),
     bd_commissionAmount = fromSatang (commissionSatang (takePostOf u amount rate) rate),
     bd_commissionRate = rate,
     bd_net = fromSatang (takePreOf u amount + takePostOf u amount rate
                - commissionSatang (takePostOf u amount rate) rate + takeShipOf u amount rate)\<rparr>"
proof -
  let ?P = "toSatang (ub_pre u)" and ?Q = "toSatang (ub_post u)" and ?S = "toSatang (ub_ship u)"
    and ?A = "toSatang amount"
  have nn: "0 \<le> ?P" "0 \<le> ?Q" "0 \<le> ?S" "0 \<le> ?A"
    using validBuckets_satang [OF u] a by auto
  let ?left = "?A - min ?P ?A" and ?M = "?Q - commissionSatang ?Q rate"
  have left: "0 \<le> ?left" "0 < ?left \<Longrightarrow> min ?P ?A = ?P" by auto
  have M: "0 \<le> ?M" using satang.comm_bounds [OF r nn(2)] by simp
  show ?thesis
  proof (cases "?M \<le> ?left")
    case True
    let ?rest = "?left - ?M - min ?S (?left - ?M)"
    have ship: "0 < ?rest \<Longrightarrow> min ?S (?left - ?M) = ?S" by auto
    have pre: "0 < ?rest \<Longrightarrow> min ?P ?A = ?P"
      using M nn(3) left by linarith
    have absorbShip: "(if 0 < ?rest then min (?S - min ?S (?left - ?M)) ?rest else 0) = 0"
      using ship by (cases "0 < ?rest") (simp_all only: if_True if_False diff_self min_def, simp)
    have absorbPre: "(if 0 < ?rest - 0 then min ?P ?A + min (?P - min ?P ?A) (?rest - 0)
        else min ?P ?A) = min ?P ?A"
      using pre by (cases "0 < ?rest") (simp_all only: if_True if_False diff_self diff_0_right min_def, simp)
    show ?thesis
      unfolding consumeToAmount_def takePreOf_def takePostOf_def takeShipOf_def Let_def
      by (simp only: True if_True absorbShip absorbPre add_0_right)
  next
    case False
    then have lt: "?left < ?M" by simp
    note ex = largestPostProduct_exact [OF r nn(2) left(1) lt]
    have noShip: "min ?S 0 = 0" using nn by simp
    show ?thesis
      unfolding consumeToAmount_def takePreOf_def takePostOf_def takeShipOf_def Let_def
      by (simp only: False if_False ex diff_self noShip less_irrefl if_False diff_0_right add_0_right)
  qed
qed

lemma takes_bounds:
  assumes r: "0 \<le> rate \<and> rate \<le> 100" and u: "validBuckets u" and a: "0 \<le> amount"
  shows "0 \<le> takePreOf u amount \<and> takePreOf u amount \<le> toSatang (ub_pre u)"
    and "0 \<le> takePostOf u amount rate \<and> takePostOf u amount rate \<le> toSatang (ub_post u)"
    and "0 \<le> takeShipOf u amount rate \<and> takeShipOf u amount rate \<le> toSatang (ub_ship u)"
proof -
  have nn: "0 \<le> toSatang (ub_pre u)" "0 \<le> toSatang (ub_post u)" "0 \<le> toSatang (ub_ship u)"
      "0 \<le> toSatang amount"
    using validBuckets_satang [OF u] a by auto
  show "0 \<le> takePreOf u amount \<and> takePreOf u amount \<le> toSatang (ub_pre u)"
    using nn by (simp add: takePreOf_def)
  have left: "0 \<le> toSatang amount - takePreOf u amount" by (simp add: takePreOf_def)
  show "0 \<le> takePostOf u amount rate \<and> takePostOf u amount rate \<le> toSatang (ub_post u)"
    using nn largestPostProduct_spec(1,2) [OF r nn(2) left] by (auto simp: takePostOf_def Let_def)
  show "0 \<le> takeShipOf u amount rate \<and> takeShipOf u amount rate \<le> toSatang (ub_ship u)"
    using nn by (auto simp: takeShipOf_def Let_def)
qed

lemma takes_net:
  assumes r: "0 \<le> rate \<and> rate \<le> 100" and u: "validBuckets u" and a: "0 \<le> amount"
  shows "takePreOf u amount + takePostOf u amount rate
           - commissionSatang (takePostOf u amount rate) rate + takeShipOf u amount rate =
         min (toSatang amount) (toSatang (bd_net (finalizeBreakdown u rate)))"
proof -
  let ?P = "toSatang (ub_pre u)" and ?Q = "toSatang (ub_post u)" and ?S = "toSatang (ub_ship u)"
  have nn: "0 \<le> ?P" "0 \<le> ?Q" "0 \<le> ?S" "0 \<le> toSatang amount"
    using validBuckets_satang [OF u] a by auto
  have M: "0 \<le> ?Q - commissionSatang ?Q rate" using satang.comm_bounds [OF r nn(2)] by simp
  have left: "0 \<le> toSatang amount - min ?P (toSatang amount)" by simp
  note ex = largestPostProduct_exact [OF r nn(2) left]
  show ?thesis
    using nn M ex
    by (auto simp: takePreOf_def takePostOf_def takeShipOf_def finalizeBreakdown_def Let_def min_def)
qed

section \<open>Prior payouts\<close>

definition productTake :: "prior_payout \<Rightarrow> int" where
  "productTake p = (if hasSnapshot p then toSatang (the (pp_productSold p)) else toSatang (pp_amount p))"

definition shipTake :: "prior_payout \<Rightarrow> int" where
  "shipTake p = (if hasSnapshot p then toSatang (the (pp_shippingFees p)) else 0)"

definition validPrior :: "prior_payout \<Rightarrow> bool" where
  "validPrior p \<longleftrightarrow> 0 \<le> productTake p \<and> 0 \<le> shipTake p"

lemma consumeOne_takes:
  "0 \<le> ship \<Longrightarrow> consumeOne p (pre, post, ship) =
     (pre - min pre (productTake p), post - min post (productTake p - min pre (productTake p)),
      ship - min ship (shipTake p))"
  by (simp add: consumeOne_def productTake_def shipTake_def Let_def)

text \<open>What one iteration keeps and what it removes.\<close>

lemma consumeOne_step:
  assumes nn: "0 \<le> pre" "0 \<le> post" "0 \<le> ship" and p: "validPrior p"
    and eq: "consumeOne p (pre, post, ship) = (pre', post', ship')"
  shows "0 \<le> pre' \<and> pre' \<le> pre" and "0 \<le> post' \<and> post' \<le> post" and "0 \<le> ship' \<and> ship' \<le> ship"
    and "pre' + post' = max 0 (pre + post - productTake p)" and "ship' = max 0 (ship - shipTake p)"
    and "post' < post \<Longrightarrow> pre' = 0"
  using eq p nn by (auto simp: consumeOne_takes validPrior_def)

lemma consume_fold:
  assumes "0 \<le> pre" "0 \<le> post" "0 \<le> ship" and "\<forall>p \<in> set ps. validPrior p"
    and "fold consumeOne ps (pre, post, ship) = (pre', post', ship')"
  shows "0 \<le> pre' \<and> pre' \<le> pre \<and> 0 \<le> post' \<and> post' \<le> post \<and>
    pre' + post' = max 0 (pre + post - sum_list (map productTake ps)) \<and>
    ship' = max 0 (ship - sum_list (map shipTake ps)) \<and> (post' < post \<longrightarrow> pre' = 0)"
  using assms
proof (induction ps arbitrary: pre post ship)
  case Nil
  then show ?case by simp
next
  case (Cons p ps)
  obtain a b c where abc: "consumeOne p (pre, post, ship) = (a, b, c)" by (cases "consumeOne p (pre, post, ship)")
  from Cons.prems have p: "validPrior p" by simp
  note st = consumeOne_step [OF Cons.prems(1,2,3) p abc]
  from Cons.prems(5) abc have rest: "fold consumeOne ps (a, b, c) = (pre', post', ship')" by simp
  have ih: "0 \<le> pre' \<and> pre' \<le> a \<and> 0 \<le> post' \<and> post' \<le> b \<and>
    pre' + post' = max 0 (a + b - sum_list (map productTake ps)) \<and>
    ship' = max 0 (c - sum_list (map shipTake ps)) \<and> (post' < b \<longrightarrow> pre' = 0)"
    using Cons.IH [of a b c] st Cons.prems(4) rest by simp
  have "0 \<le> sum_list (map productTake ps)" "0 \<le> sum_list (map shipTake ps)"
    using Cons.prems(4) by (auto simp: validPrior_def intro!: sum_list_nonneg)
  with ih st show ?case by (auto simp: max_def split: if_splits)
qed

text \<open>
  A payout read back from the row its insert wrote: \<open>loadPriorPayoutsForConsume\<close> of the
  snapshot columns.
\<close>

definition snapshotOf :: "breakdown \<Rightarrow> prior_payout" where
  "snapshotOf b = \<lparr>pp_amount = bd_net b, pp_productSold = Some (bd_productSold b),
     pp_shippingFees = Some (bd_shippingFees b), pp_commissionAmount = Some (bd_commissionAmount b),
     pp_commissionRate = Some (bd_commissionRate b)\<rparr>"

lemma takePost_zero:
  assumes r: "0 \<le> rate \<and> rate < 50" and u: "validBuckets u" and a: "0 \<le> amount"
    and part: "takePreOf u amount < toSatang (ub_pre u)"
  shows "takePostOf u amount rate = 0"
proof -
  have net_pos: "0 < n \<Longrightarrow> 0 < n - commissionSatang n rate" for n
  proof -
    assume n: "0 < n"
    have "n * rate \<le> n * 49" using r n by (intro mult_left_mono) auto
    then have "n * rate + 50 < n * 100" using n by linarith
    then show "0 < n - commissionSatang n rate" by (simp add: commissionSatang_def)
  qed
  have r': "0 \<le> rate \<and> rate \<le> 100" using r by simp
  have nn: "0 \<le> toSatang (ub_post u)" using validBuckets_satang [OF u] by simp
  have left: "toSatang amount - takePreOf u amount = 0" using part by (auto simp: takePreOf_def)
  let ?b = "largestPostProduct (toSatang (ub_post u)) 0 rate"
  have "0 \<le> ?b" "?b - commissionSatang ?b rate \<le> 0"
    using largestPostProduct_spec(1,3) [OF r' nn order_refl] by auto
  then have "?b = 0" using net_pos [of ?b] by (cases "0 < ?b") auto
  then show ?thesis using net_pos [of "toSatang (ub_post u)"] nn left
    by (cases "0 < toSatang (ub_post u)") (auto simp: takePostOf_def Let_def)
qed

section \<open>Shipping of the orders that are not paid out\<close>

lemma shipUncovered_closed:
  assumes "0 \<le> cover" and "\<forall>(p, s) \<in> set os. 0 \<le> toSatang p"
  shows "shipUncovered os cover ship = ship +
    (\<Sum>i < length os. if cover < (\<Sum>j \<le> i. toSatang (fst (os ! j))) \<and> 0 < toSatang (fst (os ! i))
       then toSatang (snd (os ! i)) else 0)"
  using assms
proof (induction os arbitrary: cover ship)
  case Nil
  then show ?case by simp
next
  case (Cons o1 os)
  obtain p s where o1: "o1 = (p, s)" by (cases o1)
  let ?P = "\<lambda>i. toSatang (fst (os ! i))" and ?S = "\<lambda>i. toSatang (snd (os ! i))"
  have nn: "\<And>i. i < length os \<Longrightarrow> 0 \<le> ?P i" and p: "0 \<le> toSatang p"
    using Cons.prems(2) o1 by (auto simp: all_set_conv_all_nth split: prod.splits) (metis fst_conv nth_mem prod.collapse)
  have shift: "(\<Sum>i < length (o1 # os). if cover < (\<Sum>j \<le> i. toSatang (fst ((o1 # os) ! j)))
         \<and> 0 < toSatang (fst ((o1 # os) ! i)) then toSatang (snd ((o1 # os) ! i)) else 0) =
      (if cover < toSatang p \<and> 0 < toSatang p then toSatang s else 0) +
      (\<Sum>i < length os. if cover - toSatang p < (\<Sum>j \<le> i. ?P j) \<and> 0 < ?P i then ?S i else 0)"
    by (simp add: o1 sum.lessThan_Suc_shift sum.atMost_Suc_shift diff_less_eq add.commute
          del: sum.lessThan_Suc sum.atMost_Suc cong: if_cong)
  show ?case
  proof (cases "toSatang p \<le> cover")
    case True
    with Cons.IH [of "cover - toSatang p" ship] Cons.prems(2) show ?thesis
      unfolding shift by (simp add: o1)
  next
    case False
    have same: "(if cover - toSatang p < (\<Sum>j \<le> i. ?P j) \<and> 0 < ?P i then ?S i else 0) =
        (if 0 < (\<Sum>j \<le> i. ?P j) \<and> 0 < ?P i then ?S i else 0)" if "i < length os" for i
    proof -
      have "?P i \<le> (\<Sum>j \<le> i. ?P j)"
        using that nn by (intro member_le_sum) auto
      with False show ?thesis by auto
    qed
    have "(\<Sum>i < length os. if cover - toSatang p < (\<Sum>j \<le> i. ?P j) \<and> 0 < ?P i then ?S i else 0) =
        (\<Sum>i < length os. if 0 < (\<Sum>j \<le> i. ?P j) \<and> 0 < ?P i then ?S i else 0)"
      by (intro sum.cong refl) (simp only: same lessThan_iff)
    with Cons.IH [of 0 "ship + toSatang s"] Cons.prems False show ?thesis
      unfolding shift by (simp add: o1)
  qed
qed

section \<open>Properties\<close>

definition sampleBuckets :: unpaid_buckets where
  "sampleBuckets = \<lparr>ub_pre = 10, ub_post = 100, ub_ship = 5\<rparr>"

lemma sampleBuckets_valid [simp]: "validBuckets sampleBuckets"
  by (simp add: sampleBuckets_def validBuckets_def)

text \<open>The binary search returns the greatest product amount (in satang) whose net after
  commission still fits the remainder: it fits, and every larger amount up to the bucket does not.\<close>

theorem largestPostProduct_greatest:
  assumes "0 \<le> rate" and "rate \<le> 100" and "0 \<le> upper" and "0 \<le> remaining"
  shows "largestPostProduct upper remaining rate \<in> {0..upper} \<and>
    (\<forall>n \<in> {0..upper}. n - commissionSatang n rate \<le> remaining \<longleftrightarrow> n \<le> largestPostProduct upper remaining rate)"
proof -
  have r: "0 \<le> rate \<and> rate \<le> 100" using assms by simp
  note spec = largestPostProduct_spec [OF r assms(3,4)]
  let ?b = "largestPostProduct upper remaining rate"
  have "n - commissionSatang n rate \<le> remaining \<longleftrightarrow> n \<le> ?b" if n: "n \<in> {0..upper}" for n
  proof
    assume "n - commissionSatang n rate \<le> remaining"
    then show "n \<le> ?b" using spec(4) [of n] n by (cases "?b < n") auto
  next
    assume le: "n \<le> ?b"
    from satang.net_mono [OF le r] n spec(3) show "n - commissionSatang n rate \<le> remaining" by simp
  qed
  with spec(1,2) show ?thesis by simp
qed

theorem largestPostProduct_greatest_witness:
  "5000 \<le> largestPostProduct 10000 5000 7 \<and> largestPostProduct 10000 5000 7 < 6000"
proof -
  let ?b = "largestPostProduct 10000 5000 7"
  have "\<forall>n \<in> {0..10000}. n - commissionSatang n 7 \<le> 5000 \<longleftrightarrow> n \<le> ?b"
    using largestPostProduct_greatest [of 7 10000 5000] by simp
  then have "5000 - commissionSatang 5000 7 \<le> 5000 \<longleftrightarrow> 5000 \<le> ?b"
    and "6000 - commissionSatang 6000 7 \<le> 5000 \<longleftrightarrow> 6000 \<le> ?b" by auto
  then show ?thesis by (simp add: commissionSatang_def js_round_def)
qed

text \<open>C10. A payout of a requested amount pays exactly that amount, to the satang, or the whole
  unpaid net when less is available; and it takes no more than the buckets hold. No satang is
  lost to the rounding of the commission.\<close>

theorem consumeToAmount_exact:
  assumes "0 \<le> rate" and "rate \<le> 100" and "validBuckets u" and "0 \<le> amount"
  shows "bd_net (consumeToAmount u amount rate) =
      fromSatang (min (toSatang amount) (toSatang (bd_net (finalizeBreakdown u rate)))) \<and>
    bd_productSold (consumeToAmount u amount rate) \<le> bd_productSold (finalizeBreakdown u rate) \<and>
    bd_shippingFees (consumeToAmount u amount rate) \<le> bd_shippingFees (finalizeBreakdown u rate)"
proof -
  have r: "0 \<le> rate \<and> rate \<le> 100" using assms by simp
  note c = consumeToAmount_takes [OF r assms(3,4)]
  note b = takes_bounds [OF r assms(3,4)]
  show ?thesis
    using b takes_net [OF r assms(3,4)] by (simp add: c) (simp add: finalizeBreakdown_def Let_def)
qed

theorem consumeToAmount_exact_witness:
  "bd_net (consumeToAmount sampleBuckets 50 7) = 50"
  using consumeToAmount_exact [of 7 sampleBuckets 50]
  by (simp add: sampleBuckets_def validBuckets_def finalizeBreakdown_def commissionSatang_def
      Let_def) (simp add: fromSatang_def)

text \<open>Requesting the whole unpaid net consumes every bucket: the payout's snapshot is the
  breakdown the summary showed.\<close>

theorem consumeToAmount_all:
  assumes "0 \<le> rate" and "rate \<le> 100" and "validBuckets u"
  shows "consumeToAmount u (bd_net (finalizeBreakdown u rate)) rate = finalizeBreakdown u rate"
proof -
  have r: "0 \<le> rate \<and> rate \<le> 100" using assms by simp
  have nn: "0 \<le> toSatang (ub_pre u)" "0 \<le> toSatang (ub_post u)" "0 \<le> toSatang (ub_ship u)"
    using validBuckets_satang [OF assms(3)] by auto
  have M: "commissionSatang (toSatang (ub_post u)) rate \<le> toSatang (ub_post u)"
    using satang.comm_bounds [OF r nn(2)] by simp
  have a: "0 \<le> bd_net (finalizeBreakdown u rate)"
    using nn M by (simp add: finalizeBreakdown_def Let_def)
  show ?thesis
    unfolding consumeToAmount_takes [OF r assms(3) a] using nn M
    by (auto simp: finalizeBreakdown_def takePreOf_def takePostOf_def takeShipOf_def Let_def)
qed

theorem consumeToAmount_all_witness:
  "consumeToAmount sampleBuckets (bd_net (finalizeBreakdown sampleBuckets 7)) 7
     = finalizeBreakdown sampleBuckets 7"
  by (rule consumeToAmount_all) simp_all

text \<open>Nothing is paid twice: reading a stored payout back as a prior payout removes from each
  bucket exactly what that payout took, for commission rates below 50 percent.\<close>

theorem snapshot_consumed_once:
  assumes "0 \<le> rate" and "rate < 50" and "validBuckets u" and "0 \<le> amount"
  shows "consumeOne (snapshotOf (consumeToAmount u amount rate))
       (toSatang (ub_pre u), toSatang (ub_post u), toSatang (ub_ship u)) =
     (toSatang (ub_pre u) - takePreOf u amount, toSatang (ub_post u) - takePostOf u amount rate,
      toSatang (ub_ship u) - takeShipOf u amount rate)"
proof -
  have r: "0 \<le> rate \<and> rate \<le> 100" "0 \<le> rate \<and> rate < 50" using assms by simp_all
  note b = takes_bounds [OF r(1) assms(3,4)]
  note simps = consumeOne_def snapshotOf_def hasSnapshot_def Let_def
    consumeToAmount_takes [OF r(1) assms(3,4)]
  show ?thesis
  proof (cases "takePreOf u amount < toSatang (ub_pre u)")
    case True
    with takePost_zero [OF r(2) assms(3,4)] b show ?thesis by (simp add: simps)
  next
    case False
    with b have "takePreOf u amount = toSatang (ub_pre u)" by simp
    with b show ?thesis by (simp add: simps)
  qed
qed

theorem snapshot_consumed_once_witness:
  "consumeOne (snapshotOf (consumeToAmount sampleBuckets 50 7)) (1000, 10000, 500) =
     (0, 10000 - takePostOf sampleBuckets 50 7, 500)"
  using snapshot_consumed_once [of 7 sampleBuckets 50]
  by (simp add: sampleBuckets_def validBuckets_def takePreOf_def takeShipOf_def
      commissionSatang_def Let_def)

text \<open>Prior payouts are consumed conservatively: the buckets never go negative and never grow,
  the product buckets together shrink by the total paid (down to zero), shipping by the total of
  the recorded shipping fees, and the pre-commission bucket is exhausted before the commissioned
  one is touched.\<close>

theorem consumePriorPayouts_conserves:
  assumes "0 \<le> pre" and "0 \<le> post" and "0 \<le> ship" and "\<forall>p \<in> set ps. validPrior p"
  shows "let u = consumePriorPayouts pre post ship ps in
    validBuckets u \<and>
    toSatang (ub_pre u) \<le> toSatang pre \<and> toSatang (ub_post u) \<le> toSatang post \<and>
    toSatang (ub_pre u) + toSatang (ub_post u) =
      max 0 (toSatang pre + toSatang post - sum_list (map productTake ps)) \<and>
    toSatang (ub_ship u) = max 0 (toSatang ship - sum_list (map shipTake ps)) \<and>
    (toSatang (ub_post u) < toSatang post \<longrightarrow> ub_pre u = 0)"
proof -
  obtain a b c where abc: "fold consumeOne ps (toSatang pre, toSatang post, toSatang ship) = (a, b, c)"
    by (metis prod_cases3)
  have "0 \<le> toSatang pre" "0 \<le> toSatang post" "0 \<le> toSatang ship" using assms by auto
  from consume_fold [OF this assms(4) abc] show ?thesis
    by (auto simp: consumePriorPayouts_def abc validBuckets_def Let_def)
qed

theorem consumePriorPayouts_conserves_witness:
  "let u = consumePriorPayouts 10 100 0 [snapshotOf (finalizeBreakdown sampleBuckets 7)] in
    toSatang (ub_pre u) + toSatang (ub_post u) = 0"
  using consumePriorPayouts_conserves [of 10 100 0 "[snapshotOf (finalizeBreakdown sampleBuckets 7)]"]
  by (simp add: Let_def validPrior_def productTake_def shipTake_def snapshotOf_def hasSnapshot_def
      finalizeBreakdown_def sampleBuckets_def)

text \<open>The shipping still owed is the shipping of exactly those orders that the paid product,
  laid over the orders from the oldest on, does not cover (and that have product at all).\<close>

theorem unpaidShipping_closed_form:
  assumes "\<forall>(p, s) \<in> set os. 0 \<le> toSatang p"
  shows "unpaidShippingForRemainingProduct os unpaid = fromSatang
    (\<Sum>i < length os.
       if max 0 ((\<Sum>(p, s)\<leftarrow>os. toSatang p) - toSatang unpaid) < (\<Sum>j \<le> i. toSatang (fst (os ! j)))
          \<and> 0 < toSatang (fst (os ! i))
       then toSatang (snd (os ! i)) else 0)"
  using shipUncovered_closed [OF _ assms, of "max 0 ((\<Sum>(p, s)\<leftarrow>os. toSatang p) - toSatang unpaid)" 0]
  by (simp add: unpaidShippingForRemainingProduct_def Let_def)

theorem unpaidShipping_closed_form_witness:
  "unpaidShippingForRemainingProduct [(100, 50), (200, 40)] 150 = 40"
  using unpaidShipping_closed_form [of "[(100, 50), (200, 40)]" 150]
  by (simp add: fromSatang_def)

end
