(* ===== verification/Sale_Pricing.thy ===== *)
theory Sale_Pricing
  imports Repository
begin

text \<open>
  \<^verbatim>\<open>src/src/modules/sale-campaigns/sale-campaign-pricing.ts\<close> (the pure price rules) and
  \<^verbatim>\<open>sale-campaign-pricing.service.ts\<close> (the batch resolution for cart and order lines over the
  active campaigns of the database).
\<close>

section \<open>Price rules\<close>

record campaign_item_like =
  cil_productId :: string
  cil_variantId :: "string option"
  cil_discountPercent :: "rat option"
  cil_compareAtPrice :: "money option"
  cil_priority :: "int option"
  cil_campaignId :: "string option"
  cil_createdAt :: "date option"

record effective_unit_price =
  eu_catalogUnitPrice :: money
  eu_unitPrice :: money
  eu_saleCampaignId :: "string option"
  eu_saleDiscountPercent :: "rat option"
  eu_compareAtPrice :: "money option"

definition roundMoney :: "money \<Rightarrow> money" where
  "roundMoney v = of_int (js_round (v * 100)) / 100"

definition computeSaleUnitPrice :: "money \<Rightarrow> rat option \<Rightarrow> money option" where
  "computeSaleUnitPrice catalogUnit percent =
     (case percent of None \<Rightarrow> None
      | Some p \<Rightarrow> if p < 1 \<or> 99 < p \<or> catalogUnit \<le> 0 then None
                 else Some (roundMoney (catalogUnit * (1 - p / 100))))"

definition honestDisplayCompareAt :: "effective_unit_price \<Rightarrow> money option \<Rightarrow> money option" where
  "honestDisplayCompareAt resolved staticCompareAt =
     (if (case eu_compareAtPrice resolved of None \<Rightarrow> False | Some c \<Rightarrow> eu_unitPrice resolved < c)
      then eu_compareAtPrice resolved
      else if eu_unitPrice resolved < eu_catalogUnitPrice resolved
      then Some (eu_catalogUnitPrice resolved)
      else (case staticCompareAt of None \<Rightarrow> None
            | Some c \<Rightarrow> if eu_unitPrice resolved < c then Some c else None))"

definition effectiveCompareAt :: "money \<Rightarrow> money option \<Rightarrow> money option" where
  "effectiveCompareAt catalogUnit campaignCompareAt =
     (case campaignCompareAt of None \<Rightarrow> None
      | Some c \<Rightarrow> if catalogUnit < c then Some c else None)"

text \<open>
  The comparator of \<open>ranked\<close>: priority descending, then creation time descending
  (\<open>Array.sort\<close> is stable, as \<open>sort_key\<close> is).
\<close>

definition campaignRank :: "campaign_item_like \<Rightarrow> int \<times> int" where
  "campaignRank i = (- nullish (cil_priority i) 0, - nullish (cil_createdAt i) 0)"

definition selectWinningCampaignItem ::
    "campaign_item_like list \<Rightarrow> string \<Rightarrow> string option \<Rightarrow> campaign_item_like option" where
  "selectWinningCampaignItem cands productId variantId =
     (let ranked = sort_key campaignRank (filter (\<lambda>i. cil_productId i = productId) cands);
          general = List.find (\<lambda>i. cil_variantId i = None) ranked
      in if truthy variantId
         then orElse (List.find (\<lambda>i. cil_variantId i = variantId) ranked) general
         else general)"

definition resolveEffectiveUnitFromItem :: "money \<Rightarrow> campaign_item_like option \<Rightarrow> effective_unit_price" where
  "resolveEffectiveUnitFromItem catalogUnit item =
     (let catalog = roundMoney catalogUnit in
      case item of
        None \<Rightarrow> \<lparr>eu_catalogUnitPrice = catalog, eu_unitPrice = catalog, eu_saleCampaignId = None,
                  eu_saleDiscountPercent = None, eu_compareAtPrice = None\<rparr>
      | Some i \<Rightarrow>
          (let saleUnit = computeSaleUnitPrice catalog (cil_discountPercent i)
           in \<lparr>eu_catalogUnitPrice = catalog,
               eu_unitPrice = nullish saleUnit catalog,
               eu_saleCampaignId = (if saleUnit \<noteq> None then cil_campaignId i else None),
               eu_saleDiscountPercent = (if saleUnit \<noteq> None then cil_discountPercent i else None),
               eu_compareAtPrice = effectiveCompareAt catalog (cil_compareAtPrice i)\<rparr>))"

section \<open>Batch resolution\<close>

text \<open>The campaigns that are on at \<open>t\<close>, and the item-campaign join in the order of the query.\<close>

definition campaignActive :: "date \<Rightarrow> sale_campaign_row \<Rightarrow> bool" where
  "campaignActive t c \<longleftrightarrow> sc_isActive c \<and> sc_deletedAt c = None \<and>
     (case sc_startsAt c of None \<Rightarrow> True | Some a \<Rightarrow> a \<le> t) \<and>
     (case sc_expiresAt c of None \<Rightarrow> True | Some z \<Rightarrow> t \<le> z)"

definition findActiveItemsForProducts ::
    "env \<Rightarrow> string list \<Rightarrow> db \<Rightarrow> (sale_campaign_item_row \<times> sale_campaign_row) list" where
  "findActiveItemsForProducts env productIds s =
     (let uniqueIds = uniq (filter (\<lambda>i. i \<noteq> []) productIds)
      in if uniqueIds = [] then []
         else sort_key (\<lambda>(i, c). (- sc_priority c, - sc_createdAt c))
                [(i, c). i \<leftarrow> dbSaleCampaignItems s, c \<leftarrow> dbSaleCampaigns s,
                         sci_campaignId i = sc_id c, sci_productId i \<in> set uniqueIds,
                         campaignActive (envNow env) c])"

definition toCampaignItemLike :: "sale_campaign_item_row \<times> sale_campaign_row \<Rightarrow> campaign_item_like" where
  "toCampaignItemLike = (\<lambda>(i, c). \<lparr>cil_productId = sci_productId i, cil_variantId = sci_variantId i,
     cil_discountPercent = sci_discountPercent i, cil_compareAtPrice = sci_compareAtPrice i,
     cil_priority = Some (sc_priority c), cil_campaignId = Some (sc_id c),
     cil_createdAt = Some (sc_createdAt c)\<rparr>)"

record price_line =
  pl_productId :: string
  pl_variantId :: string
  pl_catalogUnit :: money

text \<open>The result \<open>Map\<close> is keyed by variant id; a later line with the same variant overwrites.\<close>

definition resolveEffectiveUnitPrices ::
    "env \<Rightarrow> price_line list \<Rightarrow> db \<Rightarrow> (string \<rightharpoonup> effective_unit_price)" where
  "resolveEffectiveUnitPrices env lines s =
     (let rows = findActiveItemsForProducts env (uniq (filter (\<lambda>i. i \<noteq> []) (map pl_productId lines))) s;
          cands = map toCampaignItemLike rows
      in fold (\<lambda>line m. m(pl_variantId line \<mapsto>
             resolveEffectiveUnitFromItem (roundMoney (pl_catalogUnit line))
               (selectWinningCampaignItem cands (pl_productId line) (Some (pl_variantId line)))))
           lines Map.empty)"

section \<open>Lemmas\<close>

lemma roundMoney_idem [simp]: "roundMoney (roundMoney v) = roundMoney v"
  by (simp add: roundMoney_def)

lemma roundMoney_mono: "x \<le> y \<Longrightarrow> roundMoney x \<le> roundMoney y"
  by (simp add: roundMoney_def divide_right_mono js_round_mono)

lemma roundMoney_0 [simp]: "roundMoney 0 = 0"
  using js_round_of_int [of 0] by (simp add: roundMoney_def)

lemma roundMoney_nonneg: "0 \<le> v \<Longrightarrow> 0 \<le> roundMoney v"
  using roundMoney_mono [of 0 v] by simp

lemma roundMoney_error: "\<bar>roundMoney v - v\<bar> \<le> 1 / 200"
proof -
  have "of_int \<lfloor>v * 100 + 1 / 2\<rfloor> \<le> v * 100 + 1 / 2" "v * 100 + 1 / 2 < of_int \<lfloor>v * 100 + 1 / 2\<rfloor> + 1"
    by (rule of_int_floor_le) (rule floor_correct [THEN conjunct2, of "v * 100 + 1 / 2", simplified])
  then have "of_int \<lfloor>v * 100 + 1 / 2\<rfloor> / 100 - v \<le> 1 / 200" "v - of_int \<lfloor>v * 100 + 1 / 2\<rfloor> / 100 \<le> 1 / 200"
    by linarith+
  then show ?thesis unfolding roundMoney_def js_round_def abs_le_iff by linarith
qed

lemma computeSaleUnitPrice_bounds:
  assumes "computeSaleUnitPrice (roundMoney c) percent = Some p"
  shows "0 \<le> p \<and> p \<le> roundMoney c"
proof -
  from assms obtain q where q: "percent = Some q" "1 \<le> q" "q \<le> 99" "0 < roundMoney c"
      and p: "p = roundMoney (roundMoney c * (1 - q / 100))"
    by (auto simp: computeSaleUnitPrice_def split: option.splits if_splits)
  have "roundMoney c * (1 - q / 100) \<le> roundMoney c * 1"
    using q by (intro mult_left_mono) auto
  from roundMoney_mono [OF this] have "p \<le> roundMoney c" by (simp add: p)
  moreover have "0 \<le> roundMoney c * (1 - q / 100)" using q by simp
  ultimately show ?thesis by (simp add: p roundMoney_nonneg)
qed

lemma find_sort_key_least:
  assumes "List.find P (sort_key f xs) = Some x"
  shows "x \<in> set xs \<and> P x \<and> (\<forall>y \<in> set xs. P y \<longrightarrow> f x \<le> f y)"
proof -
  have srt: "sorted (map f (sort_key f xs))" by simp
  have "x \<in> set ys \<and> P x \<and> (\<forall>y \<in> set ys. P y \<longrightarrow> f x \<le> f y)"
    if "sorted (map f ys)" "List.find P ys = Some x" for ys
    using that by (induction ys) (auto split: if_splits)
  from this [OF srt assms] show ?thesis by simp
qed

lemma findActive_sound:
  "x \<in> set (findActiveItemsForProducts env ids s) \<Longrightarrow>
     snd x \<in> set (dbSaleCampaigns s) \<and> campaignActive (envNow env) (snd x) \<and>
     fst x \<in> set (dbSaleCampaignItems s) \<and> sci_campaignId (fst x) = sc_id (snd x) \<and>
     sci_productId (fst x) \<in> set ids"
  by (auto simp: findActiveItemsForProducts_def Let_def split: if_splits)

lemma resolve_fold_lookup:
  "v \<in> pl_variantId ` set lines \<Longrightarrow>
     \<exists>line \<in> set lines. pl_variantId line = v \<and>
       fold (\<lambda>line m. m(pl_variantId line \<mapsto> f line)) lines m0 v = Some (f line)"
proof (induction lines arbitrary: m0 rule: rev_induct)
  case Nil
  then show ?case by simp
next
  case (snoc l lines)
  then show ?case by (cases "pl_variantId l = v") auto
qed

lemma sale_unit:
  assumes "computeSaleUnitPrice (roundMoney c) percent = Some p"
  shows "\<exists>q. percent = Some q \<and> 1 \<le> q \<and> q \<le> 99 \<and> \<bar>p - roundMoney c * (1 - q / 100)\<bar> \<le> 1 / 200"
  using assms roundMoney_error by (auto simp: computeSaleUnitPrice_def split: option.splits if_splits)

lemma no_sale_unit:
  "computeSaleUnitPrice c percent = None \<Longrightarrow> percent = Some q \<Longrightarrow> 1 \<le> q \<Longrightarrow> q \<le> 99 \<Longrightarrow> c \<le> 0"
  by (auto simp: computeSaleUnitPrice_def split: if_splits)

lemma resolved_range:
  assumes "0 \<le> catalogUnit"
  shows "0 \<le> eu_unitPrice (resolveEffectiveUnitFromItem catalogUnit item)"
    "eu_unitPrice (resolveEffectiveUnitFromItem catalogUnit item) \<le> eu_catalogUnitPrice (resolveEffectiveUnitFromItem catalogUnit item)"
  using roundMoney_nonneg [OF assms] computeSaleUnitPrice_bounds
  by (auto simp: resolveEffectiveUnitFromItem_def Let_def nullish_def split: option.split)

section \<open>Properties\<close>

text \<open>C17. A sale never raises the price: the catalog price of a line is the price of the product rounded to the
  satang, and whatever campaign item wins, the payable unit price lies between zero and it. A valid percentage
  (1 to 99) takes exactly that percentage off, to the satang; without one the catalog price is paid and no
  campaign is recorded; and a reduced price always records the campaign and the percentage that reduced it.\<close>

theorem sale_price_bounds:
  assumes "0 \<le> catalogUnit"
  shows "let e = resolveEffectiveUnitFromItem catalogUnit item; catalog = roundMoney catalogUnit in
    eu_catalogUnitPrice e = catalog \<and> \<bar>catalog - catalogUnit\<bar> \<le> 1 / 200 \<and>
    0 \<le> eu_unitPrice e \<and> eu_unitPrice e \<le> catalog \<and>
    (\<forall>i q. item = Some i \<and> cil_discountPercent i = Some q \<and> 1 \<le> q \<and> q \<le> 99 \<longrightarrow>
       \<bar>eu_unitPrice e - catalog * (1 - q / 100)\<bar> \<le> 1 / 200) \<and>
    ((\<nexists>i q. item = Some i \<and> cil_discountPercent i = Some q \<and> 1 \<le> q \<and> q \<le> 99) \<longrightarrow>
       eu_unitPrice e = catalog \<and> eu_saleCampaignId e = None \<and> eu_saleDiscountPercent e = None) \<and>
    (eu_unitPrice e < catalog \<longrightarrow>
       (\<exists>i q. item = Some i \<and> cil_discountPercent i = Some q \<and> 1 \<le> q \<and> q \<le> 99 \<and>
          eu_saleCampaignId e = cil_campaignId i \<and> eu_saleDiscountPercent e = Some q))"
proof (cases "case item of None \<Rightarrow> None | Some i \<Rightarrow> computeSaleUnitPrice (roundMoney catalogUnit) (cil_discountPercent i)")
  case None
  have nonneg: "0 \<le> roundMoney catalogUnit" using assms by (rule roundMoney_nonneg)
  have "roundMoney catalogUnit = 0" if "item = Some i" "cil_discountPercent i = Some q" "1 \<le> q" "q \<le> 99" for i q
    using None no_sale_unit [of "roundMoney catalogUnit" "cil_discountPercent i" q] nonneg that by simp
  then show ?thesis using None nonneg roundMoney_error [of catalogUnit]
    by (auto simp: resolveEffectiveUnitFromItem_def Let_def split: option.splits)
next
  case (Some p)
  then obtain i where i: "item = Some i" "computeSaleUnitPrice (roundMoney catalogUnit) (cil_discountPercent i) = Some p"
    by (auto split: option.splits)
  from sale_unit [OF i(2)] computeSaleUnitPrice_bounds [OF i(2)] i roundMoney_error [of catalogUnit] show ?thesis
    by (auto simp: resolveEffectiveUnitFromItem_def Let_def)
qed

definition sampleCampaignItem :: campaign_item_like where
  "sampleCampaignItem = \<lparr>cil_productId = ''p'', cil_variantId = None, cil_discountPercent = Some 25,
     cil_compareAtPrice = None, cil_priority = Some 1, cil_campaignId = Some ''c'', cil_createdAt = None\<rparr>"

theorem sale_price_bounds_witness:
  "eu_unitPrice (resolveEffectiveUnitFromItem 100 (Some sampleCampaignItem)) \<le> 100 \<and>
   eu_unitPrice (resolveEffectiveUnitFromItem 100 (Some sampleCampaignItem)) = 75"
  using sale_price_bounds [of 100 "Some sampleCampaignItem"]
  by (simp add: Let_def) (simp add: resolveEffectiveUnitFromItem_def sampleCampaignItem_def
      computeSaleUnitPrice_def roundMoney_def js_round_def Let_def)

text \<open>The item chosen for a line is for the line's product; it is the variant's own item
  whenever there is one and a product-wide item otherwise; and no item of the same kind has a
  higher priority, or the same priority and a later creation time.\<close>

theorem winning_item_is_best:
  assumes "v \<noteq> []" and "selectWinningCampaignItem cands pid (Some v) = Some w"
  shows "w \<in> set cands \<and> cil_productId w = pid \<and>
    cil_variantId w = (if \<exists>i \<in> set cands. cil_productId i = pid \<and> cil_variantId i = Some v
                       then Some v else None) \<and>
    (\<forall>i \<in> set cands. cil_productId i = pid \<and> cil_variantId i = cil_variantId w \<longrightarrow>
       campaignRank w \<le> campaignRank i)"
proof -
  let ?mine = "filter (\<lambda>i. cil_productId i = pid) cands"
  let ?own = "List.find (\<lambda>i. cil_variantId i = Some v) (sort_key campaignRank ?mine)"
  from assms have sel: "orElse ?own (List.find (\<lambda>i. cil_variantId i = None) (sort_key campaignRank ?mine)) = Some w"
    by (simp add: selectWinningCampaignItem_def Let_def)
  show ?thesis
  proof (cases ?own)
    case None
    then have "\<forall>i \<in> set ?mine. cil_variantId i \<noteq> Some v" by (simp add: find_None_iff)
    moreover from None sel
    have "List.find (\<lambda>i. cil_variantId i = None) (sort_key campaignRank ?mine) = Some w" by simp
    ultimately show ?thesis using find_sort_key_least [of _ campaignRank ?mine w] by fastforce
  next
    case (Some x)
    with sel have "?own = Some w" by simp
    from find_sort_key_least [OF this] show ?thesis by auto
  qed
qed

theorem winning_item_is_best_witness:
  "selectWinningCampaignItem [sampleCampaignItem] ''p'' (Some ''v'') = Some sampleCampaignItem \<and>
   cil_productId sampleCampaignItem = ''p''"
proof -
  have h: "selectWinningCampaignItem [sampleCampaignItem] ''p'' (Some ''v'') = Some sampleCampaignItem"
    by (simp add: selectWinningCampaignItem_def sampleCampaignItem_def Let_def)
  from winning_item_is_best [OF _ h] h show ?thesis by simp
qed

text \<open>The strike-through price shown at checkout is honest: when one is shown it is strictly
  above what the customer pays.\<close>

theorem display_compare_at_honest:
  "honestDisplayCompareAt resolved static = Some c \<Longrightarrow> eu_unitPrice resolved < c"
  by (auto simp: honestDisplayCompareAt_def split: option.splits if_splits)

theorem display_compare_at_honest_witness:
  "honestDisplayCompareAt (resolveEffectiveUnitFromItem 100 (Some sampleCampaignItem)) None = Some 100 \<and>
   eu_unitPrice (resolveEffectiveUnitFromItem 100 (Some sampleCampaignItem)) < 100"
proof -
  have "honestDisplayCompareAt (resolveEffectiveUnitFromItem 100 (Some sampleCampaignItem)) None = Some 100"
    by (simp add: honestDisplayCompareAt_def resolveEffectiveUnitFromItem_def sampleCampaignItem_def
        effectiveCompareAt_def computeSaleUnitPrice_def roundMoney_def js_round_def Let_def)
  from display_compare_at_honest [OF this] this show ?thesis by simp
qed

text \<open>Batch pricing is total and safe: every line's variant gets a price, at most the rounded
  catalog price of a line of that variant; and when no campaign is active at the call's time,
  it is exactly the rounded catalog price.\<close>

theorem batch_prices_total:
  assumes "line \<in> set lines" and "\<forall>l \<in> set lines. 0 \<le> pl_catalogUnit l"
  shows "\<exists>e l. resolveEffectiveUnitPrices env lines s (pl_variantId line) = Some e \<and>
    l \<in> set lines \<and> pl_variantId l = pl_variantId line \<and>
    eu_catalogUnitPrice e = roundMoney (pl_catalogUnit l) \<and>
    0 \<le> eu_unitPrice e \<and> eu_unitPrice e \<le> eu_catalogUnitPrice e \<and>
    ((\<forall>c \<in> set (dbSaleCampaigns s). \<not> campaignActive (envNow env) c) \<longrightarrow>
       eu_unitPrice e = roundMoney (pl_catalogUnit l))"
proof -
  define rows where "rows = findActiveItemsForProducts env
    (uniq (filter (\<lambda>i. i \<noteq> []) (map pl_productId lines))) s"
  define price where "price = (\<lambda>l :: price_line. resolveEffectiveUnitFromItem (roundMoney (pl_catalogUnit l))
    (selectWinningCampaignItem (map toCampaignItemLike rows) (pl_productId l) (Some (pl_variantId l))))"
  have eq: "resolveEffectiveUnitPrices env lines s =
      fold (\<lambda>l m. m(pl_variantId l \<mapsto> price l)) lines Map.empty"
    by (simp add: resolveEffectiveUnitPrices_def rows_def price_def Let_def)
  from assms(1) have "pl_variantId line \<in> pl_variantId ` set lines" by simp
  from resolve_fold_lookup [OF this] obtain l where l: "l \<in> set lines" "pl_variantId l = pl_variantId line"
      "resolveEffectiveUnitPrices env lines s (pl_variantId line) = Some (price l)"
    unfolding eq by blast
  have nn: "0 \<le> roundMoney (pl_catalogUnit l)" using l assms(2) by (simp add: roundMoney_nonneg)
  have cat: "eu_catalogUnitPrice (price l) = roundMoney (pl_catalogUnit l)"
    by (simp add: price_def resolveEffectiveUnitFromItem_def Let_def split: option.splits)
  have none: "eu_unitPrice (price l) = roundMoney (pl_catalogUnit l)"
    if "\<forall>c \<in> set (dbSaleCampaigns s). \<not> campaignActive (envNow env) c"
  proof -
    from that have "rows = []"
      unfolding rows_def using findActive_sound by (metis list.set_intros(1) neq_Nil_conv)
    then show ?thesis
      by (simp add: price_def selectWinningCampaignItem_def resolveEffectiveUnitFromItem_def Let_def)
  qed
  have bounds: "0 \<le> eu_unitPrice (price l) \<and> eu_unitPrice (price l) \<le> eu_catalogUnitPrice (price l)"
    using resolved_range [OF nn] unfolding price_def by blast
  show ?thesis
    by (rule exI [of _ "price l"], rule exI [of _ l]) (use l cat none bounds in simp)
qed

theorem batch_prices_total_witness:
  "\<exists>e. resolveEffectiveUnitPrices \<lparr>envNow = 0, envUuid = (\<lambda>_. []), envMailFails = (\<lambda>_. False)\<rparr>
     [\<lparr>pl_productId = ''p'', pl_variantId = ''v'', pl_catalogUnit = 100\<rparr>] empty_db ''v'' = Some e \<and>
     eu_unitPrice e \<le> 100"
  using batch_prices_total [of "\<lparr>pl_productId = ''p'', pl_variantId = ''v'', pl_catalogUnit = 100\<rparr>"
      "[\<lparr>pl_productId = ''p'', pl_variantId = ''v'', pl_catalogUnit = 100\<rparr>]"
      "\<lparr>envNow = 0, envUuid = (\<lambda>_. []), envMailFails = (\<lambda>_. False)\<rparr>" empty_db]
  by (auto simp: roundMoney_def js_round_def)

end
