(* ===== verification/Promotion_Rules.thy ===== *)
theory Promotion_Rules
  imports Repository "HOL-Library.List_Lexorder" "HOL-Library.Char_ord" "HOL-Library.Multiset"
begin

text \<open>
  \<^verbatim>\<open>src/src/modules/promotions/promotions.service.ts\<close>, the evaluation side: \<open>validateCode\<close>
  with its gates, the buy-x-get-y rule, the stacking of a platform and several store codes, and
  the soft batch evaluation. The database is only read; the state of these methods is the
  request-local cache of the new-customer gate (\<open>None\<close> when the caller passes no cache).

  \<open>numeric\<close> columns reach the code as strings (the PostgreSQL driver does not parse them), so
  \<open>if (promotion.maxDiscountAmount)\<close> and \<open>if (promotion.minPurchaseAmount && \<dots>)\<close> hold
  for every value that is not null, zero included. Integer columns are numbers, for which zero is
  falsy (\<open>usageLimit\<close>, \<open>usagePerCustomer\<close>).
\<close>

section \<open>Arguments and results\<close>

record customer_identity =
  cid_customerId :: "string option"
  cid_guestPhone :: "string option"

record cart_line =
  cl_productId :: string
  cl_variantId :: "string option"
  cl_quantity :: rat
  cl_unitPrice :: money

record gate_entry =
  ge_createdAt :: "date option"
  ge_paidPathCount :: nat

type_synonym gate_cache = "string \<rightharpoonup> gate_entry"

datatype validate_mode = Preview | Apply

record validate_options =
  vo_lines :: "cart_line list option"
  vo_mode :: validate_mode
  vo_shippingFee :: "money option"
  vo_storeShippingFees :: "(string \<rightharpoonup> money) option"
  vo_requiredScope :: "promotion_scope option"

record validate_result =
  vr_promotion :: promotion_row
  vr_discountAmount :: money
  vr_freeUnits :: int
  vr_ineligibilityReason :: "string option"

definition isShippingType :: "promotion_type \<Rightarrow> bool" where
  "isShippingType t \<longleftrightarrow>
     t \<in> {PT_FREE_SHIPPING, PT_FIXED_SHIPPING_DISCOUNT, PT_PERCENTAGE_SHIPPING_DISCOUNT}"

definition paidPathStatuses :: "order_status set" where
  "paidPathStatuses = {OS_PAID, OS_PROCESSING, OS_SHIPPED, OS_DELIVERED}"

definition maxLineQuantity :: int where
  "maxLineQuantity = 999"

section \<open>Reading JSON conditions\<close>

definition jsonField :: "string \<Rightarrow> (string \<times> json) list \<Rightarrow> json option" where
  "jsonField k flds = map_of flds k"

text \<open>\<open>typeof v === 'number' && Number.isInteger(v) && v >= 1\<close>\<close>

definition positiveInteger :: "json option \<Rightarrow> int option" where
  "positiveInteger v = (case v of
     Some (JNum q) \<Rightarrow> if of_int \<lfloor>q\<rfloor> = q \<and> 1 \<le> q then Some \<lfloor>q\<rfloor> else None
   | _ \<Rightarrow> None)"

text \<open>The flds of a nested condition object whose \<open>enabled\<close> is \<open>true\<close>.\<close>

definition enabledObject :: "json option \<Rightarrow> (string \<times> json) list option" where
  "enabledObject v = (case v of
     Some (JObj flds) \<Rightarrow> if jsonField ''enabled'' flds = Some (JBool True) then Some flds else None
   | _ \<Rightarrow> None)"

section \<open>Gates\<close>

definition evaluateLoggedInOnlyGate :: "promotion_row \<Rightarrow> customer_identity option \<Rightarrow> string option" where
  "evaluateLoggedInOnlyGate p customer =
     (case enabledObject (jsonField ''loggedInOnly'' (pm_conditions p)) of
        None \<Rightarrow> None
      | Some _ \<Rightarrow>
          (case customer of
             Some c \<Rightarrow> (case cid_customerId c of
                          Some i \<Rightarrow> if js_trim i \<noteq> [] then None else Some ''GUEST''
                        | None \<Rightarrow> Some ''GUEST'')
           | None \<Rightarrow> Some ''GUEST''))"

definition customerOf :: "db \<Rightarrow> string \<Rightarrow> customer_row option" where
  "customerOf s i = List.find (\<lambda>c. c_id c = i \<and> c_deletedAt c = None) (dbCustomers s)"

definition paidPathCount :: "db \<Rightarrow> string \<Rightarrow> nat" where
  "paidPathCount s i =
     length (filter (\<lambda>ord. o_customerId ord = Some i \<and> o_status ord \<in> paidPathStatuses) (dbOrders s))"

text \<open>What the cached branch stores for a customer.\<close>

definition gateEntry :: "db \<Rightarrow> string \<Rightarrow> gate_entry" where
  "gateEntry s i = (case customerOf s i of
     None \<Rightarrow> \<lparr>ge_createdAt = None, ge_paidPathCount = 0\<rparr>
   | Some c \<Rightarrow> \<lparr>ge_createdAt = Some (c_createdAt c), ge_paidPathCount = paidPathCount s i\<rparr>)"

definition gateLookup :: "db \<Rightarrow> string \<Rightarrow> gate_cache \<Rightarrow> gate_entry \<times> gate_cache" where
  "gateLookup s i cache = (case cache i of
     Some e \<Rightarrow> (e, cache)
   | None \<Rightarrow> (gateEntry s i, cache(i \<mapsto> gateEntry s i)))"

definition dayMs :: int where
  "dayMs = 24 * 60 * 60 * 1000"

text \<open>The checks after a cache entry is at hand (lines 862 to 875).\<close>

definition judgeEntry :: "date \<Rightarrow> int option \<Rightarrow> gate_entry \<Rightarrow> string option" where
  "judgeEntry nowUtc nDays e = (case ge_createdAt e of
     None \<Rightarrow> Some ''GUEST''
   | Some created \<Rightarrow>
       (case nDays of
          None \<Rightarrow> Some ''ACCOUNT_AGE''
        | Some n \<Rightarrow>
            if created + n * dayMs < nowUtc then Some ''ACCOUNT_AGE''
            else if 0 < ge_paidPathCount e then Some ''ORDER_HISTORY''
            else None))"

text \<open>The branch without a cache (lines 877 to 903).\<close>

definition judgeFresh :: "db \<Rightarrow> date \<Rightarrow> int option \<Rightarrow> string \<Rightarrow> string option" where
  "judgeFresh s nowUtc nDays i = (case customerOf s i of
     None \<Rightarrow> Some ''GUEST''
   | Some c \<Rightarrow>
       (case nDays of
          None \<Rightarrow> Some ''ACCOUNT_AGE''
        | Some n \<Rightarrow>
            if c_createdAt c + n * dayMs < nowUtc then Some ''ACCOUNT_AGE''
            else if 0 < paidPathCount s i then Some ''ORDER_HISTORY''
            else None))"

definition evaluateNewCustomerGates ::
    "db \<Rightarrow> promotion_row \<Rightarrow> customer_identity option \<Rightarrow> date \<Rightarrow> (gate_cache option, string option) op" where
  "evaluateNewCustomerGates s p customer nowUtc =
     (case enabledObject (jsonField ''newCustomer'' (pm_conditions p)) of
        None \<Rightarrow> retM None
      | Some nc \<Rightarrow>
          (let customerId = Option.bind customer cid_customerId;
               nDays = positiveInteger (jsonField ''nDays'' nc)
           in if \<not> truthy customerId then retM (Some ''GUEST'')
              else (\<lambda>cache. case cache of
                      Some m \<Rightarrow> (let (e, m') = gateLookup s (the customerId) m
                                 in (Inr (judgeEntry nowUtc nDays e), Some m'))
                    | None \<Rightarrow> (Inr (judgeFresh s nowUtc nDays (the customerId)), None))))"

text \<open>
  Per-customer usage: usages of the promotion joined with orders of the customer, or of the guest
  phone when there is no customer.
\<close>

definition customerUsageCount :: "db \<Rightarrow> string \<Rightarrow> (order_row \<Rightarrow> bool) \<Rightarrow> nat" where
  "customerUsageCount s promotionId P =
     length [u. u \<leftarrow> dbPromotionUsages s, ord \<leftarrow> dbOrders s,
                pu_orderId u = o_id ord, pu_promotionId u = promotionId, P ord]"

definition evaluateCustomerUsageLimit :: "db \<Rightarrow> promotion_row \<Rightarrow> customer_identity option \<Rightarrow> string option" where
  "evaluateCustomerUsageLimit s p customer =
     (if pm_usagePerCustomer p \<le> 0 then None
      else let customerId = Option.bind customer cid_customerId;
               guestPhone = map_option js_trim (Option.bind customer cid_guestPhone)
           in if \<not> truthy customerId \<and> \<not> truthy guestPhone then None
              else let count = (if truthy customerId
                       then customerUsageCount s (pm_id p) (\<lambda>ord. o_customerId ord = customerId)
                       else customerUsageCount s (pm_id p) (\<lambda>ord. o_guestPhone ord = guestPhone))
                   in if pm_usagePerCustomer p \<le> int count then Some ''PROMOTION_CUSTOMER_LIMIT'' else None)"

definition resolveEligibilityFailure :: "promotion_row \<Rightarrow> string \<Rightarrow> validate_mode \<Rightarrow> validate_result result" where
  "resolveEligibilityFailure p code mode = (case mode of
     Preview \<Rightarrow> Inr \<lparr>vr_promotion = p, vr_discountAmount = 0, vr_freeUnits = 0,
                      vr_ineligibilityReason = Some code\<rparr>
   | Apply \<Rightarrow> Inl (BadRequest code))"

definition resolveShippingFeeBase :: "promotion_row \<Rightarrow> string option \<Rightarrow> validate_options \<Rightarrow> money" where
  "resolveShippingFeeBase p storeId opts =
     (case (pm_scope p, truthy storeId, vo_storeShippingFees opts) of
        (SC_STORE, True, Some fees) \<Rightarrow>
          (case fees (the storeId) of Some f \<Rightarrow> f | None \<Rightarrow> nullish (vo_shippingFee opts) 0)
      | _ \<Rightarrow> nullish (vo_shippingFee opts) 0)"

section \<open>Buy x get y\<close>

record unit_slot =
  us_unitPrice :: money
  us_lineIndex :: nat
  us_variantId :: string

datatype bxgy = MissingLines | Insufficient | BxOk int money

definition lineQty :: "cart_line \<Rightarrow> int" where
  "lineQty l = max 0 \<lfloor>cl_quantity l\<rfloor>"

text \<open>The first loop: \<open>None\<close> when the running quantity passes the maximum.\<close>

fun cappedQty :: "string \<Rightarrow> int \<Rightarrow> cart_line list \<Rightarrow> int option" where
  "cappedQty pid q [] = Some q"
| "cappedQty pid q (l # ls) =
     (if cl_productId l \<noteq> pid then cappedQty pid q ls
      else if maxLineQuantity < q + lineQty l then None
      else cappedQty pid (q + lineQty l) ls)"

fun unitSlots :: "string \<Rightarrow> nat \<Rightarrow> cart_line list \<Rightarrow> unit_slot list" where
  "unitSlots pid i [] = []"
| "unitSlots pid i (l # ls) =
     (if cl_productId l \<noteq> pid then unitSlots pid (Suc i) ls
      else replicate (nat (lineQty l))
             \<lparr>us_unitPrice = cl_unitPrice l, us_lineIndex = i, us_variantId = nullish (cl_variantId l) []\<rparr>
           @ unitSlots pid (Suc i) ls)"

definition slotOrder :: "unit_slot \<Rightarrow> money \<times> nat \<times> string" where
  "slotOrder u = (us_unitPrice u, us_lineIndex u, us_variantId u)"

definition evaluateBuyXGetY :: "promotion_row \<Rightarrow> cart_line list option \<Rightarrow> bxgy result" where
  "evaluateBuyXGetY p lines = (case lines of
     None \<Rightarrow> Inr MissingLines
   | Some ls \<Rightarrow>
       (case (jsonField ''productId'' (pm_conditions p),
              positiveInteger (jsonField ''buyQuantity'' (pm_conditions p)),
              positiveInteger (jsonField ''getQuantity'' (pm_conditions p))) of
          (Some (JStr pid), Some x, Some y) \<Rightarrow>
            if js_trim pid = [] then Inl (BadRequest ''INVALID_BXGY_CONDITIONS'')
            else (case cappedQty pid 0 ls of
                None \<Rightarrow> Inl (BadRequest ''QUANTITY_TOO_LARGE'')
              | Some _ \<Rightarrow>
                  (let units = unitSlots pid 0 ls;
                       free = (int (length units) div (x + y)) * y
                   in if free = 0 then Inr Insufficient
                      else Inr (BxOk free
                        (\<Sum>u\<leftarrow>take (nat free) (sort_key slotOrder units). us_unitPrice u))))
        | _ \<Rightarrow> Inl (BadRequest ''INVALID_BXGY_CONDITIONS'')))"

section \<open>validateCode\<close>

text \<open>The discount of an eligible promotion before the caps; \<open>Inl\<close> an early return or a throw.\<close>

datatype discount_outcome =
    Discount money int
  | Early "validate_result result"

definition rawDiscount ::
    "promotion_row \<Rightarrow> money \<Rightarrow> money \<Rightarrow> validate_options \<Rightarrow> discount_outcome" where
  "rawDiscount p subtotal shippingFee opts = (case pm_type p of
     PT_PERCENTAGE \<Rightarrow> Discount (subtotal * pm_discountValue p / 100) 0
   | PT_FIXED_AMOUNT \<Rightarrow> Discount (pm_discountValue p) 0
   | PT_FREE_SHIPPING \<Rightarrow> Discount shippingFee 0
   | PT_FIXED_SHIPPING_DISCOUNT \<Rightarrow> Discount (pm_discountValue p) 0
   | PT_PERCENTAGE_SHIPPING_DISCOUNT \<Rightarrow> Discount (shippingFee * pm_discountValue p / 100) 0
   | PT_BUY_X_GET_Y \<Rightarrow> (case evaluateBuyXGetY p (vo_lines opts) of
        Inl e \<Rightarrow> Early (Inl e)
      | Inr MissingLines \<Rightarrow> Early (resolveEligibilityFailure p ''MISSING_LINES'' (vo_mode opts))
      | Inr Insufficient \<Rightarrow> Early (Inr \<lparr>vr_promotion = p, vr_discountAmount = 0, vr_freeUnits = 0,
            vr_ineligibilityReason =
              (case vo_mode opts of Preview \<Rightarrow> Some ''INSUFFICIENT_QTY'' | Apply \<Rightarrow> None)\<rparr>)
      | Inr (BxOk free amount) \<Rightarrow> Discount amount free))"

definition cappedDiscount :: "promotion_row \<Rightarrow> money \<Rightarrow> money \<Rightarrow> money \<Rightarrow> money" where
  "cappedDiscount p subtotal shippingFee d =
     (let d1 = (case pm_maxDiscountAmount p of None \<Rightarrow> d | Some m \<Rightarrow> min d m)
      in min d1 (if isShippingType (pm_type p) then shippingFee else subtotal))"

definition computeDiscount ::
    "promotion_row \<Rightarrow> money \<Rightarrow> string option \<Rightarrow> validate_options \<Rightarrow> validate_result result" where
  "computeDiscount p subtotal storeId opts =
     (let shippingFee = resolveShippingFeeBase p storeId opts
      in case rawDiscount p subtotal shippingFee opts of
           Early r \<Rightarrow> r
         | Discount d free \<Rightarrow> Inr \<lparr>vr_promotion = p,
             vr_discountAmount = cappedDiscount p subtotal shippingFee d,
             vr_freeUnits = free, vr_ineligibilityReason = None\<rparr>)"

definition findPromotionByCode :: "db \<Rightarrow> string \<Rightarrow> promotion_row option" where
  "findPromotionByCode s code =
     List.find (\<lambda>p. pm_code p = code \<and> pm_isActive p \<and> pm_deletedAt p = None) (dbPromotions s)"

definition validateCode ::
    "env \<Rightarrow> db \<Rightarrow> string \<Rightarrow> money \<Rightarrow> string option \<Rightarrow> customer_identity option \<Rightarrow> validate_options
       \<Rightarrow> (gate_cache option, validate_result) op" where
  "validateCode env s code subtotal storeId customer opts =
     (case findPromotionByCode s code of
        None \<Rightarrow> raiseM (BadRequest ''INVALID_PROMOTION'')
      | Some p \<Rightarrow>
          seqM (failIf (case vo_requiredScope opts of None \<Rightarrow> False | Some sc \<Rightarrow> pm_scope p \<noteq> sc)
                  (BadRequest ''PROMOTION_SCOPE'')) (\<lambda>_.
          seqM (failIf (pm_scope p = SC_STORE \<and> \<not> truthy storeId) (BadRequest ''PROMOTION_STORE'')) (\<lambda>_.
          seqM (failIf (pm_scope p = SC_PLATFORM \<and> truthy storeId) (BadRequest ''PROMOTION_SCOPE'')) (\<lambda>_.
          seqM (failIf (case pm_startsAt p of None \<Rightarrow> False | Some a \<Rightarrow> envNow env < a)
                  (BadRequest ''PROMOTION_NOT_STARTED'')) (\<lambda>_.
          seqM (failIf (case pm_expiresAt p of None \<Rightarrow> False | Some z \<Rightarrow> z < envNow env)
                  (BadRequest ''PROMOTION_EXPIRED'')) (\<lambda>_.
          if (case pm_usageLimit p of None \<Rightarrow> False | Some l \<Rightarrow> l \<noteq> 0 \<and> l \<le> pm_usageCount p)
          then liftM (resolveEligibilityFailure p ''PROMOTION_LIMIT'' (vo_mode opts))
          else
          (case evaluateCustomerUsageLimit s p customer of
             Some reason \<Rightarrow> liftM (resolveEligibilityFailure p reason (vo_mode opts))
           | None \<Rightarrow>
          seqM (failIf (pm_scope p = SC_STORE \<and> truthy storeId \<and> pm_storeId p \<noteq> storeId)
                  (BadRequest ''PROMOTION_STORE'')) (\<lambda>_.
          seqM (failIf (case pm_minPurchaseAmount p of None \<Rightarrow> False | Some m \<Rightarrow> subtotal < m)
                  (BadRequest ''PROMOTION_MIN_PURCHASE'')) (\<lambda>_.
          (case evaluateLoggedInOnlyGate p customer of
             Some reason \<Rightarrow> liftM (resolveEligibilityFailure p reason (vo_mode opts))
           | None \<Rightarrow>
          seqM (evaluateNewCustomerGates s p customer (envNow env)) (\<lambda>gateReason.
          (case gateReason of
             Some reason \<Rightarrow> liftM (resolveEligibilityFailure p reason (vo_mode opts))
           | None \<Rightarrow> liftM (computeDiscount p subtotal storeId opts)))))))))))))"

section \<open>Stacking\<close>

record stack =
  sk_promotions :: "promotion_row list"
  sk_discounts :: "string \<rightharpoonup> money"
  sk_item :: money
  sk_shipping :: money
  sk_remaining :: money
  sk_freeUnits :: int

definition emptyStack :: "money \<Rightarrow> stack" where
  "emptyStack shippingFee = \<lparr>sk_promotions = [], sk_discounts = Map.empty, sk_item = 0,
     sk_shipping = 0, sk_remaining = max 0 shippingFee, sk_freeUnits = 0\<rparr>"

definition absorb :: "validate_mode \<Rightarrow> validate_result \<Rightarrow> stack \<Rightarrow> stack" where
  "absorb mode r k =
     (let p = vr_promotion r in
      if mode = Apply \<and> pm_type p = PT_BUY_X_GET_Y \<and> vr_freeUnits r = 0 \<and> vr_discountAmount r = 0
      then k
      else
        let k1 = k\<lparr>sk_promotions := sk_promotions k @ [p]\<rparr>;
            k2 = (if isShippingType (pm_type p)
                  then let applied = min (max 0 (vr_discountAmount r)) (sk_remaining k)
                       in k1\<lparr>sk_discounts := (sk_discounts k)(pm_id p \<mapsto> applied),
                             sk_shipping := sk_shipping k + applied,
                             sk_remaining := sk_remaining k - applied\<rparr>
                  else k1\<lparr>sk_discounts := (sk_discounts k)(pm_id p \<mapsto> vr_discountAmount r),
                          sk_item := sk_item k + vr_discountAmount r\<rparr>)
        in k2\<lparr>sk_freeUnits := sk_freeUnits k + vr_freeUnits r\<rparr>)"

record stacked =
  sd_promotions :: "promotion_row list"
  sd_discountAmount :: money
  sd_discountsByPromotionId :: "string \<rightharpoonup> money"
  sd_freeUnits :: int

text \<open>One store code: the lookup that finds its store, and the validation on that store's lane.\<close>

definition validateStoreCode ::
    "env \<Rightarrow> db \<Rightarrow> money \<Rightarrow> (string \<rightharpoonup> money) \<Rightarrow> customer_identity option \<Rightarrow> validate_options \<Rightarrow> string
       \<Rightarrow> (gate_cache option, validate_result) op" where
  "validateStoreCode env s subtotal storeSubtotals customer opts code =
     (let storeId = Option.bind (findPromotionByCode s code) pm_storeId;
          storeSubtotal = (if truthy storeId then nullish (storeSubtotals (the storeId)) 0 else subtotal)
      in validateCode env s code storeSubtotal storeId customer (opts\<lparr>vo_requiredScope := Some SC_STORE\<rparr>))"

fun absorbCodes ::
    "(string \<Rightarrow> (gate_cache option, validate_result) op) \<Rightarrow> validate_mode \<Rightarrow> string list \<Rightarrow> stack
       \<Rightarrow> (gate_cache option, stack) op" where
  "absorbCodes f mode [] k = retM k"
| "absorbCodes f mode (c # cs) k = seqM (f c) (\<lambda>r. absorbCodes f mode cs (absorb mode r k))"

definition finishStack :: "money \<Rightarrow> money \<Rightarrow> stack \<Rightarrow> stacked" where
  "finishStack subtotal shippingFee k =
     \<lparr>sd_promotions = sk_promotions k,
      sd_discountAmount = min (sk_item k) subtotal + min (sk_shipping k) shippingFee,
      sd_discountsByPromotionId = sk_discounts k,
      sd_freeUnits = sk_freeUnits k\<rparr>"

definition applyStackedPromotions ::
    "env \<Rightarrow> db \<Rightarrow> money \<Rightarrow> (string \<rightharpoonup> money) \<Rightarrow> string option \<Rightarrow> string list option
       \<Rightarrow> customer_identity option \<Rightarrow> validate_options \<Rightarrow> (gate_cache option, stacked) op" where
  "applyStackedPromotions env s subtotal storeSubtotals platformCode storeCodes customer opts =
     (let shippingFee = nullish (vo_shippingFee opts) 0 in
      seqM (absorbCodes (\<lambda>c. validateCode env s c subtotal None customer
                                (opts\<lparr>vo_requiredScope := Some SC_PLATFORM\<rparr>))
              (vo_mode opts) (if truthy platformCode then [the platformCode] else []) (emptyStack shippingFee))
        (\<lambda>k. seqM (absorbCodes (validateStoreCode env s subtotal storeSubtotals customer opts)
                     (vo_mode opts) (nullish storeCodes []) k)
               (\<lambda>k'. retM (finishStack subtotal shippingFee k'))))"

section \<open>Batch evaluation\<close>

record promotion_target =
  tg_id :: "string option"
  tg_code :: "string option"

record eligibility_item =
  ei_id :: "string option"
  ei_code :: string
  ei_name :: "string option"
  ei_eligible :: bool
  ei_ineligibilityReason :: "string option"
  ei_discountAmount :: money
  ei_freeUnits :: int

definition maxTargets :: nat where
  "maxTargets = 20"

definition softIneligibleItem :: "string option \<Rightarrow> string option \<Rightarrow> string option \<Rightarrow> string \<Rightarrow> eligibility_item" where
  "softIneligibleItem i code name reason =
     \<lparr>ei_id = i, ei_code = nullish code [], ei_name = name, ei_eligible = False,
      ei_ineligibilityReason = Some reason, ei_discountAmount = 0, ei_freeUnits = 0\<rparr>"

definition toEligibilityItem :: "validate_result \<Rightarrow> eligibility_item" where
  "toEligibilityItem r =
     (let p = vr_promotion r;
          reason = (case vr_ineligibilityReason r of
                      None \<Rightarrow> None
                    | Some t \<Rightarrow> if js_trim t \<noteq> [] then Some (js_trim t) else None)
      in \<lparr>ei_id = Some (pm_id p), ei_code = pm_code p, ei_name = Some (pm_name p),
          ei_eligible = (reason = None), ei_ineligibilityReason = reason,
          ei_discountAmount = (if reason = None then vr_discountAmount r else 0),
          ei_freeUnits = (if reason = None then vr_freeUnits r else 0)\<rparr>)"

text \<open>
  The \<open>catch\<close> clause turns a \<open>BadRequestException\<close> into a soft item with its code; any
  other exception is rethrown.
\<close>

definition evaluateBatchTarget ::
    "env \<Rightarrow> db \<Rightarrow> promotion_target \<Rightarrow> money \<Rightarrow> string option \<Rightarrow> customer_identity option
       \<Rightarrow> cart_line list option \<Rightarrow> money option \<Rightarrow> (gate_cache option, eligibility_item) op" where
  "evaluateBatchTarget env s target subtotal storeId customer lines shippingFee =
     (let inputCode = tg_code target;
          inputId = (case tg_id target of Some i \<Rightarrow> if js_trim i \<noteq> [] then Some i else None | None \<Rightarrow> None);
          resolved = (case inputId of None \<Rightarrow> None
             | Some i \<Rightarrow> List.find (\<lambda>p. pm_id p = i \<and> pm_deletedAt p = None) (dbPromotions s));
          opts = \<lparr>vo_lines = lines, vo_mode = Preview, vo_shippingFee = shippingFee,
                  vo_storeShippingFees = None, vo_requiredScope = None\<rparr>;
          validate = (\<lambda>code. catchM
             (seqM (validateCode env s code subtotal storeId customer opts) (\<lambda>r. retM (toEligibilityItem r)))
             (\<lambda>e. case e of
                BadRequest reason \<Rightarrow> retM (softIneligibleItem
                  (orElse (map_option pm_id resolved) inputId)
                  (orElse (map_option pm_code resolved) inputCode)
                  (map_option pm_name resolved) reason)
              | _ \<Rightarrow> raiseM e))
      in case (inputId, resolved) of
           (Some _, None) \<Rightarrow> retM (softIneligibleItem None inputCode None ''INVALID_PROMOTION'')
         | (Some _, Some p) \<Rightarrow>
             if truthy inputCode \<and> inputCode \<noteq> Some (pm_code p)
             then retM (softIneligibleItem (Some (pm_id p)) inputCode (Some (pm_name p)) ''INVALID_PROMOTION'')
             else if \<not> pm_isActive p
             then retM (softIneligibleItem (Some (pm_id p)) (Some (pm_code p)) (Some (pm_name p)) ''INVALID_PROMOTION'')
             else if pm_code p = [] then retM (softIneligibleItem None None None ''INVALID_PROMOTION'')
             else validate (pm_code p)
         | (None, _) \<Rightarrow>
             if \<not> truthy inputCode then retM (softIneligibleItem None None None ''INVALID_PROMOTION'')
             else validate (the inputCode))"

definition validatePromotionsBatch ::
    "env \<Rightarrow> db \<Rightarrow> promotion_target list \<Rightarrow> money \<Rightarrow> string option \<Rightarrow> customer_identity option
       \<Rightarrow> cart_line list option \<Rightarrow> money option \<Rightarrow> eligibility_item list result" where
  "validatePromotionsBatch env s targets subtotal storeId customer lines shippingFee =
     (if length targets < 1 \<or> maxTargets < length targets
      then Inl (BadRequest ''INVALID_VALIDATE_PROMOTIONS_INPUT'')
      else fst (forM (\<lambda>t. evaluateBatchTarget env s t subtotal storeId customer lines shippingFee)
                  targets (Some Map.empty)))"

section \<open>The new-customer cache is transparent\<close>

text \<open>
  The interface between the gate and its request-local cache: a hit returns the stored entry, a
  miss computes it and stores it. Whatever the order of lookups, a cache that was filled this
  way answers as the uncached computation does.
\<close>

locale memo =
  fixes fresh :: "'k \<Rightarrow> 'e"
    and cached :: "'k \<Rightarrow> ('k \<rightharpoonup> 'e) \<Rightarrow> 'e \<times> ('k \<rightharpoonup> 'e)"
  assumes hit: "m k = Some e \<Longrightarrow> cached k m = (e, m)"
    and miss: "m k = None \<Longrightarrow> cached k m = (fresh k, m(k \<mapsto> fresh k))"
begin

definition coherent :: "('k \<rightharpoonup> 'e) \<Rightarrow> bool" where
  "coherent m \<longleftrightarrow> (\<forall>k e. m k = Some e \<longrightarrow> e = fresh k)"

lemma coherent_empty: "coherent Map.empty"
  by (simp add: coherent_def)

lemma cached_fresh:
  assumes "coherent m" and "cached k m = (e, m')"
  shows "e = fresh k \<and> coherent m'"
proof (cases "m k")
  case None
  with miss [of m k] assms show ?thesis by (auto simp: coherent_def)
next
  case (Some e0)
  with hit [of m k e0] assms show ?thesis by (auto simp: coherent_def)
qed

end

interpretation gate_memo: memo "gateEntry s" "gateLookup s" for s
  by unfold_locales (simp_all add: gateLookup_def)

text \<open>
  \<open>cacheFree s f\<close>: with a coherent cache the method returns what it returns without one,
  and leaves the cache coherent.
\<close>

definition cacheFree :: "db \<Rightarrow> (gate_cache option, 'a) op \<Rightarrow> bool" where
  "cacheFree s f \<longleftrightarrow> (\<forall>m. gate_memo.coherent s m \<longrightarrow>
     (\<exists>r m'. f (Some m) = (r, Some m') \<and> gate_memo.coherent s m' \<and> f None = (r, None)))"

named_theorems cache_free "methods for which the gate cache is transparent"

lemma cacheFree_basic [cache_free]:
  "cacheFree s (retM x)" "cacheFree s (raiseM e)" "cacheFree s (liftM r)" "cacheFree s (failIf b e)"
  by (simp_all add: cacheFree_def failIf_def)

lemma cacheFree_seq [cache_free]:
  assumes f: "cacheFree s f" and g: "\<And>x. cacheFree s (g x)"
  shows "cacheFree s (seqM f g)"
  unfolding cacheFree_def
proof (intro allI impI)
  fix m
  assume "gate_memo.coherent s m"
  with f obtain r m1 where 1: "f (Some m) = (r, Some m1)" "gate_memo.coherent s m1" "f None = (r, None)"
    unfolding cacheFree_def by blast
  show "\<exists>r m'. seqM f g (Some m) = (r, Some m') \<and> gate_memo.coherent s m' \<and> seqM f g None = (r, None)"
  proof (cases r)
    case (Inl e)
    with 1 show ?thesis by (auto simp: seqM_def)
  next
    case (Inr x)
    from g [of x] 1(2) show ?thesis using 1 Inr unfolding cacheFree_def by (auto simp: seqM_def)
  qed
qed

lemma cacheFree_catch [cache_free]:
  assumes f: "cacheFree s f" and h: "\<And>e. cacheFree s (h e)"
  shows "cacheFree s (catchM f h)"
  unfolding cacheFree_def
proof (intro allI impI)
  fix m
  assume "gate_memo.coherent s m"
  with f obtain r m1 where 1: "f (Some m) = (r, Some m1)" "gate_memo.coherent s m1" "f None = (r, None)"
    unfolding cacheFree_def by blast
  show "\<exists>r m'. catchM f h (Some m) = (r, Some m') \<and> gate_memo.coherent s m' \<and> catchM f h None = (r, None)"
  proof (cases r)
    case (Inl e)
    from h [of e] 1(2) show ?thesis using 1 Inl unfolding cacheFree_def by (auto simp: catchM_def)
  next
    case (Inr x)
    with 1 show ?thesis by (auto simp: catchM_def)
  qed
qed

lemma cacheFree_if [cache_free]: "cacheFree s f \<Longrightarrow> cacheFree s g \<Longrightarrow> cacheFree s (if b then f else g)"
  by simp

lemma cacheFree_option [cache_free]:
  "cacheFree s f \<Longrightarrow> (\<And>x. cacheFree s (g x)) \<Longrightarrow> cacheFree s (case a of None \<Rightarrow> f | Some x \<Rightarrow> g x)"
  by (cases a) simp_all

text \<open>The two branches of the gate, cached and not, apply the same checks to the same facts.\<close>

lemma judge_gateEntry: "judgeEntry t n (gateEntry s i) = judgeFresh s t n i"
  by (simp add: judgeEntry_def judgeFresh_def gateEntry_def split: option.splits)

lemma cacheFree_gates [cache_free]: "cacheFree s (evaluateNewCustomerGates s p customer t)"
proof (cases "enabledObject (jsonField ''newCustomer'' (pm_conditions p))")
  case None
  then show ?thesis by (simp add: evaluateNewCustomerGates_def cache_free)
next
  case (Some nc)
  define i where "i = Option.bind customer cid_customerId"
  show ?thesis
  proof (cases "truthy i")
    case False
    with Some show ?thesis by (simp add: evaluateNewCustomerGates_def i_def cache_free)
  next
    case True
    let ?n = "positiveInteger (jsonField ''nDays'' nc)"
    show ?thesis unfolding cacheFree_def
    proof (intro allI impI)
      fix m
      assume m: "gate_memo.coherent s m"
      obtain e m' where l: "gateLookup s (the i) m = (e, m')" by (cases "gateLookup s (the i) m")
      from gate_memo.cached_fresh [OF m l] have "e = gateEntry s (the i)" "gate_memo.coherent s m'" by auto
      with Some True l show "\<exists>r m'. evaluateNewCustomerGates s p customer t (Some m) = (r, Some m') \<and>
          gate_memo.coherent s m' \<and> evaluateNewCustomerGates s p customer t None = (r, None)"
        by (simp add: evaluateNewCustomerGates_def i_def judge_gateEntry Let_def)
    qed
  qed
qed

lemma cacheFree_validateCode [cache_free]:
  "cacheFree s (validateCode env s code subtotal storeId customer opts)"
  unfolding validateCode_def by (intro cache_free)

lemma cacheFree_exn [cache_free]:
  "(\<And>c. cacheFree s (f c)) \<Longrightarrow> cacheFree s (case e of BadRequest c \<Rightarrow> f c | _ \<Rightarrow> raiseM e)"
  by (cases e) (simp_all add: cache_free)

lemma cacheFree_evaluateBatchTarget [cache_free]:
  "cacheFree s (evaluateBatchTarget env s target subtotal storeId customer lines fee)"
  unfolding evaluateBatchTarget_def Let_def
  by (auto split: option.splits intro!: cache_free)

lemma forM_cacheFree:
  assumes "\<And>x. cacheFree s (f x)" and "gate_memo.coherent s m"
    and "\<And>x. x \<in> set xs \<Longrightarrow> fst (f x None) = Inr (y x)"
  shows "fst (forM f xs (Some m)) = Inr (map y xs)"
  using assms(2,3)
proof (induction xs arbitrary: m)
  case Nil
  then show ?case by simp
next
  case (Cons x xs)
  from assms(1) [of x] Cons.prems(1) obtain r m'
    where r: "f x (Some m) = (r, Some m')" "gate_memo.coherent s m'" "f x None = (r, None)"
    unfolding cacheFree_def by blast
  with Cons.prems(2) [of x] have "r = Inr (y x)" by simp
  moreover have "fst (forM f xs (Some m')) = Inr (map y xs)"
    using Cons.IH [OF r(2)] Cons.prems(2) by simp
  ultimately show ?case using r by (cases "forM f xs (Some m')") simp
qed

section \<open>What validateCode can return\<close>

text \<open>Reasons are never blank, so the soft batch items always carry them.\<close>

definition visibleReason :: "string \<Rightarrow> bool" where
  "visibleReason t \<longleftrightarrow> js_trim t \<noteq> []"

lemma visible_literals [simp]:
  "visibleReason ''GUEST''" "visibleReason ''ACCOUNT_AGE''" "visibleReason ''ORDER_HISTORY''"
  "visibleReason ''PROMOTION_LIMIT''" "visibleReason ''PROMOTION_CUSTOMER_LIMIT''"
  "visibleReason ''MISSING_LINES''" "visibleReason ''INSUFFICIENT_QTY''"
  by (simp_all add: visibleReason_def js_trim_def js_ws_def)

lemma usage_reason_visible: "evaluateCustomerUsageLimit s p c = Some t \<Longrightarrow> visibleReason t"
  by (auto simp: evaluateCustomerUsageLimit_def Let_def split: if_splits)

lemma logged_in_reason_visible: "evaluateLoggedInOnlyGate p c = Some t \<Longrightarrow> visibleReason t"
  by (auto simp: evaluateLoggedInOnlyGate_def split: if_splits option.splits)

lemma judge_visible:
  "judgeEntry now n e = Some t \<Longrightarrow> visibleReason t"
  "judgeFresh s now n i = Some t \<Longrightarrow> visibleReason t"
  by (auto simp: judgeEntry_def judgeFresh_def split: if_splits option.splits)

lemma gate_yields:
  "yields (\<lambda>r. \<exists>t. r = Inr t \<and> (\<forall>e. t = Some e \<longrightarrow> visibleReason e)) (evaluateNewCustomerGates s p c now)"
  by (auto simp: evaluateNewCustomerGates_def yields_def Let_def dest: judge_visible
      split: option.splits prod.splits)

text \<open>Everything \<open>validateCode\<close> can answer about a promotion it found.\<close>

definition codeOutcome ::
    "promotion_row \<Rightarrow> money \<Rightarrow> string option \<Rightarrow> validate_options \<Rightarrow> validate_result result \<Rightarrow> bool" where
  "codeOutcome p subtotal storeId opts r \<longleftrightarrow>
     (\<exists>e. r = Inl (BadRequest e)) \<or>
     (\<exists>e. visibleReason e \<and> r = resolveEligibilityFailure p e (vo_mode opts)) \<or>
     r = computeDiscount p subtotal storeId opts"

lemma codeOutcome_intros:
  "codeOutcome p subtotal storeId opts (Inl (BadRequest e))"
  "visibleReason t \<Longrightarrow> codeOutcome p subtotal storeId opts (resolveEligibilityFailure p t (vo_mode opts))"
  "codeOutcome p subtotal storeId opts (computeDiscount p subtotal storeId opts)"
  by (auto simp: codeOutcome_def)

lemma validateCode_yields:
  assumes "findPromotionByCode s code = Some p"
  shows "yields (codeOutcome p subtotal storeId opts) (validateCode env s code subtotal storeId customer opts)"
  unfolding validateCode_def assms option.case
  by (intro yields_intro codeOutcome_intros yields_seq [OF gate_yields])
    (auto intro: yields_intro codeOutcome_intros dest: usage_reason_visible logged_in_reason_visible
      split: option.split)

lemma validateCode_outcome:
  assumes "fst (validateCode env s code subtotal storeId customer opts m) = r"
  shows "(\<exists>e. r = Inl (BadRequest e)) \<or>
    (\<exists>p. findPromotionByCode s code = Some p \<and> codeOutcome p subtotal storeId opts r)"
proof (cases "findPromotionByCode s code")
  case None
  with assms show ?thesis by (auto simp: validateCode_def)
next
  case (Some p)
  from yieldsD [OF validateCode_yields [OF Some]] assms Some show ?thesis by blast
qed

section \<open>Bounds of a single discount\<close>

text \<open>What the write side guarantees about a stored promotion (\<open>assertDiscountBounds\<close> and the
  validators of the inputs).\<close>

definition promotionDataOk :: "promotion_row \<Rightarrow> bool" where
  "promotionDataOk p \<longleftrightarrow> 0 \<le> pm_discountValue p \<and>
     (case pm_maxDiscountAmount p of None \<Rightarrow> True | Some m \<Rightarrow> 0 \<le> m)"

definition linesOk :: "validate_options \<Rightarrow> bool" where
  "linesOk opts \<longleftrightarrow> (\<forall>l \<in> set (nullish (vo_lines opts) []). 0 \<le> cl_unitPrice l)"

definition eligibleBase :: "promotion_row \<Rightarrow> money \<Rightarrow> string option \<Rightarrow> validate_options \<Rightarrow> money" where
  "eligibleBase p subtotal storeId opts =
     (if isShippingType (pm_type p) then resolveShippingFeeBase p storeId opts else subtotal)"

definition boundedResult ::
    "promotion_row \<Rightarrow> money \<Rightarrow> string option \<Rightarrow> validate_options \<Rightarrow> validate_result \<Rightarrow> bool" where
  "boundedResult p subtotal storeId opts r \<longleftrightarrow> vr_promotion r = p \<and>
     0 \<le> vr_discountAmount r \<and> vr_discountAmount r \<le> eligibleBase p subtotal storeId opts \<and>
     (\<forall>m. pm_maxDiscountAmount p = Some m \<longrightarrow> vr_discountAmount r \<le> m) \<and>
     (vr_ineligibilityReason r \<noteq> None \<longrightarrow> vo_mode opts = Preview \<and> vr_discountAmount r = 0)"

lemma unitSlots_prices:
  "u \<in> set (unitSlots pid i ls) \<Longrightarrow> \<exists>l \<in> set ls. us_unitPrice u = cl_unitPrice l"
  by (induction pid i ls rule: unitSlots.induct) (auto split: if_splits)

lemma bxgy_amount_nonneg:
  assumes "evaluateBuyXGetY p lines = Inr (BxOk free amount)"
    and "\<forall>l \<in> set (nullish lines []). 0 \<le> cl_unitPrice l"
  shows "0 \<le> amount"
proof -
  from assms(1) obtain ls pid n where ls: "lines = Some ls"
    and a: "amount = (\<Sum>u\<leftarrow>take n (sort_key slotOrder (unitSlots pid 0 ls)). us_unitPrice u)"
    by (auto simp: evaluateBuyXGetY_def Let_def split: option.splits json.splits if_splits)
  have "0 \<le> us_unitPrice u" if "u \<in> set (take n (sort_key slotOrder (unitSlots pid 0 ls)))" for u
    using unitSlots_prices [of u pid 0 ls] set_take_subset [of n "sort_key slotOrder (unitSlots pid 0 ls)"]
      that assms(2) ls by fastforce
  then show ?thesis unfolding a by (rule sum_list_nonneg_rat)
qed

lemma rawDiscount_nonneg:
  assumes "rawDiscount p subtotal fee opts = Discount d free" and "promotionDataOk p" and "linesOk opts"
    and "0 \<le> subtotal" and "0 \<le> fee"
  shows "0 \<le> d"
  using assms bxgy_amount_nonneg [of p "vo_lines opts"]
  by (auto simp: rawDiscount_def promotionDataOk_def linesOk_def simp del: divide_eq_eq_numeral1
      split: promotion_type.splits sum.splits bxgy.splits)

lemma rawDiscount_early:
  assumes "rawDiscount p subtotal fee opts = Early (Inr r)"
  shows "vr_promotion r = p \<and> vr_discountAmount r = 0 \<and>
    (vr_ineligibilityReason r \<noteq> None \<longrightarrow> vo_mode opts = Preview)"
  using assms by (auto simp: rawDiscount_def resolveEligibilityFailure_def
      split: promotion_type.splits sum.splits bxgy.splits validate_mode.splits)

lemma zero_result_bounded:
  assumes "promotionDataOk p" and "0 \<le> eligibleBase p subtotal storeId opts"
    and "vr_promotion r = p" and "vr_discountAmount r = 0"
    and "vr_ineligibilityReason r \<noteq> None \<longrightarrow> vo_mode opts = Preview"
  shows "boundedResult p subtotal storeId opts r"
  using assms by (auto simp: boundedResult_def promotionDataOk_def)

lemma computeDiscount_bounded:
  assumes "computeDiscount p subtotal storeId opts = Inr r" and "promotionDataOk p" and "linesOk opts"
    and "0 \<le> subtotal" and "0 \<le> resolveShippingFeeBase p storeId opts"
  shows "boundedResult p subtotal storeId opts r"
proof (cases "rawDiscount p subtotal (resolveShippingFeeBase p storeId opts) opts")
  case (Early x)
  with assms(1) have "rawDiscount p subtotal (resolveShippingFeeBase p storeId opts) opts = Early (Inr r)"
    by (simp add: computeDiscount_def)
  from rawDiscount_early [OF this] show ?thesis
    using assms by (intro zero_result_bounded) (auto simp: eligibleBase_def)
next
  case (Discount d free)
  from rawDiscount_nonneg [OF this assms(2,3,4,5)] Discount assms show ?thesis
    by (auto simp: computeDiscount_def boundedResult_def cappedDiscount_def eligibleBase_def
        promotionDataOk_def Let_def split: option.splits)
qed

lemma validateCode_bounded:
  assumes "fst (validateCode env s code subtotal storeId customer opts m) = Inr r"
    and "promotionDataOk (vr_promotion r)" and "linesOk opts" and "0 \<le> subtotal"
    and "0 \<le> resolveShippingFeeBase (vr_promotion r) storeId opts"
  shows "boundedResult (vr_promotion r) subtotal storeId opts r"
proof -
  from validateCode_outcome [OF assms(1)] obtain p where p: "codeOutcome p subtotal storeId opts (Inr r)"
    by auto
  then consider (fail) e where "Inr r = resolveEligibilityFailure p e (vo_mode opts)"
    | (ok) "computeDiscount p subtotal storeId opts = Inr r"
    by (auto simp: codeOutcome_def)
  then show ?thesis
  proof cases
    case fail
    with assms show ?thesis
      by (intro zero_result_bounded)
        (auto simp: resolveEligibilityFailure_def eligibleBase_def split: validate_mode.splits)
  next
    case ok
    have "vr_promotion r = p"
      using ok rawDiscount_early [of p subtotal _ opts r]
      by (auto simp: computeDiscount_def Let_def split: discount_outcome.splits)
    with computeDiscount_bounded [OF ok] assms show ?thesis by simp
  qed
qed

section \<open>The cheapest units are free\<close>

lemma take_sorted_least:
  fixes xs :: "money list"
  assumes "sorted xs" and "P \<subseteq># mset xs" and "size P = n"
  shows "sum_list (take n xs) \<le> sum_mset P"
  using assms
proof (induction xs arbitrary: P n)
  case Nil
  then show ?case by simp
next
  case (Cons x xs)
  show ?case
  proof (cases n)
    case 0
    with Cons.prems(3) show ?thesis by simp
  next
    case (Suc k)
    with Cons.prems(3) obtain z where z: "z \<in># P" by (auto dest: size_eq_Suc_imp_elem)
    define y where "y = (if x \<in># P then x else z)"
    with z have y: "y \<in># P" "x \<in># P \<Longrightarrow> y = x" by simp_all
    have sub: "P - {#y#} \<subseteq># mset xs"
    proof (cases "x \<in># P")
      case True
      with y(2) Cons.prems(2) show ?thesis by (simp add: subset_eq_diff_conv)
    next
      case False
      have "count P a \<le> count (mset xs) a" for a
        using mset_subset_eq_count [OF Cons.prems(2), of a] False
        by (cases "a = x") (simp_all add: not_in_iff)
      then have "P \<subseteq># mset xs" by (rule mset_subset_eqI)
      then show ?thesis by (meson diff_subset_eq_self subset_mset.order_trans)
    qed
    have "size (P - {#y#}) = k" using y(1) Suc Cons.prems(3) by (simp add: size_Diff_singleton)
    from Cons.IH [OF _ sub this] Cons.prems(1) have "sum_list (take k xs) \<le> sum_mset (P - {#y#})" by simp
    moreover have "x \<le> y"
    proof -
      from mset_subset_eqD [OF Cons.prems(2) y(1)] have "y = x \<or> y \<in> set xs" by simp
      with Cons.prems(1) show ?thesis by auto
    qed
    moreover have "sum_mset P = y + sum_mset (P - {#y#})"
      using sum_mset.remove [OF y(1)] by simp
    ultimately show ?thesis using Suc by simp
  qed
qed

lemma unitSlots_units:
  "map us_unitPrice (unitSlots pid i ls) =
     concat (map (\<lambda>l. replicate (nat (lineQty l)) (cl_unitPrice l)) (filter (\<lambda>l. cl_productId l = pid) ls))"
  by (induction ls arbitrary: i) simp_all

lemma groups_within:
  assumes "1 \<le> x" and "1 \<le> (y :: int)" and "0 \<le> n"
  shows "n div (x + y) * y \<le> n"
proof -
  have "0 \<le> n div (x + y)" using assms by (simp add: pos_imp_zdiv_nonneg_iff)
  then have "n div (x + y) * y \<le> n div (x + y) * (x + y)" using assms by (intro mult_left_mono) auto
  also have "\<dots> \<le> n" using assms div_mult_mod_eq [of n "x + y"] pos_mod_sign [of "x + y" n] by linarith
  finally show ?thesis .
qed

lemma length_unitSlots:
  "int (length (unitSlots pid i ls)) = (\<Sum>l\<leftarrow>filter (\<lambda>l. cl_productId l = pid) ls. lineQty l)"
  by (induction pid i ls rule: unitSlots.induct) (auto simp: lineQty_def)

lemma cappedQty_Some:
  "cappedQty pid q ls = Some t \<Longrightarrow>
     t = q + (\<Sum>l\<leftarrow>filter (\<lambda>l. cl_productId l = pid) ls. lineQty l) \<and> (q \<le> maxLineQuantity \<longrightarrow> t \<le> maxLineQuantity)"
  by (induction pid q ls rule: cappedQty.induct) (auto split: if_splits)

lemma sorted_prices: "sorted (map us_unitPrice (sort_key slotOrder us))"
proof -
  have "sorted (map slotOrder (sort_key slotOrder us))" by simp
  then show ?thesis
    by (induction "sort_key slotOrder us" arbitrary: us)
      (auto simp: sorted_wrt_map slotOrder_def less_eq_prod_def elim!: sorted_wrt_mono_rel [rotated])
qed

section \<open>Invariant of the stack\<close>

text \<open>
  \<open>sk_remaining\<close> is the part of the shipping fee no promotion has claimed yet.
\<close>

definition stackInv :: "money \<Rightarrow> stack \<Rightarrow> bool" where
  "stackInv fee k \<longleftrightarrow> 0 \<le> sk_item k \<and> 0 \<le> sk_shipping k \<and> 0 \<le> sk_remaining k \<and>
     sk_shipping k + sk_remaining k = max 0 fee \<and>
     (\<forall>i d. sk_discounts k i = Some d \<longrightarrow> 0 \<le> d)"

lemma stackInv_empty [simp]: "stackInv fee (emptyStack fee)"
  by (simp add: stackInv_def emptyStack_def)

lemma stackInv_absorb: "stackInv fee k \<Longrightarrow> 0 \<le> vr_discountAmount r \<Longrightarrow> stackInv fee (absorb mode r k)"
  by (auto simp: stackInv_def absorb_def Let_def)

lemma stackInv_absorbCodes:
  assumes "absorbCodes f mode cs k m = (Inr k', m')" and "stackInv fee k"
    and "\<And>c m r. c \<in> set cs \<Longrightarrow> fst (f c m) = Inr r \<Longrightarrow> 0 \<le> vr_discountAmount r"
  shows "stackInv fee k'"
  using assms
proof (induction cs arbitrary: k m)
  case Nil
  then show ?case by simp
next
  case (Cons c cs)
  from Cons.prems(1) obtain r m1 where r: "f c m = (Inr r, m1)"
    and rest: "absorbCodes f mode cs (absorb mode r k) m1 = (Inr k', m')"
    by (auto simp: seqM_Inr_iff)
  from Cons.prems(3) [of c m r] r have "0 \<le> vr_discountAmount r" by simp
  with Cons.prems(2) have "stackInv fee (absorb mode r k)" by (rule stackInv_absorb)
  from Cons.IH [OF rest this] show ?case by (meson Cons.prems(3) list.set_intros(2))
qed

lemma stackInv_finish:
  assumes "stackInv fee k" and "0 \<le> subtotal" and "0 \<le> fee"
  shows "0 \<le> sd_discountAmount (finishStack subtotal fee k) \<and>
    sd_discountAmount (finishStack subtotal fee k) \<le> subtotal + fee"
  using assms by (auto simp: stackInv_def finishStack_def min_def)

text \<open>What \<open>applyStackedPromotions\<close> needs of its inputs.\<close>

definition stackInputsOk :: "db \<Rightarrow> money \<Rightarrow> (string \<rightharpoonup> money) \<Rightarrow> validate_options \<Rightarrow> bool" where
  "stackInputsOk s subtotal storeSubtotals opts \<longleftrightarrow>
     (\<forall>p \<in> set (dbPromotions s). promotionDataOk p) \<and> linesOk opts \<and> 0 \<le> subtotal \<and>
     (\<forall>i a. storeSubtotals i = Some a \<longrightarrow> 0 \<le> a) \<and>
     0 \<le> nullish (vo_shippingFee opts) 0 \<and>
     (\<forall>fees i a. vo_storeShippingFees opts = Some fees \<longrightarrow> fees i = Some a \<longrightarrow> 0 \<le> a)"

lemma shippingBase_nonneg:
  "stackInputsOk s subtotal storeSubtotals opts \<Longrightarrow> 0 \<le> resolveShippingFeeBase p storeId opts"
  by (auto simp: stackInputsOk_def resolveShippingFeeBase_def split: promotion_scope.split option.split bool.split)

lemma computeDiscount_promotion:
  "computeDiscount p subtotal storeId opts = Inr r \<Longrightarrow> vr_promotion r = p"
  using rawDiscount_early [of p subtotal _ opts r]
  by (auto simp: computeDiscount_def Let_def split: discount_outcome.splits)

lemma validateCode_promotion:
  assumes "fst (validateCode env s code subtotal storeId customer opts m) = Inr r"
  shows "findPromotionByCode s code = Some (vr_promotion r)"
  using validateCode_outcome [OF assms] computeDiscount_promotion [of _ subtotal storeId opts r]
  by (cases "vo_mode opts") (auto simp: codeOutcome_def resolveEligibilityFailure_def)

lemma validateCode_nonneg:
  assumes v: "fst (validateCode env s code a storeId customer opts m) = Inr r"
    and ok: "stackInputsOk s subtotal storeSubtotals opts" and a: "0 \<le> a"
  shows "0 \<le> vr_discountAmount r"
proof -
  have "vr_promotion r \<in> set (dbPromotions s)"
    using find_Some_in validateCode_promotion [OF v] unfolding findPromotionByCode_def by fast
  with ok have "promotionDataOk (vr_promotion r)" by (simp add: stackInputsOk_def)
  from validateCode_bounded [OF v this _ a shippingBase_nonneg [OF ok]] ok show ?thesis
    by (simp add: stackInputsOk_def boundedResult_def)
qed

lemma stackInputsOk_scope [simp]:
  "stackInputsOk s subtotal ss (opts\<lparr>vo_requiredScope := x\<rparr>) = stackInputsOk s subtotal ss opts"
  by (simp add: stackInputsOk_def linesOk_def)

lemma absorb_repeated:
  assumes "f c m = (Inr r, m)" and "\<not> isShippingType (pm_type (vr_promotion r))" and "vr_discountAmount r \<noteq> 0"
  shows "\<exists>k'. absorbCodes f mode (replicate n c) k m = (Inr k', m) \<and>
    sk_item k' = sk_item k + of_nat n * vr_discountAmount r \<and> sk_shipping k' = sk_shipping k"
proof (induction n arbitrary: k)
  case 0
  then show ?case by simp
next
  case (Suc n)
  from Suc [of "absorb mode r k"] assms show ?case
    by (auto simp: absorb_def Let_def algebra_simps)
qed

lemma repeated_code:
  assumes "validateStoreCode env s subtotal storeSubtotals customer opts code None = (Inr r, None)"
    and "\<not> isShippingType (pm_type (vr_promotion r))" and "vr_discountAmount r \<noteq> 0"
    and "0 \<le> nullish (vo_shippingFee opts) 0"
  shows "\<exists>d. applyStackedPromotions env s subtotal storeSubtotals None (Some (replicate n code)) customer opts None
       = (Inr d, None) \<and> sd_discountAmount d = min (of_nat n * vr_discountAmount r) subtotal"
proof -
  let ?fee = "nullish (vo_shippingFee opts) 0"
  obtain k where k: "absorbCodes (validateStoreCode env s subtotal storeSubtotals customer opts) (vo_mode opts)
      (replicate n code) (emptyStack ?fee) None = (Inr k, None)"
    "sk_item k = sk_item (emptyStack ?fee) + of_nat n * vr_discountAmount r"
    "sk_shipping k = sk_shipping (emptyStack ?fee)"
    using absorb_repeated [where f = "validateStoreCode env s subtotal storeSubtotals customer opts",
        OF assms(1,2,3)] by blast
  then have "sk_item k = of_nat n * vr_discountAmount r" "sk_shipping k = 0" by (simp_all add: emptyStack_def)
  with k(1) assms(4) show ?thesis by (simp add: applyStackedPromotions_def Let_def finishStack_def)
qed

lemma applyStacked_bounds:
  assumes "applyStackedPromotions env s subtotal storeSubtotals platformCode storeCodes customer opts m = (Inr d, m')"
    and "stackInputsOk s subtotal storeSubtotals opts"
  shows "0 \<le> sd_discountAmount d \<and>
    sd_discountAmount d \<le> subtotal + nullish (vo_shippingFee opts) 0 \<and>
    (\<forall>i a. sd_discountsByPromotionId d i = Some a \<longrightarrow> 0 \<le> a)"
proof -
  let ?fee = "nullish (vo_shippingFee opts) 0"
  from assms(1) obtain k m1 k' where
    1: "absorbCodes (\<lambda>c. validateCode env s c subtotal None customer (opts\<lparr>vo_requiredScope := Some SC_PLATFORM\<rparr>))
          (vo_mode opts) (if truthy platformCode then [the platformCode] else []) (emptyStack ?fee) m = (Inr k, m1)"
    and 2: "absorbCodes (validateStoreCode env s subtotal storeSubtotals customer opts)
          (vo_mode opts) (nullish storeCodes []) k m1 = (Inr k', m')"
    and d: "d = finishStack subtotal ?fee k'"
    unfolding applyStackedPromotions_def Let_def seqM_Inr_iff by auto
  note ok = assms(2)
  have fee: "0 \<le> ?fee" "0 \<le> subtotal" using ok by (simp_all add: stackInputsOk_def)
  have ok': "stackInputsOk s subtotal storeSubtotals (opts\<lparr>vo_requiredScope := x\<rparr>)" for x
    using ok by simp
  have "stackInv ?fee k"
    by (rule stackInv_absorbCodes [OF 1]) (auto intro: validateCode_nonneg [OF _ ok' fee(2)])
  then have inv: "stackInv ?fee k'"
  proof (rule stackInv_absorbCodes [OF 2])
    fix c m r
    assume v: "fst (validateStoreCode env s subtotal storeSubtotals customer opts c m) = Inr r"
    have "0 \<le> nullish (storeSubtotals i) 0" for i
      using ok by (cases "storeSubtotals i") (auto simp: stackInputsOk_def)
    then show "0 \<le> vr_discountAmount r"
      using v fee validateCode_nonneg [of env s c _ _ customer "opts\<lparr>vo_requiredScope := Some SC_STORE\<rparr>" m r
          subtotal storeSubtotals] ok
      by (auto simp: validateStoreCode_def Let_def split: if_splits)
  qed
  from stackInv_finish [OF this fee(2,1)] inv show ?thesis
    by (simp add: d) (simp add: finishStack_def stackInv_def)
qed

text \<open>A soft item always carries a reason.\<close>

definition itemHonest :: "eligibility_item \<Rightarrow> bool" where
  "itemHonest i \<longleftrightarrow> ei_eligible i = (ei_ineligibilityReason i = None) \<and>
     (\<not> ei_eligible i \<longrightarrow> ei_discountAmount i = 0 \<and> ei_freeUnits i = 0)"

lemma itemHonest_soft [simp]: "itemHonest (softIneligibleItem i c n t)"
  by (simp add: itemHonest_def softIneligibleItem_def)

lemma itemHonest_of_result [simp]: "itemHonest (toEligibilityItem r)"
  by (auto simp: itemHonest_def toEligibilityItem_def Let_def)

lemma computeDiscount_raises:
  assumes "computeDiscount p subtotal storeId opts = Inl e"
  shows "\<exists>t. e = BadRequest t"
proof -
  have "\<exists>t. e = BadRequest t" if "evaluateBuyXGetY p ls = Inl e" for ls
    using that by (auto simp: evaluateBuyXGetY_def Let_def split: option.splits json.splits if_splits)
  moreover have "\<exists>t. e = BadRequest t" if "resolveEligibilityFailure p c (vo_mode opts) = Inl e" for c
    using that by (cases "vo_mode opts") (auto simp: resolveEligibilityFailure_def)
  ultimately show ?thesis
    using assms by (auto simp: computeDiscount_def rawDiscount_def Let_def
        split: discount_outcome.splits promotion_type.splits sum.splits bxgy.splits simp del: divide_eq_eq_numeral1)
qed

text \<open>\<open>validateCode\<close> raises nothing but \<open>BadRequestException\<close>, so every target gets an item.\<close>

lemma evaluateBatchTarget_total:
  "\<exists>i. fst (evaluateBatchTarget env s target subtotal storeId customer lines fee m) = Inr i \<and> itemHonest i"
proof -
  have soft: "\<exists>i. fst (catchM (seqM (validateCode env s code subtotal storeId customer opts)
        (\<lambda>r. retM (toEligibilityItem r)))
      (\<lambda>e. case e of BadRequest reason \<Rightarrow> retM (softIneligibleItem a b c reason) | _ \<Rightarrow> raiseM e) m) = Inr i \<and>
      itemHonest i" for code opts a b c
  proof -
    obtain r m1 where v: "validateCode env s code subtotal storeId customer opts m = (r, m1)" by fastforce
    show ?thesis
    proof (cases r)
      case (Inl e)
      with validateCode_outcome [of env s code subtotal storeId customer opts m r] v obtain t
        where "e = BadRequest t"
        by (cases "vo_mode opts")
          (auto simp: codeOutcome_def resolveEligibilityFailure_def dest: computeDiscount_raises [OF sym])
      with v Inl show ?thesis by (simp add: catchM_def seqM_def)
    next
      case (Inr x)
      with v show ?thesis by (simp add: catchM_def seqM_def)
    qed
  qed
  show ?thesis
    unfolding evaluateBatchTarget_def Let_def using soft by (auto split: option.split)
qed

section \<open>Properties\<close>

definition samplePromotion :: promotion_row where
  "samplePromotion = \<lparr>pm_id = ''p1'', pm_storeId = Some ''s1'', pm_code = ''SAVE10'', pm_name = ''Save'',
     pm_description = None, pm_type = PT_PERCENTAGE, pm_scope = SC_STORE, pm_discountValue = 10,
     pm_minPurchaseAmount = None, pm_maxDiscountAmount = None, pm_usageLimit = Some 1,
     pm_usagePerCustomer = 1, pm_usageCount = 0, pm_isActive = True, pm_autoApply = False,
     pm_priority = 0, pm_conditions = [], pm_startsAt = None, pm_expiresAt = None, pm_createdAt = 0,
     pm_updatedAt = 0, pm_deletedAt = None\<rparr>"

definition sampleDb :: db where
  "sampleDb = empty_db\<lparr>dbPromotions := [samplePromotion]\<rparr>"

definition sampleEnv :: env where
  "sampleEnv = \<lparr>envNow = 0, envUuid = (\<lambda>_. []), envMailFails = (\<lambda>_. False)\<rparr>"

definition sampleOptions :: validate_options where
  "sampleOptions = \<lparr>vo_lines = None, vo_mode = Apply, vo_shippingFee = None, vo_storeShippingFees = None,
     vo_requiredScope = None\<rparr>"

lemma sample_validates:
  "validateCode sampleEnv sampleDb ''SAVE10'' 100 (Some ''s1'') None (sampleOptions\<lparr>vo_requiredScope := sc\<rparr>) None =
     (if sc = Some SC_PLATFORM then (Inl (BadRequest ''PROMOTION_SCOPE''), None)
      else (Inr \<lparr>vr_promotion = samplePromotion, vr_discountAmount = 10, vr_freeUnits = 0,
                 vr_ineligibilityReason = None\<rparr>, None))"
  by (cases sc; cases "the sc")
    (simp_all add: validateCode_def findPromotionByCode_def sampleDb_def sampleEnv_def sampleOptions_def
      samplePromotion_def evaluateCustomerUsageLimit_def evaluateLoggedInOnlyGate_def
      evaluateNewCustomerGates_def enabledObject_def jsonField_def computeDiscount_def rawDiscount_def
      cappedDiscount_def isShippingType_def)

lemma sample_data_ok [simp]: "promotionDataOk samplePromotion" "linesOk sampleOptions"
  by (simp_all add: promotionDataOk_def samplePromotion_def linesOk_def sampleOptions_def)

text \<open>C11. Whatever promotion a code names, the discount lies between zero and the base it applies
  to (the subtotal, or the shipping fee for shipping promotions), never exceeds the promotion's
  maximum, and is zero whenever a reason for ineligibility is reported, which only a preview does.\<close>

theorem discount_bounds:
  assumes "fst (validateCode env s code subtotal storeId customer opts m) = Inr r"
    and "promotionDataOk (vr_promotion r)" and "linesOk opts" and "0 \<le> subtotal"
    and "0 \<le> resolveShippingFeeBase (vr_promotion r) storeId opts"
  shows "findPromotionByCode s code = Some (vr_promotion r) \<and>
    0 \<le> vr_discountAmount r \<and>
    vr_discountAmount r \<le> (if isShippingType (pm_type (vr_promotion r))
       then resolveShippingFeeBase (vr_promotion r) storeId opts else subtotal) \<and>
    (\<forall>mx. pm_maxDiscountAmount (vr_promotion r) = Some mx \<longrightarrow> vr_discountAmount r \<le> mx) \<and>
    (vr_ineligibilityReason r \<noteq> None \<longrightarrow> vo_mode opts = Preview \<and> vr_discountAmount r = 0)"
  using validateCode_bounded [OF assms] validateCode_promotion [OF assms(1)]
  by (simp add: boundedResult_def eligibleBase_def)

theorem discount_bounds_witness:
  "\<exists>r. fst (validateCode sampleEnv sampleDb ''SAVE10'' 100 (Some ''s1'') None sampleOptions None) = Inr r \<and>
     0 < vr_discountAmount r \<and> vr_discountAmount r \<le> 100"
proof -
  define r where "r = \<lparr>vr_promotion = samplePromotion, vr_discountAmount = 10, vr_freeUnits = 0,
    vr_ineligibilityReason = None\<rparr>"
  have v: "fst (validateCode sampleEnv sampleDb ''SAVE10'' 100 (Some ''s1'') None sampleOptions None) = Inr r"
    using sample_validates [of None] by (simp add: r_def sampleOptions_def)
  from discount_bounds [OF v] have "vr_discountAmount r \<le> 100"
    by (simp add: r_def resolveShippingFeeBase_def sampleOptions_def samplePromotion_def isShippingType_def
        promotionDataOk_def linesOk_def)
  with v show ?thesis by (auto simp: r_def)
qed

text \<open>C18. Buy X get Y, with X the \<open>buyQuantity\<close> and Y the \<open>getQuantity\<close> of the promotion: of the Q units of its
  product in the cart (at most 999), Q div (X+Y) groups give Y free units each, and the discount is the price of the
  cheapest units: it is the total of that many units of the cart, and no choice of as many units costs less.\<close>

theorem bxgy_cheapest_free:
  assumes "evaluateBuyXGetY p (Some ls) = Inr (BxOk free amount)"
  shows "\<exists>pid x y. jsonField ''productId'' (pm_conditions p) = Some (JStr pid) \<and>
    positiveInteger (jsonField ''buyQuantity'' (pm_conditions p)) = Some x \<and>
    positiveInteger (jsonField ''getQuantity'' (pm_conditions p)) = Some y \<and> 1 \<le> x \<and> 1 \<le> y \<and>
    (let mine = filter (\<lambda>l. cl_productId l = pid) ls;
         units = mset (concat (map (\<lambda>l. replicate (nat (lineQty l)) (cl_unitPrice l)) mine));
         q = (\<Sum>l\<leftarrow>mine. lineQty l)
     in q \<le> 999 \<and> free = (q div (x + y)) * y \<and> 0 < free \<and>
        (\<exists>P. P \<subseteq># units \<and> size P = nat free \<and> sum_mset P = amount) \<and>
        (\<forall>P. P \<subseteq># units \<longrightarrow> size P = nat free \<longrightarrow> amount \<le> sum_mset P))"
proof -
  from assms obtain pid x y t where
    c: "jsonField ''productId'' (pm_conditions p) = Some (JStr pid)"
       "positiveInteger (jsonField ''buyQuantity'' (pm_conditions p)) = Some x"
       "positiveInteger (jsonField ''getQuantity'' (pm_conditions p)) = Some y"
    and t: "cappedQty pid 0 ls = Some t"
    and f: "free = int (length (unitSlots pid 0 ls)) div (x + y) * y" "free \<noteq> 0"
    and a: "amount = (\<Sum>u\<leftarrow>take (nat free) (sort_key slotOrder (unitSlots pid 0 ls)). us_unitPrice u)"
    by (auto simp: evaluateBuyXGetY_def Let_def split: option.splits json.splits if_splits)
  have xy: "1 \<le> x" "1 \<le> y" using c(2,3)
    by (auto simp: positiveInteger_def le_floor_iff split: option.splits json.splits if_splits)
  define n where "n = length (unitSlots pid 0 ls)"
  define ps where "ps = map us_unitPrice (sort_key slotOrder (unitSlots pid 0 ls))"
  have len: "length ps = n" and ms: "mset ps = mset (concat (map (\<lambda>l. replicate (nat (lineQty l)) (cl_unitPrice l)) (filter (\<lambda>l. cl_productId l = pid) ls)))"
    by (simp_all add: ps_def n_def unitSlots_units [of pid 0 ls, symmetric])
  have amt: "amount = sum_list (take (nat free) ps)" by (simp add: a ps_def take_map)
  have "0 \<le> int n div (x + y)" using xy by (simp add: pos_imp_zdiv_nonneg_iff)
  then have "0 \<le> free" using xy f(1) by (simp add: n_def)
  with f(2) have pos: "0 < free" by simp
  have le: "nat free \<le> n" using groups_within [OF xy, of "int n"] f(1) by (simp add: n_def)
  have sub: "mset (take (nat free) ps) \<subseteq># mset ps"
    by (metis append_take_drop_id mset_append mset_subset_eq_add_left)
  have least: "amount \<le> sum_mset P" if "P \<subseteq># mset ps" "size P = nat free" for P
    unfolding amt by (rule take_sorted_least [OF _ that]) (simp add: ps_def sorted_prices)
  have q: "int n = (\<Sum>l\<leftarrow>filter (\<lambda>l. cl_productId l = pid) ls. lineQty l)"
    unfolding n_def by (rule length_unitSlots)
  have att: "\<exists>P. P \<subseteq># mset ps \<and> size P = nat free \<and> sum_mset P = amount"
    using sub le len amt by (intro exI [of _ "mset (take (nat free) ps)"]) (simp add: sum_mset_sum_list)
  have cap: "int n \<le> 999" using cappedQty_Some [OF t] q by (simp add: maxLineQuantity_def)
  show ?thesis
    by (rule exI [of _ pid], rule exI [of _ x], rule exI [of _ y])
      (use c xy q [symmetric] cap f(1) pos att least in \<open>auto simp: Let_def n_def ms\<close>)
qed

definition sampleBxgy :: promotion_row where
  "sampleBxgy = samplePromotion\<lparr>pm_type := PT_BUY_X_GET_Y, pm_conditions :=
     [(''productId'', JStr ''a''), (''buyQuantity'', JNum 2), (''getQuantity'', JNum 1)]\<rparr>"

definition sampleLines :: "cart_line list" where
  "sampleLines = [\<lparr>cl_productId = ''a'', cl_variantId = None, cl_quantity = 2, cl_unitPrice = 30\<rparr>,
     \<lparr>cl_productId = ''a'', cl_variantId = None, cl_quantity = 1, cl_unitPrice = 20\<rparr>]"

theorem bxgy_cheapest_free_witness:
  "evaluateBuyXGetY sampleBxgy (Some sampleLines) = Inr (BxOk 1 20) \<and>
   (\<exists>x y :: int. positiveInteger (Some (JNum 2)) = Some x \<and> positiveInteger (Some (JNum 1)) = Some y \<and> 1 = (3 div (x + y)) * y)"
proof -
  have e: "evaluateBuyXGetY sampleBxgy (Some sampleLines) = Inr (BxOk 1 20)"
    by (simp add: evaluateBuyXGetY_def sampleBxgy_def sampleLines_def samplePromotion_def jsonField_def
        positiveInteger_def js_trim_def js_ws_def maxLineQuantity_def lineQty_def slotOrder_def
        Let_def numeral_eq_Suc)
  from bxgy_cheapest_free [OF e] e show ?thesis
    by (auto simp: Let_def sampleBxgy_def sampleLines_def samplePromotion_def jsonField_def lineQty_def)
qed

lemma sample_store_code:
  "validateStoreCode sampleEnv sampleDb 100 [''s1'' \<mapsto> 100] None sampleOptions ''SAVE10'' None =
     (Inr \<lparr>vr_promotion = samplePromotion, vr_discountAmount = 10, vr_freeUnits = 0,
           vr_ineligibilityReason = None\<rparr>, None)"
proof -
  have "findPromotionByCode sampleDb ''SAVE10'' = Some samplePromotion"
    by (simp add: findPromotionByCode_def sampleDb_def samplePromotion_def)
  moreover have "pm_storeId samplePromotion = Some ''s1''" by (simp add: samplePromotion_def)
  ultimately show ?thesis by (simp add: validateStoreCode_def sample_validates)
qed

lemma sample_stack:
  "\<exists>d. applyStackedPromotions sampleEnv sampleDb 100 [''s1'' \<mapsto> 100] None (Some (replicate n ''SAVE10'')) None
       sampleOptions None = (Inr d, None) \<and> sd_discountAmount d = min (of_nat n * 10) 100"
  using repeated_code [OF sample_store_code, of n] by (simp add: samplePromotion_def isShippingType_def sampleOptions_def)

text \<open>Stacking is safe for the order: the combined discount is never negative and never exceeds
  the subtotal plus the shipping fee, and no promotion is recorded with a negative share.\<close>

theorem stacked_discount_bounds:
  assumes "applyStackedPromotions env s subtotal storeSubtotals platformCode storeCodes customer opts m = (Inr d, m')"
    and "stackInputsOk s subtotal storeSubtotals opts"
  shows "0 \<le> sd_discountAmount d \<and>
    sd_discountAmount d \<le> subtotal + nullish (vo_shippingFee opts) 0 \<and>
    (\<forall>i a. sd_discountsByPromotionId d i = Some a \<longrightarrow> 0 \<le> a)"
  using assms by (rule applyStacked_bounds)

theorem stacked_discount_bounds_witness:
  "\<exists>d. applyStackedPromotions sampleEnv sampleDb 100 [''s1'' \<mapsto> 100] None (Some (replicate 1 ''SAVE10'')) None
         sampleOptions None = (Inr d, None) \<and> sd_discountAmount d = 10 \<and> sd_discountAmount d \<le> 100"
proof -
  from sample_stack [of 1] obtain d where d: "applyStackedPromotions sampleEnv sampleDb 100 [''s1'' \<mapsto> 100] None
      (Some (replicate 1 ''SAVE10'')) None sampleOptions None = (Inr d, None)" "sd_discountAmount d = 10" by auto
  have "stackInputsOk sampleDb 100 [''s1'' \<mapsto> 100] sampleOptions"
    by (auto simp: stackInputsOk_def sampleDb_def sampleOptions_def linesOk_def)
  from stacked_discount_bounds [OF d(1) this] have "sd_discountAmount d \<le> 100" by (simp add: sampleOptions_def)
  with d show ?thesis by blast
qed

text \<open>The stacking does not look for repeated codes: a store code listed n times is granted n
  times, up to the whole subtotal, whatever its usage limits (they are compared with the usage
  recorded before the order).\<close>

theorem repeated_code_multiplies:
  assumes "validateStoreCode env s subtotal storeSubtotals customer opts code None = (Inr r, None)"
    and "\<not> isShippingType (pm_type (vr_promotion r))" and "vr_discountAmount r \<noteq> 0"
    and "0 \<le> nullish (vo_shippingFee opts) 0"
  shows "\<exists>d. applyStackedPromotions env s subtotal storeSubtotals None (Some (replicate n code)) customer opts None
       = (Inr d, None) \<and> sd_discountAmount d = min (of_nat n * vr_discountAmount r) subtotal"
  using assms by (rule repeated_code)

theorem repeated_code_multiplies_witness:
  "pm_usagePerCustomer samplePromotion = 1 \<and> pm_usageLimit samplePromotion = Some 1 \<and>
   (\<exists>d. applyStackedPromotions sampleEnv sampleDb 100 [''s1'' \<mapsto> 100] None (Some (replicate 10 ''SAVE10'')) None
         sampleOptions None = (Inr d, None) \<and> sd_discountAmount d = 100)"
  using repeated_code_multiplies [OF sample_store_code, of 10]
  by (simp add: samplePromotion_def isShippingType_def sampleOptions_def)

text \<open>The batch evaluation answers every list of 1 to 20 targets with one item per target, in
  order; each item is what the target gets when evaluated alone, without the shared cache; an
  ineligible item has a reason and no discount.\<close>

theorem batch_evaluation_total:
  assumes "1 \<le> length targets" and "length targets \<le> 20"
  shows "\<exists>items. validatePromotionsBatch env s targets subtotal storeId customer lines fee = Inr items \<and>
    length items = length targets \<and>
    (\<forall>i < length targets.
       fst (evaluateBatchTarget env s (targets ! i) subtotal storeId customer lines fee None) = Inr (items ! i) \<and>
       itemHonest (items ! i))"
proof -
  define f where "f = (\<lambda>t. evaluateBatchTarget env s t subtotal storeId customer lines fee)"
  obtain y where y: "\<And>t. fst (f t None) = Inr (y t) \<and> itemHonest (y t)"
    using evaluateBatchTarget_total [of env s _ subtotal storeId customer lines fee None] unfolding f_def by metis
  have "fst (forM f targets (Some Map.empty)) = Inr (map y targets)"
    using y by (intro forM_cacheFree [where s = s]) (simp_all add: f_def cacheFree_evaluateBatchTarget gate_memo.coherent_empty)
  then have "validatePromotionsBatch env s targets subtotal storeId customer lines fee = Inr (map y targets)"
    using assms by (cases targets) (simp_all add: validatePromotionsBatch_def maxTargets_def f_def)
  with y show ?thesis by (auto simp: f_def)
qed

theorem batch_evaluation_total_witness:
  "\<exists>i. validatePromotionsBatch sampleEnv sampleDb [\<lparr>tg_id = None, tg_code = None\<rparr>] 100 None None None None = Inr [i] \<and>
     itemHonest i"
  using batch_evaluation_total [of "[\<lparr>tg_id = None, tg_code = None\<rparr>]" sampleEnv sampleDb 100 None None None None]
  by (auto simp: length_Suc_conv)

end
