(* ===== verification/Pagination.thy ===== *)
theory Pagination
  imports Prelude
begin

text \<open>
  \<^verbatim>\<open>src/src/common/utils/admin-list-pagination.util.ts\<close> and the \<open>skip\<close>/\<open>take\<close> windows of the
  list queries that use it. An argument that is null, undefined or not finite is \<open>None\<close>.
\<close>

definition ADMIN_LIST_DEFAULT_LIMIT :: int where
  "ADMIN_LIST_DEFAULT_LIMIT = 20"

definition ADMIN_LIST_MAX_LIMIT :: int where
  "ADMIN_LIST_MAX_LIMIT = 100"

definition normalizeAdminListPage :: "rat option \<Rightarrow> int" where
  "normalizeAdminListPage page = (case page of None \<Rightarrow> 1 | Some p \<Rightarrow> max 1 \<lfloor>p\<rfloor>)"

definition normalizeAdminListLimit :: "rat option \<Rightarrow> int" where
  "normalizeAdminListLimit limit =
     (case limit of None \<Rightarrow> ADMIN_LIST_DEFAULT_LIMIT | Some l \<Rightarrow> min ADMIN_LIST_MAX_LIMIT (max 1 \<lfloor>l\<rfloor>))"

record pagination =
  pg_page :: int
  pg_limit :: int
  pg_total :: int
  pg_totalPages :: int

definition buildAdminListPagination :: "int \<Rightarrow> int \<Rightarrow> int \<Rightarrow> pagination" where
  "buildAdminListPagination page limit cnt =
     \<lparr>pg_page = page, pg_limit = limit, pg_total = cnt,
      pg_totalPages = max 1 \<lceil>of_int cnt / of_int limit :: rat\<rceil>\<rparr>"

text \<open>\<open>skip: (page - 1) * limit, take: limit\<close>\<close>

definition pageWindow :: "int \<Rightarrow> int \<Rightarrow> 'a list \<Rightarrow> 'a list" where
  "pageWindow page limit xs = take (nat limit) (drop (nat ((page - 1) * limit)) xs)"

record 'a paginated =
  pr_items :: "'a list"
  pr_pagination :: pagination

definition adminPage :: "rat option \<Rightarrow> rat option \<Rightarrow> 'a list \<Rightarrow> 'a paginated" where
  "adminPage page limit xs =
     (let safePage = normalizeAdminListPage page; safeLimit = normalizeAdminListLimit limit
      in \<lparr>pr_items = pageWindow safePage safeLimit xs,
          pr_pagination = buildAdminListPagination safePage safeLimit (int (length xs))\<rparr>)"

section \<open>Lemmas\<close>

lemma normalize_bounds [simp]:
  "1 \<le> normalizeAdminListPage page"
  "1 \<le> normalizeAdminListLimit limit"
  "normalizeAdminListLimit limit \<le> 100"
  by (simp_all add: normalizeAdminListPage_def normalizeAdminListLimit_def ADMIN_LIST_DEFAULT_LIMIT_def
      ADMIN_LIST_MAX_LIMIT_def split: option.split)

lemma normalizePage_nat: "normalizeAdminListPage (Some (of_nat (Suc k))) = int (Suc k)"
  by (simp add: normalizeAdminListPage_def)

lemma pageWindow_Suc:
  "pageWindow (int (Suc k)) (int l) xs = take l (drop (k * l) xs)"
  by (simp add: pageWindow_def flip: of_nat_mult)

lemma windows_concat: "concat (map (\<lambda>k. take l (drop (k * l) xs)) [0..<n]) = take (n * l) xs"
proof (induction n)
  case 0
  then show ?case by simp
next
  case (Suc n)
  then show ?case by (simp add: take_add add.commute [of l])
qed

lemma totalPages_cover:
  assumes "1 \<le> l"
  shows "cnt \<le> nat (pg_totalPages (buildAdminListPagination p (int l) (int cnt))) * l"
proof -
  let ?n = "max 1 \<lceil>of_int (int cnt) / of_int (int l) :: rat\<rceil>"
  have "(of_nat cnt / of_nat l :: rat) \<le> of_int \<lceil>of_nat cnt / of_nat l :: rat\<rceil>" by (rule le_of_int_ceiling)
  also have "\<dots> \<le> of_int ?n" by simp
  finally have "(of_nat cnt :: rat) \<le> of_int ?n * of_nat l"
    using assms by (simp add: pos_divide_le_eq)
  then have "(of_int (int cnt) :: rat) \<le> of_int (?n * int l)" by simp
  then have "int cnt \<le> ?n * int l" by linarith
  then have "nat (int cnt) \<le> nat (?n * int l)" by (rule nat_mono)
  then show ?thesis by (simp add: buildAdminListPagination_def nat_mult_distrib)
qed

section \<open>Property\<close>

text \<open>C0. Paging neither loses nor repeats an entry: reading the pages 1 to \<open>totalPages\<close> of a list
  in order gives back the list, and no page has more entries than the limit or than 100.\<close>

theorem pages_partition:
  "(let n = pg_totalPages (pr_pagination (adminPage page limit xs))
    in concat (map (\<lambda>k. pr_items (adminPage (Some (of_nat (Suc k))) limit xs)) [0..<nat n]) = xs) \<and>
   int (length (pr_items (adminPage page limit xs))) \<le> normalizeAdminListLimit limit \<and>
   length (pr_items (adminPage page limit xs)) \<le> 100"
proof -
  define l where "l = nat (normalizeAdminListLimit limit)"
  have l: "normalizeAdminListLimit limit = int l" "1 \<le> l" "l \<le> 100"
    using normalize_bounds(2,3) [of limit] by (simp_all add: l_def del: normalize_bounds)
  define n where "n = nat (pg_totalPages (pr_pagination (adminPage page limit xs)))"
  have page: "pr_items (adminPage (Some (of_nat (Suc k))) limit xs) = take l (drop (k * l) xs)" for k
    unfolding adminPage_def Let_def l(1) normalizePage_nat pageWindow_Suc by simp
  have "length xs \<le> n * l"
    using totalPages_cover [OF l(2)] unfolding n_def adminPage_def Let_def l(1) by simp
  then have "concat (map (\<lambda>k. pr_items (adminPage (Some (of_nat (Suc k))) limit xs)) [0..<n]) = xs"
    unfolding page windows_concat by simp
  moreover have "length (pr_items (adminPage page limit xs)) \<le> l"
    unfolding adminPage_def Let_def l(1) pageWindow_def by simp
  ultimately show ?thesis using l(3) unfolding Let_def n_def l(1) by simp
qed

end
