(* ===== verification/Promotion_Admin.thy ===== *)
theory Promotion_Admin
  imports Promotion_Rules Pagination
begin

text \<open>
  \<^verbatim>\<open>src/src/modules/promotions/promotions.service.ts\<close>, the administration side: create, update,
  soft delete, toggle, the list queries and the semantic validation of the conditions JSON.

  A field of \<open>UpdatePromotionInput\<close> is \<open>None\<close> when undefined, \<open>Some None\<close> when null.
  \<open>jsonParse\<close> is \<open>JSON.parse\<close> (\<open>None\<close> a \<open>SyntaxError\<close>). The table has a unique
  index on \<open>code\<close> over the rows that are not deleted and \<open>NOT NULL\<close> columns: a save that
  violates them fails in the driver (\<open>Failure\<close>) and writes nothing.
\<close>

type_synonym 'a upd = "'a option option"
type_synonym conditions = "(string \<times> json) list"

record create_promotion_input =
  cpi_code :: string
  cpi_name :: string
  cpi_description :: "string option"
  cpi_type :: promotion_type
  cpi_discountValue :: rat
  cpi_minPurchaseAmount :: "money option"
  cpi_maxDiscountAmount :: "money option"
  cpi_usageLimit :: "int option"
  cpi_usagePerCustomer :: "int option"
  cpi_isActive :: "bool option"
  cpi_autoApply :: "bool option"
  cpi_priority :: "int option"
  cpi_conditions :: "string option"
  cpi_startsAt :: "date option"
  cpi_expiresAt :: "date option"

record update_promotion_input =
  upi_code :: "string upd"
  upi_name :: "string upd"
  upi_description :: "string upd"
  upi_type :: "promotion_type upd"
  upi_discountValue :: "rat upd"
  upi_minPurchaseAmount :: "money upd"
  upi_maxDiscountAmount :: "money upd"
  upi_usageLimit :: "int upd"
  upi_usagePerCustomer :: "int upd"
  upi_isActive :: "bool upd"
  upi_autoApply :: "bool upd"
  upi_priority :: "int upd"
  upi_conditions :: "string upd"
  upi_startsAt :: "date upd"
  upi_expiresAt :: "date upd"

text \<open>\<open>if (x !== undefined) field = x\<close> for a nullable field and for a \<open>NOT NULL\<close> one, and
  \<open>x ?? old\<close>.\<close>

definition upd :: "'a upd \<Rightarrow> 'a option \<Rightarrow> 'a option" where
  "upd x old = (case x of None \<Rightarrow> old | Some v \<Rightarrow> v)"

definition updReq :: "'a upd \<Rightarrow> 'a \<Rightarrow> 'a" where
  "updReq x old = (case x of Some (Some v) \<Rightarrow> v | _ \<Rightarrow> old)"

definition isNull :: "'a upd \<Rightarrow> bool" where
  "isNull x \<longleftrightarrow> x = Some None"

lemma upd_simps [simp]:
  "upd None old = old" "upd (Some v) old = v"
  "updReq None d = d" "updReq (Some None) d = d" "updReq (Some (Some w)) d = w"
  "isNull None = False" "isNull (Some v) = (v = None)"
  by (simp_all add: upd_def updReq_def isNull_def)

section \<open>Validation\<close>

definition isPercentageType :: "promotion_type \<Rightarrow> bool" where
  "isPercentageType t \<longleftrightarrow> t = PT_PERCENTAGE \<or> t = PT_PERCENTAGE_SHIPPING_DISCOUNT"

definition assertDiscountBounds :: "promotion_type \<Rightarrow> rat \<Rightarrow> ('s, unit) op" where
  "assertDiscountBounds t v = failIf (isPercentageType t \<and> 100 < v) (BadRequest ''INVALID_DISCOUNT_VALUE'')"

definition assertValidDateRange :: "date option \<Rightarrow> date option \<Rightarrow> ('s, unit) op" where
  "assertValidDateRange startsAt expiresAt =
     (case (startsAt, expiresAt) of
        (Some a, Some z) \<Rightarrow> failIf (z \<le> a) (BadRequest ''INVALID_PROMOTION_DATE_RANGE'')
      | _ \<Rightarrow> retM ())"

definition parseConditions :: "(string \<Rightarrow> json option) \<Rightarrow> string option \<Rightarrow> conditions result" where
  "parseConditions jsonParse conditions =
     (if \<not> truthy conditions then Inr []
      else case jsonParse (the conditions) of
             Some (JObj flds) \<Rightarrow> Inr flds
           | _ \<Rightarrow> Inl (BadRequest ''INVALID_CONDITIONS''))"

text \<open>Assignment to and deletion of a property of the conditions object.\<close>

definition jsonSet :: "string \<Rightarrow> json \<Rightarrow> conditions \<Rightarrow> conditions" where
  "jsonSet k v conds = map (\<lambda>(k', v'). if k' = k then (k', v) else (k', v')) conds"

definition jsonDelete :: "string \<Rightarrow> conditions \<Rightarrow> conditions" where
  "jsonDelete k conds = filter (\<lambda>(k', _). k' \<noteq> k) conds"

definition checkNewCustomer :: "conditions \<Rightarrow> (db, unit) op" where
  "checkNewCustomer conds = (case jsonField ''newCustomer'' conds of
       None \<Rightarrow> retM ()
     | Some JNull \<Rightarrow> retM ()
     | Some (JObj nc) \<Rightarrow>
         failIf (jsonField ''enabled'' nc = Some (JBool True) \<and>
                 positiveInteger (jsonField ''nDays'' nc) = None)
           (BadRequest ''INVALID_NEW_CUSTOMER_CONDITIONS'')
     | Some _ \<Rightarrow> raiseM (BadRequest ''INVALID_NEW_CUSTOMER_CONDITIONS''))"

text \<open>The conditions object with \<open>loggedInOnly\<close> in its canonical form.\<close>

definition canonLoggedInOnly :: "conditions \<Rightarrow> (db, conditions) op" where
  "canonLoggedInOnly conds = (case jsonField ''loggedInOnly'' conds of
       None \<Rightarrow> retM conds
     | Some (JObj lo) \<Rightarrow>
         if jsonField ''enabled'' lo = Some (JBool True)
         then retM (jsonSet ''loggedInOnly'' (JObj [(''enabled'', JBool True)]) conds)
         else retM (jsonDelete ''loggedInOnly'' conds)
     | Some _ \<Rightarrow> raiseM (BadRequest ''INVALID_LOGGED_IN_ONLY_CONDITIONS''))"

definition bxgyConditionsOk :: "conditions \<Rightarrow> bool" where
  "bxgyConditionsOk conds \<longleftrightarrow>
     (case jsonField ''productId'' conds of Some (JStr pid) \<Rightarrow> js_trim pid \<noteq> [] | _ \<Rightarrow> False) \<and>
     positiveInteger (jsonField ''buyQuantity'' conds) \<noteq> None \<and>
     positiveInteger (jsonField ''getQuantity'' conds) \<noteq> None"

definition productIdOf :: "conditions \<Rightarrow> string" where
  "productIdOf conds = (case jsonField ''productId'' conds of Some (JStr pid) \<Rightarrow> pid | _ \<Rightarrow> [])"

definition liveProduct :: "db \<Rightarrow> string \<Rightarrow> product_row option" where
  "liveProduct s i = List.find (\<lambda>p. p_id p = i \<and> p_deletedAt p = None) (dbProducts s)"

definition assertValidConditions ::
    "promotion_type option \<Rightarrow> promotion_scope \<Rightarrow> string option \<Rightarrow> conditions \<Rightarrow> (db, conditions) op" where
  "assertValidConditions t scope storeId conds =
     seqM (checkNewCustomer conds) (\<lambda>_.
     seqM (canonLoggedInOnly conds) (\<lambda>conds'.
       if t \<noteq> Some PT_BUY_X_GET_Y then retM conds'
       else seqM (failIf (\<not> bxgyConditionsOk conds') (BadRequest ''INVALID_BXGY_CONDITIONS'')) (\<lambda>_.
            seqM (getM (\<lambda>s. liveProduct s (productIdOf conds'))) (\<lambda>product.
              case product of
                None \<Rightarrow> raiseM (BadRequest ''PRODUCT_NOT_FOUND'')
              | Some p \<Rightarrow> seqM (failIf (scope = SC_STORE \<and> truthy storeId \<and> Some (p_storeId p) \<noteq> storeId)
                                    (BadRequest ''PRODUCT_STORE_MISMATCH'')) (\<lambda>_. retM conds')))))"

section \<open>Queries\<close>

definition livePromotion :: "db \<Rightarrow> string \<Rightarrow> promotion_row option" where
  "livePromotion s i = List.find (\<lambda>p. pm_id p = i \<and> pm_deletedAt p = None) (dbPromotions s)"

definition findOnePromotion :: "string \<Rightarrow> (db, promotion_row) op" where
  "findOnePromotion i = seqM (getM (\<lambda>s. livePromotion s i)) (\<lambda>found.
     case found of None \<Rightarrow> raiseM (NotFound ''PROMOTION_NOT_FOUND'') | Some p \<Rightarrow> retM p)"

definition promotionRunning :: "date \<Rightarrow> promotion_row \<Rightarrow> bool" where
  "promotionRunning now p \<longleftrightarrow> pm_isActive p \<and> pm_deletedAt p = None \<and>
     (case pm_startsAt p of None \<Rightarrow> True | Some a \<Rightarrow> a \<le> now) \<and>
     (case pm_expiresAt p of None \<Rightarrow> True | Some z \<Rightarrow> now \<le> z)"

definition findActive :: "env \<Rightarrow> string option \<Rightarrow> db \<Rightarrow> promotion_row list" where
  "findActive env storeId s = sort_key (\<lambda>p. - pm_priority p)
     (filter (\<lambda>p. promotionRunning (envNow env) p \<and>
        (pm_scope p = SC_PLATFORM \<or> truthy storeId \<and> pm_scope p = SC_STORE \<and> pm_storeId p = storeId))
      (dbPromotions s))"

definition findActiveForStore :: "env \<Rightarrow> string \<Rightarrow> db \<Rightarrow> promotion_row list" where
  "findActiveForStore env storeId s = sort_key (\<lambda>p. (- pm_priority p, - pm_createdAt p))
     (filter (\<lambda>p. promotionRunning (envNow env) p \<and> pm_scope p = SC_STORE \<and> pm_storeId p = Some storeId)
      (dbPromotions s))"

definition findPromotionsByStore ::
    "string \<Rightarrow> rat option \<Rightarrow> rat option \<Rightarrow> db \<Rightarrow> promotion_row paginated" where
  "findPromotionsByStore storeId page limit s = adminPage page limit
     (sort_key (\<lambda>p. (- pm_priority p, - pm_createdAt p))
       (filter (\<lambda>p. pm_storeId p = Some storeId \<and> pm_deletedAt p = None) (dbPromotions s)))"

definition findPlatform :: "rat option \<Rightarrow> rat option \<Rightarrow> db \<Rightarrow> promotion_row paginated" where
  "findPlatform page limit s = adminPage page limit
     (sort_key (\<lambda>p. (- pm_priority p, - pm_createdAt p))
       (filter (\<lambda>p. pm_scope p = SC_PLATFORM \<and> pm_deletedAt p = None) (dbPromotions s)))"

section \<open>Writes\<close>

text \<open>\<open>promotionRepository.save\<close> under the unique index of live codes.\<close>

definition codeTaken :: "db \<Rightarrow> promotion_row \<Rightarrow> bool" where
  "codeTaken s p \<longleftrightarrow> pm_deletedAt p = None \<and>
     (\<exists>q \<in> set (dbPromotions s). pm_id q \<noteq> pm_id p \<and> pm_deletedAt q = None \<and> pm_code q = pm_code p)"

definition savePromotion :: "env \<Rightarrow> promotion_row \<Rightarrow> (db, promotion_row) op" where
  "savePromotion env p =
     (let p' = p\<lparr>pm_updatedAt := envNow env\<rparr> in
      seqM (getM (\<lambda>s. codeTaken s p')) (\<lambda>taken.
      seqM (failIf taken (Failure ''unique_violation'')) (\<lambda>_.
      seqM (modM (\<lambda>s. s\<lparr>dbPromotions := saveRow pm_id p' (dbPromotions s)\<rparr>)) (\<lambda>_. retM p'))))"

definition newPromotion ::
    "env \<Rightarrow> string \<Rightarrow> create_promotion_input \<Rightarrow> promotion_scope \<Rightarrow> string option \<Rightarrow> conditions \<Rightarrow> promotion_row" where
  "newPromotion env newId inp scope storeId conditions =
     \<lparr>pm_id = newId, pm_storeId = (if scope = SC_STORE then storeId else None),
      pm_code = js_upper (cpi_code inp), pm_name = cpi_name inp, pm_description = cpi_description inp,
      pm_type = cpi_type inp, pm_scope = scope, pm_discountValue = cpi_discountValue inp,
      pm_minPurchaseAmount = cpi_minPurchaseAmount inp,
      pm_maxDiscountAmount = cpi_maxDiscountAmount inp, pm_usageLimit = cpi_usageLimit inp,
      pm_usagePerCustomer = nullish (cpi_usagePerCustomer inp) 1, pm_usageCount = 0,
      pm_isActive = nullish (cpi_isActive inp) True, pm_autoApply = nullish (cpi_autoApply inp) False,
      pm_priority = nullish (cpi_priority inp) 0, pm_conditions = conditions,
      pm_startsAt = cpi_startsAt inp, pm_expiresAt = cpi_expiresAt inp,
      pm_createdAt = envNow env, pm_updatedAt = envNow env, pm_deletedAt = None\<rparr>"

definition createPromotion ::
    "env \<Rightarrow> (string \<Rightarrow> json option) \<Rightarrow> create_promotion_input \<Rightarrow> promotion_scope \<Rightarrow> string option
       \<Rightarrow> (db, promotion_row) op" where
  "createPromotion env jsonParse inp scope storeId =
     seqM (assertDiscountBounds (cpi_type inp) (cpi_discountValue inp)) (\<lambda>_.
     seqM (assertValidDateRange (cpi_startsAt inp) (cpi_expiresAt inp)) (\<lambda>_.
     seqM (liftM (parseConditions jsonParse (cpi_conditions inp))) (\<lambda>parsed.
     seqM (assertValidConditions (Some (cpi_type inp)) scope storeId parsed) (\<lambda>conditions.
     seqM (freshId env) (\<lambda>newId.
       savePromotion env (newPromotion env newId inp scope storeId conditions))))))"

text \<open>The row after the assignments of \<open>update\<close>.\<close>

definition applyUpdate :: "update_promotion_input \<Rightarrow> conditions \<Rightarrow> promotion_row \<Rightarrow> promotion_row" where
  "applyUpdate inp conditions p = p\<lparr>
     pm_code := (case upi_code inp of Some (Some c) \<Rightarrow> js_upper c | _ \<Rightarrow> pm_code p),
     pm_name := updReq (upi_name inp) (pm_name p),
     pm_description := upd (upi_description inp) (pm_description p),
     pm_type := updReq (upi_type inp) (pm_type p),
     pm_discountValue := updReq (upi_discountValue inp) (pm_discountValue p),
     pm_minPurchaseAmount := upd (upi_minPurchaseAmount inp) (pm_minPurchaseAmount p),
     pm_maxDiscountAmount := upd (upi_maxDiscountAmount inp) (pm_maxDiscountAmount p),
     pm_usageLimit := upd (upi_usageLimit inp) (pm_usageLimit p),
     pm_usagePerCustomer := updReq (upi_usagePerCustomer inp) (pm_usagePerCustomer p),
     pm_isActive := updReq (upi_isActive inp) (pm_isActive p),
     pm_autoApply := updReq (upi_autoApply inp) (pm_autoApply p),
     pm_priority := updReq (upi_priority inp) (pm_priority p),
     pm_conditions := conditions,
     pm_startsAt := upd (upi_startsAt inp) (pm_startsAt p),
     pm_expiresAt := upd (upi_expiresAt inp) (pm_expiresAt p)\<rparr>"

text \<open>Some \<open>NOT NULL\<close> column was assigned null.\<close>

definition nullsRequired :: "update_promotion_input \<Rightarrow> bool" where
  "nullsRequired inp \<longleftrightarrow> isNull (upi_name inp) \<or> isNull (upi_type inp) \<or> isNull (upi_discountValue inp) \<or>
     isNull (upi_usagePerCustomer inp) \<or> isNull (upi_isActive inp) \<or> isNull (upi_autoApply inp) \<or>
     isNull (upi_priority inp)"

text \<open>
  The type the conditions are checked against is \<open>input.type ?? promotion.type\<close> after the assignment: an explicit
  null is null in both, and the save fails.
\<close>

definition assignedType :: "promotion_type upd \<Rightarrow> promotion_type \<Rightarrow> promotion_type option" where
  "assignedType x old = (case x of None \<Rightarrow> Some old | Some v \<Rightarrow> v)"

lemma assignedType_updReq: "\<not> isNull x \<Longrightarrow> assignedType x old = Some (updReq x old)"
  by (auto simp: assignedType_def updReq_def isNull_def split: option.split)

definition updatePromotion ::
    "env \<Rightarrow> (string \<Rightarrow> json option) \<Rightarrow> string \<Rightarrow> update_promotion_input \<Rightarrow> (db, promotion_row) op" where
  "updatePromotion env jsonParse i inp =
     seqM (findOnePromotion i) (\<lambda>p.
     seqM (if upi_type inp \<noteq> None \<or> upi_discountValue inp \<noteq> None
           then assertDiscountBounds (updReq (upi_type inp) (pm_type p))
                  (updReq (upi_discountValue inp) (pm_discountValue p))
           else retM ()) (\<lambda>_.
     seqM (failIf (isNull (upi_code inp)) (Failure ''TypeError'')) (\<lambda>_.
     seqM (case upi_conditions inp of
             None \<Rightarrow> retM (pm_conditions p)
           | Some c \<Rightarrow> liftM (parseConditions jsonParse c)) (\<lambda>parsed.
     seqM (if upi_conditions inp \<noteq> None \<or> upi_type inp \<noteq> None
           then assertValidConditions (assignedType (upi_type inp) (pm_type p)) (pm_scope p) (pm_storeId p) parsed
           else retM parsed) (\<lambda>conditions.
     seqM (if upi_startsAt inp \<noteq> None \<or> upi_expiresAt inp \<noteq> None
           then assertValidDateRange (upd (upi_startsAt inp) (pm_startsAt p)) (upd (upi_expiresAt inp) (pm_expiresAt p))
           else retM ()) (\<lambda>_.
     seqM (failIf (nullsRequired inp) (Failure ''not_null_violation'')) (\<lambda>_.
       savePromotion env (applyUpdate inp conditions p))))))))"

text \<open>\<open>softRemove\<close> writes the column of the deletion and the one of the last update.\<close>

definition softDeletePromotion :: "env \<Rightarrow> string \<Rightarrow> (db, unit) op" where
  "softDeletePromotion env i = seqM (findOnePromotion i) (\<lambda>p.
     modM (\<lambda>s. s\<lparr>dbPromotions := saveRow pm_id (p\<lparr>pm_deletedAt := Some (envNow env), pm_updatedAt := envNow env\<rparr>) (dbPromotions s)\<rparr>))"

definition togglePromotion :: "env \<Rightarrow> string \<Rightarrow> bool \<Rightarrow> (db, promotion_row) op" where
  "togglePromotion env i isActive = seqM (findOnePromotion i) (\<lambda>p. savePromotion env (p\<lparr>pm_isActive := isActive\<rparr>))"

definition assertCanManage :: "promotion_row \<Rightarrow> promotion_scope \<Rightarrow> string option \<Rightarrow> unit result" where
  "assertCanManage p scope storeId =
     (if pm_scope p \<noteq> scope then Inl (Forbidden ''FORBIDDEN'')
      else if scope = SC_STORE \<and> truthy storeId \<and> pm_storeId p \<noteq> storeId then Inl (Forbidden ''FORBIDDEN'')
      else Inr ())"

section \<open>Invariant of the stored promotions\<close>

definition conditionsOk :: "conditions \<Rightarrow> bool" where
  "conditionsOk conds \<longleftrightarrow>
     (case jsonField ''newCustomer'' conds of
        None \<Rightarrow> True
      | Some JNull \<Rightarrow> True
      | Some (JObj nc) \<Rightarrow> jsonField ''enabled'' nc = Some (JBool True) \<longrightarrow>
                          positiveInteger (jsonField ''nDays'' nc) \<noteq> None
      | Some _ \<Rightarrow> False) \<and>
     jsonField ''loggedInOnly'' conds \<in> {None, Some (JObj [(''enabled'', JBool True)])}"

definition promotionOk :: "promotion_row \<Rightarrow> bool" where
  "promotionOk p \<longleftrightarrow> promotionDataOk p \<and>
     (isPercentageType (pm_type p) \<longrightarrow> pm_discountValue p \<le> 100) \<and>
     (\<forall>a z. pm_startsAt p = Some a \<longrightarrow> pm_expiresAt p = Some z \<longrightarrow> a < z) \<and>
     conditionsOk (pm_conditions p) \<and>
     (pm_type p = PT_BUY_X_GET_Y \<longrightarrow> bxgyConditionsOk (pm_conditions p))"

text \<open>The unique index on \<open>code\<close> over the rows that are not deleted.\<close>

definition liveCodesUnique :: "promotion_row list \<Rightarrow> bool" where
  "liveCodesUnique ps \<longleftrightarrow> (\<forall>p \<in> set ps. \<forall>q \<in> set ps.
     pm_deletedAt p = None \<and> pm_deletedAt q = None \<and> pm_code p = pm_code q \<longrightarrow> pm_id p = pm_id q)"

definition promotionsInv :: "db \<Rightarrow> bool" where
  "promotionsInv s \<longleftrightarrow> uniqueKey pm_id (dbPromotions s) \<and>
     (\<forall>p \<in> set (dbPromotions s). pm_deletedAt p = None \<longrightarrow> promotionOk p) \<and>
     liveCodesUnique (dbPromotions s)"

lemma jsonField_set_other [simp]:
  "k \<noteq> k' \<Longrightarrow> jsonField k' (jsonSet k v conds) = jsonField k' conds"
  "k \<noteq> k' \<Longrightarrow> jsonField k' (jsonDelete k conds) = jsonField k' conds"
  by (induction conds) (auto simp: jsonField_def jsonSet_def jsonDelete_def)

lemma jsonField_set_same [simp]:
  "jsonField k conds \<noteq> None \<Longrightarrow> jsonField k (jsonSet k v conds) = Some v"
  "jsonField k (jsonDelete k conds) = None"
  by (induction conds) (auto simp: jsonField_def jsonSet_def jsonDelete_def split: if_splits)

text \<open>The validation only reads, and what passes it is well formed.\<close>

lemma assertValidConditions_wp:
  "wp (assertValidConditions t scope storeId conds)
     (\<lambda>conds' s'. s' = s \<and> conditionsOk conds' \<and> (t = Some PT_BUY_X_GET_Y \<longrightarrow> bxgyConditionsOk conds')) (\<lambda>_ s'. s' = s) s"
proof -
  have nc: "wp (checkNewCustomer conds) (\<lambda>_ s'. s' = s \<and>
      (case jsonField ''newCustomer'' conds of None \<Rightarrow> True | Some JNull \<Rightarrow> True
        | Some (JObj nc) \<Rightarrow> jsonField ''enabled'' nc = Some (JBool True) \<longrightarrow>
                          positiveInteger (jsonField ''nDays'' nc) \<noteq> None
        | Some _ \<Rightarrow> False)) (\<lambda>_ s'. s' = s) s"
    by (auto simp: checkNewCustomer_def wp split: option.split json.split)
  have lo: "wp (canonLoggedInOnly conds) (\<lambda>conds' s'. s' = s \<and>
      jsonField ''newCustomer'' conds' = jsonField ''newCustomer'' conds \<and>
      jsonField ''loggedInOnly'' conds' \<in> {None, Some (JObj [(''enabled'', JBool True)])}) (\<lambda>_ s'. s' = s) s"
    by (auto simp: canonLoggedInOnly_def wp split: option.split json.split)
  show ?thesis
    unfolding assertValidConditions_def wp_seq
    by (rule wp_conseq [OF nc])
      (auto intro!: wp_conseq [OF lo] simp: wp conditionsOk_def split: option.splits)
qed

lemma saveRow_cases:
  "uniqueKey key xs \<Longrightarrow> x \<in> set (saveRow key r xs) \<Longrightarrow> x = r \<or> x \<in> set xs \<and> key x \<noteq> key r"
  by (induction xs) (auto simp: uniqueKey_def rev_image_eqI split: if_splits)

lemma promotionsInv_save:
  assumes "promotionsInv s" and "pm_deletedAt p = None \<longrightarrow> promotionOk p" and "\<not> codeTaken s p"
  shows "promotionsInv (s\<lparr>dbPromotions := saveRow pm_id p (dbPromotions s)\<rparr>)"
proof -
  have u: "uniqueKey pm_id (dbPromotions s)" using assms(1) by (simp add: promotionsInv_def)
  note c = saveRow_cases [OF u, of _ p]
  show ?thesis
    unfolding promotionsInv_def
  proof (intro conjI ballI impI)
    show "uniqueKey pm_id (dbPromotions (s\<lparr>dbPromotions := saveRow pm_id p (dbPromotions s)\<rparr>))"
      using promotion_repo.unique_save [OF u] by simp
  next
    fix x
    assume "x \<in> set (dbPromotions (s\<lparr>dbPromotions := saveRow pm_id p (dbPromotions s)\<rparr>))" "pm_deletedAt x = None"
    moreover from this have "x = p \<or> x \<in> set (dbPromotions s)" using c [of x] by auto
    moreover have "\<forall>q \<in> set (dbPromotions s). pm_deletedAt q = None \<longrightarrow> promotionOk q"
      using assms(1) by (simp add: promotionsInv_def)
    ultimately show "promotionOk x" using assms(2) by blast
  next
    show "liveCodesUnique (dbPromotions (s\<lparr>dbPromotions := saveRow pm_id p (dbPromotions s)\<rparr>))"
      unfolding liveCodesUnique_def
    proof (intro ballI impI)
      fix x y
      assume *: "x \<in> set (dbPromotions (s\<lparr>dbPromotions := saveRow pm_id p (dbPromotions s)\<rparr>))"
        "y \<in> set (dbPromotions (s\<lparr>dbPromotions := saveRow pm_id p (dbPromotions s)\<rparr>))"
        "pm_deletedAt x = None \<and> pm_deletedAt y = None \<and> pm_code x = pm_code y"
      then have x: "x = p \<or> x \<in> set (dbPromotions s) \<and> pm_id x \<noteq> pm_id p"
        and y: "y = p \<or> y \<in> set (dbPromotions s) \<and> pm_id y \<noteq> pm_id p"
        using c [of x] c [of y] by simp_all
      have free: "pm_code q \<noteq> pm_code p" if "q \<in> set (dbPromotions s)" "pm_id q \<noteq> pm_id p"
        "pm_deletedAt q = None" "pm_deletedAt p = None" for q
        using assms(3) that by (auto simp: codeTaken_def)
      have inv: "pm_id q = pm_id r" if "q \<in> set (dbPromotions s)" "r \<in> set (dbPromotions s)"
        "pm_deletedAt q = None" "pm_deletedAt r = None" "pm_code q = pm_code r" for q r
        using assms(1) that unfolding promotionsInv_def liveCodesUnique_def by blast
      show "pm_id x = pm_id y"
        using x y * free [of x] free [of y] inv [of x y] by metis
    qed
  qed
qed

lemma savePromotion_wp:
  assumes "promotionsInv s" and "promotionOk p"
  shows "wp (savePromotion env p) (\<lambda>_. promotionsInv) (\<lambda>_. promotionsInv) s"
proof -
  have "promotionOk (p\<lparr>pm_updatedAt := envNow env\<rparr>)" using assms(2) by (simp add: promotionOk_def promotionDataOk_def)
  with promotionsInv_save [OF assms(1)] show ?thesis
    unfolding savePromotion_def by (auto simp: wp Let_def assms(1))
qed

lemma liveOne:
  assumes "livePromotion s i = Some p" and "promotionsInv s"
  shows "promotionOk p \<and> pm_deletedAt p = None \<and> p \<in> set (dbPromotions s)"
  using find_Some_in [OF assms(1) [unfolded livePromotion_def]] assms(2) by (auto simp: promotionsInv_def)

text \<open>The field validators of the inputs (\<open>@Min(0)\<close>).\<close>

definition createInputOk :: "create_promotion_input \<Rightarrow> bool" where
  "createInputOk inp \<longleftrightarrow> 0 \<le> cpi_discountValue inp \<and> 0 \<le> nullish (cpi_maxDiscountAmount inp) 0"

definition updateInputOk :: "update_promotion_input \<Rightarrow> bool" where
  "updateInputOk inp \<longleftrightarrow> 0 \<le> updReq (upi_discountValue inp) 0 \<and>
     0 \<le> nullish (upd (upi_maxDiscountAmount inp) None) 0"

lemma nullish_nonneg: "0 \<le> nullish x (0 :: rat) \<longleftrightarrow> (case x of None \<Rightarrow> True | Some v \<Rightarrow> 0 \<le> v)"
  by (cases x) simp_all

lemma assertDiscountBounds_wp [wp]:
  "wp (assertDiscountBounds t v) Q E s =
     (if isPercentageType t \<and> 100 < v then E (BadRequest ''INVALID_DISCOUNT_VALUE'') s else Q () s)"
  by (simp add: assertDiscountBounds_def wp)

definition datesOk :: "date option \<Rightarrow> date option \<Rightarrow> bool" where
  "datesOk a z \<longleftrightarrow> (\<forall>x y. a = Some x \<longrightarrow> z = Some y \<longrightarrow> x < y)"

lemma assertValidDateRange_wp [wp]:
  "wp (assertValidDateRange a z) Q E s =
     (if datesOk a z then Q () s else E (BadRequest ''INVALID_PROMOTION_DATE_RANGE'') s)"
  by (cases a; cases z) (auto simp: assertValidDateRange_def wp datesOk_def)

lemma newPromotion_ok:
  assumes "createInputOk inp" and "\<not> (isPercentageType (cpi_type inp) \<and> 100 < cpi_discountValue inp)"
    and "datesOk (cpi_startsAt inp) (cpi_expiresAt inp)" and "conditionsOk conds"
    and "cpi_type inp = PT_BUY_X_GET_Y \<longrightarrow> bxgyConditionsOk conds"
  shows "promotionOk (newPromotion env i inp scope storeId conds)"
  using assms by (auto simp: promotionOk_def newPromotion_def promotionDataOk_def createInputOk_def datesOk_def
      nullish_nonneg)

lemma createPromotion_preserves:
  assumes "promotionsInv s" and "createInputOk inp"
  shows "wp (createPromotion env jsonParse inp scope storeId) (\<lambda>_. promotionsInv) (\<lambda>_. promotionsInv) s"
proof -
  have inv: "promotionsInv (s\<lparr>idCount := n\<rparr>)" for n using assms(1) by (simp add: promotionsInv_def)
  show ?thesis
    unfolding createPromotion_def wp
    using assms(1)
    by (auto split: sum.split intro!: wp_conseq [OF assertValidConditions_wp] savePromotion_wp inv
        newPromotion_ok assms)
qed

lemma applyUpdate_ok:
  assumes "updateInputOk inp" and "promotionOk p"
    and "upi_type inp = None \<and> upi_discountValue inp = None \<or>
         \<not> (isPercentageType (updReq (upi_type inp) (pm_type p)) \<and>
            100 < updReq (upi_discountValue inp) (pm_discountValue p))"
    and "upi_startsAt inp = None \<and> upi_expiresAt inp = None \<or>
         datesOk (upd (upi_startsAt inp) (pm_startsAt p)) (upd (upi_expiresAt inp) (pm_expiresAt p))"
    and "conditionsOk conds" and "updReq (upi_type inp) (pm_type p) = PT_BUY_X_GET_Y \<longrightarrow> bxgyConditionsOk conds"
  shows "promotionOk (applyUpdate inp conds p)"
proof -
  have "promotionDataOk (applyUpdate inp conds p)"
    using assms(1,2) by (auto simp: promotionOk_def promotionDataOk_def applyUpdate_def updateInputOk_def
        updReq_def upd_def nullish_def split: option.splits)
  moreover have "isPercentageType (updReq (upi_type inp) (pm_type p)) \<longrightarrow>
      updReq (upi_discountValue inp) (pm_discountValue p) \<le> 100"
    using assms(2,3) by (auto simp: promotionOk_def)
  moreover have "datesOk (upd (upi_startsAt inp) (pm_startsAt p)) (upd (upi_expiresAt inp) (pm_expiresAt p))"
    using assms(2,4) by (auto simp: promotionOk_def datesOk_def)
  ultimately show ?thesis
    using assms(5,6) by (simp add: promotionOk_def applyUpdate_def datesOk_def)
qed

lemma findOnePromotion_wp:
  assumes "promotionsInv s"
  shows "wp (findOnePromotion i) (\<lambda>q s'. s' = s \<and> promotionOk q \<and> pm_deletedAt q = None \<and> livePromotion s i = Some q)
    (\<lambda>_ s'. s' = s) s"
  using liveOne [OF _ assms] by (auto simp: findOnePromotion_def wp split: option.split)

lemma optionalConditions_wp:
  assumes "\<not> c \<Longrightarrow> conditionsOk conds \<and> (t = Some PT_BUY_X_GET_Y \<longrightarrow> bxgyConditionsOk conds)"
  shows "wp (if c then assertValidConditions t scope storeId conds else retM conds)
     (\<lambda>conds' s'. s' = s \<and> conditionsOk conds' \<and> (t = Some PT_BUY_X_GET_Y \<longrightarrow> bxgyConditionsOk conds')) (\<lambda>_ s'. s' = s) s"
  using assms assertValidConditions_wp by (simp add: wp)

lemma updatePromotion_preserves:
  assumes "promotionsInv s" and "updateInputOk inp"
  shows "wp (updatePromotion env jsonParse i inp) (\<lambda>_. promotionsInv) (\<lambda>_. promotionsInv) s"
proof -
  let ?t = "\<lambda>p. updReq (upi_type inp) (pm_type p)"
  let ?bounds = "\<lambda>p. upi_type inp = None \<and> upi_discountValue inp = None \<or>
    \<not> (isPercentageType (?t p) \<and> 100 < updReq (upi_discountValue inp) (pm_discountValue p))"
  let ?dates = "\<lambda>p. upi_startsAt inp = None \<and> upi_expiresAt inp = None \<or>
    datesOk (upd (upi_startsAt inp) (pm_startsAt p)) (upd (upi_expiresAt inp) (pm_expiresAt p))"
  have find: "wp (findOnePromotion i) (\<lambda>p s'. s' = s \<and> promotionOk p) (\<lambda>_ s'. s' = s) s"
    by (rule wp_conseq [OF findOnePromotion_wp [OF assms(1)]]) auto
  have bounds: "wp (if upi_type inp \<noteq> None \<or> upi_discountValue inp \<noteq> None
           then assertDiscountBounds (?t p) (updReq (upi_discountValue inp) (pm_discountValue p)) else retM ())
     (\<lambda>_ s'. s' = s \<and> ?bounds p) (\<lambda>_ s'. s' = s) s" for p
    by (simp add: wp)
  have parse: "wp (case upi_conditions inp of None \<Rightarrow> retM (pm_conditions p) | Some c \<Rightarrow> liftM (parseConditions jsonParse c))
     (\<lambda>parsed s'. s' = s \<and> (upi_conditions inp = None \<longrightarrow> parsed = pm_conditions p)) (\<lambda>_ s'. s' = s) s" for p
    by (simp add: wp split: option.split sum.split)
  have conds: "wp (if upi_conditions inp \<noteq> None \<or> upi_type inp \<noteq> None
           then assertValidConditions (assignedType (upi_type inp) (pm_type p)) (pm_scope p) (pm_storeId p) parsed else retM parsed)
     (\<lambda>conds s'. s' = s \<and> conditionsOk conds \<and> (assignedType (upi_type inp) (pm_type p) = Some PT_BUY_X_GET_Y \<longrightarrow> bxgyConditionsOk conds)) (\<lambda>_ s'. s' = s) s"
    if "promotionOk p" "upi_conditions inp = None \<longrightarrow> parsed = pm_conditions p" for p parsed
    by (rule optionalConditions_wp) (use that in \<open>auto simp: promotionOk_def assignedType_def\<close>)
  have dates: "wp (if upi_startsAt inp \<noteq> None \<or> upi_expiresAt inp \<noteq> None
           then assertValidDateRange (upd (upi_startsAt inp) (pm_startsAt p)) (upd (upi_expiresAt inp) (pm_expiresAt p))
           else retM ()) (\<lambda>_ s'. s' = s \<and> ?dates p) (\<lambda>_ s'. s' = s) s" for p
    by (simp add: wp)
  show ?thesis
    unfolding updatePromotion_def wp_seq
    by (rule wp_read [OF find] wp_read [OF bounds] wp_read [OF parse] wp_read [OF conds] wp_read [OF dates]
        wp_guard savePromotion_wp applyUpdate_ok assms | ((elim conjE)?, assumption)
        | (simp add: nullsRequired_def assignedType_updReq))+
qed

lemma togglePromotion_preserves:
  assumes "promotionsInv s"
  shows "wp (togglePromotion env i b) (\<lambda>_. promotionsInv) (\<lambda>_. promotionsInv) s"
  unfolding togglePromotion_def wp_seq
  by (rule wp_conseq [OF findOnePromotion_wp [OF assms]])
    (auto intro!: savePromotion_wp assms simp: promotionOk_def promotionDataOk_def)

lemma softDeletePromotion_preserves:
  assumes "promotionsInv s"
  shows "wp (softDeletePromotion env i) (\<lambda>_. promotionsInv) (\<lambda>_. promotionsInv) s"
  unfolding softDeletePromotion_def wp_seq
  by (rule wp_conseq [OF findOnePromotion_wp [OF assms]])
    (auto intro!: promotionsInv_save assms simp: wp codeTaken_def)

section \<open>Properties\<close>

definition sampleInput :: create_promotion_input where
  "sampleInput = \<lparr>cpi_code = ''save10'', cpi_name = ''Save'', cpi_description = None, cpi_type = PT_PERCENTAGE,
     cpi_discountValue = 10, cpi_minPurchaseAmount = None, cpi_maxDiscountAmount = None, cpi_usageLimit = None,
     cpi_usagePerCustomer = None, cpi_isActive = None, cpi_autoApply = None, cpi_priority = None,
     cpi_conditions = None, cpi_startsAt = None, cpi_expiresAt = None\<rparr>"

definition emptyUpdate :: update_promotion_input where
  "emptyUpdate = \<lparr>upi_code = None, upi_name = None, upi_description = None, upi_type = None,
     upi_discountValue = None, upi_minPurchaseAmount = None, upi_maxDiscountAmount = None, upi_usageLimit = None,
     upi_usagePerCustomer = None, upi_isActive = None, upi_autoApply = None, upi_priority = None,
     upi_conditions = None, upi_startsAt = None, upi_expiresAt = None\<rparr>"

text \<open>C19. Whatever administrators do, the stored promotions stay well formed: create, update, toggle and
  soft delete keep primary keys and live codes unique, percentages at most 100, discounts and caps
  not negative, date ranges increasing, and the conditions JSON readable by the evaluation gates,
  whether the call succeeds or raises.\<close>

theorem promotions_stay_wellformed:
  assumes "promotionsInv s" and "createInputOk ci" and "updateInputOk ui"
  shows "promotionsInv (snd (createPromotion env jsonParse ci scope storeId s)) \<and>
    promotionsInv (snd (updatePromotion env jsonParse i ui s)) \<and>
    promotionsInv (snd (togglePromotion env i b s)) \<and>
    promotionsInv (snd (softDeletePromotion env i s))"
  by (intro conjI wp_invariant createPromotion_preserves updatePromotion_preserves togglePromotion_preserves
      softDeletePromotion_preserves assms)

theorem promotions_stay_wellformed_witness:
  "promotionsInv (snd (createPromotion sampleEnv (\<lambda>_. None) sampleInput SC_PLATFORM None empty_db)) \<and>
   length (dbPromotions (snd (createPromotion sampleEnv (\<lambda>_. None) sampleInput SC_PLATFORM None empty_db))) = 1"
proof -
  have e: "promotionsInv empty_db" by (simp add: promotionsInv_def empty_db_def uniqueKey_def liveCodesUnique_def)
  have "createPromotion sampleEnv (\<lambda>_. None) sampleInput SC_PLATFORM None empty_db =
      (Inr (newPromotion sampleEnv [] sampleInput SC_PLATFORM None []),
       empty_db\<lparr>idCount := 1, dbPromotions := [newPromotion sampleEnv [] sampleInput SC_PLATFORM None []]\<rparr>)"
    by (simp add: createPromotion_def assertDiscountBounds_def assertValidDateRange_def parseConditions_def
        assertValidConditions_def checkNewCustomer_def canonLoggedInOnly_def jsonField_def savePromotion_def
        sampleInput_def sampleEnv_def codeTaken_def empty_db_def newPromotion_def Let_def)
  moreover have "promotionsInv (snd (createPromotion sampleEnv (\<lambda>_. None) sampleInput SC_PLATFORM None empty_db))"
    using promotions_stay_wellformed [OF e, of sampleInput emptyUpdate]
    by (simp add: createInputOk_def sampleInput_def updateInputOk_def emptyUpdate_def)
  ultimately show ?thesis by simp
qed

text \<open>A promotion that was created (active, as by default) is the one its code finds at checkout:
  the code is stored in upper case, and the unique index makes the lookup unambiguous.\<close>

theorem created_promotion_is_found:
  assumes "promotionsInv s" and "createInputOk inp" and "cpi_isActive inp \<noteq> Some False"
    and "createPromotion env jsonParse inp scope storeId s = (Inr p, t)"
  shows "findPromotionByCode t (js_upper (cpi_code inp)) = Some p \<and> pm_scope p = scope \<and> pm_type p = cpi_type inp"
proof -
  from assms(4) obtain newId conds s1
    where "savePromotion env (newPromotion env newId inp scope storeId conds) s1 = (Inr p, t)"
    by (auto simp: createPromotion_def seqM_Inr_iff)
  then have p: "p = (newPromotion env newId inp scope storeId conds)\<lparr>pm_updatedAt := envNow env\<rparr>"
    and t: "t = s1\<lparr>dbPromotions := saveRow pm_id p (dbPromotions s1)\<rparr>"
    by (auto simp: savePromotion_def seqM_Inr_iff failIf_def Let_def split: if_splits)
  have "promotionsInv t"
    using wp_invariant [OF createPromotion_preserves [OF assms(1,2)]] assms(4) by (metis snd_conv)
  then have inv: "uniqueKey pm_id (dbPromotions t)" "liveCodesUnique (dbPromotions t)"
    by (simp_all add: promotionsInv_def)
  have p_in: "byKey pm_id (pm_id p) (dbPromotions t) = Some p"
    unfolding t using promotion_repo.read_own_write [of p "dbPromotions s1"] by simp
  then have mem: "p \<in> set (dbPromotions t)" by (rule promotion_repo.byId_mem)
  have flds: "pm_code p = js_upper (cpi_code inp)" "pm_isActive p" "pm_deletedAt p = None"
    "pm_scope p = scope" "pm_type p = cpi_type inp"
    using assms(3) by (auto simp: p newPromotion_def nullish_def split: option.split)
  show ?thesis
  proof (cases "findPromotionByCode t (js_upper (cpi_code inp))")
    case None
    with mem flds show ?thesis by (auto simp: findPromotionByCode_def find_None_iff)
  next
    case (Some q)
    then have q: "q \<in> set (dbPromotions t)" "pm_code q = pm_code p" "pm_deletedAt q = None"
      using find_Some_in [OF Some [unfolded findPromotionByCode_def]] flds by auto
    with mem flds inv(2) have "pm_id q = pm_id p" unfolding liveCodesUnique_def by blast
    with byKey_in [OF inv(1) q(1)] p_in have "Some q = Some p" by metis
    with Some have "findPromotionByCode t (js_upper (cpi_code inp)) = Some p" by metis
    with flds(4,5) show ?thesis by blast
  qed
qed

theorem created_promotion_is_found_witness:
  "\<exists>p. findPromotionByCode (snd (createPromotion sampleEnv (\<lambda>_. None) sampleInput SC_PLATFORM None empty_db))
     (js_upper ''save10'') = Some p \<and> pm_type p = PT_PERCENTAGE"
proof -
  have e: "promotionsInv empty_db" by (simp add: promotionsInv_def empty_db_def uniqueKey_def liveCodesUnique_def)
  obtain p t where "createPromotion sampleEnv (\<lambda>_. None) sampleInput SC_PLATFORM None empty_db = (Inr p, t)"
    by (simp add: createPromotion_def assertDiscountBounds_def assertValidDateRange_def parseConditions_def
        assertValidConditions_def checkNewCustomer_def canonLoggedInOnly_def jsonField_def savePromotion_def
        sampleInput_def sampleEnv_def codeTaken_def empty_db_def newPromotion_def Let_def)
  with created_promotion_is_found [OF e _ _ this] show ?thesis
    by (simp add: sampleInput_def createInputOk_def)
qed

end
