(* ===== verification/Order_Util.thy ===== *)
theory Order_Util
  imports Entities
begin

text \<open>
  The pure helpers of \<^verbatim>\<open>src/src/modules/orders\<close>: \<open>order-fulfillment.util.ts\<close> (the order status
  derived from the item statuses, and the validators), \<open>order-totals.util.ts\<close>,
  \<open>order-list-filter.util.ts\<close>, \<open>vendor-order-action-queue.util.ts\<close> (the predicate and the SQL
  filter that must agree with it), \<open>webhookEventForOrderStatus\<close> of the vendor webhooks, and
  \<^verbatim>\<open>src/src/common/utils/guest-pay-token.util.ts\<close>. The URL parser and SHA-256 are parameters.
\<close>

section \<open>order-fulfillment.util.ts\<close>

definition terminalOrderStatuses :: "order_status set" where
  "terminalOrderStatuses = {OS_CANCELLED, OS_REFUNDED}"

definition vendorCancellableStatuses :: "order_status set" where
  "vendorCancellableStatuses = {OS_PENDING_PAYMENT, OS_PAID, OS_PROCESSING}"

definition deriveOrderStatusFromFulfillment :: "order_status \<Rightarrow> fulfillment_status list \<Rightarrow> order_status" where
  "deriveOrderStatusFromFulfillment current fs =
     (if current \<in> terminalOrderStatuses then current
      else if current = OS_PENDING_PAYMENT then OS_PENDING_PAYMENT
      else let nonTerminal = filter (\<lambda>f. f \<noteq> FS_CANCELLED) fs in
        if nonTerminal = [] then OS_PAID
        else if list_all (\<lambda>f. f = FS_ON_HOLD) nonTerminal then OS_ON_HOLD
        else let progressing = filter (\<lambda>f. f \<noteq> FS_ON_HOLD) nonTerminal in
          if progressing = [] then OS_PAID
          else if list_all (\<lambda>f. f = FS_DELIVERED) progressing then OS_DELIVERED
          else if list_all (\<lambda>f. f = FS_SHIPPED \<or> f = FS_DELIVERED) progressing then OS_SHIPPED
          else if list_ex (\<lambda>f. f = FS_PROCESSING \<or> f = FS_SHIPPED \<or> f = FS_DELIVERED) progressing
          then OS_PROCESSING
          else OS_PAID)"

text \<open>\<open>urlParse\<close> is \<open>new URL\<close>: the protocol and the serialisation, or a throw.\<close>

definition validateOptionalTrackingUrl ::
    "(string \<Rightarrow> (string \<times> string) option) \<Rightarrow> string option \<Rightarrow> string option result" where
  "validateOptionalTrackingUrl urlParse trackingUrl =
     (let trimmed = js_trim (nullish trackingUrl []) in
      if trimmed = [] then Inr None
      else if 2048 < length trimmed then Inl (BadRequest ''TRACKING_URL_TOO_LONG'')
      else case urlParse trimmed of
             None \<Rightarrow> Inl (BadRequest ''TRACKING_URL_INVALID'')
           | Some (protocol, href) \<Rightarrow>
               if protocol \<noteq> ''https:'' then Inl (BadRequest ''TRACKING_URL_INSECURE'') else Inr (Some href))"

definition validateTrackingUrl ::
    "(string \<Rightarrow> (string \<times> string) option) \<Rightarrow> string \<Rightarrow> string result" where
  "validateTrackingUrl urlParse trackingUrl =
     (case validateOptionalTrackingUrl urlParse (Some trackingUrl) of
        Inl e \<Rightarrow> Inl e
      | Inr normalized \<Rightarrow> if truthy normalized then Inr (the normalized)
                          else Inl (BadRequest ''TRACKING_URL_REQUIRED''))"

definition validateTrackingNumber :: "string \<Rightarrow> string result" where
  "validateTrackingNumber trackingNumber =
     (let trimmed = js_trim trackingNumber in
      if trimmed = [] then Inl (BadRequest ''TRACKING_NUMBER_REQUIRED'')
      else if 100 < length trimmed then Inl (BadRequest ''TRACKING_NUMBER_TOO_LONG'')
      else Inr trimmed)"

definition validateFulfillmentProvider :: "string \<Rightarrow> string result" where
  "validateFulfillmentProvider provider =
     (let trimmed = js_trim provider in
      if trimmed = [] then Inl (BadRequest ''FULFILLMENT_PROVIDER_REQUIRED'')
      else if 100 < length trimmed then Inl (BadRequest ''FULFILLMENT_PROVIDER_TOO_LONG'')
      else Inr trimmed)"

definition assertVendorItemsUniform :: "fulfillment_status list \<Rightarrow> fulfillment_status \<Rightarrow> unit result" where
  "assertVendorItemsUniform fs expected =
     (if fs = [] then Inl (BadRequest ''NO_STORE_ITEMS'')
      else if \<not> list_all (\<lambda>f. f = expected) fs then Inl (BadRequest ''INVALID_FULFILLMENT_STATE'')
      else Inr ())"

section \<open>order-totals.util.ts\<close>

definition recomputeOrderPayableTotals ::
    "item_row list \<Rightarrow> store_shipping_row list \<Rightarrow> order_row \<Rightarrow> order_row" where
  "recomputeOrderPayableTotals items shippings ord =
     (let remaining = filter (\<lambda>i. oi_fulfillmentStatus i \<noteq> FS_CANCELLED) items;
          storeIds = oi_storeId ` set remaining;
          subtotal = (\<Sum>i\<leftarrow>remaining. oi_subtotal i);
          shippingFee = (\<Sum>sh\<leftarrow>filter (\<lambda>sh. ss_storeId sh \<in> storeIds) shippings. ss_shippingFee sh)
      in ord\<lparr>o_subtotal := subtotal, o_shippingFee := shippingFee,
             o_total := max 0 (subtotal + shippingFee - o_discountAmount ord)\<rparr>)"

definition orderHasHeldItems :: "item_row list \<Rightarrow> bool" where
  "orderHasHeldItems items \<longleftrightarrow> list_ex (\<lambda>i. oi_fulfillmentStatus i = FS_ON_HOLD) items"

section \<open>order-list-filter.util.ts\<close>

datatype customer_order_filter =
    CF_ALL | CF_PENDING_PAYMENT | CF_IN_PROGRESS | CF_DELIVERED | CF_CANCELLED

fun statusesForCustomerOrderListFilter :: "customer_order_filter \<Rightarrow> order_status list option" where
  "statusesForCustomerOrderListFilter CF_ALL = None"
| "statusesForCustomerOrderListFilter CF_PENDING_PAYMENT = Some [OS_PENDING_PAYMENT]"
| "statusesForCustomerOrderListFilter CF_IN_PROGRESS = Some [OS_PAID, OS_PROCESSING, OS_SHIPPED]"
| "statusesForCustomerOrderListFilter CF_DELIVERED = Some [OS_DELIVERED]"
| "statusesForCustomerOrderListFilter CF_CANCELLED = Some [OS_CANCELLED, OS_REFUNDED]"

definition applyCustomerOrderListFilter :: "customer_order_filter \<Rightarrow> order_row list \<Rightarrow> order_row list" where
  "applyCustomerOrderListFilter f ords = (case statusesForCustomerOrderListFilter f of
     None \<Rightarrow> ords
   | Some sts \<Rightarrow> if sts = [] then ords else filter (\<lambda>ord. o_status ord \<in> set sts) ords)"

definition normalizeCustomerOrdersPage :: "int option \<Rightarrow> int" where
  "normalizeCustomerOrdersPage page = max (nullish page 1) 1"

definition normalizeCustomerOrdersLimit :: "int option \<Rightarrow> int" where
  "normalizeCustomerOrdersLimit limit = min (max (nullish limit 10) 1) 50"

section \<open>vendor-order-action-queue.util.ts\<close>

record queue_order =
  qo_status :: order_status
  qo_paymentMethod :: payment_method
  qo_items :: "(string \<times> fulfillment_status) list"

definition terminalFulfillment :: "fulfillment_status set" where
  "terminalFulfillment = {FS_SHIPPED, FS_DELIVERED, FS_CANCELLED}"

definition isVendorOrderActionable :: "queue_order \<Rightarrow> string \<Rightarrow> bool" where
  "isVendorOrderActionable q storeId =
     (let fs = map snd (filter (\<lambda>(st, _). st = storeId) (qo_items q)) in
      if fs = [] then False
      else if qo_status q = OS_CANCELLED \<or> qo_status q = OS_REFUNDED \<or> qo_status q = OS_DELIVERED \<or>
              qo_status q = OS_ON_HOLD then False
      else let nonTerminal = filter (\<lambda>f. f \<notin> terminalFulfillment) fs in
        if nonTerminal \<noteq> [] \<and> list_all (\<lambda>f. f = FS_ON_HOLD) nonTerminal then False
        else if qo_status q = OS_PENDING_PAYMENT then qo_paymentMethod q \<noteq> PM_BANK_TRANSFER
        else if list_all (\<lambda>f. f = FS_DELIVERED) fs then False
        else if list_all (\<lambda>f. f = FS_SHIPPED \<or> f = FS_DELIVERED) fs then False
        else if list_all (\<lambda>f. f = FS_PROCESSING) fs then True
        else qo_status q = OS_PAID \<or> qo_status q = OS_PROCESSING \<or> list_all (\<lambda>f. f = FS_PENDING) fs)"

text \<open>
  The three \<open>andWhere\<close> clauses of \<open>applyVendorActionQueueFilter\<close>; \<open>ex P\<close> is
  \<open>EXISTS (SELECT 1 FROM order_items \<dots>)\<close> over the items of the order in the store.
\<close>

definition vendorActionQueueFilter :: "queue_order \<Rightarrow> string \<Rightarrow> bool" where
  "vendorActionQueueFilter q storeId =
     (let ex = (\<lambda>P. \<exists>(st, f) \<in> set (qo_items q). st = storeId \<and> P f) in
      qo_status q \<notin> {OS_CANCELLED, OS_REFUNDED, OS_DELIVERED, OS_ON_HOLD} \<and>
      (\<not> ex (\<lambda>f. f \<notin> terminalFulfillment) \<or> ex (\<lambda>f. f \<notin> terminalFulfillment \<and> f \<noteq> FS_ON_HOLD)) \<and>
      (qo_status q = OS_PENDING_PAYMENT \<and> qo_paymentMethod q \<noteq> PM_BANK_TRANSFER \<or>
       qo_status q \<noteq> OS_PENDING_PAYMENT \<and>
         (\<not> ex (\<lambda>f. f \<noteq> FS_PROCESSING) \<or>
          (qo_status q \<in> {OS_PAID, OS_PROCESSING} \<or> \<not> ex (\<lambda>f. f \<noteq> FS_PENDING)) \<and>
          ex (\<lambda>f. f \<notin> {FS_SHIPPED, FS_DELIVERED}))))"

definition normalizeVendorOrdersPage :: "int option \<Rightarrow> int" where
  "normalizeVendorOrdersPage page = max (nullish page 1) 1"

definition normalizeVendorOrdersLimit :: "int option \<Rightarrow> int" where
  "normalizeVendorOrdersLimit limit = min (max (nullish limit 20) 1) 50"

section \<open>Vendor webhook events\<close>

fun webhookEventForOrderStatus :: "order_status \<Rightarrow> string option" where
  "webhookEventForOrderStatus OS_PAID = Some ''order.paid''"
| "webhookEventForOrderStatus OS_PROCESSING = Some ''order.processing''"
| "webhookEventForOrderStatus OS_ON_HOLD = Some ''order.on_hold''"
| "webhookEventForOrderStatus OS_SHIPPED = Some ''order.shipped''"
| "webhookEventForOrderStatus OS_DELIVERED = Some ''order.delivered''"
| "webhookEventForOrderStatus OS_CANCELLED = Some ''order.cancelled''"
| "webhookEventForOrderStatus OS_REFUNDED = Some ''order.refunded''"
| "webhookEventForOrderStatus OS_PENDING_PAYMENT = None"

section \<open>guest-pay-token.util.ts\<close>

record guest_pay_token_issue =
  gt_plaintext :: string
  gt_hash :: string
  gt_expiresAt :: date

definition GUEST_PAY_TOKEN_TTL_MS :: int where
  "GUEST_PAY_TOKEN_TTL_MS = 90 * 24 * 60 * 60 * 1000"

text \<open>\<open>plaintext\<close> is the random token of the environment, \<open>hash\<close> is SHA-256 in hexadecimal.\<close>

definition issueGuestPayToken :: "(string \<Rightarrow> string) \<Rightarrow> string \<Rightarrow> date \<Rightarrow> int \<Rightarrow> guest_pay_token_issue" where
  "issueGuestPayToken hash plaintext now ttl =
     \<lparr>gt_plaintext = plaintext, gt_hash = hash plaintext, gt_expiresAt = now + ttl\<rparr>"

definition guestPayTokensMatch :: "(string \<Rightarrow> string) \<Rightarrow> string \<Rightarrow> string \<Rightarrow> bool" where
  "guestPayTokensMatch hash storedHash presented =
     (let presentedHash = hash presented in
      if length storedHash \<noteq> length presentedHash then False else storedHash = presentedHash)"

definition assertGuestPayTokenAccess ::
    "(string \<Rightarrow> string) \<Rightarrow> date \<Rightarrow> string option \<Rightarrow> date option \<Rightarrow> string option \<Rightarrow> unit result" where
  "assertGuestPayTokenAccess hash now storedHash expiresAt presented =
     (if \<not> truthy storedHash then Inl (Forbidden ''GUEST_PAY_TOKEN_REQUIRED'')
      else if \<not> truthy presented then Inl (Forbidden ''GUEST_PAY_TOKEN_REQUIRED'')
      else if (case expiresAt of None \<Rightarrow> False | Some e \<Rightarrow> e \<le> now) then Inl (Forbidden ''GUEST_PAY_TOKEN_EXPIRED'')
      else if \<not> guestPayTokensMatch hash (the storedHash) (the presented)
      then Inl (Forbidden ''GUEST_PAY_TOKEN_INVALID'')
      else Inr ())"

section \<open>Lemmas\<close>

lemma fs_ball: "(\<forall>f \<in> F. Q f) \<longleftrightarrow>
    (FS_PENDING \<in> F \<longrightarrow> Q FS_PENDING) \<and> (FS_PROCESSING \<in> F \<longrightarrow> Q FS_PROCESSING) \<and>
    (FS_ON_HOLD \<in> F \<longrightarrow> Q FS_ON_HOLD) \<and> (FS_SHIPPED \<in> F \<longrightarrow> Q FS_SHIPPED) \<and>
    (FS_DELIVERED \<in> F \<longrightarrow> Q FS_DELIVERED) \<and> (FS_CANCELLED \<in> F \<longrightarrow> Q FS_CANCELLED)"
    (is "?l = ?r")
proof
  assume r: ?r
  have "f \<in> F \<longrightarrow> Q f" for f using r by (cases f) simp_all
  then show ?l by blast
qed blast

lemma fs_bex: "(\<exists>f \<in> F. Q f) \<longleftrightarrow>
    (FS_PENDING \<in> F \<and> Q FS_PENDING) \<or> (FS_PROCESSING \<in> F \<and> Q FS_PROCESSING) \<or>
    (FS_ON_HOLD \<in> F \<and> Q FS_ON_HOLD) \<or> (FS_SHIPPED \<in> F \<and> Q FS_SHIPPED) \<or>
    (FS_DELIVERED \<in> F \<and> Q FS_DELIVERED) \<or> (FS_CANCELLED \<in> F \<and> Q FS_CANCELLED)"
  using fs_ball [of F "\<lambda>f. \<not> Q f"] by blast

text \<open>The decision table of the derived status: it depends on which statuses occur only.\<close>

lemma derive_table:
  assumes "current \<notin> terminalOrderStatuses" and "current \<noteq> OS_PENDING_PAYMENT"
  shows "deriveOrderStatusFromFulfillment current fs =
    (let pending = FS_PENDING \<in> set fs; processing = FS_PROCESSING \<in> set fs; held = FS_ON_HOLD \<in> set fs;
         shipped = FS_SHIPPED \<in> set fs; delivered = FS_DELIVERED \<in> set fs
     in if \<not> pending \<and> \<not> processing \<and> \<not> shipped \<and> \<not> delivered
        then (if held then OS_ON_HOLD else OS_PAID)
        else if \<not> pending \<and> \<not> processing then (if shipped then OS_SHIPPED else OS_DELIVERED)
        else if processing \<or> shipped \<or> delivered then OS_PROCESSING else OS_PAID)"
  unfolding deriveOrderStatusFromFulfillment_def Let_def list_all_iff list_ex_iff filter_empty_conv set_filter
  using assms by (simp add: fs_ball fs_bex)

lemma derive_sticky [simp]:
  "deriveOrderStatusFromFulfillment OS_PENDING_PAYMENT fs = OS_PENDING_PAYMENT"
  "deriveOrderStatusFromFulfillment OS_CANCELLED fs = OS_CANCELLED"
  "deriveOrderStatusFromFulfillment OS_REFUNDED fs = OS_REFUNDED"
  by (simp_all add: deriveOrderStatusFromFulfillment_def terminalOrderStatuses_def)

text \<open>Progress of a line and of an order.\<close>

fun fulfillmentRank :: "fulfillment_status \<Rightarrow> nat" where
  "fulfillmentRank FS_PENDING = 0"
| "fulfillmentRank FS_PROCESSING = 1"
| "fulfillmentRank FS_SHIPPED = 2"
| "fulfillmentRank FS_DELIVERED = 3"
| "fulfillmentRank FS_ON_HOLD = 0"
| "fulfillmentRank FS_CANCELLED = 0"

fun orderRank :: "order_status \<Rightarrow> nat" where
  "orderRank OS_PAID = 0"
| "orderRank OS_PROCESSING = 1"
| "orderRank OS_SHIPPED = 2"
| "orderRank OS_DELIVERED = 3"
| "orderRank _ = 0"

text \<open>A line advances: it stays, or moves up the ladder; held and cancelled lines stay.\<close>

definition advances :: "fulfillment_status \<Rightarrow> fulfillment_status \<Rightarrow> bool" where
  "advances f g \<longleftrightarrow> f = g \<or>
     (f \<notin> {FS_ON_HOLD, FS_CANCELLED} \<and> g \<notin> {FS_ON_HOLD, FS_CANCELLED} \<and> fulfillmentRank f \<le> fulfillmentRank g)"

lemma advances_sets:
  assumes "list_all2 advances fs gs"
  shows "(FS_PENDING \<in> set gs \<longrightarrow> FS_PENDING \<in> set fs)"
    and "(FS_PROCESSING \<in> set gs \<longrightarrow> FS_PENDING \<in> set fs \<or> FS_PROCESSING \<in> set fs)"
    and "(FS_SHIPPED \<in> set gs \<longrightarrow> FS_PENDING \<in> set fs \<or> FS_PROCESSING \<in> set fs \<or> FS_SHIPPED \<in> set fs)"
    and "(FS_PROCESSING \<in> set fs \<longrightarrow> FS_PROCESSING \<in> set gs \<or> FS_SHIPPED \<in> set gs \<or> FS_DELIVERED \<in> set gs)"
    and "(FS_SHIPPED \<in> set fs \<longrightarrow> FS_SHIPPED \<in> set gs \<or> FS_DELIVERED \<in> set gs)"
    and "(FS_DELIVERED \<in> set fs \<longrightarrow> FS_DELIVERED \<in> set gs)"
    and "(FS_ON_HOLD \<in> set fs \<longleftrightarrow> FS_ON_HOLD \<in> set gs)"
    and "(FS_PENDING \<in> set fs \<longrightarrow> FS_PENDING \<in> set gs \<or> FS_PROCESSING \<in> set gs \<or> FS_SHIPPED \<in> set gs \<or> FS_DELIVERED \<in> set gs)"
  using assms
proof (induction rule: list_all2_induct)
  case (Cons f fs g gs)
  {
    case 1 then show ?case using Cons by (cases f; cases g) (auto simp: advances_def)
  next
    case 2 then show ?case using Cons by (cases f; cases g) (auto simp: advances_def)
  next
    case 3 then show ?case using Cons by (cases f; cases g) (auto simp: advances_def)
  next
    case 4 then show ?case using Cons by (cases f; cases g) (auto simp: advances_def)
  next
    case 5 then show ?case using Cons by (cases f; cases g) (auto simp: advances_def)
  next
    case 6 then show ?case using Cons by (cases f; cases g) (auto simp: advances_def)
  next
    case 7 then show ?case using Cons by (cases f; cases g) (auto simp: advances_def)
  next
    case 8 then show ?case using Cons by (cases f; cases g) (auto simp: advances_def)
  }
qed simp_all

lemma fs_subset: "F \<subseteq> G \<longleftrightarrow> (\<forall>f \<in> F. f \<in> G)"
  by blast

section \<open>Properties\<close>

text \<open>C20. The derived order status: an order that is cancelled, refunded or not paid keeps its status, whatever its
  lines are; any other order has the status that the fulfillment statuses occurring among its lines decide, and that
  alone: the order of the lines, their number and the old status do not matter.\<close>

theorem derived_status_decided:
  "let d = deriveOrderStatusFromFulfillment current fs; F = set fs in
    if current \<in> {OS_CANCELLED, OS_REFUNDED, OS_PENDING_PAYMENT} then d = current
    else
      (d = OS_DELIVERED \<longleftrightarrow> FS_DELIVERED \<in> F \<and> F \<subseteq> {FS_DELIVERED, FS_ON_HOLD, FS_CANCELLED}) \<and>
      (d = OS_SHIPPED \<longleftrightarrow> FS_SHIPPED \<in> F \<and> F \<subseteq> {FS_SHIPPED, FS_DELIVERED, FS_ON_HOLD, FS_CANCELLED}) \<and>
      (d = OS_PROCESSING \<longleftrightarrow> FS_PROCESSING \<in> F \<or> FS_PENDING \<in> F \<and> (FS_SHIPPED \<in> F \<or> FS_DELIVERED \<in> F)) \<and>
      (d = OS_ON_HOLD \<longleftrightarrow> FS_ON_HOLD \<in> F \<and> F \<subseteq> {FS_ON_HOLD, FS_CANCELLED}) \<and>
      (d = OS_PAID \<longleftrightarrow> F \<subseteq> {FS_CANCELLED} \<or> FS_PENDING \<in> F \<and> F \<subseteq> {FS_PENDING, FS_ON_HOLD, FS_CANCELLED})"
proof (cases "current \<in> {OS_CANCELLED, OS_REFUNDED, OS_PENDING_PAYMENT}")
  case True
  then show ?thesis by (auto simp: deriveOrderStatusFromFulfillment_def terminalOrderStatuses_def Let_def)
next
  case False
  then have "current \<notin> terminalOrderStatuses" "current \<noteq> OS_PENDING_PAYMENT" by (auto simp: terminalOrderStatuses_def)
  with False show ?thesis unfolding derive_table [OF \<open>current \<notin> terminalOrderStatuses\<close> \<open>current \<noteq> OS_PENDING_PAYMENT\<close>] Let_def fs_subset
    by (simp add: fs_ball)
qed

theorem derived_status_decided_witness:
  "deriveOrderStatusFromFulfillment OS_PROCESSING [FS_SHIPPED, FS_ON_HOLD] = OS_SHIPPED \<and>
   deriveOrderStatusFromFulfillment OS_REFUNDED [FS_SHIPPED, FS_ON_HOLD] = OS_REFUNDED"
  using derived_status_decided [of OS_PROCESSING "[FS_SHIPPED, FS_ON_HOLD]"] derived_status_decided [of OS_REFUNDED "[FS_SHIPPED, FS_ON_HOLD]"]
  by (simp add: Let_def)

text \<open>Fulfillment never moves an order back: when lines advance along pending, processing,
  shipped, delivered (held and cancelled lines staying as they are), the derived order status does
  not fall.\<close>

theorem derived_status_monotone:
  assumes "current \<notin> terminalOrderStatuses" and "current \<noteq> OS_PENDING_PAYMENT" and "list_all2 advances fs gs"
  shows "orderRank (deriveOrderStatusFromFulfillment current fs) \<le> orderRank (deriveOrderStatusFromFulfillment current gs)"
  using advances_sets [OF assms(3)] unfolding derive_table [OF assms(1,2)] Let_def by simp blast

theorem derived_status_monotone_witness:
  "orderRank (deriveOrderStatusFromFulfillment OS_PAID [FS_PENDING, FS_ON_HOLD]) \<le>
   orderRank (deriveOrderStatusFromFulfillment OS_PAID [FS_PROCESSING, FS_ON_HOLD])"
  by (rule derived_status_monotone) (simp_all add: terminalOrderStatuses_def advances_def)

text \<open>C0. The SQL filter of the vendor's action queue selects exactly the orders that
  \<open>isVendorOrderActionable\<close> accepts, for every order with a line of the store (the query it
  restricts joins on those).\<close>

theorem action_queue_filter_agrees:
  assumes "storeId \<in> fst ` set (qo_items q)"
  shows "vendorActionQueueFilter q storeId = isVendorOrderActionable q storeId"
proof -
  define F where "F = {f. (storeId, f) \<in> set (qo_items q)}"
  have ne: "\<exists>f. f \<in> F" using assms by (auto simp: F_def)
  have ex: "(\<exists>(st, f) \<in> set (qo_items q). st = storeId \<and> P f) \<longleftrightarrow> (\<exists>f \<in> F. P f)" for P
    by (auto simp: F_def)
  have fs: "set (map snd (filter (\<lambda>(st, _). st = storeId) (qo_items q))) = F"
    by (force simp: F_def)
  define fs where "fs = map snd (filter (\<lambda>(st, _). st = storeId) (qo_items q))"
  have F: "set fs = F" using fs by (simp add: fs_def)
  with ne have nil: "fs \<noteq> []" by auto
  have some: "FS_PENDING \<in> F \<or> FS_PROCESSING \<in> F \<or> FS_ON_HOLD \<in> F \<or> FS_SHIPPED \<in> F \<or> FS_DELIVERED \<in> F \<or> FS_CANCELLED \<in> F"
    using ne by (metis fulfillment_status.exhaust)
  show ?thesis
    unfolding vendorActionQueueFilter_def isVendorOrderActionable_def Let_def ex fs_def [symmetric]
      list_all_iff filter_empty_conv set_filter F
    using nil some by (cases "qo_status q") (simp_all add: fs_ball fs_bex terminalFulfillment_def, auto)
qed

theorem action_queue_filter_agrees_witness:
  "vendorActionQueueFilter \<lparr>qo_status = OS_PAID, qo_paymentMethod = PM_COD, qo_items = [(''s'', FS_PENDING)]\<rparr> ''s'' =
   isVendorOrderActionable \<lparr>qo_status = OS_PAID, qo_paymentMethod = PM_COD, qo_items = [(''s'', FS_PENDING)]\<rparr> ''s''"
  by (rule action_queue_filter_agrees) simp

text \<open>The tab of a status.\<close>

fun tabOf :: "order_status \<Rightarrow> customer_order_filter option" where
  "tabOf OS_PENDING_PAYMENT = Some CF_PENDING_PAYMENT"
| "tabOf OS_DELIVERED = Some CF_DELIVERED"
| "tabOf OS_CANCELLED = Some CF_CANCELLED"
| "tabOf OS_REFUNDED = Some CF_CANCELLED"
| "tabOf OS_ON_HOLD = None"
| "tabOf _ = Some CF_IN_PROGRESS"

lemma in_tab: "f \<noteq> CF_ALL \<and> ord \<in> set (applyCustomerOrderListFilter f [ord]) \<longleftrightarrow> tabOf (o_status ord) = Some f"
  by (cases f; cases "o_status ord") (simp_all add: applyCustomerOrderListFilter_def)

text \<open>C0. The customer's order tabs (every filter but ALL) are disjoint and cover every status except
  \<open>on_hold\<close>: an order on hold appears in no tab, every other order in exactly one.\<close>

theorem order_tabs_cover:
  "(if o_status ord = OS_ON_HOLD
    then \<not> (\<exists>f. f \<noteq> CF_ALL \<and> ord \<in> set (applyCustomerOrderListFilter f [ord]))
    else (\<exists>!f. f \<noteq> CF_ALL \<and> ord \<in> set (applyCustomerOrderListFilter f [ord])))"
  unfolding in_tab by (cases "o_status ord") simp_all

text \<open>A guest pay token works exactly for its holder and only while it lives: the token that was
  issued is accepted until it expires, and any other one is accepted only if it has the same hash.\<close>

theorem guest_token_roundtrip:
  assumes "issueGuestPayToken hash plaintext issued ttl = tok" and "plaintext \<noteq> []" and "hash plaintext \<noteq> []"
  shows "(assertGuestPayTokenAccess hash now (Some (gt_hash tok)) (Some (gt_expiresAt tok)) (Some plaintext) = Inr ()
      \<longleftrightarrow> now < issued + ttl) \<and>
    (\<forall>other. assertGuestPayTokenAccess hash now (Some (gt_hash tok)) (Some (gt_expiresAt tok)) (Some other) = Inr ()
      \<longrightarrow> now < issued + ttl \<and> hash other = hash plaintext)"
  using assms by (auto simp: issueGuestPayToken_def assertGuestPayTokenAccess_def guestPayTokensMatch_def Let_def
      split: if_splits)

theorem guest_token_roundtrip_witness:
  "assertGuestPayTokenAccess (map id) 5 (Some ''ab'') (Some 10) (Some ''ab'') = Inr () \<and>
   assertGuestPayTokenAccess (map id) 5 (Some ''ab'') (Some 10) (Some ''ba'') \<noteq> Inr ()"
  using guest_token_roundtrip [of "map id" "''ab''" 0 10 _ 5] by (auto simp: issueGuestPayToken_def)

end
