(* ===== verification/Inventory.thy ===== *)
theory Inventory
  imports Repository
begin

text \<open>
  \<^verbatim>\<open>src/src/modules/inventory/inventory.service.ts\<close>: the stock an order took is returned when the
  order, or some of its items, are cancelled. A \<open>RETURN\<close> inventory transaction that
  references the order marks a variant as returned.
\<close>

section \<open>Operations\<close>

definition liveVariant :: "db \<Rightarrow> string \<Rightarrow> variant_row option" where
  "liveVariant s i = List.find (\<lambda>v. v_id v = i \<and> v_deletedAt v = None) (dbVariants s)"

definition alreadyRestored :: "db \<Rightarrow> string \<Rightarrow> string \<Rightarrow> bool" where
  "alreadyRestored s orderId variantId \<longleftrightarrow>
     (\<exists>t \<in> set (dbInventoryTxs s). it_referenceId t = Some orderId \<and> it_referenceType t = Some ''order'' \<and>
        it_variantId t = variantId \<and> it_type t = IT_RETURN)"

text \<open>\<open>manager.update(ProductVariant, id, { stockQuantity })\<close>\<close>

definition setStock :: "env \<Rightarrow> string \<Rightarrow> int \<Rightarrow> db \<Rightarrow> db" where
  "setStock env i q s = s\<lparr>dbVariants := map (\<lambda>v. if v_id v = i
     then v\<lparr>v_stockQuantity := q, v_updatedAt := envNow env\<rparr> else v) (dbVariants s)\<rparr>"

definition recordTx ::
    "env \<Rightarrow> string \<Rightarrow> inventory_tx_type \<Rightarrow> int \<Rightarrow> int \<Rightarrow> string \<Rightarrow> string option \<Rightarrow> (db, unit) op" where
  "recordTx env variantId t change after orderId remark =
     seqM (freshId env) (\<lambda>i. modM (\<lambda>s. s\<lparr>dbInventoryTxs := dbInventoryTxs s @
       [\<lparr>it_id = i, it_variantId = variantId, it_type = t, it_quantityChange = change,
         it_quantityAfter = after, it_referenceId = Some orderId, it_referenceType = Some ''order'',
         it_notes = remark, it_performedBy = None, it_createdAt = envNow env\<rparr>]\<rparr>))"

text \<open>One turn of the loop of \<open>restoreStockForItems\<close>; the result is \<open>restoredAny\<close>. The query for the lines has no
  \<open>ORDER BY\<close>: they are taken in insertion order, the order PostgreSQL returns rows in that were never updated.\<close>

definition restoreOne :: "env \<Rightarrow> string \<Rightarrow> string \<Rightarrow> item_row \<Rightarrow> (db, bool) op" where
  "restoreOne env orderId remark item =
     seqM (getM (\<lambda>s. alreadyRestored s orderId (oi_variantId item))) (\<lambda>restored.
       if restored then retM False
       else seqM (getM (\<lambda>s. liveVariant s (oi_variantId item))) (\<lambda>found.
         case found of
           None \<Rightarrow> retM False
         | Some v \<Rightarrow>
             (let newStock = v_stockQuantity v + oi_quantity item in
              seqM (modM (setStock env (v_id v) newStock)) (\<lambda>_.
              seqM (recordTx env (v_id v) IT_RETURN (oi_quantity item) newStock orderId (Some remark)) (\<lambda>_.
                retM True)))))"

definition restoreStockForItems :: "env \<Rightarrow> string \<Rightarrow> item_row list \<Rightarrow> string \<Rightarrow> (db, bool) op" where
  "restoreStockForItems env orderId items remark =
     (if items = [] then retM False
      else seqM (forM (restoreOne env orderId remark) items) (\<lambda>bs. retM (True \<in> set bs)))"

definition restoreOrderStock :: "env \<Rightarrow> string \<Rightarrow> string option \<Rightarrow> (db, bool) op" where
  "restoreOrderStock env orderId remark =
     seqM (getM (\<lambda>s. filter (\<lambda>i. oi_orderId i = orderId) (dbItems s))) (\<lambda>items.
       restoreStockForItems env orderId items (nullish remark ''Order stock restored''))"

definition restoreItemStock :: "env \<Rightarrow> string \<Rightarrow> string list \<Rightarrow> string option \<Rightarrow> (db, bool) op" where
  "restoreItemStock env orderId itemIds remark =
     (if itemIds = [] then retM False
      else seqM (getM (\<lambda>s. filter (\<lambda>i. oi_orderId i = orderId \<and> oi_id i \<in> set itemIds) (dbItems s))) (\<lambda>items.
        restoreStockForItems env orderId items (nullish remark ''Order item stock restored'')))"

section \<open>Lemmas\<close>

definition stockOf :: "db \<Rightarrow> string \<Rightarrow> int option" where
  "stockOf s i = map_option v_stockQuantity (liveVariant s i)"

lemma liveVariant_Some: "liveVariant s i = Some v \<Longrightarrow> v_id v = i"
  using find_Some_in [of "\<lambda>v. v_id v = i \<and> v_deletedAt v = None" "dbVariants s" v]
  by (auto simp: liveVariant_def)

lemma stockOf_setStock:
  "stockOf (setStock env i q s) j = (if j = i then map_option (\<lambda>_. q) (stockOf s j) else stockOf s j)"
proof -
  have "map_option v_stockQuantity (List.find (\<lambda>v. v_id v = j \<and> v_deletedAt v = None)
      (map (\<lambda>v. if v_id v = i then v\<lparr>v_stockQuantity := q, v_updatedAt := envNow env\<rparr> else v) vs)) =
    (if j = i then map_option (\<lambda>_. q) (List.find (\<lambda>v. v_id v = j \<and> v_deletedAt v = None) vs)
     else map_option v_stockQuantity (List.find (\<lambda>v. v_id v = j \<and> v_deletedAt v = None) vs))" for vs
    by (induction vs) auto
  from this [of "dbVariants s"] show ?thesis
    by (cases "j = i") (simp_all add: stockOf_def liveVariant_def setStock_def option.map_comp comp_def)
qed

text \<open>The amount a list of items returns to a variant: the quantity of its first line.\<close>

definition returnedBy :: "item_row list \<Rightarrow> string \<Rightarrow> int" where
  "returnedBy items v = (case List.find (\<lambda>i. oi_variantId i = v) items of None \<Rightarrow> 0 | Some i \<Rightarrow> oi_quantity i)"

definition restorable :: "db \<Rightarrow> string \<Rightarrow> string \<Rightarrow> bool" where
  "restorable s orderId v \<longleftrightarrow> \<not> alreadyRestored s orderId v \<and> stockOf s v \<noteq> None"

text \<open>
  The effect of restoring a list of items: each restorable variant grows by the quantity of its
  first line and is marked; everything else stays.
\<close>

definition restoredTo :: "string \<Rightarrow> item_row list \<Rightarrow> bool list \<Rightarrow> db \<Rightarrow> db \<Rightarrow> bool" where
  "restoredTo orderId items bs s t \<longleftrightarrow>
     (\<forall>v. stockOf t v = (if restorable s orderId v then map_option (\<lambda>q. q + returnedBy items v) (stockOf s v)
                        else stockOf s v)) \<and>
     (\<forall>ord v. alreadyRestored t ord v \<longleftrightarrow> alreadyRestored s ord v \<or>
        ord = orderId \<and> v \<in> oi_variantId ` set items \<and> stockOf s v \<noteq> None) \<and>
     (True \<in> set bs \<longleftrightarrow> (\<exists>i \<in> set items. restorable s orderId (oi_variantId i))) \<and>
     (True \<notin> set bs \<longrightarrow> t = s) \<and>
     dbItems t = dbItems s \<and> dbOrders t = dbOrders s"

lemma restoredTo_nil: "restoredTo orderId [] [] s s"
  by (simp add: restoredTo_def returnedBy_def option.map_ident)

lemma restoredTo_cons:
  assumes "restoredTo orderId [i] [b] s s1" and "restoredTo orderId items bs s1 t"
  shows "restoredTo orderId (i # items) (b # bs) s t"
proof -
  have s1: "stockOf s1 v = (if restorable s orderId v then map_option (\<lambda>q. q + returnedBy [i] v) (stockOf s v)
                        else stockOf s v)"
    and r1: "alreadyRestored s1 ord v \<longleftrightarrow> alreadyRestored s ord v \<or> ord = orderId \<and> v = oi_variantId i \<and> stockOf s v \<noteq> None"
    for ord v using assms(1) by (simp_all add: restoredTo_def)
  have b: "b \<longleftrightarrow> restorable s orderId (oi_variantId i)" "\<not> b \<longrightarrow> s1 = s"
    using assms(1) by (auto simp: restoredTo_def)
  have none: "stockOf s1 v = None \<longleftrightarrow> stockOf s v = None" for v by (simp add: s1)
  have rest: "restorable s1 orderId v \<longleftrightarrow> restorable s orderId v \<and> v \<noteq> oi_variantId i" for v
    by (auto simp: restorable_def r1 none)
  show ?thesis
    unfolding restoredTo_def
  proof (intro conjI allI)
    fix v
    show "stockOf t v = (if restorable s orderId v then map_option (\<lambda>q. q + returnedBy (i # items) v) (stockOf s v)
                        else stockOf s v)"
      using assms(2) s1 [of v] rest [of v]
      by (cases "v = oi_variantId i") (auto simp: restoredTo_def returnedBy_def option.map_comp comp_def option.map_ident)
  next
    fix ord v
    show "alreadyRestored t ord v \<longleftrightarrow> alreadyRestored s ord v \<or>
        ord = orderId \<and> v \<in> oi_variantId ` set (i # items) \<and> stockOf s v \<noteq> None"
      using assms(2) r1 [of ord v] none [of v] by (auto simp: restoredTo_def)
  next
    show "True \<in> set (b # bs) \<longleftrightarrow> (\<exists>i \<in> set (i # items). restorable s orderId (oi_variantId i))"
      using assms(2) b rest by (auto simp: restoredTo_def)
  next
    show "True \<notin> set (b # bs) \<longrightarrow> t = s" using assms(2) b(2) by (auto simp: restoredTo_def)
  qed (use assms in \<open>simp_all add: restoredTo_def\<close>)
qed

text \<open>What is written besides: one return per restorable variant in the ledger, and no other table.\<close>

definition unstocked :: "variant_row \<Rightarrow> variant_row" where
  "unstocked v = v\<lparr>v_stockQuantity := 0, v_updatedAt := 0\<rparr>"

definition bookedReturns :: "string \<Rightarrow> item_row list \<Rightarrow> db \<Rightarrow> db \<Rightarrow> bool" where
  "bookedReturns orderId items s t \<longleftrightarrow>
     (\<exists>txs. dbInventoryTxs t = dbInventoryTxs s @ txs \<and> distinct (map it_variantId txs) \<and>
        it_variantId ` set txs = {v \<in> oi_variantId ` set items. restorable s orderId v} \<and>
        (\<forall>x \<in> set txs. it_type x = IT_RETURN \<and> it_referenceType x = Some ''order'' \<and> it_referenceId x = Some orderId \<and>
           it_quantityChange x = returnedBy items (it_variantId x) \<and> stockOf t (it_variantId x) = Some (it_quantityAfter x))) \<and>
     map unstocked (dbVariants t) = map unstocked (dbVariants s) \<and>
     t = s\<lparr>idCount := idCount t, dbVariants := dbVariants t, dbInventoryTxs := dbInventoryTxs t\<rparr>"

lemma bookedReturns_nil: "bookedReturns orderId [] s s"
  by (simp add: bookedReturns_def)

lemma restorable_after:
  assumes "restoredTo orderId [i] [b] s s1"
  shows "restorable s1 orderId v \<longleftrightarrow> restorable s orderId v \<and> v \<noteq> oi_variantId i"
proof -
  have "stockOf s1 v = None \<longleftrightarrow> stockOf s v = None" using assms by (auto simp: restoredTo_def)
  then show ?thesis using assms by (auto simp: restoredTo_def restorable_def)
qed

lemma bookedReturns_cons:
  assumes "restoredTo orderId [i] [b] s s1" and "restoredTo orderId items bs s1 t"
    and "bookedReturns orderId [i] s s1" and "bookedReturns orderId items s1 t"
  shows "bookedReturns orderId (i # items) s t"
proof -
  obtain one where one: "dbInventoryTxs s1 = dbInventoryTxs s @ one" "distinct (map it_variantId one)"
      "it_variantId ` set one = {v \<in> oi_variantId ` set [i]. restorable s orderId v}"
      "\<forall>x \<in> set one. it_type x = IT_RETURN \<and> it_referenceType x = Some ''order'' \<and> it_referenceId x = Some orderId \<and>
         it_quantityChange x = returnedBy [i] (it_variantId x) \<and> stockOf s1 (it_variantId x) = Some (it_quantityAfter x)"
    using assms(3) unfolding bookedReturns_def by blast
  obtain more where more: "dbInventoryTxs t = dbInventoryTxs s1 @ more" "distinct (map it_variantId more)"
      "it_variantId ` set more = {v \<in> oi_variantId ` set items. restorable s1 orderId v}"
      "\<forall>x \<in> set more. it_type x = IT_RETURN \<and> it_referenceType x = Some ''order'' \<and> it_referenceId x = Some orderId \<and>
         it_quantityChange x = returnedBy items (it_variantId x) \<and> stockOf t (it_variantId x) = Some (it_quantityAfter x)"
    using assms(4) unfolding bookedReturns_def by blast
  note after = restorable_after [OF assms(1)]
  have first: "it_variantId x = oi_variantId i" if "x \<in> set one" for x using one(3) that by auto
  have other: "it_variantId x \<noteq> oi_variantId i" if "x \<in> set more" for x using more(3) that after by auto
  have "stockOf t (oi_variantId i) = stockOf s1 (oi_variantId i)"
    using assms(2) after by (simp add: restoredTo_def)
  then have "\<forall>x \<in> set (one @ more). it_type x = IT_RETURN \<and> it_referenceType x = Some ''order'' \<and> it_referenceId x = Some orderId \<and>
      it_quantityChange x = returnedBy (i # items) (it_variantId x) \<and> stockOf t (it_variantId x) = Some (it_quantityAfter x)"
    using one(4) more(4) first other by (fastforce simp: returnedBy_def)
  moreover have "it_variantId ` set (one @ more) = {v \<in> oi_variantId ` set (i # items). restorable s orderId v}"
    unfolding set_append image_Un one(3) more(3) by (auto simp: after)
  moreover have "distinct (map it_variantId (one @ more))" using one(2) more(2) first other by (fastforce simp: image_iff)
  moreover have "dbInventoryTxs t = dbInventoryTxs s @ (one @ more)" using one(1) more(1) by simp
  moreover have "map unstocked (dbVariants t) = map unstocked (dbVariants s)" using assms(3,4) by (simp add: bookedReturns_def)
  moreover have "t = s\<lparr>idCount := idCount t, dbVariants := dbVariants t, dbInventoryTxs := dbInventoryTxs t\<rparr>"
  proof -
    have "s1 = s\<lparr>idCount := idCount s1, dbVariants := dbVariants s1, dbInventoryTxs := dbInventoryTxs s1\<rparr>"
      "t = s1\<lparr>idCount := idCount t, dbVariants := dbVariants t, dbInventoryTxs := dbInventoryTxs t\<rparr>"
      using assms(3,4) unfolding bookedReturns_def by blast+
    then show ?thesis by (cases s1, cases s, cases t) simp
  qed
  ultimately show ?thesis unfolding bookedReturns_def by blast
qed

lemma restoreOne_spec: "\<exists>b t. restoreOne env orderId remark i s = (Inr b, t) \<and> restoredTo orderId [i] [b] s t \<and> bookedReturns orderId [i] s t"
proof (cases "restorable s orderId (oi_variantId i)")
  case False
  then have "restoreOne env orderId remark i s = (Inr False, s)"
    by (auto simp: restoreOne_def restorable_def stockOf_def)
  moreover have "restoredTo orderId [i] [False] s s"
    using False by (auto simp: restoredTo_def returnedBy_def restorable_def option.map_ident)
  moreover have "bookedReturns orderId [i] s s" using False by (simp add: bookedReturns_def)
  ultimately show ?thesis by blast
next
  case True
  then obtain v where v: "liveVariant s (oi_variantId i) = Some v" and na: "\<not> alreadyRestored s orderId (oi_variantId i)"
    by (auto simp: restorable_def stockOf_def)
  define q where "q = v_stockQuantity v + oi_quantity i"
  define t where "t = snd (restoreOne env orderId remark i s)"
  have id: "v_id v = oi_variantId i" using liveVariant_Some [OF v] .
  have r: "restoreOne env orderId remark i s = (Inr True, t)"
    using na v by (simp add: t_def restoreOne_def recordTx_def Let_def)
  have txs: "dbInventoryTxs t = dbInventoryTxs s @ [\<lparr>it_id = envUuid env (idCount s), it_variantId = v_id v,
      it_type = IT_RETURN, it_quantityChange = oi_quantity i, it_quantityAfter = q,
      it_referenceId = Some orderId, it_referenceType = Some ''order'', it_notes = Some remark,
      it_performedBy = None, it_createdAt = envNow env\<rparr>]"
    and vars: "dbVariants t = dbVariants (setStock env (v_id v) q s)"
    and rest: "dbItems t = dbItems s" "dbOrders t = dbOrders s"
    using na v by (simp_all add: t_def q_def restoreOne_def recordTx_def Let_def setStock_def)
  have "stockOf t j = stockOf (setStock env (v_id v) q s) j" for j
    by (simp add: stockOf_def liveVariant_def vars)
  moreover have cur: "stockOf s (oi_variantId i) = Some (v_stockQuantity v)" using v by (simp add: stockOf_def)
  ultimately have stock: "stockOf t j = (if j = oi_variantId i then Some q else stockOf s j)" for j
    by (simp add: stockOf_setStock id)
  have marked: "alreadyRestored t ord j \<longleftrightarrow> alreadyRestored s ord j \<or> ord = orderId \<and> j = oi_variantId i" for ord j
    by (auto simp: alreadyRestored_def txs id)
  have "restoredTo orderId [i] [True] s t"
    unfolding restoredTo_def using True rest
    by (auto simp: stock marked cur returnedBy_def q_def option.map_ident)
  moreover have "bookedReturns orderId [i] s t"
  proof -
    have "map unstocked (dbVariants t) = map unstocked (dbVariants s)" by (simp add: vars setStock_def unstocked_def)
    moreover have "t = s\<lparr>idCount := idCount t, dbVariants := dbVariants t, dbInventoryTxs := dbInventoryTxs t\<rparr>"
      using na v by (simp add: t_def restoreOne_def recordTx_def Let_def setStock_def)
    ultimately show ?thesis
      unfolding bookedReturns_def using True txs id stock by (auto simp: returnedBy_def)
  qed
  ultimately show ?thesis using r by blast
qed

lemma restore_loop:
  "\<exists>bs t. forM (restoreOne env orderId remark) items s = (Inr bs, t) \<and> restoredTo orderId items bs s t \<and> bookedReturns orderId items s t"
proof (induction items arbitrary: s)
  case Nil
  then show ?case using restoredTo_nil bookedReturns_nil by auto
next
  case (Cons i items)
  from restoreOne_spec [of env orderId remark i s] obtain b s1
    where 1: "restoreOne env orderId remark i s = (Inr b, s1)" "restoredTo orderId [i] [b] s s1" "bookedReturns orderId [i] s s1" by blast
  from Cons.IH [of s1] obtain bs t
    where 2: "forM (restoreOne env orderId remark) items s1 = (Inr bs, t)" "restoredTo orderId items bs s1 t" "bookedReturns orderId items s1 t" by blast
  from restoredTo_cons [OF 1(2) 2(2)] bookedReturns_cons [OF 1(2) 2(2) 1(3) 2(3)] 1(1) 2(1) show ?case by auto
qed

definition orderItems :: "db \<Rightarrow> string \<Rightarrow> item_row list" where
  "orderItems s orderId = filter (\<lambda>i. oi_orderId i = orderId) (dbItems s)"

lemma restoreOrderStock_spec:
  "\<exists>b bs t. restoreOrderStock env orderId remark s = (Inr b, t) \<and> b = (True \<in> set bs) \<and>
     restoredTo orderId (orderItems s orderId) bs s t \<and> bookedReturns orderId (orderItems s orderId) s t"
proof (cases "orderItems s orderId = []")
  case True
  then show ?thesis
    using restoredTo_nil [of orderId s] bookedReturns_nil [of orderId s]
    by (intro exI [of _ False] exI [of _ "[]"] exI [of _ s])
      (simp add: restoreOrderStock_def restoreStockForItems_def orderItems_def)
next
  case False
  from restore_loop [of env orderId "nullish remark ''Order stock restored''" "orderItems s orderId" s] obtain bs t
    where "forM (restoreOne env orderId (nullish remark ''Order stock restored'')) (orderItems s orderId) s = (Inr bs, t)"
      "restoredTo orderId (orderItems s orderId) bs s t" "bookedReturns orderId (orderItems s orderId) s t" by blast
  with False show ?thesis
    by (auto simp: restoreOrderStock_def restoreStockForItems_def orderItems_def)
qed

section \<open>Properties\<close>

text \<open>C12. Restoring the stock of an order never fails. Each variant of the order that exists and has no return
  booked for the order yet grows by the quantity of the first line with that variant, and the ledger gets one return of
  that quantity with the stock it leads to; every other variant keeps its stock. Nothing else is written: no other
  column of a variant than stock and time stamp, and no other table.\<close>

theorem restore_order_stock_effect:
  "\<exists>b t txs. restoreOrderStock env orderId remark s = (Inr b, t) \<and>
     (\<forall>v. stockOf t v = (if restorable s orderId v
        then map_option (\<lambda>q. q + returnedBy (orderItems s orderId) v) (stockOf s v) else stockOf s v)) \<and>
     (b \<longleftrightarrow> (\<exists>i \<in> set (orderItems s orderId). restorable s orderId (oi_variantId i))) \<and>
     dbInventoryTxs t = dbInventoryTxs s @ txs \<and> distinct (map it_variantId txs) \<and>
     it_variantId ` set txs = {v \<in> oi_variantId ` set (orderItems s orderId). restorable s orderId v} \<and>
     list_all (\<lambda>x. it_type x = IT_RETURN \<and> it_referenceType x = Some ''order'' \<and> it_referenceId x = Some orderId \<and>
        it_quantityChange x = returnedBy (orderItems s orderId) (it_variantId x) \<and>
        stockOf t (it_variantId x) = Some (it_quantityAfter x)) txs \<and>
     map unstocked (dbVariants t) = map unstocked (dbVariants s) \<and>
     t = s\<lparr>idCount := idCount t, dbVariants := dbVariants t, dbInventoryTxs := dbInventoryTxs t\<rparr>"
proof -
  from restoreOrderStock_spec [of env orderId remark s] obtain b bs t where
    r: "restoreOrderStock env orderId remark s = (Inr b, t)" "b = (True \<in> set bs)"
      "restoredTo orderId (orderItems s orderId) bs s t" "bookedReturns orderId (orderItems s orderId) s t" by blast
  from r(4) obtain txs where "dbInventoryTxs t = dbInventoryTxs s @ txs" "distinct (map it_variantId txs)"
      "it_variantId ` set txs = {v \<in> oi_variantId ` set (orderItems s orderId). restorable s orderId v}"
      "\<forall>x \<in> set txs. it_type x = IT_RETURN \<and> it_referenceType x = Some ''order'' \<and> it_referenceId x = Some orderId \<and>
         it_quantityChange x = returnedBy (orderItems s orderId) (it_variantId x) \<and> stockOf t (it_variantId x) = Some (it_quantityAfter x)"
    unfolding bookedReturns_def by blast
  with r show ?thesis
    by (intro exI [of _ b] exI [of _ t] exI [of _ txs]) (simp add: restoredTo_def list_all_iff bookedReturns_def)
qed

text \<open>Restoring is idempotent: a second restore of the same order, however often cancellation
  paths race to it, changes nothing and says so.\<close>

theorem restore_order_stock_idempotent:
  assumes "restoreOrderStock env orderId remark s = (r, t)"
  shows "restoreOrderStock env' orderId remark' t = (Inr False, t)"
proof -
  from restoreOrderStock_spec [of env orderId remark s] assms obtain bs where
    t: "restoredTo orderId (orderItems s orderId) bs s t" by auto
  have items: "orderItems t orderId = orderItems s orderId" using t by (simp add: restoredTo_def orderItems_def)
  have "\<not> restorable t orderId (oi_variantId i)" if "i \<in> set (orderItems t orderId)" for i
    using t that unfolding restoredTo_def restorable_def items by auto
  moreover from restoreOrderStock_spec [of env' orderId remark' t] obtain b bs' u where
    "restoreOrderStock env' orderId remark' t = (Inr b, u)" "b = (True \<in> set bs')"
    "restoredTo orderId (orderItems t orderId) bs' t u" by blast
  ultimately show ?thesis unfolding restoredTo_def by auto
qed

definition sampleVariant :: variant_row where
  "sampleVariant = \<lparr>v_id = ''v'', v_productId = ''p'', v_sku = ''s'', v_options = [], v_priceAdjustment = 0,
     v_compareAtPrice = None, v_stockQuantity = 5, v_lowStockThreshold = None, v_imageUrl = None,
     v_weight = None, v_createdAt = 0, v_updatedAt = 0, v_deletedAt = None, v_retiredAt = None\<rparr>"

definition sampleItem :: "string \<Rightarrow> int \<Rightarrow> item_row" where
  "sampleItem i q = \<lparr>oi_id = i, oi_orderId = ''o'', oi_storeId = ''s'', oi_variantId = ''v'', oi_productName = ''n'',
     oi_variantOptions = [], oi_unitPrice = 10, oi_catalogUnitPrice = None, oi_saleCampaignId = None,
     oi_saleDiscountPercent = None, oi_quantity = q, oi_subtotal = 10 * of_int q, oi_fulfillmentStatus = FS_PENDING,
     oi_previousFulfillmentStatus = None, oi_holdStartedAt = None, oi_trackingNumber = None,
     oi_fulfillmentProvider = None, oi_trackingUrl = None, oi_shippedAt = None, oi_deliveredAt = None,
     oi_createdAt = 0, oi_updatedAt = 0\<rparr>"

definition sampleStock :: db where
  "sampleStock = empty_db\<lparr>dbVariants := [sampleVariant], dbItems := [sampleItem ''i1'' 2, sampleItem ''i2'' 3]\<rparr>"

definition sampleClock :: env where
  "sampleClock = \<lparr>envNow = 0, envUuid = show_nat, envMailFails = (\<lambda>_. False)\<rparr>"

lemma sampleStock_facts:
  "orderItems sampleStock ''o'' = [sampleItem ''i1'' 2, sampleItem ''i2'' 3]"
  "restorable sampleStock ''o'' ''v''"
  "stockOf sampleStock ''v'' = Some 5"
  by (simp_all add: orderItems_def sampleStock_def sampleItem_def restorable_def alreadyRestored_def stockOf_def
      liveVariant_def sampleVariant_def empty_db_def)

theorem restore_order_stock_effect_witness:
  "\<exists>t. restoreOrderStock sampleClock ''o'' None sampleStock = (Inr True, t) \<and> stockOf t ''v'' = Some 7 \<and>
     map it_quantityChange (dbInventoryTxs t) = [2] \<and> dbItems t = dbItems sampleStock"
proof -
  obtain b t txs where r: "restoreOrderStock sampleClock ''o'' None sampleStock = (Inr b, t)"
    and stock: "\<forall>v. stockOf t v = (if restorable sampleStock ''o'' v
        then map_option (\<lambda>q. q + returnedBy (orderItems sampleStock ''o'') v) (stockOf sampleStock v) else stockOf sampleStock v)"
    and b: "b \<longleftrightarrow> (\<exists>i \<in> set (orderItems sampleStock ''o''). restorable sampleStock ''o'' (oi_variantId i))"
    and txs: "dbInventoryTxs t = dbInventoryTxs sampleStock @ txs" "distinct (map it_variantId txs)"
      "it_variantId ` set txs = {v \<in> oi_variantId ` set (orderItems sampleStock ''o''). restorable sampleStock ''o'' v}"
      "list_all (\<lambda>x. it_type x = IT_RETURN \<and> it_referenceType x = Some ''order'' \<and> it_referenceId x = Some ''o'' \<and>
        it_quantityChange x = returnedBy (orderItems sampleStock ''o'') (it_variantId x) \<and>
        stockOf t (it_variantId x) = Some (it_quantityAfter x)) txs"
    and rest: "t = sampleStock\<lparr>idCount := idCount t, dbVariants := dbVariants t, dbInventoryTxs := dbInventoryTxs t\<rparr>"
    using restore_order_stock_effect [of sampleClock "''o''" None sampleStock] by blast
  have back_two: "returnedBy (orderItems sampleStock ''o'') ''v'' = 2" by (simp add: sampleStock_facts returnedBy_def sampleItem_def)
  have "it_variantId ` set txs = {''v''}" unfolding txs(3) using sampleStock_facts by (auto simp: sampleItem_def)
  then obtain x where "txs = [x]" "it_variantId x = ''v''" using txs(2) by (cases txs; cases "tl txs") auto
  then have "map it_quantityChange txs = [2]" using txs(4) back_two by simp
  moreover have "dbInventoryTxs sampleStock = []" by (simp add: sampleStock_def empty_db_def)
  moreover have "dbItems t = dbItems sampleStock" by (subst rest) simp
  moreover have b "stockOf t ''v'' = Some 7"
    using b stock back_two sampleStock_facts by (auto simp: sampleItem_def)
  ultimately show ?thesis using r txs(1) by simp
qed

theorem restore_order_stock_idempotent_witness:
  "restoreOrderStock sampleClock ''o'' None (snd (restoreOrderStock sampleClock ''o'' None sampleStock)) =
     (Inr False, snd (restoreOrderStock sampleClock ''o'' None sampleStock))"
  using restore_order_stock_idempotent [of sampleClock "''o''" None sampleStock] by (metis surj_pair snd_conv)

text \<open>The mark is per order and variant, not per line: of two lines of an order with the same
  variant only the first one's quantity comes back, and the second stays deducted for good.\<close>

theorem second_line_not_restored:
  assumes "orderItems s orderId = [i, j]" and "oi_variantId i = v" and "oi_variantId j = v"
    and "restorable s orderId v" and "stockOf s v = Some q"
  shows "\<exists>t. restoreOrderStock env orderId remark s = (Inr True, t) \<and> stockOf t v = Some (q + oi_quantity i)"
proof -
  from restoreOrderStock_spec [of env orderId remark s] obtain b bs t where
    r: "restoreOrderStock env orderId remark s = (Inr b, t)" "b = (True \<in> set bs)"
      "restoredTo orderId (orderItems s orderId) bs s t" by blast
  then have "stockOf t v = Some (q + oi_quantity i)" and "True \<in> set bs"
    using assms by (simp_all add: restoredTo_def returnedBy_def)
  with r(1,2) show ?thesis by auto
qed

theorem second_line_not_restored_witness:
  "\<exists>t. restoreOrderStock sampleClock ''o'' None sampleStock = (Inr True, t) \<and> stockOf t ''v'' = Some 7"
  using second_line_not_restored [OF sampleStock_facts(1) _ _ sampleStock_facts(2,3), of sampleClock None]
  by (simp add: sampleItem_def)

end
