(* ===== verification/Order_Store.thy ===== *)
theory Order_Store
  imports Order_Util Inventory
begin

text \<open>
  What the order services share: loading an order with its lines, saving rows (a save that changes
  nothing issues no \<open>UPDATE\<close>, any other one sets \<open>updated_at\<close>), the status history, and
  \<open>append\<close> of \<^verbatim>\<open>src/src/modules/order-audit-logs/order-audit-logs.service.ts\<close>. The Thai
  fallback labels of the audit log are given by their UTF-8 bytes.
\<close>

section \<open>Loading\<close>

type_synonym order_view = "order_row \<times> item_row list"

definition findOrder :: "db \<Rightarrow> string \<Rightarrow> order_row option" where
  "findOrder s orderId = byKey o_id orderId (dbOrders s)"

definition loadOrderWithItems :: "string \<Rightarrow> (db, order_view) op" where
  "loadOrderWithItems orderId = seqM (getM (\<lambda>s. (findOrder s orderId, orderItems s orderId))) (\<lambda>(found, items).
     case found of None \<Rightarrow> raiseM (NotFound ''ORDER_NOT_FOUND'') | Some ord \<Rightarrow> retM (ord, items))"

section \<open>Saving\<close>

definition stampOrder :: "env \<Rightarrow> db \<Rightarrow> order_row \<Rightarrow> order_row" where
  "stampOrder env s ord = (if findOrder s (o_id ord) = Some ord then ord else ord\<lparr>o_updatedAt := envNow env\<rparr>)"

definition saveOrder :: "env \<Rightarrow> order_row \<Rightarrow> (db, unit) op" where
  "saveOrder env ord = modM (\<lambda>s. s\<lparr>dbOrders := saveRow o_id (stampOrder env s ord) (dbOrders s)\<rparr>)"

definition stampItem :: "env \<Rightarrow> db \<Rightarrow> item_row \<Rightarrow> item_row" where
  "stampItem env s i = (if byKey oi_id (oi_id i) (dbItems s) = Some i then i else i\<lparr>oi_updatedAt := envNow env\<rparr>)"

definition saveItems :: "env \<Rightarrow> item_row list \<Rightarrow> (db, unit) op" where
  "saveItems env items = modM (\<lambda>s. s\<lparr>dbItems := saveRows oi_id (map (stampItem env s) items) (dbItems s)\<rparr>)"

definition addHistory ::
    "env \<Rightarrow> string \<Rightarrow> order_status \<Rightarrow> string option \<Rightarrow> string \<Rightarrow> (db, unit) op" where
  "addHistory env orderId status changedBy remark =
     seqM (freshId env) (\<lambda>i. modM (\<lambda>s. s\<lparr>dbHistory := dbHistory s @
       [\<lparr>h_id = i, h_orderId = orderId, h_status = status, h_changedBy = changedBy, h_notes = Some remark,
         h_createdAt = envNow env\<rparr>]\<rparr>))"

section \<open>Audit log\<close>

definition FALLBACK_CUSTOMER_ACTOR_LABEL :: string where
  "FALLBACK_CUSTOMER_ACTOR_LABEL = map (\<lambda>n. char_of (n :: nat))
     [224, 184, 165, 224, 184, 185, 224, 184, 129, 224, 184, 132, 224, 185, 137, 224, 184, 178]"

definition FALLBACK_VENDOR_ACTOR_LABEL :: string where
  "FALLBACK_VENDOR_ACTOR_LABEL = map (\<lambda>n. char_of (n :: nat))
     [224, 184, 163, 224, 185, 137, 224, 184, 178, 224, 184, 153, 224, 184, 132, 224, 185, 137, 224, 184, 178]"

text \<open>\<open>append\<close>: the event types of the enum are all known, so the first guard never fires.\<close>

definition appendAudit ::
    "env \<Rightarrow> string \<Rightarrow> audit_event \<Rightarrow> audit_actor \<Rightarrow> string option \<Rightarrow> string option \<Rightarrow> string option \<Rightarrow> json
       \<Rightarrow> (db, unit) op" where
  "appendAudit env orderId event actor actorId actorLabel storeId details =
     seqM (failIf (event = AE_ORDER_ACCEPTED \<and> \<not> truthy storeId) (BadRequest ''INVALID_AUDIT_EVENT'')) (\<lambda>_.
     seqM (freshId env) (\<lambda>i. modM (\<lambda>s. s\<lparr>dbAudits := dbAudits s @
       [\<lparr>al_id = i, al_orderId = orderId, al_eventType = event, al_occurredAt = envNow env, al_actorType = actor,
         al_actorId = actorId, al_actorLabel = actorLabel,
         al_storeId = (if event = AE_ORDER_ACCEPTED then storeId else None),
         al_details = details, al_createdAt = envNow env\<rparr>]\<rparr>)))"

definition resolveCustomerActorLabel :: "db \<Rightarrow> string option \<Rightarrow> string option \<Rightarrow> string" where
  "resolveCustomerActorLabel s customerId guestName =
     (if js_trim (nullish guestName []) \<noteq> [] then js_trim (the guestName)
      else if truthy customerId then
        (case List.find (\<lambda>c. c_id c = the customerId \<and> c_deletedAt c = None) (dbCustomers s) of
           None \<Rightarrow> FALLBACK_CUSTOMER_ACTOR_LABEL
         | Some c \<Rightarrow> if js_trim (nullish (c_fullName c) []) \<noteq> [] then js_trim (the (c_fullName c))
                     else FALLBACK_CUSTOMER_ACTOR_LABEL)
      else FALLBACK_CUSTOMER_ACTOR_LABEL)"

section \<open>Lemmas\<close>

lemma stamp_simps [simp]:
  "o_id (stampOrder env s ord) = o_id ord"
  "o_status (stampOrder env s ord) = o_status ord"
  "o_paidAt (stampOrder env s ord) = o_paidAt ord"
  "o_previousStatus (stampOrder env s ord) = o_previousStatus ord"
  "o_total (stampOrder env s ord) = o_total ord"
  "o_customerId (stampOrder env s ord) = o_customerId ord"
  "oi_id (stampItem env s i) = oi_id i"
  "oi_orderId (stampItem env s i) = oi_orderId i"
  "oi_storeId (stampItem env s i) = oi_storeId i"
  "oi_variantId (stampItem env s i) = oi_variantId i"
  "oi_quantity (stampItem env s i) = oi_quantity i"
  "oi_fulfillmentStatus (stampItem env s i) = oi_fulfillmentStatus i"
  "oi_previousFulfillmentStatus (stampItem env s i) = oi_previousFulfillmentStatus i"
  "oi_holdStartedAt (stampItem env s i) = oi_holdStartedAt i"
  by (simp_all add: stampOrder_def stampItem_def)

lemma findOrder_saveOrder:
  "findOrder (s\<lparr>dbOrders := saveRow o_id r (dbOrders s)\<rparr>) i = (if i = o_id r then Some r else findOrder s i)"
  by (simp add: findOrder_def order_repo.byId_save)

lemma findOrder_id: "findOrder s i = Some ord \<Longrightarrow> o_id ord = i"
  unfolding findOrder_def by (rule order_repo.byId_key)

lemma loadOrderWithItems_wp [wp]:
  "wp (loadOrderWithItems orderId) Q E s = (case findOrder s orderId of
     None \<Rightarrow> E (NotFound ''ORDER_NOT_FOUND'') s | Some ord \<Rightarrow> Q (ord, orderItems s orderId) s)"
  by (simp add: loadOrderWithItems_def wp split: option.split)

lemma saveOrder_wp [wp]:
  "wp (saveOrder env ord) Q E s = Q () (s\<lparr>dbOrders := saveRow o_id (stampOrder env s ord) (dbOrders s)\<rparr>)"
  by (simp add: saveOrder_def wp)

lemma saveItems_wp [wp]:
  "wp (saveItems env items) Q E s = Q () (s\<lparr>dbItems := saveRows oi_id (map (stampItem env s) items) (dbItems s)\<rparr>)"
  by (simp add: saveItems_def wp)

lemma addHistory_wp [wp]:
  "wp (addHistory env orderId status changedBy remark) Q E s = Q () (s\<lparr>idCount := Suc (idCount s), dbHistory := dbHistory s @
     [\<lparr>h_id = envUuid env (idCount s), h_orderId = orderId, h_status = status, h_changedBy = changedBy, h_notes = Some remark,
       h_createdAt = envNow env\<rparr>]\<rparr>)"
  by (simp add: addHistory_def wp)

lemma appendAudit_wp [wp]:
  "wp (appendAudit env orderId event actor actorId actorLabel storeId details) Q E s =
     (if event = AE_ORDER_ACCEPTED \<and> \<not> truthy storeId then E (BadRequest ''INVALID_AUDIT_EVENT'') s
      else Q () (s\<lparr>idCount := Suc (idCount s), dbAudits := dbAudits s @
       [\<lparr>al_id = envUuid env (idCount s), al_orderId = orderId, al_eventType = event, al_occurredAt = envNow env,
         al_actorType = actor, al_actorId = actorId, al_actorLabel = actorLabel,
         al_storeId = (if event = AE_ORDER_ACCEPTED then storeId else None),
         al_details = details, al_createdAt = envNow env\<rparr>]\<rparr>))"
  unfolding appendAudit_def wp by simp

text \<open>Saving all lines of an order in a changed form replaces them in place.\<close>

lemma saveRow_append:
  "key r \<notin> key ` set xs \<Longrightarrow> saveRow key r (xs @ ys) = xs @ saveRow key r ys"
  by (induction xs) auto

lemma saveRow_map_other:
  assumes "key r \<notin> key ` set xs" shows "saveRow key r xs = xs @ [r]"
  using assms by (induction xs) auto

lemma saveRows_map:
  assumes "uniqueKey key xs" and "\<And>x. key (f x) = key x" and "set ys \<subseteq> set xs" and "distinct ys"
  shows "saveRows key (map f ys) xs = map (\<lambda>x. if x \<in> set ys then f x else x) xs"
  using assms(3,4)
proof (induction ys rule: rev_induct)
  case Nil
  then show ?case by simp
next
  case (snoc y ys)
  then have IH: "saveRows key (map f ys) xs = map (\<lambda>x. if x \<in> set ys then f x else x) xs" by simp
  have y: "y \<in> set xs" "y \<notin> set ys" using snoc.prems by auto
  let ?xs = "map (\<lambda>x. if x \<in> set ys then f x else x) xs"
  have keys: "map key ?xs = map key xs" using assms(2) by simp
  have u: "uniqueKey key ?xs" using assms(1) unfolding uniqueKey_def keys .
  have "byKey key (key (f y)) ?xs = Some y"
    using byKey_in [OF u, of y] y assms(2) by force
  from saveRow_present [OF this u]
  have "saveRow key (f y) ?xs = map (\<lambda>x. if key x = key (f y) then f y else x) ?xs" .
  also have "\<dots> = map (\<lambda>x. if x \<in> set (ys @ [y]) then f x else x) xs"
    unfolding map_map comp_def
  proof (rule map_cong [OF refl])
    fix x
    assume x: "x \<in> set xs"
    have "key x = key y \<longleftrightarrow> x = y"
      using assms(1) x y(1) unfolding uniqueKey_def distinct_map by (auto dest: inj_onD)
    then show "(if key (if x \<in> set ys then f x else x) = key (f y) then f y else if x \<in> set ys then f x else x) =
        (if x \<in> set (ys @ [y]) then f x else x)"
      using assms(2) y(2) by auto
  qed
  finally show ?case using IH by (simp add: saveRows_def)
qed

end
