(* ===== verification/Store_Access.thy ===== *)
theory Store_Access
  imports Repository
begin

text \<open>
  The access rules of \<^verbatim>\<open>src/src/modules/stores/stores.service.ts\<close>: which stores a user may act for.
  A store belongs to its owner, and every row of \<open>store_members\<close> opens it to one more user.
  Lookups of stores skip soft-deleted rows, as the entity's \<open>DeleteDateColumn\<close> makes TypeORM do.
\<close>

section \<open>Lookups\<close>

definition liveStore :: "db \<Rightarrow> string \<Rightarrow> store_row option" where
  "liveStore s i = List.find (\<lambda>st. st_id st = i \<and> st_deletedAt st = None) (dbStores s)"

definition findOneStore :: "string \<Rightarrow> (db, store_row) op" where
  "findOneStore i = seqM (getM (\<lambda>s. liveStore s i)) (\<lambda>found.
     case found of None \<Rightarrow> raiseM (NotFound ''STORE_NOT_FOUND'') | Some st \<Rightarrow> retM st)"

definition findStoreBySlug :: "string \<Rightarrow> (db, store_row) op" where
  "findStoreBySlug slug =
     seqM (getM (\<lambda>s. List.find (\<lambda>st. st_slug st = slug \<and> st_deletedAt st = None) (dbStores s))) (\<lambda>found.
       case found of
         None \<Rightarrow> raiseM (NotFound ''STORE_NOT_FOUND'')
       | Some st \<Rightarrow> seqM (failIf (st_status st \<noteq> ST_APPROVED) (NotFound ''STORE_NOT_FOUND'')) (\<lambda>_. retM st))"

definition findAllStores :: "store_status option \<Rightarrow> db \<Rightarrow> store_row list" where
  "findAllStores status s = sort_key (\<lambda>st. - st_createdAt st)
     (filter (\<lambda>st. st_deletedAt st = None \<and> st_status st = nullish status ST_APPROVED) (dbStores s))"

definition getPendingStores :: "db \<Rightarrow> store_row list" where
  "getPendingStores s = sort_key st_createdAt
     (filter (\<lambda>st. st_deletedAt st = None \<and> st_status st = ST_PENDING) (dbStores s))"

definition getVendorStores :: "string \<Rightarrow> db \<Rightarrow> store_row list" where
  "getVendorStores userId s = sort_key (\<lambda>st. - st_createdAt st)
     (filter (\<lambda>st. st_deletedAt st = None \<and> st_ownerId st = userId) (dbStores s))"

definition membershipOf :: "db \<Rightarrow> string \<Rightarrow> string \<Rightarrow> member_row option" where
  "membershipOf s storeId userId = List.find (\<lambda>m. mb_storeId m = storeId \<and> mb_userId m = userId) (dbMembers s)"

section \<open>Accessible stores\<close>

text \<open>The second loop: a membership adds its store unless it is gone or listed already.\<close>

fun addMemberships ::
    "db \<Rightarrow> member_row list \<Rightarrow> (store_row \<times> member_role) list \<Rightarrow> (store_row \<times> member_role) list" where
  "addMemberships s [] acc = acc"
| "addMemberships s (m # ms) acc = (case liveStore s (mb_storeId m) of
     None \<Rightarrow> addMemberships s ms acc
   | Some st \<Rightarrow> if mb_storeId m \<in> st_id ` fst ` set acc then addMemberships s ms acc
                else addMemberships s ms (acc @ [(st, mb_role m)]))"

definition getAccessibleStores :: "string \<Rightarrow> db \<Rightarrow> (store_row \<times> member_role) list" where
  "getAccessibleStores userId s = addMemberships s
     (sort_key mb_createdAt (filter (\<lambda>m. mb_userId m = userId) (dbMembers s)))
     (map (\<lambda>st. (st, MR_OWNER)) (getVendorStores userId s))"

definition userHasStoreAccess :: "db \<Rightarrow> string \<Rightarrow> string \<Rightarrow> bool" where
  "userHasStoreAccess s userId storeId \<longleftrightarrow>
     (\<exists>st \<in> set (dbStores s). st_id st = storeId \<and> st_ownerId st = userId \<and> st_deletedAt st = None) \<or>
     membershipOf s storeId userId \<noteq> None"

definition isStoreSuspended :: "db \<Rightarrow> string \<Rightarrow> bool" where
  "isStoreSuspended s storeId = (case liveStore s storeId of None \<Rightarrow> False | Some st \<Rightarrow> st_status st = ST_SUSPENDED)"

definition isStoreOwner :: "string \<Rightarrow> string \<Rightarrow> (db, bool) op" where
  "isStoreOwner userId storeId = seqM (findOneStore storeId) (\<lambda>st. retM (st_ownerId st = userId))"

definition assertStoreOwner :: "string \<Rightarrow> string \<Rightarrow> (db, unit) op" where
  "assertStoreOwner userId storeId =
     seqM (isStoreOwner userId storeId) (\<lambda>owner. failIf (\<not> owner) (Forbidden ''STORE_OWNER_REQUIRED''))"

text \<open>The regular expression of a UUID (case insensitive).\<close>

definition isHexChar :: "char \<Rightarrow> bool" where
  "isHexChar c \<longleftrightarrow> (let n = (of_char c :: nat) in 48 \<le> n \<and> n \<le> 57 \<or> 65 \<le> n \<and> n \<le> 70 \<or> 97 \<le> n \<and> n \<le> 102)"

definition isUuid :: "string \<Rightarrow> bool" where
  "isUuid t \<longleftrightarrow> length t = 36 \<and>
     list_all (\<lambda>(i, c). if i \<in> {8, 13, 18, 23} then c = CHR ''-'' else isHexChar c) (enumerate 0 t)"

definition assertStoreAccess :: "string \<Rightarrow> string \<Rightarrow> (db, unit) op" where
  "assertStoreAccess userId storeId =
     (let trimmed = js_trim storeId in
      seqM (failIf (trimmed = [] \<or> \<not> isUuid trimmed) (BadRequest ''INVALID_STORE_ID'')) (\<lambda>_.
      seqM (getM (\<lambda>s. userHasStoreAccess s userId trimmed)) (\<lambda>ok.
        failIf (\<not> ok) (Forbidden ''STORE_ACCESS_DENIED''))))"

definition userHasStoreManagerAccess :: "db \<Rightarrow> string \<Rightarrow> string \<Rightarrow> bool" where
  "userHasStoreManagerAccess s userId storeId = (case liveStore s storeId of
     None \<Rightarrow> False
   | Some st \<Rightarrow> st_ownerId st = userId \<or>
       (case membershipOf s storeId userId of None \<Rightarrow> False | Some m \<Rightarrow> mb_role m = MR_MANAGER))"

definition assertStoreManager :: "string \<Rightarrow> string \<Rightarrow> (db, unit) op" where
  "assertStoreManager userId storeId =
     seqM (getM (\<lambda>s. userHasStoreManagerAccess s userId storeId)) (\<lambda>ok.
       failIf (\<not> ok) (Forbidden ''STORE_MANAGER_REQUIRED''))"

section \<open>Lemmas\<close>

lemma findOneStore_simp:
  "findOneStore i s = (case liveStore s i of None \<Rightarrow> (Inl (NotFound ''STORE_NOT_FOUND''), s) | Some st \<Rightarrow> (Inr st, s))"
  by (simp add: findOneStore_def split: option.split)

lemma findOneStore_wp [wp]:
  "wp (findOneStore i) Q E s = (case liveStore s i of None \<Rightarrow> E (NotFound ''STORE_NOT_FOUND'') s | Some st \<Rightarrow> Q st s)"
  by (simp add: findOneStore_def wp split: option.split)

lemma liveStore_Some: "liveStore s i = Some st \<Longrightarrow> st \<in> set (dbStores s) \<and> st_id st = i \<and> st_deletedAt st = None"
  using find_Some_in unfolding liveStore_def by fast

lemma liveStore_None: "liveStore s i = None \<longleftrightarrow> (\<forall>st \<in> set (dbStores s). st_id st = i \<longrightarrow> st_deletedAt st \<noteq> None)"
  by (auto simp: liveStore_def find_None_iff)

lemma set_addMemberships:
  "st_id ` fst ` set (addMemberships s ms acc) =
     st_id ` fst ` set acc \<union> {i. i \<in> mb_storeId ` set ms \<and> liveStore s i \<noteq> None}"
proof (induction ms arbitrary: acc)
  case (Cons m ms)
  show ?case
  proof (cases "liveStore s (mb_storeId m)")
    case None
    with Cons.IH [of acc] show ?thesis by auto
  next
    case (Some st)
    then have "st_id st = mb_storeId m" using liveStore_Some by blast
    with Some Cons.IH [of acc] Cons.IH [of "acc @ [(st, mb_role m)]"] show ?thesis by auto
  qed
qed simp

lemma distinct_addMemberships:
  "distinct (map (\<lambda>x. st_id (fst x)) acc) \<Longrightarrow> distinct (map (\<lambda>x. st_id (fst x)) (addMemberships s ms acc))"
proof (induction ms arbitrary: acc)
  case (Cons m ms)
  show ?case
  proof (cases "liveStore s (mb_storeId m)")
    case None
    with Cons.IH [OF Cons.prems] show ?thesis by simp
  next
    case (Some st)
    then have id: "st_id st = mb_storeId m" using liveStore_Some by blast
    show ?thesis
    proof (cases "mb_storeId m \<in> st_id ` fst ` set acc")
      case True
      with Some Cons.IH [OF Cons.prems] show ?thesis by simp
    next
      case False
      then have "distinct (map (\<lambda>x. st_id (fst x)) (acc @ [(st, mb_role m)]))"
        using Cons.prems id by (simp add: image_image)
      from Cons.IH [OF this] Some False show ?thesis by simp
    qed
  qed
qed simp

lemma addMemberships_owned:
  "x \<in> set acc \<Longrightarrow> x \<in> set (addMemberships s ms acc)"
  by (induction s ms acc rule: addMemberships.induct) (auto split: option.splits)

lemma distinct_vendorStores:
  "uniqueKey st_id (dbStores s) \<Longrightarrow> distinct (map st_id (getVendorStores userId s))"
  unfolding getVendorStores_def uniqueKey_def
  by (auto simp: distinct_map intro: inj_on_subset)

section \<open>Properties\<close>

text \<open>C21. The stores a user is offered are exactly the live stores the access check grants, each listed
  once, and a store the user owns is listed with the owner's role even when a membership row
  gives another.\<close>

theorem accessible_stores_exact:
  assumes "uniqueKey st_id (dbStores s)"
  shows "distinct (map (\<lambda>x. st_id (fst x)) (getAccessibleStores userId s)) \<and>
    (storeId \<in> st_id ` fst ` set (getAccessibleStores userId s)
       \<longleftrightarrow> liveStore s storeId \<noteq> None \<and> userHasStoreAccess s userId storeId) \<and>
    (\<forall>st \<in> set (getVendorStores userId s). (st, MR_OWNER) \<in> set (getAccessibleStores userId s))"
proof (intro conjI)
  show "distinct (map (\<lambda>x. st_id (fst x)) (getAccessibleStores userId s))"
    unfolding getAccessibleStores_def
    by (rule distinct_addMemberships) (simp add: comp_def distinct_vendorStores [OF assms])
next
  have member: "membershipOf s storeId userId \<noteq> None \<longleftrightarrow>
      storeId \<in> mb_storeId ` set (filter (\<lambda>m. mb_userId m = userId) (dbMembers s))"
    by (auto simp: membershipOf_def find_None_iff)
  have owned: "st_id ` fst ` set (map (\<lambda>st. (st, MR_OWNER)) (getVendorStores userId s)) =
      {i. \<exists>st \<in> set (dbStores s). st_id st = i \<and> st_ownerId st = userId \<and> st_deletedAt st = None}"
    by (auto simp: getVendorStores_def image_image)
  show "storeId \<in> st_id ` fst ` set (getAccessibleStores userId s)
       \<longleftrightarrow> liveStore s storeId \<noteq> None \<and> userHasStoreAccess s userId storeId"
    unfolding getAccessibleStores_def set_addMemberships owned userHasStoreAccess_def member
    using liveStore_None [of s storeId] by auto
next
  show "\<forall>st \<in> set (getVendorStores userId s). (st, MR_OWNER) \<in> set (getAccessibleStores userId s)"
    unfolding getAccessibleStores_def by (auto intro: addMemberships_owned)
qed

definition sampleStore :: "string \<Rightarrow> store_status \<Rightarrow> store_row" where
  "sampleStore i status = \<lparr>st_id = i, st_ownerId = ''owner'', st_name = ''Shop'', st_slug = ''shop'', st_description = None,
     st_logoUrl = None, st_bannerUrl = None, st_status = status, st_approvedBy = None, st_approvedAt = None,
     st_rejectionReason = None, st_contactPhone = None, st_contactEmail = None, st_address = None,
     st_bankAccountName = None, st_bankAccountNumber = None, st_bankName = None, st_bankCode = None,
     st_omiseRecipientId = None, st_omiseRecipientStatus = RS_NOT_CONNECTED,
     st_omiseRecipientFailureMessage = None, st_payoutSchedule = SCH_MANUAL, st_payoutSchedulePaused = False,
     st_commissionRate = None, st_createdAt = 0, st_updatedAt = 0, st_deletedAt = None\<rparr>"

theorem accessible_stores_exact_witness:
  "''s'' \<in> st_id ` fst ` set (getAccessibleStores ''owner'' (empty_db\<lparr>dbStores := [sampleStore ''s'' ST_APPROVED]\<rparr>)) \<and>
   ''t'' \<notin> st_id ` fst ` set (getAccessibleStores ''owner'' (empty_db\<lparr>dbStores := [sampleStore ''s'' ST_APPROVED]\<rparr>))"
proof -
  let ?s = "empty_db\<lparr>dbStores := [sampleStore ''s'' ST_APPROVED]\<rparr>"
  have u: "uniqueKey st_id (dbStores ?s)" by (simp add: uniqueKey_def)
  have "''s'' \<in> st_id ` fst ` set (getAccessibleStores ''owner'' ?s)
      \<longleftrightarrow> liveStore ?s ''s'' \<noteq> None \<and> userHasStoreAccess ?s ''owner'' ''s''"
    and "''t'' \<in> st_id ` fst ` set (getAccessibleStores ''owner'' ?s)
      \<longleftrightarrow> liveStore ?s ''t'' \<noteq> None \<and> userHasStoreAccess ?s ''owner'' ''t''"
    using accessible_stores_exact [OF u] by blast+
  then show ?thesis by (simp add: liveStore_def userHasStoreAccess_def sampleStore_def)
qed

end
