(* ===== verification/Fulfillment.thy ===== *)
theory Fulfillment
  imports Order_Store Store_Access
begin

text \<open>
  \<^verbatim>\<open>src/src/modules/orders/order-fulfillment.service.ts\<close>. Every handler loads the order and its lines,
  checks its guards, computes the changed rows, and hands them to \<open>persistOrderTransition\<close>, whose
  transaction writes them. The part before the transaction is a definition of its own
  (\<open>acknowledgePlan\<close>, \<open>shipPlan\<close>), since other requests can commit between the two.

  Parameters: \<open>urlParse\<close> (\<open>new URL\<close>) and \<open>hash\<close> (SHA-256). Vendor notifications and webhooks are
  not awaited (\<open>.catch(() => {})\<close>) and so only effects; the customer's status e-mail is awaited after
  the transaction, and its failure surfaces although the transition is committed.
\<close>

section \<open>Guards\<close>

definition assertVendorStoreAccess :: "string \<Rightarrow> item_row list \<Rightarrow> string \<Rightarrow> (db, item_row list) op" where
  "assertVendorStoreAccess userId items storeId =
     seqM (getM (\<lambda>s. st_id ` fst ` set (getAccessibleStores userId s))) (\<lambda>ownedStoreIds.
     seqM (failIf (storeId \<notin> ownedStoreIds) (Forbidden ''FORBIDDEN'')) (\<lambda>_.
     (let storeItems = filter (\<lambda>i. oi_storeId i = storeId) items in
      seqM (failIf (storeItems = []) (Forbidden ''FORBIDDEN'')) (\<lambda>_. retM storeItems))))"

definition assertSingleStoreOrder :: "item_row list \<Rightarrow> string \<Rightarrow> unit result" where
  "assertSingleStoreOrder items storeId =
     (if card (oi_storeId ` set items) \<noteq> 1 \<or> storeId \<notin> oi_storeId ` set items
      then Inl (BadRequest ''MULTI_VENDOR_ORDER'') else Inr ())"

definition cancelItem :: "env \<Rightarrow> item_row \<Rightarrow> item_row" where
  "cancelItem env i = i\<lparr>oi_fulfillmentStatus := FS_CANCELLED, oi_previousFulfillmentStatus := None,
     oi_holdStartedAt := None, oi_updatedAt := envNow env\<rparr>"

definition markItemsCancelled :: "env \<Rightarrow> item_row list \<Rightarrow> item_row list" where
  "markItemsCancelled env items = map (cancelItem env) items"

definition assertNoHeldItemsForVendorFulfillment :: "item_row list \<Rightarrow> unit result" where
  "assertNoHeldItemsForVendorFulfillment items =
     (if list_ex (\<lambda>i. oi_fulfillmentStatus i = FS_ON_HOLD) items
      then Inl (BadRequest ''HOLD_TRANSITION_FORBIDDEN'') else Inr ())"

definition assertNoHeldItemsForVendorCancel :: "item_row list \<Rightarrow> unit result" where
  "assertNoHeldItemsForVendorCancel items =
     (if list_ex (\<lambda>i. oi_fulfillmentStatus i = FS_ON_HOLD) items
      then Inl (BadRequest ''HOLD_CANCEL_FORBIDDEN'') else Inr ())"

section \<open>persistOrderTransition\<close>

definition notifyTransition :: "env \<Rightarrow> order_status \<Rightarrow> order_row \<Rightarrow> order_status \<Rightarrow> (db, unit) op" where
  "notifyTransition env previousStatus saved nextStatus =
     (if previousStatus = nextStatus then retM ()
      else seqM (notifyOrderStatusChanged env (o_id saved) nextStatus) (\<lambda>_.
           seqM (emit (NotifyVendorsStatus (o_id saved) nextStatus)) (\<lambda>_.
             case webhookEventForOrderStatus nextStatus of
               None \<Rightarrow> retM ()
             | Some ev \<Rightarrow> emit (VendorWebhook (o_id saved) ev))))"

definition persistOrderTransition ::
    "env \<Rightarrow> order_row \<Rightarrow> item_row list \<Rightarrow> order_status \<Rightarrow> string \<Rightarrow> string \<Rightarrow> bool \<Rightarrow> (db, unit) op
       \<Rightarrow> (db, order_view) op" where
  "persistOrderTransition env ord items nextStatus userId remark withItems afterSave =
     seqM (txnM
       (seqM (if withItems then saveItems env items else retM ()) (\<lambda>_.
        seqM (saveOrder env (ord\<lparr>o_status := nextStatus,
            o_paidAt := (if nextStatus = OS_PAID \<and> o_paidAt ord = None then Some (envNow env) else o_paidAt ord)\<rparr>)) (\<lambda>_.
        seqM (addHistory env (o_id ord) nextStatus (Some userId) remark) (\<lambda>_. afterSave))))) (\<lambda>_.
     seqM (loadOrderWithItems (o_id ord)) (\<lambda>saved.
     seqM (notifyTransition env (o_status ord) (fst saved) nextStatus) (\<lambda>_. retM saved)))"

section \<open>Handlers\<close>

definition statusesOf :: "item_row list \<Rightarrow> fulfillment_status list" where
  "statusesOf items = map oi_fulfillmentStatus items"

definition markVendorOrderPaid :: "env \<Rightarrow> string \<Rightarrow> string \<Rightarrow> string \<Rightarrow> (db, order_view) op" where
  "markVendorOrderPaid env userId storeId orderId =
     seqM (loadOrderWithItems orderId) (\<lambda>(ord, items).
     seqM (assertVendorStoreAccess userId items storeId) (\<lambda>_.
     seqM (failIf (o_paymentMethod ord = PM_BANK_TRANSFER) (BadRequest ''BANK_TRANSFER_ADMIN_ONLY'')) (\<lambda>_.
     seqM (failIf (o_status ord \<noteq> OS_PENDING_PAYMENT) (BadRequest ''INVALID_ORDER_STATUS'')) (\<lambda>_.
       persistOrderTransition env
         (ord\<lparr>o_paidAt := Some (nullish (o_paidAt ord) (envNow env))\<rparr>) items
         (deriveOrderStatusFromFulfillment OS_PAID (statusesOf items)) userId
         (''Vendor marked order paid (store '' @ storeId @ '')'') False (retM ())))))"

definition ackItem :: "env \<Rightarrow> item_row \<Rightarrow> item_row" where
  "ackItem env i = i\<lparr>oi_fulfillmentStatus := FS_PROCESSING, oi_updatedAt := envNow env\<rparr>"

text \<open>The loop over the items of the store; the others stay as they were loaded.\<close>

definition onStore :: "string \<Rightarrow> (item_row \<Rightarrow> item_row) \<Rightarrow> item_row \<Rightarrow> item_row" where
  "onStore storeId f i = (if oi_storeId i = storeId then f i else i)"

definition acknowledgePlan ::
    "env \<Rightarrow> string \<Rightarrow> string \<Rightarrow> string \<Rightarrow> (db, order_row \<times> item_row list \<times> order_status \<times> string) op" where
  "acknowledgePlan env userId storeId orderId =
     seqM (loadOrderWithItems orderId) (\<lambda>(ord, items).
     seqM (assertVendorStoreAccess userId items storeId) (\<lambda>storeItems.
     seqM (liftM (assertNoHeldItemsForVendorFulfillment storeItems)) (\<lambda>_.
     seqM (failIf (o_status ord \<notin> {OS_PAID, OS_PROCESSING}) (BadRequest ''INVALID_ORDER_STATUS'')) (\<lambda>_.
     seqM (liftM (assertVendorItemsUniform (statusesOf storeItems) FS_PENDING)) (\<lambda>_.
     (let items' = map (onStore storeId (ackItem env)) items
      in seqM (getM (\<lambda>s. liveStore s storeId)) (\<lambda>store.
           (let label = (case store of None \<Rightarrow> [] | Some st \<Rightarrow> js_trim (st_name st))
            in retM (ord, items', deriveOrderStatusFromFulfillment (o_status ord) (statusesOf items'),
                     if label \<noteq> [] then label else FALLBACK_VENDOR_ACTOR_LABEL)))))))))"

definition acknowledgeCommit ::
    "env \<Rightarrow> string \<Rightarrow> string \<Rightarrow> order_row \<times> item_row list \<times> order_status \<times> string \<Rightarrow> (db, order_view) op" where
  "acknowledgeCommit env userId storeId = (\<lambda>(ord, items, nextStatus, label).
     persistOrderTransition env ord items nextStatus userId
       (''Vendor acknowledged order for customer (store '' @ storeId @ '')'') True
       (appendAudit env (o_id ord) AE_ORDER_ACCEPTED AA_vendor (Some userId) (Some label) (Some storeId)
          (JObj [(''storeId'', JStr storeId)])))"

definition acknowledgeVendorOrder :: "env \<Rightarrow> string \<Rightarrow> string \<Rightarrow> string \<Rightarrow> (db, order_view) op" where
  "acknowledgeVendorOrder env userId storeId orderId =
     seqM (acknowledgePlan env userId storeId orderId) (acknowledgeCommit env userId storeId)"

definition shipItem ::
    "env \<Rightarrow> string \<Rightarrow> string \<Rightarrow> string option \<Rightarrow> item_row \<Rightarrow> item_row" where
  "shipItem env number provider url i = i\<lparr>oi_fulfillmentStatus := FS_SHIPPED, oi_trackingNumber := Some number,
     oi_fulfillmentProvider := Some provider, oi_trackingUrl := url, oi_shippedAt := Some (envNow env),
     oi_updatedAt := envNow env\<rparr>"

definition shipPlan ::
    "env \<Rightarrow> (string \<Rightarrow> (string \<times> string) option) \<Rightarrow> string \<Rightarrow> string \<Rightarrow> string \<Rightarrow> string \<Rightarrow> string \<Rightarrow> string option
       \<Rightarrow> (db, order_row \<times> item_row list \<times> order_status) op" where
  "shipPlan env urlParse userId storeId orderId trackingNumber provider trackingUrl =
     seqM (loadOrderWithItems orderId) (\<lambda>(ord, items).
     seqM (assertVendorStoreAccess userId items storeId) (\<lambda>storeItems.
     seqM (liftM (assertNoHeldItemsForVendorFulfillment storeItems)) (\<lambda>_.
     seqM (liftM (validateTrackingNumber trackingNumber)) (\<lambda>number.
     seqM (liftM (validateFulfillmentProvider provider)) (\<lambda>prov.
     seqM (liftM (validateOptionalTrackingUrl urlParse trackingUrl)) (\<lambda>url.
     seqM (failIf (o_status ord \<notin> {OS_PAID, OS_PROCESSING, OS_SHIPPED}) (BadRequest ''INVALID_ORDER_STATUS'')) (\<lambda>_.
     seqM (liftM (assertVendorItemsUniform (statusesOf storeItems) FS_PROCESSING)) (\<lambda>_.
     (let items' = map (onStore storeId (shipItem env number prov url)) items
      in retM (ord, items', deriveOrderStatusFromFulfillment (o_status ord) (statusesOf items')))))))))))"

definition shipCommit ::
    "env \<Rightarrow> string \<Rightarrow> string \<Rightarrow> order_row \<times> item_row list \<times> order_status \<Rightarrow> (db, order_view) op" where
  "shipCommit env userId storeId = (\<lambda>(ord, items, nextStatus).
     persistOrderTransition env ord items nextStatus userId
       (''Vendor shipped order with tracking URL (store '' @ storeId @ '')'') True (retM ()))"

definition shipVendorOrder ::
    "env \<Rightarrow> (string \<Rightarrow> (string \<times> string) option) \<Rightarrow> string \<Rightarrow> string \<Rightarrow> string \<Rightarrow> string \<Rightarrow> string \<Rightarrow> string option
       \<Rightarrow> (db, order_view) op" where
  "shipVendorOrder env urlParse userId storeId orderId trackingNumber provider trackingUrl =
     seqM (shipPlan env urlParse userId storeId orderId trackingNumber provider trackingUrl)
       (shipCommit env userId storeId)"

definition retrackItem ::
    "env \<Rightarrow> string \<Rightarrow> string \<Rightarrow> string option \<Rightarrow> item_row \<Rightarrow> item_row" where
  "retrackItem env number provider url i = i\<lparr>oi_trackingNumber := Some number,
     oi_fulfillmentProvider := Some provider, oi_trackingUrl := url, oi_updatedAt := envNow env\<rparr>"

definition updateTrackingForPublicApi ::
    "env \<Rightarrow> (string \<Rightarrow> (string \<times> string) option) \<Rightarrow> string \<Rightarrow> string \<Rightarrow> string \<Rightarrow> string \<Rightarrow> string \<Rightarrow> string option
       \<Rightarrow> (db, order_view) op" where
  "updateTrackingForPublicApi env urlParse userId storeId orderId trackingNumber provider trackingUrl =
     seqM (loadOrderWithItems orderId) (\<lambda>(ord, items).
     seqM (assertVendorStoreAccess userId items storeId) (\<lambda>storeItems.
     seqM (liftM (assertNoHeldItemsForVendorFulfillment storeItems)) (\<lambda>_.
       if set (statusesOf storeItems) = {FS_SHIPPED} then
         seqM (liftM (validateTrackingNumber trackingNumber)) (\<lambda>number.
         seqM (liftM (validateFulfillmentProvider provider)) (\<lambda>prov.
         seqM (liftM (validateOptionalTrackingUrl urlParse trackingUrl)) (\<lambda>url.
         seqM (saveItems env (map (retrackItem env number prov url) storeItems)) (\<lambda>_.
           loadOrderWithItems orderId))))
       else
         seqM (if set (statusesOf storeItems) = {FS_PENDING}
               then seqM (acknowledgeVendorOrder env userId storeId orderId) (\<lambda>_. retM ())
               else retM ()) (\<lambda>_.
           shipVendorOrder env urlParse userId storeId orderId trackingNumber provider trackingUrl))))"

definition assertDeliveryAccess ::
    "env \<Rightarrow> (string \<Rightarrow> string) \<Rightarrow> order_row \<Rightarrow> string option \<Rightarrow> string option \<Rightarrow> string option \<Rightarrow> unit result" where
  "assertDeliveryAccess env hash ord customerId guestPhone guestPayToken =
     (if truthy customerId then
        (if o_customerId ord \<noteq> customerId then Inl (Forbidden ''FORBIDDEN'') else Inr ())
      else if truthy guestPhone then
        (let given = digitsOf (the guestPhone);
             stored = (case o_guestPhone ord of None \<Rightarrow> [] | Some ph \<Rightarrow> digitsOf ph)
         in if stored = [] \<or> stored \<noteq> given then Inl (Forbidden ''FORBIDDEN'')
            else if truthy (o_guestPayTokenHash ord)
            then assertGuestPayTokenAccess hash (envNow env) (o_guestPayTokenHash ord)
                   (o_guestPayTokenExpiresAt ord) guestPayToken
            else Inr ())
      else Inl (Forbidden ''FORBIDDEN''))"

definition deliverItem :: "env \<Rightarrow> item_row \<Rightarrow> item_row" where
  "deliverItem env i = i\<lparr>oi_fulfillmentStatus := FS_DELIVERED, oi_deliveredAt := Some (envNow env),
     oi_updatedAt := envNow env\<rparr>"

text \<open>
  The history row names \<open>customerId ?? 'guest'\<close> in a column of type uuid: the insertion of a guest's row fails and
  takes the transaction with it. The ids of customers are uuids.
\<close>

definition notUuid :: exn where
  "notUuid = Failure ''invalid input syntax for type uuid''"

definition confirmOrderDelivered ::
    "env \<Rightarrow> (string \<Rightarrow> string) \<Rightarrow> string \<Rightarrow> string option \<Rightarrow> string option \<Rightarrow> string option \<Rightarrow> (db, order_view) op" where
  "confirmOrderDelivered env hash orderId customerId guestPhone guestPayToken =
     seqM (loadOrderWithItems orderId) (\<lambda>(ord, items).
     seqM (liftM (assertDeliveryAccess env hash ord customerId guestPhone guestPayToken)) (\<lambda>_.
     seqM (failIf (o_status ord \<noteq> OS_SHIPPED) (BadRequest ''INVALID_ORDER_STATUS'')) (\<lambda>_.
     seqM (failIf (\<not> list_all (\<lambda>f. f = FS_SHIPPED \<or> f = FS_DELIVERED) (statusesOf items))
             (BadRequest ''ORDER_NOT_FULLY_SHIPPED'')) (\<lambda>_.
       persistOrderTransition env ord
         (map (deliverItem env) items)
         OS_DELIVERED (nullish customerId ''guest'') ''Customer confirmed order delivery'' True
         (failIf (\<not> truthy customerId) notUuid)))))"

definition failPendingPayments :: "env \<Rightarrow> string \<Rightarrow> (db, unit) op" where
  "failPendingPayments env orderId = modM (\<lambda>s. s\<lparr>dbPayments := map (\<lambda>p.
     if py_orderId p = orderId \<and> py_status p = PY_PENDING
     then p\<lparr>py_status := PY_FAILED, py_updatedAt := envNow env\<rparr> else p) (dbPayments s)\<rparr>)"

text \<open>The transaction of \<open>cancelVendorOrder\<close> and what follows it.\<close>

definition cancelCommit ::
    "env \<Rightarrow> string \<Rightarrow> string \<Rightarrow> string \<Rightarrow> order_row \<Rightarrow> item_row list \<Rightarrow> (db, order_view) op" where
  "cancelCommit env userId storeId orderId ord items =
     seqM (txnM
       (seqM (saveOrder env (ord\<lparr>o_status := OS_CANCELLED\<rparr>)) (\<lambda>_.
        seqM (saveItems env (markItemsCancelled env items)) (\<lambda>_.
        seqM (restoreOrderStock env orderId (Some ''Vendor cancelled order'')) (\<lambda>_.
        seqM (failPendingPayments env orderId) (\<lambda>_.
          addHistory env orderId OS_CANCELLED (Some userId)
            (''Vendor cancelled order (store '' @ storeId @ '')'')))))) ) (\<lambda>_.
     seqM (loadOrderWithItems orderId) (\<lambda>saved.
     seqM (notifyOrderStatusChanged env (o_id (fst saved)) OS_CANCELLED) (\<lambda>_.
     seqM (emit (NotifyVendorsStatus (o_id (fst saved)) OS_CANCELLED)) (\<lambda>_.
     seqM (emit (VendorWebhook (o_id (fst saved)) ''order.cancelled'')) (\<lambda>_. retM saved)))))"

definition cancelVendorOrder :: "env \<Rightarrow> string \<Rightarrow> string \<Rightarrow> string \<Rightarrow> (db, order_view) op" where
  "cancelVendorOrder env userId storeId orderId =
     seqM (loadOrderWithItems orderId) (\<lambda>(ord, items).
     seqM (assertVendorStoreAccess userId items storeId) (\<lambda>storeItems.
     seqM (liftM (assertSingleStoreOrder items storeId)) (\<lambda>_.
     seqM (liftM (assertNoHeldItemsForVendorCancel storeItems)) (\<lambda>_.
     seqM (failIf (o_status ord = OS_CANCELLED \<or> o_status ord = OS_REFUNDED)
             (BadRequest ''ORDER_ALREADY_CANCELLED'')) (\<lambda>_.
     seqM (failIf (o_status ord \<notin> vendorCancellableStatuses) (BadRequest ''INVALID_ORDER_STATUS'')) (\<lambda>_.
       cancelCommit env userId storeId orderId ord items))))))"

section \<open>Effect of a transition\<close>

text \<open>What the properties look at: the orders and the lines.\<close>

definition keepsOrders :: "(db, 'a) op \<Rightarrow> bool" where
  "keepsOrders m \<longleftrightarrow> (\<forall>u. wp m (\<lambda>_ v. dbOrders v = dbOrders u \<and> dbItems v = dbItems u)
     (\<lambda>_ v. dbOrders v = dbOrders u \<and> dbItems v = dbItems u) u)"

lemma keepsOrders_ret [simp]: "keepsOrders (retM x)"
  by (simp add: keepsOrders_def wp)

lemma keepsOrders_failIf [simp]: "keepsOrders (failIf b e)"
  by (simp add: keepsOrders_def wp)

lemma keepsOrders_audit [simp]: "keepsOrders (appendAudit env i ev a ai al st d)"
  by (simp add: keepsOrders_def wp)

lemma keepsOrders_notify: "keepsOrders (notifyTransition env prev saved nextStatus)"
  by (simp add: keepsOrders_def notifyTransition_def wp Let_def split: option.split)

definition transitionRow :: "env \<Rightarrow> order_row \<Rightarrow> order_status \<Rightarrow> order_row" where
  "transitionRow env ord nextStatus = ord\<lparr>o_status := nextStatus,
     o_paidAt := (if nextStatus = OS_PAID \<and> o_paidAt ord = None then Some (envNow env) else o_paidAt ord)\<rparr>"

lemma transitionRow_simps [simp]:
  "o_id (transitionRow env ord st) = o_id ord"
  "o_status (transitionRow env ord st) = st"
  by (simp_all add: transitionRow_def)

lemma stampOrder_items [simp]:
  "stampOrder env (s\<lparr>dbItems := is\<rparr>) ord = stampOrder env s ord"
  by (simp add: stampOrder_def findOrder_def)

text \<open>The rows a transition commits. The only error after the commit is the refused e-mail.\<close>

definition committed ::
    "env \<Rightarrow> order_row \<Rightarrow> item_row list \<Rightarrow> order_status \<Rightarrow> bool \<Rightarrow> db \<Rightarrow> db \<Rightarrow> bool" where
  "committed env ord items nextStatus withItems s t \<longleftrightarrow>
     dbOrders t = saveRow o_id (stampOrder env s (transitionRow env ord nextStatus)) (dbOrders s) \<and>
     dbItems t = (if withItems then saveRows oi_id (map (stampItem env s) items) (dbItems s) else dbItems s)"

definition mailRefused :: "env \<Rightarrow> string \<Rightarrow> exn \<Rightarrow> bool" where
  "mailRefused env oid e \<longleftrightarrow> envMailFails env oid \<and> e = Failure ''Failed to send email''"

lemma persist_wp:
  assumes "keepsOrders afterSave"
  shows "wp (persistOrderTransition env ord items nextStatus userId remark withItems afterSave)
    (\<lambda>_. committed env ord items nextStatus withItems s)
    (\<lambda>e t. t = s \<or> mailRefused env (o_id ord) e \<and> committed env ord items nextStatus withItems s t) s"
proof -
  have after: "wp afterSave (\<lambda>_ v. dbOrders v = dbOrders u \<and> dbItems v = dbItems u)
     (\<lambda>_ v. dbOrders v = dbOrders u \<and> dbItems v = dbItems u) u" for u
    using assms by (simp add: keepsOrders_def)
  let ?row = "stampOrder env s (transitionRow env ord nextStatus)"
  have found: "findOrder t (o_id ord) = Some ?row" if "dbOrders t = saveRow o_id ?row (dbOrders s)" for t
    using order_repo.read_own_write [of ?row "dbOrders s"] that by (simp add: findOrder_def)
  have note': "wp (notifyTransition env (o_status ord) saved nextStatus) (\<lambda>_ v. dbOrders v = dbOrders u \<and> dbItems v = dbItems u)
     (\<lambda>e v. mailRefused env (o_id saved) e \<and> dbOrders v = dbOrders u \<and> dbItems v = dbItems u) u" for u saved
    by (simp add: notifyTransition_def wp Let_def mailRefused_def split: option.split)
  show ?thesis
    unfolding persistOrderTransition_def wp transitionRow_def [symmetric] committed_def
    by (cases withItems; simp)
      (rule wp_conseq [OF after], use found in \<open>auto intro!: wp_conseq [OF note']\<close>)+
qed

section \<open>Headers stay consistent with the lines\<close>

definition headerOk :: "order_status \<Rightarrow> item_row list \<Rightarrow> bool" where
  "headerOk st items \<longleftrightarrow> st \<in> terminalOrderStatuses \<or> st = OS_PENDING_PAYMENT \<or>
     st = deriveOrderStatusFromFulfillment st (statusesOf items)"

definition ordersInv :: "db \<Rightarrow> bool" where
  "ordersInv s \<longleftrightarrow> uniqueKey oi_id (dbItems s) \<and>
     (\<forall>i ord. findOrder s i = Some ord \<longrightarrow> headerOk (o_status ord) (orderItems s i))"

lemma derive_idem:
  assumes "current \<notin> terminalOrderStatuses" and "current \<noteq> OS_PENDING_PAYMENT"
  shows "deriveOrderStatusFromFulfillment (deriveOrderStatusFromFulfillment current fs) fs =
    deriveOrderStatusFromFulfillment current fs"
proof -
  let ?d = "deriveOrderStatusFromFulfillment current fs"
  have "?d \<notin> terminalOrderStatuses \<and> ?d \<noteq> OS_PENDING_PAYMENT"
    unfolding derive_table [OF assms] Let_def by (simp add: terminalOrderStatuses_def)
  then show ?thesis using derive_table [OF assms, of fs] derive_table [of ?d fs] by simp
qed

lemma headerOk_derive:
  "current \<notin> terminalOrderStatuses \<Longrightarrow> current \<noteq> OS_PENDING_PAYMENT \<Longrightarrow> statusesOf items = fs \<Longrightarrow>
     headerOk (deriveOrderStatusFromFulfillment current fs) items"
  by (simp add: headerOk_def derive_idem)

lemma statusesOf_stamp [simp]: "statusesOf (map (\<lambda>i. stampItem env s (f i)) items) = statusesOf (map f items)"
  by (simp add: statusesOf_def)

lemma saveItems_order:
  assumes u: "uniqueKey oi_id (dbItems s)"
    and f: "\<And>i. oi_id (f i) = oi_id i" "\<And>i. oi_orderId (f i) = oi_orderId i"
  shows "filter (\<lambda>i. oi_orderId i = j) (saveRows oi_id (map (stampItem env s) (map f (orderItems s oid))) (dbItems s)) =
      (if j = oid then map (\<lambda>i. stampItem env s (f i)) (orderItems s oid) else orderItems s j)"
    and "uniqueKey oi_id (saveRows oi_id (map (stampItem env s) (map f (orderItems s oid))) (dbItems s))"
proof -
  have "distinct (dbItems s)" using u by (simp add: uniqueKey_def distinct_map)
  then have d: "distinct (orderItems s oid)" "set (orderItems s oid) \<subseteq> set (dbItems s)"
    by (auto simp: orderItems_def)
  have "saveRows oi_id (map (\<lambda>i. stampItem env s (f i)) (orderItems s oid)) (dbItems s) =
      map (\<lambda>x. if x \<in> set (orderItems s oid) then stampItem env s (f x) else x) (dbItems s)"
    using saveRows_map [OF u, of "\<lambda>i. stampItem env s (f i)", OF _ d(2,1)] f by simp
  also have "\<dots> = map (\<lambda>x. if oi_orderId x = oid then stampItem env s (f x) else x) (dbItems s)"
    by (auto simp: orderItems_def)
  finally have eq: "saveRows oi_id (map (stampItem env s) (map f (orderItems s oid))) (dbItems s) =
      map (\<lambda>x. if oi_orderId x = oid then stampItem env s (f x) else x) (dbItems s)"
    by (simp add: comp_def)
  have "filter (\<lambda>i. oi_orderId i = j) (map (\<lambda>x. if oi_orderId x = oid then stampItem env s (f x) else x) xs) =
      (if j = oid then map (\<lambda>i. stampItem env s (f i)) (filter (\<lambda>i. oi_orderId i = oid) xs)
       else filter (\<lambda>i. oi_orderId i = j) xs)" for xs
    using f(2) by (induction xs) auto
  then show "filter (\<lambda>i. oi_orderId i = j) (saveRows oi_id (map (stampItem env s) (map f (orderItems s oid))) (dbItems s)) =
      (if j = oid then map (\<lambda>i. stampItem env s (f i)) (orderItems s oid) else orderItems s j)"
    unfolding eq by (simp add: orderItems_def)
  have "map oi_id (map (\<lambda>x. if oi_orderId x = oid then stampItem env s (f x) else x) (dbItems s)) = map oi_id (dbItems s)"
    using f(1) by simp
  then show "uniqueKey oi_id (saveRows oi_id (map (stampItem env s) (map f (orderItems s oid))) (dbItems s))"
    unfolding eq using u unfolding uniqueKey_def by metis
qed

text \<open>A transition that maps the lines of one order and sets a matching header keeps the invariant.\<close>

lemma ordersInv_transition:
  assumes inv: "ordersInv s" and f: "\<And>i. oi_id (f i) = oi_id i" "\<And>i. oi_orderId (f i) = oi_orderId i"
    and row: "o_id row = oid" "headerOk (o_status row) (map f (orderItems s oid))"
    and t: "dbOrders t = saveRow o_id row (dbOrders s)"
      "dbItems t = saveRows oi_id (map (stampItem env s) (map f (orderItems s oid))) (dbItems s)"
  shows "ordersInv t"
proof -
  have u: "uniqueKey oi_id (dbItems s)" using inv by (simp add: ordersInv_def)
  have items: "orderItems t j = (if j = oid then map (\<lambda>i. stampItem env s (f i)) (orderItems s oid) else orderItems s j)" for j
    using saveItems_order(1) [where f = f and j = j and env = env and oid = oid, OF u f]
    unfolding orderItems_def [of t j] t(2) .
  have found: "findOrder t j = (if j = oid then Some row else findOrder s j)" for j
    using order_repo.byId_save [of j row "dbOrders s"] row(1) by (simp add: findOrder_def t(1))
  show ?thesis
    unfolding ordersInv_def
  proof (intro conjI allI impI)
    show "uniqueKey oi_id (dbItems t)" unfolding t(2)
      using saveItems_order(2) [where f = f and env = env and oid = oid, OF u f] .
  next
    fix j ord
    assume "findOrder t j = Some ord"
    then show "headerOk (o_status ord) (orderItems t j)"
      using row(2) inv by (auto simp: found items headerOk_def ordersInv_def split: if_splits)
  qed
qed

lemma saveRows_nil: "saveRows oi_id (map (stampItem env s) (map (\<lambda>i. i) (orderItems s oid))) (dbItems s) = dbItems s"
  if "uniqueKey oi_id (dbItems s)"
proof -
  have id: "map (stampItem env s) (orderItems s oid) = orderItems s oid"
    using byKey_in [OF that] by (auto simp: stampItem_def orderItems_def intro: map_idI)
  have "distinct (dbItems s)" using that by (simp add: uniqueKey_def distinct_map)
  then have "distinct (orderItems s oid)" "set (orderItems s oid) \<subseteq> set (dbItems s)" by (auto simp: orderItems_def)
  from saveRows_map [OF that _ this(2,1), of "\<lambda>i. i"] show ?thesis using id by simp
qed

section \<open>What the handlers compute and write\<close>

lemma itemUpdate_simps [simp]:
  "oi_id (ackItem env i) = oi_id i" "oi_orderId (ackItem env i) = oi_orderId i" "oi_storeId (ackItem env i) = oi_storeId i"
  "oi_id (shipItem env a b c i) = oi_id i" "oi_orderId (shipItem env a b c i) = oi_orderId i"
  "oi_storeId (shipItem env a b c i) = oi_storeId i"
  "oi_id (deliverItem env i) = oi_id i" "oi_orderId (deliverItem env i) = oi_orderId i"
  "oi_id (cancelItem env i) = oi_id i" "oi_orderId (cancelItem env i) = oi_orderId i"
  "oi_fulfillmentStatus (ackItem env i) = FS_PROCESSING"
  "oi_fulfillmentStatus (shipItem env a b c i) = FS_SHIPPED"
  "oi_fulfillmentStatus (deliverItem env i) = FS_DELIVERED"
  "oi_fulfillmentStatus (cancelItem env i) = FS_CANCELLED"
  by (simp_all add: ackItem_def shipItem_def deliverItem_def cancelItem_def)

lemma onStore_keys [simp]:
  "(\<And>i. oi_id (f i) = oi_id i) \<Longrightarrow> oi_id (onStore st f i) = oi_id i"
  "(\<And>i. oi_orderId (f i) = oi_orderId i) \<Longrightarrow> oi_orderId (onStore st f i) = oi_orderId i"
  by (simp_all add: onStore_def)

lemma load_read:
  "wp (loadOrderWithItems oid) (\<lambda>v t. t = s \<and> (findOrder s oid = Some (fst v) \<and> snd v = orderItems s oid)) (\<lambda>_ t. t = s) s"
  by (simp add: wp split: option.split)

lemma access_read:
  "wp (assertVendorStoreAccess userId items storeId)
     (\<lambda>r t. t = s \<and> (r = filter (\<lambda>i. oi_storeId i = storeId) items \<and> r \<noteq> [] \<and>
        storeId \<in> st_id ` fst ` set (getAccessibleStores userId s))) (\<lambda>_ t. t = s) s"
  by (simp add: assertVendorStoreAccess_def wp Let_def)

lemma lift_read: "wp (liftM r) (\<lambda>x t. t = s \<and> r = Inr x) (\<lambda>_ t. t = s) s"
  by (simp add: wp split: sum.split)

lemma get_read: "wp (getM f) (\<lambda>x t. t = s \<and> x = f s) (\<lambda>_ t. t = s) s"
  by (simp add: wp)

lemmas reads = load_read [THEN wp_read] access_read [THEN wp_read] lift_read [THEN wp_read] get_read [THEN wp_read] wp_guard

definition ackPlanned :: "env \<Rightarrow> db \<Rightarrow> string \<Rightarrow> string \<Rightarrow> string \<Rightarrow> order_row \<times> item_row list \<times> order_status \<times> string \<Rightarrow> bool" where
  "ackPlanned env s userId storeId oid = (\<lambda>(ord, items', next, label).
     findOrder s oid = Some ord \<and> items' = map (onStore storeId (ackItem env)) (orderItems s oid) \<and>
     next = deriveOrderStatusFromFulfillment (o_status ord) (statusesOf items') \<and>
     o_status ord \<in> {OS_PAID, OS_PROCESSING} \<and>
     set (statusesOf (filter (\<lambda>i. oi_storeId i = storeId) (orderItems s oid))) = {FS_PENDING} \<and>
     storeId \<in> st_id ` fst ` set (getAccessibleStores userId s))"

lemma uniform_Inr: "assertVendorItemsUniform fs e = Inr x \<longleftrightarrow> set fs = {e}"
  by (cases fs) (auto simp: assertVendorItemsUniform_def list_all_iff)

lemma acknowledgePlan_read:
  "wp (acknowledgePlan env userId storeId oid) (\<lambda>r t. t = s \<and> ackPlanned env s userId storeId oid r) (\<lambda>_ t. t = s) s"
  unfolding acknowledgePlan_def wp_seq wp_prod case_prod_unfold
  by (intro reads; simp add: wp Let_def) (auto simp: ackPlanned_def uniform_Inr statusesOf_def)

definition shipPlanned ::
    "env \<Rightarrow> (string \<Rightarrow> (string \<times> string) option) \<Rightarrow> db \<Rightarrow> string \<Rightarrow> string \<Rightarrow> string \<Rightarrow> string \<Rightarrow> string \<Rightarrow> string option
       \<Rightarrow> order_row \<times> item_row list \<times> order_status \<Rightarrow> bool" where
  "shipPlanned env urlParse s userId storeId oid number prov url = (\<lambda>(ord, items', next).
     findOrder s oid = Some ord \<and>
     (\<exists>n p u. validateTrackingNumber number = Inr n \<and> validateFulfillmentProvider prov = Inr p \<and>
        validateOptionalTrackingUrl urlParse url = Inr u \<and>
        items' = map (onStore storeId (shipItem env n p u)) (orderItems s oid)) \<and>
     next = deriveOrderStatusFromFulfillment (o_status ord) (statusesOf items') \<and>
     o_status ord \<in> {OS_PAID, OS_PROCESSING, OS_SHIPPED} \<and>
     set (statusesOf (filter (\<lambda>i. oi_storeId i = storeId) (orderItems s oid))) = {FS_PROCESSING} \<and>
     storeId \<in> st_id ` fst ` set (getAccessibleStores userId s))"

lemma shipPlan_read:
  "wp (shipPlan env urlParse userId storeId oid number prov url) (\<lambda>r t. t = s \<and> shipPlanned env urlParse s userId storeId oid number prov url r) (\<lambda>_ t. t = s) s"
  unfolding shipPlan_def wp_seq wp_prod case_prod_unfold
  by (intro reads; simp add: wp Let_def) (auto simp: shipPlanned_def uniform_Inr statusesOf_def)

lemma transition_preserves:
  assumes inv: "ordersInv s" and f: "\<And>i. oi_id (f i) = oi_id i" "\<And>i. oi_orderId (f i) = oi_orderId i"
    and "o_id ord = oid" and "headerOk nextStatus (map f (orderItems s oid))" and "keepsOrders afterSave"
  shows "wp (persistOrderTransition env ord (map f (orderItems s oid)) nextStatus userId remark True afterSave)
    (\<lambda>_. ordersInv) (\<lambda>_. ordersInv) s"
  by (rule wp_conseq [OF persist_wp [OF assms(6)]])
    (use assms in \<open>auto simp: committed_def intro!: ordersInv_transition [OF inv f, where oid = oid and env = env
        and row = "stampOrder env s (transitionRow env ord nextStatus)"]\<close>)

lemma acknowledge_preserves:
  assumes "ordersInv s"
  shows "wp (acknowledgeVendorOrder env userId storeId oid) (\<lambda>_. ordersInv) (\<lambda>_. ordersInv) s"
  unfolding acknowledgeVendorOrder_def wp_seq
proof (rule wp_read [OF acknowledgePlan_read])
  fix r
  assume "ackPlanned env s userId storeId oid r"
  then obtain ord lab where r: "findOrder s oid = Some ord" "o_status ord \<in> {OS_PAID, OS_PROCESSING}"
    "r = (ord, map (onStore storeId (ackItem env)) (orderItems s oid),
       deriveOrderStatusFromFulfillment (o_status ord) (statusesOf (map (onStore storeId (ackItem env)) (orderItems s oid))), lab)"
    by (auto simp: ackPlanned_def)
  show "wp (acknowledgeCommit env userId storeId r) (\<lambda>_. ordersInv) (\<lambda>_. ordersInv) s"
    unfolding acknowledgeCommit_def r(3) prod.case
    by (rule transition_preserves [OF assms]) (use r findOrder_id in \<open>auto intro!: headerOk_derive simp: terminalOrderStatuses_def\<close>)
qed (rule assms)

lemma ship_preserves:
  assumes "ordersInv s"
  shows "wp (shipVendorOrder env urlParse userId storeId oid number prov url) (\<lambda>_. ordersInv) (\<lambda>_. ordersInv) s"
  unfolding shipVendorOrder_def wp_seq
proof (rule wp_read [OF shipPlan_read])
  fix r
  assume "shipPlanned env urlParse s userId storeId oid number prov url r"
  then obtain ord a b c where r: "findOrder s oid = Some ord" "o_status ord \<in> {OS_PAID, OS_PROCESSING, OS_SHIPPED}"
    "r = (ord, map (onStore storeId (shipItem env a b c)) (orderItems s oid),
       deriveOrderStatusFromFulfillment (o_status ord) (statusesOf (map (onStore storeId (shipItem env a b c)) (orderItems s oid))))"
    by (auto simp: shipPlanned_def)
  show "wp (shipCommit env userId storeId r) (\<lambda>_. ordersInv) (\<lambda>_. ordersInv) s"
    unfolding shipCommit_def r(3) prod.case
    by (rule transition_preserves [OF assms]) (use r findOrder_id in \<open>auto intro!: headerOk_derive simp: terminalOrderStatuses_def\<close>)
qed (rule assms)

lemma deliver_header: "items \<noteq> [] \<Longrightarrow> headerOk OS_DELIVERED (map (deliverItem env) items)"
proof -
  assume "items \<noteq> []"
  then have "set (statusesOf (map (deliverItem env) items)) = {FS_DELIVERED}"
    by (cases items) (auto simp: statusesOf_def)
  then show ?thesis
    using derive_table [of OS_DELIVERED "statusesOf (map (deliverItem env) items)"]
    by (simp add: headerOk_def terminalOrderStatuses_def)
qed

text \<open>An order that is not pending or terminal has a header other than \<open>delivered\<close> or \<open>shipped\<close> when
  it has no line.\<close>

lemma shipped_has_lines: "headerOk OS_SHIPPED items \<Longrightarrow> items \<noteq> []"
  by (auto simp: headerOk_def terminalOrderStatuses_def statusesOf_def deriveOrderStatusFromFulfillment_def)

lemma confirm_preserves:
  assumes "ordersInv s"
  shows "wp (confirmOrderDelivered env hash oid customerId guestPhone token) (\<lambda>_. ordersInv) (\<lambda>_. ordersInv) s"
  unfolding confirmOrderDelivered_def wp_seq wp_prod case_prod_unfold
proof (intro reads assms)
  fix v
  assume v: "findOrder s oid = Some (fst v) \<and> snd v = orderItems s oid" and st: "\<not> o_status (fst v) \<noteq> OS_SHIPPED"
  have "orderItems s oid \<noteq> []"
    using assms v st shipped_has_lines unfolding ordersInv_def by (metis prod.collapse)
  then show "wp (persistOrderTransition env (fst v) (map (deliverItem env) (snd v)) OS_DELIVERED (nullish customerId ''guest'')
      ''Customer confirmed order delivery'' True (failIf (\<not> truthy customerId) notUuid)) (\<lambda>_. ordersInv) (\<lambda>_. ordersInv) s"
    using v findOrder_id [of s oid "fst v"] by (auto intro!: transition_preserves [OF assms] deliver_header)
qed

lemma markPaid_preserves:
  assumes "ordersInv s"
  shows "wp (markVendorOrderPaid env userId storeId oid) (\<lambda>_. ordersInv) (\<lambda>_. ordersInv) s"
  unfolding markVendorOrderPaid_def wp_seq wp_prod case_prod_unfold
proof (intro reads assms)
  fix v
  assume v: "findOrder s oid = Some (fst v) \<and> snd v = orderItems s oid"
  let ?next = "deriveOrderStatusFromFulfillment OS_PAID (statusesOf (snd v))"
  let ?row = "stampOrder env s (transitionRow env ((fst v)\<lparr>o_paidAt := Some (nullish (o_paidAt (fst v)) (envNow env))\<rparr>) ?next)"
  have u: "uniqueKey oi_id (dbItems s)" using assms by (simp add: ordersInv_def)
  have "headerOk (o_status ?row) (map (\<lambda>i. i) (orderItems s oid))"
    using v by (auto intro!: headerOk_derive simp: terminalOrderStatuses_def)
  from ordersInv_transition [OF assms _ _ _ this, where env = env] saveRows_nil [OF u, of env oid]
  have "ordersInv t" if "dbOrders t = saveRow o_id ?row (dbOrders s)" "dbItems t = dbItems s" for t
    using that v findOrder_id [of s oid "fst v"] by simp
  then show "wp (persistOrderTransition env ((fst v)\<lparr>o_paidAt := Some (nullish (o_paidAt (fst v)) (envNow env))\<rparr>) (snd v) ?next
      userId (''Vendor marked order paid (store '' @ storeId @ '')'') False (retM ())) (\<lambda>_. ordersInv) (\<lambda>_. ordersInv) s"
    by (intro wp_conseq [OF persist_wp]) (auto simp: assms committed_def)
qed

lemma restore_keeps: "keepsOrders (restoreOrderStock env oid remark)"
  unfolding keepsOrders_def
proof
  fix u
  from restoreOrderStock_spec [of env oid remark u] obtain b bs t where
    "restoreOrderStock env oid remark u = (Inr b, t)" "restoredTo oid (orderItems u oid) bs u t" by blast
  then show "wp (restoreOrderStock env oid remark) (\<lambda>_ v. dbOrders v = dbOrders u \<and> dbItems v = dbItems u)
     (\<lambda>_ v. dbOrders v = dbOrders u \<and> dbItems v = dbItems u) u"
    by (simp add: wp_def restoredTo_def)
qed

lemma keepsOrders_wp:
  assumes "keepsOrders m" and "\<And>x v. dbOrders v = dbOrders u \<Longrightarrow> dbItems v = dbItems u \<Longrightarrow> Q x v"
    and "\<And>e v. dbOrders v = dbOrders u \<Longrightarrow> dbItems v = dbItems u \<Longrightarrow> E e v"
  shows "wp m Q E u"
  using assms unfolding keepsOrders_def by (blast intro: wp_conseq)

lemma stamp_saved [simp]:
  "stampItem env (s\<lparr>dbOrders := os\<rparr>) = stampItem env s"
  by (simp add: fun_eq_iff stampItem_def)

definition cancelledState :: "env \<Rightarrow> order_row \<Rightarrow> item_row list \<Rightarrow> db \<Rightarrow> db \<Rightarrow> bool" where
  "cancelledState env ord items s t \<longleftrightarrow>
     dbOrders t = saveRow o_id (stampOrder env s (ord\<lparr>o_status := OS_CANCELLED\<rparr>)) (dbOrders s) \<and>
     dbItems t = saveRows oi_id (map (stampItem env s) (map (cancelItem env) items)) (dbItems s)"

lemma cancelCommit_wp:
  assumes "o_id ord = oid"
  shows "wp (cancelCommit env userId storeId oid ord items) (\<lambda>_. cancelledState env ord items s)
    (\<lambda>e t. t = s \<or> mailRefused env oid e \<and> cancelledState env ord items s t) s"
proof -
  let ?row = "stampOrder env s (ord\<lparr>o_status := OS_CANCELLED\<rparr>)"
  have found: "findOrder t oid = Some ?row" if "dbOrders t = saveRow o_id ?row (dbOrders s)" for t
    using order_repo.read_own_write [of ?row "dbOrders s"] that assms by (simp add: findOrder_def)
  show ?thesis
    unfolding cancelCommit_def wp cancelledState_def
    by (rule keepsOrders_wp [OF restore_keeps])
      (use assms found in \<open>auto simp: failPendingPayments_def wp Let_def markItemsCancelled_def mailRefused_def
        split: option.split\<close>)
qed

lemma cancel_preserves:
  assumes "ordersInv s"
  shows "wp (cancelVendorOrder env userId storeId oid) (\<lambda>_. ordersInv) (\<lambda>_. ordersInv) s"
  unfolding cancelVendorOrder_def wp_seq wp_prod case_prod_unfold
proof (intro reads assms)
  fix v
  assume v: "findOrder s oid = Some (fst v) \<and> snd v = orderItems s oid"
  then have id: "o_id (fst v) = oid" using findOrder_id by blast
  have ok: "ordersInv t" if "dbOrders t = saveRow o_id (stampOrder env s ((fst v)\<lparr>o_status := OS_CANCELLED\<rparr>)) (dbOrders s)"
    "dbItems t = saveRows oi_id (map (stampItem env s) (map (cancelItem env) (orderItems s oid))) (dbItems s)" for t
    using ordersInv_transition [OF assms _ _ _ _ that] id by (simp add: headerOk_def terminalOrderStatuses_def)
  show "wp (cancelCommit env userId storeId oid (fst v) (snd v)) (\<lambda>_. ordersInv) (\<lambda>_. ordersInv) s"
    by (rule wp_conseq [OF cancelCommit_wp [OF id]]) (use v ok assms in \<open>auto simp: cancelledState_def\<close>)
qed

lemma saveItems_filter:
  assumes u: "uniqueKey oi_id (dbItems s)" and f: "\<And>i. oi_id (f i) = oi_id i"
  shows "saveRows oi_id (map (stampItem env s) (map f (filter P (orderItems s oid)))) (dbItems s) =
    saveRows oi_id (map (stampItem env s) (map (\<lambda>i. if P i then f i else i) (orderItems s oid))) (dbItems s)"
proof -
  have "distinct (dbItems s)" using u by (simp add: uniqueKey_def distinct_map)
  then have d: "distinct (orderItems s oid)" "set (orderItems s oid) \<subseteq> set (dbItems s)"
    by (auto simp: orderItems_def)
  have same: "stampItem env s i = i" if "i \<in> set (dbItems s)" for i
    using byKey_in [OF u that] by (simp add: stampItem_def)
  have l: "saveRows oi_id (map (\<lambda>i. stampItem env s (f i)) (filter P (orderItems s oid))) (dbItems s) =
      map (\<lambda>x. if x \<in> set (filter P (orderItems s oid)) then stampItem env s (f x) else x) (dbItems s)"
    using saveRows_map [OF u, of "\<lambda>i. stampItem env s (f i)" "filter P (orderItems s oid)"] d f by auto
  have r: "saveRows oi_id (map (\<lambda>i. stampItem env s (if P i then f i else i)) (orderItems s oid)) (dbItems s) =
      map (\<lambda>x. if x \<in> set (orderItems s oid) then stampItem env s (if P x then f x else x) else x) (dbItems s)"
    using saveRows_map [OF u, of "\<lambda>i. stampItem env s (if P i then f i else i)" "orderItems s oid"] d f by auto
  show ?thesis
    unfolding map_map comp_def l r by (rule map_cong [OF refl]) (auto simp: same)
qed

lemma saveStoreItems_eq:
  assumes "uniqueKey oi_id (dbItems s)" and "\<And>i. oi_id (f i) = oi_id i"
  shows "saveRows oi_id (map (stampItem env s) (map f (filter (\<lambda>i. oi_storeId i = st) (orderItems s oid)))) (dbItems s) =
    saveRows oi_id (map (stampItem env s) (map (onStore st f) (orderItems s oid))) (dbItems s)"
  unfolding onStore_def by (rule saveItems_filter [OF assms])

lemma saveRow_same: "byKey key (key r) xs = Some r \<Longrightarrow> saveRow key r xs = xs"
  by (induction xs) (auto split: if_splits)

lemma retrack_simps [simp]:
  "oi_id (retrackItem env a b c i) = oi_id i" "oi_orderId (retrackItem env a b c i) = oi_orderId i"
  "oi_fulfillmentStatus (retrackItem env a b c i) = oi_fulfillmentStatus i"
  by (simp_all add: retrackItem_def)

lemma statusesOf_onStore: "(\<And>i. oi_fulfillmentStatus (f i) = oi_fulfillmentStatus i) \<Longrightarrow>
    statusesOf (map (onStore st f) items) = statusesOf items"
  by (simp add: statusesOf_def onStore_def)

lemma retrack_preserves:
  assumes inv: "ordersInv s" and found: "findOrder s oid = Some ord"
    and t: "dbOrders t = dbOrders s"
      "dbItems t = saveRows oi_id (map (stampItem env s) (map (retrackItem env a b c)
         (filter (\<lambda>i. oi_storeId i = st) (orderItems s oid)))) (dbItems s)"
  shows "ordersInv t"
proof (rule ordersInv_transition [OF inv, where f = "onStore st (retrackItem env a b c)" and row = ord and oid = oid and env = env])
  have u: "uniqueKey oi_id (dbItems s)" using inv by (simp add: ordersInv_def)
  show id: "o_id ord = oid" using found by (rule findOrder_id)
  have "headerOk (o_status ord) (orderItems s oid)" using inv found by (simp add: ordersInv_def)
  then show "headerOk (o_status ord) (map (onStore st (retrackItem env a b c)) (orderItems s oid))"
    unfolding headerOk_def by (simp add: statusesOf_onStore)
  show "dbOrders t = saveRow o_id ord (dbOrders s)"
    using saveRow_same [of o_id ord "dbOrders s"] found id t(1) by (simp add: findOrder_def)
  show "dbItems t = saveRows oi_id (map (stampItem env s) (map (onStore st (retrackItem env a b c)) (orderItems s oid))) (dbItems s)"
    unfolding t(2) by (rule saveStoreItems_eq [OF u]) simp
qed simp_all

lemma tracking_preserves:
  assumes "ordersInv s"
  shows "wp (updateTrackingForPublicApi env urlParse userId storeId oid number prov url) (\<lambda>_. ordersInv) (\<lambda>_. ordersInv) s"
  unfolding updateTrackingForPublicApi_def wp_seq wp_prod case_prod_unfold
proof (intro reads assms)
  fix v storeItems
  assume v: "findOrder s oid = Some (fst v) \<and> snd v = orderItems s oid"
    and si: "storeItems = filter (\<lambda>i. oi_storeId i = storeId) (snd v) \<and> storeItems \<noteq> [] \<and>
      storeId \<in> st_id ` fst ` set (getAccessibleStores userId s)"
  have retrack: "wp (saveItems env (map (retrackItem env a b c) storeItems))
      (\<lambda>_. wp (loadOrderWithItems oid) (\<lambda>_. ordersInv) (\<lambda>_. ordersInv)) (\<lambda>_. ordersInv) s" for a b c
    using retrack_preserves [OF assms, of oid "fst v" _ env a b c storeId] v si by (simp add: wp split: option.split)
  have rest: "wp (if c then seqM (acknowledgeVendorOrder env userId storeId oid) (\<lambda>_. retM ()) else retM ())
      (\<lambda>_. wp (shipVendorOrder env urlParse userId storeId oid number prov url) (\<lambda>_. ordersInv) (\<lambda>_. ordersInv))
      (\<lambda>_. ordersInv) s" for c
    using ship_preserves assms by (auto simp: wp intro: wp_conseq [OF acknowledge_preserves [OF assms]])
  show "wp (if set (statusesOf storeItems) = {FS_SHIPPED} then
         seqM (liftM (validateTrackingNumber number)) (\<lambda>number.
         seqM (liftM (validateFulfillmentProvider prov)) (\<lambda>prov.
         seqM (liftM (validateOptionalTrackingUrl urlParse url)) (\<lambda>url.
         seqM (saveItems env (map (retrackItem env number prov url) storeItems)) (\<lambda>_. loadOrderWithItems oid))))
       else seqM (if set (statusesOf storeItems) = {FS_PENDING}
               then seqM (acknowledgeVendorOrder env userId storeId oid) (\<lambda>_. retM ()) else retM ()) (\<lambda>_.
           shipVendorOrder env urlParse userId storeId oid number prov url)) (\<lambda>_. ordersInv) (\<lambda>_. ordersInv) s"
  proof (cases "set (statusesOf storeItems) = {FS_SHIPPED}")
    case True
    then show ?thesis unfolding if_P [OF True] wp_seq by (intro reads assms retrack)
  next
    case False
    show ?thesis unfolding if_not_P [OF False] wp_seq [of "if _ then _ else _"] by (rule rest)
  qed
qed

section \<open>What a committed transition looks like\<close>

lemma stampItem_same: "uniqueKey oi_id (dbItems s) \<Longrightarrow> i \<in> set (dbItems s) \<Longrightarrow> stampItem env s i = i"
  by (simp add: stampItem_def byKey_in)

lemma stampItem_updated: "oi_updatedAt i = envNow env \<Longrightarrow> stampItem env s i = i"
  by (simp add: stampItem_def)

lemma committed_effect:
  assumes u: "uniqueKey oi_id (dbItems s)" and id: "o_id ord = oid"
    and f: "\<And>i. oi_id (f i) = oi_id i" "\<And>i. oi_orderId (f i) = oi_orderId i" "\<And>i. oi_updatedAt (f i) = envNow env"
    and c: "committed env ord (map (onStore st f) (orderItems s oid)) next True s t"
  shows "orderItems t j = (if j = oid then map (onStore st f) (orderItems s oid) else orderItems s j)"
    and "findOrder t j = (if j = oid then Some (stampOrder env s (transitionRow env ord next)) else findOrder s j)"
proof -
  have t: "dbOrders t = saveRow o_id (stampOrder env s (transitionRow env ord next)) (dbOrders s)"
    "dbItems t = saveRows oi_id (map (stampItem env s) (map (onStore st f) (orderItems s oid))) (dbItems s)"
    using c by (simp_all add: committed_def)
  have same: "stampItem env s (onStore st f i) = onStore st f i" if "i \<in> set (orderItems s oid)" for i
    using that stampItem_same [OF u, of i env] stampItem_updated [of "f i" env s] f(3)
    by (auto simp: onStore_def orderItems_def)
  have "orderItems t j = (if j = oid then map (\<lambda>i. stampItem env s (onStore st f i)) (orderItems s oid) else orderItems s j)"
    unfolding orderItems_def [of t j] t(2) by (rule saveItems_order(1) [OF u]) (simp_all add: f)
  then show "orderItems t j = (if j = oid then map (onStore st f) (orderItems s oid) else orderItems s j)"
    using same by simp
  show "findOrder t j = (if j = oid then Some (stampOrder env s (transitionRow env ord next)) else findOrder s j)"
    using order_repo.byId_save [of j "stampOrder env s (transitionRow env ord next)" "dbOrders s"] id
    by (simp add: findOrder_def t(1))
qed

lemma filter_onStore:
  assumes "\<And>i. oi_storeId (f i) = oi_storeId i"
  shows "filter (\<lambda>i. oi_storeId i = st) (map (onStore st f) xs) = map f (filter (\<lambda>i. oi_storeId i = st) xs)"
    and "filter (\<lambda>i. oi_storeId i \<noteq> st) (map (onStore st f) xs) = filter (\<lambda>i. oi_storeId i \<noteq> st) xs"
  using assms by (induction xs) (auto simp: onStore_def)

lemma updatedAt_simps [simp]:
  "oi_updatedAt (ackItem env i) = envNow env" "oi_updatedAt (shipItem env a b c i) = envNow env"
  by (simp_all add: ackItem_def shipItem_def)

lemma acknowledge_wp:
  "wp (acknowledgeVendorOrder env userId storeId oid)
    (\<lambda>_ t. \<exists>ord items next label. ackPlanned env s userId storeId oid (ord, items, next, label) \<and>
       committed env ord items next True s t)
    (\<lambda>e t. t = s \<or> mailRefused env oid e) s"
  unfolding acknowledgeVendorOrder_def wp_seq
proof (rule wp_read [OF acknowledgePlan_read])
  fix r
  assume r: "ackPlanned env s userId storeId oid r"
  obtain ord items nxt lab where eq: "r = (ord, items, nxt, lab)" by (cases r) auto
  then have id: "o_id ord = oid" using r findOrder_id by (auto simp: ackPlanned_def)
  show "wp (acknowledgeCommit env userId storeId r)
    (\<lambda>_ t. \<exists>ord items next label. ackPlanned env s userId storeId oid (ord, items, next, label) \<and>
       committed env ord items next True s t)
    (\<lambda>e t. t = s \<or> mailRefused env oid e) s"
    unfolding acknowledgeCommit_def eq prod.case
    by (rule wp_conseq [OF persist_wp]) (use r eq id in auto)
qed simp

lemma ship_wp:
  "wp (shipVendorOrder env urlParse userId storeId oid number prov url)
    (\<lambda>_ t. \<exists>ord items next. shipPlanned env urlParse s userId storeId oid number prov url (ord, items, next) \<and>
       committed env ord items next True s t)
    (\<lambda>e t. t = s \<or> mailRefused env oid e) s"
  unfolding shipVendorOrder_def wp_seq
proof (rule wp_read [OF shipPlan_read])
  fix r
  assume r: "shipPlanned env urlParse s userId storeId oid number prov url r"
  obtain ord items nxt where eq: "r = (ord, items, nxt)" by (cases r) auto
  then have id: "o_id ord = oid" using r findOrder_id by (auto simp: shipPlanned_def)
  show "wp (shipCommit env userId storeId r)
    (\<lambda>_ t. \<exists>ord items next. shipPlanned env urlParse s userId storeId oid number prov url (ord, items, next) \<and>
       committed env ord items next True s t)
    (\<lambda>e t. t = s \<or> mailRefused env oid e) s"
    unfolding shipCommit_def eq prod.case
    by (rule wp_conseq [OF persist_wp]) (use r eq id in auto)
qed simp

section \<open>Properties\<close>

text \<open>C13. The header of every order stays the one its lines determine: mark paid, acknowledge, ship,
  tracking update, delivery confirmation and vendor cancel keep, for every order that is neither
  unpaid nor terminal, the status equal to the derived one, whether the call succeeds or raises.\<close>

theorem fulfillment_headers_consistent:
  assumes "ordersInv s"
  shows "ordersInv (snd (markVendorOrderPaid env userId storeId oid s)) \<and>
    ordersInv (snd (acknowledgeVendorOrder env userId storeId oid s)) \<and>
    ordersInv (snd (shipVendorOrder env urlParse userId storeId oid number prov url s)) \<and>
    ordersInv (snd (updateTrackingForPublicApi env urlParse userId storeId oid number prov url s)) \<and>
    ordersInv (snd (confirmOrderDelivered env hash oid customerId guestPhone token s)) \<and>
    ordersInv (snd (cancelVendorOrder env userId storeId oid s))"
  by (intro conjI wp_invariant markPaid_preserves acknowledge_preserves ship_preserves tracking_preserves
      confirm_preserves cancel_preserves assms)

text \<open>A multi-vendor order in progress: the line of store \<open>a\<close> is being processed, that of \<open>b\<close> waits.\<close>

definition sampleOrder :: "string \<Rightarrow> order_status \<Rightarrow> order_row" where
  "sampleOrder i status = \<lparr>o_id = i, o_orderNumber = i, o_customerId = Some ''c'', o_guestPhone = None, o_guestName = None,
     o_guestEmail = None, o_guestPayTokenHash = None, o_guestPayTokenExpiresAt = None, o_status = status,
     o_previousStatus = None, o_subtotal = 20, o_discountAmount = 0, o_shippingFee = 0, o_total = 20,
     o_paymentMethod = PM_PROMPTPAY, o_paymentReference = None, o_paidAt = Some 0, o_notes = None,
     o_sourceDisputeId = None, o_source = DS_PLATFORM, o_createdAt = 0, o_updatedAt = 0\<rparr>"

definition lineA :: item_row where
  "lineA = (sampleItem ''i1'' 1)\<lparr>oi_storeId := ''a'', oi_fulfillmentStatus := FS_PROCESSING\<rparr>"

definition lineB :: item_row where
  "lineB = (sampleItem ''i2'' 1)\<lparr>oi_storeId := ''b''\<rparr>"

definition sampleMulti :: db where
  "sampleMulti = empty_db\<lparr>dbOrders := [sampleOrder ''o'' OS_PROCESSING], dbItems := [lineA, lineB],
     dbStores := [sampleStore ''a'' ST_APPROVED, sampleStore ''b'' ST_APPROVED]\<rparr>"

lemma sampleOrder_simps [simp]: "o_id (sampleOrder i st) = i" "o_status (sampleOrder i st) = st"
  by (simp_all add: sampleOrder_def)

lemma sample_lines [simp]:
  "oi_id lineA = ''i1''" "oi_orderId lineA = ''o''" "oi_storeId lineA = ''a''" "oi_fulfillmentStatus lineA = FS_PROCESSING"
  "oi_id lineB = ''i2''" "oi_orderId lineB = ''o''" "oi_storeId lineB = ''b''" "oi_fulfillmentStatus lineB = FS_PENDING"
  by (simp_all add: lineA_def lineB_def sampleItem_def)

lemma sampleMulti_simps [simp]:
  "dbOrders sampleMulti = [sampleOrder ''o'' OS_PROCESSING]" "dbItems sampleMulti = [lineA, lineB]"
  "orderItems sampleMulti ''o'' = [lineA, lineB]"
  "findOrder sampleMulti ''o'' = Some (sampleOrder ''o'' OS_PROCESSING)"
  by (simp_all add: sampleMulti_def orderItems_def findOrder_def)

lemma sampleMulti_unique: "uniqueKey oi_id (dbItems sampleMulti)"
  by (simp add: uniqueKey_def)

lemma sampleMulti_inv: "ordersInv sampleMulti"
proof -
  have "headerOk (o_status ord) (orderItems sampleMulti i)" if "findOrder sampleMulti i = Some ord" for i ord
    using that by (auto simp: findOrder_def headerOk_def statusesOf_def deriveOrderStatusFromFulfillment_def
        terminalOrderStatuses_def split: if_splits)
  then show ?thesis using sampleMulti_unique by (auto simp: ordersInv_def)
qed

theorem fulfillment_headers_consistent_witness:
  "ordersInv (snd (shipVendorOrder sampleClock (\<lambda>_. None) ''owner'' ''a'' ''o'' ''n'' ''p'' None sampleMulti)) \<and>
   ordersInv (snd (acknowledgeVendorOrder sampleClock ''owner'' ''b'' ''o'' sampleMulti))"
  using fulfillment_headers_consistent [OF sampleMulti_inv] by blast

text \<open>Shipping touches exactly the acting store's lines: the store is accessible and all its lines
  were being processed, each of them now carries the validated tracking data, every other line of
  the order and every other order is untouched, and the header is the derived one.\<close>

theorem ship_effect:
  assumes "uniqueKey oi_id (dbItems s)"
    and "shipVendorOrder env urlParse userId storeId oid number prov url s = (Inr r, t)"
  shows "\<exists>ord n p u. findOrder s oid = Some ord \<and> o_status ord \<in> {OS_PAID, OS_PROCESSING, OS_SHIPPED} \<and>
    storeId \<in> st_id ` fst ` set (getAccessibleStores userId s) \<and>
    validateTrackingNumber number = Inr n \<and> validateFulfillmentProvider prov = Inr p \<and>
    validateOptionalTrackingUrl urlParse url = Inr u \<and>
    set (statusesOf (filter (\<lambda>i. oi_storeId i = storeId) (orderItems s oid))) = {FS_PROCESSING} \<and>
    filter (\<lambda>i. oi_storeId i = storeId) (orderItems t oid) =
      map (shipItem env n p u) (filter (\<lambda>i. oi_storeId i = storeId) (orderItems s oid)) \<and>
    filter (\<lambda>i. oi_storeId i \<noteq> storeId) (orderItems t oid) = filter (\<lambda>i. oi_storeId i \<noteq> storeId) (orderItems s oid) \<and>
    map_option o_status (findOrder t oid) =
      Some (deriveOrderStatusFromFulfillment (o_status ord) (statusesOf (orderItems t oid))) \<and>
    (\<forall>j. j = oid \<or> orderItems t j = orderItems s j \<and> findOrder t j = findOrder s j)"
proof -
  from wp_Inr [OF ship_wp assms(2)] obtain ord nxt n p u where
    o: "findOrder s oid = Some ord" "o_status ord \<in> {OS_PAID, OS_PROCESSING, OS_SHIPPED}"
      "validateTrackingNumber number = Inr n" "validateFulfillmentProvider prov = Inr p"
      "validateOptionalTrackingUrl urlParse url = Inr u"
      "set (statusesOf (filter (\<lambda>i. oi_storeId i = storeId) (orderItems s oid))) = {FS_PROCESSING}"
      "storeId \<in> st_id ` fst ` set (getAccessibleStores userId s)"
    and n: "nxt = deriveOrderStatusFromFulfillment (o_status ord)
        (statusesOf (map (onStore storeId (shipItem env n p u)) (orderItems s oid)))"
    and c: "committed env ord (map (onStore storeId (shipItem env n p u)) (orderItems s oid)) nxt True s t"
    unfolding shipPlanned_def prod.case by blast
  note eff = committed_effect [OF assms(1) findOrder_id [OF o(1)] _ _ _ c, simplified]
  show ?thesis
    by (intro exI [of _ ord] exI [of _ n] exI [of _ p] exI [of _ u])
      (use o n in \<open>simp add: eff filter_onStore\<close>)
qed

lemma sampleMulti_access [simp]:
  "st_id ` fst ` set (getAccessibleStores ''owner'' sampleMulti) = {''a'', ''b''}"
  by (auto simp: getAccessibleStores_def set_addMemberships getVendorStores_def sampleMulti_def empty_db_def sampleStore_def)

lemma sample_ship_plan:
  "shipPlan sampleClock (\<lambda>_. None) ''owner'' ''a'' ''o'' ''n'' ''p'' None sampleMulti =
     (Inr (sampleOrder ''o'' OS_PROCESSING, [shipItem sampleClock ''n'' ''p'' None lineA, lineB], OS_PROCESSING), sampleMulti)"
  by (simp add: shipPlan_def loadOrderWithItems_def assertVendorStoreAccess_def Let_def statusesOf_def onStore_def
      assertNoHeldItemsForVendorFulfillment_def validateTrackingNumber_def validateFulfillmentProvider_def js_trim_def js_ws_def
      validateOptionalTrackingUrl_def assertVendorItemsUniform_def deriveOrderStatusFromFulfillment_def terminalOrderStatuses_def)

lemma sample_ack_plan:
  "\<exists>label. acknowledgePlan sampleClock ''owner'' ''b'' ''o'' sampleMulti =
     (Inr (sampleOrder ''o'' OS_PROCESSING, [lineA, ackItem sampleClock lineB], OS_PROCESSING, label), sampleMulti)"
  by (simp add: acknowledgePlan_def loadOrderWithItems_def assertVendorStoreAccess_def Let_def statusesOf_def onStore_def
      assertNoHeldItemsForVendorFulfillment_def assertVendorItemsUniform_def deriveOrderStatusFromFulfillment_def
      terminalOrderStatuses_def)

text \<open>Without a refused e-mail a planned transition commits.\<close>

lemma sampleClock_mail [simp]: "envMailFails sampleClock i = False"
  by (simp add: sampleClock_def)

lemma commit_succeeds:
  assumes "keepsOrders afterSave" and "\<And>e u v. afterSave u \<noteq> (Inl e, v)" and "\<not> envMailFails env (o_id ord)"
  shows "\<exists>r t. persistOrderTransition env ord items next userId remark w afterSave s = (Inr r, t)"
proof -
  have after: "wp afterSave (\<lambda>_ v. dbOrders v = dbOrders u) (\<lambda>_ _. False) u" for u
    using assms(1,2) by (auto simp: keepsOrders_def wp_def split: prod.splits sum.splits)
  have found: "findOrder t (o_id ord) = Some (stampOrder env s (transitionRow env ord next))"
    if "dbOrders t = saveRow o_id (stampOrder env s (transitionRow env ord next)) (dbOrders s)" for t
    using that by (simp add: findOrder_def byKey_saveRow)
  have "wp (persistOrderTransition env ord items next userId remark w afterSave) (\<lambda>_ _. True) (\<lambda>_ _. False) s"
    unfolding persistOrderTransition_def wp transitionRow_def [symmetric]
    by (cases w; simp) (rule wp_conseq [OF after],
      use found assms(3) in \<open>force simp: notifyTransition_def wp Let_def split: option.split\<close>, simp)+
  then show ?thesis by (auto simp: wp_def split: prod.splits sum.splits)
qed

lemma sample_ship: "\<exists>r t. shipVendorOrder sampleClock (\<lambda>_. None) ''owner'' ''a'' ''o'' ''n'' ''p'' None sampleMulti = (Inr r, t)"
  unfolding shipVendorOrder_def seqM_simps(2) [where m = "shipPlan _ _ _ _ _ _ _ _", OF sample_ship_plan] shipCommit_def prod.case
  by (rule commit_succeeds) simp_all

theorem ship_effect_witness:
  "\<exists>r t. shipVendorOrder sampleClock (\<lambda>_. None) ''owner'' ''a'' ''o'' ''n'' ''p'' None sampleMulti = (Inr r, t) \<and>
     filter (\<lambda>i. oi_storeId i = ''a'') (orderItems t ''o'') = [shipItem sampleClock ''n'' ''p'' None lineA] \<and>
     filter (\<lambda>i. oi_storeId i \<noteq> ''a'') (orderItems t ''o'') = [lineB]"
proof -
  obtain r t where 1: "shipVendorOrder sampleClock (\<lambda>_. None) ''owner'' ''a'' ''o'' ''n'' ''p'' None sampleMulti = (Inr r, t)"
    using sample_ship by blast
  have v: "validateTrackingNumber ''n'' = Inr ''n''" "validateFulfillmentProvider ''p'' = Inr ''p''"
    "validateOptionalTrackingUrl (\<lambda>_. None) None = Inr None"
    by (simp_all add: validateTrackingNumber_def validateFulfillmentProvider_def validateOptionalTrackingUrl_def js_trim_def js_ws_def)
  from ship_effect [OF sampleMulti_unique 1] 1 v show ?thesis by auto
qed

lemma persist_rejection:
  "keepsOrders after \<Longrightarrow> o_id ord = oid \<Longrightarrow> wp (persistOrderTransition env ord items next userId remark w after) (\<lambda>_ _. True)
     (\<lambda>e t. t = s \<or> mailRefused env oid e) s"
  by (rule wp_conseq [OF persist_wp]) auto

lemma markPaid_rejection:
  "wp (markVendorOrderPaid env userId storeId oid) (\<lambda>_ _. True) (\<lambda>e t. t = s \<or> mailRefused env oid e) s"
  unfolding markVendorOrderPaid_def wp_seq wp_prod case_prod_unfold
  by (intro reads disjI1 refl persist_rejection keepsOrders_ret keepsOrders_failIf) (auto dest: findOrder_id)

lemma confirm_rejection:
  "wp (confirmOrderDelivered env hash oid customerId guestPhone token) (\<lambda>_ _. True) (\<lambda>e t. t = s \<or> mailRefused env oid e) s"
  unfolding confirmOrderDelivered_def wp_seq wp_prod case_prod_unfold
  by (intro reads disjI1 refl persist_rejection keepsOrders_ret keepsOrders_failIf) (auto dest: findOrder_id)

lemma cancel_commit_rejection:
  "o_id ord = oid \<Longrightarrow> wp (cancelCommit env userId storeId oid ord items) (\<lambda>_ _. True)
     (\<lambda>e t. t = s \<or> mailRefused env oid e) s"
  by (rule wp_conseq [OF cancelCommit_wp]) auto

lemma cancel_rejection:
  "wp (cancelVendorOrder env userId storeId oid) (\<lambda>_ _. True) (\<lambda>e t. t = s \<or> mailRefused env oid e) s"
  unfolding cancelVendorOrder_def wp_seq wp_prod case_prod_unfold
  by (intro reads disjI1 refl cancel_commit_rejection) (auto dest: findOrder_id)

lemmas rejections = markPaid_rejection confirm_rejection cancel_rejection

text \<open>C22. Five fulfillment actions are all or nothing: when mark paid, acknowledge, ship, confirm or cancel is
  rejected, whatever guard fails, it has written nothing, unless the error is the status
  e-mail's, which comes after the commit. (The sixth, the tracking update of the public API, is two transactions.)\<close>

theorem rejected_actions_change_nothing:
  assumes "m \<in> {markVendorOrderPaid env userId storeId oid, acknowledgeVendorOrder env userId storeId oid,
      shipVendorOrder env urlParse userId storeId oid number prov url,
      confirmOrderDelivered env hash oid customerId guestPhone token, cancelVendorOrder env userId storeId oid}"
    and "m s = (Inl e, t)" and "\<not> mailRefused env oid e"
  shows "t = s"
proof -
  have "wp m (\<lambda>_ _. True) (\<lambda>e t. t = s \<or> mailRefused env oid e) s"
    using assms(1) by (auto intro: rejections wp_conseq [OF acknowledge_wp] wp_conseq [OF ship_wp])
  from wp_Inl [OF this assms(2)] assms(3) show ?thesis by blast
qed

theorem rejected_actions_change_nothing_witness:
  "\<exists>e. acknowledgeVendorOrder sampleClock ''owner'' ''a'' ''o'' sampleMulti = (Inl e, sampleMulti)"
proof -
  have "acknowledgePlan sampleClock ''owner'' ''a'' ''o'' sampleMulti = (Inl (BadRequest ''INVALID_FULFILLMENT_STATE''), sampleMulti)"
    by (simp add: acknowledgePlan_def loadOrderWithItems_def assertVendorStoreAccess_def Let_def statusesOf_def
        assertNoHeldItemsForVendorFulfillment_def assertVendorItemsUniform_def)
  then obtain t where t: "acknowledgeVendorOrder sampleClock ''owner'' ''a'' ''o'' sampleMulti =
      (Inl (BadRequest ''INVALID_FULFILLMENT_STATE''), t)"
    by (simp add: acknowledgeVendorOrder_def)
  have "t = sampleMulti"
    by (rule rejected_actions_change_nothing [where m = "acknowledgeVendorOrder sampleClock ''owner'' ''a'' ''o''"
        and env = sampleClock and userId = "''owner''" and storeId = "''a''" and oid = "''o''", OF _ t])
      (simp_all add: mailRefused_def)
  with t show ?thesis by blast
qed

text \<open>A refused status e-mail makes a committed transition look failed: the acknowledgement is
  stored, the caller gets the error, the vendor's notification and webhook are never sent, and a
  retry is refused because the lines are no longer pending.\<close>

theorem mail_failure_after_commit:
  assumes "acknowledgePlan env userId storeId oid s = (Inr (ord, items, next, label), s)"
    and "next \<noteq> o_status ord" and "envMailFails env oid" and "storeId \<noteq> []" and "uniqueKey oi_id (dbItems s)"
  shows "\<exists>t. acknowledgeVendorOrder env userId storeId oid s = (Inl (Failure ''Failed to send email''), t) \<and>
    map_option o_status (findOrder t oid) = Some next \<and>
    set (statusesOf (filter (\<lambda>i. oi_storeId i = storeId) (orderItems t oid))) = {FS_PROCESSING} \<and>
    dbEffects t = dbEffects s @ [NotifyOrderStatus oid next]"
proof -
  from wp_Inr [OF acknowledgePlan_read assms(1)] have p: "findOrder s oid = Some ord"
    "items = map (onStore storeId (ackItem env)) (orderItems s oid)"
    "set (statusesOf (filter (\<lambda>i. oi_storeId i = storeId) (orderItems s oid))) = {FS_PENDING}"
    by (auto simp: ackPlanned_def)
  have id: "o_id ord = oid" using findOrder_id [OF p(1)] .
  let ?row = "stampOrder env s (transitionRow env ord next)"
  have found: "findOrder t oid = Some ?row" if "dbOrders t = saveRow o_id ?row (dbOrders s)" for t
    using order_repo.read_own_write [of ?row "dbOrders s"] that id by (simp add: findOrder_def)
  have "wp (acknowledgeCommit env userId storeId (ord, items, next, label)) (\<lambda>_ _. False)
    (\<lambda>e t. e = Failure ''Failed to send email'' \<and> committed env ord items next True s t \<and>
       dbEffects t = dbEffects s @ [NotifyOrderStatus oid next]) s"
    unfolding acknowledgeCommit_def prod.case persistOrderTransition_def wp transitionRow_def [symmetric] committed_def
    using assms(2-4) found id
    by (auto simp: notifyTransition_def wp Let_def split: option.split)
  then obtain t where t: "acknowledgeCommit env userId storeId (ord, items, next, label) s = (Inl (Failure ''Failed to send email''), t)"
    "committed env ord items next True s t" "dbEffects t = dbEffects s @ [NotifyOrderStatus oid next]"
    by (auto simp: wp_def split: prod.splits sum.splits)
  note eff = committed_effect [OF assms(5) id _ _ _ t(2) [unfolded p(2)], simplified]
  have "filter (\<lambda>i. oi_storeId i = storeId) (orderItems s oid) \<noteq> []"
  proof
    assume none: "filter (\<lambda>i. oi_storeId i = storeId) (orderItems s oid) = []"
    show False using p(3) unfolding none statusesOf_def by simp
  qed
  then have "set (statusesOf (filter (\<lambda>i. oi_storeId i = storeId) (orderItems t oid))) = {FS_PROCESSING}"
    by (auto simp: eff filter_onStore statusesOf_def filter_empty_conv image_image)
  moreover have "acknowledgeVendorOrder env userId storeId oid s = (Inl (Failure ''Failed to send email''), t)"
    unfolding acknowledgeVendorOrder_def seqM_simps(2) [of "acknowledgePlan _ _ _ _", OF assms(1)] by (rule t(1))
  ultimately show ?thesis using t(3) by (auto simp: eff)
qed

definition samplePaid :: db where
  "samplePaid = sampleMulti\<lparr>dbOrders := [sampleOrder ''o'' OS_PAID], dbItems := [lineB]\<rparr>"

lemma samplePaid_simps [simp]:
  "dbItems samplePaid = [lineB]" "orderItems samplePaid ''o'' = [lineB]"
  "findOrder samplePaid ''o'' = Some (sampleOrder ''o'' OS_PAID)"
  "st_id ` fst ` set (getAccessibleStores ''owner'' samplePaid) = {''a'', ''b''}"
  by (simp_all add: samplePaid_def orderItems_def findOrder_def)
    (auto simp: getAccessibleStores_def set_addMemberships getVendorStores_def sampleMulti_def empty_db_def sampleStore_def)

definition refusingClock :: env where
  "refusingClock = sampleClock\<lparr>envMailFails := (\<lambda>_. True)\<rparr>"

theorem mail_failure_after_commit_witness:
  "\<exists>t. acknowledgeVendorOrder refusingClock ''owner'' ''b'' ''o'' samplePaid = (Inl (Failure ''Failed to send email''), t) \<and>
     map_option o_status (findOrder t ''o'') = Some OS_PROCESSING \<and>
     dbEffects t = dbEffects samplePaid @ [NotifyOrderStatus ''o'' OS_PROCESSING]"
proof -
  have "\<exists>label. acknowledgePlan refusingClock ''owner'' ''b'' ''o'' samplePaid =
     (Inr (sampleOrder ''o'' OS_PAID, [ackItem refusingClock lineB], OS_PROCESSING, label), samplePaid)"
    by (simp add: acknowledgePlan_def loadOrderWithItems_def assertVendorStoreAccess_def Let_def statusesOf_def onStore_def
        assertNoHeldItemsForVendorFulfillment_def assertVendorItemsUniform_def deriveOrderStatusFromFulfillment_def
        terminalOrderStatuses_def)
  then obtain label where "acknowledgePlan refusingClock ''owner'' ''b'' ''o'' samplePaid =
     (Inr (sampleOrder ''o'' OS_PAID, [ackItem refusingClock lineB], OS_PROCESSING, label), samplePaid)" by blast
  from mail_failure_after_commit [OF this] show ?thesis by (auto simp: refusingClock_def uniqueKey_def)
qed

text \<open>The public API's tracking update is not atomic: when all lines are pending and the tracking
  number is invalid, the caller gets an error although the order has been acknowledged.\<close>

theorem tracking_update_not_atomic:
  assumes "acknowledgeVendorOrder env userId storeId oid s = (Inr r, t)" and "validateTrackingNumber number = Inl e"
    and "uniqueKey oi_id (dbItems s)"
  shows "\<exists>e'. updateTrackingForPublicApi env urlParse userId storeId oid number prov url s = (Inl e', t) \<and>
    set (statusesOf (filter (\<lambda>i. oi_storeId i = storeId) (orderItems s oid))) = {FS_PENDING} \<and>
    set (statusesOf (filter (\<lambda>i. oi_storeId i = storeId) (orderItems t oid))) = {FS_PROCESSING}"
proof -
  from wp_Inr [OF acknowledge_wp assms(1)] obtain ord nxt where
    p: "findOrder s oid = Some ord" "storeId \<in> st_id ` fst ` set (getAccessibleStores userId s)"
      "set (statusesOf (filter (\<lambda>i. oi_storeId i = storeId) (orderItems s oid))) = {FS_PENDING}"
    and c: "committed env ord (map (onStore storeId (ackItem env)) (orderItems s oid)) nxt True s t"
    unfolding ackPlanned_def prod.case by blast
  note eff = committed_effect [OF assms(3) findOrder_id [OF p(1)] _ _ _ c, simplified]
  have ne: "filter (\<lambda>i. oi_storeId i = storeId) (orderItems s oid) \<noteq> []"
  proof
    assume none: "filter (\<lambda>i. oi_storeId i = storeId) (orderItems s oid) = []"
    show False using p(3) unfolding none statusesOf_def by simp
  qed
  have held: "assertNoHeldItemsForVendorFulfillment (filter (\<lambda>i. oi_storeId i = storeId) (orderItems s oid)) = Inr ()"
    using p(3) by (force simp: assertNoHeldItemsForVendorFulfillment_def list_ex_iff statusesOf_def)
  have "wp (shipPlan env urlParse userId storeId oid number prov url) (\<lambda>_ _. False) (\<lambda>_ u. u = t) t"
    unfolding shipPlan_def wp_seq wp_prod case_prod_unfold by (intro reads refl) (use assms(2) in auto)
  then obtain e' where ship: "shipVendorOrder env urlParse userId storeId oid number prov url t = (Inl e', t)"
    by (auto simp: wp_def shipVendorOrder_def seqM_def split: prod.splits sum.splits)
  have "updateTrackingForPublicApi env urlParse userId storeId oid number prov url s = (Inl e', t)"
    using p ne held assms(1) ship
    by (simp add: updateTrackingForPublicApi_def loadOrderWithItems_def assertVendorStoreAccess_def Let_def seqM_def)
  moreover have "set (statusesOf (filter (\<lambda>i. oi_storeId i = storeId) (orderItems t oid))) = {FS_PROCESSING}"
    using ne by (auto simp: eff filter_onStore statusesOf_def filter_empty_conv image_image)
  ultimately show ?thesis using p(3) by blast
qed

lemma acknowledgeCommit_succeeds:
  assumes "storeId \<noteq> []" and "\<not> envMailFails env (o_id ord)"
  shows "\<exists>r t. acknowledgeCommit env userId storeId (ord, items, next, label) s = (Inr r, t)"
  unfolding acknowledgeCommit_def prod.case
  by (rule commit_succeeds [OF keepsOrders_audit]) (use assms in \<open>auto simp: appendAudit_def\<close>)

lemma samplePaid_ack: "\<exists>r t. acknowledgeVendorOrder sampleClock ''owner'' ''b'' ''o'' samplePaid = (Inr r, t)"
proof -
  have "\<exists>label. acknowledgePlan sampleClock ''owner'' ''b'' ''o'' samplePaid =
     (Inr (sampleOrder ''o'' OS_PAID, [ackItem sampleClock lineB], OS_PROCESSING, label), samplePaid)"
    by (simp add: acknowledgePlan_def loadOrderWithItems_def assertVendorStoreAccess_def Let_def statusesOf_def onStore_def
        assertNoHeldItemsForVendorFulfillment_def assertVendorItemsUniform_def deriveOrderStatusFromFulfillment_def
        terminalOrderStatuses_def)
  then show ?thesis
    unfolding acknowledgeVendorOrder_def using acknowledgeCommit_succeeds [of "''b''" sampleClock] by (auto simp: seqM_def)
qed

theorem tracking_update_not_atomic_witness:
  "\<exists>e t. updateTrackingForPublicApi sampleClock (\<lambda>_. None) ''owner'' ''b'' ''o'' [] ''p'' None samplePaid = (Inl e, t) \<and>
     set (statusesOf (filter (\<lambda>i. oi_storeId i = ''b'') (orderItems t ''o''))) = {FS_PROCESSING}"
proof -
  obtain r t where 1: "acknowledgeVendorOrder sampleClock ''owner'' ''b'' ''o'' samplePaid = (Inr r, t)"
    using samplePaid_ack by blast
  have "validateTrackingNumber [] = Inl (BadRequest ''TRACKING_NUMBER_REQUIRED'')"
    by (simp add: validateTrackingNumber_def js_trim_def)
  from tracking_update_not_atomic [OF 1 this, of "\<lambda>_. None" "''p''" None] show ?thesis by (auto simp: uniqueKey_def)
qed

text \<open>C0. An order with a cancelled or held line that its other lines carry to \<open>shipped\<close> can never be
  confirmed delivered: the derived header ignores those lines, the delivery check does not, so every
  caller, with whatever credentials, is refused.\<close>

theorem partly_cancelled_order_undeliverable:
  assumes "findOrder s oid = Some ord" and "i \<in> set (orderItems s oid)"
    and "oi_fulfillmentStatus i \<in> {FS_CANCELLED, FS_ON_HOLD}"
  shows "\<exists>e. confirmOrderDelivered env hash oid customerId guestPhone token s = (Inl e, s)"
proof -
  have "\<not> list_all (\<lambda>f. f = FS_SHIPPED \<or> f = FS_DELIVERED) (statusesOf (orderItems s oid))"
    using assms(2,3) by (force simp: list_all_iff statusesOf_def)
  with assms(1) show ?thesis
    by (cases "assertDeliveryAccess env hash ord customerId guestPhone token")
      (simp_all add: confirmOrderDelivered_def loadOrderWithItems_def)
qed

definition sampleShipped :: db where
  "sampleShipped = sampleMulti\<lparr>dbOrders := [sampleOrder ''o'' OS_SHIPPED],
     dbItems := [lineA\<lparr>oi_fulfillmentStatus := FS_SHIPPED\<rparr>, lineB\<lparr>oi_fulfillmentStatus := FS_CANCELLED\<rparr>]\<rparr>"

theorem partly_cancelled_order_undeliverable_witness:
  "headerOk OS_SHIPPED (orderItems sampleShipped ''o'') \<and>
   (\<exists>e. confirmOrderDelivered sampleClock (\<lambda>x. x) ''o'' (Some ''c'') None None sampleShipped = (Inl e, sampleShipped))"
proof
  show "headerOk OS_SHIPPED (orderItems sampleShipped ''o'')"
    by (simp add: sampleShipped_def orderItems_def headerOk_def statusesOf_def deriveOrderStatusFromFulfillment_def
        terminalOrderStatuses_def)
  show "\<exists>e. confirmOrderDelivered sampleClock (\<lambda>x. x) ''o'' (Some ''c'') None None sampleShipped = (Inl e, sampleShipped)"
    by (rule partly_cancelled_order_undeliverable [of _ _ "sampleOrder ''o'' OS_SHIPPED" "lineB\<lparr>oi_fulfillmentStatus := FS_CANCELLED\<rparr>"])
      (simp_all add: sampleShipped_def findOrder_def orderItems_def)
qed

text \<open>A guest can never confirm a delivery, with whatever phone number and pay token: every such confirmation fails and
leaves the database as it was.\<close>

theorem guest_delivery_fails:
  assumes "\<not> truthy customerId"
  shows "\<exists>e. confirmOrderDelivered env hash oid customerId guestPhone token s = (Inl e, s)"
proof -
  have refused: "wp (persistOrderTransition env ord items nxt userId remark w (failIf (\<not> truthy customerId) e)) (\<lambda>_ _. False) (\<lambda>_ t. t = s) s"
    for ord items nxt userId remark w e
    unfolding persistOrderTransition_def wp using assms by (cases w; simp)
  have "wp (confirmOrderDelivered env hash oid customerId guestPhone token) (\<lambda>_ _. False) (\<lambda>_ t. t = s) s"
    unfolding confirmOrderDelivered_def wp_seq wp_prod case_prod_unfold by (intro reads refl refused)
  then show ?thesis by (auto simp: wp_def split: prod.splits sum.splits)
qed

theorem guest_delivery_fails_witness:
  "\<exists>e. confirmOrderDelivered sampleClock (\<lambda>x. x) ''o'' None (Some ''08'') (Some ''t'') sampleShipped = (Inl e, sampleShipped)"
  by (rule guest_delivery_fails) simp

text \<open>Saving stale copies: rows loaded in \<open>s\<close> are written over what \<open>u\<close> holds now.\<close>

lemma saveItems_stale:
  assumes u: "uniqueKey oi_id (dbItems s)" "uniqueKey oi_id (dbItems v)"
    and g: "\<And>i. oi_id (g i) = oi_id i" "\<And>i. oi_orderId (g i) = oi_orderId i"
    and f: "\<And>i. oi_id (f i) = oi_id i" "\<And>i. oi_orderId (f i) = oi_orderId i"
    and v: "orderItems v oid = map g (orderItems s oid)"
    and t: "dbItems t = saveRows oi_id (map (stampItem env v) (map f (orderItems s oid))) (dbItems v)"
  shows "orderItems t oid = map (\<lambda>i. stampItem env v (f i)) (orderItems s oid)"
proof -
  define h where "h x = (case byKey oi_id (oi_id x) (dbItems s) of
    None \<Rightarrow> x | Some y \<Rightarrow> if oi_orderId y = oi_orderId x then f y else x)" for x
  have id: "oi_id (h x) = oi_id x" for x
  proof (cases "byKey oi_id (oi_id x) (dbItems s)")
    case (Some y)
    then have "oi_id y = oi_id x" using byKey_Some by fast
    then show ?thesis using Some f(1) [of y] by (simp add: h_def)
  qed (simp add: h_def)
  have ord: "oi_orderId (h x) = oi_orderId x" for x
    by (cases "byKey oi_id (oi_id x) (dbItems s)") (simp_all add: h_def f(2))
  have "h (g i) = f i" if "i \<in> set (orderItems s oid)" for i
  proof -
    have "byKey oi_id (oi_id (g i)) (dbItems s) = Some i"
      using that byKey_in [OF u(1), of i] g(1) [of i] by (simp add: orderItems_def)
    then show ?thesis using g(2) [of i] by (simp add: h_def)
  qed
  then have rows: "map (\<lambda>i. k (h i)) (orderItems v oid) = map (\<lambda>i. k (f i)) (orderItems s oid)" for k :: "item_row \<Rightarrow> item_row"
    by (simp add: v)
  have "map (stampItem env v) (map h (orderItems v oid)) = map (stampItem env v) (map f (orderItems s oid))"
    using rows [of "stampItem env v"] by (simp add: comp_def)
  then have "dbItems t = saveRows oi_id (map (stampItem env v) (map h (orderItems v oid))) (dbItems v)"
    using t by simp
  then have "orderItems t oid = map (\<lambda>i. stampItem env v (h i)) (orderItems v oid)"
    using saveItems_order(1) [OF u(2), of h oid env oid] id ord unfolding orderItems_def [of t] by simp
  then show ?thesis using rows [of "stampItem env v"] by simp
qed

text \<open>C0. Two vendors of one order race: store \<open>b\<close> acknowledges after the handler of store \<open>a\<close> has
  loaded the order and before it commits. The commit saves every line as it was loaded, so the
  acknowledged lines of \<open>b\<close> silently return to \<open>pending\<close>.\<close>

theorem stale_ship_reverts_acknowledgement:
  assumes "uniqueKey oi_id (dbItems s)" and "storeA \<noteq> storeB"
    and "shipPlan env urlParse userA storeA oid number prov url s = (Inr plan, s)"
    and "acknowledgeVendorOrder env userB storeB oid s = (Inr r, s1)"
    and "shipCommit env userA storeA plan s1 = (Inr r', s2)"
  shows "set (statusesOf (filter (\<lambda>i. oi_storeId i = storeB) (orderItems s1 oid))) = {FS_PROCESSING} \<and>
    set (statusesOf (filter (\<lambda>i. oi_storeId i = storeB) (orderItems s2 oid))) = {FS_PENDING}"
proof
  from wp_Inr [OF acknowledge_wp assms(4)] obtain ord nxt where
    p: "findOrder s oid = Some ord"
      "set (statusesOf (filter (\<lambda>i. oi_storeId i = storeB) (orderItems s oid))) = {FS_PENDING}"
    and c: "committed env ord (map (onStore storeB (ackItem env)) (orderItems s oid)) nxt True s s1"
    unfolding ackPlanned_def prod.case by blast
  have id: "o_id ord = oid" using findOrder_id [OF p(1)] .
  note eff = committed_effect [OF assms(1) id _ _ _ c, simplified]
  show "set (statusesOf (filter (\<lambda>i. oi_storeId i = storeB) (orderItems s1 oid))) = {FS_PROCESSING}"
    using p(2) by (auto simp: eff filter_onStore statusesOf_def image_image)
  from wp_Inr [OF shipPlan_read assms(3)] obtain nxt' n pr u where
    plan: "plan = (ord, map (onStore storeA (shipItem env n pr u)) (orderItems s oid), nxt')"
    using p(1) by (cases plan) (auto simp: shipPlanned_def)
  have c2: "committed env ord (map (onStore storeA (shipItem env n pr u)) (orderItems s oid)) nxt' True s1 s2"
    using wp_Inr [OF persist_wp [OF keepsOrders_ret]] assms(5) unfolding shipCommit_def plan prod.case by fast
  have u1: "uniqueKey oi_id (dbItems s1)"
    using saveItems_order(2) [OF assms(1), of "onStore storeB (ackItem env)" env oid] c by (simp add: committed_def)
  have "orderItems s2 oid = map (\<lambda>i. stampItem env s1 (onStore storeA (shipItem env n pr u) i)) (orderItems s oid)"
    by (rule saveItems_stale [OF assms(1) u1, where g = "onStore storeB (ackItem env)"])
      (use c2 in \<open>simp_all add: eff committed_def\<close>)
  then have "statusesOf (filter (\<lambda>i. oi_storeId i = storeB) (orderItems s2 oid)) =
      statusesOf (filter (\<lambda>i. oi_storeId i = storeB) (orderItems s oid))"
    using assms(2) by (simp add: statusesOf_def onStore_def filter_map comp_def if_distrib cong: if_cong)
  then show "set (statusesOf (filter (\<lambda>i. oi_storeId i = storeB) (orderItems s2 oid))) = {FS_PENDING}"
    using p(2) by simp
qed

theorem stale_ship_reverts_acknowledgement_witness:
  "\<exists>plan r r' s1 s2.
     shipPlan sampleClock (\<lambda>_. None) ''owner'' ''a'' ''o'' ''n'' ''p'' None sampleMulti = (Inr plan, sampleMulti) \<and>
     acknowledgeVendorOrder sampleClock ''owner'' ''b'' ''o'' sampleMulti = (Inr r, s1) \<and>
     shipCommit sampleClock ''owner'' ''a'' plan s1 = (Inr r', s2) \<and>
     set (statusesOf (filter (\<lambda>i. oi_storeId i = ''b'') (orderItems s1 ''o''))) = {FS_PROCESSING} \<and>
     set (statusesOf (filter (\<lambda>i. oi_storeId i = ''b'') (orderItems s2 ''o''))) = {FS_PENDING}"
proof -
  obtain plan where plan: "shipPlan sampleClock (\<lambda>_. None) ''owner'' ''a'' ''o'' ''n'' ''p'' None sampleMulti = (Inr plan, sampleMulti)"
    and p: "plan = (sampleOrder ''o'' OS_PROCESSING, [shipItem sampleClock ''n'' ''p'' None lineA, lineB], OS_PROCESSING)"
    using sample_ship_plan by blast
  obtain r s1 where ack: "acknowledgeVendorOrder sampleClock ''owner'' ''b'' ''o'' sampleMulti = (Inr r, s1)"
  proof -
    obtain label where l: "acknowledgePlan sampleClock ''owner'' ''b'' ''o'' sampleMulti =
      (Inr (sampleOrder ''o'' OS_PROCESSING, [lineA, ackItem sampleClock lineB], OS_PROCESSING, label), sampleMulti)"
      using sample_ack_plan by blast
    show thesis
      using acknowledgeCommit_succeeds [of "''b''" sampleClock "sampleOrder ''o'' OS_PROCESSING" "''owner''"
          "[lineA, ackItem sampleClock lineB]" OS_PROCESSING label sampleMulti] l that
      by (auto simp: acknowledgeVendorOrder_def seqM_def)
  qed
  obtain r' s2 where ship: "shipCommit sampleClock ''owner'' ''a'' plan s1 = (Inr r', s2)"
  proof -
    have "\<exists>r t. shipCommit sampleClock ''owner'' ''a'' plan s1 = (Inr r, t)"
      unfolding shipCommit_def p prod.case by (rule commit_succeeds) simp_all
    then show thesis using that by blast
  qed
  from stale_ship_reverts_acknowledgement [OF sampleMulti_unique _ plan ack ship] plan ack ship show ?thesis by blast
qed

end
