(* ===== verification/Store_Hold.thy ===== *)
theory Store_Hold
  imports Fulfillment
begin

text \<open>
  \<^verbatim>\<open>src/src/modules/orders/store-suspension-hold.service.ts\<close>: when a store is suspended its open lines
  are put on hold, order by order, when it is reactivated they return to the status they had, and
  lines held longer than the configured limit are cancelled. Notifications are best effort and so
  only effects. \<open>slaMs\<close> is the configured limit.
\<close>

section \<open>Guards and sets\<close>

definition adminHoldExitStatuses :: "order_status set" where
  "adminHoldExitStatuses = {OS_CANCELLED, OS_REFUNDED}"

definition assertNotManualHoldTransition :: "order_status \<Rightarrow> order_status \<Rightarrow> unit result" where
  "assertNotManualHoldTransition current next =
     (if next = OS_ON_HOLD then Inl (BadRequest ''HOLD_TRANSITION_FORBIDDEN'')
      else if current = OS_ON_HOLD \<and> next \<notin> adminHoldExitStatuses
      then Inl (BadRequest ''HOLD_TRANSITION_FORBIDDEN'') else Inr ())"

definition holdEligibleFulfillment :: "fulfillment_status set" where
  "holdEligibleFulfillment = {FS_PENDING, FS_PROCESSING}"

definition holdEligibleOrderStatuses :: "order_status set" where
  "holdEligibleOrderStatuses = {OS_PENDING_PAYMENT, OS_PAID, OS_PROCESSING}"

definition getHoldSlaAfterMs :: "int option \<Rightarrow> int" where
  "getHoldSlaAfterMs configured = (case configured of
     Some ms \<Rightarrow> if 0 < ms then ms else 30 * 24 * 60 * 60 * 1000
   | None \<Rightarrow> 30 * 24 * 60 * 60 * 1000)"

section \<open>Putting lines on hold\<close>

definition holdable :: "string \<Rightarrow> item_row \<Rightarrow> bool" where
  "holdable storeId i \<longleftrightarrow> oi_storeId i = storeId \<and> oi_fulfillmentStatus i \<in> holdEligibleFulfillment"

definition holdItem :: "env \<Rightarrow> item_row \<Rightarrow> item_row" where
  "holdItem env i = i\<lparr>oi_previousFulfillmentStatus := Some (oi_fulfillmentStatus i),
     oi_holdStartedAt := Some (envNow env), oi_fulfillmentStatus := FS_ON_HOLD\<rparr>"

definition applyHoldForOrder :: "env \<Rightarrow> string \<Rightarrow> string \<Rightarrow> (db, nat) op" where
  "applyHoldForOrder env storeId orderId =
     seqM (getM (\<lambda>s. (findOrder s orderId, orderItems s orderId))) (\<lambda>(found, items).
       case found of None \<Rightarrow> retM 0
     | Some ord \<Rightarrow>
         (let held = filter (holdable storeId) items;
              items' = map (\<lambda>i. if holdable storeId i then holdItem env i else i) items;
              nextStatus = deriveOrderStatusFromFulfillment (o_status ord) (statusesOf items')
          in if items = [] \<or> o_status ord \<notin> holdEligibleOrderStatuses \<or> held = [] then retM 0
             else seqM (saveItems env (map (holdItem env) held)) (\<lambda>_.
                  seqM (if nextStatus \<noteq> o_status ord
                        then saveOrder env (ord\<lparr>o_status := nextStatus, o_previousStatus :=
                          (if nextStatus = OS_ON_HOLD then Some (o_status ord) else o_previousStatus ord)\<rparr>)
                        else retM ()) (\<lambda>_.
                  seqM (addHistory env (o_id ord) nextStatus None (''Store suspension hold applied for store '' @ storeId @
                          '' ('' @ show_nat (length held) @ '' item(s))'')) (\<lambda>_. retM (length held))))))"

definition findOrderIdsWithEligibleItems :: "string \<Rightarrow> db \<Rightarrow> string list" where
  "findOrderIdsWithEligibleItems storeId s = uniq (map oi_orderId (filter (\<lambda>i. holdable storeId i \<and>
     (case findOrder s (oi_orderId i) of None \<Rightarrow> False | Some ord \<Rightarrow> o_status ord \<in> holdEligibleOrderStatuses)) (dbItems s)))"

definition tryHoldOrder :: "env \<Rightarrow> string \<Rightarrow> string \<Rightarrow> (db, nat) op" where
  "tryHoldOrder env storeId orderId = catchM
     (seqM (txnM (applyHoldForOrder env storeId orderId)) (\<lambda>held.
        if 0 < held then seqM (emit (NotifyItemsOnHold orderId storeId)) (\<lambda>_. retM held) else retM held))
     (\<lambda>_. retM 0)"

text \<open>The result counts the orders touched and the lines held.\<close>

definition touched :: "nat list \<Rightarrow> nat \<times> nat" where
  "touched ns = (length (filter (\<lambda>n. 0 < n) ns), sum_list ns)"

definition applyHoldForStore :: "env \<Rightarrow> string \<Rightarrow> (db, nat \<times> nat) op" where
  "applyHoldForStore env storeId =
     seqM (getM (findOrderIdsWithEligibleItems storeId)) (\<lambda>orderIds.
     seqM (forM (tryHoldOrder env storeId) orderIds) (\<lambda>ns. retM (touched ns)))"

section \<open>Restoring held lines\<close>

definition heldBy :: "string \<Rightarrow> item_row \<Rightarrow> bool" where
  "heldBy storeId i \<longleftrightarrow> oi_storeId i = storeId \<and> oi_fulfillmentStatus i = FS_ON_HOLD"

definition resumeItem :: "item_row \<Rightarrow> item_row" where
  "resumeItem i = i\<lparr>oi_fulfillmentStatus := nullish (oi_previousFulfillmentStatus i) FS_ON_HOLD,
     oi_previousFulfillmentStatus := None, oi_holdStartedAt := None\<rparr>"

definition restoreHoldForOrder :: "env \<Rightarrow> string \<Rightarrow> string \<Rightarrow> (db, nat) op" where
  "restoreHoldForOrder env storeId orderId =
     seqM (getM (\<lambda>s. (findOrder s orderId, orderItems s orderId))) (\<lambda>(found, items).
       case found of None \<Rightarrow> retM 0
     | Some ord \<Rightarrow>
         (let held = filter (heldBy storeId) items;
              items' = map (\<lambda>i. if heldBy storeId i then resumeItem i else i) items;
              nextStatus = deriveOrderStatusFromFulfillment (o_status ord) (statusesOf items');
              snapshot = (if o_previousStatus ord \<noteq> None \<and> nextStatus \<noteq> OS_ON_HOLD then None else o_previousStatus ord);
              cleared = (o_status ord = OS_ON_HOLD \<and> snapshot = None)
          in if held = [] then retM 0
             else seqM (failIf (list_ex (\<lambda>i. oi_previousFulfillmentStatus i = None) held)
                          (BadRequest ''HOLD_RESTORE_SNAPSHOT_MISSING'')) (\<lambda>_.
                  seqM (saveItems env (map resumeItem held)) (\<lambda>_.
                  seqM (if nextStatus \<noteq> o_status ord \<or> cleared
                        then saveOrder env (ord\<lparr>o_status := nextStatus, o_previousStatus := snapshot\<rparr>)
                        else retM ()) (\<lambda>_.
                  seqM (if nextStatus \<noteq> o_status ord
                        then addHistory env (o_id ord) nextStatus None (''Store reactivation restored hold for store '' @ storeId)
                        else retM ()) (\<lambda>_. retM (length held)))))))"

definition findOrderIdsWithHeldItems :: "string \<Rightarrow> db \<Rightarrow> string list" where
  "findOrderIdsWithHeldItems storeId s = uniq (map oi_orderId (filter (heldBy storeId) (dbItems s)))"

definition resumeOrder :: "env \<Rightarrow> string \<Rightarrow> string \<Rightarrow> (db, nat) op" where
  "resumeOrder env storeId orderId = seqM (txnM (restoreHoldForOrder env storeId orderId)) (\<lambda>restored.
     if 0 < restored then seqM (emit (NotifyItemsResumed orderId storeId)) (\<lambda>_. retM restored) else retM restored)"

definition restoreHoldForStore :: "env \<Rightarrow> string \<Rightarrow> (db, nat \<times> nat) op" where
  "restoreHoldForStore env storeId =
     seqM (getM (findOrderIdsWithHeldItems storeId)) (\<lambda>orderIds.
     seqM (forM (resumeOrder env storeId) orderIds) (\<lambda>ns. retM (touched ns)))"

section \<open>Cancelling lines held for too long\<close>

definition expiredHold :: "date \<Rightarrow> item_row \<Rightarrow> bool" where
  "expiredHold cutoff i \<longleftrightarrow> oi_fulfillmentStatus i = FS_ON_HOLD \<and>
     (case oi_holdStartedAt i of None \<Rightarrow> False | Some t \<Rightarrow> t \<le> cutoff)"

definition ARROW :: string where
  "ARROW = map (\<lambda>n. char_of (n :: nat)) [226, 134, 146]"

text \<open>The header after the cancellation: the derived status, without the hold snapshot once it leaves
  the hold, and with the payable totals of the remaining lines while it is unpaid.\<close>

definition headerAfterExpiry :: "item_row list \<Rightarrow> store_shipping_row list \<Rightarrow> order_row \<Rightarrow> order_row" where
  "headerAfterExpiry items shippings ord =
     (let nextStatus = deriveOrderStatusFromFulfillment (o_status ord) (statusesOf items);
          ord1 = (if o_previousStatus ord \<noteq> None \<and> nextStatus \<noteq> OS_ON_HOLD then ord\<lparr>o_previousStatus := None\<rparr> else ord);
          ord2 = (if nextStatus = OS_PENDING_PAYMENT then recomputeOrderPayableTotals items shippings ord1 else ord1)
      in ord2\<lparr>o_status := nextStatus\<rparr>)"

text \<open>What follows the stock: a history row per cancelled line, the order, and its change of status.\<close>

definition recordExpiry :: "env \<Rightarrow> string list \<Rightarrow> order_row \<Rightarrow> order_row \<Rightarrow> (db, nat) op" where
  "recordExpiry env cancelledIds ord ord' =
     seqM (forM (\<lambda>i. addHistory env (o_id ord) (o_status ord) None (''Hold SLA auto-cancel item '' @ i)) cancelledIds) (\<lambda>_.
     seqM (saveOrder env ord') (\<lambda>_.
     seqM (if o_status ord' \<noteq> o_status ord
           then addHistory env (o_id ord) (o_status ord') None (''Hold SLA cancelled '' @ show_nat (length cancelledIds) @
                  '' held item(s); order status '' @ order_status_text (o_status ord) @ '' '' @ ARROW @ '' '' @
                  order_status_text (o_status ord'))
           else retM ()) (\<lambda>_. retM (length cancelledIds))))"

definition cancelExpiredHeldItemsForOrder :: "env \<Rightarrow> date \<Rightarrow> string \<Rightarrow> (db, nat) op" where
  "cancelExpiredHeldItemsForOrder env cutoff orderId =
     seqM (getM (\<lambda>s. (findOrder s orderId, orderItems s orderId,
                      filter (\<lambda>sh. ss_orderId sh = orderId) (dbShippings s)))) (\<lambda>(found, items, shippings).
       case found of None \<Rightarrow> retM 0
     | Some ord \<Rightarrow>
         (let expired = filter (expiredHold cutoff) items;
              items' = map (\<lambda>i. if expiredHold cutoff i then cancelItem env i else i) items
          in if expired = [] then retM 0
             else seqM (saveItems env (map (cancelItem env) expired)) (\<lambda>_.
                  seqM (restoreItemStock env orderId (map oi_id expired) (Some ''Hold SLA auto-cancel stock restore'')) (\<lambda>_.
                    recordExpiry env (map oi_id expired) ord (headerAfterExpiry items' shippings ord)))))"

definition cancelExpiredHeldItems :: "env \<Rightarrow> int option \<Rightarrow> (db, nat) op" where
  "cancelExpiredHeldItems env slaMs =
     (let cutoff = envNow env - getHoldSlaAfterMs slaMs in
      seqM (getM (\<lambda>s. uniq (map oi_orderId (filter (expiredHold cutoff) (dbItems s))))) (\<lambda>orderIds.
      seqM (forM (\<lambda>i. catchM (txnM (cancelExpiredHeldItemsForOrder env cutoff i)) (\<lambda>_. retM 0)) orderIds)
        (\<lambda>ns. retM (sum_list ns))))"

section \<open>Batches that go order by order\<close>

text \<open>
  The effect of a batch on a set of orders: each line of an eligible order is changed by
  \<open>change\<close>, the header of that order becomes the status its new lines determine, every other
  order keeps its lines and its header.
\<close>

definition batchStep ::
    "(item_row \<Rightarrow> item_row) \<Rightarrow> (order_status \<Rightarrow> bool) \<Rightarrow> string set \<Rightarrow> db \<Rightarrow> db \<Rightarrow> bool" where
  "batchStep change eligible A s t \<longleftrightarrow>
     (\<forall>j. (findOrder t j = None \<longleftrightarrow> findOrder s j = None) \<and>
       (case findOrder s j of
          None \<Rightarrow> orderItems t j = orderItems s j
        | Some ord \<Rightarrow>
            if j \<in> A \<and> eligible (o_status ord)
            then orderItems t j = map change (orderItems s j) \<and>
              o_status (the (findOrder t j)) = deriveOrderStatusFromFulfillment (o_status ord) (statusesOf (orderItems t j))
            else orderItems t j = orderItems s j \<and> o_status (the (findOrder t j)) = o_status ord))"

lemma batchStep_empty: "batchStep change eligible {} s s"
  by (auto simp: batchStep_def split: option.split)

lemma batchStep_insert:
  assumes "batchStep change eligible {j} s t" and "batchStep change eligible A t u" and "j \<notin> A"
  shows "batchStep change eligible (insert j A) s u"
  unfolding batchStep_def
proof
  fix k
  have 1: "(findOrder t k = None \<longleftrightarrow> findOrder s k = None)"
    "case findOrder s k of None \<Rightarrow> orderItems t k = orderItems s k
      | Some ord \<Rightarrow> if k = j \<and> eligible (o_status ord)
          then orderItems t k = map change (orderItems s k) \<and>
            o_status (the (findOrder t k)) = deriveOrderStatusFromFulfillment (o_status ord) (statusesOf (orderItems t k))
          else orderItems t k = orderItems s k \<and> o_status (the (findOrder t k)) = o_status ord"
    using spec [OF assms(1) [unfolded batchStep_def], of k] by (cases "findOrder s k"; simp)+
  have 2: "(findOrder u k = None \<longleftrightarrow> findOrder t k = None)"
    "case findOrder t k of None \<Rightarrow> orderItems u k = orderItems t k
      | Some ord \<Rightarrow> if k \<in> A \<and> eligible (o_status ord)
          then orderItems u k = map change (orderItems t k) \<and>
            o_status (the (findOrder u k)) = deriveOrderStatusFromFulfillment (o_status ord) (statusesOf (orderItems u k))
          else orderItems u k = orderItems t k \<and> o_status (the (findOrder u k)) = o_status ord"
    using spec [OF assms(2) [unfolded batchStep_def], of k] by (cases "findOrder t k"; simp)+
  show "(findOrder u k = None \<longleftrightarrow> findOrder s k = None) \<and>
    (case findOrder s k of None \<Rightarrow> orderItems u k = orderItems s k
      | Some ord \<Rightarrow> if k \<in> insert j A \<and> eligible (o_status ord)
          then orderItems u k = map change (orderItems s k) \<and>
            o_status (the (findOrder u k)) = deriveOrderStatusFromFulfillment (o_status ord) (statusesOf (orderItems u k))
          else orderItems u k = orderItems s k \<and> o_status (the (findOrder u k)) = o_status ord)"
    using 1 2 assms(3) by (cases "k = j"; cases "findOrder s k"; cases "findOrder t k") (auto split: if_splits)
qed

locale order_batch =
  fixes body :: "string \<Rightarrow> (db, nat) op"
    and change :: "item_row \<Rightarrow> item_row"
    and eligible :: "order_status \<Rightarrow> bool"
    and good :: "db \<Rightarrow> bool"
  assumes body_wp: "good s \<Longrightarrow>
    wp (body j) (\<lambda>_ t. good t \<and> batchStep change eligible {j} s t) (\<lambda>_ _. False) s"
begin

lemma batch_wp:
  "distinct ids \<Longrightarrow> good s \<Longrightarrow>
    wp (forM body ids) (\<lambda>_ t. good t \<and> batchStep change eligible (set ids) s t) (\<lambda>_ _. False) s"
proof (induction ids arbitrary: s)
  case Nil
  then show ?case by (simp add: wp batchStep_empty)
next
  case (Cons j ids)
  show ?case
    unfolding forM.simps wp_seq
  proof (rule wp_conseq [OF body_wp [OF Cons.prems(2)]])
    fix x t
    assume t: "good t \<and> batchStep change eligible {j} s t"
    have "wp (forM body ids) (\<lambda>_ u. good u \<and> batchStep change eligible (set ids) t u) (\<lambda>_ _. False) t"
      using Cons t by simp
    then show "wp (forM body ids) (\<lambda>xa. wp (retM (x # xa))
        (\<lambda>_ t. good t \<and> batchStep change eligible (set (j # ids)) s t) (\<lambda>_ _. False)) (\<lambda>_ _. False) t"
      by (rule wp_conseq) (use t Cons.prems(1) in \<open>auto simp: wp intro: batchStep_insert\<close>)
  qed simp
qed

lemma batch_total:
  assumes "distinct ids" and "good s"
  shows "\<exists>ns t. forM body ids s = (Inr ns, t) \<and> good t \<and> batchStep change eligible (set ids) s t"
  using batch_wp [OF assms] by (auto simp: wp_def split: prod.splits sum.splits)

end

section \<open>One order\<close>

lemma stampOrder_cong: "dbOrders v = dbOrders s \<Longrightarrow> stampOrder env v = stampOrder env s"
  by (simp add: fun_eq_iff stampOrder_def findOrder_def)

lemma order_update:
  assumes inv: "ordersInv s" and f: "\<And>i. oi_id (f i) = oi_id i" "\<And>i. oi_orderId (f i) = oi_orderId i"
    and found: "findOrder s oid = Some ord"
    and items: "dbItems t = saveRows oi_id (map (stampItem env s) (map f (filter P (orderItems s oid)))) (dbItems s)"
    and row: "o_id row = oid"
      "o_status row = deriveOrderStatusFromFulfillment (o_status ord)
        (statusesOf (map (\<lambda>i. if P i then f i else i) (orderItems s oid)))"
    and ords: "dbOrders t = saveRow o_id (stampOrder env s row) (dbOrders s) \<or> dbOrders t = dbOrders s \<and> row = ord"
    and g: "\<And>i. i \<in> set (orderItems s oid) \<Longrightarrow> stampItem env s (if P i then f i else i) = g i"
    and e: "eligible (o_status ord)"
  shows "ordersInv t" and "batchStep g eligible {oid} s t"
proof -
  let ?f = "\<lambda>i. if P i then f i else i"
  have u: "uniqueKey oi_id (dbItems s)" using inv by (simp add: ordersInv_def)
  have keys: "oi_id (?f i) = oi_id i" "oi_orderId (?f i) = oi_orderId i" for i using f by simp_all
  have ts: "dbItems t = saveRows oi_id (map (stampItem env s) (map ?f (orderItems s oid))) (dbItems s)"
    unfolding items by (rule saveItems_filter [OF u f(1)])
  have same: "stampOrder env s ord = ord" using found findOrder_id [OF found] by (simp add: stampOrder_def)
  have rows: "dbOrders t = saveRow o_id (stampOrder env s row) (dbOrders s)"
    using ords saveRow_same [of o_id ord "dbOrders s"] found findOrder_id [OF found] same
    by (auto simp: findOrder_def)
  have "headerOk (o_status row) (map ?f (orderItems s oid))"
  proof (cases "o_status ord \<in> terminalOrderStatuses \<or> o_status ord = OS_PENDING_PAYMENT")
    case True
    then show ?thesis using row(2) by (auto simp: headerOk_def terminalOrderStatuses_def)
  next
    case False
    then show ?thesis unfolding row(2) by (intro headerOk_derive) auto
  qed
  then show "ordersInv t"
    using ordersInv_transition [OF inv keys, of "stampOrder env s row" oid t env] row(1) rows ts by simp
  have lines: "orderItems t j = (if j = oid then map (\<lambda>i. stampItem env s (?f i)) (orderItems s oid) else orderItems s j)" for j
    unfolding orderItems_def [of t j] ts by (rule saveItems_order(1) [OF u keys])
  then have lines': "orderItems t j = (if j = oid then map g (orderItems s oid) else orderItems s j)" for j
    using g by simp
  have heads: "findOrder t j = (if j = oid then Some (stampOrder env s row) else findOrder s j)" for j
    using order_repo.byId_save [of j "stampOrder env s row" "dbOrders s"] row(1) by (simp add: findOrder_def rows)
  have "statusesOf (map g (orderItems s oid)) = statusesOf (map ?f (orderItems s oid))"
    using g [symmetric] by (simp add: statusesOf_def)
  then show "batchStep g eligible {oid} s t"
    unfolding batchStep_def using found e row(2) by (auto simp: lines' heads split: option.split)
qed

text \<open>Every held line remembers the status it had and when it was held.\<close>

definition heldOk :: "item_row \<Rightarrow> bool" where
  "heldOk i \<longleftrightarrow> (oi_fulfillmentStatus i = FS_ON_HOLD \<longrightarrow>
     oi_previousFulfillmentStatus i \<in> Some ` holdEligibleFulfillment \<and> oi_holdStartedAt i \<noteq> None)"

definition holdInv :: "db \<Rightarrow> bool" where
  "holdInv s \<longleftrightarrow> ordersInv s \<and> (\<forall>i \<in> set (dbItems s). heldOk i)"

lemma holdInvD: "holdInv s \<Longrightarrow> ordersInv s" "holdInv s \<Longrightarrow> i \<in> set (orderItems s j) \<Longrightarrow> heldOk i"
  by (auto simp: holdInv_def orderItems_def)

lemma holdInv_items:
  assumes "ordersInv t" and "\<And>i j. i \<in> set (orderItems t j) \<Longrightarrow> heldOk i"
  shows "holdInv t"
proof -
  have "i \<in> set (orderItems t (oi_orderId i))" if "i \<in> set (dbItems t)" for i
    using that by (simp add: orderItems_def)
  with assms show ?thesis unfolding holdInv_def by blast
qed

lemma batch_holdInv:
  assumes b: "batchStep change eligible A s t" and s: "holdInv s" and t: "ordersInv t"
    and c: "\<And>i. heldOk i \<Longrightarrow> heldOk (change i)"
  shows "holdInv t"
proof (rule holdInv_items [OF t])
  fix i j
  assume i: "i \<in> set (orderItems t j)"
  have "orderItems t j = orderItems s j \<or> orderItems t j = map change (orderItems s j)"
    using spec [OF b [unfolded batchStep_def], of j] by (auto split: option.splits if_splits)
  with i show "heldOk i" using holdInvD(2) [OF s, of _ j] c by auto
qed

lemma derive_fixed:
  assumes "ordersInv s" and "findOrder s j = Some ord"
  shows "deriveOrderStatusFromFulfillment (o_status ord) (statusesOf (orderItems s j)) = o_status ord"
proof -
  have "headerOk (o_status ord) (orderItems s j)" using assms by (simp add: ordersInv_def)
  then show ?thesis by (auto simp: headerOk_def terminalOrderStatuses_def)
qed

lemma batchStep_skip:
  assumes "ordersInv s"
    and "\<And>ord. findOrder s j = Some ord \<Longrightarrow> eligible (o_status ord) \<Longrightarrow> map change (orderItems s j) = orderItems s j"
  shows "batchStep change eligible {j} s s"
  unfolding batchStep_def using assms(2) derive_fixed [OF assms(1)] by (auto split: option.split)

definition heldLine :: "env \<Rightarrow> string \<Rightarrow> item_row \<Rightarrow> item_row" where
  "heldLine env storeId i = (if holdable storeId i then (holdItem env i)\<lparr>oi_updatedAt := envNow env\<rparr> else i)"

definition resumedLine :: "env \<Rightarrow> string \<Rightarrow> item_row \<Rightarrow> item_row" where
  "resumedLine env storeId i = (if heldBy storeId i then (resumeItem i)\<lparr>oi_updatedAt := envNow env\<rparr> else i)"

definition expiredLine :: "env \<Rightarrow> date \<Rightarrow> item_row \<Rightarrow> item_row" where
  "expiredLine env cutoff i = (if expiredHold cutoff i then cancelItem env i else i)"

lemma line_keys [simp]:
  "oi_id (holdItem env i) = oi_id i" "oi_orderId (holdItem env i) = oi_orderId i"
  "oi_id (resumeItem i) = oi_id i" "oi_orderId (resumeItem i) = oi_orderId i"
  "oi_fulfillmentStatus (holdItem env i) = FS_ON_HOLD"
  by (simp_all add: holdItem_def resumeItem_def)

lemma heldOk_change:
  "heldOk i \<Longrightarrow> heldOk (heldLine env st i)"
  "heldOk i \<Longrightarrow> heldOk (resumedLine env st i)"
  "heldOk i \<Longrightarrow> heldOk (expiredLine env cutoff i)"
  by (auto simp: heldOk_def heldLine_def holdable_def holdItem_def resumedLine_def heldBy_def resumeItem_def
      expiredLine_def holdEligibleFulfillment_def)

lemma stamp_changed: "i \<in> set (dbItems s) \<Longrightarrow> uniqueKey oi_id (dbItems s) \<Longrightarrow> oi_id (f i) = oi_id i \<Longrightarrow> f i \<noteq> i \<Longrightarrow>
    stampItem env s (f i) = (f i)\<lparr>oi_updatedAt := envNow env\<rparr>"
  using byKey_in [of oi_id "dbItems s" i] by (simp add: stampItem_def)

lemma stamp_held:
  assumes "uniqueKey oi_id (dbItems s)" and "i \<in> set (orderItems s j)"
  shows "stampItem env s (if holdable st i then holdItem env i else i) = heldLine env st i"
proof (cases "holdable st i")
  case True
  then have "holdItem env i \<noteq> i" by (auto simp: holdable_def holdEligibleFulfillment_def holdItem_def dest: arg_cong [of _ _ oi_fulfillmentStatus])
  with True assms show ?thesis by (simp add: heldLine_def stamp_changed orderItems_def)
next
  case False
  with assms show ?thesis by (simp add: heldLine_def stampItem_same orderItems_def)
qed

lemma applyHoldForOrder_wp:
  assumes s: "holdInv s"
  shows "wp (applyHoldForOrder env storeId j)
    (\<lambda>_ t. holdInv t \<and> batchStep (heldLine env storeId) (\<lambda>st. st \<in> holdEligibleOrderStatuses) {j} s t) (\<lambda>_ _. False) s"
proof -
  have u: "uniqueKey oi_id (dbItems s)" using s by (simp add: holdInv_def ordersInv_def)
  have skip: "holdInv s \<and> batchStep (heldLine env storeId) (\<lambda>st. st \<in> holdEligibleOrderStatuses) {j} s s"
    if "\<And>ord. findOrder s j = Some ord \<Longrightarrow> o_status ord \<in> holdEligibleOrderStatuses \<Longrightarrow> filter (holdable storeId) (orderItems s j) = []"
    using s that by (auto intro!: batchStep_skip map_idI simp: holdInvD(1) heldLine_def filter_empty_conv)
  show ?thesis
  proof (cases "findOrder s j")
    case None
    then show ?thesis using skip by (simp add: applyHoldForOrder_def wp)
  next
    case (Some ord)
    let ?items = "map (\<lambda>i. if holdable storeId i then holdItem env i else i) (orderItems s j)"
    let ?next = "deriveOrderStatusFromFulfillment (o_status ord) (statusesOf ?items)"
    let ?row = "if ?next \<noteq> o_status ord then ord\<lparr>o_status := ?next, o_previousStatus :=
        (if ?next = OS_ON_HOLD then Some (o_status ord) else o_previousStatus ord)\<rparr> else ord"
    have id: "o_id ord = j" using findOrder_id [OF Some] .
    show ?thesis
    proof (cases "orderItems s j = [] \<or> o_status ord \<notin> holdEligibleOrderStatuses \<or> filter (holdable storeId) (orderItems s j) = []")
      case True
      then show ?thesis using Some skip by (auto simp: applyHoldForOrder_def wp Let_def)
    next
      case False
      have finished: "holdInv t \<and> batchStep (heldLine env storeId) (\<lambda>st. st \<in> holdEligibleOrderStatuses) {j} s t"
        if t: "dbItems t = saveRows oi_id (map (stampItem env s) (map (holdItem env) (filter (holdable storeId) (orderItems s j)))) (dbItems s)"
          "dbOrders t = saveRow o_id (stampOrder env s ?row) (dbOrders s) \<or> dbOrders t = dbOrders s \<and> ?row = ord" for t
      proof -
        have row: "o_id ?row = j" "o_status ?row = ?next" using id by auto
        note upd = order_update [OF holdInvD(1) [OF s] _ _ Some t(1) row t(2), of "heldLine env storeId"
            "\<lambda>st. st \<in> holdEligibleOrderStatuses"]
        have "ordersInv t" and b: "batchStep (heldLine env storeId) (\<lambda>st. st \<in> holdEligibleOrderStatuses) {j} s t"
          using upd False stamp_held [OF u] by auto
        with batch_holdInv [OF b s] heldOk_change(1) show ?thesis by blast
      qed
      show ?thesis
        unfolding applyHoldForOrder_def using Some False by (simp add: wp Let_def finished)
    qed
  qed
qed

text \<open>Effects and counters are outside the invariant.\<close>

lemma frame_reads [simp]:
  "findOrder (s\<lparr>dbEffects := es\<rparr>) = findOrder s"
  "orderItems (s\<lparr>dbEffects := es\<rparr>) = orderItems s"
  by (simp_all add: findOrder_def orderItems_def fun_eq_iff)

lemma frame_inv [simp]:
  "holdInv (s\<lparr>dbEffects := es\<rparr>) = holdInv s"
  "batchStep change eligible A s (t\<lparr>dbEffects := es\<rparr>) = batchStep change eligible A s t"
  unfolding holdInv_def ordersInv_def batchStep_def frame_reads by simp_all

lemma tryHoldOrder_wp:
  assumes "holdInv s"
  shows "wp (tryHoldOrder env storeId j)
    (\<lambda>_ t. holdInv t \<and> batchStep (heldLine env storeId) (\<lambda>st. st \<in> holdEligibleOrderStatuses) {j} s t) (\<lambda>_ _. False) s"
  unfolding tryHoldOrder_def wp
  by (rule wp_conseq [OF applyHoldForOrder_wp [OF assms]]) auto

interpretation hold_batch: order_batch "tryHoldOrder env storeId" "heldLine env storeId"
    "\<lambda>st. st \<in> holdEligibleOrderStatuses" holdInv for env storeId
  by unfold_locales (rule tryHoldOrder_wp)

lemma stamp_resumed:
  assumes "uniqueKey oi_id (dbItems s)" and "i \<in> set (orderItems s j)" and "heldOk i"
  shows "stampItem env s (if heldBy st i then resumeItem i else i) = resumedLine env st i"
proof (cases "heldBy st i")
  case True
  then have "resumeItem i \<noteq> i" using assms(3)
    by (auto simp: heldBy_def heldOk_def resumeItem_def dest: arg_cong [of _ _ oi_previousFulfillmentStatus])
  with True assms show ?thesis by (simp add: resumedLine_def stamp_changed orderItems_def)
next
  case False
  with assms show ?thesis by (simp add: resumedLine_def stampItem_same orderItems_def)
qed

lemma restoreHoldForOrder_wp:
  assumes s: "holdInv s"
  shows "wp (restoreHoldForOrder env storeId j)
    (\<lambda>_ t. holdInv t \<and> batchStep (resumedLine env storeId) (\<lambda>_. True) {j} s t) (\<lambda>_ _. False) s"
proof -
  have u: "uniqueKey oi_id (dbItems s)" using s by (simp add: holdInv_def ordersInv_def)
  have skip: "holdInv s \<and> batchStep (resumedLine env storeId) (\<lambda>_. True) {j} s s"
    if "\<And>ord. findOrder s j = Some ord \<Longrightarrow> filter (heldBy storeId) (orderItems s j) = []"
    using s that by (auto intro!: batchStep_skip map_idI simp: holdInvD(1) resumedLine_def filter_empty_conv)
  show ?thesis
  proof (cases "findOrder s j")
    case None
    then show ?thesis using skip by (simp add: restoreHoldForOrder_def wp)
  next
    case (Some ord)
    let ?items = "map (\<lambda>i. if heldBy storeId i then resumeItem i else i) (orderItems s j)"
    let ?next = "deriveOrderStatusFromFulfillment (o_status ord) (statusesOf ?items)"
    let ?snap = "if o_previousStatus ord \<noteq> None \<and> ?next \<noteq> OS_ON_HOLD then None else o_previousStatus ord"
    let ?row = "ord\<lparr>o_status := ?next, o_previousStatus := ?snap\<rparr>"
    have id: "o_id ord = j" using findOrder_id [OF Some] .
    have ok: "heldOk i" if "i \<in> set (orderItems s j)" for i using holdInvD(2) [OF s that] .
    show ?thesis
    proof (cases "filter (heldBy storeId) (orderItems s j) = []")
      case True
      then show ?thesis using Some skip by (auto simp: restoreHoldForOrder_def wp Let_def)
    next
      case False
      have snaps: "\<not> list_ex (\<lambda>i. oi_previousFulfillmentStatus i = None) (filter (heldBy storeId) (orderItems s j))"
        using ok by (auto simp: list_ex_iff heldBy_def heldOk_def)
      have finished: "holdInv t \<and> batchStep (resumedLine env storeId) (\<lambda>_. True) {j} s t"
        if t: "dbItems t = saveRows oi_id (map (stampItem env s) (map resumeItem (filter (heldBy storeId) (orderItems s j)))) (dbItems s)"
          "dbOrders t = saveRow o_id (stampOrder env s ?row) (dbOrders s) \<or> dbOrders t = dbOrders s \<and> ?next = o_status ord" for t
      proof -
        obtain row where row: "o_id row = j" "o_status row = ?next"
          and t2: "dbOrders t = saveRow o_id (stampOrder env s row) (dbOrders s) \<or> dbOrders t = dbOrders s \<and> row = ord"
        proof (cases "dbOrders t = dbOrders s \<and> ?next = o_status ord")
          case True
          then show thesis using that [of ord] id by simp
        next
          case False
          have "o_id ?row = j" "o_status ?row = ?next" using id by simp_all
          moreover from False t(2) have "dbOrders t = saveRow o_id (stampOrder env s ?row) (dbOrders s)" by blast
          ultimately show thesis using that [of ?row] by blast
        qed
        note upd = order_update [OF holdInvD(1) [OF s] _ _ Some t(1) row t2, of "resumedLine env storeId" "\<lambda>_. True"]
        have "ordersInv t" and b: "batchStep (resumedLine env storeId) (\<lambda>_. True) {j} s t"
          using upd stamp_resumed [OF u] ok by auto
        with batch_holdInv [OF b s] heldOk_change(2) show ?thesis by blast
      qed
      show ?thesis
        unfolding restoreHoldForOrder_def using Some False snaps by (simp add: wp Let_def finished)
    qed
  qed
qed

lemma resumeOrder_wp:
  assumes "holdInv s"
  shows "wp (resumeOrder env storeId j)
    (\<lambda>_ t. holdInv t \<and> batchStep (resumedLine env storeId) (\<lambda>_. True) {j} s t) (\<lambda>_ _. False) s"
  unfolding resumeOrder_def wp
  by (rule wp_conseq [OF restoreHoldForOrder_wp [OF assms]]) auto

interpretation resume_batch: order_batch "resumeOrder env storeId" "resumedLine env storeId" "\<lambda>_. True" holdInv for env storeId
  by unfold_locales (rule resumeOrder_wp)

text \<open>Restoring stock and writing history never fail.\<close>

definition quiet :: "(db, 'a) op \<Rightarrow> bool" where
  "quiet m \<longleftrightarrow> (\<forall>u. wp m (\<lambda>_ v. dbOrders v = dbOrders u \<and> dbItems v = dbItems u) (\<lambda>_ _. False) u)"

lemma quiet_wp:
  "quiet m \<Longrightarrow> (\<And>x v. dbOrders v = dbOrders u \<Longrightarrow> dbItems v = dbItems u \<Longrightarrow> Q x v) \<Longrightarrow> wp m Q E u"
  unfolding quiet_def by (blast intro: wp_conseq)

lemma quiet_seq: "quiet m \<Longrightarrow> (\<And>x. quiet (f x)) \<Longrightarrow> quiet (seqM m f)"
  unfolding quiet_def [of "seqM m f"] wp_seq by (auto intro!: quiet_wp [of m] quiet_wp [of "f _"])

lemma quiet_ret: "quiet (retM x)"
  and quiet_history: "quiet (addHistory env orderId status changedBy remark)"
  by (simp_all add: quiet_def wp)

lemma quiet_forM: "(\<And>x. quiet (f x)) \<Longrightarrow> quiet (forM f xs)"
  by (induction xs) (auto intro!: quiet_seq quiet_ret)

lemma quiet_restoreStock: "quiet (restoreStockForItems env orderId items remark)"
  unfolding quiet_def
proof
  fix u
  obtain bs t where "forM (restoreOne env orderId remark) items u = (Inr bs, t)" "restoredTo orderId items bs u t"
    using restore_loop by blast
  then have "wp (forM (restoreOne env orderId remark) items)
      (\<lambda>_ v. dbOrders v = dbOrders u \<and> dbItems v = dbItems u) (\<lambda>_ _. False) u"
    by (simp add: wp_def restoredTo_def)
  then show "wp (restoreStockForItems env orderId items remark)
      (\<lambda>_ v. dbOrders v = dbOrders u \<and> dbItems v = dbItems u) (\<lambda>_ _. False) u"
    unfolding restoreStockForItems_def wp by simp
qed

lemma quiet_restoreItemStock: "quiet (restoreItemStock env orderId itemIds remark)"
  unfolding restoreItemStock_def quiet_def wp using quiet_restoreStock [of env orderId] unfolding quiet_def by simp

lemma recordExpiry_wp:
  "wp (recordExpiry env ids ord ord') (\<lambda>_ t. dbOrders t = saveRow o_id (stampOrder env u ord') (dbOrders u) \<and>
     dbItems t = dbItems u) (\<lambda>_ _. False) u"
  unfolding recordExpiry_def wp_seq
proof (rule quiet_wp [OF quiet_forM [OF quiet_history]])
  fix v :: db
  assume v: "dbOrders v = dbOrders u" "dbItems v = dbItems u"
  show "wp (saveOrder env ord') (\<lambda>_. wp (if o_status ord' \<noteq> o_status ord
           then addHistory env (o_id ord) (o_status ord') None (''Hold SLA cancelled '' @ show_nat (length ids) @
                  '' held item(s); order status '' @ order_status_text (o_status ord) @ '' '' @ ARROW @ '' '' @
                  order_status_text (o_status ord'))
           else retM ()) (\<lambda>_. wp (retM (length ids)) (\<lambda>_ t. dbOrders t = saveRow o_id (stampOrder env u ord') (dbOrders u) \<and>
     dbItems t = dbItems u) (\<lambda>_ _. False)) (\<lambda>_ _. False)) (\<lambda>_ _. False) v"
    unfolding wp stampOrder_cong [OF v(1)] by (simp add: v)
qed

lemma headerAfterExpiry_simps [simp]:
  "o_id (headerAfterExpiry items shippings ord) = o_id ord"
  "o_status (headerAfterExpiry items shippings ord) = deriveOrderStatusFromFulfillment (o_status ord) (statusesOf items)"
  by (simp_all add: headerAfterExpiry_def Let_def recomputeOrderPayableTotals_def)

lemma stamp_expired:
  assumes "uniqueKey oi_id (dbItems s)" and "i \<in> set (orderItems s j)"
  shows "stampItem env s (if expiredHold cutoff i then cancelItem env i else i) = expiredLine env cutoff i"
  using assms by (simp add: expiredLine_def stampItem_same orderItems_def stampItem_updated cancelItem_def)

lemma cancelExpiredForOrder_wp:
  assumes s: "holdInv s"
  shows "wp (cancelExpiredHeldItemsForOrder env cutoff j)
    (\<lambda>_ t. holdInv t \<and> batchStep (expiredLine env cutoff) (\<lambda>_. True) {j} s t) (\<lambda>_ _. False) s"
proof -
  have u: "uniqueKey oi_id (dbItems s)" using s by (simp add: holdInv_def ordersInv_def)
  have skip: "holdInv s \<and> batchStep (expiredLine env cutoff) (\<lambda>_. True) {j} s s"
    if "\<And>ord. findOrder s j = Some ord \<Longrightarrow> filter (expiredHold cutoff) (orderItems s j) = []"
    using s that by (auto intro!: batchStep_skip map_idI simp: holdInvD(1) expiredLine_def filter_empty_conv)
  show ?thesis
  proof (cases "findOrder s j")
    case None
    then show ?thesis using skip by (simp add: cancelExpiredHeldItemsForOrder_def wp)
  next
    case (Some ord)
    let ?items = "map (\<lambda>i. if expiredHold cutoff i then cancelItem env i else i) (orderItems s j)"
    let ?row = "headerAfterExpiry ?items (filter (\<lambda>sh. ss_orderId sh = j) (dbShippings s)) ord"
    have id: "o_id ord = j" using findOrder_id [OF Some] .
    show ?thesis
    proof (cases "filter (expiredHold cutoff) (orderItems s j) = []")
      case True
      then show ?thesis using Some skip by (auto simp: cancelExpiredHeldItemsForOrder_def wp Let_def)
    next
      case False
      have finished: "holdInv t \<and> batchStep (expiredLine env cutoff) (\<lambda>_. True) {j} s t"
        if t: "dbItems t = saveRows oi_id (map (stampItem env s) (map (cancelItem env) (filter (expiredHold cutoff) (orderItems s j)))) (dbItems s)"
          "dbOrders t = saveRow o_id (stampOrder env s ?row) (dbOrders s)" for t
      proof -
        note upd = order_update [OF holdInvD(1) [OF s] _ _ Some t(1) _ _ disjI1 [OF t(2)], of "expiredLine env cutoff" "\<lambda>_. True"]
        have "ordersInv t" and b: "batchStep (expiredLine env cutoff) (\<lambda>_. True) {j} s t"
          using upd stamp_expired [OF u] id by auto
        with batch_holdInv [OF b s] heldOk_change(3) show ?thesis by blast
      qed
      let ?s1 = "s\<lparr>dbItems := saveRows oi_id (map (stampItem env s) (map (cancelItem env) (filter (expiredHold cutoff) (orderItems s j)))) (dbItems s)\<rparr>"
      have step: "wp (restoreItemStock env j (map oi_id (filter (expiredHold cutoff) (orderItems s j)))
            (Some ''Hold SLA auto-cancel stock restore''))
          (\<lambda>_. wp (recordExpiry env (map oi_id (filter (expiredHold cutoff) (orderItems s j))) ord ?row)
             (\<lambda>_ t. holdInv t \<and> batchStep (expiredLine env cutoff) (\<lambda>_. True) {j} s t) (\<lambda>_ _. False)) (\<lambda>_ _. False) ?s1"
      proof (rule quiet_wp [OF quiet_restoreItemStock])
        fix v :: db
        assume v: "dbOrders v = dbOrders ?s1" "dbItems v = dbItems ?s1"
        show "wp (recordExpiry env (map oi_id (filter (expiredHold cutoff) (orderItems s j))) ord ?row)
             (\<lambda>_ t. holdInv t \<and> batchStep (expiredLine env cutoff) (\<lambda>_. True) {j} s t) (\<lambda>_ _. False) v"
        proof (rule wp_conseq [OF recordExpiry_wp])
          fix x :: nat and t :: db
          assume "dbOrders t = saveRow o_id (stampOrder env v ?row) (dbOrders v) \<and> dbItems t = dbItems v"
          moreover have "stampOrder env v = stampOrder env s" using v(1) by (intro stampOrder_cong) simp
          ultimately show "holdInv t \<and> batchStep (expiredLine env cutoff) (\<lambda>_. True) {j} s t"
            using v by (intro finished) simp_all
        qed
      qed
      show ?thesis
        unfolding cancelExpiredHeldItemsForOrder_def wp_seq using Some False step by (simp add: wp_get wp_seq saveItems_wp Let_def)
    qed
  qed
qed

interpretation expiry_batch: order_batch "\<lambda>i. catchM (txnM (cancelExpiredHeldItemsForOrder env cutoff i)) (\<lambda>_. retM 0)"
    "expiredLine env cutoff" "\<lambda>_. True" holdInv for env cutoff
  by unfold_locales (auto simp: wp intro!: wp_conseq [OF cancelExpiredForOrder_wp])

section \<open>Whole stores\<close>

lemma batchStep_widen:
  assumes "batchStep change eligible A s t" and "ordersInv s"
    and "\<And>j ord. j \<notin> A \<Longrightarrow> findOrder s j = Some ord \<Longrightarrow> eligible (o_status ord) \<Longrightarrow> map change (orderItems s j) = orderItems s j"
  shows "batchStep change eligible UNIV s t"
  unfolding batchStep_def
proof
  fix j
  have b: "(findOrder t j = None \<longleftrightarrow> findOrder s j = None)"
    "case findOrder s j of None \<Rightarrow> orderItems t j = orderItems s j
      | Some ord \<Rightarrow> if j \<in> A \<and> eligible (o_status ord)
          then orderItems t j = map change (orderItems s j) \<and>
            o_status (the (findOrder t j)) = deriveOrderStatusFromFulfillment (o_status ord) (statusesOf (orderItems t j))
          else orderItems t j = orderItems s j \<and> o_status (the (findOrder t j)) = o_status ord"
    using spec [OF assms(1) [unfolded batchStep_def], of j] by blast+
  show "(findOrder t j = None \<longleftrightarrow> findOrder s j = None) \<and>
    (case findOrder s j of None \<Rightarrow> orderItems t j = orderItems s j
      | Some ord \<Rightarrow> if j \<in> UNIV \<and> eligible (o_status ord)
          then orderItems t j = map change (orderItems s j) \<and>
            o_status (the (findOrder t j)) = deriveOrderStatusFromFulfillment (o_status ord) (statusesOf (orderItems t j))
          else orderItems t j = orderItems s j \<and> o_status (the (findOrder t j)) = o_status ord)"
  proof (cases "findOrder s j")
    case None
    with b show ?thesis by simp
  next
    case (Some ord)
    with b assms(3) [OF _ Some] derive_fixed [OF assms(2) Some] show ?thesis by (cases "j \<in> A") auto
  qed
qed

lemma in_order: "i \<in> set (orderItems s j) \<longleftrightarrow> i \<in> set (dbItems s) \<and> oi_orderId i = j"
  by (auto simp: orderItems_def)

lemma applyHoldForStore_total:
  assumes "holdInv s"
  shows "\<exists>r t. applyHoldForStore env storeId s = (Inr r, t) \<and> holdInv t \<and>
    batchStep (heldLine env storeId) (\<lambda>st. st \<in> holdEligibleOrderStatuses) UNIV s t"
proof -
  let ?ids = "findOrderIdsWithEligibleItems storeId s"
  have d: "distinct ?ids" by (simp add: findOrderIdsWithEligibleItems_def)
  obtain ns t where t: "forM (tryHoldOrder env storeId) ?ids s = (Inr ns, t)" "holdInv t"
    "batchStep (heldLine env storeId) (\<lambda>st. st \<in> holdEligibleOrderStatuses) (set ?ids) s t"
    using hold_batch.batch_total [OF d assms] by blast
  have "map (heldLine env storeId) (orderItems s j) = orderItems s j"
    if "j \<notin> set ?ids" "findOrder s j = Some ord" "o_status ord \<in> holdEligibleOrderStatuses" for j ord
    using that by (auto simp: findOrderIdsWithEligibleItems_def in_order heldLine_def intro!: map_idI)
  from batchStep_widen [OF t(3) holdInvD(1) [OF assms] this] t show ?thesis
    by (auto simp: applyHoldForStore_def seqM_def)
qed

lemma restoreHoldForStore_total:
  assumes "holdInv s"
  shows "\<exists>r t. restoreHoldForStore env storeId s = (Inr r, t) \<and> holdInv t \<and>
    batchStep (resumedLine env storeId) (\<lambda>_. True) UNIV s t"
proof -
  let ?ids = "findOrderIdsWithHeldItems storeId s"
  have d: "distinct ?ids" by (simp add: findOrderIdsWithHeldItems_def)
  obtain ns t where t: "forM (resumeOrder env storeId) ?ids s = (Inr ns, t)" "holdInv t"
    "batchStep (resumedLine env storeId) (\<lambda>_. True) (set ?ids) s t"
    using resume_batch.batch_total [OF d assms] by blast
  have "map (resumedLine env storeId) (orderItems s j) = orderItems s j" if "j \<notin> set ?ids" for j
    using that by (auto simp: findOrderIdsWithHeldItems_def in_order resumedLine_def intro!: map_idI)
  from batchStep_widen [OF t(3) holdInvD(1) [OF assms] this] t show ?thesis
    by (auto simp: restoreHoldForStore_def seqM_def)
qed

lemma cancelExpired_total:
  assumes "holdInv s"
  shows "\<exists>n t. cancelExpiredHeldItems env slaMs s = (Inr n, t) \<and> holdInv t \<and>
    batchStep (expiredLine env (envNow env - getHoldSlaAfterMs slaMs)) (\<lambda>_. True) UNIV s t"
proof -
  define cutoff where "cutoff = envNow env - getHoldSlaAfterMs slaMs"
  let ?ids = "uniq (map oi_orderId (filter (expiredHold cutoff) (dbItems s)))"
  have d: "distinct ?ids" by simp
  obtain ns t where t: "forM (\<lambda>i. catchM (txnM (cancelExpiredHeldItemsForOrder env cutoff i)) (\<lambda>_. retM 0)) ?ids s = (Inr ns, t)"
    "holdInv t" "batchStep (expiredLine env cutoff) (\<lambda>_. True) (set ?ids) s t"
    using expiry_batch.batch_total [OF d assms] by blast
  have "map (expiredLine env cutoff) (orderItems s j) = orderItems s j" if "j \<notin> set ?ids" for j
    using that by (auto simp: in_order expiredLine_def intro!: map_idI)
  from batchStep_widen [OF t(3) holdInvD(1) [OF assms] this] t show ?thesis
    unfolding cancelExpiredHeldItems_def Let_def cutoff_def [symmetric] by (auto simp: seqM_def)
qed

lemma batchStep_if:
  assumes "batchStep change eligible UNIV s t" and "findOrder s j = Some ord"
  shows "\<exists>ord'. findOrder t j = Some ord' \<and>
    (if eligible (o_status ord)
     then orderItems t j = map change (orderItems s j) \<and>
       o_status ord' = deriveOrderStatusFromFulfillment (o_status ord) (statusesOf (orderItems t j))
     else orderItems t j = orderItems s j \<and> o_status ord' = o_status ord)"
proof -
  have b: "findOrder t j \<noteq> None" "if eligible (o_status ord)
      then orderItems t j = map change (orderItems s j) \<and>
        o_status (the (findOrder t j)) = deriveOrderStatusFromFulfillment (o_status ord) (statusesOf (orderItems t j))
      else orderItems t j = orderItems s j \<and> o_status (the (findOrder t j)) = o_status ord"
    using spec [OF assms(1) [unfolded batchStep_def], of j] assms(2) by simp_all
  then obtain ord' where f: "findOrder t j = Some ord'" by blast
  from b(2) show ?thesis unfolding f by (cases "eligible (o_status ord)") simp_all
qed

lemma batchStep_order:
  assumes "batchStep change eligible UNIV s t" and "findOrder s j = Some ord"
  obtains ord' where "findOrder t j = Some ord'"
    "eligible (o_status ord) \<Longrightarrow> orderItems t j = map change (orderItems s j)"
    "eligible (o_status ord) \<Longrightarrow> o_status ord' = deriveOrderStatusFromFulfillment (o_status ord) (statusesOf (orderItems t j))"
    "\<not> eligible (o_status ord) \<Longrightarrow> orderItems t j = orderItems s j"
    "\<not> eligible (o_status ord) \<Longrightarrow> o_status ord' = o_status ord"
proof -
  obtain ord' where "findOrder t j = Some ord'" "if eligible (o_status ord)
     then orderItems t j = map change (orderItems s j) \<and>
       o_status ord' = deriveOrderStatusFromFulfillment (o_status ord) (statusesOf (orderItems t j))
     else orderItems t j = orderItems s j \<and> o_status ord' = o_status ord"
    using batchStep_if [OF assms] by blast
  then show thesis by (cases "eligible (o_status ord)") (auto intro!: that [of ord'])
qed

lemma batchStep_none:
  assumes "batchStep change eligible A s t" and "findOrder s j = None"
  shows "findOrder t j = None \<and> orderItems t j = orderItems s j"
  using spec [OF assms(1) [unfolded batchStep_def], of j] assms(2) by simp

text \<open>A consistent order that is shipped, delivered or on hold has no open line.\<close>

lemma no_open_lines:
  assumes "headerOk st items" and "st \<notin> holdEligibleOrderStatuses" and "st \<notin> terminalOrderStatuses" and "i \<in> set items"
  shows "oi_fulfillmentStatus i \<notin> holdEligibleFulfillment"
proof -
  have "st = deriveOrderStatusFromFulfillment st (statusesOf items)" and "st \<noteq> OS_PENDING_PAYMENT"
    using assms by (auto simp: headerOk_def holdEligibleOrderStatuses_def)
  moreover have "oi_fulfillmentStatus i \<in> set (statusesOf items)" using assms(4) by (simp add: statusesOf_def)
  ultimately show ?thesis
    using derive_table [OF assms(3), of "statusesOf items"] assms(2)
    by (auto simp: Let_def holdEligibleOrderStatuses_def holdEligibleFulfillment_def split: if_splits)
qed

lemma frozen_store:
  assumes "holdInv s" and run: "applyHoldForStore env storeId s = (Inr r, t)"
  shows "holdInv t" and "findOrder t j = Some ord \<Longrightarrow> o_status ord \<notin> terminalOrderStatuses \<Longrightarrow> i \<in> set (orderItems t j) \<Longrightarrow>
    oi_storeId i = storeId \<Longrightarrow> oi_fulfillmentStatus i \<notin> holdEligibleFulfillment"
proof -
  have t: "holdInv t" and b: "batchStep (heldLine env storeId) (\<lambda>st. st \<in> holdEligibleOrderStatuses) UNIV s t"
    using applyHoldForStore_total [OF assms(1), of env storeId] run by auto
  show "holdInv t" by (rule t)
  assume o: "findOrder t j = Some ord" "o_status ord \<notin> terminalOrderStatuses" and i: "i \<in> set (orderItems t j)" "oi_storeId i = storeId"
  obtain ord0 where s: "findOrder s j = Some ord0"
    using batchStep_none [OF b] o(1) by (metis option.distinct(1) option.exhaust)
  from batchStep_order [OF b s] o(1) obtain
    e: "o_status ord0 \<in> holdEligibleOrderStatuses \<Longrightarrow> orderItems t j = map (heldLine env storeId) (orderItems s j)"
    and ne: "o_status ord0 \<notin> holdEligibleOrderStatuses \<Longrightarrow> orderItems t j = orderItems s j \<and> o_status ord = o_status ord0"
    by (metis option.inject)
  show "oi_fulfillmentStatus i \<notin> holdEligibleFulfillment"
  proof (cases "o_status ord0 \<in> holdEligibleOrderStatuses")
    case True
    with e i obtain k where "i = heldLine env storeId k" by auto
    then show ?thesis using i(2) by (auto simp: heldLine_def holdable_def holdEligibleFulfillment_def holdItem_def split: if_splits)
  next
    case False
    have "headerOk (o_status ord) (orderItems t j)" using t o(1) by (auto simp: holdInv_def ordersInv_def)
    from no_open_lines [OF this _ o(2) i(1)] ne False show ?thesis by simp
  qed
qed

section \<open>Suspension without an invariant\<close>

text \<open>
  What a suspension does to the orders in \<open>A\<close>, whatever their headers are: only the primary key of the lines
  is used.
\<close>

definition heldIn :: "env \<Rightarrow> string \<Rightarrow> string set \<Rightarrow> db \<Rightarrow> db \<Rightarrow> bool" where
  "heldIn env storeId A s t \<longleftrightarrow> uniqueKey oi_id (dbItems t) \<and> (\<forall>j. case findOrder s j of
       None \<Rightarrow> findOrder t j = None \<and> orderItems t j = orderItems s j
     | Some ord \<Rightarrow> \<exists>ord'. findOrder t j = Some ord' \<and>
         (if j \<in> A \<and> o_status ord \<in> holdEligibleOrderStatuses \<and> (\<exists>i \<in> set (orderItems s j). holdable storeId i)
          then orderItems t j = map (heldLine env storeId) (orderItems s j) \<and>
            o_status ord' = deriveOrderStatusFromFulfillment (o_status ord) (statusesOf (orderItems t j))
          else ord' = ord \<and> orderItems t j = orderItems s j))"

lemma heldIn_none:
  assumes "uniqueKey oi_id (dbItems s)"
    and "\<And>j ord. j \<in> A \<Longrightarrow> findOrder s j = Some ord \<Longrightarrow> o_status ord \<in> holdEligibleOrderStatuses \<Longrightarrow>
      filter (holdable storeId) (orderItems s j) = []"
  shows "heldIn env storeId A s s"
  unfolding heldIn_def using assms by (auto simp: filter_empty_conv split: option.split)

lemma heldIn_effects [simp]: "heldIn env storeId A s (t\<lparr>dbEffects := es\<rparr>) = heldIn env storeId A s t"
  unfolding heldIn_def frame_reads by simp

lemma heldIn_saved:
  assumes u: "uniqueKey oi_id (dbItems s)" and found: "findOrder s j = Some ord"
    and e: "o_status ord \<in> holdEligibleOrderStatuses" "filter (holdable storeId) (orderItems s j) \<noteq> []"
    and items: "dbItems t = saveRows oi_id (map (stampItem env s) (map (holdItem env) (filter (holdable storeId) (orderItems s j)))) (dbItems s)"
    and row: "o_id row = j"
      "o_status row = deriveOrderStatusFromFulfillment (o_status ord) (statusesOf (map (\<lambda>i. if holdable storeId i then holdItem env i else i) (orderItems s j)))"
    and ords: "dbOrders t = saveRow o_id (stampOrder env s row) (dbOrders s) \<or> dbOrders t = dbOrders s \<and> row = ord"
  shows "heldIn env storeId {j} s t"
proof -
  let ?f = "\<lambda>i. if holdable storeId i then holdItem env i else i"
  have keys: "oi_id (?f i) = oi_id i" "oi_orderId (?f i) = oi_orderId i" for i by simp_all
  have ts: "dbItems t = saveRows oi_id (map (stampItem env s) (map ?f (orderItems s j))) (dbItems s)"
    unfolding items by (rule saveItems_filter [OF u]) simp
  have lines: "orderItems t k = (if k = j then map (heldLine env storeId) (orderItems s j) else orderItems s k)" for k
    unfolding orderItems_def [of t k] ts saveItems_order(1) [OF u keys] using stamp_held [OF u] by simp
  have unique: "uniqueKey oi_id (dbItems t)" unfolding ts by (rule saveItems_order(2) [OF u keys])
  have statuses: "statusesOf (map (heldLine env storeId) xs) = statusesOf (map ?f xs)" for xs
    by (simp add: statusesOf_def heldLine_def)
  have "\<exists>ord'. findOrder t j = Some ord' \<and> o_status ord' = o_status row"
    using ords row(1) found order_repo.byId_save [of j "stampOrder env s row" "dbOrders s"] by (auto simp: findOrder_def)
  moreover have "findOrder t k = findOrder s k" if "k \<noteq> j" for k
    using ords that row(1) order_repo.byId_save [of k "stampOrder env s row" "dbOrders s"] by (auto simp: findOrder_def)
  ultimately show ?thesis
    unfolding heldIn_def using unique found e row(2) by (auto simp: lines statuses filter_empty_conv split: option.split)
qed

lemma applyHoldForOrder_held:
  assumes u: "uniqueKey oi_id (dbItems s)"
  shows "wp (applyHoldForOrder env storeId j) (\<lambda>_. heldIn env storeId {j} s) (\<lambda>_ _. False) s"
proof (cases "\<exists>ord. findOrder s j = Some ord \<and> o_status ord \<in> holdEligibleOrderStatuses \<and> filter (holdable storeId) (orderItems s j) \<noteq> []")
  case False
  then have "heldIn env storeId {j} s s" by (intro heldIn_none [OF u]) auto
  then show ?thesis using False by (auto simp: applyHoldForOrder_def wp Let_def split: option.split)
next
  case True
  then obtain ord where o: "findOrder s j = Some ord" "o_status ord \<in> holdEligibleOrderStatuses" "filter (holdable storeId) (orderItems s j) \<noteq> []"
    by blast
  let ?next = "deriveOrderStatusFromFulfillment (o_status ord) (statusesOf (map (\<lambda>i. if holdable storeId i then holdItem env i else i) (orderItems s j)))"
  let ?row = "if ?next \<noteq> o_status ord then ord\<lparr>o_status := ?next, o_previousStatus :=
      (if ?next = OS_ON_HOLD then Some (o_status ord) else o_previousStatus ord)\<rparr> else ord"
  have id: "o_id ord = j" using findOrder_id [OF o(1)] .
  have ne: "orderItems s j \<noteq> []" using o(3) by auto
  have finished: "heldIn env storeId {j} s t"
    if t: "dbItems t = saveRows oi_id (map (stampItem env s) (map (holdItem env) (filter (holdable storeId) (orderItems s j)))) (dbItems s)"
      "dbOrders t = saveRow o_id (stampOrder env s ?row) (dbOrders s) \<or> dbOrders t = dbOrders s \<and> ?row = ord" for t
  proof -
    have "o_id ?row = j" "o_status ?row = ?next" using id by auto
    from heldIn_saved [OF u o t(1) this t(2)] show ?thesis .
  qed
  show ?thesis
    unfolding applyHoldForOrder_def using o ne by (simp add: wp Let_def finished)
qed

lemma heldIn_insert:
  assumes "heldIn env storeId {j} s t" and "heldIn env storeId A t u" and "j \<notin> A"
  shows "heldIn env storeId (insert j A) s u"
proof -
  have "case findOrder s k of
       None \<Rightarrow> findOrder u k = None \<and> orderItems u k = orderItems s k
     | Some ord \<Rightarrow> \<exists>ord'. findOrder u k = Some ord' \<and>
         (if k \<in> insert j A \<and> o_status ord \<in> holdEligibleOrderStatuses \<and> (\<exists>i \<in> set (orderItems s k). holdable storeId i)
          then orderItems u k = map (heldLine env storeId) (orderItems s k) \<and>
            o_status ord' = deriveOrderStatusFromFulfillment (o_status ord) (statusesOf (orderItems u k))
          else ord' = ord \<and> orderItems u k = orderItems s k)" for k
  proof (cases "findOrder s k")
    case None
    then have "findOrder t k = None" "orderItems t k = orderItems s k"
      using spec [OF conjunct2 [OF assms(1) [unfolded heldIn_def]], of k] by simp_all
    with None spec [OF conjunct2 [OF assms(2) [unfolded heldIn_def]], of k] show ?thesis by simp
  next
    case (Some ord)
    then obtain ord1 where t: "findOrder t k = Some ord1"
        "if k = j \<and> o_status ord \<in> holdEligibleOrderStatuses \<and> (\<exists>i \<in> set (orderItems s k). holdable storeId i)
         then orderItems t k = map (heldLine env storeId) (orderItems s k) \<and>
            o_status ord1 = deriveOrderStatusFromFulfillment (o_status ord) (statusesOf (orderItems t k))
         else ord1 = ord \<and> orderItems t k = orderItems s k"
      using spec [OF conjunct2 [OF assms(1) [unfolded heldIn_def]], of k] by (simp only: option.case singleton_iff) blast
    obtain ord2 where u: "findOrder u k = Some ord2"
        "if k \<in> A \<and> o_status ord1 \<in> holdEligibleOrderStatuses \<and> (\<exists>i \<in> set (orderItems t k). holdable storeId i)
         then orderItems u k = map (heldLine env storeId) (orderItems t k) \<and>
            o_status ord2 = deriveOrderStatusFromFulfillment (o_status ord1) (statusesOf (orderItems u k))
         else ord2 = ord1 \<and> orderItems u k = orderItems t k"
      using spec [OF conjunct2 [OF assms(2) [unfolded heldIn_def]], of k] t(1) by (simp only: option.case) blast
    show ?thesis using Some t u assms(3) by (cases "k = j") (auto split: if_splits)
  qed
  moreover have "uniqueKey oi_id (dbItems u)" using assms(2) by (simp add: heldIn_def)
  ultimately show ?thesis unfolding heldIn_def by blast
qed

lemma holdOrders_held:
  "distinct ids \<Longrightarrow> uniqueKey oi_id (dbItems s) \<Longrightarrow>
     wp (forM (tryHoldOrder env storeId) ids) (\<lambda>_. heldIn env storeId (set ids) s) (\<lambda>_ _. False) s"
proof (induction ids arbitrary: s)
  case Nil
  have "heldIn env storeId (set []) s s" by (rule heldIn_none [OF Nil(2)]) simp
  then show ?case by (simp add: wp)
next
  case (Cons j ids)
  have "wp (tryHoldOrder env storeId j) (\<lambda>_. heldIn env storeId {j} s) (\<lambda>_ _. False) s"
    unfolding tryHoldOrder_def wp
    by (rule wp_conseq [OF applyHoldForOrder_held [OF Cons.prems(2)]]) auto
  then show ?case
    unfolding forM.simps wp_seq
  proof (rule wp_conseq)
    fix x t
    assume t: "heldIn env storeId {j} s t"
    then have "uniqueKey oi_id (dbItems t)" by (simp add: heldIn_def)
    from Cons.IH [OF _ this] Cons.prems(1) have "wp (forM (tryHoldOrder env storeId) ids) (\<lambda>_. heldIn env storeId (set ids) t) (\<lambda>_ _. False) t"
      by simp
    then show "wp (forM (tryHoldOrder env storeId) ids) (\<lambda>xs. wp (retM (x # xs)) (\<lambda>_. heldIn env storeId (set (j # ids)) s) (\<lambda>_ _. False))
        (\<lambda>_ _. False) t"
      by (rule wp_conseq) (use t Cons.prems(1) in \<open>auto simp: wp intro: heldIn_insert\<close>)
  qed simp
qed

lemma applyHoldForStore_held:
  assumes "uniqueKey oi_id (dbItems s)"
  shows "\<exists>r t. applyHoldForStore env storeId s = (Inr r, t) \<and> heldIn env storeId UNIV s t"
proof -
  let ?ids = "findOrderIdsWithEligibleItems storeId s"
  have d: "distinct ?ids" by (simp add: findOrderIdsWithEligibleItems_def)
  have "wp (applyHoldForStore env storeId) (\<lambda>_. heldIn env storeId (set ?ids) s) (\<lambda>_ _. False) s"
    unfolding applyHoldForStore_def wp by (rule wp_conseq [OF holdOrders_held [OF d assms]]) auto
  then obtain r t where t: "applyHoldForStore env storeId s = (Inr r, t)" "heldIn env storeId (set ?ids) s t"
    by (auto simp: wp_def split: prod.splits sum.splits)
  have all: "j \<in> set ?ids" if "findOrder s j = Some ord" "o_status ord \<in> holdEligibleOrderStatuses" "i \<in> set (orderItems s j)" "holdable storeId i" for j ord i
    using that by (force simp: findOrderIdsWithEligibleItems_def in_order)
  have "heldIn env storeId UNIV s t"
    unfolding heldIn_def
  proof (intro conjI allI)
    show "uniqueKey oi_id (dbItems t)" using t(2) by (simp add: heldIn_def)
    show "case findOrder s j of
       None \<Rightarrow> findOrder t j = None \<and> orderItems t j = orderItems s j
     | Some ord \<Rightarrow> \<exists>ord'. findOrder t j = Some ord' \<and>
         (if j \<in> UNIV \<and> o_status ord \<in> holdEligibleOrderStatuses \<and> (\<exists>i \<in> set (orderItems s j). holdable storeId i)
          then orderItems t j = map (heldLine env storeId) (orderItems s j) \<and>
            o_status ord' = deriveOrderStatusFromFulfillment (o_status ord) (statusesOf (orderItems t j))
          else ord' = ord \<and> orderItems t j = orderItems s j)" for j
      using spec [OF conjunct2 [OF t(2) [unfolded heldIn_def]], of j] all [of j]
      by (cases "findOrder s j"; cases "j \<in> set ?ids") (auto split: if_splits)
  qed
  with t(1) show ?thesis by blast
qed

section \<open>Properties\<close>

text \<open>C14. Suspending a store never fails, and does to the lines exactly this: in every order that awaits payment,
  is paid or is being processed, each line of the store that is pending or being processed is put on hold, remembering
  its status and since when; the header of such an order follows its lines. Every other line, also of another
  store, and every other order stay as they are. Where the headers agree with the lines before, they do after, and then no
  order that is neither cancelled nor refunded has an open line of the store left.\<close>

theorem suspension_freezes_store:
  assumes "uniqueKey oi_id (dbItems s)"
  shows "\<exists>r t. applyHoldForStore env storeId s = (Inr r, t) \<and>
    (\<forall>j ord. findOrder s j = Some ord \<longrightarrow>
       (let open_lines = filter (\<lambda>i. oi_storeId i = storeId \<and> oi_fulfillmentStatus i \<in> {FS_PENDING, FS_PROCESSING}) (orderItems s j)
        in if o_status ord \<in> {OS_PENDING_PAYMENT, OS_PAID, OS_PROCESSING} \<and> open_lines \<noteq> []
           then orderItems t j = map (\<lambda>i. if i \<in> set open_lines
                    then i\<lparr>oi_fulfillmentStatus := FS_ON_HOLD, oi_previousFulfillmentStatus := Some (oi_fulfillmentStatus i),
                           oi_holdStartedAt := Some (envNow env), oi_updatedAt := envNow env\<rparr>
                    else i) (orderItems s j) \<and>
                map_option o_status (findOrder t j) = Some (deriveOrderStatusFromFulfillment (o_status ord) (statusesOf (orderItems t j)))
           else orderItems t j = orderItems s j \<and> findOrder t j = Some ord)) \<and>
    (holdInv s \<longrightarrow> holdInv t \<and>
       (\<forall>j ord. findOrder t j = Some ord \<and> o_status ord \<notin> {OS_CANCELLED, OS_REFUNDED} \<longrightarrow>
          (\<forall>i \<in> set (orderItems t j). oi_storeId i = storeId \<longrightarrow> oi_fulfillmentStatus i \<notin> {FS_PENDING, FS_PROCESSING})))"
proof -
  obtain r t where t: "applyHoldForStore env storeId s = (Inr r, t)" "heldIn env storeId UNIV s t"
    using applyHoldForStore_held [OF assms] by blast
  have elig: "holdEligibleOrderStatuses = {OS_PENDING_PAYMENT, OS_PAID, OS_PROCESSING}" "holdEligibleFulfillment = {FS_PENDING, FS_PROCESSING}"
    by (auto simp: holdEligibleOrderStatuses_def holdEligibleFulfillment_def)
  have lines: "map (heldLine env storeId) xs = map (\<lambda>i. if i \<in> set (filter (\<lambda>i. oi_storeId i = storeId \<and> oi_fulfillmentStatus i \<in> {FS_PENDING, FS_PROCESSING}) xs)
      then i\<lparr>oi_fulfillmentStatus := FS_ON_HOLD, oi_previousFulfillmentStatus := Some (oi_fulfillmentStatus i),
             oi_holdStartedAt := Some (envNow env), oi_updatedAt := envNow env\<rparr> else i) xs" for xs
    by (auto simp: heldLine_def holdable_def holdItem_def elig)
  have "let open_lines = filter (\<lambda>i. oi_storeId i = storeId \<and> oi_fulfillmentStatus i \<in> {FS_PENDING, FS_PROCESSING}) (orderItems s j)
        in if o_status ord \<in> {OS_PENDING_PAYMENT, OS_PAID, OS_PROCESSING} \<and> open_lines \<noteq> []
           then orderItems t j = map (\<lambda>i. if i \<in> set open_lines
                    then i\<lparr>oi_fulfillmentStatus := FS_ON_HOLD, oi_previousFulfillmentStatus := Some (oi_fulfillmentStatus i),
                           oi_holdStartedAt := Some (envNow env), oi_updatedAt := envNow env\<rparr>
                    else i) (orderItems s j) \<and>
                map_option o_status (findOrder t j) = Some (deriveOrderStatusFromFulfillment (o_status ord) (statusesOf (orderItems t j)))
           else orderItems t j = orderItems s j \<and> findOrder t j = Some ord" if o: "findOrder s j = Some ord" for j ord
  proof -
    have "(\<exists>i \<in> set (orderItems s j). holdable storeId i) \<longleftrightarrow>
        filter (\<lambda>i. oi_storeId i = storeId \<and> oi_fulfillmentStatus i \<in> {FS_PENDING, FS_PROCESSING}) (orderItems s j) \<noteq> []"
      by (auto simp: holdable_def elig filter_empty_conv)
    then show ?thesis
      using spec [OF conjunct2 [OF t(2) [unfolded heldIn_def]], of j] o
      unfolding elig Let_def lines by (auto split: if_splits)
  qed
  moreover have "holdInv t \<and> (\<forall>j ord. findOrder t j = Some ord \<and> o_status ord \<notin> {OS_CANCELLED, OS_REFUNDED} \<longrightarrow>
      (\<forall>i \<in> set (orderItems t j). oi_storeId i = storeId \<longrightarrow> oi_fulfillmentStatus i \<notin> {FS_PENDING, FS_PROCESSING}))" if "holdInv s"
    using frozen_store [OF that t(1)] unfolding elig terminalOrderStatuses_def by blast
  ultimately show ?thesis using t(1) by blast
qed

lemma sampleMulti_hold: "holdInv sampleMulti"
  using sampleMulti_inv by (auto simp: holdInv_def heldOk_def)

theorem suspension_freezes_store_witness:
  "\<exists>r t. applyHoldForStore sampleClock ''b'' sampleMulti = (Inr r, t) \<and> holdInv t \<and>
     statusesOf (orderItems t ''o'') = [FS_PROCESSING, FS_ON_HOLD] \<and> oi_previousFulfillmentStatus (orderItems t ''o'' ! 1) = Some FS_PENDING"
proof -
  have "uniqueKey oi_id (dbItems sampleMulti)" using holdInvD(1) [OF sampleMulti_hold] by (simp add: ordersInv_def)
  from suspension_freezes_store [OF this, of sampleClock "''b''"] obtain r t where t: "applyHoldForStore sampleClock ''b'' sampleMulti = (Inr r, t)"
    and all: "\<forall>j ord. findOrder sampleMulti j = Some ord \<longrightarrow>
       (let open_lines = filter (\<lambda>i. oi_storeId i = ''b'' \<and> oi_fulfillmentStatus i \<in> {FS_PENDING, FS_PROCESSING}) (orderItems sampleMulti j)
        in if o_status ord \<in> {OS_PENDING_PAYMENT, OS_PAID, OS_PROCESSING} \<and> open_lines \<noteq> []
           then orderItems t j = map (\<lambda>i. if i \<in> set open_lines
                    then i\<lparr>oi_fulfillmentStatus := FS_ON_HOLD, oi_previousFulfillmentStatus := Some (oi_fulfillmentStatus i),
                           oi_holdStartedAt := Some (envNow sampleClock), oi_updatedAt := envNow sampleClock\<rparr>
                    else i) (orderItems sampleMulti j) \<and>
                map_option o_status (findOrder t j) = Some (deriveOrderStatusFromFulfillment (o_status ord) (statusesOf (orderItems t j)))
           else orderItems t j = orderItems sampleMulti j \<and> findOrder t j = Some ord)"
    and inv: "holdInv t"
    using sampleMulti_hold by blast
  have ne: "lineA \<noteq> lineB" by (rule notI, drule arg_cong [of _ _ oi_id]) (simp add: sample_lines)
  have lines: "orderItems t ''o'' = [lineA, lineB\<lparr>oi_fulfillmentStatus := FS_ON_HOLD, oi_previousFulfillmentStatus := Some FS_PENDING,
       oi_holdStartedAt := Some (envNow sampleClock), oi_updatedAt := envNow sampleClock\<rparr>]"
    using spec [OF spec [OF all], of "''o''"] ne by (simp add: sampleMulti_simps Let_def)
  from t inv lines show ?thesis by (intro exI [of _ r] exI [of _ t]) (simp add: statusesOf_def)
qed

text \<open>Suspending twice is the same as once: the second hold finds no order, changes nothing and
  reports zero.\<close>

theorem hold_idempotent:
  assumes "holdInv s" and "applyHoldForStore env storeId s = (r, t)"
  shows "applyHoldForStore env' storeId t = (Inr (0, 0), t)"
proof -
  have t: "holdInv t" and b: "batchStep (heldLine env storeId) (\<lambda>st. st \<in> holdEligibleOrderStatuses) UNIV s t"
    using applyHoldForStore_total [OF assms(1), of env storeId] assms(2) by auto
  have "\<not> holdable storeId i" if i: "i \<in> set (dbItems t)" "findOrder t (oi_orderId i) = Some ord"
    "o_status ord \<in> holdEligibleOrderStatuses" for i ord
  proof
    assume h: "holdable storeId i"
    have mem: "i \<in> set (orderItems t (oi_orderId i))" using i(1) by (simp add: in_order)
    obtain ord0 where s: "findOrder s (oi_orderId i) = Some ord0"
      using batchStep_none [OF b] i(2) by (metis option.distinct(1) option.exhaust)
    from batchStep_order [OF b s] i(2) obtain
      e: "o_status ord0 \<in> holdEligibleOrderStatuses \<Longrightarrow> orderItems t (oi_orderId i) = map (heldLine env storeId) (orderItems s (oi_orderId i))"
      and ne: "o_status ord0 \<notin> holdEligibleOrderStatuses \<Longrightarrow> o_status ord = o_status ord0"
      by (metis option.inject)
    have "o_status ord0 \<in> holdEligibleOrderStatuses" using ne i(3) by metis
    with e mem obtain k where "i = heldLine env storeId k" by auto
    with h show False by (auto simp: heldLine_def holdable_def holdEligibleFulfillment_def holdItem_def split: if_splits)
  qed
  then have "findOrderIdsWithEligibleItems storeId t = []"
    by (auto simp: findOrderIdsWithEligibleItems_def uniq_def filter_empty_conv split: option.splits)
  then show ?thesis by (simp add: applyHoldForStore_def touched_def)
qed

theorem hold_idempotent_witness:
  "applyHoldForStore sampleClock ''b'' (snd (applyHoldForStore sampleClock ''b'' sampleMulti)) =
     (Inr (0, 0), snd (applyHoldForStore sampleClock ''b'' sampleMulti))"
  using hold_idempotent [OF sampleMulti_hold, of sampleClock "''b''"] by (metis surj_pair snd_conv)

text \<open>A line without its hold bookkeeping and time stamp.\<close>

definition withoutHold :: "item_row \<Rightarrow> item_row" where
  "withoutHold i = i\<lparr>oi_previousFulfillmentStatus := None, oi_holdStartedAt := None, oi_updatedAt := 0\<rparr>"

lemma resume_held: "\<not> heldBy st i \<Longrightarrow> withoutHold (resumedLine env' st (heldLine env st i)) = withoutHold i"
  by (auto simp: resumedLine_def heldLine_def heldBy_def holdable_def holdItem_def resumeItem_def withoutHold_def)

lemma derive_indep:
  assumes "a \<notin> terminalOrderStatuses" and "a \<noteq> OS_PENDING_PAYMENT"
    and "b \<notin> terminalOrderStatuses" and "b \<noteq> OS_PENDING_PAYMENT"
  shows "deriveOrderStatusFromFulfillment a fs = deriveOrderStatusFromFulfillment b fs"
  unfolding derive_table [OF assms(1,2)] derive_table [OF assms(3,4)] ..

lemma derive_back: "deriveOrderStatusFromFulfillment (deriveOrderStatusFromFulfillment st fs) gs =
    deriveOrderStatusFromFulfillment st gs"
proof (cases "st \<in> terminalOrderStatuses \<or> st = OS_PENDING_PAYMENT")
  case True
  then show ?thesis by (auto simp: terminalOrderStatuses_def)
next
  case False
  then have st: "st \<notin> terminalOrderStatuses" "st \<noteq> OS_PENDING_PAYMENT" by auto
  let ?d = "deriveOrderStatusFromFulfillment st fs"
  have "?d \<notin> terminalOrderStatuses" "?d \<noteq> OS_PENDING_PAYMENT"
    unfolding derive_table [OF st] Let_def by (simp_all add: terminalOrderStatuses_def)
  from derive_indep [OF this st] show ?thesis .
qed

lemma statuses_withoutHold: "map withoutHold xs = map withoutHold ys \<Longrightarrow> statusesOf xs = statusesOf ys"
proof -
  assume "map withoutHold xs = map withoutHold ys"
  then have "map oi_fulfillmentStatus (map withoutHold xs) = map oi_fulfillmentStatus (map withoutHold ys)" by simp
  then show ?thesis by (simp add: statusesOf_def withoutHold_def comp_def)
qed

text \<open>C24. Suspension and reactivation are inverse: when no line of the store was on hold, holding and
  restoring it never raises and gives every order its status back and every line its fulfillment
  status and data, up to time stamps.\<close>

theorem hold_restore_roundtrip:
  assumes "holdInv s" and "\<not> list_ex (heldBy storeId) (dbItems s)"
    and "applyHoldForStore env storeId s = (r, t)"
  shows "\<exists>r' u. restoreHoldForStore env' storeId t = (Inr r', u) \<and> holdInv u \<and>
    (\<forall>j. map withoutHold (orderItems u j) = map withoutHold (orderItems s j) \<and>
         map_option o_status (findOrder u j) = map_option o_status (findOrder s j))"
proof -
  have t: "holdInv t" and b: "batchStep (heldLine env storeId) (\<lambda>st. st \<in> holdEligibleOrderStatuses) UNIV s t"
    using applyHoldForStore_total [OF assms(1), of env storeId] assms(3) by auto
  obtain r' u where u: "restoreHoldForStore env' storeId t = (Inr r', u)" "holdInv u"
    and c: "batchStep (resumedLine env' storeId) (\<lambda>_. True) UNIV t u"
    using restoreHoldForStore_total [OF t] by blast
  have "map withoutHold (orderItems u j) = map withoutHold (orderItems s j) \<and>
      map_option o_status (findOrder u j) = map_option o_status (findOrder s j)" for j
  proof (cases "findOrder s j")
    case None
    with batchStep_none [OF b None] batchStep_none [OF c] show ?thesis by auto
  next
    case (Some ord)
    obtain ord1 where f1: "findOrder t j = Some ord1" and e: "if o_status ord \<in> holdEligibleOrderStatuses
        then orderItems t j = map (heldLine env storeId) (orderItems s j) \<and>
          o_status ord1 = deriveOrderStatusFromFulfillment (o_status ord) (statusesOf (orderItems t j))
        else orderItems t j = orderItems s j \<and> o_status ord1 = o_status ord"
      using batchStep_if [OF b Some] by blast
    from c f1 obtain ord2 where o2: "findOrder u j = Some ord2"
      "orderItems u j = map (resumedLine env' storeId) (orderItems t j)"
      "o_status ord2 = deriveOrderStatusFromFulfillment (o_status ord1) (statusesOf (orderItems u j))"
      by (rule batchStep_order) simp
    have fresh: "\<not> heldBy storeId i" if "i \<in> set (orderItems s j)" for i
      using assms(2) that by (auto simp: list_ex_iff in_order)
    have lines: "map withoutHold (orderItems u j) = map withoutHold (orderItems s j)"
    proof (cases "o_status ord \<in> holdEligibleOrderStatuses")
      case True
      with e o2 resume_held fresh show ?thesis by simp
    next
      case False
      with e o2 fresh show ?thesis by (simp add: resumedLine_def)
    qed
    have "statusesOf (orderItems u j) = statusesOf (orderItems s j)" using statuses_withoutHold [OF lines] .
    then have "o_status ord2 = deriveOrderStatusFromFulfillment (o_status ord1) (statusesOf (orderItems s j))" using o2(3) by simp
    also have "\<dots> = deriveOrderStatusFromFulfillment (o_status ord) (statusesOf (orderItems s j))"
      using e by (cases "o_status ord \<in> holdEligibleOrderStatuses") (simp_all add: derive_back)
    also have "\<dots> = o_status ord" by (rule derive_fixed [OF holdInvD(1) [OF assms(1)] Some])
    finally show ?thesis using lines Some o2(1) by simp
  qed
  with u show ?thesis by blast
qed

theorem hold_restore_roundtrip_witness:
  "\<exists>r' u. restoreHoldForStore sampleClock ''b'' (snd (applyHoldForStore sampleClock ''b'' sampleMulti)) = (Inr r', u) \<and>
     map withoutHold (orderItems u ''o'') = map withoutHold [lineA, lineB] \<and>
     map_option o_status (findOrder u ''o'') = Some OS_PROCESSING"
proof -
  obtain r t where a: "applyHoldForStore sampleClock ''b'' sampleMulti = (r, t)" by (cases "applyHoldForStore sampleClock ''b'' sampleMulti")
  have "\<not> list_ex (heldBy ''b'') (dbItems sampleMulti)" by (simp add: heldBy_def)
  from hold_restore_roundtrip [OF sampleMulti_hold this a, of sampleClock] obtain r' u where
    u: "restoreHoldForStore sampleClock ''b'' t = (Inr r', u)"
      "map withoutHold (orderItems u ''o'') = map withoutHold (orderItems sampleMulti ''o'')"
      "map_option o_status (findOrder u ''o'') = map_option o_status (findOrder sampleMulti ''o'')" by blast
  show ?thesis by (intro exI [of _ r'] exI [of _ u]) (use u in \<open>simp add: a\<close>)
qed

text \<open>C0. The hold limit cancels exactly the lines held for longer: afterwards no line of an existing
  order is past the limit, and every other line is untouched. An order of which nothing is left
  does not become cancelled but \<open>paid\<close>.\<close>

theorem expired_holds_cancelled:
  assumes "holdInv s" and "findOrder s j = Some ord"
  shows "\<exists>n t ord'. cancelExpiredHeldItems env slaMs s = (Inr n, t) \<and> holdInv t \<and> findOrder t j = Some ord' \<and>
    filter (expiredHold (envNow env - getHoldSlaAfterMs slaMs)) (orderItems t j) = [] \<and>
    filter (\<lambda>i. oi_id i \<notin> oi_id ` set (filter (expiredHold (envNow env - getHoldSlaAfterMs slaMs)) (orderItems s j))) (orderItems t j) =
      filter (\<lambda>i. \<not> expiredHold (envNow env - getHoldSlaAfterMs slaMs) i) (orderItems s j) \<and>
    (set (statusesOf (orderItems t j)) = {FS_CANCELLED} \<and> o_status ord \<notin> terminalOrderStatuses \<and> o_status ord \<noteq> OS_PENDING_PAYMENT
       \<longrightarrow> o_status ord' = OS_PAID)"
proof -
  define cutoff where "cutoff = envNow env - getHoldSlaAfterMs slaMs"
  obtain n t where t: "cancelExpiredHeldItems env slaMs s = (Inr n, t)" "holdInv t"
    and b: "batchStep (expiredLine env cutoff) (\<lambda>_. True) UNIV s t"
    using cancelExpired_total [OF assms(1), of env slaMs] unfolding cutoff_def by blast
  from b assms(2) obtain ord' where o: "findOrder t j = Some ord'" "orderItems t j = map (expiredLine env cutoff) (orderItems s j)"
    "o_status ord' = deriveOrderStatusFromFulfillment (o_status ord) (statusesOf (orderItems t j))"
    by (rule batchStep_order) simp
  have gone: "\<not> expiredHold cutoff (expiredLine env cutoff i)" for i by (simp add: expiredLine_def expiredHold_def)
  have u: "distinct (map oi_id (orderItems s j))"
    using assms(1) by (simp add: holdInv_def ordersInv_def uniqueKey_def orderItems_def distinct_map_filter)
  have rest: "filter (\<lambda>i. oi_id i \<notin> E) (map (expiredLine env cutoff) xs) = filter (\<lambda>i. \<not> expiredHold cutoff i) xs"
    if "\<And>i. i \<in> set xs \<Longrightarrow> (oi_id i \<in> E) = expiredHold cutoff i" for xs E
    using that by (induction xs) (auto simp: expiredLine_def)
  have "(oi_id i \<in> oi_id ` set (filter (expiredHold cutoff) (orderItems s j))) = expiredHold cutoff i"
    if "i \<in> set (orderItems s j)" for i
    using u that by (auto simp: distinct_map inj_on_def)
  note kept = rest [OF this]
  have "o_status ord' = OS_PAID" if "set (statusesOf (orderItems t j)) = {FS_CANCELLED}"
    "o_status ord \<notin> terminalOrderStatuses" "o_status ord \<noteq> OS_PENDING_PAYMENT"
    using derive_table [OF that(2,3), of "statusesOf (orderItems t j)"] that(1) o(3) by simp
  then show ?thesis
    unfolding cutoff_def [symmetric] using t o kept gone by (auto simp: filter_empty_conv)
qed

definition sampleHeld :: db where
  "sampleHeld = sampleMulti\<lparr>dbOrders := [sampleOrder ''o'' OS_ON_HOLD],
     dbItems := [lineB\<lparr>oi_fulfillmentStatus := FS_ON_HOLD, oi_previousFulfillmentStatus := Some FS_PENDING,
       oi_holdStartedAt := Some (-3000)\<rparr>]\<rparr>"

theorem expired_holds_cancelled_witness:
  "\<exists>n t ord'. cancelExpiredHeldItems sampleClock (Some 1000) sampleHeld = (Inr n, t) \<and> findOrder t ''o'' = Some ord' \<and>
     filter (expiredHold (-1000)) (orderItems t ''o'') = []"
proof -
  have "ordersInv sampleHeld"
    by (auto simp: ordersInv_def sampleHeld_def uniqueKey_def findOrder_def headerOk_def orderItems_def statusesOf_def
        deriveOrderStatusFromFulfillment_def terminalOrderStatuses_def split: if_splits)
  then have inv: "holdInv sampleHeld"
    by (auto simp: holdInv_def sampleHeld_def heldOk_def holdEligibleFulfillment_def)
  have "findOrder sampleHeld ''o'' = Some (sampleOrder ''o'' OS_ON_HOLD)" by (simp add: sampleHeld_def findOrder_def)
  from expired_holds_cancelled [OF inv this, of sampleClock "Some 1000"] show ?thesis
    by (auto simp: sampleClock_def getHoldSlaAfterMs_def)
qed

end
