(* ===== verification/Cart_Service.thy ===== *)
theory Cart_Service
  imports Repository Inventory Store_Access Promotion_Admin
begin

text \<open>
  \<^verbatim>\<open>src/src/modules/cart/cart.service.ts\<close>: the cart of a customer or of a guest session. A line's
  variant, product and store are the joins of the loaded relations, in which soft-deleted rows are
  missing (null). The table has a unique index over cart and variant.
\<close>

section \<open>Loading\<close>

record cart_warning =
  cw_code :: string
  cw_variantId :: string

record cart_view =
  cv_cart :: cart_row
  cv_items :: "cart_item_row list"
  cv_warnings :: "cart_warning list"

definition cartItems :: "db \<Rightarrow> string \<Rightarrow> cart_item_row list" where
  "cartItems s cartId = filter (\<lambda>i. ci_cartId i = cartId) (dbCartItems s)"

definition findCart :: "db \<Rightarrow> string option \<Rightarrow> string option \<Rightarrow> cart_row option" where
  "findCart s customerId sessionId = List.find (\<lambda>c. if truthy customerId then ct_customerId c = customerId
     else ct_sessionId c = sessionId) (dbCarts s)"

definition newCart :: "env \<Rightarrow> string \<Rightarrow> string option \<Rightarrow> string option \<Rightarrow> cart_row" where
  "newCart env i customerId sessionId = \<lparr>ct_id = i, ct_customerId = customerId,
     ct_sessionId = (if truthy customerId then None else sessionId), ct_mergedAt = None,
     ct_createdAt = envNow env, ct_updatedAt = envNow env\<rparr>"

definition resolveCart :: "env \<Rightarrow> string option \<Rightarrow> string option \<Rightarrow> (db, cart_row \<times> cart_item_row list) op" where
  "resolveCart env customerId sessionId =
     seqM (failIf (\<not> truthy customerId \<and> \<not> truthy sessionId) (BadRequest ''CART_IDENTITY_REQUIRED'')) (\<lambda>_.
     seqM (getM (\<lambda>s. findCart s customerId sessionId)) (\<lambda>found.
       case found of
         Some c \<Rightarrow> getM (\<lambda>s. (c, cartItems s (ct_id c)))
       | None \<Rightarrow> seqM (freshId env) (\<lambda>i.
           seqM (modM (\<lambda>s. s\<lparr>dbCarts := dbCarts s @ [newCart env i customerId sessionId]\<rparr>)) (\<lambda>_.
             retM (newCart env i customerId sessionId, [])))))"

definition variantOfItem :: "db \<Rightarrow> cart_item_row \<Rightarrow> variant_row option" where
  "variantOfItem s i = liveVariant s (ci_variantId i)"

definition storeOfVariant :: "db \<Rightarrow> variant_row \<Rightarrow> store_row option" where
  "storeOfVariant s v = (case liveProduct s (v_productId v) of None \<Rightarrow> None | Some p \<Rightarrow> liveStore s (p_storeId p))"

definition isSuspendedStoreItem :: "db \<Rightarrow> cart_item_row \<Rightarrow> bool" where
  "isSuspendedStoreItem s i = (case variantOfItem s i of None \<Rightarrow> False
     | Some v \<Rightarrow> (case storeOfVariant s v of None \<Rightarrow> False | Some st \<Rightarrow> st_status st = ST_SUSPENDED))"

definition isRetiredVariantItem :: "db \<Rightarrow> cart_item_row \<Rightarrow> bool" where
  "isRetiredVariantItem s i = (case variantOfItem s i of None \<Rightarrow> False | Some v \<Rightarrow> v_retiredAt v \<noteq> None)"

section \<open>Writing\<close>

definition stampCartItem :: "env \<Rightarrow> db \<Rightarrow> cart_item_row \<Rightarrow> cart_item_row" where
  "stampCartItem env s i = (if byKey ci_id (ci_id i) (dbCartItems s) = Some i then i else i\<lparr>ci_updatedAt := envNow env\<rparr>)"

definition saveCartItem :: "env \<Rightarrow> cart_item_row \<Rightarrow> (db, cart_item_row) op" where
  "saveCartItem env i = seqM (getM (\<lambda>s. stampCartItem env s i)) (\<lambda>i'.
     seqM (modM (\<lambda>s. s\<lparr>dbCartItems := saveRow ci_id i' (dbCartItems s)\<rparr>)) (\<lambda>_. retM i'))"

text \<open>The pair the unique index covers.\<close>

definition cartKey :: "cart_item_row \<Rightarrow> string \<times> string" where
  "cartKey i = (ci_cartId i, ci_variantId i)"

definition insertCartItem :: "env \<Rightarrow> string \<Rightarrow> string \<Rightarrow> int \<Rightarrow> (db, unit) op" where
  "insertCartItem env cartId variantId quantity = seqM (freshId env) (\<lambda>i.
     seqM (getM (\<lambda>s. (cartId, variantId) \<in> cartKey ` set (dbCartItems s))) (\<lambda>taken.
     seqM (failIf taken (Failure ''duplicate key'')) (\<lambda>_.
     modM (\<lambda>s. s\<lparr>dbCartItems := dbCartItems s @ [\<lparr>ci_id = i, ci_cartId = cartId, ci_variantId = variantId,
       ci_quantity = quantity, ci_createdAt = envNow env, ci_updatedAt = envNow env\<rparr>]\<rparr>))))"

definition deleteCartItems :: "(cart_item_row \<Rightarrow> bool) \<Rightarrow> (db, unit) op" where
  "deleteCartItems P = modM (\<lambda>s. s\<lparr>dbCartItems := filter (\<lambda>i. \<not> P i) (dbCartItems s)\<rparr>)"

section \<open>Reading a cart\<close>

definition purgeUnavailableItems :: "cart_row \<Rightarrow> cart_item_row list \<Rightarrow> (db, cart_view) op" where
  "purgeUnavailableItems cart items =
     seqM (getM (\<lambda>s. (filter (isSuspendedStoreItem s) items,
                      filter (\<lambda>i. \<not> isSuspendedStoreItem s i \<and> isRetiredVariantItem s i) items,
                      filter (\<lambda>i. \<not> isSuspendedStoreItem s i \<and> \<not> isRetiredVariantItem s i) items))) (\<lambda>(suspended, retired, kept).
     seqM (if suspended @ retired = [] then retM ()
           else deleteCartItems (\<lambda>i. ci_id i \<in> ci_id ` set (suspended @ retired))) (\<lambda>_.
       retM \<lparr>cv_cart = cart, cv_items = kept, cv_warnings =
         map (\<lambda>i. \<lparr>cw_code = ''SUSPENDED_STORE_ITEM_REMOVED'', cw_variantId = ci_variantId i\<rparr>) suspended @
         map (\<lambda>i. \<lparr>cw_code = ''RETIRED_VARIANT_REMOVED'', cw_variantId = ci_variantId i\<rparr>) retired\<rparr>))"

definition cappedQuantity :: "db \<Rightarrow> cart_item_row \<Rightarrow> int" where
  "cappedQuantity s i = (case variantOfItem s i of None \<Rightarrow> ci_quantity i
     | Some v \<Rightarrow> if v_stockQuantity v \<le> 0 \<or> ci_quantity i \<le> v_stockQuantity v then ci_quantity i else v_stockQuantity v)"

definition capOne :: "env \<Rightarrow> cart_item_row \<Rightarrow> (db, cart_item_row \<times> cart_warning list) op" where
  "capOne env item = seqM (getM (\<lambda>s. cappedQuantity s item)) (\<lambda>q.
     if q = ci_quantity item then retM (item, [])
     else seqM (saveCartItem env (item\<lparr>ci_quantity := q\<rparr>)) (\<lambda>item'.
       retM (item', [\<lparr>cw_code = ''QUANTITY_CAPPED'', cw_variantId = ci_variantId item\<rparr>])))"

definition capQuantitiesToStock :: "env \<Rightarrow> cart_view \<Rightarrow> (db, cart_view) op" where
  "capQuantitiesToStock env view = seqM (forM (capOne env) (cv_items view)) (\<lambda>rs.
     retM (view\<lparr>cv_items := map fst rs, cv_warnings := cv_warnings view @ concat (map snd rs)\<rparr>))"

definition getCart :: "env \<Rightarrow> string option \<Rightarrow> string option \<Rightarrow> (db, cart_view) op" where
  "getCart env customerId sessionId = seqM (resolveCart env customerId sessionId) (\<lambda>(cart, items).
     seqM (purgeUnavailableItems cart items) (capQuantitiesToStock env))"

section \<open>Changing a cart\<close>

definition putLine :: "env \<Rightarrow> string \<Rightarrow> string \<Rightarrow> int \<Rightarrow> cart_item_row option \<Rightarrow> (db, unit) op" where
  "putLine env cartId variantId quantity existing = (case existing of
     Some i \<Rightarrow> seqM (saveCartItem env (i\<lparr>ci_quantity := ci_quantity i + quantity\<rparr>)) (\<lambda>_. retM ())
   | None \<Rightarrow> insertCartItem env cartId variantId quantity)"

definition addItem :: "env \<Rightarrow> string \<Rightarrow> int \<Rightarrow> string option \<Rightarrow> string option \<Rightarrow> (db, cart_view) op" where
  "addItem env variantId quantity customerId sessionId =
     seqM (resolveCart env customerId sessionId) (\<lambda>(cart, items).
     (let existing = List.find (\<lambda>i. ci_variantId i = variantId) items;
          total = (case existing of None \<Rightarrow> quantity | Some i \<Rightarrow> ci_quantity i + quantity)
      in seqM (txnM (seqM (getM (\<lambda>s. liveVariant s variantId)) (\<lambda>found.
           case found of
             None \<Rightarrow> raiseM (NotFound ''VARIANT_NOT_FOUND'')
           | Some v \<Rightarrow>
               seqM (failIf (v_retiredAt v \<noteq> None) (NotFound ''VARIANT_NOT_FOUND'')) (\<lambda>_.
               seqM (getM (\<lambda>s. storeOfVariant s v)) (\<lambda>store.
               seqM (failIf (case store of None \<Rightarrow> False | Some st \<Rightarrow> st_status st = ST_SUSPENDED)
                       (BadRequest ''STORE_SUSPENDED'')) (\<lambda>_.
               seqM (failIf (v_stockQuantity v < total) (BadRequest ''INSUFFICIENT_STOCK'')) (\<lambda>_.
                 putLine env (ct_id cart) variantId quantity existing))))))) (\<lambda>_.
         getCart env customerId sessionId)))"

definition updateItem :: "env \<Rightarrow> string \<Rightarrow> int \<Rightarrow> string option \<Rightarrow> string option \<Rightarrow> (db, cart_view) op" where
  "updateItem env itemId quantity customerId sessionId =
     seqM (resolveCart env customerId sessionId) (\<lambda>(cart, items).
     seqM (getM (\<lambda>s. List.find (\<lambda>i. ci_id i = itemId \<and> ci_cartId i = ct_id cart) (dbCartItems s))) (\<lambda>found.
       case found of
         None \<Rightarrow> raiseM (NotFound ''CART_ITEM_NOT_FOUND'')
       | Some i \<Rightarrow>
           seqM (if quantity \<le> 0 then deleteCartItems (\<lambda>j. ci_id j = ci_id i)
                 else seqM (getM (\<lambda>s. cappedQuantity s (i\<lparr>ci_quantity := quantity\<rparr>))) (\<lambda>q.
                      seqM (saveCartItem env (i\<lparr>ci_quantity := q\<rparr>)) (\<lambda>_. retM ()))) (\<lambda>_.
             getCart env customerId sessionId)))"

definition removeItem :: "env \<Rightarrow> string \<Rightarrow> string option \<Rightarrow> string option \<Rightarrow> (db, cart_view) op" where
  "removeItem env itemId customerId sessionId =
     seqM (resolveCart env customerId sessionId) (\<lambda>(cart, items).
     seqM (deleteCartItems (\<lambda>i. ci_id i = itemId \<and> ci_cartId i = ct_id cart)) (\<lambda>_.
       getCart env customerId sessionId))"

definition removeItems :: "env \<Rightarrow> string list \<Rightarrow> string option \<Rightarrow> string option \<Rightarrow> (db, cart_view) op" where
  "removeItems env itemIds customerId sessionId =
     (if itemIds = [] then getCart env customerId sessionId
      else seqM (resolveCart env customerId sessionId) (\<lambda>(cart, items).
           seqM (deleteCartItems (\<lambda>i. ci_id i \<in> set itemIds \<and> ci_cartId i = ct_id cart)) (\<lambda>_.
             getCart env customerId sessionId)))"

text \<open>One turn of the merge: \<open>items\<close> are the loaded lines of the customer's cart, whose quantities
  the loop increases in place.\<close>

definition mergeOne :: "env \<Rightarrow> string \<Rightarrow> cart_item_row list \<Rightarrow> cart_item_row \<Rightarrow> (db, cart_item_row list) op" where
  "mergeOne env cartId items guest = (case List.find (\<lambda>i. ci_variantId i = ci_variantId guest) items of
     Some i \<Rightarrow> (let i' = i\<lparr>ci_quantity := ci_quantity i + ci_quantity guest\<rparr> in
       seqM (saveCartItem env i') (\<lambda>i''. retM (map (\<lambda>k. if ci_id k = ci_id i then i'' else k) items)))
   | None \<Rightarrow> seqM (insertCartItem env cartId (ci_variantId guest) (ci_quantity guest)) (\<lambda>_. retM items))"

fun mergeLoop :: "env \<Rightarrow> string \<Rightarrow> cart_item_row list \<Rightarrow> cart_item_row list \<Rightarrow> (db, unit) op" where
  "mergeLoop env cartId items [] = retM ()"
| "mergeLoop env cartId items (g # gs) = seqM (mergeOne env cartId items g) (\<lambda>items'. mergeLoop env cartId items' gs)"

definition mergeGuestCart :: "env \<Rightarrow> string \<Rightarrow> string \<Rightarrow> (db, cart_view) op" where
  "mergeGuestCart env customerId sessionId =
     seqM (getM (\<lambda>s. List.find (\<lambda>c. ct_sessionId c = Some sessionId) (dbCarts s))) (\<lambda>guestCart.
     seqM (getM (\<lambda>s. case guestCart of None \<Rightarrow> [] | Some g \<Rightarrow> cartItems s (ct_id g))) (\<lambda>guestItems.
       if guestItems = [] then getCart env (Some customerId) None
       else seqM (resolveCart env (Some customerId) None) (\<lambda>(cart, items).
            seqM (mergeLoop env (ct_id cart) items guestItems) (\<lambda>_.
            seqM (deleteCartItems (\<lambda>i. ci_cartId i = ct_id (the guestCart))) (\<lambda>_.
            seqM (modM (\<lambda>s. s\<lparr>dbCarts := filter (\<lambda>c. ct_id c \<noteq> ct_id (the guestCart)) (dbCarts s)\<rparr>)) (\<lambda>_.
              getCart env (Some customerId) None))))))"

section \<open>Invariant\<close>

text \<open>Keys are unique, a variant occurs once per cart, quantities are positive, and the ids still to
  be generated are unused.\<close>

definition usedIds :: "db \<Rightarrow> string set" where
  "usedIds s = ci_id ` set (dbCartItems s) \<union> ci_cartId ` set (dbCartItems s) \<union> ct_id ` set (dbCarts s)"

definition cartInv :: "env \<Rightarrow> db \<Rightarrow> bool" where
  "cartInv env s \<longleftrightarrow> uniqueKey ci_id (dbCartItems s) \<and> distinct (map cartKey (dbCartItems s)) \<and>
     (\<forall>i \<in> set (dbCartItems s). 1 \<le> ci_quantity i) \<and> inj (envUuid env) \<and>
     (\<forall>n \<ge> idCount s. envUuid env n \<notin> usedIds s)"

lemma cartInvD:
  assumes "cartInv env s"
  shows "uniqueKey ci_id (dbCartItems s)" "distinct (map cartKey (dbCartItems s))"
    "\<And>i. i \<in> set (dbCartItems s) \<Longrightarrow> 1 \<le> ci_quantity i" "inj (envUuid env)"
    "\<And>n. idCount s \<le> n \<Longrightarrow> envUuid env n \<notin> usedIds s"
  using assms unfolding cartInv_def by fast+

lemma cartInvI:
  assumes "uniqueKey ci_id (dbCartItems s)" "distinct (map cartKey (dbCartItems s))"
    "\<And>i. i \<in> set (dbCartItems s) \<Longrightarrow> 1 \<le> ci_quantity i" "inj (envUuid env)"
    "\<And>n. idCount s \<le> n \<Longrightarrow> envUuid env n \<notin> usedIds s"
  shows "cartInv env s"
  using assms unfolding cartInv_def by fast

text \<open>Lines may be dropped and changed in place as long as keys stay and quantities stay positive.\<close>

lemma cartInv_map_filter:
  assumes "cartInv env s" and "dbCartItems t = map f (filter P (dbCartItems s))" and "idCount s \<le> idCount t"
    and "\<And>i. ci_id (f i) = ci_id i" "\<And>i. ci_cartId (f i) = ci_cartId i" "\<And>i. ci_variantId (f i) = ci_variantId i"
    and "\<And>i. i \<in> set (dbCartItems s) \<Longrightarrow> P i \<Longrightarrow> 1 \<le> ci_quantity (f i)" and "set (dbCarts t) \<subseteq> set (dbCarts s)"
  shows "cartInv env t"
proof (rule cartInvI)
  note inv = cartInvD [OF assms(1)]
  show "uniqueKey ci_id (dbCartItems t)"
    using inv(1) by (simp add: assms uniqueKey_def comp_def distinct_map_filter)
  show "distinct (map cartKey (dbCartItems t))"
  proof -
    have "map cartKey (dbCartItems t) = map cartKey (filter P (dbCartItems s))" by (simp add: assms cartKey_def comp_def)
    then show ?thesis using distinct_map_filter [OF inv(2), of P] by simp
  qed
  show "inj (envUuid env)" by (rule inv(4))
  show "1 \<le> ci_quantity i" if "i \<in> set (dbCartItems t)" for i using that by (auto simp: assms)
  have "usedIds t \<subseteq> usedIds s" using assms(8) by (auto simp: usedIds_def assms(2,4,5))
  then show "envUuid env n \<notin> usedIds t" if "idCount t \<le> n" for n
    using inv(5) [of n] that assms(3) by auto
qed

lemma cartInv_insert:
  assumes "cartInv env s" and "cartKey r \<notin> cartKey ` set (dbCartItems s)" and "1 \<le> ci_quantity r"
    and "ci_id r = envUuid env (idCount s)" and "idCount t = Suc (idCount s)"
    and "dbCartItems t = dbCartItems s @ [r]" and "ci_cartId r \<in> usedIds s" and "dbCarts t = dbCarts s"
  shows "cartInv env t"
proof (rule cartInvI)
  note inv = cartInvD [OF assms(1)]
  have new: "ci_id r \<noteq> ci_id i" if "i \<in> set (dbCartItems s)" for i
    using inv(5) [of "idCount s"] assms(4) that by (auto simp: usedIds_def)
  show "uniqueKey ci_id (dbCartItems t)" using inv(1) new unfolding assms(6) uniqueKey_def by auto
  show "distinct (map cartKey (dbCartItems t))" using inv(2) assms(2) by (auto simp: assms(6))
  show "1 \<le> ci_quantity i" if "i \<in> set (dbCartItems t)" for i using that inv(3) assms(3) by (auto simp: assms(6))
  show "inj (envUuid env)" by (rule inv(4))
  have used: "usedIds t = insert (ci_id r) (usedIds s)" using assms(7) by (auto simp: usedIds_def assms(6,8))
  show "envUuid env k \<notin> usedIds t" if "idCount t \<le> k" for k
    using inv(5) [of k] inj_eq [OF inv(4), of k "idCount s"] that assms(5) by (auto simp: used assms(4))
qed

lemma cartInv_newCart:
  assumes "cartInv env s"
  shows "cartInv env (s\<lparr>idCount := Suc (idCount s), dbCarts := dbCarts s @ [newCart env (envUuid env (idCount s)) cid sid]\<rparr>)"
    (is "cartInv env ?t")
proof (rule cartInvI)
  note inv = cartInvD [OF assms]
  have used: "usedIds ?t = insert (envUuid env (idCount s)) (usedIds s)" by (auto simp: usedIds_def newCart_def)
  show "envUuid env k \<notin> usedIds ?t" if "idCount ?t \<le> k" for k
    using inv(5) [of k] inj_eq [OF inv(4), of k "idCount s"] that by (auto simp: used)
qed (use cartInvD [OF assms] in simp_all)

section \<open>Loading\<close>

definition withCart :: "env \<Rightarrow> string option \<Rightarrow> string option \<Rightarrow> db \<Rightarrow> db" where
  "withCart env cid sid s = (case findCart s cid sid of Some _ \<Rightarrow> s
     | None \<Rightarrow> s\<lparr>idCount := Suc (idCount s), dbCarts := dbCarts s @ [newCart env (envUuid env (idCount s)) cid sid]\<rparr>)"

lemma withCart_inv: "cartInv env s \<Longrightarrow> cartInv env (withCart env cid sid s)"
  by (auto simp: withCart_def intro: cartInv_newCart split: option.split)

lemma withCart_simps [simp]:
  "dbCartItems (withCart env cid sid s) = dbCartItems s" "dbVariants (withCart env cid sid s) = dbVariants s"
  "dbProducts (withCart env cid sid s) = dbProducts s" "dbStores (withCart env cid sid s) = dbStores s"
  by (simp_all add: withCart_def split: option.split)

lemma find_append: "List.find P (xs @ ys) = (case List.find P xs of None \<Rightarrow> List.find P ys | Some x \<Rightarrow> Some x)"
  by (induction xs) auto

lemma withCart_created:
  assumes "findCart s cid sid = None"
  shows "findCart (withCart env cid sid s) cid sid = Some (newCart env (envUuid env (idCount s)) cid sid)"
proof -
  let ?P = "\<lambda>c. if truthy cid then ct_customerId c = cid else ct_sessionId c = sid"
  have "List.find ?P (dbCarts s) = None" using assms by (simp add: findCart_def)
  moreover have "?P (newCart env (envUuid env (idCount s)) cid sid)" by (simp add: newCart_def)
  ultimately show ?thesis using assms by (simp add: withCart_def) (simp add: findCart_def find_append)
qed

lemma withCart_found: "\<exists>c. findCart (withCart env cid sid s) cid sid = Some c"
  using withCart_created by (cases "findCart s cid sid") (auto simp: withCart_def)

lemma withCart_idle: "findCart s cid sid = Some c \<Longrightarrow> withCart env cid sid s = s"
  by (simp add: withCart_def)

lemma findCart_used: "findCart s cid sid = Some c \<Longrightarrow> ct_id c \<in> usedIds s"
  by (auto simp: findCart_def usedIds_def dest: find_Some_in)

lemma resolveCart_eq:
  assumes "cartInv env s" and "truthy cid \<or> truthy sid" and c: "findCart (withCart env cid sid s) cid sid = Some c"
  shows "resolveCart env cid sid s = (Inr (c, cartItems s (ct_id c)), withCart env cid sid s)"
proof (cases "findCart s cid sid")
  case None
  have new: "newCart env (envUuid env (idCount s)) cid sid = c" using c withCart_created [OF None, of env] by simp
  have "cartItems s (envUuid env (idCount s)) = []"
    using cartInvD(5) [OF assms(1), of "idCount s"] by (auto simp: cartItems_def usedIds_def filter_empty_conv image_iff)
  moreover have "ct_id c = envUuid env (idCount s)" by (simp add: newCart_def flip: new)
  ultimately have none: "cartItems s (ct_id c) = []" by simp
  have "resolveCart env cid sid s = (Inr (c, []), s\<lparr>idCount := Suc (idCount s), dbCarts := dbCarts s @ [c]\<rparr>)"
    using assms(2) by (elim disjE) (simp_all add: resolveCart_def None new)
  then show ?thesis by (simp add: none withCart_def None new)
next
  case (Some d)
  with c have "d = c" by (simp add: withCart_idle)
  then show ?thesis using assms(2) by (elim disjE) (simp_all add: resolveCart_def withCart_def Some)
qed

lemma resolveCart_anonymous: "\<not> truthy cid \<Longrightarrow> \<not> truthy sid \<Longrightarrow>
   resolveCart env cid sid s = (Inl (BadRequest ''CART_IDENTITY_REQUIRED''), s)"
  by (simp add: resolveCart_def)

lemma resolveCart_wp:
  assumes "cartInv env s" and "\<not> truthy cid \<Longrightarrow> \<not> truthy sid \<Longrightarrow> E (BadRequest ''CART_IDENTITY_REQUIRED'') s"
    and "\<And>c t. t = withCart env cid sid s \<Longrightarrow> cartInv env t \<Longrightarrow> findCart t cid sid = Some c \<Longrightarrow> Q (c, cartItems t (ct_id c)) t"
  shows "wp (resolveCart env cid sid) Q E s"
proof (cases "truthy cid \<or> truthy sid")
  case True
  obtain c where c: "findCart (withCart env cid sid s) cid sid = Some c" using withCart_found by blast
  show ?thesis
    using assms(3) [OF refl withCart_inv [OF assms(1)] c] resolveCart_eq [OF assms(1) True c]
    by (simp add: wp_def cartItems_def)
next
  case False
  then show ?thesis using assms(2) resolveCart_anonymous [of cid sid env s] by (simp add: wp_def)
qed

section \<open>Reading a cart\<close>

definition unavailable :: "db \<Rightarrow> cart_item_row \<Rightarrow> bool" where
  "unavailable s i \<longleftrightarrow> isSuspendedStoreItem s i \<or> isRetiredVariantItem s i"

definition cappedLine :: "env \<Rightarrow> db \<Rightarrow> cart_item_row \<Rightarrow> cart_item_row" where
  "cappedLine env s i = (if cappedQuantity s i = ci_quantity i then i
     else i\<lparr>ci_quantity := cappedQuantity s i, ci_updatedAt := envNow env\<rparr>)"

lemma cappedLine_simps [simp]:
  "ci_id (cappedLine env s i) = ci_id i" "ci_cartId (cappedLine env s i) = ci_cartId i"
  "ci_variantId (cappedLine env s i) = ci_variantId i" "ci_quantity (cappedLine env s i) = cappedQuantity s i"
  by (simp_all add: cappedLine_def)

text \<open>Joins read the variants, products and stores only.\<close>

lemma cart_joins [simp]:
  "variantOfItem (s\<lparr>dbCartItems := xs\<rparr>) = variantOfItem s"
  "variantOfItem (s\<lparr>dbCarts := cs\<rparr>) = variantOfItem s"
  "variantOfItem (s\<lparr>idCount := n\<rparr>) = variantOfItem s"
  "storeOfVariant (s\<lparr>dbCartItems := xs\<rparr>) = storeOfVariant s"
  "storeOfVariant (s\<lparr>dbCarts := cs\<rparr>) = storeOfVariant s"
  "storeOfVariant (s\<lparr>idCount := n\<rparr>) = storeOfVariant s"
  by (simp_all add: fun_eq_iff variantOfItem_def storeOfVariant_def liveVariant_def liveProduct_def liveStore_def
      cong: option.case_cong)

lemma cart_joins2 [simp]:
  "cappedQuantity (s\<lparr>dbCartItems := xs\<rparr>) = cappedQuantity s"
  "cappedLine env (s\<lparr>dbCartItems := xs\<rparr>) = cappedLine env s"
  "unavailable (s\<lparr>dbCartItems := xs\<rparr>) = unavailable s"
  by (simp_all add: fun_eq_iff cappedQuantity_def cappedLine_def unavailable_def isSuspendedStoreItem_def isRetiredVariantItem_def
      cong: option.case_cong)

text \<open>Saving a loaded line with another quantity rewrites that row in place.\<close>

definition requantified :: "env \<Rightarrow> int \<Rightarrow> cart_item_row \<Rightarrow> cart_item_row" where
  "requantified env q i = (if q = ci_quantity i then i else i\<lparr>ci_quantity := q, ci_updatedAt := envNow env\<rparr>)"

lemma requantified_simps [simp]:
  "ci_id (requantified env q i) = ci_id i" "ci_cartId (requantified env q i) = ci_cartId i"
  "ci_variantId (requantified env q i) = ci_variantId i" "ci_quantity (requantified env q i) = q"
  by (simp_all add: requantified_def)

lemma saveCartItem_eq:
  assumes "uniqueKey ci_id (dbCartItems s)" and "i \<in> set (dbCartItems s)"
  shows "saveCartItem env (i\<lparr>ci_quantity := q\<rparr>) s = (Inr (requantified env q i),
    s\<lparr>dbCartItems := map (\<lambda>x. if x = i then requantified env q x else x) (dbCartItems s)\<rparr>)"
proof -
  have here: "byKey ci_id (ci_id i) (dbCartItems s) = Some i" by (rule byKey_in [OF assms])
  have same: "i = i\<lparr>ci_quantity := q\<rparr> \<longleftrightarrow> q = ci_quantity i" by (cases i) auto
  have st: "stampCartItem env s (i\<lparr>ci_quantity := q\<rparr>) = requantified env q i"
  proof (cases "q = ci_quantity i")
    case True
    then show ?thesis by (simp add: stampCartItem_def here requantified_def)
  next
    case False
    then show ?thesis by (simp add: stampCartItem_def here requantified_def same)
  qed
  have "saveRow ci_id (requantified env q i) (dbCartItems s) =
      map (\<lambda>x. if ci_id x = ci_id i then requantified env q i else x) (dbCartItems s)"
    using saveRow_present [of ci_id "requantified env q i" "dbCartItems s" i] here assms(1) by simp
  also have "\<dots> = map (\<lambda>x. if x = i then requantified env q x else x) (dbCartItems s)"
    using assms by (auto simp: uniqueKey_def distinct_map inj_on_def)
  finally show ?thesis by (simp add: saveCartItem_def st)
qed

lemma cappedLine_requantified: "cappedLine env s i = requantified env (cappedQuantity s i) i"
  by (simp add: cappedLine_def requantified_def)

lemma capOne_eq:
  assumes "uniqueKey ci_id (dbCartItems s)" and "i \<in> set (dbCartItems s)"
  shows "\<exists>ws. capOne env i s = (Inr (cappedLine env s i, ws),
      s\<lparr>dbCartItems := map (\<lambda>x. if x = i then cappedLine env s x else x) (dbCartItems s)\<rparr>) \<and>
      (ws = [] \<longleftrightarrow> cappedQuantity s i = ci_quantity i)"
proof (cases "cappedQuantity s i = ci_quantity i")
  case True
  then have "map (\<lambda>x. if x = i then cappedLine env s x else x) (dbCartItems s) = dbCartItems s"
    by (auto simp: cappedLine_def intro: map_idI)
  with True show ?thesis by (simp add: capOne_def cappedLine_def)
next
  case False
  have "map (\<lambda>x. if x = i then requantified env (cappedQuantity s i) x else x) (dbCartItems s) =
      map (\<lambda>x. if x = i then cappedLine env s x else x) (dbCartItems s)"
    by (rule map_cong) (auto simp: cappedLine_requantified)
  note eq = this
  show ?thesis using False by (simp add: capOne_def saveCartItem_eq [OF assms] eq) (simp add: cappedLine_requantified)
qed

lemma capLoop_eq:
  assumes "uniqueKey ci_id (dbCartItems s)" and "distinct items" and "set items \<subseteq> set (dbCartItems s)"
  shows "\<exists>rs. forM (capOne env) items s = (Inr rs,
      s\<lparr>dbCartItems := map (\<lambda>x. if x \<in> set items then cappedLine env s x else x) (dbCartItems s)\<rparr>) \<and>
      map fst rs = map (cappedLine env s) items \<and>
      (concat (map snd rs) = [] \<longleftrightarrow> (\<forall>i \<in> set items. cappedQuantity s i = ci_quantity i))"
  using assms
proof (induction items arbitrary: s)
  case Nil
  then show ?case by simp
next
  case (Cons i items)
  obtain ws where 1: "capOne env i s = (Inr (cappedLine env s i, ws),
      s\<lparr>dbCartItems := map (\<lambda>x. if x = i then cappedLine env s x else x) (dbCartItems s)\<rparr>)"
    "ws = [] \<longleftrightarrow> cappedQuantity s i = ci_quantity i"
    using capOne_eq [OF Cons.prems(1), of i env] Cons.prems(3) by auto
  let ?s = "s\<lparr>dbCartItems := map (\<lambda>x. if x = i then cappedLine env s x else x) (dbCartItems s)\<rparr>"
  have keys: "map ci_id (dbCartItems ?s) = map ci_id (dbCartItems s)" by simp
  have u: "uniqueKey ci_id (dbCartItems ?s)" using Cons.prems(1) unfolding uniqueKey_def keys .
  have sub: "set items \<subseteq> set (dbCartItems ?s)"
  proof
    fix x
    assume x: "x \<in> set items"
    then have "x \<noteq> i" "x \<in> set (dbCartItems s)" using Cons.prems(2,3) by auto
    then show "x \<in> set (dbCartItems ?s)" by (auto simp: image_iff)
  qed
  obtain rs where 2: "forM (capOne env) items ?s = (Inr rs,
      ?s\<lparr>dbCartItems := map (\<lambda>x. if x \<in> set items then cappedLine env ?s x else x) (dbCartItems ?s)\<rparr>)"
      "map fst rs = map (cappedLine env ?s) items"
      "concat (map snd rs) = [] \<longleftrightarrow> (\<forall>i \<in> set items. cappedQuantity ?s i = ci_quantity i)"
    using Cons.IH [OF u _ sub] Cons.prems(2) by auto
  have stay: "cappedLine env s i \<notin> set items \<or> cappedLine env s i = i"
  proof (rule disjCI)
    assume ne: "cappedLine env s i \<noteq> i"
    show "cappedLine env s i \<notin> set items"
    proof
      assume "cappedLine env s i \<in> set items"
      then have "cappedLine env s i \<in> set (dbCartItems s)" "i \<in> set (dbCartItems s)" using Cons.prems(3) by auto
      with Cons.prems(1) ne show False by (metis byKey_in cappedLine_simps(1) option.inject)
    qed
  qed
  have idem: "cappedLine env s i = i \<Longrightarrow> i \<notin> set items" using Cons.prems(2) by simp
  have "map (\<lambda>x. if x \<in> set items then cappedLine env ?s x else x) (dbCartItems ?s) =
      map (\<lambda>x. if x \<in> set (i # items) then cappedLine env s x else x) (dbCartItems s)"
    using stay idem by auto
  with 1 2 show ?case by (auto simp: comp_def)
qed

text \<open>What \<open>getCart\<close> makes of the stored lines of a cart.\<close>

definition keptLines :: "db \<Rightarrow> string \<Rightarrow> cart_item_row list" where
  "keptLines s c = filter (\<lambda>i. \<not> unavailable s i) (cartItems s c)"

definition readCart :: "env \<Rightarrow> string \<Rightarrow> db \<Rightarrow> db" where
  "readCart env c s = s\<lparr>dbCartItems := map (\<lambda>i. if ci_cartId i = c then cappedLine env s i else i)
     (filter (\<lambda>i. \<not> (ci_cartId i = c \<and> unavailable s i)) (dbCartItems s))\<rparr>"

lemma purge_eq:
  assumes "uniqueKey ci_id (dbCartItems s)"
  shows "\<exists>ws. purgeUnavailableItems cart (cartItems s (ct_id cart)) s =
    (Inr \<lparr>cv_cart = cart, cv_items = keptLines s (ct_id cart), cv_warnings = ws\<rparr>,
     s\<lparr>dbCartItems := filter (\<lambda>i. \<not> (ci_cartId i = ct_id cart \<and> unavailable s i)) (dbCartItems s)\<rparr>) \<and>
    (ws = [] \<longleftrightarrow> (\<forall>i \<in> set (cartItems s (ct_id cart)). \<not> unavailable s i))"
proof -
  let ?items = "cartItems s (ct_id cart)"
  let ?gone = "filter (isSuspendedStoreItem s) ?items @
    filter (\<lambda>i. \<not> isSuspendedStoreItem s i \<and> isRetiredVariantItem s i) ?items"
  have gone: "set ?gone = {i \<in> set (dbCartItems s). ci_cartId i = ct_id cart \<and> unavailable s i}"
    by (auto simp: cartItems_def unavailable_def)
  have kept: "filter (\<lambda>i. \<not> isSuspendedStoreItem s i \<and> \<not> isRetiredVariantItem s i) ?items = keptLines s (ct_id cart)"
    by (simp add: keptLines_def unavailable_def)
  have del: "filter (\<lambda>i. ci_id i \<notin> ci_id ` set ?gone) (dbCartItems s) =
      filter (\<lambda>i. \<not> (ci_cartId i = ct_id cart \<and> unavailable s i)) (dbCartItems s)"
    using assms unfolding gone by (intro filter_cong) (auto simp: uniqueKey_def distinct_map inj_on_def)
  have none: "?gone = [] \<longleftrightarrow> (\<forall>i \<in> set ?items. \<not> unavailable s i)"
    by (auto simp: filter_empty_conv unavailable_def)
  show ?thesis
  proof (cases "?gone = []")
    case True
    then have "filter (\<lambda>i. \<not> (ci_cartId i = ct_id cart \<and> unavailable s i)) (dbCartItems s) = dbCartItems s"
      using gone by (intro filter_True) auto
    with True none show ?thesis by (simp add: purgeUnavailableItems_def kept)
  next
    case False
    have "deleteCartItems (\<lambda>i. ci_id i \<in> ci_id ` set ?gone) s =
        (Inr (), s\<lparr>dbCartItems := filter (\<lambda>i. \<not> (ci_cartId i = ct_id cart \<and> unavailable s i)) (dbCartItems s)\<rparr>)"
      by (simp only: deleteCartItems_def op_apply del)
    note step = seqM_simps(2) [where m = "deleteCartItems (\<lambda>i. ci_id i \<in> ci_id ` set ?gone)", OF this]
    show ?thesis
      unfolding purgeUnavailableItems_def seqM_get kept prod.case if_not_P [OF False] step none [symmetric]
      by (rule exI, intro conjI, simp) (use False in auto)
  qed
qed

lemma readCart_eq:
  assumes "uniqueKey ci_id (dbCartItems s)"
  shows "\<exists>ws. seqM (purgeUnavailableItems cart (cartItems s (ct_id cart))) (capQuantitiesToStock env) s =
    (Inr \<lparr>cv_cart = cart, cv_items = map (cappedLine env s) (keptLines s (ct_id cart)), cv_warnings = ws\<rparr>,
     readCart env (ct_id cart) s) \<and>
    (ws = [] \<longleftrightarrow> (\<forall>i \<in> set (cartItems s (ct_id cart)). \<not> unavailable s i \<and> cappedQuantity s i = ci_quantity i))"
proof -
  let ?c = "ct_id cart"
  let ?m = "s\<lparr>dbCartItems := filter (\<lambda>i. \<not> (ci_cartId i = ?c \<and> unavailable s i)) (dbCartItems s)\<rparr>"
  obtain ws where p: "purgeUnavailableItems cart (cartItems s ?c) s =
      (Inr \<lparr>cv_cart = cart, cv_items = keptLines s ?c, cv_warnings = ws\<rparr>, ?m)"
    "ws = [] \<longleftrightarrow> (\<forall>i \<in> set (cartItems s ?c). \<not> unavailable s i)"
    using purge_eq [OF assms] by blast
  have u: "uniqueKey ci_id (dbCartItems ?m)" using assms by (simp add: uniqueKey_def distinct_map_filter)
  have d: "distinct (keptLines s ?c)"
    using assms by (simp add: keptLines_def cartItems_def uniqueKey_def distinct_map distinct_filter)
  have k: "set (keptLines s ?c) = {i \<in> set (dbCartItems ?m). ci_cartId i = ?c}"
    by (auto simp: keptLines_def cartItems_def)
  have "\<exists>rs. forM (capOne env) (keptLines s ?c) ?m = (Inr rs,
      ?m\<lparr>dbCartItems := map (\<lambda>x. if x \<in> set (keptLines s ?c) then cappedLine env ?m x else x) (dbCartItems ?m)\<rparr>) \<and>
      map fst rs = map (cappedLine env ?m) (keptLines s ?c) \<and>
      (concat (map snd rs) = [] \<longleftrightarrow> (\<forall>i \<in> set (keptLines s ?c). cappedQuantity ?m i = ci_quantity i))"
    by (rule capLoop_eq [OF u d]) (auto simp: k)
  then obtain rs where f: "forM (capOne env) (keptLines s ?c) ?m = (Inr rs,
      ?m\<lparr>dbCartItems := map (\<lambda>x. if x \<in> set (keptLines s ?c) then cappedLine env s x else x) (dbCartItems ?m)\<rparr>)"
      "map fst rs = map (cappedLine env s) (keptLines s ?c)"
      "concat (map snd rs) = [] \<longleftrightarrow> (\<forall>i \<in> set (keptLines s ?c). cappedQuantity s i = ci_quantity i)"
    unfolding cart_joins2 by blast
  have m: "map (\<lambda>x. if x \<in> set (keptLines s ?c) then cappedLine env s x else x) (dbCartItems ?m) =
      map (\<lambda>i. if ci_cartId i = ?c then cappedLine env s i else i) (dbCartItems ?m)"
    by (rule map_cong) (auto simp: k)
  have cap: "capQuantitiesToStock env \<lparr>cv_cart = cart, cv_items = keptLines s ?c, cv_warnings = ws\<rparr> ?m =
      (Inr \<lparr>cv_cart = cart, cv_items = map (cappedLine env s) (keptLines s ?c), cv_warnings = ws @ concat (map snd rs)\<rparr>,
       readCart env ?c s)"
    unfolding capQuantitiesToStock_def cart_view.select_convs seqM_simps(2) [where m = "forM (capOne env) (keptLines s ?c)", OF f(1)]
      f(2) m
    by (simp add: readCart_def)
  have "ws @ concat (map snd rs) = [] \<longleftrightarrow>
      (\<forall>i \<in> set (cartItems s ?c). \<not> unavailable s i \<and> cappedQuantity s i = ci_quantity i)"
    unfolding append_is_Nil_conv p(2) f(3) by (auto simp: keptLines_def)
  with cap show ?thesis
    unfolding seqM_simps(2) [where m = "purgeUnavailableItems cart (cartItems s ?c)", OF p(1)] by blast
qed

lemma getCart_eq:
  assumes "cartInv env s" and "truthy cid \<or> truthy sid" and "findCart (withCart env cid sid s) cid sid = Some c"
  shows "\<exists>ws. getCart env cid sid s =
    (Inr \<lparr>cv_cart = c, cv_items = map (cappedLine env (withCart env cid sid s)) (keptLines (withCart env cid sid s) (ct_id c)), cv_warnings = ws\<rparr>,
     readCart env (ct_id c) (withCart env cid sid s)) \<and>
    (ws = [] \<longleftrightarrow> (\<forall>i \<in> set (cartItems s (ct_id c)). \<not> unavailable (withCart env cid sid s) i \<and>
        cappedQuantity (withCart env cid sid s) i = ci_quantity i))"
proof -
  let ?s = "withCart env cid sid s"
  have "uniqueKey ci_id (dbCartItems ?s)" using cartInvD(1) [OF assms(1)] by simp
  from readCart_eq [OF this, of c env] show ?thesis
    unfolding getCart_def seqM_simps(2) [where m = "resolveCart env cid sid", OF resolveCart_eq [OF assms]] by (simp add: cartItems_def)
qed

lemma readCart_inv:
  assumes "cartInv env s"
  shows "cartInv env (readCart env c s)"
proof (rule cartInv_map_filter [OF assms])
  show "dbCartItems (readCart env c s) = map (\<lambda>i. if ci_cartId i = c then cappedLine env s i else i)
      (filter (\<lambda>i. \<not> (ci_cartId i = c \<and> unavailable s i)) (dbCartItems s))" by (simp add: readCart_def)
  show "1 \<le> ci_quantity (if ci_cartId i = c then cappedLine env s i else i)" if "i \<in> set (dbCartItems s)" for i
    using cartInvD(3) [OF assms that] by (auto simp: cappedQuantity_def split: option.split)
qed (simp_all add: readCart_def)

lemma getCart_inv [pres]: "preserves (cartInv env) (getCart env cid sid)"
proof (rule preservesI)
  fix s
  assume s: "cartInv env s"
  show "cartInv env (snd (getCart env cid sid s))"
  proof (cases "truthy cid \<or> truthy sid")
    case True
    obtain c where c: "findCart (withCart env cid sid s) cid sid = Some c" using withCart_found by blast
    from getCart_eq [OF s True c] obtain x where "getCart env cid sid s = (x, readCart env (ct_id c) (withCart env cid sid s))" by blast
    then show ?thesis using readCart_inv [OF withCart_inv [OF s]] by simp
  next
    case False
    then show ?thesis using s resolveCart_anonymous [of cid sid env s] by (simp add: getCart_def)
  qed
qed

section \<open>Every operation keeps the invariant\<close>

lemma saveCartItem_inv:
  assumes "cartInv env s" and "i \<in> set (dbCartItems s)" and "1 \<le> q"
  shows "cartInv env (snd (saveCartItem env (i\<lparr>ci_quantity := q\<rparr>) s))"
proof -
  have u: "uniqueKey ci_id (dbCartItems s)" by (rule cartInvD(1) [OF assms(1)])
  show ?thesis unfolding saveCartItem_eq [OF u assms(2)] snd_conv
    by (rule cartInv_map_filter [OF assms(1), where f = "\<lambda>x. if x = i then requantified env q x else x" and P = "\<lambda>_. True"])
      (use assms(3) cartInvD(3) [OF assms(1)] in auto)
qed

lemma saveCartItem_wp:
  assumes "cartInv env s" and "i \<in> set (dbCartItems s)" and "1 \<le> q"
    and "\<And>t. cartInv env t \<Longrightarrow> dbCartItems t = map (\<lambda>x. if x = i then requantified env q x else x) (dbCartItems s) \<Longrightarrow>
           t = s\<lparr>dbCartItems := dbCartItems t\<rparr> \<Longrightarrow> Q (requantified env q i) t"
  shows "wp (saveCartItem env (i\<lparr>ci_quantity := q\<rparr>)) Q E s"
  using assms(4) [of "snd (saveCartItem env (i\<lparr>ci_quantity := q\<rparr>) s)"] saveCartItem_inv [OF assms(1-3)]
  by (simp add: saveCartItem_eq [OF cartInvD(1) [OF assms(1)] assms(2)] wp_def)

lemma insertCartItem_wp:
  assumes "cartInv env s" and "(c, v) \<notin> cartKey ` set (dbCartItems s)" and "1 \<le> q" and "c \<in> usedIds s"
    and "\<And>t r. cartInv env t \<Longrightarrow> dbCartItems t = dbCartItems s @ [r] \<Longrightarrow> ci_cartId r = c \<Longrightarrow> ci_variantId r = v \<Longrightarrow>
           ci_quantity r = q \<Longrightarrow> t = s\<lparr>idCount := idCount t, dbCartItems := dbCartItems t\<rparr> \<Longrightarrow> Q () t"
  shows "wp (insertCartItem env c v q) Q E s"
proof -
  define r where "r = \<lparr>ci_id = envUuid env (idCount s), ci_cartId = c, ci_variantId = v, ci_quantity = q,
    ci_createdAt = envNow env, ci_updatedAt = envNow env\<rparr>"
  define t where "t = s\<lparr>idCount := Suc (idCount s), dbCartItems := dbCartItems s @ [r]\<rparr>"
  have r: "ci_id r = envUuid env (idCount s)" "ci_cartId r = c" "ci_variantId r = v" "ci_quantity r = q" by (simp_all add: r_def)
  have "cartInv env t"
    by (rule cartInv_insert [OF assms(1), of r]) (use assms(2-4) in \<open>simp_all add: r t_def cartKey_def\<close>)
  then have "Q () t" by (rule assms(5) [where r = r]) (simp_all add: r t_def)
  then show ?thesis using assms(2) by (simp add: insertCartItem_def wp_def t_def r_def)
qed

lemma deleteCartItems_inv: "cartInv env s \<Longrightarrow> cartInv env (s\<lparr>dbCartItems := filter (\<lambda>i. \<not> P i) (dbCartItems s)\<rparr>)"
  by (rule cartInv_map_filter [where f = "\<lambda>x. x" and P = "\<lambda>i. \<not> P i"]) (auto dest: cartInvD(3))

lemma deleteCartItems_wp:
  "cartInv env s \<Longrightarrow> (\<And>t. cartInv env t \<Longrightarrow> t = s\<lparr>dbCartItems := filter (\<lambda>i. \<not> P i) (dbCartItems s)\<rparr> \<Longrightarrow> Q () t) \<Longrightarrow>
   wp (deleteCartItems P) Q E s"
  using deleteCartItems_inv [of env s P] by (simp add: deleteCartItems_def wp)

lemma getCart_wp: "cartInv env s \<Longrightarrow> wp (getCart env cid sid) (\<lambda>_. cartInv env) (\<lambda>_. cartInv env) s"
  using getCart_inv [of env cid sid] by (simp add: preserves_wp)

section \<open>A cart as a map from variants to quantities\<close>

definition lineFor :: "cart_item_row list \<Rightarrow> string \<Rightarrow> cart_item_row option" where
  "lineFor xs w = List.find (\<lambda>i. ci_variantId i = w) xs"

definition cartMap :: "db \<Rightarrow> string \<Rightarrow> string \<rightharpoonup> int" where
  "cartMap s c = (\<lambda>w. map_option ci_quantity (lineFor (cartItems s c) w))"

definition viewMap :: "cart_view \<Rightarrow> string \<rightharpoonup> int" where
  "viewMap view = (\<lambda>w. map_option ci_quantity (lineFor (cv_items view) w))"

text \<open>What a shopper is shown of a cart: no variant that is retired or whose store is suspended, and
  no more than the stock of a variant that is in stock.\<close>

definition capTo :: "db \<Rightarrow> string \<Rightarrow> int \<Rightarrow> int" where
  "capTo s w q = (case liveVariant s w of None \<Rightarrow> q
     | Some v \<Rightarrow> if v_stockQuantity v \<le> 0 \<or> q \<le> v_stockQuantity v then q else v_stockQuantity v)"

definition offSale :: "db \<Rightarrow> string \<Rightarrow> bool" where
  "offSale s w = (case liveVariant s w of None \<Rightarrow> False | Some v \<Rightarrow> v_retiredAt v \<noteq> None \<or>
     (case storeOfVariant s v of None \<Rightarrow> False | Some st \<Rightarrow> st_status st = ST_SUSPENDED))"

definition shown :: "db \<Rightarrow> (string \<rightharpoonup> int) \<Rightarrow> string \<rightharpoonup> int" where
  "shown s m = (\<lambda>w. if offSale s w then None else map_option (capTo s w) (m w))"

lemma unavailable_offSale: "unavailable s i = offSale s (ci_variantId i)"
  by (auto simp: unavailable_def offSale_def isSuspendedStoreItem_def isRetiredVariantItem_def variantOfItem_def split: option.split)

lemma cappedQuantity_capTo: "cappedQuantity s i = capTo s (ci_variantId i) (ci_quantity i)"
  by (auto simp: cappedQuantity_def capTo_def variantOfItem_def split: option.split)

lemma shown_cong:
  assumes "dbVariants t = dbVariants s" "dbProducts t = dbProducts s" "dbStores t = dbStores s"
  shows "shown t = shown s"
proof -
  have eqs: "liveVariant t = liveVariant s" "storeOfVariant t = storeOfVariant s"
    by (simp_all add: fun_eq_iff liveVariant_def storeOfVariant_def liveProduct_def liveStore_def assms cong: option.case_cong)
  have "offSale t = offSale s" "capTo t = capTo s"
    by (simp_all add: fun_eq_iff offSale_def capTo_def eqs cong: option.case_cong)
  note same = this
  show ?thesis by (simp add: fun_eq_iff shown_def same)
qed

text \<open>Showing a shown cart again changes nothing.\<close>

lemma capTo_idem: "capTo s w (capTo s w q) = capTo s w q"
  by (simp add: capTo_def split: option.split)

lemma shown_idem: "shown s (shown s m) = shown s m"
  by (simp add: shown_def fun_eq_iff option.map_comp comp_def capTo_idem)

lemma lineFor_shown:
  "map_option ci_quantity (lineFor (map (cappedLine env s) (filter (\<lambda>i. \<not> unavailable s i) xs)) w) =
     shown s (\<lambda>w. map_option ci_quantity (lineFor xs w)) w"
  by (induction xs) (auto simp: lineFor_def shown_def unavailable_offSale cappedQuantity_capTo)

lemma cartItems_readCart:
  "cartItems (readCart env c s) c = map (cappedLine env s) (keptLines s c)"
proof -
  have "filter (\<lambda>i. ci_cartId i = c) (map (\<lambda>i. if ci_cartId i = c then cappedLine env s i else i)
      (filter (\<lambda>i. \<not> (ci_cartId i = c \<and> unavailable s i)) xs)) =
      map (cappedLine env s) (filter (\<lambda>i. \<not> unavailable s i) (filter (\<lambda>i. ci_cartId i = c) xs))" for xs
    by (induction xs) auto
  then show ?thesis by (simp add: cartItems_def keptLines_def readCart_def)
qed

text \<open>With one line per variant the map is read off the table.\<close>

lemma find_unique: "List.find P xs = Some x \<longleftrightarrow> x \<in> set xs \<and> P x"
  if "\<And>x y. x \<in> set xs \<Longrightarrow> y \<in> set xs \<Longrightarrow> P x \<Longrightarrow> P y \<Longrightarrow> x = y"
  using that
proof (induction xs)
  case Nil
  then show ?case by simp
next
  case (Cons y ys)
  then show ?case by (cases "P y") auto
qed

lemma cartMap_Some:
  assumes "cartInv env s"
  shows "cartMap s c w = Some q \<longleftrightarrow>
    (\<exists>i \<in> set (dbCartItems s). ci_cartId i = c \<and> ci_variantId i = w \<and> ci_quantity i = q)"
proof -
  have "lineFor (cartItems s c) w = Some i \<longleftrightarrow> i \<in> set (cartItems s c) \<and> ci_variantId i = w" for i
    unfolding lineFor_def
    by (rule find_unique) (use cartInvD(2) [OF assms] in \<open>auto simp: cartItems_def distinct_map inj_on_def cartKey_def\<close>)
  then show ?thesis by (auto simp: cartMap_def cartItems_def)
qed

lemma map_eqI: "(\<And>w q. m w = Some q \<longleftrightarrow> n w = Some q) \<Longrightarrow> m = (n :: 'a \<rightharpoonup> 'b)"
proof
  fix w
  assume "\<And>w q. m w = Some q \<longleftrightarrow> n w = Some q"
  then show "m w = n w" by (metis option.exhaust)
qed

lemma cartKey_unique:
  assumes "cartInv env s" and "i \<in> set (dbCartItems s)" "j \<in> set (dbCartItems s)" "ci_cartId i = ci_cartId j" "ci_variantId i = ci_variantId j"
  shows "i = j"
  using cartInvD(2) [OF assms(1)] assms(2-) by (auto simp: distinct_map inj_on_def cartKey_def)

lemma cartMap_requantified:
  assumes "cartInv env s" "cartInv env t" and i: "i \<in> set (dbCartItems s)"
    and t: "dbCartItems t = map (\<lambda>x. if x = i then requantified env q x else x) (dbCartItems s)"
  shows "cartMap t c = (if c = ci_cartId i then (cartMap s c)(ci_variantId i \<mapsto> q) else cartMap s c)"
proof (rule map_eqI)
  fix w p
  have "cartMap t c w = Some p \<longleftrightarrow> (\<exists>x \<in> set (dbCartItems s). ci_cartId x = c \<and> ci_variantId x = w \<and>
      (if x = i then q else ci_quantity x) = p)"
    unfolding cartMap_Some [OF assms(2)] t set_map bex_simps
    by (rule bex_cong [OF refl]) simp
  also have "\<dots> \<longleftrightarrow> (if c = ci_cartId i then (cartMap s c)(ci_variantId i \<mapsto> q) else cartMap s c) w = Some p"
  proof (cases "c = ci_cartId i \<and> w = ci_variantId i")
    case True
    then show ?thesis using cartKey_unique [OF assms(1) _ i] i by auto
  next
    case False
    then have "x \<noteq> i" if "ci_cartId x = c \<and> ci_variantId x = w" for x using that by auto
    then show ?thesis using False by (auto simp: cartMap_Some [OF assms(1)])
  qed
  finally show "cartMap t c w = Some p \<longleftrightarrow> (if c = ci_cartId i then (cartMap s c)(ci_variantId i \<mapsto> q) else cartMap s c) w = Some p" .
qed

lemma cartMap_insert:
  assumes "cartInv env s" "cartInv env t" and "dbCartItems t = dbCartItems s @ [r]"
  shows "cartMap t c = (if c = ci_cartId r then (cartMap s c)(ci_variantId r \<mapsto> ci_quantity r) else cartMap s c)"
proof (rule map_eqI)
  fix w p
  have "r \<notin> set (dbCartItems s) \<and> cartKey r \<notin> cartKey ` set (dbCartItems s)"
    using cartInvD(2) [OF assms(2)] by (auto simp: assms(3))
  then show "cartMap t c w = Some p \<longleftrightarrow> (if c = ci_cartId r then (cartMap s c)(ci_variantId r \<mapsto> ci_quantity r) else cartMap s c) w = Some p"
    by (auto simp: cartMap_Some [OF assms(1)] cartMap_Some [OF assms(2)] assms(3) cartKey_def image_iff)
qed

lemma cartMap_delete:
  assumes inv: "cartInv env s" and t: "t = s\<lparr>dbCartItems := filter (\<lambda>i. \<not> P i) (dbCartItems s)\<rparr>"
  shows "cartMap t c = cartMap s c |` (- ci_variantId ` {i \<in> set (cartItems s c). P i})"
proof (rule map_eqI)
  fix w q
  have "cartMap t c w = Some q \<longleftrightarrow>
      (\<exists>i \<in> set (dbCartItems s). \<not> P i \<and> ci_cartId i = c \<and> ci_variantId i = w \<and> ci_quantity i = q)"
    using cartMap_Some [OF deleteCartItems_inv [OF inv, of P]] by (auto simp: t)
  also have "\<dots> \<longleftrightarrow> w \<notin> ci_variantId ` {i \<in> set (cartItems s c). P i} \<and> cartMap s c w = Some q"
    unfolding cartMap_Some [OF inv] using cartKey_unique [OF inv] by (fastforce simp: cartItems_def)
  finally show "cartMap t c w = Some q \<longleftrightarrow> (cartMap s c |` (- ci_variantId ` {i \<in> set (cartItems s c). P i})) w = Some q"
    by (simp add: restrict_map_def)
qed

lemma getCart_view:
  assumes "cartInv env u" and "findCart u cid sid = Some c"
    and "\<And>view t. cartInv env t \<Longrightarrow> cv_cart view = c \<Longrightarrow> viewMap view = shown u (cartMap u (ct_id c)) \<Longrightarrow>
       cartMap t (ct_id c) = viewMap view \<Longrightarrow> cv_items view = cartItems t (ct_id c) \<Longrightarrow>
       ci_cartId ` set (dbCartItems t) \<subseteq> ci_cartId ` set (dbCartItems u) \<Longrightarrow>
       t = u\<lparr>dbCartItems := dbCartItems t\<rparr> \<Longrightarrow> Q view t"
    and "\<not> truthy cid \<Longrightarrow> \<not> truthy sid \<Longrightarrow> E (BadRequest ''CART_IDENTITY_REQUIRED'') u"
  shows "wp (getCart env cid sid) Q E u"
proof (cases "truthy cid \<or> truthy sid")
  case True
  have w: "withCart env cid sid u = u" by (rule withCart_idle [OF assms(2)])
  obtain ws where g: "getCart env cid sid u = (Inr \<lparr>cv_cart = c, cv_items = map (cappedLine env u) (keptLines u (ct_id c)), cv_warnings = ws\<rparr>,
      readCart env (ct_id c) u)"
    using getCart_eq [OF assms(1) True, of c] assms(2) unfolding w by blast
  have r: "readCart env (ct_id c) u = u\<lparr>dbCartItems := dbCartItems (readCart env (ct_id c) u)\<rparr>" by (simp add: readCart_def)
  have m: "cartMap (readCart env (ct_id c) u) (ct_id c) = shown u (cartMap u (ct_id c))"
    unfolding cartMap_def cartItems_readCart keptLines_def by (rule ext) (rule lineFor_shown)
  have v: "viewMap \<lparr>cv_cart = c, cv_items = map (cappedLine env u) (keptLines u (ct_id c)), cv_warnings = ws\<rparr> =
      cartMap (readCart env (ct_id c) u) (ct_id c)"
    by (simp add: viewMap_def cartMap_def cartItems_readCart)
  have k: "ci_cartId ` set (dbCartItems (readCart env (ct_id c) u)) \<subseteq> ci_cartId ` set (dbCartItems u)"
    by (auto simp: readCart_def intro: rev_image_eqI)
  show ?thesis unfolding wp_def g prod.case sum.case
    by (rule assms(3)) (simp_all only: readCart_inv [OF assms(1)] v m cart_view.select_convs cartItems_readCart k r [symmetric])
next
  case False
  then show ?thesis using assms(4) resolveCart_anonymous [of cid sid env u] by (simp add: wp_def getCart_def)
qed

section \<open>The operations on the map\<close>

lemma cartMap_cong: "dbCartItems t = dbCartItems s \<Longrightarrow> cartMap t = cartMap s"
  by (simp add: fun_eq_iff cartMap_def cartItems_def)

lemma cartMap_withCart [simp]: "cartMap (withCart env cid sid s) = cartMap s"
  by (rule cartMap_cong) simp

lemma shown_withCart [simp]: "shown (withCart env cid sid s) = shown s"
  by (rule shown_cong) simp_all

lemma cartItem_in: "i \<in> set (cartItems s c) \<longleftrightarrow> i \<in> set (dbCartItems s) \<and> ci_cartId i = c"
  by (auto simp: cartItems_def)

lemma find_cartItems:
  assumes "cartInv env s"
  shows "map_option ci_quantity (List.find (\<lambda>i. ci_variantId i = w) (cartItems s c)) = cartMap s c w"
  by (simp add: cartMap_def lineFor_def)

text \<open>The end of every operation: the cart is read again in the state the change has left.\<close>

definition showsCart :: "db \<Rightarrow> string \<Rightarrow> (string \<rightharpoonup> int) \<Rightarrow> env \<Rightarrow> cart_view \<Rightarrow> db \<Rightarrow> bool" where
  "showsCart s c m env view t \<longleftrightarrow> cartInv env t \<and> ct_id (cv_cart view) = c \<and> viewMap view = shown s m \<and> cartMap t c = viewMap view"

lemma finish_wp':
  assumes "cartInv env u" "findCart u cid sid = Some c" "shown u = shown s" "cartMap u (ct_id c) = m"
    and "\<not> (truthy cid \<or> truthy sid) \<Longrightarrow> E (BadRequest ''CART_IDENTITY_REQUIRED'') u"
  shows "wp (getCart env cid sid) (showsCart s (ct_id c) m env) E u"
  by (rule getCart_view [OF assms(1,2)]) (simp_all add: showsCart_def assms)

lemma finish_wp:
  assumes "cartInv env u" "findCart u cid sid = Some c" "shown u = shown s" "cartMap u (ct_id c) = m"
  shows "wp (getCart env cid sid) (showsCart s (ct_id c) m env) (\<lambda>_. cartInv env) u"
  by (rule finish_wp' [OF assms]) (use assms(1) in simp)

text \<open>A variant may be put into a cart that then holds \<open>n\<close> of it.\<close>

definition sellable :: "db \<Rightarrow> string \<Rightarrow> int \<Rightarrow> bool" where
  "sellable s w n \<longleftrightarrow> \<not> offSale s w \<and> (case liveVariant s w of None \<Rightarrow> False | Some v \<Rightarrow> n \<le> v_stockQuantity v)"

lemma getCart_refines:
  assumes "cartInv env s" and "findCart (withCart env cid sid s) cid sid = Some c"
  shows "wp (getCart env cid sid) (showsCart s (ct_id c) (cartMap s (ct_id c)) env) (\<lambda>_. cartInv env) s"
proof (cases "truthy cid \<or> truthy sid")
  case True
  have "getCart env cid sid (withCart env cid sid s) = getCart env cid sid s"
    using resolveCart_eq [OF assms(1) True assms(2)]
      resolveCart_eq [OF withCart_inv [OF assms(1)] True, where c = c] assms(2)
    by (simp add: getCart_def seqM_def withCart_idle [OF assms(2)] cartItems_def)
  then show ?thesis
    using finish_wp [OF withCart_inv [OF assms(1)] assms(2), of s "cartMap s (ct_id c)"] by (simp add: wp_def)
next
  case False
  then show ?thesis using assms(1) resolveCart_anonymous [of cid sid env s] by (simp add: wp_def getCart_def)
qed

text \<open>A step that replaces the map of one cart; writing a line sets one entry of it.\<close>

definition setsMap :: "env \<Rightarrow> string \<Rightarrow> (string \<rightharpoonup> int) \<Rightarrow> db \<Rightarrow> db \<Rightarrow> bool" where
  "setsMap env c m u t \<longleftrightarrow> cartInv env t \<and> (\<forall>d. cartMap t d = (if d = c then m else cartMap u d)) \<and>
     t = u\<lparr>idCount := idCount t, dbCartItems := dbCartItems t\<rparr>"

abbreviation setsLine :: "env \<Rightarrow> string \<Rightarrow> string \<Rightarrow> int \<Rightarrow> db \<Rightarrow> db \<Rightarrow> bool" where
  "setsLine env c w q u \<equiv> setsMap env c ((cartMap u c)(w \<mapsto> q)) u"

lemma saveCartItem_sets:
  assumes "cartInv env u" and "i \<in> set (dbCartItems u)" and "1 \<le> q"
  shows "wp (saveCartItem env (i\<lparr>ci_quantity := q\<rparr>)) (\<lambda>j t. j = requantified env q i \<and> setsLine env (ci_cartId i) (ci_variantId i) q u t \<and>
    dbCartItems t = map (\<lambda>x. if x = i then requantified env q x else x) (dbCartItems u)) E u"
proof (rule saveCartItem_wp [OF assms], intro conjI refl)
  fix t
  assume t: "cartInv env t" "dbCartItems t = map (\<lambda>x. if x = i then requantified env q x else x) (dbCartItems u)"
    "t = u\<lparr>dbCartItems := dbCartItems t\<rparr>"
  have "idCount t = idCount u" by (subst t(3)) simp
  with t show "setsLine env (ci_cartId i) (ci_variantId i) q u t"
    using cartMap_requantified [OF assms(1) t(1) assms(2) t(2)] by (simp add: setsMap_def)
qed

lemma insertCartItem_sets:
  assumes "cartInv env u" and "cartMap u c w = None" and "1 \<le> q" and "c \<in> usedIds u"
  shows "wp (insertCartItem env c w q) (\<lambda>_ t. setsLine env c w q u t \<and> set (dbCartItems u) \<subseteq> set (dbCartItems t)) E u"
proof (rule insertCartItem_wp [OF assms(1) _ assms(3,4)])
  show "(c, w) \<notin> cartKey ` set (dbCartItems u)"
    using cartMap_Some [OF assms(1), of c w] assms(2) by (auto simp: cartKey_def)
  fix t r
  assume t: "cartInv env t" "dbCartItems t = dbCartItems u @ [r]" "ci_cartId r = c" "ci_variantId r = w" "ci_quantity r = q"
    "t = u\<lparr>idCount := idCount t, dbCartItems := dbCartItems t\<rparr>"
  then show "setsLine env c w q u t \<and> set (dbCartItems u) \<subseteq> set (dbCartItems t)"
    using cartMap_insert [OF assms(1) t(1,2)] by (auto simp: setsMap_def)
qed

lemma setsMap_same:
  assumes "setsMap env c m u t"
  shows "cartInv env t" "cartMap t c = m" "findCart t = findCart u" "shown t = shown u"
    "d \<noteq> c \<Longrightarrow> cartMap t d = cartMap u d" "dbCarts t = dbCarts u" "t = u\<lparr>idCount := idCount t, dbCartItems := dbCartItems t\<rparr>"
proof -
  have t: "t = u\<lparr>idCount := idCount t, dbCartItems := dbCartItems t\<rparr>" using assms by (simp add: setsMap_def)
  show "findCart t = findCart u" by (subst t) (simp add: fun_eq_iff findCart_def)
  show "shown t = shown u" by (rule shown_cong; subst t; simp)
  show "dbCarts t = dbCarts u" by (subst t) simp
  show "t = u\<lparr>idCount := idCount t, dbCartItems := dbCartItems t\<rparr>" by (rule t)
qed (use assms in \<open>simp_all add: setsMap_def\<close>)

lemma setsMap_trans:
  assumes "setsMap env c m u t" and "setsMap env c n t v"
  shows "setsMap env c n u v"
proof -
  have "v = u\<lparr>idCount := idCount t, dbCartItems := dbCartItems t\<rparr>\<lparr>idCount := idCount v, dbCartItems := dbCartItems v\<rparr>"
    unfolding setsMap_same(7) [OF assms(1), symmetric] by (rule setsMap_same(7) [OF assms(2)])
  also have "\<dots> = u\<lparr>idCount := idCount v, dbCartItems := dbCartItems v\<rparr>" by simp
  finally show ?thesis unfolding setsMap_def using assms by (simp add: setsMap_def)
qed

lemma addItem_refines:
  assumes s: "cartInv env s" and c: "findCart (withCart env cid sid s) cid sid = Some c" and q: "1 \<le> q"
  shows "wp (addItem env vid q cid sid)
    (\<lambda>view t. showsCart s (ct_id c) ((cartMap s (ct_id c))(vid \<mapsto> nullish (cartMap s (ct_id c) vid) 0 + q)) env view t \<and>
       sellable s vid (nullish (cartMap s (ct_id c) vid) 0 + q))
    (\<lambda>e t. cartInv env t \<and> (truthy cid \<or> truthy sid \<longrightarrow> \<not> sellable s vid (nullish (cartMap s (ct_id c) vid) 0 + q))) s"
  unfolding addItem_def wp_seq
proof (rule resolveCart_wp [OF s], goal_cases)
  case 1
  then show ?case using s by simp
next
  case (2 d u)
  have cd: "d = c" using 2 c by simp
  have u: "cartMap u = cartMap s" "shown u = shown s" "liveVariant u = liveVariant s" "storeOfVariant u = storeOfVariant s"
    by (simp_all add: 2(1) fun_eq_iff liveVariant_def storeOfVariant_def liveProduct_def liveStore_def cong: option.case_cong)
  let ?old = "List.find (\<lambda>i. ci_variantId i = vid) (cartItems u (ct_id c))"
  let ?n = "nullish (cartMap s (ct_id c) vid) 0 + q"
  have n: "(case ?old of None \<Rightarrow> q | Some i \<Rightarrow> ci_quantity i + q) = ?n"
    using find_cartItems [OF 2(2), of vid "ct_id c", symmetric] u(1) by (cases ?old) auto
  have wr: "wp (putLine env (ct_id c) vid q ?old) (\<lambda>_ t. setsLine env (ct_id c) vid ?n u t) (\<lambda>_ _. False) u"
  proof (cases ?old)
    case None
    then have "cartMap u (ct_id c) vid = None" using find_cartItems [OF 2(2), of vid "ct_id c"] by simp
    from wp_conseq [OF insertCartItem_sets [OF 2(2) this q findCart_used [OF 2(3) [unfolded cd]]]] show ?thesis
      using n None by (simp add: putLine_def)
  next
    case (Some i)
    then have i: "i \<in> set (dbCartItems u)" "ci_cartId i = ct_id c" "ci_variantId i = vid"
      by (auto simp: cartItem_in dest: find_Some_in)
    have "1 \<le> ci_quantity i + q" using cartInvD(3) [OF 2(2) i(1)] q by simp
    from wp_conseq [OF saveCartItem_sets [OF 2(2) i(1) this]] show ?thesis using n Some i by (simp add: wp putLine_def)
  qed
  show ?case
  proof (cases "liveVariant s vid")
    case None
    then show ?thesis using 2(2) by (simp add: wp u sellable_def)
  next
    case (Some v)
    have "wp (getCart env cid sid) (showsCart s (ct_id c) ((cartMap s (ct_id c))(vid \<mapsto> ?n)) env)
        (\<lambda>e t. cartInv env t \<and> \<not> (truthy cid \<or> truthy sid)) t"
      if t: "setsLine env (ct_id c) vid ?n u t" for t
      by (rule finish_wp' [OF setsMap_same(1) [OF t]]) (use setsMap_same [OF t] 2(3) u in \<open>simp_all add: cd\<close>)
    note fin = wp_conseq [OF this]
    show ?thesis using 2(2) Some
      by (auto simp: wp u n cd offSale_def sellable_def split: option.splits intro!: wp_conseq [OF wr] fin)
  qed
qed

lemma updateItem_refines:
  assumes s: "cartInv env s" and c: "findCart (withCart env cid sid s) cid sid = Some c"
  shows "wp (updateItem env itemId q cid sid) (\<lambda>view t. \<exists>i \<in> set (cartItems s (ct_id c)). ci_id i = itemId \<and>
     showsCart s (ct_id c) (if q \<le> 0 then (cartMap s (ct_id c))(ci_variantId i := None)
        else (cartMap s (ct_id c))(ci_variantId i \<mapsto> capTo s (ci_variantId i) q)) env view t)
     (\<lambda>_. cartInv env) s"
  unfolding updateItem_def wp_seq
proof (rule resolveCart_wp [OF s], goal_cases)
  case 1
  show ?case by (rule s)
next
  case (2 d u)
  have cd: "d = c" using 2 c by simp
  have u: "cartMap u = cartMap s" "shown u = shown s" "capTo u = capTo s" "cartItems u = cartItems s"
    by (simp_all add: 2(1) fun_eq_iff capTo_def liveVariant_def cartItems_def)
  show ?case
  proof (cases "List.find (\<lambda>i. ci_id i = itemId \<and> ci_cartId i = ct_id c) (dbCartItems u)")
    case None
    then show ?thesis using 2(2) by (simp add: wp cd)
  next
    case (Some i)
    then have i: "i \<in> set (dbCartItems u)" "ci_id i = itemId" "ci_cartId i = ct_id c"
      by (auto dest: find_Some_in)
    have mem: "i \<in> set (cartItems s (ct_id c))" using i(1,3) by (simp add: cartItem_in flip: u(4))
    show ?thesis
    proof (cases "q \<le> 0")
      case True
      have "wp (getCart env cid sid) (\<lambda>view t. showsCart s (ct_id c) ((cartMap s (ct_id c))(ci_variantId i := None)) env view t)
          (\<lambda>_. cartInv env) t"
        if t: "cartInv env t" "t = u\<lparr>dbCartItems := filter (\<lambda>j. \<not> ci_id j = ci_id i) (dbCartItems u)\<rparr>" for t
      proof (rule finish_wp [OF t(1)])
        show "findCart t cid sid = Some c" using 2(3) by (simp add: t(2) cd findCart_def)
        show "shown t = shown s" unfolding u(2) [symmetric] by (rule shown_cong) (simp_all add: t(2))
        show "cartMap t (ct_id c) = (cartMap s (ct_id c))(ci_variantId i := None)"
        proof -
          have "{j \<in> set (cartItems u (ct_id c)). ci_id j = ci_id i} = {i}"
            using cartInvD(1) [OF 2(2)] i by (auto simp: cartItem_in uniqueKey_def distinct_map inj_on_def)
          then show ?thesis using cartMap_delete [OF 2(2) t(2), of "ct_id c"] by (simp add: u(1) restrict_complement_singleton_eq)
        qed
      qed
      then show ?thesis using True Some mem i(2) 2(2)
        by (auto simp: wp cd intro!: deleteCartItems_wp elim!: wp_conseq)
    next
      case False
      then have "1 \<le> capTo s (ci_variantId i) q" by (simp add: capTo_def split: option.split)
      note wr = wp_conseq [OF saveCartItem_sets [OF 2(2) i(1) this]]
      have "wp (getCart env cid sid) (\<lambda>view t. \<exists>j \<in> set (cartItems s (ct_id c)). ci_id j = ci_id i \<and>
          showsCart s (ct_id c) ((cartMap s (ct_id c))(ci_variantId j \<mapsto> capTo s (ci_variantId j) q)) env view t)
          (\<lambda>_. cartInv env) t" if t: "setsLine env (ct_id c) (ci_variantId i) (capTo s (ci_variantId i) q) u t" for t
        by (rule wp_conseq [OF finish_wp [OF setsMap_same(1) [OF t]]]) (use setsMap_same [OF t] 2(3) u mem in \<open>auto simp: cd\<close>)
      then show ?thesis using False Some i 2(2)
        by (auto simp: wp cd u cappedQuantity_capTo intro!: wr)
    qed
  qed
qed

text \<open>Removing lines, one or many, restricts the map.\<close>

lemma deletion_refines:
  assumes s: "cartInv env s" and c: "findCart (withCart env cid sid s) cid sid = Some c"
    and ids: "\<And>d i. ci_cartId i = ct_id d \<Longrightarrow> P d i = (ci_id i \<in> ids)" "\<And>d i. P d i \<Longrightarrow> ci_cartId i = ct_id d"
  shows "wp (seqM (resolveCart env cid sid) (\<lambda>(cart, items). seqM (deleteCartItems (P cart)) (\<lambda>_. getCart env cid sid)))
    (showsCart s (ct_id c) (cartMap s (ct_id c) |` (- ci_variantId ` {i \<in> set (cartItems s (ct_id c)). ci_id i \<in> ids})) env)
    (\<lambda>_. cartInv env) s"
  unfolding wp_seq
proof (rule resolveCart_wp [OF s], goal_cases)
  case 1
  show ?case by (rule s)
next
  case (2 d u)
  have cd: "d = c" using 2 c by simp
  have u: "cartMap u = cartMap s" "shown u = shown s" "cartItems u = cartItems s"
    by (simp_all add: 2(1) fun_eq_iff cartItems_def)
  have "wp (getCart env cid sid)
    (showsCart s (ct_id c) (cartMap s (ct_id c) |` (- ci_variantId ` {i \<in> set (cartItems s (ct_id c)). ci_id i \<in> ids})) env)
    (\<lambda>_. cartInv env) t" if t: "cartInv env t" "t = u\<lparr>dbCartItems := filter (\<lambda>i. \<not> P c i) (dbCartItems u)\<rparr>" for t
  proof (rule finish_wp [OF t(1)])
    show "findCart t cid sid = Some c" using 2(3) by (simp add: t(2) cd findCart_def)
    show "shown t = shown s" unfolding u(2) [symmetric] by (rule shown_cong) (simp_all add: t(2))
    have "{i \<in> set (cartItems u (ct_id c)). P c i} = {i \<in> set (cartItems s (ct_id c)). ci_id i \<in> ids}"
      unfolding u(3) using ids(1) [of _ c] by (auto simp: cartItems_def)
    then show "cartMap t (ct_id c) = cartMap s (ct_id c) |` (- ci_variantId ` {i \<in> set (cartItems s (ct_id c)). ci_id i \<in> ids})"
      using cartMap_delete [OF 2(2) t(2), of "ct_id c"] by (simp add: u(1))
  qed
  then show ?case unfolding cd prod.case wp_seq by (rule deleteCartItems_wp [OF 2(2)])
qed

lemma removeItem_refines:
  assumes "cartInv env s" and "findCart (withCart env cid sid s) cid sid = Some c"
  shows "wp (removeItem env itemId cid sid)
    (showsCart s (ct_id c) (cartMap s (ct_id c) |` (- ci_variantId ` {i \<in> set (cartItems s (ct_id c)). ci_id i = itemId})) env)
    (\<lambda>_. cartInv env) s"
  using deletion_refines [OF assms, of "\<lambda>d i. ci_id i = itemId \<and> ci_cartId i = ct_id d" "{itemId}"]
  by (simp add: removeItem_def)

lemma removeItems_refines:
  assumes "cartInv env s" and "findCart (withCart env cid sid s) cid sid = Some c"
  shows "wp (removeItems env itemIds cid sid)
    (showsCart s (ct_id c) (cartMap s (ct_id c) |` (- ci_variantId ` {i \<in> set (cartItems s (ct_id c)). ci_id i \<in> set itemIds})) env)
    (\<lambda>_. cartInv env) s"
proof (cases "itemIds = []")
  case True
  then show ?thesis using getCart_refines [OF assms] by (simp add: removeItems_def restrict_map_def)
next
  case False
  then show ?thesis
    using deletion_refines [OF assms, of "\<lambda>d i. ci_id i \<in> set itemIds \<and> ci_cartId i = ct_id d" "set itemIds"]
    by (simp add: removeItems_def)
qed

section \<open>Merging the guest cart\<close>

definition addMaps :: "(string \<rightharpoonup> int) \<Rightarrow> (string \<rightharpoonup> int) \<Rightarrow> string \<rightharpoonup> int" where
  "addMaps m n = (\<lambda>w. case n w of None \<Rightarrow> m w | Some q \<Rightarrow> Some (nullish (m w) 0 + q))"

definition linesMap :: "cart_item_row list \<Rightarrow> string \<rightharpoonup> int" where
  "linesMap xs = (\<lambda>w. map_option ci_quantity (lineFor xs w))"

lemma linesMap_Cons: "linesMap (g # gs) = (linesMap gs)(ci_variantId g \<mapsto> ci_quantity g)"
  by (auto simp: linesMap_def lineFor_def fun_eq_iff)

lemma addMaps_Cons:
  assumes "ci_variantId g \<notin> ci_variantId ` set gs"
  shows "addMaps m (linesMap (g # gs)) =
    addMaps (m(ci_variantId g \<mapsto> nullish (m (ci_variantId g)) 0 + ci_quantity g)) (linesMap gs)"
proof -
  have "linesMap gs (ci_variantId g) = None"
    using assms by (simp add: linesMap_def lineFor_def find_None_iff) (metis imageI)
  then show ?thesis by (auto simp: addMaps_def linesMap_Cons fun_eq_iff split: option.split)
qed

text \<open>The loaded lines of the customer's cart stay those of the table, where a guest line may still meet them.\<close>

definition inSync :: "db \<Rightarrow> string \<Rightarrow> cart_item_row list \<Rightarrow> cart_item_row list \<Rightarrow> bool" where
  "inSync u c items gs \<longleftrightarrow> set items \<subseteq> set (cartItems u c) \<and>
     (\<forall>x \<in> set (cartItems u c). ci_variantId x \<in> ci_variantId ` set gs \<longrightarrow> x \<in> set items)"

lemma mergeOne_wp:
  assumes u: "cartInv env u" and sync: "inSync u c items (g # gs)" and g: "ci_variantId g \<notin> ci_variantId ` set gs" "1 \<le> ci_quantity g"
    and c: "c \<in> ct_id ` set (dbCarts u)"
  shows "wp (mergeOne env c items g) (\<lambda>items' t.
     setsLine env c (ci_variantId g) (nullish (cartMap u c (ci_variantId g)) 0 + ci_quantity g) u t \<and> inSync t c items' gs) E u"
proof (cases "List.find (\<lambda>i. ci_variantId i = ci_variantId g) items")
  case None
  then have n: "cartMap u c (ci_variantId g) = None"
    using sync by (auto simp: inSync_def cartMap_def lineFor_def find_None_iff)
  have used: "c \<in> usedIds u" using c by (simp add: usedIds_def)
  have "inSync t c items gs"
    if t: "setsLine env c (ci_variantId g) (ci_quantity g) u t" "set (dbCartItems u) \<subseteq> set (dbCartItems t)" for t
    unfolding inSync_def
  proof (intro conjI ballI impI)
    have "set items \<subseteq> set (cartItems u c)" using sync by (simp add: inSync_def)
    then show "set items \<subseteq> set (cartItems t c)" using t(2) by (auto simp: cartItems_def)
    fix x
    assume x: "x \<in> set (cartItems t c)" "ci_variantId x \<in> ci_variantId ` set gs"
    then have "cartMap t c (ci_variantId x) = Some (ci_quantity x)"
      using cartMap_Some [OF setsMap_same(1) [OF t(1)]] by (auto simp: cartItem_in)
    moreover have "ci_variantId x \<noteq> ci_variantId g" using x(2) g(1) by auto
    ultimately have "cartMap u c (ci_variantId x) = Some (ci_quantity x)" using setsMap_same(2) [OF t(1)] by simp
    then obtain y where y: "y \<in> set (dbCartItems u)" "ci_cartId y = c" "ci_variantId y = ci_variantId x"
      unfolding cartMap_Some [OF u] by blast
    then have "x = y" using cartKey_unique [OF setsMap_same(1) [OF t(1)], of x y] x(1) t(2) by (auto simp: cartItem_in)
    then show "x \<in> set items" using sync y x(2) by (auto simp: inSync_def cartItem_in)
  qed
  with wp_conseq [OF insertCartItem_sets [OF u n g(2) used]] show ?thesis using None n
    by (simp add: mergeOne_def wp)
next
  case (Some i)
  have i: "i \<in> set items" "i \<in> set (dbCartItems u)" "ci_cartId i = c" "ci_variantId i = ci_variantId g"
    using find_Some_in [OF Some] sync by (auto simp: inSync_def cartItem_in)
  let ?q = "ci_quantity i + ci_quantity g"
  let ?items = "map (\<lambda>k. if ci_id k = ci_id i then requantified env ?q i else k) items"
  have pos: "1 \<le> ?q" using cartInvD(3) [OF u i(2)] g(2) by simp
  have old: "cartMap u c (ci_variantId g) = Some (ci_quantity i)" using cartMap_Some [OF u] i by blast
  have same: "ci_id k = ci_id i \<longleftrightarrow> k = i" if "k \<in> set (dbCartItems u)" for k
    using cartInvD(1) [OF u] i(2) that by (auto simp: uniqueKey_def distinct_map inj_on_def)
  have "inSync t c ?items gs"
    if t: "dbCartItems t = map (\<lambda>x. if x = i then requantified env ?q x else x) (dbCartItems u)" for t
    unfolding inSync_def
  proof (intro conjI ballI impI subsetI)
    fix x
    assume "x \<in> set ?items"
    then obtain k where k: "k \<in> set items" "x = (if ci_id k = ci_id i then requantified env ?q i else k)" by auto
    then have "k \<in> set (dbCartItems u)" "ci_cartId k = c" using sync by (auto simp: inSync_def cartItem_in)
    then show "x \<in> set (cartItems t c)" using k(2) same by (auto simp: cartItem_in t)
  next
    fix x
    assume x: "x \<in> set (cartItems t c)" "ci_variantId x \<in> ci_variantId ` set gs"
    then obtain y where y: "y \<in> set (dbCartItems u)" "ci_cartId y = c" "x = (if y = i then requantified env ?q y else y)"
      by (auto simp: cartItem_in t split: if_splits)
    then have "y \<noteq> i" using x(2) g(1) i(4) by auto
    with y have "x = y" by simp
    with y x(2) have "x \<in> set items" using sync by (auto simp: inSync_def cartItem_in)
    then show "x \<in> set ?items" using same [OF y(1)] \<open>y \<noteq> i\<close> \<open>x = y\<close> by force
  qed
  with wp_conseq [OF saveCartItem_sets [OF u i(2) pos]] show ?thesis using Some old i(3,4)
    by (simp add: mergeOne_def wp)
qed

lemma mergeLoop_wp:
  assumes "cartInv env u" "inSync u c items gs" "distinct (map ci_variantId gs)" "\<And>g. g \<in> set gs \<Longrightarrow> 1 \<le> ci_quantity g"
    and "c \<in> ct_id ` set (dbCarts u)"
  shows "wp (mergeLoop env c items gs) (\<lambda>_. setsMap env c (addMaps (cartMap u c) (linesMap gs)) u) E u"
  using assms
proof (induction gs arbitrary: u items)
  case Nil
  then show ?case by (simp add: wp setsMap_def addMaps_def linesMap_def lineFor_def)
next
  case (Cons g gs)
  have g: "ci_variantId g \<notin> ci_variantId ` set gs" "1 \<le> ci_quantity g" using Cons.prems by auto
  let ?m = "(cartMap u c)(ci_variantId g \<mapsto> nullish (cartMap u c (ci_variantId g)) 0 + ci_quantity g)"
  have "wp (mergeLoop env c items' gs) (\<lambda>_. setsMap env c (addMaps (cartMap u c) (linesMap (g # gs))) u) E t"
    if t: "setsMap env c ?m u t" "inSync t c items' gs" for items' t
  proof (rule wp_conseq [OF Cons.IH])
    show "cartInv env t" "inSync t c items' gs" "c \<in> ct_id ` set (dbCarts t)"
      using setsMap_same [OF t(1)] t(2) Cons.prems(5) by auto
    fix v
    assume "setsMap env c (addMaps (cartMap t c) (linesMap gs)) t v"
    from setsMap_trans [OF t(1) this] show "setsMap env c (addMaps (cartMap u c) (linesMap (g # gs))) u v"
      using setsMap_same(2) [OF t(1)] addMaps_Cons [OF g(1)] by simp
  qed (use Cons.prems in auto)
  then show ?case
    by (auto simp: wp intro!: wp_conseq [OF mergeOne_wp [OF Cons.prems(1,2) g Cons.prems(5)]])
qed

text \<open>What follows the loop: the guest cart and its lines are deleted.\<close>

lemma dropCart_inv:
  assumes "cartInv env s"
  shows "cartInv env (s\<lparr>dbCarts := filter (\<lambda>c. ct_id c \<noteq> g) (dbCarts s)\<rparr>)"
  by (rule cartInv_map_filter [OF assms, where f = "\<lambda>x. x" and P = "\<lambda>_. True"]) (use cartInvD(3) [OF assms] in auto)

lemma find_filter_kept: "List.find P xs = Some x \<Longrightarrow> Q x \<Longrightarrow> List.find P (filter Q xs) = Some x"
  by (induction xs) (auto split: if_splits)

lemma mergeGuestCart_refines:
  assumes s: "cartInv env s" and g: "List.find (\<lambda>c. ct_sessionId c = Some sid) (dbCarts s) = Some g"
    and c: "findCart (withCart env (Some cid) None s) (Some cid) None = Some c" and ne: "ct_id c \<noteq> ct_id g"
    and some: "cartItems s (ct_id g) \<noteq> []" and cid: "cid \<noteq> []"
  shows "wp (mergeGuestCart env cid sid) (\<lambda>view t.
     showsCart s (ct_id c) (addMaps (cartMap s (ct_id c)) (cartMap s (ct_id g))) env view t \<and>
     ct_id g \<notin> ct_id ` set (dbCarts t) \<and> ct_id g \<notin> ci_cartId ` set (dbCartItems t)) (\<lambda>_ _. False) s"
  unfolding mergeGuestCart_def wp_seq wp_get g option.case option.sel if_not_P [OF some]
proof (rule resolveCart_wp [OF s], goal_cases)
  case 1
  then show ?case using cid by simp
next
  case (2 d u)
  have cd: "d = c" using 2 c by simp
  have u: "cartMap u = cartMap s" "shown u = shown s" "cartItems u = cartItems s"
    by (simp_all add: 2(1) fun_eq_iff cartItems_def)
  let ?m = "addMaps (cartMap s (ct_id c)) (cartMap s (ct_id g))"
  have lines: "distinct (map ci_variantId (cartItems s (ct_id g)))" "\<And>i. i \<in> set (cartItems s (ct_id g)) \<Longrightarrow> 1 \<le> ci_quantity i"
    using cartInvD(1-3) [OF s] by (auto simp: cartItems_def distinct_map inj_on_def cartKey_def uniqueKey_def)
  have there: "ct_id c \<in> ct_id ` set (dbCarts u)" using 2(3) by (auto simp: cd findCart_def dest: find_Some_in)
  have sync: "inSync u (ct_id c) (cartItems u (ct_id c)) (cartItems s (ct_id g))" by (simp add: inSync_def)
  have rest: "wp (seqM (deleteCartItems (\<lambda>i. ci_cartId i = ct_id g)) (\<lambda>_.
      seqM (modM (\<lambda>s. s\<lparr>dbCarts := filter (\<lambda>c. ct_id c \<noteq> ct_id g) (dbCarts s)\<rparr>)) (\<lambda>_. getCart env (Some cid) None)))
    (\<lambda>view t. showsCart s (ct_id c) ?m env view t \<and>
     ct_id g \<notin> ct_id ` set (dbCarts t) \<and> ct_id g \<notin> ci_cartId ` set (dbCartItems t)) (\<lambda>_ _. False) t"
    if t: "setsMap env (ct_id c) ?m u t" for t
    unfolding wp_seq wp_mod
  proof (rule deleteCartItems_wp [OF setsMap_same(1) [OF t]])
    fix v
    assume v: "cartInv env v" "v = t\<lparr>dbCartItems := filter (\<lambda>i. \<not> ci_cartId i = ct_id g) (dbCartItems t)\<rparr>"
    let ?w = "v\<lparr>dbCarts := filter (\<lambda>c. ct_id c \<noteq> ct_id g) (dbCarts v)\<rparr>"
    have inv: "cartInv env ?w" by (rule dropCart_inv [OF v(1)])
    have found: "findCart ?w (Some cid) None = Some c"
      using 2(3) setsMap_same(6) [OF t] ne by (simp add: cd findCart_def v(2) find_filter_kept)
    have none: "{i \<in> set (cartItems t (ct_id c)). ci_cartId i = ct_id g} = {}" using ne by (auto simp: cartItems_def)
    have "cartMap v (ct_id c) = cartMap t (ct_id c)"
      using cartMap_delete [OF setsMap_same(1) [OF t] v(2), of "ct_id c"] unfolding none by (simp add: restrict_map_def)
    moreover have "cartMap ?w = cartMap v" by (rule cartMap_cong) simp
    ultimately have m: "cartMap ?w (ct_id c) = ?m" using setsMap_same(2) [OF t] by simp
    have sh: "shown ?w = shown s"
      unfolding u(2) [symmetric] setsMap_same(4) [OF t, symmetric] by (rule shown_cong) (simp_all add: v(2))
    show "wp (getCart env (Some cid) None) (\<lambda>view t. showsCart s (ct_id c) ?m env view t \<and>
        ct_id g \<notin> ct_id ` set (dbCarts t) \<and> ct_id g \<notin> ci_cartId ` set (dbCartItems t)) (\<lambda>_ _. False) ?w"
    proof (rule getCart_view [OF inv found])
      fix view x
      assume x: "cartInv env x" "cv_cart view = c" "viewMap view = shown ?w (cartMap ?w (ct_id c))" "cartMap x (ct_id c) = viewMap view"
        "ci_cartId ` set (dbCartItems x) \<subseteq> ci_cartId ` set (dbCartItems ?w)" "x = ?w\<lparr>dbCartItems := dbCartItems x\<rparr>"
      have "dbCarts x = dbCarts ?w" by (subst x(6)) simp
      moreover have "ct_id g \<notin> ci_cartId ` set (dbCartItems ?w)" by (auto simp: v(2))
      ultimately show "showsCart s (ct_id c) ?m env view x \<and> ct_id g \<notin> ct_id ` set (dbCarts x) \<and>
          ct_id g \<notin> ci_cartId ` set (dbCartItems x)"
        using x(1-5) m sh by (auto simp: showsCart_def)
    qed (use cid in simp)
  qed
  have "linesMap (cartItems s (ct_id g)) = cartMap s (ct_id g)" by (simp add: linesMap_def cartMap_def)
  then show ?case unfolding prod.case wp_seq cd
    by (intro wp_conseq [OF mergeLoop_wp [OF 2(2) sync lines there]] rest [unfolded wp_seq]) (simp_all add: u(1))
qed

section \<open>Properties\<close>

definition sampleIds :: env where
  "sampleIds = \<lparr>envNow = 0, envUuid = (\<lambda>n. replicate (Suc n) (CHR ''x'')), envMailFails = (\<lambda>_. False)\<rparr>"

definition sampleCart :: "string \<Rightarrow> string option \<Rightarrow> string option \<Rightarrow> cart_row" where
  "sampleCart i cid sid = \<lparr>ct_id = i, ct_customerId = cid, ct_sessionId = sid, ct_mergedAt = None, ct_createdAt = 0, ct_updatedAt = 0\<rparr>"

definition sampleLine :: "string \<Rightarrow> string \<Rightarrow> int \<Rightarrow> cart_item_row" where
  "sampleLine i c q = \<lparr>ci_id = i, ci_cartId = c, ci_variantId = ''v'', ci_quantity = q, ci_createdAt = 0, ci_updatedAt = 0\<rparr>"

text \<open>Five pieces in stock, two in the cart of the customer and one in the cart of the guest session.\<close>

definition sampleShop :: db where
  "sampleShop = empty_db\<lparr>dbVariants := [sampleVariant], dbCarts := [sampleCart ''c'' (Some ''u'') None, sampleCart ''g'' None (Some ''w'')],
     dbCartItems := [sampleLine ''i'' ''c'' 2, sampleLine ''j'' ''g'' 1]\<rparr>"

lemma sampleShop_inv: "cartInv sampleIds sampleShop"
proof (rule cartInvI)
  show "inj (envUuid sampleIds)" by (auto simp: sampleIds_def inj_def dest: arg_cong [where f = length])
qed (auto simp: sampleShop_def sampleLine_def sampleCart_def uniqueKey_def cartKey_def usedIds_def sampleIds_def)

lemma sampleShop_facts:
  "findCart (withCart sampleIds (Some ''u'') None sampleShop) (Some ''u'') None = Some (sampleCart ''c'' (Some ''u'') None)"
  "List.find (\<lambda>c. ct_sessionId c = Some ''w'') (dbCarts sampleShop) = Some (sampleCart ''g'' None (Some ''w''))"
  "cartItems sampleShop ''c'' = [sampleLine ''i'' ''c'' 2]" "cartItems sampleShop ''g'' = [sampleLine ''j'' ''g'' 1]"
  "cartMap sampleShop ''c'' = [''v'' \<mapsto> 2]" "cartMap sampleShop ''g'' = [''v'' \<mapsto> 1]"
  by (auto simp: withCart_def findCart_def sampleShop_def sampleCart_def sampleLine_def cartItems_def cartMap_def lineFor_def)

text \<open>C0. A cart is a map from variants to positive quantities, and every operation is the corresponding
  operation on that map: \<open>addItem\<close> adds to one entry, \<open>updateItem\<close> overwrites or removes one,
  \<open>removeItem\<close> and \<open>removeItems\<close> delete entries. The view that is returned is what may be
  shown of the new map (nothing retired or of a suspended store, no more than the stock), and it is also
  what is stored. Every operation keeps the rows well formed, whether it succeeds or fails.\<close>

theorem cart_refines_map:
  assumes s: "cartInv env s" and c: "findCart (withCart env cid sid s) cid sid = Some c" and q: "1 \<le> q"
    and m: "m = cartMap s (ct_id c)"
  shows "wp (getCart env cid sid) (showsCart s (ct_id c) m env) (\<lambda>_. cartInv env) s \<and>
    wp (addItem env vid q cid sid) (showsCart s (ct_id c) (m(vid \<mapsto> nullish (m vid) 0 + q)) env) (\<lambda>_. cartInv env) s \<and>
    wp (updateItem env itemId n cid sid) (\<lambda>view t. \<exists>i \<in> set (cartItems s (ct_id c)). ci_id i = itemId \<and>
      showsCart s (ct_id c) (if n \<le> 0 then m(ci_variantId i := None) else m(ci_variantId i \<mapsto> capTo s (ci_variantId i) n)) env view t)
      (\<lambda>_. cartInv env) s \<and>
    wp (removeItem env itemId cid sid)
      (showsCart s (ct_id c) (m |` (- ci_variantId ` {i \<in> set (cartItems s (ct_id c)). ci_id i = itemId})) env) (\<lambda>_. cartInv env) s \<and>
    wp (removeItems env itemIds cid sid)
      (showsCart s (ct_id c) (m |` (- ci_variantId ` {i \<in> set (cartItems s (ct_id c)). ci_id i \<in> set itemIds})) env) (\<lambda>_. cartInv env) s"
  unfolding m
  by (intro conjI getCart_refines [OF s c] wp_conseq [OF addItem_refines [OF s c q]] updateItem_refines [OF s c]
      removeItem_refines [OF s c] removeItems_refines [OF s c]) blast+

lemma sampleShop_shown: "m ''v'' = Some 3 \<Longrightarrow> shown sampleShop m ''v'' = Some 3"
  by (simp add: shown_def offSale_def capTo_def liveVariant_def storeOfVariant_def liveProduct_def sampleShop_def sampleVariant_def empty_db_def)

theorem cart_refines_map_witness:
  "wp (addItem sampleIds ''v'' 1 (Some ''u'') None) (showsCart sampleShop ''c'' [''v'' \<mapsto> 3] sampleIds) (\<lambda>_. cartInv sampleIds) sampleShop"
  using conjunct1 [OF conjunct2 [OF cart_refines_map [OF sampleShop_inv sampleShop_facts(1), of 1 "[''v'' \<mapsto> 2]" "''v''"]]]
  by (simp add: sampleCart_def sampleShop_facts)

text \<open>An item is added exactly when its variant exists and is on sale and the stock covers what the
  cart then holds; the view has exactly that quantity.\<close>

theorem item_added_iff_sellable:
  assumes "cartInv env s" and "1 \<le> q" and "truthy cid \<or> truthy sid" and "findCart (withCart env cid sid s) cid sid = Some c"
    and n: "n = nullish (cartMap s (ct_id c) vid) 0 + q"
  shows "if sellable s vid n then \<exists>view t. addItem env vid q cid sid s = (Inr view, t) \<and> viewMap view vid = Some n
         else \<exists>e t. addItem env vid q cid sid s = (Inl e, t) \<and> cartInv env t"
proof -
  have "capTo s vid n = n" if "sellable s vid n" using that by (auto simp: sellable_def capTo_def split: option.splits)
  with addItem_refines [OF assms(1,4,2), of vid] assms(3) show ?thesis
    unfolding n wp_def showsCart_def shown_def
    by (auto simp: sellable_def split: prod.splits sum.splits)
qed

theorem item_added_iff_sellable_witness:
  "\<exists>view t. addItem sampleIds ''v'' 1 (Some ''u'') None sampleShop = (Inr view, t) \<and> viewMap view ''v'' = Some 3"
proof -
  have "sellable sampleShop ''v'' 3"
    by (simp add: sellable_def offSale_def liveVariant_def storeOfVariant_def liveProduct_def sampleShop_def sampleVariant_def empty_db_def)
  then show ?thesis
    using item_added_iff_sellable [OF sampleShop_inv, of 1 "Some ''u''" None "sampleCart ''c'' (Some ''u'') None" 3 "''v''"]
    by (simp add: sampleShop_facts sampleCart_def)
qed

text \<open>Merging a guest cart at login adds the guest quantities to the customer's, variant by variant,
  shows the sum capped by the stock, and deletes the guest cart with its lines; nothing of either cart is lost.\<close>

theorem guest_cart_merged:
  assumes "cartInv env s" and "List.find (\<lambda>c. ct_sessionId c = Some sid) (dbCarts s) = Some g"
    and "findCart (withCart env (Some cid) None s) (Some cid) None = Some c" and "ct_id c \<noteq> ct_id g"
    and "cartItems s (ct_id g) \<noteq> []" and "cid \<noteq> []"
  shows "\<exists>view t. mergeGuestCart env cid sid s = (Inr view, t) \<and>
     showsCart s (ct_id c) (addMaps (cartMap s (ct_id c)) (cartMap s (ct_id g))) env view t \<and>
     ct_id g \<notin> ct_id ` set (dbCarts t) \<and> ct_id g \<notin> ci_cartId ` set (dbCartItems t)"
  using mergeGuestCart_refines [OF assms] by (auto simp: wp_def split: prod.splits sum.splits)

theorem guest_cart_merged_witness:
  "\<exists>view t. mergeGuestCart sampleIds ''u'' ''w'' sampleShop = (Inr view, t) \<and> viewMap view ''v'' = Some 3"
  using guest_cart_merged [OF sampleShop_inv sampleShop_facts(2,1)]
  by (auto simp: sampleCart_def sampleShop_facts showsCart_def addMaps_def sampleShop_shown)

end
