(* ===== verification/Checkout_Util.thy ===== *)
theory Checkout_Util
  imports Entities
begin

text \<open>
  The helpers of checkout: \<^verbatim>\<open>src/src/common/utils/phone.util.ts\<close> (Thai phone numbers in local format),
  \<^verbatim>\<open>checkout-payment.util.ts\<close> (the payment methods a client may name), and the customer
  lookups of \<^verbatim>\<open>src/src/database/repositories/customer.repository.ts\<close> and
  \<^verbatim>\<open>src/src/modules/orders/guest-order-link.service.ts\<close> that link guest orders to members.
\<close>

section \<open>phone.util.ts\<close>

definition THAI_SUBSCRIBER_LENGTH :: nat where
  "THAI_SUBSCRIBER_LENGTH = 9"

definition startsWith :: "string \<Rightarrow> string \<Rightarrow> bool" where
  "startsWith s p \<longleftrightarrow> take (length p) s = p"

definition getThaiSubscriber :: "string \<Rightarrow> string" where
  "getThaiSubscriber value = (let digits = digitsOf value in
     if startsWith digits ''660'' then take THAI_SUBSCRIBER_LENGTH (drop 3 digits)
     else if startsWith digits ''66'' then take THAI_SUBSCRIBER_LENGTH (drop 2 digits)
     else if startsWith digits ''0'' then take THAI_SUBSCRIBER_LENGTH (drop 1 digits)
     else take THAI_SUBSCRIBER_LENGTH digits)"

definition normalizeThaiPhoneToLocal :: "string option \<Rightarrow> string" where
  "normalizeThaiPhoneToLocal value = (let trimmed = js_trim (nullish value []) in
     if trimmed = [] then []
     else if startsWith trimmed ''+'' \<and> \<not> startsWith trimmed ''+66'' then trimmed
     else let subscriber = getThaiSubscriber trimmed in
       if length subscriber = THAI_SUBSCRIBER_LENGTH then ''0'' @ subscriber else trimmed)"

definition guestPhoneLookupValues :: "string \<Rightarrow> string list" where
  "guestPhoneLookupValues value = (let local = normalizeThaiPhoneToLocal (Some (js_trim value)) in
     uniq (filter (\<lambda>v. v \<noteq> []) [local] @
           (if startsWith local ''0'' \<and> length local = 10 then [''+66'' @ drop 1 local] else [])))"

section \<open>checkout-payment.util.ts\<close>

text \<open>The TypeScript union of supported methods is the enum of the payment column, in its database spelling.\<close>

fun payment_method_text :: "payment_method \<Rightarrow> string" where
  "payment_method_text PM_PROMPTPAY = ''promptpay''"
| "payment_method_text PM_CREDIT_CARD = ''credit_card''"
| "payment_method_text PM_COD = ''cod''"
| "payment_method_text PM_BANK_TRANSFER = ''bank_transfer''"
| "payment_method_text PM_TRUEMONEY = ''truemoney''"
| "payment_method_text PM_SHOPEEPAY = ''shopeepay''"

definition SUPPORTED_METHODS :: "payment_method list" where
  "SUPPORTED_METHODS = [PM_PROMPTPAY, PM_CREDIT_CARD, PM_COD, PM_BANK_TRANSFER, PM_TRUEMONEY, PM_SHOPEEPAY]"

definition normalizeCheckoutPaymentMethod :: "string \<Rightarrow> payment_method result" where
  "normalizeCheckoutPaymentMethod m =
     (if m = ''card'' then Inr PM_CREDIT_CARD
      else case List.find (\<lambda>k. payment_method_text k = m) SUPPORTED_METHODS of
             Some k \<Rightarrow> Inr k | None \<Rightarrow> Inl (Failure (''Unsupported payment method: '' @ m)))"

definition isNonOmiseCheckoutPaymentMethod :: "payment_method \<Rightarrow> bool" where
  "isNonOmiseCheckoutPaymentMethod m \<longleftrightarrow> m = PM_COD \<or> m = PM_BANK_TRANSFER"

definition isOmiseWalletPaymentMethod :: "payment_method \<Rightarrow> bool" where
  "isOmiseWalletPaymentMethod m \<longleftrightarrow> m = PM_TRUEMONEY \<or> m = PM_SHOPEEPAY"

datatype wallet_platform = WP_IOS | WP_ANDROID | WP_WEB

definition resolveOmiseWalletSource :: "payment_method \<Rightarrow> wallet_platform option \<Rightarrow> string \<times> wallet_platform option" where
  "resolveOmiseWalletSource m platform =
     (if m = PM_TRUEMONEY then ''truemoney_jumpapp'' else ''shopeepay_jumpapp'',
      if platform = Some WP_IOS \<or> platform = Some WP_ANDROID then platform else None)"

section \<open>Customer lookups\<close>

definition findCustomerById :: "db \<Rightarrow> string \<Rightarrow> customer_row option" where
  "findCustomerById s i = List.find (\<lambda>c. c_id c = i \<and> c_deletedAt c = None) (dbCustomers s)"

definition findActiveByPhone :: "db \<Rightarrow> string \<Rightarrow> customer_row option" where
  "findActiveByPhone s phone = (let values = guestPhoneLookupValues (normalizeThaiPhoneToLocal (Some phone)) in
     if values = [] then None
     else List.find (\<lambda>c. c_phone c \<in> set values \<and> c_deletedAt c = None) (dbCustomers s))"

definition findOtherActiveByPhone :: "db \<Rightarrow> string \<Rightarrow> string \<Rightarrow> customer_row option" where
  "findOtherActiveByPhone s phone excludeCustomerId = (case findActiveByPhone s phone of
     None \<Rightarrow> None | Some c \<Rightarrow> if c_id c = excludeCustomerId then None else Some c)"

text \<open>The regular expression \<open>^[^\s@]+@[^\s@]+\.[^\s@]+$\<close>: one at sign, no white space, and a dot
  inside the domain.\<close>

definition emailShape :: "string \<Rightarrow> bool" where
  "emailShape s \<longleftrightarrow> (let name = takeWhile (\<lambda>c. c \<noteq> CHR ''@'') s; domain = drop (Suc (length name)) s in
     name \<noteq> [] \<and> CHR ''@'' \<in> set s \<and> CHR ''@'' \<notin> set domain \<and> \<not> list_ex js_ws s \<and>
     CHR ''.'' \<in> set (butlast (tl domain)))"

definition updateCustomer :: "env \<Rightarrow> string \<Rightarrow> (customer_row \<Rightarrow> customer_row) \<Rightarrow> (db, unit) op" where
  "updateCustomer env i f = modM (\<lambda>s. s\<lparr>dbCustomers :=
     map (\<lambda>c. if c_id c = i then (f c)\<lparr>c_updatedAt := envNow env\<rparr> else c) (dbCustomers s)\<rparr>)"

definition setEmailIfMissing :: "env \<Rightarrow> string \<Rightarrow> string option \<Rightarrow> (db, bool) op" where
  "setEmailIfMissing env customerId email = (let trimmed = js_trim (nullish email []) in
     if trimmed = [] \<or> 254 < length trimmed \<or> CHR ''<'' \<in> set trimmed \<or> CHR ''>'' \<in> set trimmed then retM False
     else if \<not> emailShape trimmed then retM False
     else seqM (getM (\<lambda>s. findCustomerById s customerId)) (\<lambda>found. case found of
       None \<Rightarrow> retM False
     | Some c \<Rightarrow> if js_trim (nullish (c_email c) []) \<noteq> [] then retM False
                else seqM (updateCustomer env customerId (\<lambda>c. c\<lparr>c_email := Some trimmed\<rparr>)) (\<lambda>_. retM True)))"

definition guestOrderOf :: "string list \<Rightarrow> order_row \<Rightarrow> bool" where
  "guestOrderOf values ord \<longleftrightarrow> o_customerId ord = None \<and> (case o_guestPhone ord of None \<Rightarrow> False | Some p \<Rightarrow> p \<in> set values)"

definition latestWithEmail :: "db \<Rightarrow> string \<Rightarrow> order_row option" where
  "latestWithEmail s customerId = List.find (\<lambda>_. True)
     (sort_key (\<lambda>ord. - o_createdAt ord) (filter (\<lambda>ord. o_customerId ord = Some customerId \<and> o_guestEmail ord \<noteq> None) (dbOrders s)))"

definition backfillCustomerEmailFromOrders :: "env \<Rightarrow> string \<Rightarrow> (db, unit) op" where
  "backfillCustomerEmailFromOrders env customerId =
     seqM (getM (\<lambda>s. latestWithEmail s customerId)) (\<lambda>latest.
       (let email = js_trim (nullish (Option.bind latest o_guestEmail) []) in
        if email = [] then retM () else seqM (setEmailIfMissing env customerId (Some email)) (\<lambda>_. retM ())))"

definition mergeGuestOrders :: "env \<Rightarrow> string \<Rightarrow> string \<Rightarrow> (db, nat) op" where
  "mergeGuestOrders env customerId phone =
     (let values = guestPhoneLookupValues (normalizeThaiPhoneToLocal (Some phone)) in
      if values = [] then retM 0
      else seqM (getM (\<lambda>s. length (filter (guestOrderOf values) (dbOrders s)))) (\<lambda>affected.
           seqM (modM (\<lambda>s. s\<lparr>dbOrders := map (\<lambda>ord. if guestOrderOf values ord
               then ord\<lparr>o_customerId := Some customerId, o_updatedAt := envNow env\<rparr> else ord) (dbOrders s)\<rparr>)) (\<lambda>_.
           seqM (backfillCustomerEmailFromOrders env customerId) (\<lambda>_. retM affected))))"

section \<open>Lemmas\<close>

lemma digitsOf_Cons: "digitsOf (c # s) = (if 48 \<le> (of_char c :: nat) \<and> (of_char c :: nat) \<le> 57 then c # digitsOf s else digitsOf s)"
  by (simp add: digitsOf_def)

lemma digitsOf_idem [simp]: "digitsOf (digitsOf s) = digitsOf s"
  by (simp add: digitsOf_def)

lemma digitsOf_take [simp]: "digitsOf (take n (digitsOf s)) = take n (digitsOf s)"
  and digitsOf_drop [simp]: "digitsOf (drop n (digitsOf s)) = drop n (digitsOf s)"
  unfolding digitsOf_def by (auto intro!: filter_True dest: in_set_takeD in_set_dropD)

lemma subscriber_digits: "digitsOf (getThaiSubscriber s) = getThaiSubscriber s"
proof -
  have "digitsOf (take n (drop m (digitsOf s))) = take n (drop m (digitsOf s))" for n m
    unfolding digitsOf_def by (auto intro!: filter_True dest!: in_set_takeD in_set_dropD)
  then show ?thesis by (simp add: getThaiSubscriber_def Let_def)
qed

lemma subscriber_local:
  assumes "digitsOf sub = sub" and "length sub = THAI_SUBSCRIBER_LENGTH"
  shows "getThaiSubscriber (''0'' @ sub) = sub"
proof -
  have "digitsOf (''0'' @ sub) = CHR ''0'' # sub" using assms(1) by (simp add: digitsOf_Cons)
  then show ?thesis using assms(2) by (simp add: getThaiSubscriber_def startsWith_def)
qed

lemma js_trim_digits: "digitsOf s = s \<Longrightarrow> js_trim s = s"
proof -
  assume d: "digitsOf s = s"
  have "\<not> js_ws c" if "c \<in> set s" for c
  proof -
    have "c \<in> set (digitsOf s)" using that d by simp
    then have "48 \<le> (of_char c :: nat)" "(of_char c :: nat) \<le> 57" by (simp_all add: digitsOf_def)
    then show ?thesis by (auto simp: js_ws_def)
  qed
  then have "dropWhile js_ws xs = xs" if "set xs \<subseteq> set s" for xs using that by (cases xs) auto
  then show ?thesis by (simp add: js_trim_def)
qed

lemma js_trim_idem [simp]: "js_trim (js_trim s) = js_trim s"
proof -
  define u r where "u = dropWhile js_ws s" and "r = dropWhile js_ws (rev u)"
  have t: "js_trim s = rev r" by (simp add: js_trim_def u_def r_def)
  have r: "dropWhile js_ws r = r" by (simp add: r_def dropWhile_idem)
  have "dropWhile js_ws (rev r) = rev r"
  proof (cases "r = []")
    case False
    have "rev u = takeWhile js_ws (rev u) @ r" by (simp add: r_def)
    then have "last r = last (rev u)" using False by (metis last_appendR)
    moreover have "u \<noteq> []" using False by (auto simp: r_def)
    ultimately have "hd (rev r) = hd u" by (simp add: hd_rev last_rev)
    moreover have "\<not> js_ws (hd u)" using \<open>u \<noteq> []\<close> unfolding u_def by (rule hd_dropWhile)
    ultimately show ?thesis using False by (cases "rev r") auto
  qed simp
  then show ?thesis unfolding t by (simp add: js_trim_def r)
qed

text \<open>Normalising twice changes nothing, and the notations of one subscriber agree.\<close>

lemma normalize_idem: "normalizeThaiPhoneToLocal (Some (normalizeThaiPhoneToLocal v)) = normalizeThaiPhoneToLocal v"
proof -
  obtain t where t_def: "t = js_trim (nullish v [])" by blast
  have tt: "js_trim t = t" by (simp add: t_def)
  have norm: "normalizeThaiPhoneToLocal v = (if t = [] then [] else if startsWith t ''+'' \<and> \<not> startsWith t ''+66'' then t
      else if length (getThaiSubscriber t) = THAI_SUBSCRIBER_LENGTH then ''0'' @ getThaiSubscriber t else t)"
    unfolding normalizeThaiPhoneToLocal_def t_def Let_def by (rule refl)
  have again: "normalizeThaiPhoneToLocal (Some t) = normalizeThaiPhoneToLocal v"
    unfolding norm normalizeThaiPhoneToLocal_def [of "Some t"] by (simp add: tt Let_def)
  let ?l = "''0'' @ getThaiSubscriber t"
  have d: "digitsOf ?l = ?l" using subscriber_digits [of t] by (simp add: digitsOf_Cons)
  have "normalizeThaiPhoneToLocal (Some ?l) = ?l" if "length (getThaiSubscriber t) = THAI_SUBSCRIBER_LENGTH"
    using subscriber_local [OF subscriber_digits that] js_trim_digits [OF d] that
    by (simp add: normalizeThaiPhoneToLocal_def startsWith_def)
  note fixed = this
  show ?thesis
  proof (cases "normalizeThaiPhoneToLocal v = t")
    case True
    with again show ?thesis by simp
  next
    case False
    with norm have "normalizeThaiPhoneToLocal v = ?l" "length (getThaiSubscriber t) = THAI_SUBSCRIBER_LENGTH"
      by (auto split: if_splits)
    with fixed show ?thesis by simp
  qed
qed

lemma phone_forms_agree:
  assumes sub: "digitsOf sub = sub" "length sub = 9" "hd sub \<noteq> CHR ''0''"
  shows "normalizeThaiPhoneToLocal (Some (''0'' @ sub)) = ''0'' @ sub"
    "normalizeThaiPhoneToLocal (Some (''66'' @ sub)) = ''0'' @ sub"
    "normalizeThaiPhoneToLocal (Some (''+66'' @ sub)) = ''0'' @ sub"
    "normalizeThaiPhoneToLocal (Some (''+660'' @ sub)) = ''0'' @ sub"
proof -
  obtain c cs where s: "sub = c # cs" "c \<noteq> CHR ''0''" using sub by (cases sub) auto
  have trim: "js_trim (x @ sub) = x @ sub" if "\<not> js_ws (hd (x @ sub))" for x
  proof -
    have "\<not> js_ws d" if "d \<in> set sub" for d
    proof -
      have "d \<in> set (digitsOf sub)" using that sub(1) by simp
      then show ?thesis by (auto simp: digitsOf_def js_ws_def)
    qed
    moreover obtain ys y where "sub = ys @ [y]" using s(1) by (metis append_butlast_last_id list.distinct(1))
    ultimately have "dropWhile js_ws (rev (x @ sub)) = rev (x @ sub)" by simp
    moreover have "dropWhile js_ws (x @ sub) = x @ sub" using that s(1) by (cases "x @ sub") auto
    ultimately show ?thesis by (simp add: js_trim_def)
  qed
  note d = sub(1) sub(2)
  show "normalizeThaiPhoneToLocal (Some (''0'' @ sub)) = ''0'' @ sub"
    using trim [of "''0''"] d
    by (simp add: normalizeThaiPhoneToLocal_def js_ws_def startsWith_def getThaiSubscriber_def digitsOf_Cons THAI_SUBSCRIBER_LENGTH_def)
  show "normalizeThaiPhoneToLocal (Some (''66'' @ sub)) = ''0'' @ sub"
    using trim [of "''66''"] d s
    by (simp add: normalizeThaiPhoneToLocal_def js_ws_def startsWith_def getThaiSubscriber_def digitsOf_Cons THAI_SUBSCRIBER_LENGTH_def)
  show "normalizeThaiPhoneToLocal (Some (''+66'' @ sub)) = ''0'' @ sub"
    using trim [of "''+66''"] d s
    by (simp add: normalizeThaiPhoneToLocal_def js_ws_def startsWith_def getThaiSubscriber_def digitsOf_Cons THAI_SUBSCRIBER_LENGTH_def)
  show "normalizeThaiPhoneToLocal (Some (''+660'' @ sub)) = ''0'' @ sub"
    using trim [of "''+660''"] d s
    by (simp add: normalizeThaiPhoneToLocal_def js_ws_def startsWith_def getThaiSubscriber_def digitsOf_Cons THAI_SUBSCRIBER_LENGTH_def)
qed

end
