(* ===== verification/Orders.thy ===== *)
theory Orders
  imports Fulfillment Store_Hold Cart_Service Checkout_Util Sale_Pricing Promotion_Rules
begin

text \<open>
  \<^verbatim>\<open>src/src/modules/orders/orders.service.ts\<close>: placing an order (the cart check, the link of a guest
  checkout to a member, the address snapshot, prices, shipping and promotions, and the transaction
  that takes the stock and writes the rows), the status changes of the administration, and the
  address change. The generated order number and the random pay token are arguments, so is the
  hash of the token. Columns of type \<open>decimal(10, 2)\<close> round what is written to them.
\<close>

section \<open>Inputs\<close>

record order_item_input =
  oin_productId :: string
  oin_variantId :: "string option"
  oin_quantity :: int
  oin_price :: rat

record address_input =
  ai_recipientName :: string
  ai_recipientPhone :: string
  ai_addressLine1 :: string
  ai_addressLine2 :: "string option"
  ai_tumbon :: "string option"
  ai_amphoe :: string
  ai_city :: "string option"
  ai_province :: string
  ai_postalCode :: string

record shipping_selection =
  sl_storeId :: string
  sl_shippingOptionId :: string

record create_order_input =
  coi_items :: "order_item_input list"
  coi_savedAddressId :: "string option"
  coi_shippingAddress :: "address_input option"
  coi_promotionCode :: "string option"
  coi_platformPromotionCode :: "string option"
  coi_storePromotionCodes :: "string list option"
  coi_storeShipping :: "shipping_selection list option"
  coi_guestPhone :: "string option"
  coi_guestName :: "string option"
  coi_guestEmail :: "string option"
  coi_notes :: "string option"
  coi_paymentMethod :: string
  coi_sessionId :: "string option"
  coi_cartItemIds :: "string list option"

section \<open>Address, shipping and cart checks\<close>

record address_snapshot =
  as_savedAddressId :: "string option"
  as_fullName :: string
  as_phone :: string
  as_addressLine1 :: string
  as_addressLine2 :: "string option"
  as_tumbon :: "string option"
  as_amphoe :: string
  as_province :: string
  as_postalCode :: string

definition resolveAmphoe :: "address_input \<Rightarrow> string" where
  "resolveAmphoe a = (if ai_amphoe a \<noteq> [] then ai_amphoe a else nullish (ai_city a) [])"

definition resolveShippingSnapshot :: "db \<Rightarrow> string option \<Rightarrow> create_order_input \<Rightarrow> address_snapshot result" where
  "resolveShippingSnapshot s customerId dto =
     (if \<not> truthy (coi_savedAddressId dto) \<and> coi_shippingAddress dto = None
      then Inl (BadRequest ''SHIPPING_ADDRESS_REQUIRED'')
      else if truthy (coi_savedAddressId dto) then
        (if \<not> truthy customerId then Inl (BadRequest ''SAVED_ADDRESS_REQUIRES_LOGIN'')
         else case List.find (\<lambda>a. Some (sv_id a) = coi_savedAddressId dto \<and> Some (sv_customerId a) = customerId \<and>
                  sv_deletedAt a = None) (dbSavedAddresses s) of
           None \<Rightarrow> Inl (NotFound ''SAVED_ADDRESS_NOT_FOUND'')
         | Some a \<Rightarrow> Inr \<lparr>as_savedAddressId = Some (sv_id a), as_fullName = sv_fullName a, as_phone = sv_phone a,
             as_addressLine1 = sv_addressLine1 a, as_addressLine2 = sv_addressLine2 a, as_tumbon = sv_tumbon a,
             as_amphoe = sv_amphoe a, as_province = sv_province a, as_postalCode = sv_postalCode a\<rparr>)
      else let a = the (coi_shippingAddress dto) in
        if resolveAmphoe a = [] then Inl (BadRequest ''INVALID_SHIPPING_ADDRESS'')
        else Inr \<lparr>as_savedAddressId = None, as_fullName = ai_recipientName a,
             as_phone = normalizeThaiPhoneToLocal (Some (ai_recipientPhone a)), as_addressLine1 = ai_addressLine1 a,
             as_addressLine2 = ai_addressLine2 a, as_tumbon = ai_tumbon a, as_amphoe = resolveAmphoe a,
             as_province = ai_province a, as_postalCode = ai_postalCode a\<rparr>)"

record shipping_record =
  sr_storeId :: string
  sr_shippingOptionId :: string
  sr_optionName :: string
  sr_shippingFee :: money

definition shippingFor :: "db \<Rightarrow> shipping_selection list \<Rightarrow> string \<Rightarrow> shipping_record result" where
  "shippingFor s selections storeId = (case List.find (\<lambda>l. sl_storeId l = storeId) selections of
     None \<Rightarrow> Inl (BadRequest ''SHIPPING_OPTION_REQUIRED'')
   | Some l \<Rightarrow> (case List.find (\<lambda>opt. so_id opt = sl_shippingOptionId l \<and> so_storeId opt = storeId \<and> so_isActive opt \<and>
          so_deletedAt opt = None) (dbShippingOptions s) of
       None \<Rightarrow> Inl (BadRequest ''INVALID_SHIPPING_OPTION'')
     | Some opt \<Rightarrow> Inr \<lparr>sr_storeId = storeId, sr_shippingOptionId = so_id opt, sr_optionName = so_name opt,
         sr_shippingFee = so_price opt\<rparr>))"

definition resolveStoreShipping :: "string list \<Rightarrow> shipping_selection list option \<Rightarrow> (db, shipping_record list) op" where
  "resolveStoreShipping storeIds selections =
     (if nullish selections [] = [] then retM []
      else forM (\<lambda>storeId. readM (\<lambda>s. shippingFor s (the selections) storeId)) storeIds)"

definition assertCartLinesStillPresent :: "env \<Rightarrow> create_order_input \<Rightarrow> string option \<Rightarrow> (db, unit) op" where
  "assertCartLinesStillPresent env dto customerId = (let ids = nullish (coi_cartItemIds dto) [] in
     if ids = [] then retM ()
     else seqM (getCart env customerId (coi_sessionId dto)) (\<lambda>view.
       (let items = cv_items view;
            cartVariantIds = {ci_variantId i |i. i \<in> set items \<and> ci_id i \<in> set ids \<and> ci_variantId i \<noteq> []};
            orderVariantIds = {v. \<exists>i \<in> set (coi_items dto). oin_variantId i = Some v \<and> v \<noteq> []}
        in seqM (failIf (\<not> set ids \<subseteq> ci_id ` set items) (BadRequest ''CART_ITEMS_STALE'')) (\<lambda>_.
             failIf (orderVariantIds \<noteq> cartVariantIds) (BadRequest ''CART_ITEMS_MISMATCH'')))))"

section \<open>Pricing\<close>

record order_line =
  ln_variant :: variant_row
  ln_product :: product_row
  ln_quantity :: int
  ln_catalogUnit :: money
  ln_unitPrice :: money
  ln_saleCampaignId :: "string option"
  ln_saleDiscountPercent :: "rat option"

definition catalogUnitOf :: "product_row \<Rightarrow> variant_row \<Rightarrow> money" where
  "catalogUnitOf p v = roundMoney (p_basePrice p + v_priceAdjustment v)"

definition orderLine :: "db \<Rightarrow> order_item_input \<Rightarrow> order_line result" where
  "orderLine s item =
     (if \<not> truthy (oin_variantId item) then Inl (BadRequest ''VARIANT_REQUIRED'')
      else case liveVariant s (the (oin_variantId item)) of
        None \<Rightarrow> Inl (BadRequest ''VARIANT_NOT_FOUND'')
      | Some v \<Rightarrow> (case liveProduct s (v_productId v) of
          None \<Rightarrow> Inl (BadRequest ''VARIANT_NOT_FOUND'')
        | Some p \<Rightarrow>
            if v_retiredAt v \<noteq> None then Inl (BadRequest ''VARIANT_NOT_FOUND'')
            else if (case liveStore s (p_storeId p) of None \<Rightarrow> False | Some st \<Rightarrow> st_status st = ST_SUSPENDED)
            then Inl (BadRequest ''ORDER_CONTAINS_SUSPENDED_STORE'')
            else Inr \<lparr>ln_variant = v, ln_product = p, ln_quantity = oin_quantity item,
               ln_catalogUnit = catalogUnitOf p v, ln_unitPrice = catalogUnitOf p v,
               ln_saleCampaignId = None, ln_saleDiscountPercent = None\<rparr>))"

definition priceLineOf :: "order_line \<Rightarrow> price_line" where
  "priceLineOf l = \<lparr>pl_productId = p_id (ln_product l), pl_variantId = v_id (ln_variant l), pl_catalogUnit = ln_catalogUnit l\<rparr>"

definition repriceLine :: "(string \<rightharpoonup> effective_unit_price) \<Rightarrow> order_line \<Rightarrow> order_line" where
  "repriceLine prices l = (case prices (v_id (ln_variant l)) of
     None \<Rightarrow> l
   | Some e \<Rightarrow> l\<lparr>ln_catalogUnit := eu_catalogUnitPrice e, ln_unitPrice := eu_unitPrice e,
       ln_saleCampaignId := eu_saleCampaignId e, ln_saleDiscountPercent := eu_saleDiscountPercent e\<rparr>)"

definition priceOrder :: "env \<Rightarrow> order_item_input list \<Rightarrow> (db, order_line list) op" where
  "priceOrder env items =
     seqM (forM (\<lambda>item. readM (\<lambda>s. orderLine s item)) items) (\<lambda>lines.
     seqM (getM (resolveEffectiveUnitPrices env (map priceLineOf lines))) (\<lambda>prices.
       retM (map (repriceLine prices) lines)))"

definition lineAmount :: "order_line \<Rightarrow> money" where
  "lineAmount l = ln_unitPrice l * of_int (ln_quantity l)"

definition orderSubtotal :: "order_line list \<Rightarrow> money" where
  "orderSubtotal lines = (\<Sum>l\<leftarrow>lines. lineAmount l)"

definition lineStore :: "order_line \<Rightarrow> string" where
  "lineStore l = p_storeId (ln_product l)"

definition storeSubtotals :: "order_line list \<Rightarrow> string \<rightharpoonup> money" where
  "storeSubtotals lines = (\<lambda>i. if i \<in> lineStore ` set lines
     then Some (orderSubtotal (filter (\<lambda>l. lineStore l = i) lines)) else None)"

definition promotionLine :: "order_line \<Rightarrow> cart_line" where
  "promotionLine l = \<lparr>cl_productId = p_id (ln_product l), cl_variantId = Some (v_id (ln_variant l)),
     cl_quantity = of_int (ln_quantity l), cl_unitPrice = ln_unitPrice l\<rparr>"

record order_quote =
  oq_subtotal :: money
  oq_shippingFee :: money
  oq_shippings :: "shipping_record list"
  oq_discount :: money
  oq_promotions :: "promotion_row list"
  oq_discounts :: "string \<rightharpoonup> money"

definition orderCodes :: "create_order_input \<Rightarrow> string list" where
  "orderCodes dto = (case coi_storePromotionCodes dto of Some cs \<Rightarrow> cs
     | None \<Rightarrow> if truthy (coi_promotionCode dto) then [the (coi_promotionCode dto)] else [])"

definition quoteOrder ::
    "env \<Rightarrow> create_order_input \<Rightarrow> string option \<Rightarrow> string option \<Rightarrow> order_line list \<Rightarrow> (db, order_quote) op" where
  "quoteOrder env dto customerId phone lines =
     (let subtotal = orderSubtotal lines in
      seqM (resolveStoreShipping (uniq (map lineStore lines)) (coi_storeShipping dto)) (\<lambda>records.
      (let fee = (\<Sum>r\<leftarrow>records. sr_shippingFee r);
           plain = \<lparr>oq_subtotal = subtotal, oq_shippingFee = fee, oq_shippings = records, oq_discount = 0,
                    oq_promotions = [], oq_discounts = Map.empty\<rparr>
       in if \<not> truthy (coi_platformPromotionCode dto) \<and> orderCodes dto = [] then retM plain
          else seqM (readM (\<lambda>s. fst (applyStackedPromotions env s subtotal (storeSubtotals lines) (coi_platformPromotionCode dto)
                 (Some (orderCodes dto))
                 (if truthy customerId then Some \<lparr>cid_customerId = customerId, cid_guestPhone = None\<rparr>
                  else if truthy phone then Some \<lparr>cid_customerId = None, cid_guestPhone = phone\<rparr> else None)
                 \<lparr>vo_lines = Some (map promotionLine lines), vo_mode = Apply, vo_shippingFee = Some fee,
                  vo_storeShippingFees = Some (map_of (rev (map (\<lambda>r. (sr_storeId r, sr_shippingFee r)) records))),
                  vo_requiredScope = None\<rparr> None))) (\<lambda>d.
               retM (plain\<lparr>oq_discount := sd_discountAmount d, oq_promotions := sd_promotions d,
                 oq_discounts := sd_discountsByPromotionId d\<rparr>)))))"

section \<open>Placing an order\<close>

text \<open>What a \<open>decimal(10, 2)\<close> column stores: the nearest cent, halves away from zero.\<close>

definition toDecimal2 :: "money \<Rightarrow> money" where
  "toDecimal2 v = (if v < 0 then - roundMoney (- v) else roundMoney v)"

record order_secrets =
  os_orderNumber :: string
  os_token :: string
  os_hash :: "string \<Rightarrow> string"

definition newOrderRow ::
    "env \<Rightarrow> order_secrets \<Rightarrow> create_order_input \<Rightarrow> string option \<Rightarrow> string option \<Rightarrow> string option \<Rightarrow> guest_pay_token_issue option
       \<Rightarrow> payment_method \<Rightarrow> order_quote \<Rightarrow> string \<Rightarrow> order_row" where
  "newOrderRow env sec dto linkedId phone email issue method quote i = \<lparr>o_id = i, o_orderNumber = os_orderNumber sec,
     o_customerId = linkedId, o_guestPhone = phone, o_guestName = coi_guestName dto, o_guestEmail = email,
     o_guestPayTokenHash = map_option gt_hash issue, o_guestPayTokenExpiresAt = map_option gt_expiresAt issue,
     o_status = OS_PENDING_PAYMENT, o_previousStatus = None, o_subtotal = toDecimal2 (oq_subtotal quote),
     o_discountAmount = toDecimal2 (oq_discount quote), o_shippingFee = toDecimal2 (oq_shippingFee quote),
     o_total = toDecimal2 (oq_subtotal quote + oq_shippingFee quote - oq_discount quote), o_paymentMethod = method,
     o_paymentReference = None, o_paidAt = None, o_notes = coi_notes dto, o_sourceDisputeId = None,
     o_source = DS_PLATFORM, o_createdAt = envNow env, o_updatedAt = envNow env\<rparr>"

definition insertOrder :: "order_row \<Rightarrow> (db, unit) op" where
  "insertOrder row = seqM (getM (\<lambda>s. o_orderNumber row \<in> o_orderNumber ` set (dbOrders s))) (\<lambda>taken.
     seqM (failIf taken (Failure ''duplicate key'')) (\<lambda>_.
       modM (\<lambda>s. s\<lparr>dbOrders := dbOrders s @ [row]\<rparr>)))"

definition insertAddress :: "env \<Rightarrow> string \<Rightarrow> address_snapshot \<Rightarrow> (db, unit) op" where
  "insertAddress env orderId a = seqM (freshId env) (\<lambda>i. modM (\<lambda>s. s\<lparr>dbShippingAddresses := dbShippingAddresses s @
     [\<lparr>sa_id = i, sa_orderId = orderId, sa_savedAddressId = as_savedAddressId a, sa_fullName = as_fullName a,
       sa_phone = as_phone a, sa_addressLine1 = as_addressLine1 a, sa_addressLine2 = as_addressLine2 a,
       sa_tumbon = as_tumbon a, sa_amphoe = as_amphoe a, sa_province = as_province a, sa_postalCode = as_postalCode a,
       sa_createdAt = envNow env\<rparr>]\<rparr>))"

definition insertStoreShipping :: "env \<Rightarrow> string \<Rightarrow> shipping_record \<Rightarrow> (db, unit) op" where
  "insertStoreShipping env orderId r = seqM (freshId env) (\<lambda>i. modM (\<lambda>s. s\<lparr>dbShippings := dbShippings s @
     [\<lparr>ss_id = i, ss_orderId = orderId, ss_storeId = sr_storeId r, ss_shippingOptionId = sr_shippingOptionId r,
       ss_optionName = sr_optionName r, ss_shippingFee = toDecimal2 (sr_shippingFee r), ss_createdAt = envNow env\<rparr>]\<rparr>))"

text \<open>The price a line has now, under the lock of its variant.\<close>

definition livePrice :: "env \<Rightarrow> db \<Rightarrow> product_row \<Rightarrow> variant_row \<Rightarrow> money \<times> money" where
  "livePrice env s p v = (let liveCatalog = catalogUnitOf p v;
       resolved = resolveEffectiveUnitPrices env
         [\<lparr>pl_productId = p_id p, pl_variantId = v_id v, pl_catalogUnit = liveCatalog\<rparr>] s (v_id v)
     in (liveCatalog, case resolved of None \<Rightarrow> liveCatalog | Some e \<Rightarrow> eu_unitPrice e))"

definition newItemRow :: "env \<Rightarrow> string \<Rightarrow> product_row \<Rightarrow> variant_row \<Rightarrow> order_line \<Rightarrow> string \<Rightarrow> item_row" where
  "newItemRow env orderId p v l i = \<lparr>oi_id = i, oi_orderId = orderId, oi_storeId = p_storeId p, oi_variantId = v_id v,
     oi_productName = p_name p, oi_variantOptions = v_options v, oi_unitPrice = toDecimal2 (ln_unitPrice l),
     oi_catalogUnitPrice = Some (toDecimal2 (ln_catalogUnit l)), oi_saleCampaignId = ln_saleCampaignId l,
     oi_saleDiscountPercent = ln_saleDiscountPercent l, oi_quantity = ln_quantity l,
     oi_subtotal = toDecimal2 (lineAmount l), oi_fulfillmentStatus = FS_PENDING,
     oi_previousFulfillmentStatus = None, oi_holdStartedAt = None, oi_trackingNumber = None,
     oi_fulfillmentProvider = None, oi_trackingUrl = None, oi_shippedAt = None, oi_deliveredAt = None,
     oi_createdAt = envNow env, oi_updatedAt = envNow env\<rparr>"

text \<open>One turn of the loop over the lines: the stock is taken and the row of the line, still without
  an id, is prepared.\<close>

definition reserveLine :: "env \<Rightarrow> string \<Rightarrow> order_line \<Rightarrow> (db, string \<Rightarrow> item_row) op" where
  "reserveLine env orderId l = seqM (getM (\<lambda>s. liveVariant s (v_id (ln_variant l)))) (\<lambda>found. case found of
     None \<Rightarrow> raiseM (BadRequest ''VARIANT_NOT_FOUND'')
   | Some v \<Rightarrow>
       seqM (failIf (v_retiredAt v \<noteq> None) (BadRequest ''VARIANT_NOT_FOUND'')) (\<lambda>_.
       seqM (getM (\<lambda>s. liveProduct s (v_productId v))) (\<lambda>product. case product of
         None \<Rightarrow> raiseM (BadRequest ''VARIANT_NOT_FOUND'')
       | Some p \<Rightarrow>
           seqM (getM (\<lambda>s. livePrice env s p v)) (\<lambda>(liveCatalog, liveUnit).
           seqM (failIf (9 / 1000 < \<bar>liveCatalog - ln_catalogUnit l\<bar> \<or> 9 / 1000 < \<bar>liveUnit - ln_unitPrice l\<bar>)
                   (BadRequest ''PRICE_CHANGED'')) (\<lambda>_.
           (let newStock = v_stockQuantity v - ln_quantity l in
            seqM (failIf (newStock < 0) (BadRequest ''INSUFFICIENT_STOCK'')) (\<lambda>_.
            seqM (modM (setStock env (v_id v) newStock)) (\<lambda>_.
            seqM (recordTx env (v_id v) IT_SALE (- ln_quantity l) newStock orderId None) (\<lambda>_.
              retM (newItemRow env orderId p v l))))))))))"

definition insertItem :: "env \<Rightarrow> (string \<Rightarrow> item_row) \<Rightarrow> (db, unit) op" where
  "insertItem env row = seqM (freshId env) (\<lambda>i. modM (\<lambda>s. s\<lparr>dbItems := dbItems s @ [row i]\<rparr>))"

definition recordPlaced :: "env \<Rightarrow> create_order_input \<Rightarrow> order_row \<Rightarrow> (db, unit) op" where
  "recordPlaced env dto ord =
     seqM (freshId env) (\<lambda>i.
     seqM (modM (\<lambda>s. s\<lparr>dbHistory := dbHistory s @ [\<lparr>h_id = i, h_orderId = o_id ord, h_status = OS_PENDING_PAYMENT,
       h_changedBy = None, h_notes = None, h_createdAt = envNow env\<rparr>]\<rparr>)) (\<lambda>_.
     seqM (getM (\<lambda>s. resolveCustomerActorLabel s (o_customerId ord) (coi_guestName dto))) (\<lambda>label.
       appendAudit env (o_id ord) AE_ORDER_PLACED AA_customer (o_customerId ord) (Some label) None
         (JObj [(''paymentMethod'', JStr (payment_method_text (o_paymentMethod ord)))]))))"

definition usePromotion :: "env \<Rightarrow> string \<Rightarrow> (string \<rightharpoonup> money) \<Rightarrow> promotion_row \<Rightarrow> (db, unit) op" where
  "usePromotion env orderId discounts p = seqM (freshId env) (\<lambda>i. modM (\<lambda>s. s\<lparr>
     dbPromotionUsages := dbPromotionUsages s @ [\<lparr>pu_id = i, pu_promotionId = pm_id p, pu_orderId = orderId,
       pu_discountAmount = toDecimal2 (nullish (discounts (pm_id p)) 0), pu_createdAt = envNow env\<rparr>],
     dbPromotions := map (\<lambda>q. if pm_id q = pm_id p
       then q\<lparr>pm_usageCount := pm_usageCount q + 1, pm_updatedAt := envNow env\<rparr> else q) (dbPromotions s)\<rparr>))"

definition publishOrderActivity :: "string \<Rightarrow> item_row list \<Rightarrow> (db, unit) op" where
  "publishOrderActivity orderId items = (let storeIds = uniq (filter (\<lambda>i. i \<noteq> []) (map oi_storeId items)) in
     seqM (getM (\<lambda>s. filter (\<lambda>i. i \<noteq> []) (map st_ownerId (filter (\<lambda>st. st_id st \<in> set storeIds \<and> st_deletedAt st = None)
            (dbStores s))))) (\<lambda>ownerIds.
       emit (DashboardOrder orderId (case storeIds of [] \<Rightarrow> None | i # _ \<Rightarrow> Some i) ownerIds)))"

text \<open>The transaction. The three calls at its end are not awaited and their failures are swallowed.\<close>

definition placeLines ::
    "env \<Rightarrow> create_order_input \<Rightarrow> order_line list \<Rightarrow> order_quote \<Rightarrow> order_row \<Rightarrow> (db, unit) op" where
  "placeLines env dto lines quote ord =
     seqM (forM (insertStoreShipping env (o_id ord)) (oq_shippings quote)) (\<lambda>_.
     seqM (forM (reserveLine env (o_id ord)) lines) (\<lambda>rows.
     seqM (forM (insertItem env) rows) (\<lambda>_.
     seqM (recordPlaced env dto ord) (\<lambda>_.
     seqM (forM (usePromotion env (o_id ord) (oq_discounts quote)) (oq_promotions quote)) (\<lambda>_.
     seqM (emit (NotifyVendorsNewOrder (o_id ord))) (\<lambda>_.
     seqM (emit (VendorWebhook (o_id ord) ''order.create'')) (\<lambda>_.
       publishOrderActivity (o_id ord) (map (\<lambda>r. r []) rows))))))))"

definition placeOrder ::
    "env \<Rightarrow> create_order_input \<Rightarrow> address_snapshot \<Rightarrow> order_line list \<Rightarrow> order_quote \<Rightarrow> (string \<Rightarrow> order_row) \<Rightarrow> (db, string) op" where
  "placeOrder env dto address lines quote mkRow =
     seqM (freshId env) (\<lambda>orderId.
     seqM (insertOrder (mkRow orderId)) (\<lambda>_.
     seqM (insertAddress env orderId address) (\<lambda>_.
     seqM (placeLines env dto lines quote (mkRow orderId)) (\<lambda>_.
       retM orderId))))"

text \<open>\<open>findOne\<close>\<close>

definition findOneOrder :: "string \<Rightarrow> (db, order_view) op" where
  "findOneOrder orderId = loadOrderWithItems orderId"

definition linkGuest :: "db \<Rightarrow> string option \<Rightarrow> string option \<Rightarrow> string option" where
  "linkGuest s customerId phone = (if \<not> truthy customerId \<and> truthy phone
     then map_option c_id (findActiveByPhone s (the phone)) else customerId)"

definition createOrder ::
    "env \<Rightarrow> order_secrets \<Rightarrow> create_order_input \<Rightarrow> string option \<Rightarrow> (db, order_view \<times> string option) op" where
  "createOrder env sec dto customerId =
     (let phone = (if truthy (coi_guestPhone dto) then Some (normalizeThaiPhoneToLocal (coi_guestPhone dto)) else None);
          trimmed = js_trim (nullish (coi_guestEmail dto) []);
          email = (if trimmed = [] then None else Some trimmed);
          issue = (if \<not> truthy customerId \<and> truthy phone
                   then Some (issueGuestPayToken (os_hash sec) (os_token sec) (envNow env) GUEST_PAY_TOKEN_TTL_MS) else None);
          ids = nullish (coi_cartItemIds dto) []
      in
      seqM (liftM (normalizeCheckoutPaymentMethod (coi_paymentMethod dto))) (\<lambda>method.
      seqM (failIf (\<not> truthy customerId \<and> \<not> truthy phone) (BadRequest ''GUEST_PHONE_REQUIRED'')) (\<lambda>_.
      seqM (assertCartLinesStillPresent env dto customerId) (\<lambda>_.
      seqM (getM (\<lambda>s. linkGuest s customerId phone)) (\<lambda>linkedId.
      seqM (if truthy linkedId \<and> email \<noteq> None then seqM (setEmailIfMissing env (the linkedId) email) (\<lambda>_. retM ()) else retM ()) (\<lambda>_.
      seqM (readM (\<lambda>s. resolveShippingSnapshot s customerId dto)) (\<lambda>address.
      seqM (priceOrder env (coi_items dto)) (\<lambda>lines.
      seqM (quoteOrder env dto customerId phone lines) (\<lambda>quote.
      seqM (txnM (placeOrder env dto address lines quote
              (newOrderRow env sec dto linkedId phone email issue method quote))) (\<lambda>orderId.
      seqM (if ids = [] then retM () else seqM (removeItems env ids customerId (coi_sessionId dto)) (\<lambda>_. retM ())) (\<lambda>_.
      seqM (findOneOrder orderId) (\<lambda>created.
        retM (created, map_option gt_plaintext issue)))))))))))))"

section \<open>Status changes by the administration\<close>

definition isAdminHoldExit :: "order_row \<Rightarrow> item_row list \<Rightarrow> order_status \<Rightarrow> bool" where
  "isAdminHoldExit ord items status \<longleftrightarrow> (status = OS_CANCELLED \<or> status = OS_REFUNDED) \<and>
     (o_status ord = OS_ON_HOLD \<or> (\<exists>i \<in> set items. oi_fulfillmentStatus i = FS_ON_HOLD))"

definition exitHold :: "env \<Rightarrow> item_row \<Rightarrow> item_row" where
  "exitHold env i = (if oi_fulfillmentStatus i = FS_ON_HOLD then cancelItem env i
     else i\<lparr>oi_fulfillmentStatus := FS_CANCELLED, oi_updatedAt := envNow env\<rparr>)"

definition statusNote :: "order_status \<Rightarrow> order_status \<Rightarrow> string" where
  "statusNote a b = ''Status changed from '' @ order_status_text a @ '' to '' @ order_status_text b"

definition updateStatusCommit :: "env \<Rightarrow> order_row \<Rightarrow> item_row list \<Rightarrow> order_status \<Rightarrow> string option \<Rightarrow> (db, unit) op" where
  "updateStatusCommit env ord items status userId =
     (let exit = isAdminHoldExit ord items status;
          ord' = ord\<lparr>o_status := status, o_paidAt := (if status = OS_PAID then Some (envNow env) else o_paidAt ord),
                    o_previousStatus := (if exit then None else o_previousStatus ord)\<rparr>
      in seqM (if exit then saveItems env (map (exitHold env) items) else retM ()) (\<lambda>_.
         seqM (saveOrder env ord') (\<lambda>_.
         seqM (if status = OS_CANCELLED \<or> status = OS_REFUNDED
               then seqM (restoreOrderStock env (o_id ord) (Some (''Order status changed to '' @ order_status_text status))) (\<lambda>_. retM ())
               else retM ()) (\<lambda>_.
           addHistory env (o_id ord) status userId (statusNote (o_status ord) status)))))"

definition updateOrderStatus :: "env \<Rightarrow> string \<Rightarrow> order_status \<Rightarrow> string option \<Rightarrow> (db, order_view) op" where
  "updateOrderStatus env orderId status userId =
     seqM (findOneOrder orderId) (\<lambda>(ord, items).
     seqM (failIf (o_paymentMethod ord = PM_BANK_TRANSFER \<and> o_status ord = OS_PENDING_PAYMENT \<and> status = OS_PAID)
             (BadRequest ''USE_CONFIRM_BANK_TRANSFER'')) (\<lambda>_.
     seqM (liftM (assertNotManualHoldTransition (o_status ord) status)) (\<lambda>_.
     seqM (txnM (updateStatusCommit env ord items status userId)) (\<lambda>_.
     seqM (findOneOrder orderId) (\<lambda>saved.
     seqM (notifyOrderStatusChanged env orderId status) (\<lambda>_.
     seqM (emit (NotifyVendorsStatus orderId status)) (\<lambda>_.
     seqM (publishOrderActivity orderId (snd saved)) (\<lambda>_.
     seqM (if o_status ord = status then retM ()
           else case webhookEventForOrderStatus status of None \<Rightarrow> retM () | Some ev \<Rightarrow> emit (VendorWebhook orderId ev)) (\<lambda>_.
       retM saved)))))))))"

record address_update =
  au_fullName :: string
  au_phone :: string
  au_addressLine1 :: string
  au_addressLine2 :: "string option"
  au_tumbon :: "string option"
  au_amphoe :: string
  au_province :: string
  au_postalCode :: string

definition trimToNull :: "string option \<Rightarrow> string option" where
  "trimToNull x = (let t = js_trim (nullish x []) in if t = [] then None else Some t)"

definition updateShippingAddressAsAdmin :: "string \<Rightarrow> address_update \<Rightarrow> (db, order_view) op" where
  "updateShippingAddressAsAdmin orderId u =
     seqM (findOneOrder orderId) (\<lambda>_.
     seqM (getM (\<lambda>s. List.find (\<lambda>a. sa_orderId a = orderId) (dbShippingAddresses s))) (\<lambda>found. case found of
       None \<Rightarrow> raiseM (NotFound ''SHIPPING_ADDRESS_NOT_FOUND'')
     | Some a \<Rightarrow>
         seqM (modM (\<lambda>s. s\<lparr>dbShippingAddresses := saveRow sa_id (a\<lparr>sa_fullName := js_trim (au_fullName u),
           sa_phone := normalizeThaiPhoneToLocal (Some (au_phone u)), sa_addressLine1 := js_trim (au_addressLine1 u),
           sa_addressLine2 := trimToNull (au_addressLine2 u), sa_tumbon := trimToNull (au_tumbon u),
           sa_amphoe := js_trim (au_amphoe u), sa_province := js_trim (au_province u),
           sa_postalCode := js_trim (au_postalCode u)\<rparr>) (dbShippingAddresses s)\<rparr>)) (\<lambda>_.
           findOneOrder orderId)))"

section \<open>What the steps leave alone\<close>

text \<open>Before the transaction only the cart, the customer and the id counter change.\<close>

definition sameShop :: "db \<Rightarrow> db \<Rightarrow> bool" where
  "sameShop s t \<longleftrightarrow> dbOrders t = dbOrders s \<and> dbItems t = dbItems s \<and> dbShippings t = dbShippings s \<and>
     dbVariants t = dbVariants s \<and> dbProducts t = dbProducts s \<and> dbStores t = dbStores s \<and>
     dbInventoryTxs t = dbInventoryTxs s \<and> dbPromotions t = dbPromotions s \<and> dbPromotionUsages t = dbPromotionUsages s \<and>
     dbSaleCampaigns t = dbSaleCampaigns s \<and> dbSaleCampaignItems t = dbSaleCampaignItems s \<and>
     dbShippingOptions t = dbShippingOptions s \<and> dbSavedAddresses t = dbSavedAddresses s \<and>
     idCount s \<le> idCount t"

lemma sameShop_refl [simp]: "sameShop s s"
  by (simp add: sameShop_def)

lemma sameShop_trans: "sameShop s t \<Longrightarrow> sameShop t u \<Longrightarrow> sameShop s u"
  by (simp add: sameShop_def)

lemma sameShop_upd [simp]:
  "sameShop s (t\<lparr>dbCarts := cs\<rparr>) = sameShop s t"
  "sameShop s (t\<lparr>dbCartItems := is\<rparr>) = sameShop s t"
  "sameShop s (t\<lparr>dbCustomers := us\<rparr>) = sameShop s t"
  "sameShop s t \<Longrightarrow> sameShop s (t\<lparr>idCount := Suc (idCount t)\<rparr>)"
  by (auto simp: sameShop_def)

lemma saveCartItem_shop [pres]: "preserves (sameShop s) (saveCartItem env i)"
  unfolding saveCartItem_def by (auto intro!: pres)

lemma deleteCartItems_shop [pres]: "preserves (sameShop s) (deleteCartItems P)"
  unfolding deleteCartItems_def by (auto intro!: pres)

lemma resolveCart_shop [pres]: "preserves (sameShop s) (resolveCart env cid sid)"
  unfolding resolveCart_def by (auto intro!: pres)

lemma getCart_shop [pres]: "preserves (sameShop s) (getCart env cid sid)"
  unfolding getCart_def purgeUnavailableItems_def capQuantitiesToStock_def capOne_def
  by (auto intro!: pres split: prod.split)

lemma removeItems_shop [pres]: "preserves (sameShop s) (removeItems env ids cid sid)"
  unfolding removeItems_def by (auto intro!: pres split: prod.split)

lemma setEmailIfMissing_shop [pres]: "preserves (sameShop s) (setEmailIfMissing env i email)"
  unfolding setEmailIfMissing_def updateCustomer_def Let_def by (auto intro!: pres)

lemma assertCartLines_shop [pres]: "preserves (sameShop s) (assertCartLinesStillPresent env dto cid)"
  unfolding assertCartLinesStillPresent_def Let_def by (auto intro!: pres)

text \<open>A step that preserves \<open>sameShop\<close> only hands on the shop it has found.\<close>

lemma wp_sameShop:
  assumes "preserves (sameShop s) m" and "\<And>x t. sameShop s t \<Longrightarrow> Q x t" and "\<And>e t. sameShop s t \<Longrightarrow> E e t"
  shows "wp m Q E s"
  using assms by (intro wp_conseq [OF preserves_wp [THEN iffD1, OF assms(1), rule_format]]) auto

section \<open>Taking the stock\<close>

definition lineVariant :: "order_line \<Rightarrow> string" where
  "lineVariant l = v_id (ln_variant l)"

definition takenBy :: "order_line list \<Rightarrow> string \<Rightarrow> int" where
  "takenBy lines w = (\<Sum>l\<leftarrow>lines. if lineVariant l = w then ln_quantity l else 0)"

text \<open>The row prepared for a line, with the store and the name its product has in the database.\<close>

definition rowFor :: "env \<Rightarrow> db \<Rightarrow> string \<Rightarrow> order_line \<Rightarrow> (string \<Rightarrow> item_row) \<Rightarrow> bool" where
  "rowFor env s orderId l row \<longleftrightarrow> (\<exists>v p v0. liveVariant s (lineVariant l) = Some v0 \<and> liveProduct s (v_productId v0) = Some p \<and>
     v_id v = lineVariant l \<and> v_options v = v_options v0 \<and> row = newItemRow env orderId p v l)"

definition tookStock :: "env \<Rightarrow> string \<Rightarrow> order_line list \<Rightarrow> (string \<Rightarrow> item_row) list \<Rightarrow> db \<Rightarrow> db \<Rightarrow> bool" where
  "tookStock env orderId lines rows s t \<longleftrightarrow>
     (\<forall>w. stockOf t w = map_option (\<lambda>q. q - takenBy lines w) (stockOf s w)) \<and>
     (\<forall>l \<in> set lines. \<exists>q \<ge> 0. stockOf t (lineVariant l) = Some q) \<and>
     list_all2 (rowFor env s orderId) lines rows \<and>
     alreadyRestored t = alreadyRestored s \<and> idCount s \<le> idCount t \<and>
     t = s\<lparr>dbVariants := dbVariants t, dbInventoryTxs := dbInventoryTxs t, idCount := idCount t\<rparr> \<and>
     (\<forall>w. map_option (\<lambda>v. v\<lparr>v_stockQuantity := 0, v_updatedAt := 0\<rparr>) (liveVariant t w) =
          map_option (\<lambda>v. v\<lparr>v_stockQuantity := 0, v_updatedAt := 0\<rparr>) (liveVariant s w))"

lemma tookStock_nil: "tookStock env orderId [] [] s s"
  by (simp add: tookStock_def takenBy_def option.map_ident)

lemma liveVariant_setStock:
  "liveVariant (setStock env i q s) w = map_option (\<lambda>v. if w = i then v\<lparr>v_stockQuantity := q, v_updatedAt := envNow env\<rparr> else v)
     (liveVariant s w)"
proof -
  have "List.find (\<lambda>v. v_id v = w \<and> v_deletedAt v = None)
      (map (\<lambda>v. if v_id v = i then v\<lparr>v_stockQuantity := q, v_updatedAt := envNow env\<rparr> else v) vs) =
    map_option (\<lambda>v. if w = i then v\<lparr>v_stockQuantity := q, v_updatedAt := envNow env\<rparr> else v)
      (List.find (\<lambda>v. v_id v = w \<and> v_deletedAt v = None) vs)" for vs
    by (induction vs) auto
  then show ?thesis by (simp add: liveVariant_def setStock_def)
qed

lemma reserveLine_wp:
  assumes "\<And>e t. E e t" and "\<And>row t. tookStock env orderId [l] [row] s t \<Longrightarrow> Q row t"
  shows "wp (reserveLine env orderId l) Q E s"
proof (cases "liveVariant s (v_id (ln_variant l))")
  case None
  then show ?thesis using assms(1) by (simp add: reserveLine_def wp)
next
  case (Some v)
  have id: "v_id v = lineVariant l" using liveVariant_Some [OF Some] by (simp add: lineVariant_def)
  show ?thesis
  proof (cases "liveProduct s (v_productId v)")
    case None
    then show ?thesis using Some assms(1) by (simp add: reserveLine_def wp)
  next
    case p: (Some p)
    let ?q = "v_stockQuantity v - ln_quantity l"
    define t where "t = snd (recordTx env (v_id v) IT_SALE (- ln_quantity l) ?q orderId None (setStock env (v_id v) ?q s))"
    have t: "t = s\<lparr>dbVariants := dbVariants (setStock env (v_id v) ?q s), dbInventoryTxs := dbInventoryTxs t, idCount := Suc (idCount s)\<rparr>"
      "recordTx env (v_id v) IT_SALE (- ln_quantity l) ?q orderId None (setStock env (v_id v) ?q s) = (Inr (), t)"
      by (simp_all add: t_def recordTx_def setStock_def)
    have live: "liveVariant t = liveVariant (setStock env (v_id v) ?q s)"
      by (subst t(1)) (simp add: fun_eq_iff liveVariant_def)
    have same: "alreadyRestored t = alreadyRestored s"
      by (auto simp: fun_eq_iff alreadyRestored_def t_def recordTx_def setStock_def)
    have cur: "stockOf s (lineVariant l) = Some (v_stockQuantity v)" using Some by (simp add: stockOf_def lineVariant_def)
    have stock: "stockOf t w = (if w = lineVariant l then Some ?q else stockOf s w)" for w
    proof -
      have "stockOf t w = stockOf (setStock env (v_id v) ?q s) w" by (simp add: stockOf_def live)
      then show ?thesis using stockOf_setStock [of env "v_id v" ?q s w] cur id by simp
    qed
    have "tookStock env orderId [l] [newItemRow env orderId p v l] s t" if "0 \<le> ?q"
      unfolding tookStock_def
    proof (intro conjI)
      show "\<forall>w. stockOf t w = map_option (\<lambda>q. q - takenBy [l] w) (stockOf s w)"
        by (auto simp: stock cur takenBy_def option.map_ident)
      show "list_all2 (rowFor env s orderId) [l] [newItemRow env orderId p v l]"
        using Some p id by (auto simp: rowFor_def lineVariant_def)
      show "t = s\<lparr>dbVariants := dbVariants t, dbInventoryTxs := dbInventoryTxs t, idCount := idCount t\<rparr>"
        by (subst t(1), subst (2) t(1), subst (4) t(1)) simp
      show "\<forall>w. map_option (\<lambda>v. v\<lparr>v_stockQuantity := 0, v_updatedAt := 0\<rparr>) (liveVariant t w) =
          map_option (\<lambda>v. v\<lparr>v_stockQuantity := 0, v_updatedAt := 0\<rparr>) (liveVariant s w)"
        unfolding live liveVariant_setStock by (intro allI, case_tac "liveVariant s w") auto
      show "\<forall>k \<in> set [l]. \<exists>q \<ge> 0. stockOf t (lineVariant k) = Some q" using that by (simp add: stock)
      show "alreadyRestored t = alreadyRestored s" by (rule same)
      show "idCount s \<le> idCount t" by (simp add: t_def recordTx_def setStock_def)
    qed
    then have "Q (newItemRow env orderId p v l) t" if "0 \<le> ?q" using assms(2) that by blast
    moreover have "wp (recordTx env (v_id v) IT_SALE (- ln_quantity l) ?q orderId None) Q' E' (setStock env (v_id v) ?q s) = Q' () t"
      for Q' E' by (simp add: wp_def t(2))
    ultimately show ?thesis using assms(1) Some p
      by (auto simp: reserveLine_def wp Let_def split: prod.split)
  qed
qed

lemma liveVariant_up_to_stock:
  assumes "\<forall>w. map_option (\<lambda>v. v\<lparr>v_stockQuantity := 0, v_updatedAt := 0\<rparr>) (liveVariant t w) =
    map_option (\<lambda>v. v\<lparr>v_stockQuantity := 0, v_updatedAt := 0\<rparr>) (liveVariant s w)" and "liveVariant t w = Some v"
  shows "\<exists>v0. liveVariant s w = Some v0 \<and> v_productId v0 = v_productId v \<and> v_options v0 = v_options v"
proof -
  from assms(1) have "map_option (\<lambda>v. v\<lparr>v_stockQuantity := 0, v_updatedAt := 0\<rparr>) (liveVariant t w) =
    map_option (\<lambda>v. v\<lparr>v_stockQuantity := 0, v_updatedAt := 0\<rparr>) (liveVariant s w)" ..
  with assms(2) obtain v0 where v0: "liveVariant s w = Some v0"
    "v0\<lparr>v_stockQuantity := 0, v_updatedAt := 0\<rparr> = v\<lparr>v_stockQuantity := 0, v_updatedAt := 0\<rparr>"
    by (cases "liveVariant s w") auto
  then have "v_productId (v0\<lparr>v_stockQuantity := 0, v_updatedAt := 0\<rparr>) = v_productId (v\<lparr>v_stockQuantity := 0, v_updatedAt := 0\<rparr>)"
    "v_options (v0\<lparr>v_stockQuantity := 0, v_updatedAt := 0\<rparr>) = v_options (v\<lparr>v_stockQuantity := 0, v_updatedAt := 0\<rparr>)"
    by simp_all
  with v0(1) show ?thesis by simp
qed

lemma tookStock_cons:
  assumes 1: "tookStock env orderId [l] [row] s t" and 2: "tookStock env orderId ls rows t u"
  shows "tookStock env orderId (l # ls) (row # rows) s u"
  unfolding tookStock_def
proof (intro conjI allI ballI)
  fix w
  show "stockOf u w = map_option (\<lambda>q. q - takenBy (l # ls) w) (stockOf s w)"
    using 1 2 by (simp add: tookStock_def takenBy_def option.map_comp comp_def algebra_simps)
  show "map_option (\<lambda>v. v\<lparr>v_stockQuantity := 0, v_updatedAt := 0\<rparr>) (liveVariant u w) =
      map_option (\<lambda>v. v\<lparr>v_stockQuantity := 0, v_updatedAt := 0\<rparr>) (liveVariant s w)"
    using 1 2 by (simp add: tookStock_def)
next
  fix k
  assume k: "k \<in> set (l # ls)"
  show "\<exists>q \<ge> 0. stockOf u (lineVariant k) = Some q"
  proof (cases "lineVariant k \<in> lineVariant ` set ls")
    case True
    then show ?thesis using 2 by (force simp: tookStock_def)
  next
    case False
    then have "takenBy ls (lineVariant k) = 0" unfolding takenBy_def
      by (induction ls) auto
    moreover have "k = l" using k False by auto
    ultimately show ?thesis using 1 2 by (auto simp: tookStock_def)
  qed
next
  have prod: "liveProduct t = liveProduct s"
  proof -
    have "t = s\<lparr>dbVariants := dbVariants t, dbInventoryTxs := dbInventoryTxs t, idCount := idCount t\<rparr>" using 1 by (simp add: tookStock_def)
    from arg_cong [OF this, of dbProducts] have "dbProducts t = dbProducts s" by simp
    then show ?thesis by (simp add: fun_eq_iff liveProduct_def)
  qed
  have "rowFor env s orderId k r" if "rowFor env t orderId k r" for k r
  proof -
    from that obtain v p v0 where v: "liveVariant t (lineVariant k) = Some v0" "liveProduct t (v_productId v0) = Some p"
      "v_id v = lineVariant k" "v_options v = v_options v0" "r = newItemRow env orderId p v k" by (auto simp: rowFor_def)
    obtain v1 where "liveVariant s (lineVariant k) = Some v1" "v_productId v1 = v_productId v0" "v_options v1 = v_options v0"
      using liveVariant_up_to_stock [OF _ v(1), of s] 1 by (auto simp: tookStock_def)
    with v prod show ?thesis by (auto simp: rowFor_def)
  qed
  then have "list_all2 (rowFor env s orderId) ls rows" using 2 by (auto simp: tookStock_def elim: list_all2_mono)
  then show "list_all2 (rowFor env s orderId) (l # ls) (row # rows)" using 1 by (simp add: tookStock_def)
  show "alreadyRestored u = alreadyRestored s" "idCount s \<le> idCount u" using 1 2 by (simp_all add: tookStock_def)
  have "u = t\<lparr>dbVariants := dbVariants u, dbInventoryTxs := dbInventoryTxs u, idCount := idCount u\<rparr>" using 2 by (simp add: tookStock_def)
  also have "\<dots> = s\<lparr>dbVariants := dbVariants t, dbInventoryTxs := dbInventoryTxs t, idCount := idCount t\<rparr>
      \<lparr>dbVariants := dbVariants u, dbInventoryTxs := dbInventoryTxs u, idCount := idCount u\<rparr>"
    using 1 by (simp add: tookStock_def)
  finally show "u = s\<lparr>dbVariants := dbVariants u, dbInventoryTxs := dbInventoryTxs u, idCount := idCount u\<rparr>" by simp
qed

lemma reserveLines_wp:
  assumes "\<And>e t. E e t" and "\<And>rows t. tookStock env orderId lines rows s t \<Longrightarrow> Q rows t"
  shows "wp (forM (reserveLine env orderId) lines) Q E s"
  using assms(2)
proof (induction lines arbitrary: s Q)
  case Nil
  then show ?case using tookStock_nil by (simp add: wp)
next
  case (Cons l ls)
  show ?case
    unfolding forM.simps wp_seq
    by (rule reserveLine_wp [OF assms(1)], rule Cons.IH) (auto simp: wp intro: Cons.prems tookStock_cons)
qed

section \<open>The transaction\<close>

definition freshIds :: "env \<Rightarrow> nat \<Rightarrow> nat \<Rightarrow> string list" where
  "freshIds env m n = map (envUuid env) [m..<m + n]"

lemma freshIds_Suc: "freshIds env m (Suc n) = envUuid env m # freshIds env (Suc m) n"
  by (simp add: freshIds_def upt_rec)

lemma length_freshIds [simp]: "length (freshIds env m n) = n"
  by (simp add: freshIds_def)

lemma insertItems_eq:
  "\<exists>us. forM (insertItem env) rows s = (Inr us, s\<lparr>idCount := idCount s + length rows,
     dbItems := dbItems s @ map2 (\<lambda>r i. r i) rows (freshIds env (idCount s) (length rows))\<rparr>)"
proof (induction rows arbitrary: s)
  case Nil
  then show ?case by (simp add: freshIds_def)
next
  case (Cons r rows)
  let ?s = "s\<lparr>idCount := Suc (idCount s), dbItems := dbItems s @ [r (envUuid env (idCount s))]\<rparr>"
  obtain us where us: "forM (insertItem env) rows ?s = (Inr us, ?s\<lparr>idCount := idCount ?s + length rows,
     dbItems := dbItems ?s @ map2 (\<lambda>r i. r i) rows (freshIds env (idCount ?s) (length rows))\<rparr>)"
    using Cons.IH [of ?s] by blast
  have "insertItem env r s = (Inr (), ?s)" by (simp add: insertItem_def)
  with us show ?case by (intro exI [of _ "() # us"]) (simp add: freshIds_Suc)
qed

lemma wp_eq: "m s = (Inr x, t) \<Longrightarrow> wp m Q E s = Q x t"
  by (simp add: wp_def)

definition shippingRow :: "env \<Rightarrow> string \<Rightarrow> shipping_record \<Rightarrow> string \<Rightarrow> store_shipping_row" where
  "shippingRow env orderId r i = \<lparr>ss_id = i, ss_orderId = orderId, ss_storeId = sr_storeId r,
     ss_shippingOptionId = sr_shippingOptionId r, ss_optionName = sr_optionName r,
     ss_shippingFee = toDecimal2 (sr_shippingFee r), ss_createdAt = envNow env\<rparr>"

definition shippingRows :: "env \<Rightarrow> string \<Rightarrow> nat \<Rightarrow> shipping_record list \<Rightarrow> store_shipping_row list" where
  "shippingRows env orderId m rs = map2 (shippingRow env orderId) rs (freshIds env m (length rs))"

lemma insertShippings_eq:
  "\<exists>us. forM (insertStoreShipping env orderId) rs s = (Inr us, s\<lparr>idCount := idCount s + length rs,
     dbShippings := dbShippings s @ shippingRows env orderId (idCount s) rs\<rparr>)"
proof (induction rs arbitrary: s)
  case Nil
  then show ?case by (simp add: shippingRows_def)
next
  case (Cons r rs)
  let ?s = "s\<lparr>idCount := Suc (idCount s), dbShippings := dbShippings s @ [shippingRow env orderId r (envUuid env (idCount s))]\<rparr>"
  obtain us where us: "forM (insertStoreShipping env orderId) rs ?s = (Inr us, ?s\<lparr>idCount := idCount ?s + length rs,
     dbShippings := dbShippings ?s @ shippingRows env orderId (idCount ?s) rs\<rparr>)"
    using Cons.IH [of ?s] by blast
  have "insertStoreShipping env orderId r s = (Inr (), ?s)" by (simp add: insertStoreShipping_def shippingRow_def)
  with us show ?case by (intro exI [of _ "() # us"]) (simp add: shippingRows_def freshIds_Suc)
qed

text \<open>How often each promotion was used, as the rows of the database count it.\<close>

definition usages :: "db \<Rightarrow> (string \<times> int) list" where
  "usages s = map (\<lambda>q. (pm_id q, pm_usageCount q)) (dbPromotions s)"

definition usedBy :: "promotion_row list \<Rightarrow> string \<Rightarrow> int" where
  "usedBy ps i = (\<Sum>p\<leftarrow>ps. if pm_id p = i then 1 else 0)"

definition usageRows :: "env \<Rightarrow> string \<Rightarrow> (string \<rightharpoonup> money) \<Rightarrow> nat \<Rightarrow> promotion_row list \<Rightarrow> promotion_usage_row list" where
  "usageRows env orderId discounts m ps = map2 (\<lambda>p i. \<lparr>pu_id = i, pu_promotionId = pm_id p, pu_orderId = orderId,
     pu_discountAmount = toDecimal2 (nullish (discounts (pm_id p)) 0), pu_createdAt = envNow env\<rparr>) ps (freshIds env m (length ps))"

lemma usePromotions_eq:
  "\<exists>us t. forM (usePromotion env orderId discounts) ps s = (Inr us, t) \<and>
     t = s\<lparr>idCount := idCount s + length ps, dbPromotions := dbPromotions t,
       dbPromotionUsages := dbPromotionUsages s @ usageRows env orderId discounts (idCount s) ps\<rparr> \<and>
     usages t = map (\<lambda>(i, n). (i, n + usedBy ps i)) (usages s)"
proof (induction ps arbitrary: s)
  case Nil
  have "usages s = map (\<lambda>(i, n). (i, n + usedBy [] i)) (usages s)" by (simp add: usedBy_def map_idI case_prod_beta)
  then show ?case by (intro exI [of _ "[]"] exI [of _ s]) (simp add: usageRows_def)
next
  case (Cons p ps)
  let ?s = "snd (usePromotion env orderId discounts p s)"
  have one: "usePromotion env orderId discounts p s = (Inr (), ?s)" by (simp add: usePromotion_def)
  obtain us t where t: "forM (usePromotion env orderId discounts) ps ?s = (Inr us, t)"
    "t = ?s\<lparr>idCount := idCount ?s + length ps, dbPromotions := dbPromotions t,
       dbPromotionUsages := dbPromotionUsages ?s @ usageRows env orderId discounts (idCount ?s) ps\<rparr>"
    "usages t = map (\<lambda>(i, n). (i, n + usedBy ps i)) (usages ?s)"
    using Cons.IH [of ?s] by blast
  have "usages ?s = map (\<lambda>(i, n). (i, n + (if pm_id p = i then 1 else 0))) (usages s)"
    by (simp add: usePromotion_def usages_def comp_def)
  with t(3) have u: "usages t = map (\<lambda>(i, n). (i, n + usedBy (p # ps) i)) (usages s)"
    by (simp add: usedBy_def comp_def case_prod_beta algebra_simps)
  have "t = s\<lparr>idCount := idCount s + length (p # ps), dbPromotions := dbPromotions t,
      dbPromotionUsages := dbPromotionUsages s @ usageRows env orderId discounts (idCount s) (p # ps)\<rparr>"
    by (subst t(2)) (simp add: usePromotion_def usageRows_def freshIds_Suc)
  moreover have "forM (usePromotion env orderId discounts) (p # ps) s = (Inr (() # us), t)" using one t(1) by simp
  ultimately show ?case using u by blast
qed

definition placed ::
    "env \<Rightarrow> order_line list \<Rightarrow> order_quote \<Rightarrow> (string \<Rightarrow> order_row) \<Rightarrow> db \<Rightarrow> string \<Rightarrow> db \<Rightarrow> bool" where
  "placed env lines quote mkRow s orderId t \<longleftrightarrow>
     orderId = envUuid env (idCount s) \<and> o_orderNumber (mkRow orderId) \<notin> o_orderNumber ` set (dbOrders s) \<and>
     dbOrders t = dbOrders s @ [mkRow orderId] \<and>
     (\<exists>rows m. idCount s < m \<and> list_all2 (rowFor env s orderId) lines rows \<and>
        dbItems t = dbItems s @ map2 (\<lambda>r i. r i) rows (freshIds env m (length rows))) \<and>
     (\<forall>w. stockOf t w = map_option (\<lambda>q. q - takenBy lines w) (stockOf s w)) \<and>
     (\<forall>l \<in> set lines. \<exists>q \<ge> 0. stockOf t (lineVariant l) = Some q) \<and>
     (\<exists>m. dbShippings t = dbShippings s @ shippingRows env orderId m (oq_shippings quote)) \<and>
     usages t = map (\<lambda>(i, n). (i, n + usedBy (oq_promotions quote) i)) (usages s) \<and>
     alreadyRestored t = alreadyRestored s"

lemma stockOf_cong: "dbVariants t = dbVariants s \<Longrightarrow> stockOf t = stockOf s"
  by (simp add: fun_eq_iff stockOf_def liveVariant_def)

lemma alreadyRestored_cong: "dbInventoryTxs t = dbInventoryTxs s \<Longrightarrow> alreadyRestored t = alreadyRestored s"
  by (simp add: fun_eq_iff alreadyRestored_def)

lemma rowFor_cong: "dbVariants t = dbVariants s \<Longrightarrow> dbProducts t = dbProducts s \<Longrightarrow> rowFor env t = rowFor env s"
  by (simp add: fun_eq_iff rowFor_def liveVariant_def liveProduct_def)

lemma recordPlaced_wp:
  assumes "\<And>t. t = s\<lparr>idCount := idCount t, dbHistory := dbHistory t, dbAudits := dbAudits t\<rparr> \<Longrightarrow> idCount s \<le> idCount t \<Longrightarrow> Q () t"
  shows "wp (recordPlaced env dto ord) Q E s"
  by (auto simp: recordPlaced_def wp appendAudit_wp intro!: assms)

lemma publishOrderActivity_wp:
  assumes "\<And>es. Q () (s\<lparr>dbEffects := es\<rparr>)"
  shows "wp (publishOrderActivity orderId items) Q E s"
  using assms by (simp add: publishOrderActivity_def Let_def wp)

text \<open>The rows of the order and its address are there; the rest of the transaction follows.\<close>

definition linesPlaced :: "env \<Rightarrow> order_line list \<Rightarrow> order_quote \<Rightarrow> string \<Rightarrow> db \<Rightarrow> db \<Rightarrow> bool" where
  "linesPlaced env lines quote orderId s t \<longleftrightarrow> dbOrders t = dbOrders s \<and>
     (\<exists>rows m. idCount s \<le> m \<and> list_all2 (rowFor env s orderId) lines rows \<and>
        dbItems t = dbItems s @ map2 (\<lambda>r i. r i) rows (freshIds env m (length rows))) \<and>
     (\<forall>w. stockOf t w = map_option (\<lambda>q. q - takenBy lines w) (stockOf s w)) \<and>
     (\<forall>l \<in> set lines. \<exists>q \<ge> 0. stockOf t (lineVariant l) = Some q) \<and>
     (\<exists>m. dbShippings t = dbShippings s @ shippingRows env orderId m (oq_shippings quote)) \<and>
     usages t = map (\<lambda>(i, n). (i, n + usedBy (oq_promotions quote) i)) (usages s) \<and>
     alreadyRestored t = alreadyRestored s"

lemma placeLines_wp:
  assumes "\<And>e t. E e t" and "\<And>t. linesPlaced env lines quote (o_id ord) s t \<Longrightarrow> Q () t"
  shows "wp (placeLines env dto lines quote ord) Q E s"
proof -
  let ?sp = "oq_shippings quote" and ?ps = "oq_promotions quote" and ?oid = "o_id ord"
  obtain us where 1: "forM (insertStoreShipping env ?oid) ?sp s = (Inr us, s\<lparr>idCount := idCount s + length ?sp,
     dbShippings := dbShippings s @ shippingRows env ?oid (idCount s) ?sp\<rparr>)"
    using insertShippings_eq [of env ?oid ?sp s] by (elim exE)
  let ?t1 = "s\<lparr>idCount := idCount s + length ?sp, dbShippings := dbShippings s @ shippingRows env ?oid (idCount s) ?sp\<rparr>"
  have tail: "wp (seqM (forM (insertItem env) rows) (\<lambda>_. seqM (recordPlaced env dto ord) (\<lambda>_.
     seqM (forM (usePromotion env ?oid (oq_discounts quote)) ?ps) (\<lambda>_.
     seqM (emit (NotifyVendorsNewOrder ?oid)) (\<lambda>_. seqM (emit (VendorWebhook ?oid ''order.create'')) (\<lambda>_.
       publishOrderActivity ?oid (map (\<lambda>r. r []) rows))))))) Q E t2"
    if 2: "tookStock env ?oid lines rows ?t1 t2" for rows t2
  proof -
    have t2: "t2 = ?t1\<lparr>dbVariants := dbVariants t2, dbInventoryTxs := dbInventoryTxs t2, idCount := idCount t2\<rparr>"
      using 2 by (simp add: tookStock_def)
    obtain us' where 3: "forM (insertItem env) rows t2 = (Inr us', t2\<lparr>idCount := idCount t2 + length rows,
       dbItems := dbItems t2 @ map2 (\<lambda>r i. r i) rows (freshIds env (idCount t2) (length rows))\<rparr>)"
      using insertItems_eq [of env rows t2] by (elim exE)
    let ?t3 = "t2\<lparr>idCount := idCount t2 + length rows,
       dbItems := dbItems t2 @ map2 (\<lambda>r i. r i) rows (freshIds env (idCount t2) (length rows))\<rparr>"
    show ?thesis unfolding wp_seq wp_eq [where m = "forM (insertItem env) rows", OF 3]
    proof (rule recordPlaced_wp)
      fix t4
      assume 4: "t4 = ?t3\<lparr>idCount := idCount t4, dbHistory := dbHistory t4, dbAudits := dbAudits t4\<rparr>" "idCount ?t3 \<le> idCount t4"
      obtain us'' t5 where 5: "forM (usePromotion env ?oid (oq_discounts quote)) ?ps t4 = (Inr us'', t5)"
        "t5 = t4\<lparr>idCount := idCount t4 + length ?ps, dbPromotions := dbPromotions t5,
           dbPromotionUsages := dbPromotionUsages t4 @ usageRows env ?oid (oq_discounts quote) (idCount t4) ?ps\<rparr>"
        "usages t5 = map (\<lambda>(i, n). (i, n + usedBy ?ps i)) (usages t4)"
        using usePromotions_eq [of env ?oid "oq_discounts quote" ?ps t4] by (elim exE conjE)
      have f5: "dbOrders t5 = dbOrders t4" "dbItems t5 = dbItems t4" "dbVariants t5 = dbVariants t4"
        "dbInventoryTxs t5 = dbInventoryTxs t4" "dbShippings t5 = dbShippings t4" by (subst 5(2), simp)+
      have f4: "dbOrders t4 = dbOrders t2" "dbItems t4 = dbItems ?t3" "dbVariants t4 = dbVariants t2" "dbPromotions t4 = dbPromotions t2"
        "dbInventoryTxs t4 = dbInventoryTxs t2" "dbShippings t4 = dbShippings t2" by (subst 4(1), simp)+
      have f2: "dbOrders t2 = dbOrders s" "dbItems t2 = dbItems s" "dbPromotions t2 = dbPromotions s" "dbShippings t2 = dbShippings ?t1"
        by (subst t2, simp)+
      note frame = f5 f4 f2
      have stock: "stockOf t5 = stockOf t2" by (rule stockOf_cong) (simp add: frame)
      have "linesPlaced env lines quote ?oid s (t5\<lparr>dbEffects := es\<rparr>)" for es
        unfolding linesPlaced_def
      proof (intro conjI)
        have s1: "stockOf ?t1 = stockOf s" by (rule stockOf_cong) simp
        have eff: "stockOf (t5\<lparr>dbEffects := es\<rparr>) = stockOf t5" by (rule stockOf_cong) simp
        show "\<forall>w. stockOf (t5\<lparr>dbEffects := es\<rparr>) w = map_option (\<lambda>q. q - takenBy lines w) (stockOf s w)"
          using 2 by (simp add: eff stock tookStock_def s1)
        show "\<forall>l \<in> set lines. \<exists>q \<ge> 0. stockOf (t5\<lparr>dbEffects := es\<rparr>) (lineVariant l) = Some q"
          using 2 unfolding eff stock tookStock_def by (elim conjE)
        have "alreadyRestored (t5\<lparr>dbEffects := es\<rparr>) = alreadyRestored t2" by (rule alreadyRestored_cong) (simp add: frame)
        moreover have "alreadyRestored t2 = alreadyRestored ?t1" using 2 by (simp add: tookStock_def)
        moreover have "alreadyRestored ?t1 = alreadyRestored s" by (rule alreadyRestored_cong) simp
        ultimately show "alreadyRestored (t5\<lparr>dbEffects := es\<rparr>) = alreadyRestored s" by simp
        have "usages (t5\<lparr>dbEffects := es\<rparr>) = usages t5" "usages t4 = usages s" by (simp_all add: usages_def frame)
        then show "usages (t5\<lparr>dbEffects := es\<rparr>) = map (\<lambda>(i, n). (i, n + usedBy ?ps i)) (usages s)" by (simp add: 5(3))
        show "\<exists>rows m. idCount s \<le> m \<and> list_all2 (rowFor env s ?oid) lines rows \<and>
            dbItems (t5\<lparr>dbEffects := es\<rparr>) = dbItems s @ map2 (\<lambda>r i. r i) rows (freshIds env m (length rows))"
        proof (intro exI [of _ rows] exI [of _ "idCount t2"] conjI)
          show "idCount s \<le> idCount t2" using 2 by (simp add: tookStock_def)
          have "rowFor env ?t1 = rowFor env s" by (rule rowFor_cong) simp_all
          then show "list_all2 (rowFor env s ?oid) lines rows" using 2 by (simp add: tookStock_def)
        qed (simp add: frame)
      qed (auto simp: frame)
      then have "Q () (t5\<lparr>dbEffects := es\<rparr>)" for es by (rule assms(2))
      then show "wp (forM (usePromotion env ?oid (oq_discounts quote)) ?ps)
           (\<lambda>x. wp (emit (NotifyVendorsNewOrder ?oid)) (\<lambda>x. wp (emit (VendorWebhook ?oid ''order.create''))
             (\<lambda>x. wp (publishOrderActivity ?oid (map (\<lambda>r. r []) rows)) Q E) E) E) E t4"
        unfolding wp_eq [where m = "forM (usePromotion env ?oid (oq_discounts quote)) ?ps", OF 5(1)] wp_emit
        by (intro publishOrderActivity_wp) simp
    qed
  qed
  show ?thesis
    unfolding placeLines_def wp_seq [of "forM (insertStoreShipping env ?oid) ?sp"] wp_eq [where m = "forM (insertStoreShipping env ?oid) ?sp", OF 1]
      wp_seq [of "forM (reserveLine env ?oid) lines"]
    by (rule reserveLines_wp [OF assms(1) tail])
qed

lemma placeOrder_wp:
  assumes "\<And>e. E e s" and "\<And>orderId t. placed env lines quote mkRow s orderId t \<Longrightarrow> Q orderId t"
    and id: "\<And>i. o_id (mkRow i) = i"
  shows "wp (txnM (placeOrder env dto address lines quote mkRow)) Q E s"
proof -
  let ?oid = "envUuid env (idCount s)"
  have tail: "wp (placeLines env dto lines quote (mkRow ?oid)) (\<lambda>_. Q ?oid) (\<lambda>_ _. True) u"
    if new: "o_orderNumber (mkRow ?oid) \<notin> o_orderNumber ` set (dbOrders s)"
      and u: "u = s\<lparr>dbOrders := dbOrders s @ [mkRow ?oid], idCount := Suc (Suc (idCount s)), dbShippingAddresses := as\<rparr>" for u as
  proof (rule placeLines_wp)
    fix t
    assume "linesPlaced env lines quote (o_id (mkRow ?oid)) u t"
    note l = this [unfolded linesPlaced_def id]
    have tabs: "dbVariants u = dbVariants s" "dbInventoryTxs u = dbInventoryTxs s" "dbProducts u = dbProducts s"
      "dbOrders u = dbOrders s @ [mkRow ?oid]" "dbItems u = dbItems s" "dbShippings u = dbShippings s" "idCount u = Suc (Suc (idCount s))"
      "usages u = usages s" by (simp_all add: u usages_def)
    note eqs = tabs stockOf_cong [OF tabs(1)] alreadyRestored_cong [OF tabs(2)] rowFor_cong [OF tabs(1,3)]
    from l obtain rows m where rows: "idCount u \<le> m" "list_all2 (rowFor env s ?oid) lines rows"
      "dbItems t = dbItems s @ map2 (\<lambda>r i. r i) rows (freshIds env m (length rows))" unfolding eqs by (elim conjE exE)
    then have "\<exists>rows m. idCount s < m \<and> list_all2 (rowFor env s ?oid) lines rows \<and>
        dbItems t = dbItems s @ map2 (\<lambda>r i. r i) rows (freshIds env m (length rows))"
      by (intro exI [of _ rows] exI [of _ m]) (simp add: eqs)
    with l new have "placed env lines quote mkRow s ?oid t" unfolding placed_def eqs by (elim conjE) (intro conjI refl; assumption)
    then show "Q ?oid t" by (rule assms(2))
  qed simp
  show ?thesis
    unfolding placeOrder_def insertOrder_def insertAddress_def wp
    using assms(1) by (auto simp: wp intro: tail [OF _ refl])
qed

section \<open>Prices\<close>

definition inCents :: "money \<Rightarrow> bool" where
  "inCents v \<longleftrightarrow> roundMoney v = v"

lemma inCents_iff: "inCents v \<longleftrightarrow> (\<exists>n. v = of_int n / 100)"
proof
  assume "inCents v"
  then show "\<exists>n. v = of_int n / 100" unfolding inCents_def roundMoney_def by (metis)
next
  assume "\<exists>n. v = of_int n / 100"
  then obtain n where "v = of_int n / 100" ..
  then show "inCents v" by (simp add: inCents_def roundMoney_def)
qed

lemma inCents_round [simp]: "inCents (roundMoney v)"
  by (simp add: inCents_def)

lemma inCents_0 [simp]: "inCents 0"
  by (simp add: inCents_def)

lemma inCents_add: "inCents a \<Longrightarrow> inCents b \<Longrightarrow> inCents (a + b)"
  unfolding inCents_iff by (metis add_divide_distrib of_int_add)

lemma inCents_mult: "inCents a \<Longrightarrow> inCents (a * of_int q)"
  unfolding inCents_iff by (metis of_int_mult times_divide_eq_left)

lemma inCents_minus: "inCents a \<Longrightarrow> inCents (- a)"
  using inCents_mult [of a "- 1"] by simp

lemma inCents_sum: "(\<And>x. x \<in> set xs \<Longrightarrow> inCents (f x)) \<Longrightarrow> inCents (\<Sum>x\<leftarrow>xs. f x)"
  by (induction xs) (auto intro: inCents_add)

lemma toDecimal2_cents: "inCents v \<Longrightarrow> toDecimal2 v = v"
  using inCents_minus [of v] by (simp add: toDecimal2_def inCents_def)

lemma toDecimal2_error: "\<bar>toDecimal2 v - v\<bar> \<le> 1 / 200"
proof (cases "v < 0")
  case True
  then have "toDecimal2 v = - roundMoney (- v)" by (simp add: toDecimal2_def)
  with roundMoney_error [of "- v"] show ?thesis unfolding abs_le_iff by linarith
next
  case False
  with roundMoney_error [of v] show ?thesis by (simp add: toDecimal2_def)
qed

lemma toDecimal2_nonneg: "0 \<le> v \<Longrightarrow> 0 \<le> toDecimal2 v"
  by (simp add: toDecimal2_def roundMoney_nonneg)

lemma fold_upd_in:
  "fold (\<lambda>l m. m(k l \<mapsto> g l)) xs Map.empty w = Some e \<Longrightarrow> \<exists>l \<in> set xs. e = g l"
  by (induction xs rule: rev_induct) (auto split: if_splits)

lemma resolve_in:
  "resolveEffectiveUnitPrices env lines s w = Some e \<Longrightarrow>
     \<exists>l \<in> set lines. \<exists>c. e = resolveEffectiveUnitFromItem (roundMoney (pl_catalogUnit l)) c"
  unfolding resolveEffectiveUnitPrices_def Let_def by (drule fold_upd_in) auto

lemma resolved_price:
  "inCents (eu_unitPrice (resolveEffectiveUnitFromItem a c))" "inCents (eu_catalogUnitPrice (resolveEffectiveUnitFromItem a c))"
  "0 \<le> a \<Longrightarrow> 0 \<le> eu_unitPrice (resolveEffectiveUnitFromItem a c)"
proof -
  have sale: "inCents p" if "computeSaleUnitPrice b x = Some p" for b x p
    using that by (auto simp: computeSaleUnitPrice_def split: option.splits if_splits)
  show "inCents (eu_unitPrice (resolveEffectiveUnitFromItem a c))"
    by (cases c; cases "computeSaleUnitPrice (roundMoney a) (cil_discountPercent (the c))")
      (auto simp: resolveEffectiveUnitFromItem_def Let_def dest: sale)
  show "inCents (eu_catalogUnitPrice (resolveEffectiveUnitFromItem a c))"
    by (cases c) (simp_all add: resolveEffectiveUnitFromItem_def Let_def)
  show "0 \<le> eu_unitPrice (resolveEffectiveUnitFromItem a c)" if "0 \<le> a"
    using roundMoney_nonneg [OF that] computeSaleUnitPrice_bounds [of a "cil_discountPercent (the c)"]
    by (cases c; cases "computeSaleUnitPrice (roundMoney a) (cil_discountPercent (the c))")
      (auto simp: resolveEffectiveUnitFromItem_def Let_def)
qed

text \<open>Catalog prices are not negative; they may have a negative variant adjustment.\<close>

definition catalogOk :: "db \<Rightarrow> bool" where
  "catalogOk s \<longleftrightarrow> (\<forall>v \<in> set (dbVariants s). \<forall>p \<in> set (dbProducts s). v_productId v = p_id p \<longrightarrow>
     0 \<le> p_basePrice p + v_priceAdjustment v)"

definition pricedFor :: "order_item_input list \<Rightarrow> order_line list \<Rightarrow> bool" where
  "pricedFor items lines \<longleftrightarrow> map ln_quantity lines = map oin_quantity items \<and>
     map (Some \<circ> lineVariant) lines = map oin_variantId items \<and> (\<forall>l \<in> set lines. inCents (ln_unitPrice l) \<and> inCents (ln_catalogUnit l))"

lemma orderLine_Inr:
  assumes "orderLine s item = Inr l"
  shows "ln_quantity l = oin_quantity item" "oin_variantId item = Some (lineVariant l)" "inCents (ln_unitPrice l)" "inCents (ln_catalogUnit l)"
    "catalogOk s \<Longrightarrow> 0 \<le> ln_unitPrice l \<and> 0 \<le> ln_catalogUnit l"
proof -
  from assms obtain v p where v: "truthy (oin_variantId item)" "liveVariant s (the (oin_variantId item)) = Some v"
    "liveProduct s (v_productId v) = Some p" "l = \<lparr>ln_variant = v, ln_product = p, ln_quantity = oin_quantity item,
       ln_catalogUnit = catalogUnitOf p v, ln_unitPrice = catalogUnitOf p v, ln_saleCampaignId = None, ln_saleDiscountPercent = None\<rparr>"
    by (auto simp: orderLine_def split: if_splits option.splits)
  then show "ln_quantity l = oin_quantity item" "oin_variantId item = Some (lineVariant l)" "inCents (ln_unitPrice l)" "inCents (ln_catalogUnit l)"
    using liveVariant_Some [OF v(2)] by (auto simp: lineVariant_def catalogUnitOf_def truthy_def split: option.splits)
  have "v \<in> set (dbVariants s)" "p \<in> set (dbProducts s)" "p_id p = v_productId v"
    using v(2,3) unfolding liveVariant_def liveProduct_def by (auto dest: find_Some_in)
  then show "0 \<le> ln_unitPrice l \<and> 0 \<le> ln_catalogUnit l" if "catalogOk s"
    using that by (auto simp: v(4) catalogOk_def catalogUnitOf_def intro!: roundMoney_nonneg)
qed

lemma repriceLine_simps [simp]:
  "ln_quantity (repriceLine m l) = ln_quantity l" "lineVariant (repriceLine m l) = lineVariant l"
  "ln_product (repriceLine m l) = ln_product l" "ln_variant (repriceLine m l) = ln_variant l"
  by (simp_all add: repriceLine_def lineVariant_def split: option.split)

lemma orderLines_read:
  "wp (forM (\<lambda>item. readM (\<lambda>s. orderLine s item)) items)
     (\<lambda>lines t. t = s \<and> list_all2 (\<lambda>item l. orderLine s item = Inr l) items lines) (\<lambda>_ t. t = s) s"
proof (induction items)
  case Nil
  then show ?case unfolding forM.simps wp_ret by simp
next
  case (Cons item items)
  show ?case
  proof (cases "orderLine s item")
    case (Inl e)
    then show ?thesis unfolding forM.simps wp_seq wp_readM by simp
  next
    case (Inr l)
    then show ?thesis unfolding forM.simps wp_seq wp_readM
      by (simp only: sum.case) (rule wp_conseq [OF Cons.IH], simp_all add: wp_ret)
  qed
qed

lemma priceOrder_wp:
  assumes "\<And>e. E e s" and "\<And>lines. pricedFor items lines \<Longrightarrow>
    (catalogOk s \<Longrightarrow> \<forall>l \<in> set lines. 0 \<le> ln_unitPrice l) \<Longrightarrow> Q lines s"
  shows "wp (priceOrder env items) Q E s"
  unfolding priceOrder_def wp_seq
proof (rule wp_conseq [OF orderLines_read])
  fix lines t
  assume l: "t = s \<and> list_all2 (\<lambda>item l. orderLine s item = Inr l) items lines"
  let ?prices = "resolveEffectiveUnitPrices env (map priceLineOf lines) s"
  have line: "\<exists>item \<in> set items. orderLine s item = Inr l" if that: "l \<in> set lines" for l
  proof -
    from that obtain i where "i < length lines" "l = lines ! i" by (auto simp: in_set_conv_nth)
    with l show ?thesis by (intro bexI [of _ "items ! i"]) (auto simp: list_all2_conv_all_nth)
  qed
  have price: "\<exists>k \<in> set lines. \<exists>c. e = resolveEffectiveUnitFromItem (roundMoney (ln_catalogUnit k)) c" if "?prices w = Some e" for w e
    using resolve_in [OF that] by (auto simp: priceLineOf_def)
  have "map ln_quantity lines = map oin_quantity items" "map (Some \<circ> lineVariant) lines = map oin_variantId items"
    using l by (auto simp: list_all2_conv_all_nth orderLine_Inr(1,2) intro!: nth_equalityI)
  moreover have "inCents (ln_unitPrice (repriceLine ?prices l)) \<and> inCents (ln_catalogUnit (repriceLine ?prices l))" if "l \<in> set lines" for l
  proof (cases "?prices (v_id (ln_variant l))")
    case None
    then show ?thesis using line [OF that] orderLine_Inr(3,4) by (auto simp: repriceLine_def)
  next
    case (Some e)
    from price [OF this] show ?thesis using Some resolved_price(1,2) by (auto simp: repriceLine_def)
  qed
  ultimately have "pricedFor items (map (repriceLine ?prices) lines)" by (auto simp: pricedFor_def comp_def)
  moreover have "\<forall>l \<in> set (map (repriceLine ?prices) lines). 0 \<le> ln_unitPrice l" if ok: "catalogOk s"
  proof -
    have nn: "0 \<le> ln_unitPrice l \<and> 0 \<le> ln_catalogUnit l" if "l \<in> set lines" for l
      using line [OF that] orderLine_Inr(5) [OF _ ok] by blast
    have "0 \<le> ln_unitPrice (repriceLine ?prices l)" if "l \<in> set lines" for l
    proof (cases "?prices (v_id (ln_variant l))")
      case None
      then show ?thesis using nn [OF that] by (simp add: repriceLine_def)
    next
      case (Some e)
      from price [OF this] obtain k c where "k \<in> set lines" "e = resolveEffectiveUnitFromItem (roundMoney (ln_catalogUnit k)) c" by blast
      then show ?thesis using Some nn resolved_price(3) [OF roundMoney_nonneg] by (simp add: repriceLine_def)
    qed
    then show ?thesis by auto
  qed
  ultimately have "Q (map (repriceLine ?prices) lines) s" by (rule assms(2))
  then show "wp (getM (resolveEffectiveUnitPrices env (map priceLineOf lines)))
      (\<lambda>x. wp (retM (map (repriceLine x) lines)) Q E) E t"
    using l by (simp add: wp_get wp_ret)
next
  show "E e t" if "t = s" for e t using that assms(1) by simp
qed

text \<open>The shop data a quote relies on: sensible promotions, and fees that are not negative.\<close>

definition shopOk :: "db \<Rightarrow> bool" where
  "shopOk s \<longleftrightarrow> catalogOk s \<and> (\<forall>p \<in> set (dbPromotions s). promotionDataOk p) \<and>
     (\<forall>o' \<in> set (dbShippingOptions s). 0 \<le> so_price o' \<and> inCents (so_price o'))"

lemma sameShop_shopOk: "sameShop s t \<Longrightarrow> shopOk t = shopOk s"
  by (simp add: sameShop_def shopOk_def catalogOk_def)

definition quotedFor :: "db \<Rightarrow> order_line list \<Rightarrow> order_quote \<Rightarrow> bool" where
  "quotedFor s lines quote \<longleftrightarrow> oq_subtotal quote = orderSubtotal lines \<and>
     oq_shippingFee quote = (\<Sum>r\<leftarrow>oq_shippings quote. sr_shippingFee r) \<and>
     (shopOk s \<longrightarrow> (\<forall>l \<in> set lines. 0 \<le> ln_unitPrice l \<and> 0 \<le> ln_quantity l) \<longrightarrow>
        0 \<le> oq_shippingFee quote \<and> inCents (oq_shippingFee quote) \<and>
        0 \<le> oq_discount quote \<and> oq_discount quote \<le> oq_subtotal quote + oq_shippingFee quote)"

lemma lineAmount_nonneg: "0 \<le> ln_unitPrice l \<Longrightarrow> 0 \<le> ln_quantity l \<Longrightarrow> 0 \<le> lineAmount l"
  by (simp add: lineAmount_def)

lemma orderSubtotal_nonneg:
  "(\<And>l. l \<in> set lines \<Longrightarrow> 0 \<le> ln_unitPrice l \<and> 0 \<le> ln_quantity l) \<Longrightarrow> 0 \<le> orderSubtotal lines"
  unfolding orderSubtotal_def by (rule sum_list_nonneg_rat) (simp add: lineAmount_nonneg)

lemma shippingFor_Inr:
  assumes "shippingFor s sels i = Inr r"
  shows "sr_storeId r = i" "\<exists>opt \<in> set (dbShippingOptions s). sr_shippingFee r = so_price opt"
  using assms unfolding shippingFor_def by (auto split: option.splits dest: find_Some_in)

lemma shippings_read:
  "wp (forM (\<lambda>i. readM (\<lambda>s. shippingFor s sels i)) ids)
     (\<lambda>rs t. t = s \<and> (\<forall>r \<in> set rs. \<exists>opt \<in> set (dbShippingOptions s). sr_shippingFee r = so_price opt)) (\<lambda>_ t. t = s) s"
proof (induction ids)
  case Nil
  then show ?case unfolding forM.simps wp_ret by simp
next
  case (Cons i ids)
  show ?case
  proof (cases "shippingFor s sels i")
    case (Inl e)
    then show ?thesis unfolding forM.simps wp_seq wp_readM by simp
  next
    case (Inr r)
    then show ?thesis unfolding forM.simps wp_seq wp_readM
      by (simp only: sum.case) (rule wp_conseq [OF Cons.IH], use shippingFor_Inr in \<open>auto simp: wp_ret\<close>)
  qed
qed

lemma resolveStoreShipping_read:
  "wp (resolveStoreShipping ids sels)
     (\<lambda>rs t. t = s \<and> (\<forall>r \<in> set rs. \<exists>opt \<in> set (dbShippingOptions s). sr_shippingFee r = so_price opt)) (\<lambda>_ t. t = s) s"
  unfolding resolveStoreShipping_def using shippings_read by (simp add: wp_ret)

lemma quote_inputs_ok:
  assumes shop: "shopOk s" and lines: "\<And>l. l \<in> set lines \<Longrightarrow> 0 \<le> ln_unitPrice l \<and> 0 \<le> ln_quantity l"
    and rs: "\<And>r. r \<in> set rs \<Longrightarrow> \<exists>opt \<in> set (dbShippingOptions s). sr_shippingFee r = so_price opt"
  shows "0 \<le> (\<Sum>r\<leftarrow>rs. sr_shippingFee r)" "inCents (\<Sum>r\<leftarrow>rs. sr_shippingFee r)"
    "stackInputsOk s (orderSubtotal lines) (storeSubtotals lines) \<lparr>vo_lines = Some (map promotionLine lines), vo_mode = Apply,
       vo_shippingFee = Some (\<Sum>r\<leftarrow>rs. sr_shippingFee r),
       vo_storeShippingFees = Some (map_of (rev (map (\<lambda>r. (sr_storeId r, sr_shippingFee r)) rs))), vo_requiredScope = None\<rparr>"
proof -
  have fee: "0 \<le> sr_shippingFee r \<and> inCents (sr_shippingFee r)" if "r \<in> set rs" for r
    using rs [OF that] shop by (auto simp: shopOk_def)
  then show sum: "0 \<le> (\<Sum>r\<leftarrow>rs. sr_shippingFee r)" and "inCents (\<Sum>r\<leftarrow>rs. sr_shippingFee r)"
    by (auto intro: sum_list_nonneg_rat inCents_sum)
  have fees: "0 \<le> a" if "map_of (rev (map (\<lambda>r. (sr_storeId r, sr_shippingFee r)) rs)) i = Some a" for i a
    using map_of_SomeD [OF that] fee by auto
  have sub: "0 \<le> orderSubtotal (filter P lines)" for P by (rule orderSubtotal_nonneg) (simp add: lines)
  from sub [of "\<lambda>_. True"] have "0 \<le> orderSubtotal lines" by simp
  moreover have "linesOk \<lparr>vo_lines = Some (map promotionLine lines), vo_mode = m, vo_shippingFee = f,
       vo_storeShippingFees = g, vo_requiredScope = h\<rparr>" for m f g h
    using lines by (auto simp: linesOk_def promotionLine_def)
  ultimately show "stackInputsOk s (orderSubtotal lines) (storeSubtotals lines) \<lparr>vo_lines = Some (map promotionLine lines), vo_mode = Apply,
       vo_shippingFee = Some (\<Sum>r\<leftarrow>rs. sr_shippingFee r),
       vo_storeShippingFees = Some (map_of (rev (map (\<lambda>r. (sr_storeId r, sr_shippingFee r)) rs))), vo_requiredScope = None\<rparr>"
    using shop sum sub fees by (auto simp: stackInputsOk_def shopOk_def storeSubtotals_def split: if_splits)
qed

lemma quoteOrder_wp:
  assumes "\<And>e. E e s" and "\<And>quote. quotedFor s lines quote \<Longrightarrow> Q quote s"
  shows "wp (quoteOrder env dto cid phone lines) Q E s"
  unfolding quoteOrder_def Let_def wp_seq
proof (rule wp_conseq [OF resolveStoreShipping_read])
  fix rs :: "shipping_record list" and t
  assume rs: "t = s \<and> (\<forall>r \<in> set rs. \<exists>opt \<in> set (dbShippingOptions s). sr_shippingFee r = so_price opt)"
  let ?fee = "\<Sum>r\<leftarrow>rs. sr_shippingFee r"
  let ?plain = "\<lparr>oq_subtotal = orderSubtotal lines, oq_shippingFee = ?fee, oq_shippings = rs, oq_discount = 0,
    oq_promotions = [], oq_discounts = Map.empty\<rparr>"
  let ?opts = "\<lparr>vo_lines = Some (map promotionLine lines), vo_mode = Apply, vo_shippingFee = Some ?fee,
       vo_storeShippingFees = Some (map_of (rev (map (\<lambda>r. (sr_storeId r, sr_shippingFee r)) rs))), vo_requiredScope = None\<rparr>"
  have ok: "0 \<le> ?fee \<and> inCents ?fee \<and> 0 \<le> orderSubtotal lines \<and> stackInputsOk s (orderSubtotal lines) (storeSubtotals lines) ?opts"
    if "shopOk s" "\<forall>l \<in> set lines. 0 \<le> ln_unitPrice l \<and> 0 \<le> ln_quantity l"
  proof -
    note q = quote_inputs_ok [OF that(1), of lines rs]
    show ?thesis using q that rs orderSubtotal_nonneg [of lines] by blast
  qed
  have plain: "quotedFor s lines ?plain" using ok by (simp add: quotedFor_def)
  have stacked: "quotedFor s lines (?plain\<lparr>oq_discount := sd_discountAmount d, oq_promotions := ps, oq_discounts := ds\<rparr>)"
    if "fst (applyStackedPromotions env s (orderSubtotal lines) (storeSubtotals lines) pc cs cu ?opts None) = Inr d" for pc cs cu d ps ds
  proof -
    from that obtain m where "applyStackedPromotions env s (orderSubtotal lines) (storeSubtotals lines) pc cs cu ?opts None = (Inr d, m)"
      by (metis prod.collapse)
    from applyStacked_bounds [OF this] ok show ?thesis by (simp add: quotedFor_def)
  qed
  show "wp (if \<not> truthy (coi_platformPromotionCode dto) \<and> orderCodes dto = [] then retM ?plain
      else seqM (readM (\<lambda>s. fst (applyStackedPromotions env s (orderSubtotal lines) (storeSubtotals lines) (coi_platformPromotionCode dto)
             (Some (orderCodes dto))
             (if truthy cid then Some \<lparr>cid_customerId = cid, cid_guestPhone = None\<rparr>
              else if truthy phone then Some \<lparr>cid_customerId = None, cid_guestPhone = phone\<rparr> else None) ?opts None)))
        (\<lambda>d. retM (?plain\<lparr>oq_discount := sd_discountAmount d, oq_promotions := sd_promotions d, oq_discounts := sd_discountsByPromotionId d\<rparr>)))
     Q E t"
    unfolding wp_if wp_seq wp_readM wp_ret
    using rs assms plain stacked by (auto split: sum.split)
next
  show "E e t" if "t = s" for e t using that assms(1) by simp
qed

section \<open>Creating an order\<close>

text \<open>With a customer or a session the cart methods never raise.\<close>

definition answers :: "('s, 'a) op \<Rightarrow> bool" where
  "answers m \<longleftrightarrow> (\<forall>s. \<exists>x t. m s = (Inr x, t))"

lemma answers_basic:
  "answers (retM x)" "answers (getM f)" "answers (modM g)" "answers (freshId env)" "answers (\<lambda>a. (Inr (v a), h a))"
  "answers (Pair (Inr x))"
  by (simp_all add: answers_def)

lemma answers_seq: "answers m \<Longrightarrow> (\<And>x. answers (f x)) \<Longrightarrow> answers (seqM m f)"
  unfolding answers_def by (metis seqM_simps(2))

lemma answers_after: "answers m \<Longrightarrow> answers (\<lambda>b. m (g b))"
  and answers_run: "answers m \<Longrightarrow> \<exists>x t. m s = (Inr x, t)"
  by (simp_all add: answers_def)

lemma answers_if: "answers m \<Longrightarrow> answers n \<Longrightarrow> answers (if b then m else n)"
  by simp

lemma answers_forM: "(\<And>x. answers (f x)) \<Longrightarrow> answers (forM f xs)"
  by (induction xs) (auto intro!: answers_basic answers_seq)

lemmas answers_rules = answers_basic answers_seq answers_if answers_forM

lemma answers_wp: "answers m \<Longrightarrow> wp m Q E s = wp m Q (\<lambda>_ _. False) s"
  unfolding answers_def wp_def by (metis (no_types, lifting) case_prod_conv old.sum.simps(6))

lemma getCart_answers: "truthy cid \<or> truthy sid \<Longrightarrow> answers (getCart env cid sid)"
  and removeItems_answers: "truthy cid \<or> truthy sid \<Longrightarrow> answers (removeItems env ids cid sid)"
proof -
  assume id: "truthy cid \<or> truthy sid"
  then have "\<not> (\<not> truthy cid \<and> \<not> truthy sid)" by blast
  then have r: "answers (resolveCart env cid sid)"
    unfolding resolveCart_def
    by (auto intro!: answers_rules split: option.split)
  then show g: "answers (getCart env cid sid)"
    unfolding getCart_def purgeUnavailableItems_def capQuantitiesToStock_def capOne_def saveCartItem_def deleteCartItems_def
    by (auto intro!: answers_rules split: prod.split)
  show "answers (removeItems env ids cid sid)"
    unfolding removeItems_def deleteCartItems_def using r g by (auto intro!: answers_rules split: prod.split)
qed

lemma sameShop_tables:
  assumes "sameShop s t"
  shows "dbOrders t = dbOrders s" "dbItems t = dbItems s" "stockOf t = stockOf s" "alreadyRestored t = alreadyRestored s"
    "idCount s \<le> idCount t" "catalogOk t = catalogOk s" "usages t = usages s" "dbShippings t = dbShippings s"
  using assms stockOf_cong [of t s] alreadyRestored_cong [of t s] by (simp_all add: sameShop_def catalogOk_def usages_def)

definition created ::
    "env \<Rightarrow> order_secrets \<Rightarrow> create_order_input \<Rightarrow> db \<Rightarrow> order_line list \<Rightarrow> order_quote \<Rightarrow> (string \<Rightarrow> order_row) \<Rightarrow> string \<Rightarrow> db \<Rightarrow> bool" where
  "created env sec dto s lines quote mkRow orderId t \<longleftrightarrow>
     (\<exists>u w. sameShop s u \<and> pricedFor (coi_items dto) lines \<and>
        (catalogOk s \<longrightarrow> (\<forall>l \<in> set lines. 0 \<le> ln_unitPrice l)) \<and> quotedFor u lines quote \<and>
        (\<exists>l p em is m. mkRow = newOrderRow env sec dto l p em is m quote) \<and>
        placed env lines quote mkRow u orderId w \<and> sameShop w t)"

lemma createOrder_wp:
  assumes fail: "\<And>e t. sameShop s t \<Longrightarrow> E e t"
    and ok: "\<And>lines quote mkRow orderId t view tok. created env sec dto s lines quote mkRow orderId t \<Longrightarrow>
      findOrder t orderId = Some (fst view) \<Longrightarrow> snd view = orderItems t orderId \<Longrightarrow> Q (view, tok) t"
  shows "wp (createOrder env sec dto cid) Q E s"
proof -
  let ?ids = "nullish (coi_cartItemIds dto) []"
  have finish: "wp (seqM (if ?ids = [] then retM () else seqM (removeItems env ?ids cid (coi_sessionId dto)) (\<lambda>_. retM ())) (\<lambda>_.
        seqM (findOneOrder orderId) (\<lambda>created. retM (created, tok)))) Q E w"
    if u: "sameShop s u" "pricedFor (coi_items dto) lines" "catalogOk s \<longrightarrow> (\<forall>l \<in> set lines. 0 \<le> ln_unitPrice l)" "quotedFor u lines quote"
      "\<exists>l p em is m. mkRow = newOrderRow env sec dto l p em is m quote" "placed env lines quote mkRow u orderId w"
      and id: "?ids \<noteq> [] \<longrightarrow> truthy cid \<or> truthy (coi_sessionId dto)" for u w lines quote mkRow orderId tok
  proof -
    have row: "o_id (mkRow i) = i" for i using u(5) by (auto simp: newOrderRow_def)
    have last: "wp (seqM (findOneOrder orderId) (\<lambda>created. retM (created, tok))) Q E t" if t: "sameShop w t" for t
    proof -
      have c: "created env sec dto s lines quote mkRow orderId t" unfolding created_def using u t by blast
      have "dbOrders t = dbOrders u @ [mkRow orderId]"
        using u(6) sameShop_tables(1) [OF t] by (auto simp: placed_def)
      then obtain ord where ord: "findOrder t orderId = Some ord"
        by (cases "findOrder t orderId") (auto simp: findOrder_def byKey_def find_None_all row)
      with ok [OF c, of "(ord, orderItems t orderId)" tok] show ?thesis
        by (simp add: findOneOrder_def loadOrderWithItems_def wp)
    qed
    show ?thesis
    proof (cases "?ids = []")
      case True
      then show ?thesis using last [OF sameShop_refl] by (simp add: wp)
    next
      case False
      with id have a: "answers (removeItems env ?ids cid (coi_sessionId dto))" using removeItems_answers by blast
      have "wp (removeItems env ?ids cid (coi_sessionId dto)) (\<lambda>_. wp (seqM (findOneOrder orderId) (\<lambda>created. retM (created, tok))) Q E) E w"
        unfolding answers_wp [OF a, of _ E] answers_wp [OF a, of _ "\<lambda>_ _. True", symmetric]
        by (rule wp_sameShop [OF removeItems_shop]) (auto intro: last)
      then show ?thesis using False by (simp add: wp_seq wp_ret)
    qed
  qed
  have cart: "wp (assertCartLinesStillPresent env dto cid)
      (\<lambda>_ t. sameShop s t \<and> (?ids \<noteq> [] \<longrightarrow> truthy cid \<or> truthy (coi_sessionId dto))) (\<lambda>_ t. sameShop s t) s"
  proof (cases "?ids = [] \<or> truthy cid \<or> truthy (coi_sessionId dto)")
    case True
    show ?thesis by (rule wp_sameShop [OF assertCartLines_shop]) (use True in auto)
  next
    case False
    then have "assertCartLinesStillPresent env dto cid s = (Inl (BadRequest ''CART_IDENTITY_REQUIRED''), s)"
      by (simp add: assertCartLinesStillPresent_def getCart_def resolveCart_def Let_def)
    then show ?thesis by (simp add: wp_def)
  qed
  have place: "wp (seqM (txnM (placeOrder env dto address lines quote mkRow)) (\<lambda>orderId.
        seqM (if ?ids = [] then retM () else seqM (removeItems env ?ids cid (coi_sessionId dto)) (\<lambda>_. retM ())) (\<lambda>_.
        seqM (findOneOrder orderId) (\<lambda>created. retM (created, tok))))) Q E u"
    if u: "sameShop s u" "pricedFor (coi_items dto) lines" "catalogOk s \<longrightarrow> (\<forall>l \<in> set lines. 0 \<le> ln_unitPrice l)" "quotedFor u lines quote"
      and row: "\<exists>l p em is m. mkRow = newOrderRow env sec dto l p em is m quote"
      and id: "?ids \<noteq> [] \<longrightarrow> truthy cid \<or> truthy (coi_sessionId dto)" for u lines quote mkRow address tok
    unfolding wp_seq [of "txnM (placeOrder env dto address lines quote mkRow)"]
  proof (rule placeOrder_wp)
    show "o_id (mkRow i) = i" for i using row by (auto simp: newOrderRow_def)
  qed (use fail u(1) finish [OF u row _ id] in auto)
  have quote: "wp (seqM (priceOrder env (coi_items dto)) (\<lambda>lines.
        seqM (quoteOrder env dto cid phone lines) (\<lambda>quote.
        seqM (txnM (placeOrder env dto address lines quote (newOrderRow env sec dto l p em is m quote))) (\<lambda>orderId.
        seqM (if ?ids = [] then retM () else seqM (removeItems env ?ids cid (coi_sessionId dto)) (\<lambda>_. retM ())) (\<lambda>_.
        seqM (findOneOrder orderId) (\<lambda>created. retM (created, tok))))))) Q E u"
    if u: "sameShop s u" "?ids \<noteq> [] \<longrightarrow> truthy cid \<or> truthy (coi_sessionId dto)" for u phone l p em "is" m address tok
    unfolding wp_seq [of "priceOrder env (coi_items dto)"]
  proof (rule priceOrder_wp)
    fix lines
    assume lines: "pricedFor (coi_items dto) lines" "catalogOk u \<Longrightarrow> \<forall>l \<in> set lines. 0 \<le> ln_unitPrice l"
    then have nn: "catalogOk s \<longrightarrow> (\<forall>l \<in> set lines. 0 \<le> ln_unitPrice l)" using sameShop_tables(6) [OF u(1)] by blast
    show "wp (seqM (quoteOrder env dto cid phone lines) (\<lambda>quote.
        seqM (txnM (placeOrder env dto address lines quote (newOrderRow env sec dto l p em is m quote))) (\<lambda>orderId.
        seqM (if ?ids = [] then retM () else seqM (removeItems env ?ids cid (coi_sessionId dto)) (\<lambda>_. retM ())) (\<lambda>_.
        seqM (findOneOrder orderId) (\<lambda>created. retM (created, tok)))))) Q E u"
      unfolding wp_seq [of "quoteOrder env dto cid phone lines"]
      by (rule quoteOrder_wp) (use fail u place [OF u(1) lines(1) nn] in blast)+
  qed (use fail u in blast)
  have email: "wp (seqM (if b then seqM (setEmailIfMissing env i email) (\<lambda>_. retM ()) else retM ()) f) Q E u"
    if "sameShop s u" "\<And>u. sameShop s u \<Longrightarrow> wp (f ()) Q E u" for b i email f u
  proof -
    have "preserves (sameShop s) (if b then seqM (setEmailIfMissing env i email) (\<lambda>_. retM ()) else retM ())"
      by (auto intro!: pres)
    from preserves_wp [THEN iffD1, OF this, rule_format, OF that(1)] show ?thesis
      unfolding wp_seq [of "if b then seqM (setEmailIfMissing env i email) (\<lambda>_. retM ()) else retM ()"]
      by (rule wp_conseq) (use fail that(2) in auto)
  qed
  have link: "wp (seqM (getM (\<lambda>s. linkGuest s cid phone)) (\<lambda>linkedId.
      seqM (if truthy linkedId \<and> email \<noteq> None then seqM (setEmailIfMissing env (the linkedId) email) (\<lambda>_. retM ()) else retM ()) (\<lambda>_.
      seqM (readM (\<lambda>s. resolveShippingSnapshot s cid dto)) (\<lambda>address.
      seqM (priceOrder env (coi_items dto)) (\<lambda>lines.
        seqM (quoteOrder env dto cid phone lines) (\<lambda>quote.
        seqM (txnM (placeOrder env dto address lines quote (newOrderRow env sec dto linkedId phone em is m quote))) (\<lambda>orderId.
        seqM (if ?ids = [] then retM () else seqM (removeItems env ?ids cid (coi_sessionId dto)) (\<lambda>_. retM ())) (\<lambda>_.
        seqM (findOneOrder orderId) (\<lambda>created. retM (created, tok)))))))))) Q E u"
    if u: "sameShop s u" "?ids \<noteq> [] \<longrightarrow> truthy cid \<or> truthy (coi_sessionId dto)" for u phone em email "is" m tok
    unfolding wp_seq [of "getM (\<lambda>s. linkGuest s cid phone)"] wp_get
  proof (rule email [OF u(1)])
    fix u'
    assume u': "sameShop s u'"
    show "wp (seqM (readM (\<lambda>s. resolveShippingSnapshot s cid dto)) (\<lambda>address.
      seqM (priceOrder env (coi_items dto)) (\<lambda>lines.
        seqM (quoteOrder env dto cid phone lines) (\<lambda>quote.
        seqM (txnM (placeOrder env dto address lines quote (newOrderRow env sec dto (linkGuest u cid phone) phone em is m quote))) (\<lambda>orderId.
        seqM (if ?ids = [] then retM () else seqM (removeItems env ?ids cid (coi_sessionId dto)) (\<lambda>_. retM ())) (\<lambda>_.
        seqM (findOneOrder orderId) (\<lambda>created. retM (created, tok)))))))) Q E u'"
      unfolding wp_seq [of "readM (\<lambda>s. resolveShippingSnapshot s cid dto)"] wp_readM
      by (cases "resolveShippingSnapshot u' cid dto") (simp_all only: sum.case fail [OF u'] quote [OF u' u(2)])
  qed
  have guard: "wp (seqM (failIf g x) f) Q E s" if "wp (f ()) Q E s" for g x f
    using that fail [OF sameShop_refl] by (simp add: wp)
  have lift: "wp (seqM (liftM r) f) Q E s" if "\<And>m. wp (f m) Q E s" for r and f :: "payment_method \<Rightarrow> _"
    using that fail [OF sameShop_refl] by (simp add: wp split: sum.split)
  show ?thesis
    unfolding createOrder_def Let_def
    by (rule lift, rule guard, unfold wp_seq [of "assertCartLinesStillPresent env dto cid"], rule wp_conseq [OF cart])
      (use link fail in blast)+
qed

section \<open>Properties\<close>

definition orderedOf :: "order_item_input list \<Rightarrow> string \<Rightarrow> int" where
  "orderedOf items w = (\<Sum>i\<leftarrow>items. if oin_variantId i = Some w then oin_quantity i else 0)"

lemma takenBy_ordered:
  "pricedFor items lines \<Longrightarrow> takenBy lines = orderedOf items"
proof -
  assume "pricedFor items lines"
  then have "map ln_quantity lines = map oin_quantity items" "map (Some \<circ> lineVariant) lines = map oin_variantId items"
    by (simp_all add: pricedFor_def)
  then have "takenBy lines w = orderedOf items w" for w
    unfolding takenBy_def orderedOf_def by (induction items arbitrary: lines) (auto simp: map_eq_Cons_conv)
  then show ?thesis by (rule ext)
qed

lemma priced_variants: "pricedFor items lines \<Longrightarrow> i \<in> set items \<Longrightarrow> \<exists>l \<in> set lines. oin_variantId i = Some (lineVariant l)"
proof -
  assume p: "pricedFor items lines" and i: "i \<in> set items"
  then have "oin_variantId i \<in> set (map (Some \<circ> lineVariant) lines)" unfolding pricedFor_def by (metis image_eqI list.set_map)
  then show ?thesis by auto
qed

text \<open>Identifiers handed out from now on belong to no order yet.\<close>

definition ordersFresh :: "env \<Rightarrow> db \<Rightarrow> bool" where
  "ordersFresh env s \<longleftrightarrow> (\<forall>n \<ge> idCount s. envUuid env n \<notin> o_id ` set (dbOrders s) \<and> envUuid env n \<notin> oi_orderId ` set (dbItems s))"

lemma list_all2_map2_filter:
  assumes "list_all2 (rowFor env s orderId) lines rows" and "length js = length rows"
  shows "filter (\<lambda>i. oi_orderId i = orderId) (map2 (\<lambda>r i. r i) rows js) = map2 (\<lambda>r i. r i) rows js"
  using assms
proof (induction arbitrary: js rule: list_all2_induct)
  case (Cons l ls r rows)
  then show ?case by (cases js) (auto simp: rowFor_def newItemRow_def)
qed simp

lemma created_view:
  assumes c: "created env sec dto s lines quote mkRow orderId t" and fresh: "ordersFresh env s"
  shows "findOrder t orderId = Some (mkRow orderId)"
    "\<exists>rows js u. list_all2 (rowFor env u orderId) lines rows \<and> length js = length rows \<and> orderItems t orderId = map2 (\<lambda>r i. r i) rows js"
proof -
  from c obtain u w where u: "sameShop s u" and pl: "placed env lines quote mkRow u orderId w" and w: "sameShop w t"
    and row: "\<exists>l p em is m. mkRow = newOrderRow env sec dto l p em is m quote" unfolding created_def by blast
  note su = sameShop_tables [OF u] and wt = sameShop_tables [OF w]
  have id: "orderId = envUuid env (idCount u)" and os: "dbOrders t = dbOrders s @ [mkRow orderId]"
    using pl by (simp_all add: placed_def su wt)
  from id have new: "orderId \<notin> o_id ` set (dbOrders s)" "orderId \<notin> oi_orderId ` set (dbItems s)"
    using fresh su(5) by (auto simp: ordersFresh_def)
  from row have "o_id (mkRow orderId) = orderId" by (auto simp: newOrderRow_def)
  moreover have find: "List.find P (xs @ [x]) = (if P x then Some x else None)" if "\<And>y. y \<in> set xs \<Longrightarrow> \<not> P y" for P xs and x :: order_row
    using that by (induction xs) auto
  have "List.find (\<lambda>x. o_id x = orderId) (dbOrders s @ [mkRow orderId]) = (if o_id (mkRow orderId) = orderId then Some (mkRow orderId) else None)"
    by (rule find) (use new(1) in blast)
  ultimately show "findOrder t orderId = Some (mkRow orderId)"
    by (simp add: findOrder_def byKey_def os)
  from pl obtain rows m where rows: "list_all2 (rowFor env u orderId) lines rows"
    "dbItems t = dbItems s @ map2 (\<lambda>r i. r i) rows (freshIds env m (length rows))"
    unfolding placed_def su wt by blast
  have "filter (\<lambda>i. oi_orderId i = orderId) (dbItems s) = []" using new(2) by (auto simp: filter_empty_conv)
  then have "orderItems t orderId = map2 (\<lambda>r i. r i) rows (freshIds env m (length rows))"
    using list_all2_map2_filter [OF rows(1)] by (simp add: orderItems_def rows(2))
  with rows(1) show "\<exists>rows js u. list_all2 (rowFor env u orderId) lines rows \<and> length js = length rows \<and> orderItems t orderId = map2 (\<lambda>r i. r i) rows js"
    by (metis length_freshIds)
qed

lemma created_stock:
  assumes "created env sec dto s lines quote mkRow orderId t"
  shows "stockOf t w = map_option (\<lambda>q. q - orderedOf (coi_items dto) w) (stockOf s w)"
    "i \<in> set (coi_items dto) \<Longrightarrow> \<exists>q \<ge> 0. \<exists>v. oin_variantId i = Some v \<and> stockOf t v = Some q"
    "alreadyRestored t = alreadyRestored s"
proof -
  from assms obtain u w where u: "sameShop s u" and pl: "placed env lines quote mkRow u orderId w" and w: "sameShop w t"
    and p: "pricedFor (coi_items dto) lines" unfolding created_def by blast
  note su = sameShop_tables [OF u] and wt = sameShop_tables [OF w] and q = pl [unfolded placed_def]
  show "stockOf t w = map_option (\<lambda>q. q - orderedOf (coi_items dto) w) (stockOf s w)" for w
    using q by (simp add: su wt takenBy_ordered [OF p])
  show "alreadyRestored t = alreadyRestored s" using q by (simp add: su wt)
  show "\<exists>q \<ge> 0. \<exists>v. oin_variantId i = Some v \<and> stockOf t v = Some q" if "i \<in> set (coi_items dto)"
  proof -
    from priced_variants [OF p that] obtain l where "l \<in> set lines" "oin_variantId i = Some (lineVariant l)" by blast
    with q show ?thesis unfolding wt by blast
  qed
qed

definition sampleProduct :: product_row where
  "sampleProduct = \<lparr>p_id = ''p'', p_storeId = ''s'', p_name = ''n'', p_slug = ''n'', p_description = None, p_basePrice = 10,
     p_compareAtPrice = None, p_status = PR_PUBLISHED, p_categoryId = None, p_petTypeId = None, p_brandId = None, p_category = None,
     p_tags = [], p_warning = None, p_expiryDate = None, p_metadata = JNull, p_averageRating = 0, p_reviewCount = 0,
     p_createdAt = 0, p_updatedAt = 0, p_deletedAt = None\<rparr>"

definition sampleMarket :: db where
  "sampleMarket = empty_db\<lparr>dbVariants := [sampleVariant], dbProducts := [sampleProduct]\<rparr>"

definition sampleOrderInput :: "order_item_input list \<Rightarrow> create_order_input" where
  "sampleOrderInput items = \<lparr>coi_items = items, coi_savedAddressId = None,
     coi_shippingAddress = Some \<lparr>ai_recipientName = ''a'', ai_recipientPhone = ''0'', ai_addressLine1 = ''b'', ai_addressLine2 = None,
       ai_tumbon = None, ai_amphoe = ''c'', ai_city = None, ai_province = ''d'', ai_postalCode = ''e''\<rparr>,
     coi_promotionCode = None, coi_platformPromotionCode = None, coi_storePromotionCodes = None, coi_storeShipping = None,
     coi_guestPhone = None, coi_guestName = None, coi_guestEmail = None, coi_notes = None,
     coi_paymentMethod = payment_method_text PM_BANK_TRANSFER, coi_sessionId = None, coi_cartItemIds = None\<rparr>"

definition sampleOrderItem :: order_item_input where
  "sampleOrderItem = \<lparr>oin_productId = ''p'', oin_variantId = Some ''v'', oin_quantity = 2, oin_price = 10\<rparr>"

definition sampleSecrets :: order_secrets where
  "sampleSecrets = \<lparr>os_orderNumber = ''n'', os_token = ''t'', os_hash = id\<rparr>"

lemma sampleVariant_simps [simp]:
  "v_id sampleVariant = ''v''" "v_productId sampleVariant = ''p''" "v_deletedAt sampleVariant = None" "v_retiredAt sampleVariant = None"
  "v_stockQuantity sampleVariant = 5" "v_priceAdjustment sampleVariant = 0"
  by (simp_all add: sampleVariant_def)

lemma sampleProduct_simps [simp]:
  "p_id sampleProduct = ''p''" "p_deletedAt sampleProduct = None" "p_storeId sampleProduct = ''s''" "p_basePrice sampleProduct = 10"
  by (simp_all add: sampleProduct_def)

lemma catalogUnit_sample [simp]: "catalogUnitOf sampleProduct sampleVariant = 10"
  by (simp add: catalogUnitOf_def roundMoney_def js_round_def)

definition sampleLineOrdered :: order_line where
  "sampleLineOrdered = \<lparr>ln_variant = sampleVariant, ln_product = sampleProduct, ln_quantity = 2, ln_catalogUnit = 10, ln_unitPrice = 10,
     ln_saleCampaignId = None, ln_saleDiscountPercent = None\<rparr>"

lemma sample_price:
  "resolveEffectiveUnitPrices sampleIds [\<lparr>pl_productId = ''p'', pl_variantId = ''v'', pl_catalogUnit = 10\<rparr>] sampleMarket ''v'' =
     Some \<lparr>eu_catalogUnitPrice = 10, eu_unitPrice = 10, eu_saleCampaignId = None, eu_saleDiscountPercent = None, eu_compareAtPrice = None\<rparr>"
  by (simp add: resolveEffectiveUnitPrices_def Let_def findActiveItemsForProducts_def sampleMarket_def empty_db_def
      selectWinningCampaignItem_def resolveEffectiveUnitFromItem_def roundMoney_def js_round_def)

lemma sample_priced: "priceOrder sampleIds [sampleOrderItem] sampleMarket = (Inr [sampleLineOrdered], sampleMarket)"
  using sample_price
  by (simp add: priceOrder_def sampleOrderItem_def orderLine_def sampleMarket_def liveVariant_def liveProduct_def liveStore_def empty_db_def
      sampleLineOrdered_def priceLineOf_def repriceLine_def)

lemma sample_live_price: "dbSaleCampaignItems s = [] \<Longrightarrow> livePrice sampleIds s sampleProduct sampleVariant = (10, 10)"
  by (simp add: livePrice_def Let_def resolveEffectiveUnitPrices_def findActiveItemsForProducts_def
      selectWinningCampaignItem_def resolveEffectiveUnitFromItem_def roundMoney_def js_round_def)

definition sampleQuote :: order_quote where
  "sampleQuote = \<lparr>oq_subtotal = 20, oq_shippingFee = 0, oq_shippings = [], oq_discount = 0, oq_promotions = [], oq_discounts = Map.empty\<rparr>"

lemma sample_quoted: "quoteOrder sampleIds (sampleOrderInput items) cid phone [sampleLineOrdered] s = (Inr sampleQuote, s)"
  by (simp add: quoteOrder_def sampleOrderInput_def Let_def resolveStoreShipping_def orderCodes_def sampleQuote_def
      orderSubtotal_def lineAmount_def sampleLineOrdered_def)

lemma sample_reserved:
  assumes "dbVariants s = [sampleVariant]" and "dbProducts s = [sampleProduct]" and "dbSaleCampaignItems s = []"
  shows "\<exists>row t. reserveLine sampleIds i sampleLineOrdered s = (Inr row, t)"
  using assms by (simp add: reserveLine_def sampleLineOrdered_def liveVariant_def liveProduct_def sample_live_price recordTx_def)

lemma sample_placed:
  assumes "\<And>i. o_id (mkRow i) = i"
  shows "\<exists>i t. placeOrder sampleIds dto a [sampleLineOrdered] sampleQuote mkRow sampleMarket = (Inr i, t) \<and>
    placed sampleIds [sampleLineOrdered] sampleQuote mkRow sampleMarket i t"
proof -
  let ?s = "\<lambda>sa. sampleMarket\<lparr>idCount := Suc (Suc 0), dbOrders := [mkRow (envUuid sampleIds 0)], dbShippingAddresses := [sa]\<rparr>"
  have "\<forall>sa. \<exists>row u. reserveLine sampleIds (envUuid sampleIds 0) sampleLineOrdered (?s sa) = (Inr row, u)"
    by (intro allI sample_reserved) (simp_all add: sampleMarket_def empty_db_def)
  then obtain row u where r: "reserveLine sampleIds (envUuid sampleIds 0) sampleLineOrdered (?s sa) = (Inr (row sa), u sa)" for sa by metis
  have "\<exists>i t. placeOrder sampleIds dto a [sampleLineOrdered] sampleQuote mkRow sampleMarket = (Inr i, t)"
    using r
    by (simp add: placeOrder_def insertOrder_def insertAddress_def placeLines_def sampleQuote_def assms sampleMarket_def empty_db_def)
      (rule answers_run, auto simp: insertItem_def recordPlaced_def appendAudit_def publishOrderActivity_def emit_def Let_def
        intro!: answers_rules answers_after)
  then obtain i t where p: "placeOrder sampleIds dto a [sampleLineOrdered] sampleQuote mkRow sampleMarket = (Inr i, t)" by blast
  have "wp (txnM (placeOrder sampleIds dto a [sampleLineOrdered] sampleQuote mkRow))
      (placed sampleIds [sampleLineOrdered] sampleQuote mkRow sampleMarket) (\<lambda>_ _. True) sampleMarket"
    by (rule placeOrder_wp) (simp_all add: assms)
  from wp_Inr [OF this, of i t] p show ?thesis by auto
qed

lemma sample_created:
  "\<exists>view tok t. createOrder sampleIds sampleSecrets (sampleOrderInput [sampleOrderItem]) (Some ''u'') sampleMarket = (Inr (view, tok), t)"
proof -
  let ?dto = "sampleOrderInput [sampleOrderItem]"
  have in_simps: "coi_items ?dto = [sampleOrderItem]" "coi_cartItemIds ?dto = None" "coi_guestPhone ?dto = None" "coi_guestEmail ?dto = None"
    "coi_paymentMethod ?dto = ''bank_transfer''" by (simp_all add: sampleOrderInput_def)
  obtain a where a: "resolveShippingSnapshot sampleMarket (Some ''u'') ?dto = Inr a"
    by (simp add: resolveShippingSnapshot_def sampleOrderInput_def resolveAmphoe_def)
  let ?row = "newOrderRow sampleIds sampleSecrets ?dto (Some ''u'') None None None PM_BANK_TRANSFER sampleQuote"
  have id: "o_id (?row i) = i" for i by (simp add: newOrderRow_def)
  obtain i t where t: "placeOrder sampleIds ?dto a [sampleLineOrdered] sampleQuote ?row sampleMarket = (Inr i, t)"
    "placed sampleIds [sampleLineOrdered] sampleQuote ?row sampleMarket i t" using sample_placed [OF id] by blast
  have "dbOrders t = [?row i]" using t(2) by (simp add: placed_def sampleMarket_def empty_db_def)
  then have "findOrder t i = Some (?row i)" by (simp add: findOrder_def byKey_def id)
  then show ?thesis
    by (simp add: createOrder_def Let_def in_simps normalizeCheckoutPaymentMethod_def
      SUPPORTED_METHODS_def js_trim_def assertCartLinesStillPresent_def linkGuest_def a t(1) txnM_def findOneOrder_def loadOrderWithItems_def
      seqM_simps(2) [where m = "priceOrder sampleIds [sampleOrderItem]", OF sample_priced]
      seqM_simps(2) [where m = "quoteOrder sampleIds d c p [sampleLineOrdered]" for d c p, OF sample_quoted])
qed

text \<open>The rows of an order, line by line.\<close>

definition lineRow :: "order_line \<Rightarrow> item_row \<Rightarrow> bool" where
  "lineRow l i \<longleftrightarrow> oi_variantId i = lineVariant l \<and> oi_quantity i = ln_quantity l \<and> oi_unitPrice i = toDecimal2 (ln_unitPrice l) \<and>
     oi_subtotal i = toDecimal2 (lineAmount l) \<and> oi_fulfillmentStatus i = FS_PENDING"

lemma rows_lineRow:
  "list_all2 (rowFor env u orderId) lines rows \<Longrightarrow> length js = length rows \<Longrightarrow>
     list_all2 lineRow lines (map2 (\<lambda>r i. r i) rows js)"
proof (induction arbitrary: js rule: list_all2_induct)
  case (Cons l ls r rows)
  then show ?case by (cases js) (auto simp: rowFor_def lineRow_def newItemRow_def)
qed simp

lemma lineRows_subtotal:
  assumes "list_all2 lineRow lines items" and "\<And>l. l \<in> set lines \<Longrightarrow> inCents (ln_unitPrice l)"
  shows "(\<Sum>i\<leftarrow>items. oi_subtotal i) = orderSubtotal lines" "inCents (orderSubtotal lines)"
    "i \<in> set items \<Longrightarrow> \<exists>l \<in> set lines. lineRow l i"
proof -
  have cents: "inCents (lineAmount l)" if "l \<in> set lines" for l
    unfolding lineAmount_def by (rule inCents_mult) (rule assms(2) [OF that])
  then show "inCents (orderSubtotal lines)" unfolding orderSubtotal_def by (rule inCents_sum)
  show "(\<Sum>i\<leftarrow>items. oi_subtotal i) = orderSubtotal lines"
    using assms(1) cents unfolding orderSubtotal_def
    by (induction rule: list_all2_induct) (auto simp: lineRow_def toDecimal2_cents)
  show "\<exists>l \<in> set lines. lineRow l i" if "i \<in> set items"
    using assms(1) that by (induction rule: list_all2_induct) auto
qed

lemma priced_quantities: "pricedFor items lines \<Longrightarrow> l \<in> set lines \<Longrightarrow> \<exists>i \<in> set items. ln_quantity l = oin_quantity i"
proof -
  assume p: "pricedFor items lines" and l: "l \<in> set lines"
  then have "ln_quantity l \<in> set (map oin_quantity items)" unfolding pricedFor_def by (metis image_eqI list.set_map)
  then show ?thesis by auto
qed

lemma toDecimal2_sum_error:
  assumes "inCents a" and "inCents b"
  shows "\<bar>toDecimal2 (a + b - d) - (toDecimal2 a + toDecimal2 b - toDecimal2 d)\<bar> \<le> 1 / 100"
  using toDecimal2_error [of "a + b - d"] toDecimal2_error [of d] unfolding toDecimal2_cents [OF assms(1)] toDecimal2_cents [OF assms(2)]
  by (simp only: abs_le_iff) linarith

lemma created_totals:
  assumes c: "created env sec dto s lines quote mkRow orderId t" and shop: "shopOk s" and fresh: "ordersFresh env s"
    and q: "\<And>i. i \<in> set (coi_items dto) \<Longrightarrow> 0 \<le> oin_quantity i"
  shows "\<exists>ord. findOrder t orderId = Some ord \<and> o_status ord = OS_PENDING_PAYMENT \<and>
    o_subtotal ord = (\<Sum>i\<leftarrow>orderItems t orderId. oi_subtotal i) \<and> 0 \<le> o_total ord \<and>
    \<bar>o_total ord - (o_subtotal ord + o_shippingFee ord - o_discountAmount ord)\<bar> \<le> 1 / 100 \<and>
    map oi_quantity (orderItems t orderId) = map oin_quantity (coi_items dto) \<and>
    map (Some \<circ> oi_variantId) (orderItems t orderId) = map oin_variantId (coi_items dto) \<and>
    (\<forall>i \<in> set (orderItems t orderId). oi_subtotal i = oi_unitPrice i * of_int (oi_quantity i) \<and> 0 \<le> oi_unitPrice i \<and>
       oi_fulfillmentStatus i = FS_PENDING)"
proof -
  from c obtain u where u: "sameShop s u" and p: "pricedFor (coi_items dto) lines" and qu: "quotedFor u lines quote"
    and nn: "\<forall>l \<in> set lines. 0 \<le> ln_unitPrice l" and row: "\<exists>l p em is m. mkRow = newOrderRow env sec dto l p em is m quote"
    using shop unfolding created_def shopOk_def by blast
  have lq: "0 \<le> ln_quantity l" if "l \<in> set lines" for l using priced_quantities [OF p that] q by auto
  have cents: "inCents (ln_unitPrice l)" if "l \<in> set lines" for l using p that by (simp add: pricedFor_def)
  have rows: "list_all2 lineRow lines (orderItems t orderId)" using created_view(2) [OF c fresh] rows_lineRow by metis
  have fees: "0 \<le> oq_shippingFee quote" "inCents (oq_shippingFee quote)" "0 \<le> oq_discount quote"
    "oq_discount quote \<le> oq_subtotal quote + oq_shippingFee quote" and sub: "oq_subtotal quote = orderSubtotal lines"
    using qu shop nn lq unfolding quotedFor_def sameShop_shopOk [OF u] by blast+
  note st = lineRows_subtotal [OF rows cents]
  have qs: "map oi_quantity (orderItems t orderId) = map ln_quantity lines" "map (Some \<circ> oi_variantId) (orderItems t orderId) = map (Some \<circ> lineVariant) lines"
    using rows by (induction rule: list_all2_induct) (auto simp: lineRow_def)
  have each: "oi_subtotal i = oi_unitPrice i * of_int (oi_quantity i) \<and> 0 \<le> oi_unitPrice i \<and> oi_fulfillmentStatus i = FS_PENDING"
    if "i \<in> set (orderItems t orderId)" for i
  proof -
    from st(3) [OF _ that] cents obtain l where l: "l \<in> set lines" "lineRow l i" by blast
    then show ?thesis using cents [OF l(1)] nn inCents_mult [of "ln_unitPrice l" "ln_quantity l"]
      by (simp add: lineRow_def toDecimal2_cents lineAmount_def)
  qed
  let ?o = "mkRow orderId"
  have o': "o_status ?o = OS_PENDING_PAYMENT" "o_subtotal ?o = toDecimal2 (oq_subtotal quote)" "o_shippingFee ?o = toDecimal2 (oq_shippingFee quote)"
    "o_discountAmount ?o = toDecimal2 (oq_discount quote)" "o_total ?o = toDecimal2 (oq_subtotal quote + oq_shippingFee quote - oq_discount quote)"
    using row by (auto simp: newOrderRow_def)
  have subc: "inCents (orderSubtotal lines)" by (rule st(2))
  show ?thesis
    using created_view(1) [OF c fresh] o' toDecimal2_sum_error [OF subc fees(2), of "oq_discount quote"] fees(4) subc st(1) cents
      toDecimal2_nonneg [of "oq_subtotal quote + oq_shippingFee quote - oq_discount quote"] qs p each
    by (auto simp: sub toDecimal2_cents pricedFor_def)
qed

text \<open>C1. An order takes exactly the stock it orders and never more than there is: on success each variant
  loses the ordered quantity and none of the ordered ones ends below zero; on an error, whatever
  it is, the orders, the lines, the stock and the usage counts of the promotions are as before.\<close>

theorem order_takes_stock:
  assumes "createOrder env sec dto cid s = (r, t)"
  shows "case r of
      Inr _ \<Rightarrow> (\<forall>w. stockOf t w = map_option (\<lambda>q. q - orderedOf (coi_items dto) w) (stockOf s w)) \<and>
        (\<forall>i \<in> set (coi_items dto). \<exists>q \<ge> 0. \<exists>v. oin_variantId i = Some v \<and> stockOf t v = Some q)
    | Inl _ \<Rightarrow> dbOrders t = dbOrders s \<and> dbItems t = dbItems s \<and> stockOf t = stockOf s \<and> usages t = usages s"
proof -
  have "wp (createOrder env sec dto cid)
      (\<lambda>_ t. (\<forall>w. stockOf t w = map_option (\<lambda>q. q - orderedOf (coi_items dto) w) (stockOf s w)) \<and>
        (\<forall>i \<in> set (coi_items dto). \<exists>q \<ge> 0. \<exists>v. oin_variantId i = Some v \<and> stockOf t v = Some q))
      (\<lambda>_ t. dbOrders t = dbOrders s \<and> dbItems t = dbItems s \<and> stockOf t = stockOf s \<and> usages t = usages s) s"
  proof (rule createOrder_wp)
    show "dbOrders t = dbOrders s \<and> dbItems t = dbItems s \<and> stockOf t = stockOf s \<and> usages t = usages s" if "sameShop s t" for e t
      using sameShop_tables [OF that] by simp
  qed (intro conjI allI ballI; (erule created_stock(1) | erule created_stock(2)); assumption?)
  with assms show ?thesis by (simp add: wp_def)
qed

theorem order_takes_stock_witness:
  "\<exists>view t. createOrder sampleIds sampleSecrets (sampleOrderInput [sampleOrderItem]) (Some ''u'') sampleMarket = (Inr view, t) \<and>
     stockOf sampleMarket ''v'' = Some 5 \<and> stockOf t ''v'' = Some 3"
proof -
  obtain view t where t: "createOrder sampleIds sampleSecrets (sampleOrderInput [sampleOrderItem]) (Some ''u'') sampleMarket = (Inr view, t)"
    using sample_created by auto
  have "stockOf sampleMarket ''v'' = Some 5" by (simp add: stockOf_def liveVariant_def sampleMarket_def)
  with order_takes_stock [OF t] t show ?thesis by (simp add: orderedOf_def sampleOrderInput_def sampleOrderItem_def)
qed

text \<open>C2. The amounts of a new order add up: its subtotal is the sum of its lines, each the unit price
  times the quantity; its total is never negative and differs from subtotal plus shipping minus
  discount by at most a cent, because the three columns are rounded one by one. It awaits payment,
  and its lines are the ordered items in their order.\<close>

theorem order_totals:
  assumes "createOrder env sec dto cid s = (Inr ((ord, items), tok), t)" and "shopOk s" and "ordersFresh env s"
    and "\<And>i. i \<in> set (coi_items dto) \<Longrightarrow> 0 \<le> oin_quantity i"
  shows "o_status ord = OS_PENDING_PAYMENT \<and> o_subtotal ord = (\<Sum>i\<leftarrow>items. oi_subtotal i) \<and> 0 \<le> o_total ord \<and>
    \<bar>o_total ord - (o_subtotal ord + o_shippingFee ord - o_discountAmount ord)\<bar> \<le> 1 / 100 \<and>
    map oi_quantity items = map oin_quantity (coi_items dto) \<and> map (Some \<circ> oi_variantId) items = map oin_variantId (coi_items dto) \<and>
    (\<forall>i \<in> set items. oi_subtotal i = oi_unitPrice i * of_int (oi_quantity i) \<and> 0 \<le> oi_unitPrice i \<and> oi_fulfillmentStatus i = FS_PENDING)"
proof -
  have "wp (createOrder env sec dto cid) (\<lambda>((ord, items), tok) t. \<exists>lines quote mkRow i. created env sec dto s lines quote mkRow i t \<and>
      findOrder t i = Some ord \<and> items = orderItems t i) (\<lambda>_ _. True) s"
    by (rule createOrder_wp) (simp, fastforce simp: case_prod_beta)
  from wp_Inr [OF this assms(1)] obtain lines quote mkRow i where c: "created env sec dto s lines quote mkRow i t"
    "findOrder t i = Some ord" "items = orderItems t i" by auto
  from created_totals [OF c(1) assms(2,3,4)] c(2,3) show ?thesis by auto
qed

theorem order_totals_witness:
  "\<exists>ord items tok t. createOrder sampleIds sampleSecrets (sampleOrderInput [sampleOrderItem]) (Some ''u'') sampleMarket = (Inr ((ord, items), tok), t) \<and>
     map oi_quantity items = [2] \<and> o_subtotal ord = (\<Sum>i\<leftarrow>items. oi_subtotal i)"
proof -
  obtain ord items tok t where t: "createOrder sampleIds sampleSecrets (sampleOrderInput [sampleOrderItem]) (Some ''u'') sampleMarket = (Inr ((ord, items), tok), t)"
    using sample_created by auto
  have "shopOk sampleMarket" "ordersFresh sampleIds sampleMarket"
    by (simp_all add: shopOk_def catalogOk_def ordersFresh_def sampleMarket_def empty_db_def)
  from order_totals [OF t this] t show ?thesis by (auto simp: sampleOrderInput_def sampleOrderItem_def)
qed

end
