(* ===== verification/Order_System.thy ===== *)
theory Order_System
  imports Orders
begin

text \<open>
  The order services together: an order that is placed and cancelled gives its stock back; the
  status change of the administration against the rule the other services keep; and the system
  whose steps are checkout, the vendor and customer actions, and the suspension of stores. What
  every reachable state satisfies is proved by induction over the steps, and so is that a paid
  order can always be driven to its end and that no order can be worked on for ever.
\<close>

section \<open>Placing and cancelling\<close>

lemma ordered_first:
  assumes "distinct (map oin_variantId items)" and "map oi_quantity rows = map oin_quantity items"
    and "map (Some \<circ> oi_variantId) rows = map oin_variantId items"
  shows "returnedBy rows v = orderedOf items v"
  using assms
proof (induction items arbitrary: rows)
  case Nil
  then show ?case by (simp add: returnedBy_def orderedOf_def)
next
  case (Cons i items)
  then obtain r rs where r: "rows = r # rs" "oi_quantity r = oin_quantity i" "Some (oi_variantId r) = oin_variantId i"
    "map oi_quantity rs = map oin_quantity items" "map (Some \<circ> oi_variantId) rs = map oin_variantId items"
    by (auto simp: map_eq_Cons_conv comp_def)
  have rest: "orderedOf items v = 0" if "oin_variantId i = Some v"
  proof -
    have "oin_variantId j \<noteq> Some v" if "j \<in> set items" for j using Cons.prems(1) that \<open>oin_variantId i = Some v\<close> by (force simp: image_iff)
    then show ?thesis unfolding orderedOf_def by (induction items) auto
  qed
  show ?case
  proof (cases "oi_variantId r = v")
    case True
    then show ?thesis using rest r by (simp add: returnedBy_def orderedOf_def)
  next
    case False
    then have "returnedBy rows v = returnedBy rs v" by (simp add: r(1) returnedBy_def)
    moreover have "orderedOf (i # items) v = orderedOf items v" using False r(3) by (auto simp: orderedOf_def)
    ultimately show ?thesis using Cons.IH [OF _ r(4,5)] Cons.prems(1) by simp
  qed
qed

lemma created_rows:
  assumes "created env sec dto s lines quote mkRow orderId t" and "ordersFresh env s"
  shows "map oi_quantity (orderItems t orderId) = map oin_quantity (coi_items dto)"
    "map (Some \<circ> oi_variantId) (orderItems t orderId) = map oin_variantId (coi_items dto)"
proof -
  have rows: "list_all2 lineRow lines (orderItems t orderId)" using created_view(2) [OF assms] rows_lineRow by metis
  then have "map oi_quantity (orderItems t orderId) = map ln_quantity lines"
    "map (Some \<circ> oi_variantId) (orderItems t orderId) = map (Some \<circ> lineVariant) lines"
    by (induction rule: list_all2_induct) (auto simp: lineRow_def)
  then show "map oi_quantity (orderItems t orderId) = map oin_quantity (coi_items dto)"
    "map (Some \<circ> oi_variantId) (orderItems t orderId) = map oin_variantId (coi_items dto)"
    using assms(1) by (auto simp: created_def pricedFor_def)
qed

text \<open>No identifier still to be handed out is marked as restored.\<close>

definition marksFresh :: "env \<Rightarrow> db \<Rightarrow> bool" where
  "marksFresh env s \<longleftrightarrow> (\<forall>n v. idCount s \<le> n \<longrightarrow> \<not> alreadyRestored s (envUuid env n) v)"

lemma created_unmarked:
  assumes "created env sec dto s lines quote mkRow orderId t" and "marksFresh env s"
  shows "\<not> alreadyRestored t orderId v"
proof -
  from assms(1) obtain u w where u: "sameShop s u" "placed env lines quote mkRow u orderId w" "sameShop w t"
    unfolding created_def by blast
  then have "orderId = envUuid env (idCount u)" "idCount s \<le> idCount u" by (simp_all add: placed_def sameShop_def)
  then show ?thesis using assms(2) created_stock(3) [OF assms(1)] by (simp add: marksFresh_def)
qed

text \<open>C25. Cancelling undoes placing: when the lines of an order name different variants, restoring the
  stock of the order just placed leaves every variant with the stock it had before the checkout.
  (Of several lines of one variant only the first is given back, see the restoration of stock.)\<close>

theorem place_cancel_roundtrip:
  assumes "createOrder env sec dto cid s = (Inr ((ord, items), tok), t)" and "ordersFresh env s" and "marksFresh env s"
    and "distinct (map oin_variantId (coi_items dto))"
    and "restoreOrderStock env' (o_id ord) remark t = (r, u)"
  shows "stockOf u = stockOf s"
proof -
  have "wp (createOrder env sec dto cid) (\<lambda>((ord, items), tok) t. \<exists>lines quote mkRow i. created env sec dto s lines quote mkRow i t \<and>
      findOrder t i = Some ord) (\<lambda>_ _. True) s"
    by (rule createOrder_wp) (simp, fastforce simp: case_prod_beta)
  from wp_Inr [OF this assms(1)] obtain lines quote mkRow i where c: "created env sec dto s lines quote mkRow i t"
    "findOrder t i = Some ord" by auto
  have i: "o_id ord = i" using findOrder_id [OF c(2)] .
  from restoreOrderStock_spec [of env' i remark t] assms(5) obtain bs where
    "restoredTo i (orderItems t i) bs t u" unfolding i by auto
  then have u: "stockOf u v = (if restorable t i v then map_option (\<lambda>q. q + returnedBy (orderItems t i) v) (stockOf t v) else stockOf t v)" for v
    by (simp add: restoredTo_def)
  have given: "returnedBy (orderItems t i) v = orderedOf (coi_items dto) v" for v
    by (rule ordered_first [OF assms(4) created_rows [OF c(1) assms(2)]])
  have "stockOf u v = stockOf s v" for v
    using u [of v] created_stock(1) [OF c(1), of v] created_unmarked [OF c(1) assms(3), of v] given [of v]
    by (cases "stockOf s v") (simp_all add: restorable_def)
  then show ?thesis by (rule ext)
qed

theorem place_cancel_roundtrip_witness:
  "\<exists>ord items tok t r u. createOrder sampleIds sampleSecrets (sampleOrderInput [sampleOrderItem]) (Some ''u'') sampleMarket = (Inr ((ord, items), tok), t) \<and>
     restoreOrderStock sampleIds (o_id ord) None t = (r, u) \<and> stockOf u = stockOf sampleMarket"
proof -
  obtain ord items tok t where t: "createOrder sampleIds sampleSecrets (sampleOrderInput [sampleOrderItem]) (Some ''u'') sampleMarket = (Inr ((ord, items), tok), t)"
    using sample_created by auto
  obtain r u where u: "restoreOrderStock sampleIds (o_id ord) None t = (r, u)" by (cases "restoreOrderStock sampleIds (o_id ord) None t")
  have "ordersFresh sampleIds sampleMarket" "marksFresh sampleIds sampleMarket"
    by (simp_all add: ordersFresh_def marksFresh_def alreadyRestored_def sampleMarket_def empty_db_def)
  from place_cancel_roundtrip [OF t this _ u] t u show ?thesis by (auto simp: sampleOrderInput_def)
qed

section \<open>The status change of the administration\<close>

text \<open>C26. The status change of the administration to any status but cancelled, refunded and on hold looks at no line: the
  bank transfer rule apart, each of these statuses can follow every status but on hold, and the lines stay as they are. An order can so be DELIVERED with nothing shipped, or PAID again after it
  was cancelled and its stock given back.\<close>

theorem admin_status_ignores_lines:
  assumes "findOrder s oid = Some ord" and "status \<notin> {OS_CANCELLED, OS_REFUNDED, OS_ON_HOLD}" and "o_status ord \<noteq> OS_ON_HOLD"
    and "\<not> (o_paymentMethod ord = PM_BANK_TRANSFER \<and> o_status ord = OS_PENDING_PAYMENT \<and> status = OS_PAID)"
  shows "\<exists>r t. updateOrderStatus env oid status userId s = (r, t) \<and> (isl r \<longrightarrow> envMailFails env oid) \<and>
    map_option o_status (findOrder t oid) = Some status \<and> dbItems t = dbItems s"
proof -
  have id: "o_id ord = oid" using findOrder_id [OF assms(1)] .
  let ?row = "stampOrder env s (ord\<lparr>o_status := status, o_paidAt := (if status = OS_PAID then Some (envNow env) else o_paidAt ord)\<rparr>)"
  have found: "findOrder (t :: db) oid = Some ?row" if "dbOrders t = saveRow o_id ?row (dbOrders s)" for t
    using order_repo.read_own_write [of ?row "dbOrders s"] that id by (simp add: findOrder_def)
  have st: "o_status ?row = status" by simp
  let ?Q = "\<lambda>_ t. findOrder t oid = Some ?row \<and> dbItems t = dbItems s"
  let ?E = "\<lambda>_ t. envMailFails env oid \<and> findOrder t oid = Some ?row \<and> dbItems t = dbItems s"
  let ?commit = "txnM (updateStatusCommit env ord (orderItems s oid) status userId)"
  let ?rest = "\<lambda>_. seqM (loadOrderWithItems oid) (\<lambda>saved. seqM (notifyOrderStatusChanged env oid status) (\<lambda>_.
      seqM (emit (NotifyVendorsStatus oid status)) (\<lambda>_. seqM (publishOrderActivity oid (snd saved)) (\<lambda>_.
      seqM (if o_status ord = status then retM ()
           else case webhookEventForOrderStatus status of None \<Rightarrow> retM () | Some ev \<Rightarrow> emit (VendorWebhook oid ev)) (\<lambda>_. retM saved)))))"
  have commit: "wp ?commit (\<lambda>_ t. dbOrders t = saveRow o_id ?row (dbOrders s) \<and> dbItems t = dbItems s) (\<lambda>_ _. False) s"
    using assms(2) by (simp add: updateStatusCommit_def isAdminHoldExit_def Let_def saveOrder_def addHistory_def id) (simp add: wp_def txnM_def)
  have load: "wp (loadOrderWithItems oid) Q E t = Q (?row, orderItems t oid) t" if "dbOrders t = saveRow o_id ?row (dbOrders s)" for Q E t
    using found [OF that] by (simp add: loadOrderWithItems_def wp)
  have after: "wp (?rest x) ?Q ?E t" if t: "dbOrders t = saveRow o_id ?row (dbOrders s) \<and> dbItems t = dbItems s" for x t
    unfolding wp_seq load [OF conjunct1 [OF t]] wp_notifyOrderStatusChanged Let_def publishOrderActivity_def
    using found [OF conjunct1 [OF t]] t by (auto simp: wp findOrder_def split: option.split)
  have "wp ?commit (\<lambda>x. wp (?rest x) ?Q ?E) ?E s"
    by (rule wp_conseq [OF commit]) (rule after, simp_all)
  moreover have load0: "loadOrderWithItems oid s = (Inr (ord, orderItems s oid), s)" by (simp add: loadOrderWithItems_def assms(1))
  have guards: "failIf (o_paymentMethod ord = PM_BANK_TRANSFER \<and> o_status ord = OS_PENDING_PAYMENT \<and> status = OS_PAID) e = retM ()"
    "assertNotManualHoldTransition (o_status ord) status = Inr ()" for e :: exn
    using assms(2,3,4) by (auto simp: failIf_def assertNotManualHoldTransition_def)
  have "updateOrderStatus env oid status userId s = seqM ?commit ?rest s"
    unfolding updateOrderStatus_def findOneOrder_def seqM_simps(2) [where m = "loadOrderWithItems oid", OF load0] prod.case guards
      seqM_ret seqM_lift ..
  ultimately have "wp (updateOrderStatus env oid status userId) ?Q ?E s" by (simp only: wp_def wp_seq [unfolded wp_def])
  then show ?thesis using st by (cases "updateOrderStatus env oid status userId s") (auto simp: wp_def split: sum.splits)
qed

theorem admin_status_ignores_lines_witness:
  "ordersInv sampleMulti \<and> (\<exists>r t. updateOrderStatus sampleClock ''o'' OS_DELIVERED None sampleMulti = (Inr r, t) \<and> \<not> ordersInv t \<and>
     map_option o_status (findOrder t ''o'') = Some OS_DELIVERED \<and> statusesOf (orderItems t ''o'') = [FS_PROCESSING, FS_PENDING])"
proof -
  obtain r t where t: "updateOrderStatus sampleClock ''o'' OS_DELIVERED None sampleMulti = (r, t)" "\<not> isl r"
    "map_option o_status (findOrder t ''o'') = Some OS_DELIVERED" "dbItems t = dbItems sampleMulti"
    using admin_status_ignores_lines [of sampleMulti "''o''" "sampleOrder ''o'' OS_PROCESSING" OS_DELIVERED sampleClock None] by auto
  have lines: "statusesOf (orderItems t ''o'') = [FS_PROCESSING, FS_PENDING]"
    by (simp add: orderItems_def t(4) statusesOf_def)
  obtain z where z: "findOrder t ''o'' = Some z" "o_status z = OS_DELIVERED" using t(3) by auto
  then have "\<not> headerOk (o_status z) (orderItems t ''o'')"
    by (simp add: headerOk_def lines terminalOrderStatuses_def deriveOrderStatusFromFulfillment_def)
  then have "\<not> ordersInv t" using z(1) by (auto simp: ordersInv_def)
  with t lines sampleMulti_inv show ?thesis by (cases r) auto
qed

section \<open>Sound lines and stock\<close>

text \<open>Every line remembers what it was held from and does not have a negative quantity, and no variant
  has a negative stock.\<close>

definition lineOk :: "item_row \<Rightarrow> bool" where
  "lineOk i \<longleftrightarrow> heldOk i \<and> 0 \<le> oi_quantity i"

definition stockSound :: "db \<Rightarrow> bool" where
  "stockSound s \<longleftrightarrow> (\<forall>i \<in> set (dbItems s). lineOk i) \<and> (\<forall>w q. stockOf s w = Some q \<longrightarrow> 0 \<le> q)"

lemma stockSound_frame:
  "dbItems t = dbItems s \<Longrightarrow> dbVariants t = dbVariants s \<Longrightarrow> stockSound t = stockSound s"
  by (simp add: stockSound_def stockOf_def liveVariant_def)

lemma stockSound_upd [simp]:
  "stockSound (s\<lparr>dbOrders := os\<rparr>) = stockSound s" "stockSound (s\<lparr>dbHistory := hs\<rparr>) = stockSound s"
  "stockSound (s\<lparr>dbAudits := as\<rparr>) = stockSound s" "stockSound (s\<lparr>dbEffects := es\<rparr>) = stockSound s"
  "stockSound (s\<lparr>idCount := n\<rparr>) = stockSound s" "stockSound (s\<lparr>dbPayments := ps\<rparr>) = stockSound s"
  by (rule stockSound_frame; simp)+

lemma lineOk_stamp [simp]: "lineOk (stampItem env s i) = lineOk i"
  by (simp add: lineOk_def heldOk_def stampItem_def)

lemma lineOk_changes:
  "lineOk i \<Longrightarrow> lineOk (ackItem env i)" "lineOk i \<Longrightarrow> lineOk (shipItem env a b c i)" "lineOk i \<Longrightarrow> lineOk (deliverItem env i)"
  "lineOk i \<Longrightarrow> lineOk (cancelItem env i)" "lineOk i \<Longrightarrow> lineOk (retrackItem env a b c i)"
  "lineOk i \<Longrightarrow> holdable st i \<Longrightarrow> lineOk (holdItem env i)" "lineOk i \<Longrightarrow> heldBy st i \<Longrightarrow> lineOk (resumeItem i)"
  by (auto simp: lineOk_def heldOk_def ackItem_def shipItem_def deliverItem_def cancelItem_def retrackItem_def
      holdItem_def holdable_def resumeItem_def heldBy_def holdEligibleFulfillment_def)

lemma lineOk_onStore: "lineOk i \<Longrightarrow> lineOk (onStore st (ackItem env) i)" "lineOk i \<Longrightarrow> lineOk (onStore st (shipItem env a b c) i)"
  by (simp_all add: onStore_def lineOk_changes)

lemma saveItems_sound [pres]:
  "(\<And>i. i \<in> set items \<Longrightarrow> lineOk i) \<Longrightarrow> preserves stockSound (saveItems env items)"
  unfolding saveItems_def
proof (rule preserves_mod)
  fix s
  assume items: "\<And>i. i \<in> set items \<Longrightarrow> lineOk i" and s: "stockSound s"
  have "lineOk i" if "i \<in> set (saveRows oi_id (map (stampItem env s) items) (dbItems s))" for i
    using mem_saveRows [OF that] items s by (auto simp: stockSound_def)
  then show "stockSound (s\<lparr>dbItems := saveRows oi_id (map (stampItem env s) items) (dbItems s)\<rparr>)"
    using s by (simp add: stockSound_def stockOf_def liveVariant_def)
qed

lemma restore_sound:
  assumes "stockSound s" and "\<And>i. i \<in> set items \<Longrightarrow> lineOk i" and "restoredTo oid items bs s t"
  shows "stockSound t"
proof -
  have "0 \<le> returnedBy items w" for w
    using assms(2) unfolding returnedBy_def lineOk_def by (auto split: option.split dest: find_Some_in)
  then have "0 \<le> q" if "stockOf t w = Some q" for w q
    using assms(1,3) that unfolding stockSound_def restoredTo_def by (cases "stockOf s w") (fastforce split: if_splits)+
  moreover have "dbItems t = dbItems s" using assms(3) by (simp add: restoredTo_def)
  ultimately show ?thesis using assms(1) by (simp add: stockSound_def)
qed

lemma restoreStock_sound [pres]:
  "(\<And>i. i \<in> set items \<Longrightarrow> lineOk i) \<Longrightarrow> preserves stockSound (restoreStockForItems env oid items remark)"
proof (rule preservesI)
  fix s
  assume items: "\<And>i. i \<in> set items \<Longrightarrow> lineOk i" and s: "stockSound s"
  obtain bs t where "forM (restoreOne env oid remark) items s = (Inr bs, t)" "restoredTo oid items bs s t"
    using restore_loop [of env oid remark items s] by blast
  then show "stockSound (snd (restoreStockForItems env oid items remark s))"
    using restore_sound [OF s items] s by (cases "items = []") (simp_all add: restoreStockForItems_def)
qed

text \<open>A read hands on what the invariant says of the value read.\<close>

lemma preserves_get_fact:
  assumes "\<And>s. I s \<Longrightarrow> P (f s)" and "\<And>x. P x \<Longrightarrow> preserves I (g x)"
  shows "preserves I (seqM (getM f) g)"
  using assms by (simp add: preserves_def)

lemma preserves_pair [pres]: "(\<And>s. I s \<Longrightarrow> I (g s)) \<Longrightarrow> preserves I (\<lambda>s. (Inr (v s), g s))"
  by (simp add: preserves_def)

lemma load_sound:
  assumes "\<And>ord items. (\<And>i. i \<in> set items \<Longrightarrow> lineOk i) \<Longrightarrow> preserves stockSound (f (ord, items))"
  shows "preserves stockSound (seqM (loadOrderWithItems oid) f)"
proof -
  have "lineOk i" if "stockSound s" "i \<in> set (orderItems s oid)" for s i
    using that by (simp add: stockSound_def orderItems_def)
  then show ?thesis using assms by (auto simp: preserves_def loadOrderWithItems_def split: option.split)
qed

lemma access_sound:
  assumes "\<And>i. i \<in> set items \<Longrightarrow> lineOk i" and "\<And>si. (\<And>i. i \<in> set si \<Longrightarrow> lineOk i) \<Longrightarrow> preserves stockSound (f si)"
  shows "preserves stockSound (seqM (assertVendorStoreAccess userId items storeId) f)"
proof -
  have "preserves stockSound (f (filter (\<lambda>i. oi_storeId i = storeId) items))" by (rule assms(2)) (use assms(1) in auto)
  then show ?thesis by (simp add: preserves_def assertVendorStoreAccess_def Let_def)
qed

lemma access_keeps: "preserves I (assertVendorStoreAccess userId items storeId)"
  by (simp add: preserves_def assertVendorStoreAccess_def Let_def)

lemma steps_sound [pres]:
  "preserves stockSound (saveOrder env ord)" "preserves stockSound (addHistory env i st who txt)"
  "preserves stockSound (appendAudit env i ev a ai al sid d)" "preserves stockSound (notifyOrderStatusChanged env i st)"
  "preserves stockSound (notifyTransition env prev sv next)" "preserves stockSound (failPendingPayments env i)"
  "preserves stockSound (loadOrderWithItems i)"
  unfolding saveOrder_def addHistory_def appendAudit_def notifyOrderStatusChanged_def notifyTransition_def failPendingPayments_def
    loadOrderWithItems_def
  by (auto intro!: pres split: option.split)

lemma persist_sound [pres]:
  "(\<And>i. i \<in> set items \<Longrightarrow> lineOk i) \<Longrightarrow> preserves stockSound after \<Longrightarrow>
     preserves stockSound (persistOrderTransition env ord items next userId remark w after)"
  unfolding persistOrderTransition_def by (auto intro!: pres)

lemma restoreOrder_sound [pres]: "preserves stockSound (restoreOrderStock env oid remark)"
  and restoreItem_sound [pres]: "preserves stockSound (restoreItemStock env oid ids remark)"
  unfolding restoreOrderStock_def restoreItemStock_def
  by (auto simp: stockSound_def intro!: preserves_get_fact [where P = "\<lambda>items. \<forall>i \<in> set items. lineOk i"] restoreStock_sound preserves_if preserves_ret)

lemma vendor_sound:
  "preserves stockSound (markVendorOrderPaid env userId storeId oid)"
  "preserves stockSound (acknowledgeVendorOrder env userId storeId oid)"
  "preserves stockSound (shipVendorOrder env urlParse userId storeId oid number prov url)"
  "preserves stockSound (updateTrackingForPublicApi env urlParse userId storeId oid number prov url)"
  "preserves stockSound (confirmOrderDelivered env hash oid customerId guestPhone token)"
  "preserves stockSound (cancelVendorOrder env userId storeId oid)"
proof -
  show "preserves stockSound (markVendorOrderPaid env userId storeId oid)"
    unfolding markVendorOrderPaid_def by (auto intro!: load_sound access_keeps pres)
  show ack: "preserves stockSound (acknowledgeVendorOrder env userId storeId oid)"
    unfolding acknowledgeVendorOrder_def acknowledgePlan_def acknowledgeCommit_def seqM_assoc Let_def case_prod_unfold
    by (auto intro!: load_sound access_keeps pres lineOk_onStore)
  show ship: "preserves stockSound (shipVendorOrder env urlParse userId storeId oid number prov url)"
    unfolding shipVendorOrder_def shipPlan_def shipCommit_def seqM_assoc Let_def case_prod_unfold
    by (auto intro!: load_sound access_keeps pres lineOk_onStore)
  show "preserves stockSound (updateTrackingForPublicApi env urlParse userId storeId oid number prov url)"
    unfolding updateTrackingForPublicApi_def
    by (rule load_sound, unfold prod.case, erule access_sound) (auto intro!: pres ack ship lineOk_changes)
  show "preserves stockSound (confirmOrderDelivered env hash oid customerId guestPhone token)"
    unfolding confirmOrderDelivered_def by (auto intro!: load_sound access_keeps pres lineOk_changes)
  show "preserves stockSound (cancelVendorOrder env userId storeId oid)"
    unfolding cancelVendorOrder_def cancelCommit_def markItemsCancelled_def by (auto intro!: load_sound access_keeps pres lineOk_changes)
qed

lemma tryHold_sound: "preserves stockSound (tryHoldOrder env storeId oid)"
  and resume_sound: "preserves stockSound (resumeOrder env storeId oid)"
  and expire_sound: "preserves stockSound (cancelExpiredHeldItemsForOrder env cutoff oid)"
proof -
  have items: "stockSound s \<Longrightarrow> \<forall>i \<in> set (orderItems s oid). lineOk i" for s by (simp add: stockSound_def orderItems_def)
  let ?P = "\<lambda>(found :: order_row option, items). \<forall>i \<in> set items. lineOk i"
  have hold: "preserves stockSound (applyHoldForOrder env storeId oid)"
    unfolding applyHoldForOrder_def Let_def
    by (rule preserves_get_fact [where P = ?P]) (use items in \<open>auto intro!: pres lineOk_changes split: option.split\<close>)
  then show "preserves stockSound (tryHoldOrder env storeId oid)"
    unfolding tryHoldOrder_def by (auto intro!: pres)
  have "preserves stockSound (restoreHoldForOrder env storeId oid)"
    unfolding restoreHoldForOrder_def Let_def
    by (rule preserves_get_fact [where P = ?P]) (use items in \<open>auto intro!: pres lineOk_changes split: option.split\<close>)
  then show "preserves stockSound (resumeOrder env storeId oid)"
    unfolding resumeOrder_def by (auto intro!: pres)
  show "preserves stockSound (cancelExpiredHeldItemsForOrder env cutoff oid)"
    unfolding cancelExpiredHeldItemsForOrder_def recordExpiry_def Let_def
    by (rule preserves_get_fact [where P = "\<lambda>(found :: order_row option, items, sh :: store_shipping_row list). \<forall>i \<in> set items. lineOk i"])
      (use items in \<open>auto intro!: pres lineOk_changes split: option.split\<close>)
qed

lemma hold_sound:
  "preserves stockSound (applyHoldForStore env storeId)" "preserves stockSound (restoreHoldForStore env storeId)"
  "preserves stockSound (cancelExpiredHeldItems env slaMs)"
  unfolding applyHoldForStore_def restoreHoldForStore_def cancelExpiredHeldItems_def Let_def
  by (auto intro!: pres tryHold_sound resume_sound expire_sound)

section \<open>Checkout keeps the rules\<close>

definition idsFresh :: "env \<Rightarrow> db \<Rightarrow> bool" where
  "idsFresh env s \<longleftrightarrow> inj (envUuid env) \<and> ordersFresh env s \<and> (\<forall>n \<ge> idCount s. envUuid env n \<notin> oi_id ` set (dbItems s))"

definition sysInv :: "db \<Rightarrow> bool" where
  "sysInv s \<longleftrightarrow> ordersInv s \<and> stockSound s"

lemma sysInv_hold: "sysInv s \<Longrightarrow> holdInv s"
  by (simp add: sysInv_def holdInv_def stockSound_def lineOk_def)

lemma rows_columns:
  assumes "list_all2 (rowFor env u orderId) lines rows" and "length js = length rows"
  shows "map oi_id (map2 (\<lambda>r i. r i) rows js) = js" "\<forall>i \<in> set (map2 (\<lambda>r i. r i) rows js). oi_orderId i = orderId"
proof -
  have key: "oi_id (r j) = j \<and> oi_orderId (r j) = orderId" if "r \<in> set rows" for r j
    using assms(1) that by (induction rule: list_all2_induct) (auto simp: rowFor_def newItemRow_def)
  then show "\<forall>i \<in> set (map2 (\<lambda>r i. r i) rows js). oi_orderId i = orderId" by (auto dest: set_zip_leftD)
  show "map oi_id (map2 (\<lambda>r i. r i) rows js) = js"
    using assms(2) key by (intro nth_equalityI) simp_all
qed

lemma placed_items:
  assumes "created env sec dto s lines quote mkRow orderId t"
  shows "\<exists>rows m u. idCount s < m \<and> list_all2 (rowFor env u orderId) lines rows \<and>
    dbItems t = dbItems s @ map2 (\<lambda>r i. r i) rows (freshIds env m (length rows)) \<and> dbOrders t = dbOrders s @ [mkRow orderId] \<and>
    orderId \<in> envUuid env ` {idCount s..}"
proof -
  from assms obtain u w where u: "sameShop s u" "placed env lines quote mkRow u orderId w" "sameShop w t"
    unfolding created_def by blast
  from u(2) obtain rows m where "idCount u < m" "list_all2 (rowFor env u orderId) lines rows"
    "dbItems w = dbItems u @ map2 (\<lambda>r i. r i) rows (freshIds env m (length rows))" "dbOrders w = dbOrders u @ [mkRow orderId]"
    "orderId = envUuid env (idCount u)" unfolding placed_def by blast
  with sameShop_tables [OF u(1)] sameShop_tables [OF u(3)] show ?thesis
    by (intro exI [of _ rows] exI [of _ m] exI [of _ u]) auto
qed

lemma created_ordersInv:
  assumes c: "created env sec dto s lines quote mkRow orderId t" and fresh: "idsFresh env s" and inv: "ordersInv s"
  shows "ordersInv t"
proof -
  obtain rows m u where r: "idCount s < m" "list_all2 (rowFor env u orderId) lines rows"
    "dbItems t = dbItems s @ map2 (\<lambda>r i. r i) rows (freshIds env m (length rows))" "dbOrders t = dbOrders s @ [mkRow orderId]"
    "orderId \<in> envUuid env ` {idCount s..}" using placed_items [OF c] by blast
  note cols = rows_columns [OF r(2), of "freshIds env m (length rows)", simplified]
  have of': "ordersFresh env s" using fresh by (simp add: idsFresh_def)
  have new: "orderId \<notin> o_id ` set (dbOrders s)" "orderId \<notin> oi_orderId ` set (dbItems s)"
    using r(5) of' by (auto simp: ordersFresh_def)
  have "distinct (freshIds env m (length rows))" using fresh by (auto simp: freshIds_def distinct_map idsFresh_def inj_on_def)
  moreover have "set (freshIds env m (length rows)) \<inter> oi_id ` set (dbItems s) = {}"
    using fresh r(1) unfolding idsFresh_def freshIds_def by (force simp: image_iff)
  ultimately have "uniqueKey oi_id (dbItems t)" using inv by (simp add: uniqueKey_def r(3) cols(1) ordersInv_def Int_commute)
  moreover have "headerOk (o_status ord) (orderItems t j)" if f: "findOrder t j = Some ord" for j ord
  proof (cases "j = orderId")
    case True
    then have "ord = mkRow orderId" using created_view(1) [OF c of'] f by simp
    moreover have "o_status (mkRow orderId) = OS_PENDING_PAYMENT" using c by (auto simp: created_def newOrderRow_def)
    ultimately show ?thesis by (simp add: headerOk_def)
  next
    case False
    have "o_id (mkRow orderId) = orderId" using c by (auto simp: created_def newOrderRow_def)
    then have "findOrder s j = Some ord" using f False by (auto simp: findOrder_def byKey_def r(4) find_append split: option.splits)
    moreover have "orderItems t j = orderItems s j" using False cols(2) by (auto simp: orderItems_def r(3) filter_empty_conv)
    ultimately show ?thesis using inv by (simp add: ordersInv_def)
  qed
  ultimately show ?thesis by (simp add: ordersInv_def)
qed

lemma created_stockSound:
  assumes c: "created env sec dto s lines quote mkRow orderId t" and inv: "stockSound s"
    and q: "\<And>i. i \<in> set (coi_items dto) \<Longrightarrow> 0 \<le> oin_quantity i"
  shows "stockSound t"
proof -
  obtain rows m u where r: "list_all2 (rowFor env u orderId) lines rows"
    "dbItems t = dbItems s @ map2 (\<lambda>r i. r i) rows (freshIds env m (length rows))" using placed_items [OF c] by blast
  have p: "pricedFor (coi_items dto) lines" using c by (auto simp: created_def)
  have "lineOk i" if "i \<in> set (map2 (\<lambda>r i. r i) rows (freshIds env m (length rows)))" for i
  proof -
    have "list_all2 lineRow lines (map2 (\<lambda>r i. r i) rows (freshIds env m (length rows)))" using rows_lineRow [OF r(1)] by simp
    from lineRows_subtotal(3) [OF this _ that] p have "\<exists>l \<in> set lines. lineRow l i" by (simp add: pricedFor_def)
    then obtain l where "l \<in> set lines" "lineRow l i" ..
    moreover have "0 \<le> ln_quantity l" if "l \<in> set lines" for l using priced_quantities [OF p that] q by auto
    ultimately show ?thesis by (auto simp: lineOk_def lineRow_def heldOk_def)
  qed
  moreover have "0 \<le> k" if k: "stockOf t w = Some k" for w k
  proof (cases "\<exists>i \<in> set (coi_items dto). oin_variantId i = Some w")
    case True
    then obtain i where "i \<in> set (coi_items dto)" "oin_variantId i = Some w" ..
    with created_stock(2) [OF c this(1)] k show ?thesis by auto
  next
    case False
    then have "orderedOf (coi_items dto) w = 0" unfolding orderedOf_def by (simp cong: map_cong)
    then show ?thesis using created_stock(1) [OF c, of w] k inv by (auto simp: stockSound_def option.map_ident)
  qed
  ultimately show ?thesis using inv by (auto simp: stockSound_def r(2))
qed

lemma createOrder_sysInv:
  assumes "sysInv s" and "idsFresh env s" and "\<And>i. i \<in> set (coi_items dto) \<Longrightarrow> 0 \<le> oin_quantity i"
  shows "wp (createOrder env sec dto cid) (\<lambda>_. sysInv) (\<lambda>_. sysInv) s"
proof (rule createOrder_wp)
  show "sysInv t" if "sameShop s t" for t
    using assms(1) sameShop_tables [OF that] stockSound_frame [of t s] that
    by (simp add: sysInv_def ordersInv_def findOrder_def orderItems_def sameShop_def)
  show "sysInv t" if "created env sec dto s lines quote mkRow orderId t" for lines quote mkRow orderId t
    using created_ordersInv [OF that assms(2)] created_stockSound [OF that _ assms(3)] assms(1) by (simp add: sysInv_def)
qed

section \<open>The system\<close>

text \<open>
  One step is one call of a service, with any arguments, at any time, whether it succeeds or raises.
  The identifiers are those of one generator that never repeats itself (\<open>idsFresh\<close>, as the
  database's UUIDs); the quantities of a checkout are positive (the validator of the input). The
  status change of the administration is not a step: it does not keep the rule
  (\<open>admin_status_ignores_lines\<close>).
\<close>

inductive order_step :: "db \<Rightarrow> db \<Rightarrow> bool" where
  place: "idsFresh env s \<Longrightarrow> (\<And>i. i \<in> set (coi_items dto) \<Longrightarrow> 1 \<le> oin_quantity i) \<Longrightarrow>
    order_step s (snd (createOrder env sec dto cid s))"
| mark_paid: "order_step s (snd (markVendorOrderPaid env userId storeId oid s))"
| acknowledge: "order_step s (snd (acknowledgeVendorOrder env userId storeId oid s))"
| ship: "order_step s (snd (shipVendorOrder env urlParse userId storeId oid number prov url s))"
| track: "order_step s (snd (updateTrackingForPublicApi env urlParse userId storeId oid number prov url s))"
| deliver: "order_step s (snd (confirmOrderDelivered env hash oid customerId guestPhone token s))"
| cancel: "order_step s (snd (cancelVendorOrder env userId storeId oid s))"
| suspend: "order_step s (snd (applyHoldForStore env storeId s))"
| reactivate: "order_step s (snd (restoreHoldForStore env storeId s))"
| expire: "order_step s (snd (cancelExpiredHeldItems env slaMs s))"

inductive reachable :: "db \<Rightarrow> db \<Rightarrow> bool" for s0 where
  start: "reachable s0 s0"
| step: "reachable s0 s \<Longrightarrow> order_step s t \<Longrightarrow> reachable s0 t"

lemma reachable_trans: "reachable s t \<Longrightarrow> reachable t u \<Longrightarrow> reachable s u"
  by (rotate_tac 1, induction rule: reachable.induct) (auto intro: reachable.step)

lemma reachable_step: "order_step s t \<Longrightarrow> reachable s t"
  by (rule reachable.step [OF reachable.start])

lemma preserves_snd: "preserves I m \<Longrightarrow> I s \<Longrightarrow> I (snd (m s))"
  by (simp add: preserves_def)

lemma sysInv_step:
  assumes "order_step s t" and "sysInv s"
  shows "sysInv t"
proof -
  have o: "ordersInv s" and k: "stockSound s" using assms(2) by (simp_all add: sysInv_def)
  note keep = markPaid_preserves acknowledge_preserves ship_preserves tracking_preserves confirm_preserves cancel_preserves
  note keeps = keep [OF o, THEN wp_invariant]
  note sound = vendor_sound [THEN preserves_snd, OF k]
  note held = applyHoldForStore_total restoreHoldForStore_total cancelExpired_total
  from assms(1) show ?thesis
  proof cases
    case (place env dto sec cid)
    have "0 \<le> oin_quantity i" if "i \<in> set (coi_items dto)" for i using place(3) [OF that] by simp
    from wp_invariant [OF createOrder_sysInv [OF assms(2) place(2) this]] show ?thesis using place(1) by simp
  next
    case (suspend env storeId)
    then show ?thesis using held(1) [OF sysInv_hold [OF assms(2)], of env storeId] hold_sound(1) [of env storeId] k
      by (auto simp: sysInv_def holdInv_def preserves_def)
  next
    case (reactivate env storeId)
    then show ?thesis using held(2) [OF sysInv_hold [OF assms(2)], of env storeId] hold_sound(2) [of env storeId] k
      by (auto simp: sysInv_def holdInv_def preserves_def)
  next
    case (expire env slaMs)
    then show ?thesis using held(3) [OF sysInv_hold [OF assms(2)], of env slaMs] hold_sound(3) [of env slaMs] k
      by (auto simp: sysInv_def holdInv_def preserves_def)
  qed (simp_all add: sysInv_def keeps sound)
qed

section \<open>No order can be worked on for ever\<close>

text \<open>The successful actions on one order.\<close>

inductive worked :: "string \<Rightarrow> db \<Rightarrow> db \<Rightarrow> bool" for oid where
  w_paid: "markVendorOrderPaid env userId storeId oid s = (Inr r, t) \<Longrightarrow> worked oid s t"
| w_ack: "acknowledgeVendorOrder env userId storeId oid s = (Inr r, t) \<Longrightarrow> worked oid s t"
| w_ship: "shipVendorOrder env urlParse userId storeId oid number prov url s = (Inr r, t) \<Longrightarrow> worked oid s t"
| w_deliver: "confirmOrderDelivered env hash oid customerId guestPhone token s = (Inr r, t) \<Longrightarrow> worked oid s t"
| w_cancel: "cancelVendorOrder env userId storeId oid s = (Inr r, t) \<Longrightarrow> worked oid s t"

fun lineWork :: "fulfillment_status \<Rightarrow> nat" where
  "lineWork FS_PROCESSING = 2"
| "lineWork FS_SHIPPED = 1"
| "lineWork FS_DELIVERED = 0"
| "lineWork FS_CANCELLED = 0"
| "lineWork _ = 3"

fun headerWork :: "order_status \<Rightarrow> nat" where
  "headerWork OS_PENDING_PAYMENT = 2"
| "headerWork OS_DELIVERED = 0"
| "headerWork OS_CANCELLED = 0"
| "headerWork OS_REFUNDED = 0"
| "headerWork _ = 1"

definition orderWork :: "string \<Rightarrow> db \<Rightarrow> nat" where
  "orderWork oid s = (\<Sum>f\<leftarrow>statusesOf (orderItems s oid). lineWork f) +
     (case findOrder s oid of None \<Rightarrow> 0 | Some ord \<Rightarrow> headerWork (o_status ord))"

lemma saved_lines:
  assumes "uniqueKey oi_id (dbItems s)" and "\<And>i. oi_id (f i) = oi_id i" "\<And>i. oi_orderId (f i) = oi_orderId i"
    and "dbItems t = saveRows oi_id (map (stampItem env s) (map f (orderItems s oid))) (dbItems s)"
  shows "statusesOf (orderItems t oid) = statusesOf (map f (orderItems s oid))"
    "(\<And>i. oi_storeId (f i) = oi_storeId i) \<Longrightarrow> map oi_storeId (orderItems t oid) = map oi_storeId (orderItems s oid)"
proof -
  have "orderItems t oid = map (\<lambda>i. stampItem env s (f i)) (orderItems s oid)"
    using saveItems_order(1) [where f = f and env = env and oid = oid and j = oid, OF assms(1,2,3)] unfolding orderItems_def [of t] assms(4) by simp
  moreover have "oi_storeId (stampItem env s i) = oi_storeId i" for i by (simp add: stampItem_def)
  ultimately show "statusesOf (orderItems t oid) = statusesOf (map f (orderItems s oid))"
    "(\<And>i. oi_storeId (f i) = oi_storeId i) \<Longrightarrow> map oi_storeId (orderItems t oid) = map oi_storeId (orderItems s oid)"
    by (simp_all add: comp_def)
qed

lemma saved_header:
  "dbOrders t = saveRow o_id (stampOrder env s row) (dbOrders s) \<Longrightarrow> findOrder t (o_id row) = Some (stampOrder env s row)"
  using order_repo.read_own_write [of "stampOrder env s row" "dbOrders s"] by (simp add: findOrder_def)

lemma markPaid_wp:
  "wp (markVendorOrderPaid env userId storeId oid)
    (\<lambda>_ t. \<exists>ord row. findOrder s oid = Some ord \<and> o_status ord = OS_PENDING_PAYMENT \<and> o_id row = oid \<and>
       committed env row (orderItems s oid) (deriveOrderStatusFromFulfillment OS_PAID (statusesOf (orderItems s oid))) False s t)
    (\<lambda>_ _. True) s"
  unfolding markVendorOrderPaid_def wp_seq wp_prod case_prod_unfold
proof (intro reads; (rule TrueI)?)
  fix v x
  assume v: "findOrder s oid = Some (fst v) \<and> snd v = orderItems s oid" and st: "\<not> o_status (fst v) \<noteq> OS_PENDING_PAYMENT"
  then have "o_id (fst v) = oid" using findOrder_id by blast
  with v st show "wp (persistOrderTransition env (fst v\<lparr>o_paidAt := Some (nullish (o_paidAt (fst v)) (envNow env))\<rparr>) (snd v)
        (deriveOrderStatusFromFulfillment OS_PAID (statusesOf (snd v))) userId
        (''Vendor marked order paid (store '' @ storeId @ '')'') False (retM ()))
      (\<lambda>_ t. \<exists>ord row. findOrder s oid = Some ord \<and> o_status ord = OS_PENDING_PAYMENT \<and> o_id row = oid \<and>
       committed env row (orderItems s oid) (deriveOrderStatusFromFulfillment OS_PAID (statusesOf (orderItems s oid))) False s t)
      (\<lambda>_ _. True) s"
    by (intro wp_conseq [OF persist_wp]) (auto intro: exI [of _ "fst v\<lparr>o_paidAt := Some (nullish (o_paidAt (fst v)) (envNow env))\<rparr>"])
qed

lemma confirm_wp:
  "wp (confirmOrderDelivered env hash oid customerId guestPhone token)
    (\<lambda>_ t. \<exists>ord. findOrder s oid = Some ord \<and> o_status ord = OS_SHIPPED \<and>
       committed env ord (map (deliverItem env) (orderItems s oid)) OS_DELIVERED True s t) (\<lambda>_ _. True) s"
  unfolding confirmOrderDelivered_def wp_seq wp_prod case_prod_unfold
proof (intro reads; (rule TrueI)?)
  fix v x
  assume v: "findOrder s oid = Some (fst v) \<and> snd v = orderItems s oid" and st: "\<not> o_status (fst v) \<noteq> OS_SHIPPED"
  with v show "wp (persistOrderTransition env (fst v) (map (deliverItem env) (snd v)) OS_DELIVERED (nullish customerId ''guest'')
        ''Customer confirmed order delivery'' True (failIf (\<not> truthy customerId) notUuid))
      (\<lambda>_ t. \<exists>ord. findOrder s oid = Some ord \<and> o_status ord = OS_SHIPPED \<and>
       committed env ord (map (deliverItem env) (orderItems s oid)) OS_DELIVERED True s t) (\<lambda>_ _. True) s"
    by (intro wp_conseq [OF persist_wp]) auto
qed

lemma cancel_wp:
  "wp (cancelVendorOrder env userId storeId oid)
    (\<lambda>_ t. \<exists>ord. findOrder s oid = Some ord \<and> o_status ord \<in> vendorCancellableStatuses \<and> cancelledState env ord (orderItems s oid) s t)
    (\<lambda>_ _. True) s"
  unfolding cancelVendorOrder_def wp_seq wp_prod case_prod_unfold
proof (intro reads; (rule TrueI)?)
  fix v x
  assume v: "findOrder s oid = Some (fst v) \<and> snd v = orderItems s oid" and st: "\<not> o_status (fst v) \<notin> vendorCancellableStatuses"
  then have id: "o_id (fst v) = oid" using findOrder_id by blast
  from v st show "wp (cancelCommit env userId storeId oid (fst v) (snd v))
      (\<lambda>_ t. \<exists>ord. findOrder s oid = Some ord \<and> o_status ord \<in> vendorCancellableStatuses \<and> cancelledState env ord (orderItems s oid) s t)
      (\<lambda>_ _. True) s"
    by (intro wp_conseq [OF cancelCommit_wp [OF id]]) auto
qed

lemma sum_work_less:
  assumes "\<And>i. i \<in> set xs \<Longrightarrow> lineWork (oi_fulfillmentStatus (f i)) \<le> lineWork (oi_fulfillmentStatus i)"
    and "\<exists>i \<in> set xs. lineWork (oi_fulfillmentStatus (f i)) < lineWork (oi_fulfillmentStatus i)"
  shows "(\<Sum>x\<leftarrow>statusesOf (map f xs). lineWork x) < (\<Sum>x\<leftarrow>statusesOf xs. lineWork x)"
  using assms
proof (induction xs)
  case (Cons x xs)
  have le: "(\<Sum>x\<leftarrow>statusesOf (map f xs). lineWork x) \<le> (\<Sum>x\<leftarrow>statusesOf xs. lineWork x)"
    unfolding statusesOf_def map_map comp_def by (rule sum_list_mono) (use Cons.prems(1) in auto)
  show ?case
  proof (cases "lineWork (oi_fulfillmentStatus (f x)) < lineWork (oi_fulfillmentStatus x)")
    case True
    then show ?thesis using le by (simp add: statusesOf_def)
  next
    case False
    then have "(\<Sum>x\<leftarrow>statusesOf (map f xs). lineWork x) < (\<Sum>x\<leftarrow>statusesOf xs. lineWork x)" using Cons by auto
    moreover have "lineWork (oi_fulfillmentStatus (f x)) \<le> lineWork (oi_fulfillmentStatus x)" using Cons.prems(1) by simp
    ultimately show ?thesis by (simp add: statusesOf_def)
  qed
qed simp

lemma derived_work: "a \<notin> terminalOrderStatuses \<Longrightarrow> a \<noteq> OS_PENDING_PAYMENT \<Longrightarrow> headerWork (deriveOrderStatusFromFulfillment a fs) \<le> 1"
  by (simp add: derive_table Let_def)

text \<open>A store's uniform lines advance together.\<close>

lemma onStore_work:
  assumes "set (statusesOf (filter (\<lambda>i. oi_storeId i = st) xs)) = {e}" and "\<And>i. lineWork (oi_fulfillmentStatus (f i)) < lineWork e"
  shows "(\<Sum>x\<leftarrow>statusesOf (map (onStore st f) xs). lineWork x) < (\<Sum>x\<leftarrow>statusesOf xs. lineWork x)"
proof (rule sum_work_less)
  have uniform: "oi_fulfillmentStatus i = e" if "i \<in> set xs" "oi_storeId i = st" for i
    using assms(1) that by (auto simp: statusesOf_def)
  show "lineWork (oi_fulfillmentStatus (onStore st f i)) \<le> lineWork (oi_fulfillmentStatus i)" if "i \<in> set xs" for i
    using uniform [OF that] assms(2) [of i] by (auto simp: onStore_def)
  have "e \<in> set (statusesOf (filter (\<lambda>i. oi_storeId i = st) xs))" using assms(1) by simp
  then obtain i where "i \<in> set xs" "oi_storeId i = st" by (auto simp: statusesOf_def)
  then show "\<exists>i \<in> set xs. lineWork (oi_fulfillmentStatus (onStore st f i)) < lineWork (oi_fulfillmentStatus i)"
    using uniform assms(2) by (auto simp: onStore_def intro!: bexI [of _ i])
qed

lemma worked_less:
  assumes "worked oid s t" and inv: "ordersInv s"
  shows "orderWork oid t < orderWork oid s"
proof -
  have u: "uniqueKey oi_id (dbItems s)" using inv by (simp add: ordersInv_def)
  have plan: "orderWork oid t < orderWork oid s"
    if f: "findOrder s oid = Some ord" "o_status ord \<in> {OS_PAID, OS_PROCESSING, OS_SHIPPED}"
      and c: "committed env ord (map (onStore st f) (orderItems s oid)) (deriveOrderStatusFromFulfillment (o_status ord) (statusesOf (map (onStore st f) (orderItems s oid)))) True s t"
      and e: "set (statusesOf (filter (\<lambda>i. oi_storeId i = st) (orderItems s oid))) = {e}" "\<And>i. lineWork (oi_fulfillmentStatus (f i)) < lineWork e"
      and k: "\<And>i. oi_id (f i) = oi_id i" "\<And>i. oi_orderId (f i) = oi_orderId i" for env ord st f e t
  proof -
    have id: "o_id ord = oid" using findOrder_id [OF f(1)] .
    have rows: "dbItems t = saveRows oi_id (map (stampItem env s) (map (onStore st f) (orderItems s oid))) (dbItems s)"
      and head: "findOrder t oid = Some (stampOrder env s (transitionRow env ord (deriveOrderStatusFromFulfillment (o_status ord)
         (statusesOf (map (onStore st f) (orderItems s oid))))))"
      using c saved_header [of t env s "transitionRow env ord (deriveOrderStatusFromFulfillment (o_status ord) (statusesOf (map (onStore st f) (orderItems s oid))))"] id
      by (simp_all add: committed_def)
    have "statusesOf (orderItems t oid) = statusesOf (map (onStore st f) (orderItems s oid))"
      by (rule saved_lines(1) [OF u _ _ rows]) (simp_all add: k)
    moreover have "headerWork (deriveOrderStatusFromFulfillment (o_status ord) fs) \<le> headerWork (o_status ord)" for fs
      using derived_work [of "o_status ord" fs] f(2) by (auto simp: terminalOrderStatuses_def)
    ultimately show ?thesis
      using onStore_work [OF e] by (simp add: orderWork_def head f(1) add_less_le_mono)
  qed
  from assms(1) show ?thesis
  proof cases
    case (w_paid env userId storeId r)
    from wp_Inr [OF markPaid_wp w_paid] obtain ord row where o: "findOrder s oid = Some ord" "o_status ord = OS_PENDING_PAYMENT" "o_id row = oid"
      "committed env row (orderItems s oid) (deriveOrderStatusFromFulfillment OS_PAID (statusesOf (orderItems s oid))) False s t" by blast
    let ?n = "deriveOrderStatusFromFulfillment OS_PAID (statusesOf (orderItems s oid))"
    have "findOrder t oid = Some (stampOrder env s (transitionRow env row ?n))" "orderItems t oid = orderItems s oid"
      using o(3,4) saved_header [of t env s "transitionRow env row ?n"] by (simp_all add: committed_def orderItems_def)
    moreover have "headerWork ?n < 2" using derived_work [of OS_PAID "statusesOf (orderItems s oid)"] by (simp add: terminalOrderStatuses_def)
    ultimately show ?thesis using o(1,2) by (simp add: orderWork_def)
  next
    case (w_ack env userId storeId r)
    from wp_Inr [OF acknowledge_wp w_ack] obtain ord items nxt lab where
      "ackPlanned env s userId storeId oid (ord, items, nxt, lab)" "committed env ord items nxt True s t" by blast
    then show ?thesis by (intro plan [where f = "ackItem env" and e = FS_PENDING and ord = ord and st = storeId and env = env]) (auto simp: ackPlanned_def)
  next
    case (w_ship env urlParse userId storeId number prov url r)
    from wp_Inr [OF ship_wp w_ship] obtain ord items nxt where
      p: "shipPlanned env urlParse s userId storeId oid number prov url (ord, items, nxt)" "committed env ord items nxt True s t" by blast
    then obtain a b c where "items = map (onStore storeId (shipItem env a b c)) (orderItems s oid)" by (auto simp: shipPlanned_def)
    with p show ?thesis
      by (intro plan [where f = "shipItem env a b c" and e = FS_PROCESSING and ord = ord and st = storeId and env = env]) (auto simp: shipPlanned_def)
  next
    case (w_deliver env hash customerId guestPhone token r)
    from wp_Inr [OF confirm_wp w_deliver] obtain ord where o: "findOrder s oid = Some ord" "o_status ord = OS_SHIPPED"
      "committed env ord (map (deliverItem env) (orderItems s oid)) OS_DELIVERED True s t" by blast
    have "statusesOf (orderItems t oid) = statusesOf (map (deliverItem env) (orderItems s oid))"
      using o(3) by (intro saved_lines(1) [OF u]) (simp_all add: committed_def)
    then have "(\<Sum>x\<leftarrow>statusesOf (orderItems t oid). lineWork x) = 0" by (simp add: statusesOf_def deliverItem_def)
    moreover have "findOrder t oid = Some (stampOrder env s (transitionRow env ord OS_DELIVERED))"
      using saved_header [of t env s "transitionRow env ord OS_DELIVERED"] o(3) findOrder_id [OF o(1)] by (simp add: committed_def)
    ultimately show ?thesis using o(1,2) by (simp add: orderWork_def del: sum_list_eq_0_iff)
  next
    case (w_cancel env userId storeId r)
    from wp_Inr [OF cancel_wp w_cancel] obtain ord where o: "findOrder s oid = Some ord" "o_status ord \<in> vendorCancellableStatuses"
      "cancelledState env ord (orderItems s oid) s t" by blast
    have "statusesOf (orderItems t oid) = statusesOf (map (cancelItem env) (orderItems s oid))"
      using o(3) by (intro saved_lines(1) [OF u]) (simp_all add: cancelledState_def)
    then have "(\<Sum>x\<leftarrow>statusesOf (orderItems t oid). lineWork x) = 0" by (simp add: statusesOf_def cancelItem_def)
    moreover have "findOrder t oid = Some (stampOrder env s (ord\<lparr>o_status := OS_CANCELLED\<rparr>))"
      using saved_header [of t env s "ord\<lparr>o_status := OS_CANCELLED\<rparr>"] o(3) findOrder_id [OF o(1)] by (simp add: cancelledState_def)
    ultimately show ?thesis using o(1,2) by (auto simp: orderWork_def vendorCancellableStatuses_def simp del: sum_list_eq_0_iff)
  qed
qed

lemma worked_step: "worked oid s t \<Longrightarrow> order_step s t"
  by (erule worked.cases) (metis order_step.intros snd_conv)+

lemma worked_bound:
  assumes "(worked oid ^^ n) s t" and "sysInv s"
  shows "n + orderWork oid t \<le> orderWork oid s"
  using assms
proof (induction n arbitrary: t)
  case (Suc n)
  then obtain u where u: "(worked oid ^^ n) s u" "worked oid u t" by auto
  have "sysInv u" using u(1) assms(2)
    by (induction n arbitrary: u) (auto dest!: worked_step intro: sysInv_step)
  then have "orderWork oid t < orderWork oid u" using worked_less [OF u(2)] by (simp add: sysInv_def)
  with Suc.IH [OF u(1) Suc.prems(2)] show ?case by simp
qed simp

lemma orderWork_bound: "orderWork oid s \<le> 3 * length (orderItems s oid) + 2"
proof -
  have "lineWork f \<le> 3" for f by (cases f) simp_all
  then have "(\<Sum>f\<leftarrow>fs. lineWork f) \<le> 3 * length fs" for fs by (induction fs) (auto simp: add_le_mono)
  from this [of "statusesOf (orderItems s oid)"]
  have "(\<Sum>f\<leftarrow>statusesOf (orderItems s oid). lineWork f) \<le> 3 * length (orderItems s oid)" by (simp add: statusesOf_def)
  moreover have "headerWork st \<le> 2" for st by (cases st) simp_all
  then have "(case findOrder s oid of None \<Rightarrow> 0 | Some ord \<Rightarrow> headerWork (o_status ord)) \<le> 2" by (simp split: option.split)
  ultimately show ?thesis unfolding orderWork_def by (rule add_le_mono)
qed

section \<open>A paid order can be completed\<close>

definition sameStores :: "db \<Rightarrow> db \<Rightarrow> bool" where
  "sameStores s t \<longleftrightarrow> dbStores t = dbStores s \<and> dbMembers t = dbMembers s"

lemma sameStores_access: "sameStores s t \<Longrightarrow> getAccessibleStores userId t = getAccessibleStores userId s"
proof -
  assume same: "sameStores s t"
  then have live: "liveStore t = liveStore s" by (simp add: fun_eq_iff liveStore_def sameStores_def)
  have "addMemberships t ms acc = addMemberships s ms acc" for ms acc
    by (induction ms arbitrary: acc) (simp_all add: live split: option.split)
  then show ?thesis using same by (simp add: getAccessibleStores_def getVendorStores_def sameStores_def)
qed

lemma sameStores_upd [simp]:
  "sameStores s (t\<lparr>dbOrders := os\<rparr>) = sameStores s t" "sameStores s (t\<lparr>dbItems := is\<rparr>) = sameStores s t"
  "sameStores s (t\<lparr>dbHistory := hs\<rparr>) = sameStores s t" "sameStores s (t\<lparr>dbAudits := as\<rparr>) = sameStores s t"
  "sameStores s (t\<lparr>dbEffects := es\<rparr>) = sameStores s t" "sameStores s (t\<lparr>idCount := n\<rparr>) = sameStores s t"
  by (simp_all add: sameStores_def)

lemma steps_stores [pres]:
  "preserves (sameStores s) (saveOrder env ord)" "preserves (sameStores s) (addHistory env i st who txt)"
  "preserves (sameStores s) (saveItems env items)"
  "preserves (sameStores s) (appendAudit env i ev a ai al sid d)" "preserves (sameStores s) (notifyOrderStatusChanged env i st)"
  "preserves (sameStores s) (notifyTransition env prev sv next)" "preserves (sameStores s) (loadOrderWithItems i)"
  unfolding saveOrder_def saveItems_def addHistory_def appendAudit_def notifyOrderStatusChanged_def notifyTransition_def loadOrderWithItems_def
  by (auto intro!: pres split: option.split)

lemma persist_stores [pres]: "preserves (sameStores s) after \<Longrightarrow>
    preserves (sameStores s) (persistOrderTransition env ord items next userId remark w after)"
  unfolding persistOrderTransition_def by (auto intro!: pres)

lemma plans_stores [pres]:
  "preserves (sameStores s) (acknowledgeVendorOrder env userId storeId oid)"
  "preserves (sameStores s) (shipVendorOrder env urlParse userId storeId oid number prov url)"
  unfolding acknowledgeVendorOrder_def acknowledgePlan_def acknowledgeCommit_def shipVendorOrder_def shipPlan_def shipCommit_def
    Let_def case_prod_unfold
  by (auto intro!: pres access_keeps)

text \<open>The order as the stores see it: the store and the status of each line, and the header.\<close>

definition orderShape :: "db \<Rightarrow> string \<Rightarrow> string list \<Rightarrow> (string \<Rightarrow> fulfillment_status) \<Rightarrow> order_status \<Rightarrow> string option \<Rightarrow> bool" where
  "orderShape u oid ids g st cid \<longleftrightarrow> uniqueKey oi_id (dbItems u) \<and> map oi_storeId (orderItems u oid) = ids \<and>
     statusesOf (orderItems u oid) = map g ids \<and>
     (\<exists>ord. findOrder u oid = Some ord \<and> o_status ord = st \<and> o_customerId ord = cid)"

lemma shape_lines:
  assumes "orderShape s oid ids g st cid"
  shows "i \<in> set (orderItems s oid) \<Longrightarrow> oi_fulfillmentStatus i = g (oi_storeId i)"
    "(\<And>i. oi_fulfillmentStatus (f i) = e) \<Longrightarrow> statusesOf (map (onStore a f) (orderItems s oid)) = map (g(a := e)) ids"
    "a \<in> set ids \<Longrightarrow> set (statusesOf (filter (\<lambda>i. oi_storeId i = a) (orderItems s oid))) = {g a}"
proof -
  have sh: "map oi_storeId (orderItems s oid) = ids" "statusesOf (orderItems s oid) = map g ids"
    using assms by (auto simp: orderShape_def)
  have "map oi_fulfillmentStatus (orderItems s oid) = map (\<lambda>i. g (oi_storeId i)) (orderItems s oid)"
    using sh(2) unfolding sh(1) [symmetric] by (simp add: statusesOf_def)
  then show lines: "oi_fulfillmentStatus i = g (oi_storeId i)" if "i \<in> set (orderItems s oid)" for i using that by simp
  show "statusesOf (map (onStore a f) (orderItems s oid)) = map (g(a := e)) ids" if "\<And>i. oi_fulfillmentStatus (f i) = e"
    using lines that by (auto simp: statusesOf_def onStore_def sh(1) [symmetric])
  show "set (statusesOf (filter (\<lambda>i. oi_storeId i = a) (orderItems s oid))) = {g a}" if "a \<in> set ids"
    using lines that by (auto simp: statusesOf_def sh(1) [symmetric] image_iff)
qed

lemma shape_after:
  assumes sh: "orderShape s oid ids g st cid" and f: "findOrder s oid = Some ord"
    and c: "committed env ord (map (onStore a f) (orderItems s oid)) nxt True s t"
    and k: "\<And>i. oi_id (f i) = oi_id i" "\<And>i. oi_orderId (f i) = oi_orderId i" "\<And>i. oi_storeId (f i) = oi_storeId i"
      "\<And>i. oi_fulfillmentStatus (f i) = e"
  shows "orderShape t oid ids (g(a := e)) nxt cid"
proof -
  have u: "uniqueKey oi_id (dbItems s)" and ids: "map oi_storeId (orderItems s oid) = ids" and cid: "o_customerId ord = cid"
    using sh f by (auto simp: orderShape_def)
  have rows: "dbItems t = saveRows oi_id (map (stampItem env s) (map (onStore a f) (orderItems s oid))) (dbItems s)"
    and head: "findOrder t oid = Some (stampOrder env s (transitionRow env ord nxt))"
    using c saved_header [of t env s "transitionRow env ord nxt"] findOrder_id [OF f] by (simp_all add: committed_def)
  note sl = saved_lines [where f = "onStore a f", OF u _ _ rows]
  have "statusesOf (orderItems t oid) = statusesOf (map (onStore a f) (orderItems s oid))" by (rule sl(1)) (simp_all add: k)
  then have "statusesOf (orderItems t oid) = map (g(a := e)) ids" using shape_lines(2) [OF sh k(4)] by simp
  moreover have "map oi_storeId (orderItems t oid) = ids" unfolding ids [symmetric]
    by (rule sl(2)) (simp_all add: k onStore_def)
  moreover have "uniqueKey oi_id (dbItems t)" unfolding rows
    by (rule saveItems_order(2) [OF u]) (simp_all add: k)
  ultimately show ?thesis using head cid by (auto simp: orderShape_def transitionRow_def stampOrder_def)
qed

lemma access_granted:
  assumes "orderShape s oid ids g st cid" and "a \<in> set ids" and "a \<in> st_id ` fst ` set (getAccessibleStores userId s)" and "g a \<noteq> FS_ON_HOLD"
  defines "si \<equiv> filter (\<lambda>i. oi_storeId i = a) (orderItems s oid)"
  shows "assertVendorStoreAccess userId (orderItems s oid) a s = (Inr si, s)"
    "assertNoHeldItemsForVendorFulfillment si = Inr ()" "assertVendorItemsUniform (statusesOf si) (g a) = Inr ()"
proof -
  have u: "set (statusesOf si) = {g a}" using shape_lines(3) [OF assms(1,2)] by (simp add: si_def)
  then have "si \<noteq> []" by (auto simp: statusesOf_def)
  then show "assertVendorStoreAccess userId (orderItems s oid) a s = (Inr si, s)"
    using assms(3) unfolding si_def by (simp add: assertVendorStoreAccess_def Let_def)
  show "assertVendorItemsUniform (statusesOf si) (g a) = Inr ()"
    using uniform_Inr [of "statusesOf si" "g a" "()"] u by simp
  show "assertNoHeldItemsForVendorFulfillment si = Inr ()"
  proof -
    have "oi_fulfillmentStatus i = g a" if "i \<in> set si" for i using u that unfolding statusesOf_def set_map by blast
    then show ?thesis using assms(4) by (auto simp: assertNoHeldItemsForVendorFulfillment_def list_ex_iff)
  qed
qed

lemma ack_shape:
  assumes sh: "orderShape s oid ids g st cid" and st: "st \<in> {OS_PAID, OS_PROCESSING}" and a: "a \<in> set ids" "g a = FS_PENDING" "a \<noteq> []"
    and acc: "a \<in> st_id ` fst ` set (getAccessibleStores userId s)"
  shows "\<exists>t. order_step s t \<and> sameStores s t \<and>
    orderShape t oid ids (g(a := FS_PROCESSING)) (deriveOrderStatusFromFulfillment st (map (g(a := FS_PROCESSING)) ids)) cid"
proof -
  obtain ord where ord: "findOrder s oid = Some ord" "o_status ord = st" using sh by (auto simp: orderShape_def)
  have load: "loadOrderWithItems oid s = (Inr (ord, orderItems s oid), s)" by (simp add: loadOrderWithItems_def ord)
  note g = access_granted [OF sh a(1) acc]
  obtain items nxt lab where "acknowledgePlan sampleClock userId a oid s = (Inr (ord, items, nxt, lab), s)"
    unfolding acknowledgePlan_def seqM_simps(2) [where m = "loadOrderWithItems oid", OF load] prod.case
      seqM_simps(2) [where m = "assertVendorStoreAccess userId (orderItems s oid) a", OF g(1) [unfolded a(2), simplified]]
    using g(2,3) a(2) st by (auto simp: ord Let_def)
  moreover obtain r t where t: "acknowledgeCommit sampleClock userId a (ord, items, nxt, lab) s = (Inr r, t)"
    using acknowledgeCommit_succeeds [OF a(3), of sampleClock ord userId items nxt lab s] by auto
  ultimately have ack: "acknowledgeVendorOrder sampleClock userId a oid s = (Inr r, t)"
    unfolding acknowledgeVendorOrder_def by simp
  from wp_Inr [OF acknowledge_wp this] obtain ord' items' nxt' lab' where
    p: "ackPlanned sampleClock s userId a oid (ord', items', nxt', lab')" "committed sampleClock ord' items' nxt' True s t" by blast
  then have o': "ord' = ord" "items' = map (onStore a (ackItem sampleClock)) (orderItems s oid)"
    "nxt' = deriveOrderStatusFromFulfillment st (map (g(a := FS_PROCESSING)) ids)"
    using ord shape_lines(2) [OF sh, of "ackItem sampleClock" FS_PROCESSING a] by (auto simp: ackPlanned_def ackItem_def)
  have "orderShape t oid ids (g(a := FS_PROCESSING)) nxt' cid"
    by (rule shape_after [OF sh ord(1), where f = "ackItem sampleClock" and env = sampleClock])
      (use p(2) o' in \<open>simp_all add: ackItem_def\<close>)
  moreover have "order_step s t" using order_step.acknowledge [of s sampleClock userId a oid] ack by simp
  moreover have "sameStores s t"
    using preserves_snd [OF plans_stores(1), of s s sampleClock userId a oid] ack by (simp add: sameStores_def)
  ultimately show ?thesis using o'(3) by blast
qed

lemma sample_tracking:
  "validateTrackingNumber ''n'' = Inr ''n''" "validateFulfillmentProvider ''p'' = Inr ''p''"
  "validateOptionalTrackingUrl (\<lambda>_. None) None = Inr None"
  by (simp_all add: validateTrackingNumber_def validateFulfillmentProvider_def validateOptionalTrackingUrl_def js_trim_def js_ws_def)

lemma ship_shape:
  assumes sh: "orderShape s oid ids g st cid" and st: "st \<in> {OS_PAID, OS_PROCESSING, OS_SHIPPED}" and a: "a \<in> set ids" "g a = FS_PROCESSING"
    and acc: "a \<in> st_id ` fst ` set (getAccessibleStores userId s)"
  shows "\<exists>t. order_step s t \<and> sameStores s t \<and>
    orderShape t oid ids (g(a := FS_SHIPPED)) (deriveOrderStatusFromFulfillment st (map (g(a := FS_SHIPPED)) ids)) cid"
proof -
  obtain ord where ord: "findOrder s oid = Some ord" "o_status ord = st" using sh by (auto simp: orderShape_def)
  have load: "loadOrderWithItems oid s = (Inr (ord, orderItems s oid), s)" by (simp add: loadOrderWithItems_def ord)
  note g = access_granted [OF sh a(1) acc]
  let ?ship = "shipVendorOrder sampleClock (\<lambda>_. None) userId a oid ''n'' ''p'' None"
  obtain items nxt where "shipPlan sampleClock (\<lambda>_. None) userId a oid ''n'' ''p'' None s = (Inr (ord, items, nxt), s)"
    unfolding shipPlan_def seqM_simps(2) [where m = "loadOrderWithItems oid", OF load] prod.case
      seqM_simps(2) [where m = "assertVendorStoreAccess userId (orderItems s oid) a", OF g(1) [unfolded a(2), simplified]]
    using g(2,3) a(2) st by (auto simp: ord Let_def sample_tracking)
  moreover obtain r t where t: "shipCommit sampleClock userId a (ord, items, nxt) s = (Inr r, t)"
    unfolding shipCommit_def prod.case using commit_succeeds [of "retM ()" sampleClock ord items nxt userId _ True s] by fastforce
  ultimately have ship: "?ship s = (Inr r, t)" unfolding shipVendorOrder_def by simp
  from wp_Inr [OF ship_wp this] obtain ord' items' nxt' where
    p: "shipPlanned sampleClock (\<lambda>_. None) s userId a oid ''n'' ''p'' None (ord', items', nxt')" "committed sampleClock ord' items' nxt' True s t" by blast
  then have o': "ord' = ord" "items' = map (onStore a (shipItem sampleClock ''n'' ''p'' None)) (orderItems s oid)"
    "nxt' = deriveOrderStatusFromFulfillment st (map (g(a := FS_SHIPPED)) ids)"
    using ord shape_lines(2) [OF sh, of "shipItem sampleClock ''n'' ''p'' None" FS_SHIPPED a] by (auto simp: shipPlanned_def sample_tracking shipItem_def)
  have "orderShape t oid ids (g(a := FS_SHIPPED)) nxt' cid"
    by (rule shape_after [OF sh ord(1), where f = "shipItem sampleClock ''n'' ''p'' None" and env = sampleClock])
      (use p(2) o' in \<open>simp_all add: shipItem_def\<close>)
  moreover have "order_step s t" using order_step.ship [of s sampleClock "\<lambda>_. None" userId a oid "''n''" "''p''" None] ship by simp
  moreover have "sameStores s t"
    using preserves_snd [OF plans_stores(2), of s s sampleClock "\<lambda>_. None" userId a oid "''n''" "''p''" None] ship by (simp add: sameStores_def)
  ultimately show ?thesis using o'(3) by blast
qed

text \<open>All stores of a list act one after the other.\<close>

lemma all_stores:
  assumes one: "\<And>s g a st. orderShape s oid ids g st cid \<Longrightarrow> g ` set ids \<subseteq> {e, e'} \<Longrightarrow> g a = e \<Longrightarrow> a \<in> set ids \<Longrightarrow> access s \<Longrightarrow>
      st = deriveOrderStatusFromFulfillment OS_PAID (map g ids) \<Longrightarrow>
      \<exists>t. order_step s t \<and> access t \<and> orderShape t oid ids (g(a := e')) (deriveOrderStatusFromFulfillment OS_PAID (map (g(a := e')) ids)) cid"
    and ne: "e \<noteq> e'"
  shows "orderShape s oid ids g (deriveOrderStatusFromFulfillment OS_PAID (map g ids)) cid \<Longrightarrow> g ` set ids \<subseteq> {e, e'} \<Longrightarrow> access s \<Longrightarrow>
    card {a \<in> set ids. g a = e} = n \<Longrightarrow>
    \<exists>t g'. reachable s t \<and> access t \<and> g' ` set ids \<subseteq> {e'} \<and> orderShape t oid ids g' (deriveOrderStatusFromFulfillment OS_PAID (map g' ids)) cid"
proof (induction n arbitrary: s g)
  case 0
  then have "g ` set ids \<subseteq> {e'}" by (auto simp: card_eq_0_iff)
  with 0 show ?case by (blast intro: reachable.start)
next
  case (Suc n)
  then obtain a where a: "a \<in> set ids" "g a = e" by (metis (mono_tags, lifting) card_eq_0_iff empty_Collect_eq nat.simps(3))
  from one [OF Suc.prems(1,2) a(2,1) Suc.prems(3) refl] obtain t where t: "order_step s t" "access t"
    "orderShape t oid ids (g(a := e')) (deriveOrderStatusFromFulfillment OS_PAID (map (g(a := e')) ids)) cid" by blast
  have "{b \<in> set ids. (g(a := e')) b = e} = {b \<in> set ids. g b = e} - {a}" using ne by auto
  then have "card {b \<in> set ids. (g(a := e')) b = e} = n" using Suc.prems(4) a by simp
  moreover have "(g(a := e')) ` set ids \<subseteq> {e, e'}" using Suc.prems(2) by auto
  ultimately obtain u g' where u: "reachable t u" "access u" "g' ` set ids \<subseteq> {e'}"
    "orderShape u oid ids g' (deriveOrderStatusFromFulfillment OS_PAID (map g' ids)) cid"
    using Suc.IH [OF t(3) _ t(2)] by blast
  with reachable_trans [OF reachable_step [OF t(1)] u(1)] show ?case by blast
qed

definition staffed :: "string list \<Rightarrow> db \<Rightarrow> bool" where
  "staffed ids s \<longleftrightarrow> (\<forall>a \<in> set ids. a \<noteq> [] \<and> (\<exists>userId. a \<in> st_id ` fst ` set (getAccessibleStores userId s)))"

lemma staffed_same: "sameStores s t \<Longrightarrow> staffed ids s \<Longrightarrow> staffed ids t"
  by (simp add: staffed_def sameStores_access)

lemma derived_of_set:
  "set fs = {FS_PENDING} \<Longrightarrow> deriveOrderStatusFromFulfillment OS_PAID fs = OS_PAID"
  "set fs = {FS_PROCESSING} \<or> set fs = {FS_PENDING, FS_PROCESSING} \<or> set fs = {FS_PROCESSING, FS_SHIPPED} \<Longrightarrow>
     deriveOrderStatusFromFulfillment OS_PAID fs = OS_PROCESSING"
  "set fs = {FS_SHIPPED} \<Longrightarrow> deriveOrderStatusFromFulfillment OS_PAID fs = OS_SHIPPED"
  by (subst derive_table; auto simp: Let_def terminalOrderStatuses_def)+

lemma derived_among:
  assumes "a \<in> set ids"
  shows "g ` set ids \<subseteq> {FS_PENDING, FS_PROCESSING} \<Longrightarrow> deriveOrderStatusFromFulfillment OS_PAID (map g ids) \<in> {OS_PAID, OS_PROCESSING}"
    "g ` set ids \<subseteq> {FS_PROCESSING, FS_SHIPPED} \<Longrightarrow> deriveOrderStatusFromFulfillment OS_PAID (map g ids) \<in> {OS_PROCESSING, OS_SHIPPED}"
proof -
  have sub: "X = {x} \<or> X = {y} \<or> X = {x, y}" if "X \<subseteq> {x, y}" "X \<noteq> {}" for X and x y :: fulfillment_status using that by blast
  have ne: "g ` set ids \<noteq> {}" using assms by auto
  show "deriveOrderStatusFromFulfillment OS_PAID (map g ids) \<in> {OS_PAID, OS_PROCESSING}" if "g ` set ids \<subseteq> {FS_PENDING, FS_PROCESSING}"
    using sub [OF that ne] by (elim disjE) (simp_all add: derived_of_set)
  show "deriveOrderStatusFromFulfillment OS_PAID (map g ids) \<in> {OS_PROCESSING, OS_SHIPPED}" if "g ` set ids \<subseteq> {FS_PROCESSING, FS_SHIPPED}"
    using sub [OF that ne] by (elim disjE) (simp_all add: derived_of_set)
qed

lemma acknowledge_all:
  assumes "orderShape s oid ids g (deriveOrderStatusFromFulfillment OS_PAID (map g ids)) cid"
    and "g ` set ids \<subseteq> {FS_PENDING, FS_PROCESSING}" and "staffed ids s"
  shows "\<exists>t g'. reachable s t \<and> staffed ids t \<and> g' ` set ids \<subseteq> {FS_PROCESSING} \<and>
    orderShape t oid ids g' (deriveOrderStatusFromFulfillment OS_PAID (map g' ids)) cid"
proof (rule all_stores [where access = "staffed ids" and e = FS_PENDING and e' = FS_PROCESSING, OF _ _ assms refl])
  fix s g a st
  assume sh: "orderShape s oid ids g st cid" and g: "g ` set ids \<subseteq> {FS_PENDING, FS_PROCESSING}" "g a = FS_PENDING" "a \<in> set ids"
    and acc: "staffed ids s" and st: "st = deriveOrderStatusFromFulfillment OS_PAID (map g ids)"
  have st': "st \<in> {OS_PAID, OS_PROCESSING}" unfolding st by (rule derived_among(1) [OF g(3,1)])
  then have d: "deriveOrderStatusFromFulfillment st fs = deriveOrderStatusFromFulfillment OS_PAID fs" for fs
    by (intro derive_indep) (auto simp: terminalOrderStatuses_def)
  from acc g(3) obtain u where "a \<noteq> []" "a \<in> st_id ` fst ` set (getAccessibleStores u s)" unfolding staffed_def by blast
  from ack_shape [OF sh st' g(3,2) this] staffed_same acc show "\<exists>t. order_step s t \<and> staffed ids t \<and>
      orderShape t oid ids (g(a := FS_PROCESSING)) (deriveOrderStatusFromFulfillment OS_PAID (map (g(a := FS_PROCESSING)) ids)) cid"
    unfolding d by blast
qed simp

lemma ship_all:
  assumes "orderShape s oid ids g (deriveOrderStatusFromFulfillment OS_PAID (map g ids)) cid"
    and "g ` set ids \<subseteq> {FS_PROCESSING, FS_SHIPPED}" and "staffed ids s"
  shows "\<exists>t g'. reachable s t \<and> staffed ids t \<and> g' ` set ids \<subseteq> {FS_SHIPPED} \<and>
    orderShape t oid ids g' (deriveOrderStatusFromFulfillment OS_PAID (map g' ids)) cid"
proof (rule all_stores [where access = "staffed ids" and e = FS_PROCESSING and e' = FS_SHIPPED, OF _ _ assms refl])
  fix s g a st
  assume sh: "orderShape s oid ids g st cid" and g: "g ` set ids \<subseteq> {FS_PROCESSING, FS_SHIPPED}" "g a = FS_PROCESSING" "a \<in> set ids"
    and acc: "staffed ids s" and st: "st = deriveOrderStatusFromFulfillment OS_PAID (map g ids)"
  have st': "st \<in> {OS_PAID, OS_PROCESSING, OS_SHIPPED}" using derived_among(2) [OF g(3,1)] unfolding st by blast
  then have d: "deriveOrderStatusFromFulfillment st fs = deriveOrderStatusFromFulfillment OS_PAID fs" for fs
    by (intro derive_indep) (auto simp: terminalOrderStatuses_def)
  from acc g(3) obtain u where "a \<in> st_id ` fst ` set (getAccessibleStores u s)" unfolding staffed_def by blast
  from ship_shape [OF sh st' g(3,2) this] staffed_same acc show "\<exists>t. order_step s t \<and> staffed ids t \<and>
      orderShape t oid ids (g(a := FS_SHIPPED)) (deriveOrderStatusFromFulfillment OS_PAID (map (g(a := FS_SHIPPED)) ids)) cid"
    unfolding d by blast
qed simp

lemma deliver_shape:
  assumes sh: "orderShape s oid ids g OS_SHIPPED cid" and g: "g ` set ids \<subseteq> {FS_SHIPPED}" and cid: "truthy cid"
  shows "\<exists>t. order_step s t \<and> map_option o_status (findOrder t oid) = Some OS_DELIVERED \<and>
    statusesOf (orderItems t oid) = map (\<lambda>_. FS_DELIVERED) ids"
proof -
  obtain ord where ord: "findOrder s oid = Some ord" "o_status ord = OS_SHIPPED" "o_customerId ord = cid" using sh by (auto simp: orderShape_def)
  have load: "loadOrderWithItems oid s = (Inr (ord, orderItems s oid), s)" by (simp add: loadOrderWithItems_def ord)
  have shipped: "list_all (\<lambda>f. f = FS_SHIPPED \<or> f = FS_DELIVERED) (statusesOf (orderItems s oid))"
    using sh g by (auto simp: orderShape_def list_all_iff)
  have acc: "assertDeliveryAccess sampleClock id ord cid None None = Inr ()" using cid by (simp add: assertDeliveryAccess_def ord)
  obtain r t where "persistOrderTransition sampleClock ord (map (deliverItem sampleClock) (orderItems s oid)) OS_DELIVERED
      (nullish cid ''guest'') ''Customer confirmed order delivery'' True (retM ()) s = (Inr r, t)"
    using commit_succeeds [of "retM ()" sampleClock ord] by fastforce
  then have del: "confirmOrderDelivered sampleClock id oid cid None None s = (Inr r, t)"
    unfolding confirmOrderDelivered_def seqM_simps(2) [where m = "loadOrderWithItems oid", OF load] prod.case
    using shipped cid by (simp add: acc ord)
  from wp_Inr [OF confirm_wp this] ord(1) have c: "committed sampleClock ord (map (deliverItem sampleClock) (orderItems s oid)) OS_DELIVERED True s t" by auto
  have "statusesOf (orderItems t oid) = statusesOf (map (deliverItem sampleClock) (orderItems s oid))"
    using c sh by (intro saved_lines(1)) (auto simp: committed_def orderShape_def)
  moreover have "length (orderItems s oid) = length ids" using sh by (auto simp: orderShape_def)
  ultimately have "statusesOf (orderItems t oid) = map (\<lambda>_. FS_DELIVERED) ids"
    by (simp add: statusesOf_def deliverItem_def comp_def map_replicate_const)
  moreover have "findOrder t oid = Some (stampOrder sampleClock s (transitionRow sampleClock ord OS_DELIVERED))"
    using saved_header [of t sampleClock s "transitionRow sampleClock ord OS_DELIVERED"] c findOrder_id [OF ord(1)] by (simp add: committed_def)
  moreover have "order_step s t" using order_step.deliver [of s sampleClock id oid cid None None] del by simp
  ultimately show ?thesis by auto
qed

section \<open>Properties of the system\<close>

text \<open>C6. Whatever sequence of checkouts, vendor and customer actions, suspensions, reactivations and expiry
  jobs has run, successful or not: every order that is neither unpaid nor terminal has the status
  its lines determine, no variant has a negative stock, and every held line knows the status it
  returns to.\<close>

theorem reachable_orders_sound:
  assumes "reachable s0 s" and "sysInv s0"
  shows "(\<forall>oid ord. findOrder s oid = Some ord \<longrightarrow> o_status ord \<notin> {OS_CANCELLED, OS_REFUNDED, OS_PENDING_PAYMENT} \<longrightarrow>
      o_status ord = deriveOrderStatusFromFulfillment (o_status ord) (statusesOf (orderItems s oid))) \<and>
    (\<forall>v q. stockOf s v = Some q \<longrightarrow> 0 \<le> q) \<and>
    (\<forall>i \<in> set (dbItems s). oi_fulfillmentStatus i = FS_ON_HOLD \<longrightarrow> oi_previousFulfillmentStatus i \<in> {Some FS_PENDING, Some FS_PROCESSING})"
proof -
  have "sysInv s" using assms by (induction rule: reachable.induct) (auto intro: sysInv_step)
  then have "ordersInv s" "stockSound s" by (simp_all add: sysInv_def)
  then show ?thesis
    by (fastforce simp: ordersInv_def headerOk_def terminalOrderStatuses_def stockSound_def lineOk_def heldOk_def holdEligibleFulfillment_def)
qed

lemma sampleMarket_inv: "sysInv sampleMarket"
proof -
  have "stockOf sampleMarket w = (if w = ''v'' then Some 5 else None)" for w
    by (simp add: stockOf_def liveVariant_def sampleMarket_def)
  then show ?thesis by (auto simp: sysInv_def ordersInv_def stockSound_def findOrder_def uniqueKey_def sampleMarket_def empty_db_def)
qed

theorem reachable_orders_sound_witness:
  "\<exists>r t. createOrder sampleIds sampleSecrets (sampleOrderInput [sampleOrderItem]) (Some ''u'') sampleMarket = (Inr r, t) \<and>
     (\<forall>v q. stockOf (snd (cancelVendorOrder sampleIds ''u'' ''s'' ''x'' t)) v = Some q \<longrightarrow> 0 \<le> q)"
proof -
  obtain r t where t: "createOrder sampleIds sampleSecrets (sampleOrderInput [sampleOrderItem]) (Some ''u'') sampleMarket = (Inr r, t)"
    using sample_created by auto
  have "inj (envUuid sampleIds)" by (auto simp: sampleIds_def inj_def dest: arg_cong [where f = length])
  then have "idsFresh sampleIds sampleMarket" by (simp add: idsFresh_def ordersFresh_def sampleMarket_def empty_db_def)
  then have "order_step sampleMarket (snd (createOrder sampleIds sampleSecrets (sampleOrderInput [sampleOrderItem]) (Some ''u'') sampleMarket))"
    by (rule order_step.place) (simp add: sampleOrderInput_def sampleOrderItem_def)
  then have "reachable sampleMarket t" using t by (simp add: reachable_step)
  from reachable.step [OF this order_step.cancel, of sampleIds "''u''" "''s''" "''x''"]
  show ?thesis using t reachable_orders_sound [OF _ sampleMarket_inv] by blast
qed

text \<open>C27. Work on an order comes to an end: from any sound state an order of n lines allows at most 3 n + 2
  successful payments, acknowledgements, shipments, deliveries and cancellations.\<close>

theorem work_on_order_bounded:
  assumes "sysInv s" and "(worked oid ^^ n) s t"
  shows "n \<le> 3 * length (orderItems s oid) + 2"
  using worked_bound [OF assms(2,1)] orderWork_bound [of oid s] by simp

lemma samplePaid_inv: "sysInv samplePaid"
proof -
  have "headerOk OS_PAID [lineB]" by (simp add: headerOk_def statusesOf_def derived_of_set)
  then show ?thesis
    by (auto simp: sysInv_def ordersInv_def stockSound_def findOrder_def samplePaid_def sampleMulti_def empty_db_def orderItems_def
        uniqueKey_def lineOk_def heldOk_def stockOf_def liveVariant_def lineB_def sampleItem_def split: if_splits)
qed

theorem work_on_order_bounded_witness:
  "\<exists>r t. acknowledgeVendorOrder sampleClock ''owner'' ''b'' ''o'' samplePaid = (Inr r, t) \<and> 1 \<le> 3 * length (orderItems samplePaid ''o'') + 2"
proof -
  obtain r t where t: "acknowledgeVendorOrder sampleClock ''owner'' ''b'' ''o'' samplePaid = (Inr r, t)" using samplePaid_ack by blast
  from work_on_order_bounded [OF samplePaid_inv, of 1 "''o''" t] worked.w_ack [OF t] t show ?thesis by auto
qed

text \<open>C15. A paid order of an account is never stuck: if its lines wait and each of its stores has someone with access, then
  acknowledgements and shipments of the stores and the confirmation of the customer lead to a state
  in which the order and all its lines are delivered. (The confirmation of a guest fails.)\<close>

theorem paid_order_completable:
  assumes "sysInv s" and "findOrder s oid = Some ord" and "o_status ord = OS_PAID" and "truthy (o_customerId ord)"
    and "orderItems s oid \<noteq> []" and "\<And>i. i \<in> set (orderItems s oid) \<Longrightarrow> oi_fulfillmentStatus i = FS_PENDING"
    and "staffed (map oi_storeId (orderItems s oid)) s"
  shows "\<exists>t. reachable s t \<and> map_option o_status (findOrder t oid) = Some OS_DELIVERED \<and>
    set (statusesOf (orderItems t oid)) = {FS_DELIVERED}"
proof -
  let ?ids = "map oi_storeId (orderItems s oid)" and ?g = "\<lambda>_ :: string. FS_PENDING"
  have one: "set (map h ?ids) = {e}" if "h ` set ?ids \<subseteq> {e}" for h and e :: fulfillment_status
    using that assms(5) by (cases "orderItems s oid") auto
  have "deriveOrderStatusFromFulfillment OS_PAID (map ?g ?ids) = OS_PAID" by (rule derived_of_set(1), rule one) auto
  then have start: "orderShape s oid ?ids ?g (deriveOrderStatusFromFulfillment OS_PAID (map ?g ?ids)) (o_customerId ord)"
    using assms(1,2,3,6) by (auto simp: orderShape_def sysInv_def ordersInv_def statusesOf_def)
  have "?g ` set ?ids \<subseteq> {FS_PENDING, FS_PROCESSING}" by auto
  from acknowledge_all [OF start this assms(7)] obtain t g where t: "reachable s t" "staffed ?ids t" "g ` set ?ids \<subseteq> {FS_PROCESSING}"
    "orderShape t oid ?ids g (deriveOrderStatusFromFulfillment OS_PAID (map g ?ids)) (o_customerId ord)" by blast
  have "g ` set ?ids \<subseteq> {FS_PROCESSING, FS_SHIPPED}" using t(3) by blast
  from ship_all [OF t(4) this t(2)] obtain u h where u: "reachable t u" "h ` set ?ids \<subseteq> {FS_SHIPPED}"
    "orderShape u oid ?ids h (deriveOrderStatusFromFulfillment OS_PAID (map h ?ids)) (o_customerId ord)" by blast
  have "deriveOrderStatusFromFulfillment OS_PAID (map h ?ids) = OS_SHIPPED" by (rule derived_of_set(3), rule one [OF u(2)])
  from deliver_shape [OF u(3) [unfolded this] u(2) assms(4)] obtain v where v: "order_step u v"
    "map_option o_status (findOrder v oid) = Some OS_DELIVERED" "statusesOf (orderItems v oid) = map (\<lambda>_. FS_DELIVERED) ?ids" by blast
  have "set (statusesOf (orderItems v oid)) = {FS_DELIVERED}" using v(3) assms(5) by (cases "orderItems s oid") auto
  with reachable_trans [OF reachable_trans [OF t(1) u(1)] reachable_step [OF v(1)]] v(2) show ?thesis by blast
qed

theorem paid_order_completable_witness:
  "\<exists>t. reachable samplePaid t \<and> map_option o_status (findOrder t ''o'') = Some OS_DELIVERED \<and>
     set (statusesOf (orderItems t ''o'')) = {FS_DELIVERED}"
proof (rule paid_order_completable [OF samplePaid_inv])
  show "staffed (map oi_storeId (orderItems samplePaid ''o'')) samplePaid"
    unfolding staffed_def by (auto intro: exI [of _ "''owner''"])
qed (auto simp: truthy_def sampleOrder_def)

end
