(* ===== verification/Payout_Balance.thy ===== *)
theory Payout_Balance
  imports Payout_Commission Order_Store Store_Access Pagination Promotion_Rules
begin

text \<open>
  The reading half of \<^verbatim>\<open>src/src/modules/payouts/payouts.service.ts\<close>: which lines of which orders a
  store can be paid for on a settlement rail, the fours of the unpaid balance and the payout
  summary. The SQL of the query builders is written as filters over the tables; a join on
  \<open>Promotion\<close> by its class keeps soft-deleted rows, as TypeORM does. \<open>config\<close> is the
  commission and payout configuration.
\<close>

section \<open>Configuration and constants\<close>

record payout_config =
  pc_goLiveAt :: "date option"
  pc_defaultRatePercent :: "int option"
  pc_minPayoutAmount :: "money option"

definition DEFAULT_COMMISSION_RATE_PERCENT :: int where
  "DEFAULT_COMMISSION_RATE_PERCENT = 7"

definition PAID_OUT_STATUSES :: "payout_status list" where
  "PAID_OUT_STATUSES = [PS_PENDING, PS_PROCESSING, PS_COMPLETED]"

definition PENDING_STATUSES :: "payout_status list" where
  "PENDING_STATUSES = [PS_PENDING, PS_PROCESSING]"

definition OMISE_PAYMENT_METHODS :: "payment_method list" where
  "OMISE_PAYMENT_METHODS = [PM_PROMPTPAY, PM_CREDIT_CARD, PM_TRUEMONEY, PM_SHOPEEPAY]"

definition MANUAL_PAYMENT_METHODS :: "payment_method list" where
  "MANUAL_PAYMENT_METHODS = [PM_BANK_TRANSFER]"

section \<open>Eligible lines, discounts and order slices\<close>

text \<open>The conditions on the order that all the balance queries share.\<close>

definition eligibleOrder :: "payment_method list \<Rightarrow> order_row \<Rightarrow> bool" where
  "eligibleOrder paymentMethods ord \<longleftrightarrow> o_status ord \<in> {OS_PAID, OS_DELIVERED} \<and>
     o_paymentMethod ord \<in> set paymentMethods \<and> o_status ord \<noteq> OS_ON_HOLD \<and> o_source ord \<noteq> DS_VENDOR_IMPORT"

text \<open>The rows of \<open>eligibleItemsQuery\<close>: a line with the order it is joined to.\<close>

definition eligibleItems :: "string \<Rightarrow> payment_method list \<Rightarrow> db \<Rightarrow> (item_row \<times> order_row) list" where
  "eligibleItems storeId paymentMethods s = List.map_filter (\<lambda>i.
     case findOrder s (oi_orderId i) of
       None \<Rightarrow> None
     | Some ord \<Rightarrow>
         if oi_storeId i = storeId \<and> eligibleOrder paymentMethods ord \<and> oi_fulfillmentStatus i \<noteq> FS_ON_HOLD
         then Some (i, ord) else None) (dbItems s)"

datatype cutoff = PRE | POST

definition applyPaidAtCutoff :: "cutoff \<Rightarrow> date \<Rightarrow> order_row \<Rightarrow> bool" where
  "applyPaidAtCutoff bucket goLiveAt ord = (case bucket of
     POST \<Rightarrow> (case o_paidAt ord of None \<Rightarrow> False | Some d \<Rightarrow> goLiveAt \<le> d)
   | PRE \<Rightarrow> (case o_paidAt ord of None \<Rightarrow> True | Some d \<Rightarrow> d < goLiveAt))"

definition calculateItemSubtotal :: "string \<Rightarrow> payment_method list \<Rightarrow> db \<Rightarrow> money" where
  "calculateItemSubtotal storeId paymentMethods s = (\<Sum>(i, _)\<leftarrow>eligibleItems storeId paymentMethods s. oi_subtotal i)"

definition sumEligibleItemSubtotal :: "string \<Rightarrow> payment_method list \<Rightarrow> cutoff \<Rightarrow> date \<Rightarrow> db \<Rightarrow> money" where
  "sumEligibleItemSubtotal storeId paymentMethods bucket goLiveAt s =
     (\<Sum>(i, _)\<leftarrow>filter (\<lambda>(_, ord). applyPaidAtCutoff bucket goLiveAt ord) (eligibleItems storeId paymentMethods s). oi_subtotal i)"

definition storePromotionDiscounts :: "string \<Rightarrow> payment_method list \<Rightarrow> db \<Rightarrow> (promotion_usage_row \<times> order_row) list" where
  "storePromotionDiscounts storeId paymentMethods s = List.map_filter (\<lambda>u.
     case (findOrder s (pu_orderId u), byKey pm_id (pu_promotionId u) (dbPromotions s)) of
       (Some ord, Some p) \<Rightarrow>
         if pm_storeId p = Some storeId \<and> pm_scope p = SC_STORE \<and> eligibleOrder paymentMethods ord then Some (u, ord) else None
     | _ \<Rightarrow> None) (dbPromotionUsages s)"

definition calculateStorePromotionDiscounts :: "string \<Rightarrow> payment_method list \<Rightarrow> db \<Rightarrow> money" where
  "calculateStorePromotionDiscounts storeId paymentMethods s =
     (\<Sum>(u, _)\<leftarrow>storePromotionDiscounts storeId paymentMethods s. pu_discountAmount u)"

definition sumStorePromotionDiscounts :: "string \<Rightarrow> payment_method list \<Rightarrow> cutoff \<Rightarrow> date \<Rightarrow> db \<Rightarrow> money" where
  "sumStorePromotionDiscounts storeId paymentMethods bucket goLiveAt s =
     (\<Sum>(u, _)\<leftarrow>filter (\<lambda>(_, ord). applyPaidAtCutoff bucket goLiveAt ord) (storePromotionDiscounts storeId paymentMethods s).
        pu_discountAmount u)"

text \<open>The product before and after the go-live of commissions.\<close>

definition calculateEligibleProductBuckets ::
    "string \<Rightarrow> payment_method list \<Rightarrow> date option \<Rightarrow> db \<Rightarrow> money \<times> money" where
  "calculateEligibleProductBuckets storeId paymentMethods goLive s = (case goLive of
     None \<Rightarrow> (0, max 0 (calculateItemSubtotal storeId paymentMethods s - calculateStorePromotionDiscounts storeId paymentMethods s))
   | Some goLiveAt \<Rightarrow>
      (max 0 (sumEligibleItemSubtotal storeId paymentMethods PRE goLiveAt s - sumStorePromotionDiscounts storeId paymentMethods PRE goLiveAt s),
       max 0 (sumEligibleItemSubtotal storeId paymentMethods POST goLiveAt s - sumStorePromotionDiscounts storeId paymentMethods POST goLiveAt s)))"

text \<open>
  One slice per order with an eligible line, oldest payment first (never paid before all others).
  The index on order and store leaves at most one shipping row to join.
\<close>

definition sliceProduct :: "string \<Rightarrow> payment_method list \<Rightarrow> db \<Rightarrow> order_row \<Rightarrow> money" where
  "sliceProduct storeId paymentMethods s ord =
     (\<Sum>(i, _)\<leftarrow>filter (\<lambda>(i, _). oi_orderId i = o_id ord) (eligibleItems storeId paymentMethods s). oi_subtotal i)"

definition sliceShipping :: "string \<Rightarrow> payment_method list \<Rightarrow> db \<Rightarrow> order_row \<Rightarrow> money" where
  "sliceShipping storeId paymentMethods s ord =
     (let fee = (case List.find (\<lambda>x. ss_orderId x = o_id ord \<and> ss_storeId x = storeId) (dbShippings s) of
                   None \<Rightarrow> 0 | Some x \<Rightarrow> ss_shippingFee x)
      in max 0 (min fee (max 0 (o_total ord - sliceProduct storeId paymentMethods s ord + o_discountAmount ord))))"

definition paidOrder :: "order_row \<Rightarrow> (int \<times> date) \<times> date \<times> string" where
  "paidOrder ord = ((case o_paidAt ord of None \<Rightarrow> (0, 0) | Some d \<Rightarrow> (1, d)), o_createdAt ord, o_id ord)"

definition listEligibleOrderSlices :: "string \<Rightarrow> payment_method list \<Rightarrow> db \<Rightarrow> (money \<times> money) list" where
  "listEligibleOrderSlices storeId paymentMethods s =
     map (\<lambda>ord. (sliceProduct storeId paymentMethods s ord, sliceShipping storeId paymentMethods s ord))
       (sort_key paidOrder
         (filter (\<lambda>ord. \<exists>(i, _) \<in> set (eligibleItems storeId paymentMethods s). oi_orderId i = o_id ord) (dbOrders s)))"

section \<open>The unpaid balance\<close>

definition railPayouts :: "string \<Rightarrow> settlement_rail \<Rightarrow> payout_status list \<Rightarrow> db \<Rightarrow> payout_row list" where
  "railPayouts storeId rail statuses s =
     filter (\<lambda>p. po_storeId p = storeId \<and> po_settlementRail p = rail \<and> po_status p \<in> set statuses) (dbPayouts s)"

definition priorOf :: "payout_row \<Rightarrow> prior_payout" where
  "priorOf p = \<lparr>pp_amount = po_amount p, pp_productSold = po_productSold p, pp_shippingFees = po_shippingFees p,
     pp_commissionAmount = po_commissionAmount p, pp_commissionRate = po_commissionRate p\<rparr>"

definition loadPriorPayoutsForConsume :: "string \<Rightarrow> settlement_rail \<Rightarrow> db \<Rightarrow> prior_payout list" where
  "loadPriorPayoutsForConsume storeId rail s =
     map priorOf (sort_key (\<lambda>p. (po_createdAt p, po_id p)) (railPayouts storeId rail PAID_OUT_STATUSES s))"

definition calculateTotalPaidOut :: "string \<Rightarrow> settlement_rail \<Rightarrow> db \<Rightarrow> money" where
  "calculateTotalPaidOut storeId rail s = (\<Sum>p\<leftarrow>railPayouts storeId rail PAID_OUT_STATUSES s. po_amount p)"

definition calculatePendingPayoutAmount :: "string \<Rightarrow> settlement_rail \<Rightarrow> db \<Rightarrow> money" where
  "calculatePendingPayoutAmount storeId rail s = (\<Sum>p\<leftarrow>railPayouts storeId rail PENDING_STATUSES s. po_amount p)"

record unpaid_breakdown =
  ud_breakdown :: breakdown
  ud_lifetimeProduct :: money
  ud_unpaid :: unpaid_buckets

text \<open>The unpaid buckets: prior payouts are taken from the product, shipping follows what is left of it.\<close>

definition unpaidBuckets ::
    "payout_config \<Rightarrow> string \<Rightarrow> settlement_rail \<Rightarrow> payment_method list \<Rightarrow> db \<Rightarrow> unpaid_buckets" where
  "unpaidBuckets config storeId rail paymentMethods s =
     (let (preProduct, postProduct) = calculateEligibleProductBuckets storeId paymentMethods (pc_goLiveAt config) s;
          u = consumePriorPayouts preProduct postProduct 0 (loadPriorPayoutsForConsume storeId rail s)
      in u\<lparr>ub_ship := unpaidShippingForRemainingProduct (listEligibleOrderSlices storeId paymentMethods s) (ub_pre u + ub_post u)\<rparr>)"

definition storeRate :: "payout_config \<Rightarrow> store_row \<Rightarrow> int" where
  "storeRate config store = effectiveRate (st_commissionRate store) (nullish (pc_defaultRatePercent config) DEFAULT_COMMISSION_RATE_PERCENT)"

definition computeUnpaidBreakdown ::
    "payout_config \<Rightarrow> string \<Rightarrow> settlement_rail \<Rightarrow> payment_method list \<Rightarrow> db \<Rightarrow> unpaid_breakdown result" where
  "computeUnpaidBreakdown config storeId rail paymentMethods s = (case liveStore s storeId of
     None \<Rightarrow> Inl (NotFound ''STORE_NOT_FOUND'')
   | Some store \<Rightarrow>
      (let unpaid = unpaidBuckets config storeId rail paymentMethods s;
           (preProduct, postProduct) = calculateEligibleProductBuckets storeId paymentMethods (pc_goLiveAt config) s
       in Inr \<lparr>ud_breakdown = finalizeBreakdown unpaid (storeRate config store),
               ud_lifetimeProduct = preProduct + postProduct, ud_unpaid = unpaid\<rparr>))"

section \<open>The summary\<close>

record rail_summary =
  rs_grossRevenue :: money
  rs_totalPaidOut :: money
  rs_availableBalance :: money
  rs_productSold :: money
  rs_shippingFees :: money
  rs_commissionAmount :: money
  rs_commissionRate :: int
  rs_pendingPayoutAmount :: money
  rs_canRequestPayout :: bool

record payout_summary =
  ps_storeId :: string
  ps_grossRevenue :: money
  ps_totalPaidOut :: money
  ps_availableBalance :: money
  ps_productSold :: money
  ps_shippingFees :: money
  ps_commissionAmount :: money
  ps_commissionRate :: int
  ps_pendingPayoutAmount :: money
  ps_minimumPayoutAmount :: money
  ps_canRequestPayout :: bool
  ps_omise :: rail_summary
  ps_manual :: rail_summary

definition getMinimumPayoutAmount :: "payout_config \<Rightarrow> money" where
  "getMinimumPayoutAmount config = nullish (pc_minPayoutAmount config) 100"

text \<open>\<open>findOne\<close> ordered by creation: the oldest match.\<close>

definition oldestPayout :: "(payout_row \<Rightarrow> bool) \<Rightarrow> db \<Rightarrow> payout_row option" where
  "oldestPayout P s = List.find (\<lambda>_. True) (sort_key po_createdAt (filter P (dbPayouts s)))"

definition isOrphan :: "string \<Rightarrow> payout_row \<Rightarrow> bool" where
  "isOrphan storeId p \<longleftrightarrow> po_storeId p = storeId \<and> po_settlementRail p = RAIL_OMISE \<and> po_status p = PS_PENDING \<and>
     po_transferReference p = None"

definition findOrphanPendingPayout :: "string \<Rightarrow> db \<Rightarrow> payout_row option" where
  "findOrphanPendingPayout storeId s = oldestPayout (isOrphan storeId) s"

definition buildRailSummary ::
    "payout_config \<Rightarrow> string \<Rightarrow> settlement_rail \<Rightarrow> payment_method list \<Rightarrow> db \<Rightarrow> rail_summary result" where
  "buildRailSummary config storeId rail paymentMethods s = (case computeUnpaidBreakdown config storeId rail paymentMethods s of
     Inl e \<Rightarrow> Inl e
   | Inr unpaid \<Rightarrow>
      (let b = ud_breakdown unpaid;
           availableBalance = max 0 (bd_net b);
           pendingPayoutAmount = calculatePendingPayoutAmount storeId rail s;
           orphanPending = (if rail = RAIL_OMISE then findOrphanPendingPayout storeId s else None);
           hasPending = 0 < pendingPayoutAmount;
           enough = \<not> hasPending \<and> getMinimumPayoutAmount config \<le> availableBalance \<and> 0 < availableBalance
       in Inr \<lparr>rs_grossRevenue = ud_lifetimeProduct unpaid, rs_totalPaidOut = calculateTotalPaidOut storeId rail s,
               rs_availableBalance = availableBalance, rs_productSold = bd_productSold b, rs_shippingFees = bd_shippingFees b,
               rs_commissionAmount = bd_commissionAmount b, rs_commissionRate = bd_commissionRate b,
               rs_pendingPayoutAmount = pendingPayoutAmount,
               rs_canRequestPayout = (if rail = RAIL_OMISE then (if orphanPending \<noteq> None then True else enough) else enough)\<rparr>))"

text \<open>The top-level fields of the summary repeat those of the Omise rail.\<close>

definition getPayoutSummary :: "payout_config \<Rightarrow> string \<Rightarrow> db \<Rightarrow> payout_summary result" where
  "getPayoutSummary config storeId s =
     (if liveStore s storeId = None then Inl (NotFound ''STORE_NOT_FOUND'')
      else case (buildRailSummary config storeId RAIL_OMISE OMISE_PAYMENT_METHODS s,
                 buildRailSummary config storeId RAIL_MANUAL MANUAL_PAYMENT_METHODS s) of
        (Inr omise, Inr manual) \<Rightarrow>
          Inr \<lparr>ps_storeId = storeId, ps_grossRevenue = rs_grossRevenue omise, ps_totalPaidOut = rs_totalPaidOut omise,
               ps_availableBalance = rs_availableBalance omise, ps_productSold = rs_productSold omise,
               ps_shippingFees = rs_shippingFees omise, ps_commissionAmount = rs_commissionAmount omise,
               ps_commissionRate = rs_commissionRate omise, ps_pendingPayoutAmount = rs_pendingPayoutAmount omise,
               ps_minimumPayoutAmount = getMinimumPayoutAmount config, ps_canRequestPayout = rs_canRequestPayout omise,
               ps_omise = omise, ps_manual = manual\<rparr>
      | (Inl e, _) \<Rightarrow> Inl e
      | (_, Inl e) \<Rightarrow> Inl e)"

definition getAvailableBalance :: "payout_config \<Rightarrow> string \<Rightarrow> db \<Rightarrow> money result" where
  "getAvailableBalance config storeId s =
     (case getPayoutSummary config storeId s of Inl e \<Rightarrow> Inl e | Inr summary \<Rightarrow> Inr (ps_availableBalance summary))"

section \<open>Lists of payouts\<close>

definition findPayoutsByStore :: "string \<Rightarrow> rat option \<Rightarrow> rat option \<Rightarrow> db \<Rightarrow> payout_row paginated" where
  "findPayoutsByStore storeId page limit s =
     adminPage page limit (sort_key (\<lambda>p. - po_createdAt p) (filter (\<lambda>p. po_storeId p = storeId) (dbPayouts s)))"

definition findPendingManualPayouts :: "int option \<Rightarrow> int option \<Rightarrow> db \<Rightarrow> (payout_row \<times> store_row option) paginated" where
  "findPendingManualPayouts page limit s =
     (let p = max 1 (nullish page 1); l = min 100 (max 1 (nullish limit 20));
          rows = sort_key po_createdAt (filter (\<lambda>x. po_settlementRail x = RAIL_MANUAL \<and> po_status x = PS_PENDING) (dbPayouts s))
      in \<lparr>pr_items = map (\<lambda>x. (x, liveStore s (po_storeId x))) (pageWindow p l rows),
          pr_pagination = buildAdminListPagination p l (int (length rows))\<rparr>)"

end
