(* ===== verification/Payouts.thy ===== *)
theory Payouts
  imports Payout_Balance
begin

text \<open>
  The writing half of \<^verbatim>\<open>src/src/modules/payouts/payouts.service.ts\<close> and the daily job of
  \<^verbatim>\<open>payout-scheduler.service.ts\<close>. The Omise gateway (\<^verbatim>\<open>src/src/modules/omise/omise.service.ts\<close> is
  a thin HTTP client) is a parameter: what it answers to the \<open>n\<close>-th outgoing call, an error being
  the message of the thrown exception. Every call that asks for a transfer is recorded as an effect.
\<close>

section \<open>The gateway\<close>

record omise_recipient =
  rc_id :: string
  rc_verified :: bool
  rc_active :: bool
  rc_failureCode :: "string option"

record omise_transfer =
  tr_id :: string
  tr_amount :: int
  tr_currency :: string
  tr_sent :: bool
  tr_paid :: bool
  tr_failureCode :: "string option"
  tr_failureMessage :: "string option"

record omise =
  om_secretKey :: string
  om_createTransfer :: "nat \<Rightarrow> string \<Rightarrow> int \<Rightarrow> string + omise_transfer"
  om_getRecipient :: "nat \<Rightarrow> string \<Rightarrow> string + omise_recipient"
  om_getTransfer :: "nat \<Rightarrow> string \<Rightarrow> string + omise_transfer"

definition hasCredentials :: "omise \<Rightarrow> bool" where
  "hasCredentials om \<longleftrightarrow> 0 < length (om_secretKey om)"

text \<open>The answer to a call made in state \<open>s\<close> is indexed by the effects that went before.\<close>

definition createTransfer :: "omise \<Rightarrow> string \<Rightarrow> int \<Rightarrow> (db, string + omise_transfer) op" where
  "createTransfer om recipientId amountSatang =
     seqM (getM (\<lambda>s. om_createTransfer om (length (dbEffects s)) recipientId amountSatang)) (\<lambda>answer.
     seqM (emit (OmiseTransferSent recipientId amountSatang)) (\<lambda>_. retM answer))"

section \<open>Rows\<close>

definition stampPayout :: "env \<Rightarrow> db \<Rightarrow> payout_row \<Rightarrow> payout_row" where
  "stampPayout env s p = (if byKey po_id (po_id p) (dbPayouts s) = Some p then p else p\<lparr>po_updatedAt := envNow env\<rparr>)"

definition savePayout :: "env \<Rightarrow> payout_row \<Rightarrow> (db, payout_row) op" where
  "savePayout env p = (\<lambda>s. (Inr (stampPayout env s p), s\<lparr>dbPayouts := saveRow po_id (stampPayout env s p) (dbPayouts s)\<rparr>))"

definition saveStore :: "env \<Rightarrow> store_row \<Rightarrow> (db, unit) op" where
  "saveStore env st = modM (\<lambda>s. s\<lparr>dbStores := saveRow st_id
     (if byKey st_id (st_id st) (dbStores s) = Some st then st else st\<lparr>st_updatedAt := envNow env\<rparr>) (dbStores s)\<rparr>)"

definition findPayout :: "db \<Rightarrow> string \<Rightarrow> payout_row option" where
  "findPayout s i = byKey po_id i (dbPayouts s)"

definition requireStore :: "string \<Rightarrow> (db, store_row) op" where
  "requireStore storeId = readM (\<lambda>s. case liveStore s storeId of
     None \<Rightarrow> Inl (NotFound ''STORE_NOT_FOUND'') | Some st \<Rightarrow> Inr st)"

text \<open>The row lock serialises the transactions that take it; what is left to model is the missing row.\<close>

definition lockStoreRowForPayout :: "string \<Rightarrow> (db, unit) op" where
  "lockStoreRowForPayout storeId = seqM (requireStore storeId) (\<lambda>_. retM ())"

definition assertNoConcurrentPendingPayout :: "string \<Rightarrow> settlement_rail \<Rightarrow> (db, unit) op" where
  "assertNoConcurrentPendingPayout storeId rail = readM (\<lambda>s.
     if railPayouts storeId rail PENDING_STATUSES s \<noteq> [] then Inl (BadRequest ''PAYOUT_ALREADY_PENDING'') else Inr ())"

section \<open>The snapshot\<close>

definition assertCommissionFormula :: "breakdown \<Rightarrow> unpaid_buckets \<Rightarrow> int \<Rightarrow> unit result" where
  "assertCommissionFormula b unpaid rate =
     (let consumedPost = max 0 (toSatang (bd_productSold b) - toSatang (ub_pre unpaid))
      in if toSatang (bd_commissionAmount b) \<noteq> commissionSatang consumedPost rate
         then Inl (BadRequest ''COMMISSION_FORMULA_MISMATCH'') else Inr ())"

definition newPayoutRow ::
    "env \<Rightarrow> string \<Rightarrow> string \<Rightarrow> settlement_rail \<Rightarrow> breakdown \<Rightarrow> string option \<Rightarrow> string option \<Rightarrow> payout_row" where
  "newPayoutRow env i storeId rail b processedBy remark =
     \<lparr>po_id = i, po_storeId = storeId, po_amount = bd_net b, po_fee = 0, po_netAmount = bd_net b,
      po_commissionRate = Some (bd_commissionRate b), po_productSold = Some (bd_productSold b),
      po_shippingFees = Some (bd_shippingFees b), po_commissionAmount = Some (bd_commissionAmount b),
      po_status = PS_PENDING, po_settlementRail = rail, po_transferReference = None, po_processedBy = processedBy,
      po_processedAt = None, po_failureReason = None, po_notes = remark, po_createdAt = envNow env, po_updatedAt = envNow env\<rparr>"

definition insertSnapshotPayout ::
    "env \<Rightarrow> payout_config \<Rightarrow> string \<Rightarrow> settlement_rail \<Rightarrow> payment_method list \<Rightarrow> money option \<Rightarrow> string option \<Rightarrow> string option
       \<Rightarrow> (db, payout_row) op" where
  "insertSnapshotPayout env config storeId rail paymentMethods amount processedBy remark =
     seqM (readM (computeUnpaidBreakdown config storeId rail paymentMethods)) (\<lambda>unpaidFull.
       (let net = bd_net (ud_breakdown unpaidFull);
            rate = bd_commissionRate (ud_breakdown unpaidFull);
            requested = nullish amount net;
            b = consumeToAmount (ud_unpaid unpaidFull) requested rate
        in seqM (failIf (requested \<le> 0) (BadRequest ''INVALID_PAYOUT_AMOUNT'')) (\<lambda>_.
           seqM (failIf (net < requested) (BadRequest ''INSUFFICIENT_BALANCE'')) (\<lambda>_.
           seqM (liftM (assertCommissionFormula b (ud_unpaid unpaidFull) rate)) (\<lambda>_.
           seqM (freshId env) (\<lambda>i. savePayout env (newPayoutRow env i storeId rail b processedBy remark)))))))"

text \<open>The transaction of \<open>requestManualPayout\<close> and \<open>createOmisePayout\<close>.\<close>

definition commitPayout ::
    "env \<Rightarrow> payout_config \<Rightarrow> string \<Rightarrow> settlement_rail \<Rightarrow> payment_method list \<Rightarrow> money option \<Rightarrow> string option \<Rightarrow> string option
       \<Rightarrow> (db, payout_row) op" where
  "commitPayout env config storeId rail paymentMethods amount processedBy remark = txnM (
     seqM (lockStoreRowForPayout storeId) (\<lambda>_.
     seqM (assertNoConcurrentPendingPayout storeId rail) (\<lambda>_.
       insertSnapshotPayout env config storeId rail paymentMethods amount processedBy remark)))"

section \<open>The Omise rail\<close>

definition assertRecipientReadyForTransfer :: "store_row \<Rightarrow> unit result" where
  "assertRecipientReadyForTransfer store =
     (if \<not> truthy (st_omiseRecipientId store) then Inl (BadRequest ''OMISE_RECIPIENT_NOT_CONNECTED'')
      else if st_omiseRecipientStatus store \<noteq> RS_ACTIVE then Inl (BadRequest ''OMISE_RECIPIENT_NOT_READY'')
      else Inr ())"

text \<open>A gateway error is logged and swallowed; the result is the store object the caller goes on with.\<close>

definition refreshStoreRecipientStatus :: "env \<Rightarrow> omise \<Rightarrow> store_row \<Rightarrow> (db, store_row) op" where
  "refreshStoreRecipientStatus env om store =
     (if \<not> truthy (st_omiseRecipientId store) \<or> \<not> hasCredentials om then retM store
      else seqM (getM (\<lambda>s. om_getRecipient om (length (dbEffects s)) (nullish (st_omiseRecipientId store) []))) (\<lambda>answer.
        case answer of
          Inl _ \<Rightarrow> retM store
        | Inr recipient \<Rightarrow>
            (let nextStatus = (if rc_verified recipient \<and> rc_active recipient then RS_ACTIVE else RS_PENDING);
                 store' = store\<lparr>st_omiseRecipientStatus := nextStatus,
                   st_omiseRecipientFailureMessage := (if nextStatus = RS_ACTIVE then None else st_omiseRecipientFailureMessage store)\<rparr>
             in if st_omiseRecipientStatus store \<noteq> nextStatus
                then seqM (saveStore env store') (\<lambda>_. retM store') else retM store)))"

text \<open>
  \<open>applyOmiseTransfer\<close> changes the payout object it is given also when it throws; the result is that
  object with what was thrown. \<open>Math.round(netAmount * 100)\<close> is the amount in satang.
\<close>

definition applyOmiseTransfer :: "env \<Rightarrow> omise \<Rightarrow> payout_row \<Rightarrow> string \<Rightarrow> money \<Rightarrow> (db, payout_row \<times> exn option) op" where
  "applyOmiseTransfer env om payout recipientId netAmount =
     seqM (createTransfer om recipientId (js_round (netAmount * 100))) (\<lambda>answer.
       case answer of
         Inl message \<Rightarrow> retM (payout\<lparr>po_status := PS_PENDING, po_failureReason := Some message\<rparr>, Some (BadRequest ''OMISE_TRANSFER_FAILED''))
       | Inr transfer \<Rightarrow>
           (let sent = payout\<lparr>po_transferReference := Some (tr_id transfer), po_status := PS_PROCESSING, po_failureReason := None\<rparr>
            in retM (if tr_paid transfer then sent\<lparr>po_status := PS_COMPLETED, po_processedAt := Some (envNow env)\<rparr> else sent, None)))"

definition claimOrphanPayoutForSubmission :: "env \<Rightarrow> string \<Rightarrow> (db, payout_row option) op" where
  "claimOrphanPayoutForSubmission env payoutId = txnM (
     seqM (getM (\<lambda>s. findPayout s payoutId)) (\<lambda>found. case found of
       None \<Rightarrow> retM None
     | Some p \<Rightarrow> if po_status p \<noteq> PS_PENDING \<or> truthy (po_transferReference p) then retM None
                 else seqM (savePayout env (p\<lparr>po_status := PS_PROCESSING\<rparr>)) (\<lambda>q. retM (Some q))))"

definition submitPayoutToOmise :: "env \<Rightarrow> omise \<Rightarrow> payout_row \<Rightarrow> (db, payout_row) op" where
  "submitPayoutToOmise env om payout =
     seqM (requireStore (po_storeId payout)) (\<lambda>store0.
     seqM (refreshStoreRecipientStatus env om store0) (\<lambda>store.
     seqM (failIf (\<not> hasCredentials om) (BadRequest ''OMISE_NOT_CONFIGURED'')) (\<lambda>_.
     seqM (liftM (assertRecipientReadyForTransfer store)) (\<lambda>_.
     seqM (claimOrphanPayoutForSubmission env (po_id payout)) (\<lambda>claim. case claim of
       None \<Rightarrow> readM (\<lambda>s. case findPayout s (po_id payout) of
                 None \<Rightarrow> Inl (NotFound ''PAYOUT_NOT_FOUND'') | Some latest \<Rightarrow> Inr latest)
     | Some claimed \<Rightarrow>
         seqM (applyOmiseTransfer env om claimed (nullish (st_omiseRecipientId store) []) (po_netAmount claimed)) (\<lambda>(p, thrown).
           case thrown of
             Some e \<Rightarrow> seqM (savePayout env p) (\<lambda>_. raiseM e)
           | None \<Rightarrow> savePayout env p))))))"

text \<open>
  \<open>createOmisePayout\<close> in its two halves: up to the commit of the pending row, and the transfer after it.
\<close>

definition openOmisePayout ::
    "env \<Rightarrow> payout_config \<Rightarrow> omise \<Rightarrow> string \<Rightarrow> money \<Rightarrow> string option \<Rightarrow> string option \<Rightarrow> (db, store_row \<times> payout_row) op" where
  "openOmisePayout env config om storeId amount processedBy remark =
     seqM (requireStore storeId) (\<lambda>store0.
     seqM (refreshStoreRecipientStatus env om store0) (\<lambda>store.
     seqM (liftM (if hasCredentials om then assertRecipientReadyForTransfer store else Inr ())) (\<lambda>_.
     seqM (commitPayout env config storeId RAIL_OMISE OMISE_PAYMENT_METHODS (Some amount) processedBy remark) (\<lambda>payout.
       retM (store, payout)))))"

definition transferOmisePayout :: "env \<Rightarrow> omise \<Rightarrow> store_row \<Rightarrow> payout_row \<Rightarrow> (db, payout_row) op" where
  "transferOmisePayout env om store payout =
     (if hasCredentials om \<and> truthy (st_omiseRecipientId store) \<and> st_omiseRecipientStatus store = RS_ACTIVE
      then seqM (applyOmiseTransfer env om payout (nullish (st_omiseRecipientId store) []) (po_netAmount payout)) (\<lambda>(p, thrown).
             case thrown of Some e \<Rightarrow> raiseM e | None \<Rightarrow> savePayout env p)
      else savePayout env payout)"

definition createOmisePayout ::
    "env \<Rightarrow> payout_config \<Rightarrow> omise \<Rightarrow> string \<Rightarrow> money \<Rightarrow> string option \<Rightarrow> string option \<Rightarrow> (db, payout_row) op" where
  "createOmisePayout env config om storeId amount processedBy remark =
     seqM (openOmisePayout env config om storeId amount processedBy remark) (\<lambda>(store, payout). transferOmisePayout env om store payout)"

definition createManualPayout ::
    "env \<Rightarrow> payout_config \<Rightarrow> omise \<Rightarrow> string \<Rightarrow> money \<Rightarrow> string option \<Rightarrow> string option \<Rightarrow> (db, payout_row) op" where
  "createManualPayout env config om storeId amount processedBy remark = createOmisePayout env config om storeId amount processedBy remark"

definition requestPayout :: "env \<Rightarrow> payout_config \<Rightarrow> omise \<Rightarrow> string \<Rightarrow> string option \<Rightarrow> (db, payout_row) op" where
  "requestPayout env config om storeId processedBy =
     seqM (getM (findOrphanPendingPayout storeId)) (\<lambda>orphan. case orphan of
       Some p \<Rightarrow> submitPayoutToOmise env om p
     | None \<Rightarrow>
         seqM (readM (getPayoutSummary config storeId)) (\<lambda>summary.
           (let omise = ps_omise summary in
            seqM (failIf (0 < rs_pendingPayoutAmount omise) (BadRequest ''PAYOUT_ALREADY_PENDING'')) (\<lambda>_.
            seqM (failIf (rs_availableBalance omise \<le> 0) (BadRequest ''INSUFFICIENT_BALANCE'')) (\<lambda>_.
            seqM (failIf (rs_availableBalance omise < ps_minimumPayoutAmount summary) (BadRequest ''PAYOUT_BELOW_MINIMUM'')) (\<lambda>_.
              createOmisePayout env config om storeId (rs_availableBalance omise) processedBy (Some ''Vendor requested payout'')))))))"

record trigger_options =
  to_amount :: "money option"
  to_bypassMinimum :: bool
  to_processedBy :: "string option"
  to_notes :: "string option"

definition triggerPayout :: "env \<Rightarrow> payout_config \<Rightarrow> omise \<Rightarrow> string \<Rightarrow> trigger_options \<Rightarrow> (db, payout_row) op" where
  "triggerPayout env config om storeId options =
     seqM (getM (findOrphanPendingPayout storeId)) (\<lambda>orphan. case orphan of
       Some p \<Rightarrow> submitPayoutToOmise env om p
     | None \<Rightarrow>
         seqM (readM (getPayoutSummary config storeId)) (\<lambda>summary.
           (let available = rs_availableBalance (ps_omise summary);
                amount = nullish (to_amount options) available in
            seqM (failIf (amount \<le> 0) (BadRequest ''INVALID_PAYOUT_AMOUNT'')) (\<lambda>_.
            seqM (failIf (available < amount) (BadRequest ''INSUFFICIENT_BALANCE'')) (\<lambda>_.
            seqM (failIf (\<not> to_bypassMinimum options \<and> amount < ps_minimumPayoutAmount summary) (BadRequest ''PAYOUT_BELOW_MINIMUM'')) (\<lambda>_.
              createOmisePayout env config om storeId amount (to_processedBy options)
                (Some (nullish (to_notes options) ''Admin triggered Omise payout''))))))))"

section \<open>The manual rail\<close>

definition requestManualPayout :: "env \<Rightarrow> payout_config \<Rightarrow> string \<Rightarrow> string option \<Rightarrow> (db, payout_row) op" where
  "requestManualPayout env config storeId processedBy =
     seqM (requireStore storeId) (\<lambda>_.
     seqM (readM (getPayoutSummary config storeId)) (\<lambda>summary.
       (let manual = ps_manual summary in
        seqM (failIf (0 < rs_pendingPayoutAmount manual) (BadRequest ''PAYOUT_ALREADY_PENDING'')) (\<lambda>_.
        seqM (failIf (rs_availableBalance manual \<le> 0) (BadRequest ''INSUFFICIENT_BALANCE'')) (\<lambda>_.
        seqM (failIf (rs_availableBalance manual < ps_minimumPayoutAmount summary) (BadRequest ''PAYOUT_BELOW_MINIMUM'')) (\<lambda>_.
        seqM (commitPayout env config storeId RAIL_MANUAL MANUAL_PAYMENT_METHODS None processedBy (Some ''Vendor requested manual payout'')) (\<lambda>payout.
        seqM (emit (NotifyManualPayout (po_id payout))) (\<lambda>_.
        seqM (emit (DashboardPayout (po_id payout))) (\<lambda>_. retM payout)))))))))"

definition resolvePendingManualPayout :: "string \<Rightarrow> string option \<Rightarrow> db \<Rightarrow> payout_row result" where
  "resolvePendingManualPayout storeId payoutId s =
     (if truthy payoutId then
        (case findPayout s (the payoutId) of
           None \<Rightarrow> Inl (NotFound ''PAYOUT_NOT_FOUND'')
         | Some p \<Rightarrow>
             if po_storeId p \<noteq> storeId then Inl (BadRequest ''PAYOUT_MISMATCH'')
             else if po_settlementRail p \<noteq> RAIL_MANUAL then Inl (BadRequest ''PAYOUT_WRONG_RAIL'')
             else if po_status p \<noteq> PS_PENDING then Inl (BadRequest ''PAYOUT_NOT_PENDING'')
             else Inr p)
      else (case oldestPayout (\<lambda>p. po_storeId p = storeId \<and> po_settlementRail p = RAIL_MANUAL \<and> po_status p = PS_PENDING) s of
              None \<Rightarrow> Inl (BadRequest ''NO_PENDING_MANUAL_PAYOUT'') | Some p \<Rightarrow> Inr p))"

record settle_options =
  so_payoutId :: "string option"
  so_processedBy :: "string option"
  so_notes :: "string option"

text \<open>What \<open>settleManualPayout\<close> and \<open>rejectManualPayout\<close> share: the checks under the row locks, then the change.\<close>

definition closeManualPayout ::
    "env \<Rightarrow> string \<Rightarrow> string option \<Rightarrow> (payout_row \<Rightarrow> payout_row) \<Rightarrow> (db, payout_row) op" where
  "closeManualPayout env storeId payoutId close =
     seqM (requireStore storeId) (\<lambda>_.
     seqM (readM (resolvePendingManualPayout storeId payoutId)) (\<lambda>pending.
     seqM (txnM (
       seqM (lockStoreRowForPayout storeId) (\<lambda>_.
       seqM (readM (\<lambda>s. case findPayout s (po_id pending) of
           None \<Rightarrow> Inl (BadRequest ''PAYOUT_NOT_PENDING'')
         | Some locked \<Rightarrow>
             if po_status locked \<noteq> PS_PENDING then Inl (BadRequest ''PAYOUT_NOT_PENDING'')
             else if po_storeId locked \<noteq> storeId \<or> po_settlementRail locked \<noteq> RAIL_MANUAL then Inl (BadRequest ''PAYOUT_MISMATCH'')
             else Inr locked)) (\<lambda>locked.
         savePayout env (close locked))))) (\<lambda>payout.
     seqM (emit (DashboardPayout (po_id payout))) (\<lambda>_. retM payout))))"

definition settleRow :: "env \<Rightarrow> settle_options \<Rightarrow> payout_row \<Rightarrow> payout_row" where
  "settleRow env options locked = locked\<lparr>po_status := PS_COMPLETED,
     po_processedBy := orElse (so_processedBy options) (po_processedBy locked), po_processedAt := Some (envNow env),
     po_notes := Some (nullish (orElse (so_notes options) (po_notes locked)) ''Admin approved manual payout after transfer'')\<rparr>"

definition rejectRow :: "env \<Rightarrow> settle_options \<Rightarrow> payout_row \<Rightarrow> payout_row" where
  "rejectRow env options locked = locked\<lparr>po_status := PS_FAILED,
     po_processedBy := orElse (so_processedBy options) (po_processedBy locked), po_processedAt := Some (envNow env),
     po_failureReason := Some (nullish (so_notes options) ''Admin rejected manual payout request''),
     po_notes := orElse (so_notes options) (po_notes locked)\<rparr>"

definition settleManualPayout :: "env \<Rightarrow> string \<Rightarrow> settle_options \<Rightarrow> (db, payout_row) op" where
  "settleManualPayout env storeId options = closeManualPayout env storeId (so_payoutId options) (settleRow env options)"

definition rejectManualPayout :: "env \<Rightarrow> string \<Rightarrow> settle_options \<Rightarrow> (db, payout_row) op" where
  "rejectManualPayout env storeId options = closeManualPayout env storeId (so_payoutId options) (rejectRow env options)"

section \<open>Webhooks of the gateway\<close>

record transfer_event =
  te_key :: "string option"
  te_object :: "string option"
  te_id :: "string option"
  te_paid :: "bool option"
  te_failureCode :: "string option"
  te_failureMessage :: "string option"

text \<open>The change an event makes to the payout it is about, given the transfer fetched anew, if any.\<close>

definition transferOutcome :: "env \<Rightarrow> transfer_event \<Rightarrow> omise_transfer option \<Rightarrow> payout_row \<Rightarrow> payout_row option" where
  "transferOutcome env event transfer payout =
     (let paid = nullish (orElse (map_option tr_paid transfer) (te_paid event)) False;
          code = (case transfer of None \<Rightarrow> None | Some t \<Rightarrow> tr_failureCode t);
          message = (case transfer of None \<Rightarrow> None | Some t \<Rightarrow> tr_failureMessage t);
          failed = (te_key event = Some ''transfer.fail'' \<or> truthy (orElse code (te_failureCode event)))
      in if te_key event = Some ''transfer.pay'' \<or> paid
         then Some (payout\<lparr>po_status := PS_COMPLETED, po_processedAt := Some (envNow env), po_failureReason := None\<rparr>)
         else if failed
         then Some (payout\<lparr>po_status := PS_FAILED, po_failureReason := Some (nullish
           (orElse message (orElse (te_failureMessage event) (orElse code (te_failureCode event)))) ''Omise transfer failed'')\<rparr>)
         else if te_key event = Some ''transfer.send'' \<or> (case transfer of None \<Rightarrow> False | Some t \<Rightarrow> tr_sent t)
         then Some (payout\<lparr>po_status := PS_PROCESSING\<rparr>)
         else None)"

definition handleOmiseTransferWebhook :: "env \<Rightarrow> omise \<Rightarrow> transfer_event \<Rightarrow> (db, unit) op" where
  "handleOmiseTransferWebhook env om event =
     (if \<not> truthy (te_id event) \<or> te_object event \<noteq> Some ''transfer'' then retM ()
      else seqM (getM (\<lambda>s. List.find (\<lambda>p. po_transferReference p = te_id event) (dbPayouts s))) (\<lambda>found. case found of
        None \<Rightarrow> retM ()
      | Some payout \<Rightarrow>
          if po_status payout \<in> {PS_COMPLETED, PS_FAILED} then retM ()
          else seqM (getM (\<lambda>s. if hasCredentials om
                 then map_sum id Some (om_getTransfer om (length (dbEffects s)) (nullish (te_id event) [])) else Inr None)) (\<lambda>fetched.
            case fetched of
              Inl _ \<Rightarrow> retM ()
            | Inr transfer \<Rightarrow> (case transferOutcome env event transfer payout of
                  None \<Rightarrow> retM ()
                | Some p \<Rightarrow> seqM (savePayout env p) (\<lambda>_. retM ())))))"

section \<open>The scheduler\<close>

text \<open>
  \<open>Date.getDay\<close> and \<open>Date.getDate\<close> of the server's local time, which is \<open>zone\<close> milliseconds
  ahead of UTC: the proleptic Gregorian calendar, by eras of 400 years that start in March.
\<close>

definition dayNumber :: "int \<Rightarrow> date \<Rightarrow> int" where
  "dayNumber zone d = (d + zone) div 86400000"

definition getDay :: "int \<Rightarrow> date \<Rightarrow> int" where
  "getDay zone d = (dayNumber zone d + 4) mod 7"

definition getDate :: "int \<Rightarrow> date \<Rightarrow> int" where
  "getDate zone d =
     (let doe = (dayNumber zone d + 719468) mod 146097;
          yoe = (doe - doe div 1460 + doe div 36524 - doe div 146096) div 365;
          doy = doe - (365 * yoe + yoe div 4 - yoe div 100);
          mp = (5 * doy + 2) div 153
      in doy - (153 * mp + 2) div 5 + 1)"

fun isDue :: "int \<Rightarrow> payout_schedule \<Rightarrow> date \<Rightarrow> bool" where
  "isDue zone SCH_DAILY d = True"
| "isDue zone SCH_WEEKLY d = (getDay zone d = 1)"
| "isDue zone SCH_BIWEEKLY d = (getDate zone d = 1 \<or> getDate zone d = 15)"
| "isDue zone SCH_MONTHLY d = (getDate zone d = 1)"
| "isDue zone SCH_MANUAL d = False"

definition scheduledPayout :: "env \<Rightarrow> payout_config \<Rightarrow> omise \<Rightarrow> store_row \<Rightarrow> (db, unit) op" where
  "scheduledPayout env config om store =
     seqM (readM (getPayoutSummary config (st_id store))) (\<lambda>summary.
       if ps_availableBalance summary < getMinimumPayoutAmount config then retM ()
       else if 0 < ps_pendingPayoutAmount summary then retM ()
       else seqM (createManualPayout env config om (st_id store) (ps_availableBalance summary) None (Some ''Scheduled payout'')) (\<lambda>_. retM ()))"

definition runScheduledPayouts :: "int \<Rightarrow> env \<Rightarrow> payout_config \<Rightarrow> omise \<Rightarrow> (db, unit list) op" where
  "runScheduledPayouts zone env config om =
     seqM (getM (\<lambda>s. filter (\<lambda>st. st_status st = ST_APPROVED \<and> \<not> st_payoutSchedulePaused st \<and> st_deletedAt st = None) (dbStores s))) (\<lambda>stores.
       forM (\<lambda>store.
         if st_payoutSchedule store = SCH_MANUAL \<or> \<not> isDue zone (st_payoutSchedule store) (envNow env) then retM ()
         else catchM (scheduledPayout env config om store) (\<lambda>_. retM ())) stores)"

section \<open>Lemmas\<close>

lemma stampPayout_simps [simp]:
  "po_id (stampPayout env s p) = po_id p" "po_storeId (stampPayout env s p) = po_storeId p"
  "po_status (stampPayout env s p) = po_status p" "po_settlementRail (stampPayout env s p) = po_settlementRail p"
  "po_amount (stampPayout env s p) = po_amount p" "po_netAmount (stampPayout env s p) = po_netAmount p"
  "po_productSold (stampPayout env s p) = po_productSold p" "po_shippingFees (stampPayout env s p) = po_shippingFees p"
  "po_commissionAmount (stampPayout env s p) = po_commissionAmount p" "po_commissionRate (stampPayout env s p) = po_commissionRate p"
  "po_transferReference (stampPayout env s p) = po_transferReference p" "po_createdAt (stampPayout env s p) = po_createdAt p"
  by (simp_all add: stampPayout_def)

lemma newPayoutRow_simps [simp]:
  "po_id (newPayoutRow env i st rail b u n) = i" "po_storeId (newPayoutRow env i st rail b u n) = st"
  "po_status (newPayoutRow env i st rail b u n) = PS_PENDING" "po_settlementRail (newPayoutRow env i st rail b u n) = rail"
  "po_amount (newPayoutRow env i st rail b u n) = bd_net b" "po_netAmount (newPayoutRow env i st rail b u n) = bd_net b"
  "po_transferReference (newPayoutRow env i st rail b u n) = None" "po_createdAt (newPayoutRow env i st rail b u n) = envNow env"
  "stampPayout env s (newPayoutRow env i st rail b u n) = newPayoutRow env i st rail b u n"
  "priorOf (newPayoutRow env i st rail b u n) = snapshotOf b"
  by (simp_all add: newPayoutRow_def stampPayout_def priorOf_def snapshotOf_def)

lemma requireStore_wp [wp]:
  "wp (requireStore i) Q E s = (case liveStore s i of None \<Rightarrow> E (NotFound ''STORE_NOT_FOUND'') s | Some st \<Rightarrow> Q st s)"
  by (simp add: requireStore_def wp split: option.split)

lemma savePayout_wp [wp]:
  "wp (savePayout env p) Q E s = Q (stampPayout env s p) (s\<lparr>dbPayouts := saveRow po_id (stampPayout env s p) (dbPayouts s)\<rparr>)"
  by (simp add: savePayout_def wp_def)

lemma saveStore_wp [wp]:
  "wp (saveStore env st) Q E s = Q () (s\<lparr>dbStores := saveRow st_id
     (if byKey st_id (st_id st) (dbStores s) = Some st then st else st\<lparr>st_updatedAt := envNow env\<rparr>) (dbStores s)\<rparr>)"
  by (simp add: saveStore_def wp)

text \<open>The row a commit inserts, in terms of the unpaid breakdown it has read.\<close>

definition payoutOf ::
    "env \<Rightarrow> string \<Rightarrow> settlement_rail \<Rightarrow> unpaid_breakdown \<Rightarrow> money option \<Rightarrow> string option \<Rightarrow> string option \<Rightarrow> db \<Rightarrow> payout_row" where
  "payoutOf env storeId rail ud amount processedBy remark s = newPayoutRow env (envUuid env (idCount s)) storeId rail
     (consumeToAmount (ud_unpaid ud) (nullish amount (bd_net (ud_breakdown ud))) (bd_commissionRate (ud_breakdown ud))) processedBy remark"

definition opensPayout ::
    "env \<Rightarrow> payout_config \<Rightarrow> string \<Rightarrow> settlement_rail \<Rightarrow> payment_method list \<Rightarrow> money option \<Rightarrow> string option \<Rightarrow> string option
       \<Rightarrow> db \<Rightarrow> payout_row \<Rightarrow> db \<Rightarrow> bool" where
  "opensPayout env config storeId rail methods amount processedBy remark s p t \<longleftrightarrow>
     (\<exists>ud. computeUnpaidBreakdown config storeId rail methods s = Inr ud \<and> railPayouts storeId rail PENDING_STATUSES s = [] \<and>
        0 < nullish amount (bd_net (ud_breakdown ud)) \<and> nullish amount (bd_net (ud_breakdown ud)) \<le> bd_net (ud_breakdown ud) \<and>
        p = payoutOf env storeId rail ud amount processedBy remark s \<and>
        t = s\<lparr>idCount := Suc (idCount s), dbPayouts := saveRow po_id p (dbPayouts s)\<rparr>)"

lemma commitPayout_wp:
  "wp (commitPayout env config storeId rail methods amount processedBy remark)
     (opensPayout env config storeId rail methods amount processedBy remark s) (\<lambda>_ t. t = s) s"
  by (simp add: commitPayout_def lockStoreRowForPayout_def assertNoConcurrentPendingPayout_def insertSnapshotPayout_def wp Let_def
      opensPayout_def payoutOf_def split: option.split sum.split)

section \<open>What every operation keeps\<close>

text \<open>
  At most one payout of a store and rail is open, ids are unique and those still to be generated are
  unused. An operation advances the payouts: no row is lost, store, rail, amounts and snapshot of a row
  never change, and a row that is completed or failed does not change at all.
\<close>

definition isOpen :: "payout_row \<Rightarrow> bool" where
  "isOpen p \<longleftrightarrow> po_status p \<in> set PENDING_STATUSES"

definition oneOpen :: "db \<Rightarrow> bool" where
  "oneOpen s \<longleftrightarrow> (\<forall>storeId rail. length (railPayouts storeId rail PENDING_STATUSES s) \<le> 1)"

definition payInv :: "env \<Rightarrow> db \<Rightarrow> bool" where
  "payInv env s \<longleftrightarrow> uniqueKey po_id (dbPayouts s) \<and> inj (envUuid env) \<and>
     (\<forall>k \<ge> idCount s. envUuid env k \<notin> po_id ` set (dbPayouts s)) \<and> oneOpen s"

definition sameMoney :: "payout_row \<Rightarrow> payout_row \<Rightarrow> bool" where
  "sameMoney p q \<longleftrightarrow> po_id q = po_id p \<and> po_storeId q = po_storeId p \<and> po_settlementRail q = po_settlementRail p \<and> po_createdAt q = po_createdAt p \<and>
     po_netAmount q = po_netAmount p \<and> priorOf q = priorOf p"

definition advances :: "db \<Rightarrow> db \<Rightarrow> bool" where
  "advances s t \<longleftrightarrow> (\<forall>i p. findPayout s i = Some p \<longrightarrow>
     (\<exists>q. findPayout t i = Some q \<and> sameMoney p q \<and> (\<not> isOpen p \<longrightarrow> q = p)))"

lemma sameMoney_refl [simp]: "sameMoney p p"
  by (simp add: sameMoney_def)

lemma sameMoney_trans: "sameMoney p q \<Longrightarrow> sameMoney q r \<Longrightarrow> sameMoney p r"
  by (simp add: sameMoney_def)

lemma advances_refl [simp]: "advances s s"
  by (simp add: advances_def)

lemma advances_trans:
  assumes "advances s t" and "advances t u"
  shows "advances s u"
  unfolding advances_def
proof (intro allI impI)
  fix i p
  assume "findPayout s i = Some p"
  then obtain q where q: "findPayout t i = Some q" "sameMoney p q" "\<not> isOpen p \<longrightarrow> q = p" using assms(1) unfolding advances_def by blast
  then obtain r where "findPayout u i = Some r" "sameMoney q r" "\<not> isOpen q \<longrightarrow> r = q" using assms(2) unfolding advances_def by blast
  with q show "\<exists>r. findPayout u i = Some r \<and> sameMoney p r \<and> (\<not> isOpen p \<longrightarrow> r = p)" using sameMoney_trans by blast
qed

lemma length_filter_map_le:
  "(\<And>x. x \<in> set xs \<Longrightarrow> P (f x) \<Longrightarrow> P x) \<Longrightarrow> length (filter P (map f xs)) \<le> length (filter P xs)"
  by (induction xs) auto

lemma payInv_simps [simp]:
  "payInv env (s\<lparr>dbEffects := x\<rparr>) = payInv env s" "payInv env (s\<lparr>dbStores := y\<rparr>) = payInv env s"
  "findPayout (s\<lparr>dbEffects := x\<rparr>) = findPayout s" "findPayout (s\<lparr>dbStores := y\<rparr>) = findPayout s"
  "advances u (s\<lparr>dbEffects := x\<rparr>) = advances u s" "advances u (s\<lparr>dbStores := y\<rparr>) = advances u s"
  by (simp_all add: payInv_def advances_def findPayout_def oneOpen_def railPayouts_def fun_eq_iff)

lemma findPayout_id: "findPayout s i = Some p \<Longrightarrow> po_id p = i"
  unfolding findPayout_def by (rule payout_repo.byId_key)

lemma findPayout_save [simp]:
  "findPayout (s\<lparr>dbPayouts := saveRow po_id p (dbPayouts s)\<rparr>) i = (if i = po_id p then Some p else findPayout s i)"
  by (simp add: findPayout_def payout_repo.byId_save)

lemma payInv_update:
  assumes "payInv env s" and "findPayout s (po_id p) = Some q" and "sameMoney q p" and "isOpen p \<Longrightarrow> isOpen q"
  shows "payInv env (s\<lparr>dbPayouts := saveRow po_id p (dbPayouts s)\<rparr>)"
proof -
  let ?f = "\<lambda>x. if po_id x = po_id p then p else x"
  have u: "uniqueKey po_id (dbPayouts s)" using assms(1) by (simp add: payInv_def)
  have row: "saveRow po_id p (dbPayouts s) = map ?f (dbPayouts s)"
    using saveRow_present [OF _ u] assms(2) by (simp add: findPayout_def)
  have q: "q \<in> set (dbPayouts s)" using assms(2) payout_repo.byId_mem by (simp add: findPayout_def)
  have ids: "map po_id (map ?f (dbPayouts s)) = map po_id (dbPayouts s)" by auto
  have open_old: "x = q" if "x \<in> set (dbPayouts s)" "po_id x = po_id p" for x
    using byKey_in [OF u that(1)] that(2) assms(2) by (simp add: findPayout_def)
  have "length (railPayouts st rail PENDING_STATUSES (s\<lparr>dbPayouts := map ?f (dbPayouts s)\<rparr>)) \<le> length (railPayouts st rail PENDING_STATUSES s)" for st rail
  proof -
    let ?Q = "\<lambda>x. po_storeId x = st \<and> po_settlementRail x = rail \<and> po_status x \<in> set PENDING_STATUSES"
    have "?Q x" if "x \<in> set (dbPayouts s)" "?Q (?f x)" for x
    proof (cases "po_id x = po_id p")
      case True
      then have "x = q" using open_old that(1) by blast
      with True that(2) assms(3,4) show ?thesis by (simp add: sameMoney_def isOpen_def)
    qed (use that(2) in simp)
    note le = length_filter_map_le [of "dbPayouts s" ?Q ?f, OF this]
    have e: "dbPayouts (s\<lparr>dbPayouts := map ?f (dbPayouts s)\<rparr>) = map ?f (dbPayouts s)" by simp
    show ?thesis unfolding railPayouts_def e by (rule le)
  qed
  moreover have "length (railPayouts st rail PENDING_STATUSES s) \<le> 1" for st rail using assms(1) by (simp add: payInv_def oneOpen_def)
  ultimately have "oneOpen (s\<lparr>dbPayouts := map ?f (dbPayouts s)\<rparr>)" unfolding oneOpen_def by (blast intro: order_trans)
  moreover have "po_id ` set (map ?f (dbPayouts s)) = po_id ` set (dbPayouts s)" using arg_cong [OF ids, of set] unfolding set_map .
  moreover have "uniqueKey po_id (map ?f (dbPayouts s))" using u unfolding uniqueKey_def ids .
  ultimately show ?thesis using assms(1) unfolding row payInv_def by (simp del: set_map list.set_map)
qed

lemma advances_update:
  assumes "findPayout s (po_id p) = Some q" and "sameMoney q p" and "isOpen q"
  shows "advances s (s\<lparr>dbPayouts := saveRow po_id p (dbPayouts s)\<rparr>)"
  using assms by (auto simp: advances_def)

lemma opensPayout_keeps:
  assumes "opensPayout env config storeId rail methods amount processedBy remark s p t" and "payInv env s"
  shows "payInv env t \<and> advances s t \<and> findPayout t (po_id p) = Some p \<and> po_status p = PS_PENDING \<and> isOpen p"
proof -
  obtain ud where t: "t = s\<lparr>idCount := Suc (idCount s), dbPayouts := saveRow po_id p (dbPayouts s)\<rparr>"
    and none: "railPayouts storeId rail PENDING_STATUSES s = []"
    and p: "p = payoutOf env storeId rail ud amount processedBy remark s" using assms(1) by (auto simp: opensPayout_def)
  have pid: "po_id p = envUuid env (idCount s)" "po_storeId p = storeId" "po_settlementRail p = rail" "po_status p = PS_PENDING"
    by (simp_all add: p payoutOf_def)
  have new: "po_id p \<notin> po_id ` set (dbPayouts s)" using assms(2) pid(1) by (simp add: payInv_def)
  have row: "saveRow po_id p (dbPayouts s) = dbPayouts s @ [p]" using new by (rule saveRow_map_other)
  have "length (railPayouts st r PENDING_STATUSES t) \<le> 1" for st r
    using assms(2) none pid by (cases "st = storeId \<and> r = rail") (auto simp: t row railPayouts_def payInv_def oneOpen_def)
  moreover have "envUuid env k \<notin> po_id ` set (dbPayouts s @ [p])" if "Suc (idCount s) \<le> k" for k
    using assms(2) that pid(1) by (auto simp: payInv_def inj_eq)
  moreover have "uniqueKey po_id (dbPayouts s @ [p])" using assms(2) new by (auto simp: payInv_def uniqueKey_def)
  moreover have "advances s t"
    unfolding advances_def
  proof (intro allI impI)
    fix i q
    assume q: "findPayout s i = Some q"
    have "findPayout s (po_id p) = None" using new by (simp add: findPayout_def byKey_None_iff)
    with q have "i \<noteq> po_id p" by auto
    then have "findPayout t i = Some q" using q by (simp add: t findPayout_def payout_repo.byId_save)
    then show "\<exists>r. findPayout t i = Some r \<and> sameMoney q r \<and> (\<not> isOpen q \<longrightarrow> r = q)" by simp
  qed
  ultimately show ?thesis using assms(2) pid(4)
    by (auto simp: t row payInv_def oneOpen_def isOpen_def PENDING_STATUSES_def findPayout_def byKey_saveRow simp flip: row)
qed

definition kept :: "env \<Rightarrow> db \<Rightarrow> db \<Rightarrow> bool" where
  "kept env s0 s \<longleftrightarrow> payInv env s \<and> advances s0 s"

lemma kept_refl: "payInv env s \<Longrightarrow> kept env s s"
  by (simp add: kept_def)

lemma kept_simps [simp]:
  "kept env s0 (s\<lparr>dbEffects := x\<rparr>) = kept env s0 s" "kept env s0 (s\<lparr>dbStores := y\<rparr>) = kept env s0 s"
  "kept env s0 (s\<lparr>dbEffects := x, dbPayouts := z\<rparr>) = kept env s0 (s\<lparr>dbPayouts := z\<rparr>)"
  by (simp_all add: kept_def payInv_def advances_def findPayout_def oneOpen_def railPayouts_def)

lemma sameMoney_stamp [simp]: "sameMoney q (stampPayout env s p) = sameMoney q p"
  by (simp add: sameMoney_def priorOf_def)

lemma isOpen_stamp [simp]: "isOpen (stampPayout env s p) = isOpen p"
  by (simp add: isOpen_def)

lemma kept_update:
  assumes "kept env s0 s" and "findPayout s (po_id p) = Some q" and "sameMoney q p" and "isOpen q"
  shows "kept env s0 (s\<lparr>dbPayouts := saveRow po_id p (dbPayouts s)\<rparr>)"
  using payInv_update [OF _ assms(2,3)] advances_update [OF assms(2,3,4)] assms(1,4) by (auto simp: kept_def intro: advances_trans)

lemma preserves_refresh [pres]: "preserves (kept env0 s0) (refreshStoreRecipientStatus env om store)"
  unfolding preserves_wp refreshStoreRecipientStatus_def by (simp add: wp Let_def split: sum.split)

lemma claim_kept:
  assumes "kept env s0 s"
  shows "wp (claimOrphanPayoutForSubmission env' i) (\<lambda>r t. kept env s0 t \<and>
     (case r of None \<Rightarrow> True | Some q \<Rightarrow> findPayout t (po_id q) = Some q \<and> isOpen q \<and> po_id q = i)) (\<lambda>_. kept env s0) s"
proof -
  have "kept env s0 (s\<lparr>dbPayouts := saveRow po_id (stampPayout env' s (p\<lparr>po_status := PS_PROCESSING\<rparr>)) (dbPayouts s)\<rparr>)"
    if p: "findPayout s i = Some p" "po_status p = PS_PENDING" for p
    using findPayout_id [OF p(1)] p assms
    by (intro kept_update [where q = p]) (auto simp: sameMoney_def priorOf_def isOpen_def PENDING_STATUSES_def)
  then show ?thesis using assms findPayout_id
    by (auto simp: claimOrphanPayoutForSubmission_def wp isOpen_def PENDING_STATUSES_def split: option.split)
qed

lemma apply_wp:
  "wp (applyOmiseTransfer env om p recipientId net) (\<lambda>(q, thrown) t. sameMoney p q \<and>
     t = s\<lparr>dbEffects := dbEffects s @ [OmiseTransferSent recipientId (js_round (net * 100))]\<rparr>) E s"
  by (simp add: applyOmiseTransfer_def createTransfer_def wp Let_def sameMoney_def priorOf_def split: sum.split)

lemma stamp_effects [simp]: "stampPayout env (s\<lparr>dbEffects := x\<rparr>) p = stampPayout env s p"
  by (simp add: stampPayout_def)

lemma priorOf_stamp [simp]: "priorOf (stampPayout env s p) = priorOf p"
  by (simp add: priorOf_def)

lemma kept_save:
  assumes "kept env s0 t" and "findPayout t (po_id c) = Some c" and "isOpen c" and "sameMoney c p"
  shows "kept env s0 (t\<lparr>dbPayouts := saveRow po_id (stampPayout env' t p) (dbPayouts t)\<rparr>)"
  using kept_update [OF assms(1), of "stampPayout env' t p" c] assms(2,3,4) by (simp add: sameMoney_def)

lemma wp_preserves: "preserves I m \<Longrightarrow> I s \<Longrightarrow> wp m (\<lambda>_. I) (\<lambda>_. I) s"
  by (simp add: preserves_wp)

text \<open>The transfer of a payout that is stored as it is, before and after the save.\<close>

lemma apply_kept:
  assumes "kept env s0 t" and "findPayout t (po_id c) = Some c" and "isOpen c"
  shows "wp (applyOmiseTransfer env' om c r net) (\<lambda>(p, _) u. kept env s0 u \<and>
     kept env s0 (u\<lparr>dbPayouts := saveRow po_id (stampPayout env' u p) (dbPayouts u)\<rparr>)) (\<lambda>_. kept env s0) t"
  by (rule wp_conseq [OF apply_wp]) (use assms kept_save [OF assms] in auto)

lemma submit_kept:
  assumes "kept env s0 s"
  shows "wp (submitPayoutToOmise env' om payout) (\<lambda>_. kept env s0) (\<lambda>_. kept env s0) s"
proof -
  let ?K = "\<lambda>_. kept env s0"
  have last: "wp (seqM (applyOmiseTransfer env' om c r net) (\<lambda>(p, thrown). case thrown of
        Some e \<Rightarrow> seqM (savePayout env' p) (\<lambda>_. raiseM e) | None \<Rightarrow> savePayout env' p)) ?K ?K t"
    if "kept env s0 t" "findPayout t (po_id c) = Some c" "isOpen c" for c r net t
    unfolding wp_seq by (rule wp_conseq [OF apply_kept [OF that]]) (auto simp: wp split: option.split)
  have claim: "wp (claimOrphanPayoutForSubmission env' (po_id payout)) (\<lambda>c. wp (case c of
        None \<Rightarrow> readM (\<lambda>s. case findPayout s (po_id payout) of None \<Rightarrow> Inl (NotFound ''PAYOUT_NOT_FOUND'') | Some latest \<Rightarrow> Inr latest)
      | Some claimed \<Rightarrow> seqM (applyOmiseTransfer env' om claimed r (po_netAmount claimed)) (\<lambda>(p, thrown). case thrown of
          Some e \<Rightarrow> seqM (savePayout env' p) (\<lambda>_. raiseM e) | None \<Rightarrow> savePayout env' p)) ?K ?K) ?K t"
    if "kept env s0 t" for t r
    by (rule wp_conseq [OF claim_kept [OF that]]) (auto simp: wp_readM intro: last split: option.splits)
  have refresh: "wp (refreshStoreRecipientStatus env' om st) ?K ?K s" for st by (rule wp_preserves [OF preserves_refresh assms])
  show ?thesis
    unfolding submitPayoutToOmise_def wp_seq [of "requireStore x" for x] requireStore_wp wp_seq [of "refreshStoreRecipientStatus e o' x" for e o' x]
    by (auto simp: assms wp_seq wp_failIf wp_lift split: option.split sum.split intro!: wp_conseq [OF refresh] intro: claim)
qed

lemma commit_kept:
  assumes "kept env s0 s"
  shows "wp (commitPayout env config storeId rail methods amount processedBy remark)
    (\<lambda>p t. kept env s0 t \<and> findPayout t (po_id p) = Some p \<and> isOpen p) (\<lambda>_. kept env s0) s"
proof (rule wp_conseq [OF commitPayout_wp])
  show "kept env s0 t \<and> findPayout t (po_id p) = Some p \<and> isOpen p"
    if "opensPayout env config storeId rail methods amount processedBy remark s p t" for p t
    using opensPayout_keeps [OF that] assms by (auto simp: kept_def intro: advances_trans)
qed (use assms in auto)

lemma open_kept:
  assumes "kept env s0 s"
  shows "wp (openOmisePayout env config om storeId amount processedBy remark)
    (\<lambda>(_, p) t. kept env s0 t \<and> findPayout t (po_id p) = Some p \<and> isOpen p) (\<lambda>_. kept env s0) s"
proof -
  have refresh: "wp (refreshStoreRecipientStatus env om st) (\<lambda>_. kept env s0) (\<lambda>_. kept env s0) s" for st
    by (rule wp_preserves [OF preserves_refresh assms])
  show ?thesis
    unfolding openOmisePayout_def wp_seq requireStore_wp
    by (auto simp: assms wp_lift wp_ret split: option.split sum.split intro!: wp_conseq [OF refresh] wp_conseq [OF commit_kept])
qed

lemma transfer_kept:
  assumes "kept env s0 s" and "findPayout s (po_id p) = Some p" and "isOpen p"
  shows "wp (transferOmisePayout env' om store p) (\<lambda>_. kept env s0) (\<lambda>_. kept env s0) s"
proof -
  have "wp (applyOmiseTransfer env' om p r net) (\<lambda>x. wp (case x of (q, thrown) \<Rightarrow> case thrown of Some e \<Rightarrow> raiseM e | None \<Rightarrow> savePayout env' q)
      (\<lambda>_. kept env s0) (\<lambda>_. kept env s0)) (\<lambda>_. kept env s0) s" for r net
    by (rule wp_conseq [OF apply_kept [OF assms]]) (auto simp: wp split: option.split)
  then show ?thesis using kept_save [OF assms, of p env'] assms(1) by (simp add: transferOmisePayout_def wp)
qed

lemma create_kept:
  "kept env s0 s \<Longrightarrow> wp (createOmisePayout env config om storeId amount processedBy remark) (\<lambda>_. kept env s0) (\<lambda>_. kept env s0) s"
  unfolding createOmisePayout_def wp_seq
  by (rule wp_conseq [OF open_kept]) (auto intro: transfer_kept)

lemma payout_requests_kept:
  assumes "kept env s0 s"
  shows "wp (requestPayout env config om storeId processedBy) (\<lambda>_. kept env s0) (\<lambda>_. kept env s0) s"
    and "wp (triggerPayout env config om storeId options) (\<lambda>_. kept env s0) (\<lambda>_. kept env s0) s"
    and "wp (requestManualPayout env config storeId processedBy) (\<lambda>_. kept env s0) (\<lambda>_. kept env s0) s"
  unfolding requestPayout_def triggerPayout_def requestManualPayout_def
  by (auto simp: assms wp Let_def split: option.split sum.split intro: submit_kept create_kept intro!: wp_conseq [OF commit_kept])

lemma kept_save_row:
  assumes "kept env s0 s" and "findPayout s i = Some q" and "isOpen q" and "sameMoney q p"
  shows "kept env s0 (s\<lparr>dbPayouts := saveRow po_id (stampPayout env' s p) (dbPayouts s)\<rparr>)"
  using kept_save [OF assms(1) _ assms(3,4)] assms(2) findPayout_id [OF assms(2)] by simp

lemma close_kept:
  assumes "kept env s0 s" and "\<And>p. sameMoney p (f p)"
  shows "wp (closeManualPayout env' storeId payoutId f) (\<lambda>_. kept env s0) (\<lambda>_. kept env s0) s"
  unfolding closeManualPayout_def lockStoreRowForPayout_def
  using kept_save_row [OF assms(1) _ _ assms(2), where env' = env'] assms(1)
  by (auto simp: wp isOpen_def PENDING_STATUSES_def split: option.split sum.split)

lemma manual_closed_kept:
  assumes "kept env s0 s"
  shows "wp (settleManualPayout env' storeId options) (\<lambda>_. kept env s0) (\<lambda>_. kept env s0) s"
    and "wp (rejectManualPayout env' storeId options) (\<lambda>_. kept env s0) (\<lambda>_. kept env s0) s"
  unfolding settleManualPayout_def rejectManualPayout_def
  by (rule close_kept [OF assms], simp add: sameMoney_def priorOf_def settleRow_def rejectRow_def)+

lemma transferOutcome_money: "transferOutcome env event tr p = Some q \<Longrightarrow> sameMoney p q"
  by (auto simp: transferOutcome_def Let_def sameMoney_def priorOf_def split: if_splits)

lemma found_payout:
  assumes "payInv env s" and "List.find P (dbPayouts s) = Some p"
  shows "findPayout s (po_id p) = Some p"
  using assms find_Some_in [OF assms(2)] byKey_in [of po_id "dbPayouts s" p] by (simp add: payInv_def findPayout_def)

lemma webhook_kept:
  assumes "kept env s0 s"
  shows "wp (handleOmiseTransferWebhook env' om event) (\<lambda>_. kept env s0) (\<lambda>_. kept env s0) s"
proof -
  have "kept env s0 (s\<lparr>dbPayouts := saveRow po_id (stampPayout env' s q) (dbPayouts s)\<rparr>)"
    if "List.find (\<lambda>p. po_transferReference p = te_id event) (dbPayouts s) = Some p" "po_status p \<notin> {PS_COMPLETED, PS_FAILED}"
      "transferOutcome env' event tr p = Some q" for p q tr
  proof (rule kept_save_row [OF assms])
    show "findPayout s (po_id p) = Some p" using found_payout [OF _ that(1), of env] assms by (simp add: kept_def)
    show "isOpen p" using that(2) by (cases "po_status p") (auto simp: isOpen_def PENDING_STATUSES_def)
    show "sameMoney p q" by (rule transferOutcome_money [OF that(3)])
  qed
  then show ?thesis using assms
    by (auto simp: handleOmiseTransferWebhook_def wp split: option.split sum.split)
qed

lemma scheduled_kept:
  assumes "kept env s0 s"
  shows "wp (runScheduledPayouts zone env config om) (\<lambda>_. kept env s0) (\<lambda>_. kept env s0) s"
proof -
  have "wp (scheduledPayout env config om store) (\<lambda>_. kept env s0) (\<lambda>_. kept env s0) t" if "kept env s0 t" for store t
    using that wp_conseq [OF create_kept [OF that]]
    by (auto simp: scheduledPayout_def createManualPayout_def wp_seq wp_readM wp_ret wp_if split: sum.split)
  note one = this
  have "wp (catchM (scheduledPayout env config om store) (\<lambda>_. retM ())) (\<lambda>_. kept env s0) (\<lambda>_. kept env s0) t" if "kept env s0 t" for store t
    unfolding wp_catch by (rule wp_conseq [OF one [OF that]]) (simp_all add: wp_ret)
  then show ?thesis using assms
    unfolding runScheduledPayouts_def wp_seq wp_get by (intro wp_forM) (auto simp: wp)
qed

section \<open>Everything that happens to payouts\<close>

text \<open>
  A step is any operation, successful or not. The ids of a run come from one generator; the clock, the
  configuration and the answers of the gateway may change from step to step.
\<close>

inductive payout_step :: "(nat \<Rightarrow> string) \<Rightarrow> db \<Rightarrow> db \<Rightarrow> bool" for uuid where
  request: "envUuid env = uuid \<Longrightarrow> payout_step uuid s (snd (requestPayout env config om storeId processedBy s))"
| trigger: "envUuid env = uuid \<Longrightarrow> payout_step uuid s (snd (triggerPayout env config om storeId options s))"
| manual: "envUuid env = uuid \<Longrightarrow> payout_step uuid s (snd (requestManualPayout env config storeId processedBy s))"
| settle: "payout_step uuid s (snd (settleManualPayout env storeId choice s))"
| reject: "payout_step uuid s (snd (rejectManualPayout env storeId choice s))"
| webhook: "payout_step uuid s (snd (handleOmiseTransferWebhook env om event s))"
| scheduled: "envUuid env = uuid \<Longrightarrow> payout_step uuid s (snd (runScheduledPayouts zone env config om s))"

lemma payInv_uuid: "envUuid env = envUuid env' \<Longrightarrow> payInv env s = payInv env' s"
  by (simp add: payInv_def)

lemma payout_step_kept:
  assumes "payout_step (envUuid env0) s t" and "kept env0 s0 s"
  shows "kept env0 s0 t"
proof -
  have k: "kept env s0 s" if "envUuid env = envUuid env0" for env using payInv_uuid [OF that] assms(2) by (simp add: kept_def)
  have orig: "kept env s0 u \<Longrightarrow> kept env0 s0 u" if "envUuid env = envUuid env0" for env u using payInv_uuid [OF that] by (simp add: kept_def)
  from assms(1) show ?thesis
    by cases (auto intro: orig wp_invariant payout_requests_kept [OF k] scheduled_kept [OF k] manual_closed_kept [OF assms(2)] webhook_kept [OF assms(2)])
qed

end
