(* ===== verification/Payout_Proofs.thy ===== *)
theory Payout_Proofs
  imports Payouts Fulfillment Cart_Service
begin

text \<open>
  What a payout pays and what is left: the amount, the balance after it, a rejected request, and two
  requests at the same time. The unpaid buckets are computed from the lines of the orders and the
  payouts of the rail, so the lemmas relate the reads before and after the insert of one row.
\<close>

section \<open>Reads before and after the insert\<close>

text \<open>The tables the eligibility queries read.\<close>

definition sameOrders :: "db \<Rightarrow> db \<Rightarrow> bool" where
  "sameOrders s t \<longleftrightarrow> dbOrders t = dbOrders s \<and> dbItems t = dbItems s \<and> dbShippings t = dbShippings s \<and>
     dbPromotions t = dbPromotions s \<and> dbPromotionUsages t = dbPromotionUsages s"

lemma sameOrders_reads:
  assumes "sameOrders s t"
  shows "calculateEligibleProductBuckets storeId methods goLive t = calculateEligibleProductBuckets storeId methods goLive s"
    and "listEligibleOrderSlices storeId methods t = listEligibleOrderSlices storeId methods s"
proof -
  have e: "eligibleItems storeId methods t = eligibleItems storeId methods s"
    "storePromotionDiscounts storeId methods t = storePromotionDiscounts storeId methods s"
    using assms by (simp_all add: sameOrders_def eligibleItems_def storePromotionDiscounts_def findOrder_def)
  show "calculateEligibleProductBuckets storeId methods goLive t = calculateEligibleProductBuckets storeId methods goLive s"
    by (simp add: calculateEligibleProductBuckets_def calculateItemSubtotal_def calculateStorePromotionDiscounts_def
        sumEligibleItemSubtotal_def sumStorePromotionDiscounts_def e split: option.split)
  have "dbOrders t = dbOrders s" "dbShippings t = dbShippings s" using assms by (simp_all add: sameOrders_def)
  then show "listEligibleOrderSlices storeId methods t = listEligibleOrderSlices storeId methods s"
    by (simp add: listEligibleOrderSlices_def sliceShipping_def sliceProduct_def e)
qed

definition priorsOk :: "string \<Rightarrow> settlement_rail \<Rightarrow> db \<Rightarrow> bool" where
  "priorsOk storeId rail s \<longleftrightarrow> (\<forall>p \<in> set (railPayouts storeId rail PAID_OUT_STATUSES s). validPrior (priorOf p))"

definition paidProduct :: "string \<Rightarrow> settlement_rail \<Rightarrow> db \<Rightarrow> int" where
  "paidProduct storeId rail s = (\<Sum>p\<leftarrow>railPayouts storeId rail PAID_OUT_STATUSES s. productTake (priorOf p))"

definition eligibleSatang :: "payout_config \<Rightarrow> string \<Rightarrow> payment_method list \<Rightarrow> db \<Rightarrow> int" where
  "eligibleSatang config storeId methods s =
     (case calculateEligibleProductBuckets storeId methods (pc_goLiveAt config) s of (pre, post) \<Rightarrow> toSatang pre + toSatang post)"

lemma sum_list_sort_key: "(\<Sum>x\<leftarrow>sort_key k xs. f x) = (\<Sum>x\<leftarrow>xs. f x :: int)"
  by (metis mset_map mset_sort sum_mset_sum_list)

lemma eligible_nonneg:
  "case calculateEligibleProductBuckets storeId methods goLive s of (pre, post) \<Rightarrow> 0 \<le> pre \<and> 0 \<le> post"
  by (simp add: calculateEligibleProductBuckets_def split: option.split)

lemma shipUncovered_nonneg:
  "(\<And>p sh. (p, sh) \<in> set os \<Longrightarrow> 0 \<le> toSatang sh) \<Longrightarrow> 0 \<le> ship \<Longrightarrow> 0 \<le> shipUncovered os cover ship"
proof (induction os cover ship rule: shipUncovered.induct)
  case (2 product shipping orders cover ship)
  have "0 \<le> toSatang shipping" using 2(3) [of product shipping] by simp
  then show ?case using 2 by auto
qed simp

lemma shipUncovered_covered:
  "(\<And>p sh. (p, sh) \<in> set os \<Longrightarrow> 0 \<le> toSatang p) \<Longrightarrow> (\<Sum>(p, _)\<leftarrow>os. toSatang p) \<le> cover \<Longrightarrow> shipUncovered os cover ship = ship"
proof (induction os cover ship rule: shipUncovered.induct)
  case (2 product shipping orders cover ship)
  have "0 \<le> (\<Sum>(p, _)\<leftarrow>orders. toSatang p)" using 2(3) by (intro sum_list_nonneg) auto
  then have "toSatang product \<le> cover" using 2(4) by simp
  then show ?case using 2 by auto
qed simp

lemma slices_shipping_nonneg: "(p, sh) \<in> set (listEligibleOrderSlices storeId methods s) \<Longrightarrow> 0 \<le> toSatang sh"
  by (auto simp: listEligibleOrderSlices_def sliceShipping_def Let_def intro!: toSatang_nonneg)

text \<open>The unpaid buckets: valid, and their product is what the prior payouts have left.\<close>

lemma unpaidBuckets_props:
  fixes config methods
  assumes "priorsOk storeId rail s"
  defines "u \<equiv> unpaidBuckets config storeId rail methods s"
  shows "validBuckets u"
    and "toSatang (ub_pre u) + toSatang (ub_post u) = max 0 (eligibleSatang config storeId methods s - paidProduct storeId rail s)"
proof -
  obtain pre post where pp: "calculateEligibleProductBuckets storeId methods (pc_goLiveAt config) s = (pre, post)" by force
  then have nn: "0 \<le> toSatang pre" "0 \<le> toSatang post" using eligible_nonneg [of storeId methods "pc_goLiveAt config" s] by auto
  obtain a b c where abc: "fold consumeOne (loadPriorPayoutsForConsume storeId rail s) (toSatang pre, toSatang post, 0) = (a, b, c)"
    by (metis prod_cases3)
  have ok: "\<forall>p \<in> set (loadPriorPayoutsForConsume storeId rail s). validPrior p"
    using assms(1) by (simp add: loadPriorPayoutsForConsume_def priorsOk_def)
  have total: "sum_list (map productTake (loadPriorPayoutsForConsume storeId rail s)) = paidProduct storeId rail s"
    by (simp add: loadPriorPayoutsForConsume_def paidProduct_def comp_def sum_list_sort_key)
  note c = consume_fold [OF nn order_refl ok abc, unfolded total]
  have u: "ub_pre u = fromSatang a" "ub_post u = fromSatang b"
    "ub_ship u = unpaidShippingForRemainingProduct (listEligibleOrderSlices storeId methods s) (fromSatang a + fromSatang b)"
    by (simp_all add: u_def unpaidBuckets_def pp consumePriorPayouts_def abc)
  have "0 \<le> ub_ship u" unfolding u(3) unpaidShippingForRemainingProduct_def Let_def fromSatang_nonneg
    by (rule shipUncovered_nonneg) (auto dest: slices_shipping_nonneg)
  then show "validBuckets u" using c by (simp add: validBuckets_def u)
  show "toSatang (ub_pre u) + toSatang (ub_post u) = max 0 (eligibleSatang config storeId methods s - paidProduct storeId rail s)"
    using c by (simp add: u eligibleSatang_def pp)
qed

lemma unpaid_read:
  "computeUnpaidBreakdown config storeId rail methods s = Inr ud \<Longrightarrow> \<exists>store. liveStore s storeId = Some store \<and>
     ud_unpaid ud = unpaidBuckets config storeId rail methods s \<and>
     ud_breakdown ud = finalizeBreakdown (unpaidBuckets config storeId rail methods s) (storeRate config store)"
  by (auto simp: computeUnpaidBreakdown_def Let_def split: option.splits prod.splits)

text \<open>Nothing is due once the product of the prior payouts reaches the eligible product.\<close>

lemma exhausted:
  assumes "priorsOk storeId rail s" and "eligibleSatang config storeId methods s \<le> paidProduct storeId rail s"
    and "\<And>p sh. (p, sh) \<in> set (listEligibleOrderSlices storeId methods s) \<Longrightarrow> 0 \<le> toSatang p"
  shows "bd_net (finalizeBreakdown (unpaidBuckets config storeId rail methods s) rate) = 0"
proof -
  let ?u = "unpaidBuckets config storeId rail methods s"
  have "validBuckets ?u" "toSatang (ub_pre ?u) + toSatang (ub_post ?u) = 0"
    using unpaidBuckets_props [OF assms(1), of config methods] assms(2) by simp_all
  then have z: "toSatang (ub_pre ?u) = 0" "toSatang (ub_post ?u) = 0" using validBuckets_satang [of ?u] by linarith+
  obtain pre post where pp: "calculateEligibleProductBuckets storeId methods (pc_goLiveAt config) s = (pre, post)" by force
  define v where "v = consumePriorPayouts pre post 0 (loadPriorPayoutsForConsume storeId rail s)"
  have u: "?u = v\<lparr>ub_ship := unpaidShippingForRemainingProduct (listEligibleOrderSlices storeId methods s) (ub_pre v + ub_post v)\<rparr>"
    by (simp add: unpaidBuckets_def pp v_def Let_def)
  obtain a b c where "v = \<lparr>ub_pre = fromSatang a, ub_post = fromSatang b, ub_ship = fromSatang c\<rparr>"
    unfolding v_def consumePriorPayouts_def by (metis (no_types, lifting) prod_cases3 case_prod_conv)
  then have "ub_pre v = 0" "ub_post v = 0" using z unfolding u by auto
  then have "ub_ship ?u = 0"
    using shipUncovered_covered [of "listEligibleOrderSlices storeId methods s"
        "max 0 (\<Sum>(p, _)\<leftarrow>listEligibleOrderSlices storeId methods s. toSatang p)" 0, OF assms(3)]
    by (simp add: u unpaidShippingForRemainingProduct_def Let_def)
  with z show ?thesis by (simp add: finalizeBreakdown_def Let_def commissionSatang_def)
qed

lemma opens_reads:
  assumes "opensPayout env config storeId rail methods amount processedBy remark s p t" and "payInv env s"
  shows "sameOrders s t" and "liveStore t = liveStore s" and "dbPayouts t = dbPayouts s @ [p]"
    and "PS_PENDING \<in> set statuses \<Longrightarrow> railPayouts storeId rail statuses t = railPayouts storeId rail statuses s @ [p]"
    and "po_id p = envUuid env (idCount s)" "po_storeId p = storeId" "po_settlementRail p = rail" "po_status p = PS_PENDING"
      "po_transferReference p = None" "po_failureReason p = None" "dbEffects t = dbEffects s"
proof -
  obtain ud where t: "t = s\<lparr>idCount := Suc (idCount s), dbPayouts := saveRow po_id p (dbPayouts s)\<rparr>"
    and p: "p = payoutOf env storeId rail ud amount processedBy remark s" using assms(1) by (auto simp: opensPayout_def)
  show pp: "po_id p = envUuid env (idCount s)" "po_storeId p = storeId" "po_settlementRail p = rail" "po_status p = PS_PENDING"
    "po_transferReference p = None" "po_failureReason p = None"
    by (simp_all add: p payoutOf_def newPayoutRow_def)
  show "sameOrders s t" "liveStore t = liveStore s" "dbEffects t = dbEffects s" by (simp_all add: t sameOrders_def liveStore_def fun_eq_iff)
  have "po_id p \<notin> po_id ` set (dbPayouts s)" using assms(2) pp(1) by (simp add: payInv_def)
  then show row: "dbPayouts t = dbPayouts s @ [p]" by (simp add: t saveRow_map_other)
  show "railPayouts storeId rail statuses t = railPayouts storeId rail statuses s @ [p]" if "PS_PENDING \<in> set statuses"
    using that pp by (simp add: railPayouts_def row)
qed

text \<open>The takes of a payout: what it removes from the product and how that relates to the amount.\<close>

lemma opens_takes:
  assumes "opensPayout env config storeId rail methods amount processedBy remark s p t" and "payInv env s"
    and "priorsOk storeId rail s" and "liveStore s storeId = Some store" and "0 \<le> storeRate config store \<and> storeRate config store \<le> 100"
  defines "u \<equiv> unpaidBuckets config storeId rail methods s" and "rate \<equiv> storeRate config store"
  defines "a \<equiv> nullish amount (bd_net (finalizeBreakdown u rate))"
  shows "0 < a" "a \<le> bd_net (finalizeBreakdown u rate)" "validBuckets u"
    and "priorOf p = snapshotOf (consumeToAmount u a rate)" and "po_netAmount p = fromSatang (toSatang a)" "po_amount p = po_netAmount p"
    and "productTake (priorOf p) = takePreOf u a + takePostOf u a rate" "shipTake (priorOf p) = takeShipOf u a rate"
    and "priorsOk storeId rail t" "paidProduct storeId rail t = paidProduct storeId rail s + takePreOf u a + takePostOf u a rate"
proof -
  obtain ud where ud: "computeUnpaidBreakdown config storeId rail methods s = Inr ud" "0 < nullish amount (bd_net (ud_breakdown ud))"
    "nullish amount (bd_net (ud_breakdown ud)) \<le> bd_net (ud_breakdown ud)" "p = payoutOf env storeId rail ud amount processedBy remark s"
    using assms(1) by (auto simp: opensPayout_def)
  have eqs: "ud_unpaid ud = u" "ud_breakdown ud = finalizeBreakdown u rate" using unpaid_read [OF ud(1)] assms(4) by (auto simp: u_def rate_def)
  have rate: "bd_commissionRate (finalizeBreakdown u rate) = rate" by (simp add: finalizeBreakdown_def Let_def)
  show pos: "0 < a" and le: "a \<le> bd_net (finalizeBreakdown u rate)" using ud(2,3) by (simp_all add: a_def eqs)
  show valid: "validBuckets u" unfolding u_def by (rule unpaidBuckets_props(1) [OF assms(3)])
  have p: "p = newPayoutRow env (envUuid env (idCount s)) storeId rail (consumeToAmount u a rate) processedBy remark"
    using ud(4) by (simp add: payoutOf_def eqs rate a_def)
  show prior: "priorOf p = snapshotOf (consumeToAmount u a rate)" by (simp add: p)
  have r: "0 \<le> rate \<and> rate \<le> 100" using assms(5) by (simp add: rate_def)
  have a0: "0 \<le> a" using pos by simp
  note takes = consumeToAmount_takes [OF r valid a0] and net = takes_net [OF r valid a0] and b = takes_bounds [OF r valid a0]
  have "toSatang a \<le> toSatang (bd_net (finalizeBreakdown u rate))" by (rule toSatang_mono [OF le])
  then show "po_netAmount p = fromSatang (toSatang a)" using net by (simp add: p takes)
  show "po_amount p = po_netAmount p" by (simp add: p)
  show product: "productTake (priorOf p) = takePreOf u a + takePostOf u a rate"
    and ship: "shipTake (priorOf p) = takeShipOf u a rate"
    by (simp_all add: prior productTake_def shipTake_def snapshotOf_def hasSnapshot_def takes)
  note reads = opens_reads [OF assms(1,2)]
  have paid: "railPayouts storeId rail PAID_OUT_STATUSES t = railPayouts storeId rail PAID_OUT_STATUSES s @ [p]"
    by (rule reads(4)) (simp add: PAID_OUT_STATUSES_def)
  show "priorsOk storeId rail t" using assms(3) b by (auto simp: priorsOk_def paid validPrior_def product ship)
  show "paidProduct storeId rail t = paidProduct storeId rail s + takePreOf u a + takePostOf u a rate"
    by (simp add: paidProduct_def paid product)
qed

definition linesPriced :: "db \<Rightarrow> bool" where
  "linesPriced s \<longleftrightarrow> (\<forall>i \<in> set (dbItems s). 0 \<le> oi_subtotal i)"

lemma slices_product_nonneg:
  assumes "linesPriced s" and "(p, sh) \<in> set (listEligibleOrderSlices storeId methods s)"
  shows "0 \<le> toSatang p"
proof -
  have "i \<in> set (dbItems s)" if "(i, ord) \<in> set (eligibleItems storeId methods s)" for i ord
    using that by (auto simp: eligibleItems_def List.map_filter_def split: option.splits if_splits)
  then have "0 \<le> sliceProduct storeId methods s ord" for ord
    using assms(1) unfolding sliceProduct_def by (intro sum_list_nonneg) (auto simp: linesPriced_def)
  then show ?thesis using assms(2) by (auto simp: listEligibleOrderSlices_def)
qed

text \<open>A payout leaves nothing due once its amount covers the unpaid product and its commission.\<close>

definition productNet :: "unpaid_buckets \<Rightarrow> int \<Rightarrow> int" where
  "productNet u rate = toSatang (ub_pre u) + toSatang (ub_post u) - commissionSatang (toSatang (ub_post u)) rate"

lemma opens_exhausts:
  assumes op: "opensPayout env config storeId rail methods amount processedBy remark s p t" and inv: "payInv env s"
    and ok: "priorsOk storeId rail s" and st: "liveStore s storeId = Some store" and r: "0 \<le> storeRate config store \<and> storeRate config store \<le> 100"
    and lines: "linesPriced s"
  defines "u \<equiv> unpaidBuckets config storeId rail methods s" and "rate \<equiv> storeRate config store"
  defines "a \<equiv> nullish amount (bd_net (finalizeBreakdown u rate))"
  assumes big: "productNet u rate \<le> toSatang a"
  shows "bd_net (finalizeBreakdown (unpaidBuckets config storeId rail methods t) rate) = 0"
proof -
  note takes = opens_takes [OF op inv ok st r, folded u_def rate_def, folded a_def] and reads = opens_reads [OF op inv]
  have nn: "0 \<le> toSatang (ub_pre u)" "0 \<le> toSatang (ub_post u)" using validBuckets_satang [OF takes(3)] by simp_all
  have "0 \<le> toSatang (ub_post u) - commissionSatang (toSatang (ub_post u)) rate"
    using satang.comm_bounds [OF r [folded rate_def] nn(2)] by simp
  then have "takePreOf u a + takePostOf u a rate = toSatang (ub_pre u) + toSatang (ub_post u)"
    using big by (auto simp: takePreOf_def takePostOf_def Let_def productNet_def)
  moreover have "toSatang (ub_pre u) + toSatang (ub_post u) = max 0 (eligibleSatang config storeId methods s - paidProduct storeId rail s)"
    unfolding u_def by (rule unpaidBuckets_props(2) [OF ok])
  ultimately have "eligibleSatang config storeId methods s \<le> paidProduct storeId rail t" using takes(10) by linarith
  moreover have "eligibleSatang config storeId methods t = eligibleSatang config storeId methods s"
    by (simp add: eligibleSatang_def sameOrders_reads [OF reads(1)])
  moreover have "0 \<le> toSatang q" if "(q, sh) \<in> set (listEligibleOrderSlices storeId methods t)" for q sh
    using that slices_product_nonneg [OF lines] by (simp add: sameOrders_reads [OF reads(1)])
  ultimately show ?thesis by (intro exhausted takes(9)) simp_all
qed

lemma rail_summary:
  assumes "liveStore s storeId = Some store"
  shows "\<exists>due. buildRailSummary config storeId rail methods s = Inr due \<and>
    rs_availableBalance due = max 0 (bd_net (finalizeBreakdown (unpaidBuckets config storeId rail methods s) (storeRate config store))) \<and>
    rs_pendingPayoutAmount due = calculatePendingPayoutAmount storeId rail s"
proof -
  obtain pre post where "calculateEligibleProductBuckets storeId methods (pc_goLiveAt config) s = (pre, post)" by force
  then show ?thesis using assms by (simp add: buildRailSummary_def computeUnpaidBreakdown_def Let_def)
qed

text \<open>What the summary shows before a payout is opened, and the amount of that payout.\<close>

lemma opens_due:
  assumes "opensPayout env config storeId rail methods amount processedBy remark s p t" and "payInv env s"
    and "priorsOk storeId rail s" and "liveStore s storeId = Some store" and "0 \<le> storeRate config store \<and> storeRate config store \<le> 100"
  shows "\<exists>due. buildRailSummary config storeId rail methods s = Inr due \<and>
    rs_availableBalance due = bd_net (finalizeBreakdown (unpaidBuckets config storeId rail methods s) (storeRate config store)) \<and>
    po_netAmount p = fromSatang (toSatang (nullish amount (rs_availableBalance due))) \<and>
    po_netAmount p \<le> rs_availableBalance due \<and> po_amount p = po_netAmount p \<and>
    fromSatang (toSatang (rs_availableBalance due)) = rs_availableBalance due"
proof -
  let ?net = "bd_net (finalizeBreakdown (unpaidBuckets config storeId rail methods s) (storeRate config store))" let ?a = "nullish amount ?net"
  note takes = opens_takes [OF assms]
  have net: "fromSatang (toSatang ?net) = ?net" by (simp add: finalizeBreakdown_def Let_def)
  obtain due where due: "buildRailSummary config storeId rail methods s = Inr due" "rs_availableBalance due = ?net"
    using rail_summary [OF assms(4), of config rail methods] takes(1,2) by auto
  have "fromSatang (toSatang ?a) \<le> fromSatang (toSatang ?net)" using toSatang_mono [OF takes(2)] by (simp only: fromSatang_le)
  then have "po_netAmount p \<le> ?net" unfolding takes(5) net .
  with due net takes(5,6) show ?thesis by auto
qed

lemma summary_cong:
  assumes "sameOrders s t" and "liveStore t = liveStore s" and "\<And>rail. railPayouts storeId rail PAID_OUT_STATUSES t = railPayouts storeId rail PAID_OUT_STATUSES s"
    and "\<And>rail. railPayouts storeId rail PENDING_STATUSES t = railPayouts storeId rail PENDING_STATUSES s"
    and "findOrphanPendingPayout storeId t = findOrphanPendingPayout storeId s"
  shows "getPayoutSummary config storeId t = getPayoutSummary config storeId s"
proof -
  have "unpaidBuckets config storeId rail methods t = unpaidBuckets config storeId rail methods s" for rail methods
    by (simp only: unpaidBuckets_def loadPriorPayoutsForConsume_def sameOrders_reads [OF assms(1)] assms(3))
  then have "computeUnpaidBreakdown config storeId rail methods t = computeUnpaidBreakdown config storeId rail methods s" for rail methods
    by (simp only: computeUnpaidBreakdown_def sameOrders_reads [OF assms(1)] assms(2))
  then have "buildRailSummary config storeId rail methods t = buildRailSummary config storeId rail methods s" for rail methods
    by (simp only: buildRailSummary_def calculateTotalPaidOut_def calculatePendingPayoutAmount_def assms(3,4,5))
  then show ?thesis by (simp add: getPayoutSummary_def assms(2))
qed

lemma summary_rails:
  assumes "liveStore s storeId = Some store"
  shows "\<exists>summary. getPayoutSummary config storeId s = Inr summary \<and>
     buildRailSummary config storeId RAIL_OMISE OMISE_PAYMENT_METHODS s = Inr (ps_omise summary) \<and>
     buildRailSummary config storeId RAIL_MANUAL MANUAL_PAYMENT_METHODS s = Inr (ps_manual summary) \<and>
     ps_minimumPayoutAmount summary = getMinimumPayoutAmount config \<and> ps_availableBalance summary = rs_availableBalance (ps_omise summary) \<and>
     ps_pendingPayoutAmount summary = rs_pendingPayoutAmount (ps_omise summary)"
  using rail_summary [OF assms, of config RAIL_OMISE OMISE_PAYMENT_METHODS] rail_summary [OF assms, of config RAIL_MANUAL MANUAL_PAYMENT_METHODS]
  by (auto simp: getPayoutSummary_def assms)

lemma manual_request:
  assumes "requestManualPayout env config storeId processedBy s = (Inr p, t)" and "liveStore s storeId = Some store"
  shows "\<exists>u. opensPayout env config storeId RAIL_MANUAL MANUAL_PAYMENT_METHODS None processedBy (Some ''Vendor requested manual payout'') s p u \<and>
    t = u\<lparr>dbEffects := dbEffects s @ [NotifyManualPayout (po_id p), DashboardPayout (po_id p)]\<rparr>"
proof -
  let ?n = "Some ''Vendor requested manual payout''"
  obtain u where u: "commitPayout env config storeId RAIL_MANUAL MANUAL_PAYMENT_METHODS None processedBy ?n s = (Inr p, u)"
    "t = u\<lparr>dbEffects := (dbEffects u @ [NotifyManualPayout (po_id p)]) @ [DashboardPayout (po_id p)]\<rparr>"
    using assms(1) by (auto simp: requestManualPayout_def seqM_Inr_iff requireStore_def Let_def failIf_def split: if_splits)
  have op: "opensPayout env config storeId RAIL_MANUAL MANUAL_PAYMENT_METHODS None processedBy ?n s p u" by (rule wp_Inr [OF commitPayout_wp u(1)])
  then have "dbEffects u = dbEffects s" by (auto simp: opensPayout_def)
  with op u(2) show ?thesis by auto
qed

section \<open>The Omise rail step by step\<close>

lemma wp_succeeds: "wp m Q (\<lambda>_ _. False) s \<Longrightarrow> \<exists>x t. m s = (Inr x, t) \<and> Q x t"
  by (cases "m s"; cases "fst (m s)") (auto simp: wp_def)

text \<open>A gateway that answers: the recipient is active and transfers are accepted.\<close>

definition gatewayUp :: "omise \<Rightarrow> bool" where
  "gatewayUp om \<longleftrightarrow> hasCredentials om \<and> (\<forall>n r. \<exists>rc. om_getRecipient om n r = Inr rc \<and> rc_verified rc \<and> rc_active rc) \<and>
     (\<forall>n r a. \<exists>tr. om_createTransfer om n r a = Inr tr)"

definition readyStore :: "store_row \<Rightarrow> bool" where
  "readyStore st \<longleftrightarrow> truthy (st_omiseRecipientId st) \<and> st_omiseRecipientStatus st = RS_ACTIVE"

definition sentTo :: "store_row \<Rightarrow> payout_row \<Rightarrow> effect" where
  "sentTo st p = OmiseTransferSent (nullish (st_omiseRecipientId st) []) (js_round (po_netAmount p * 100))"

lemma refresh_ready: "gatewayUp om \<Longrightarrow> readyStore st \<Longrightarrow> refreshStoreRecipientStatus env om st s = (Inr st, s)"
proof -
  assume up: "gatewayUp om" "readyStore st"
  obtain rc where "om_getRecipient om (length (dbEffects s)) (nullish (st_omiseRecipientId st) []) = Inr rc" "rc_verified rc" "rc_active rc"
    using up(1) unfolding gatewayUp_def by blast
  then show ?thesis using up by (simp add: refreshStoreRecipientStatus_def gatewayUp_def readyStore_def)
qed

lemma apply_up:
  assumes "gatewayUp om"
  shows "\<exists>q. applyOmiseTransfer env om p (nullish (st_omiseRecipientId st) []) (po_netAmount p) s =
     (Inr (q, None), s\<lparr>dbEffects := dbEffects s @ [sentTo st p]\<rparr>) \<and> sameMoney p q \<and> po_status q \<in> {PS_PROCESSING, PS_COMPLETED} \<and> po_id q = po_id p"
proof -
  obtain tr where "om_createTransfer om (length (dbEffects s)) (nullish (st_omiseRecipientId st) []) (js_round (po_netAmount p * 100)) = Inr tr"
    using assms unfolding gatewayUp_def by blast
  then show ?thesis by (auto simp: applyOmiseTransfer_def createTransfer_def Let_def sentTo_def sameMoney_def priorOf_def)
qed

text \<open>Submitting a stored orphan sends one transfer and moves it on.\<close>

lemma submit_up:
  assumes "gatewayUp om" and "liveStore s (po_storeId p) = Some st" and "readyStore st" and "findPayout s (po_id p) = Some p"
    and "po_status p = PS_PENDING" and "po_transferReference p = None"
  shows "\<exists>q t. submitPayoutToOmise env om p s = (Inr q, t) \<and> po_id q = po_id p \<and> sameMoney p q \<and> po_status q \<in> {PS_PROCESSING, PS_COMPLETED} \<and>
     dbEffects t = dbEffects s @ [sentTo st p] \<and> dbStores t = dbStores s \<and> findPayout t (po_id p) = Some q"
proof -
  let ?c = "stampPayout env s (p\<lparr>po_status := PS_PROCESSING\<rparr>)"
  let ?s1 = "s\<lparr>dbPayouts := saveRow po_id ?c (dbPayouts s)\<rparr>"
  have claim: "claimOrphanPayoutForSubmission env (po_id p) s = (Inr (Some ?c), ?s1)"
    using assms(4,5,6) by (simp add: claimOrphanPayoutForSubmission_def savePayout_def txnM_simps)
  have same: "sameMoney p ?c" by (simp add: sameMoney_def priorOf_def)
  obtain q where q: "applyOmiseTransfer env om ?c (nullish (st_omiseRecipientId st) []) (po_netAmount ?c) ?s1 =
      (Inr (q, None), ?s1\<lparr>dbEffects := dbEffects ?s1 @ [sentTo st ?c]\<rparr>)" "sameMoney ?c q" "po_status q \<in> {PS_PROCESSING, PS_COMPLETED}" "po_id q = po_id ?c"
    using apply_up [OF assms(1)] by blast
  have net: "po_netAmount ?c = po_netAmount p" by simp
  note q1 = q(1) [unfolded net]
  have ready: "assertRecipientReadyForTransfer st = Inr ()" "hasCredentials om"
    using assms(1,3) by (simp_all add: assertRecipientReadyForTransfer_def readyStore_def gatewayUp_def)
  let ?s2 = "?s1\<lparr>dbEffects := dbEffects ?s1 @ [sentTo st ?c]\<rparr>"
  have "submitPayoutToOmise env om p s = savePayout env q ?s2"
    unfolding submitPayoutToOmise_def
    by (simp add: requireStore_def assms(2) seqM_simps(2) [where m = "refreshStoreRecipientStatus env om st", OF refresh_ready [OF assms(1,3)]] ready
        seqM_simps(2) [where m = "claimOrphanPayoutForSubmission env (po_id p)", OF claim] seqM_simps(2) [where m = "applyOmiseTransfer env om ?c (nullish (st_omiseRecipientId st) []) (po_netAmount p)", OF q1])
  moreover have "sentTo st ?c = sentTo st p" by (simp add: sentTo_def)
  moreover have "sameMoney p q" using sameMoney_trans [OF same q(2)] .
  ultimately show ?thesis using q(3,4) by (auto simp: savePayout_def findPayout_def payout_repo.byId_save)
qed

text \<open>The two halves of \<open>createOmisePayout\<close>: the row it commits is the orphan of the store.\<close>

lemma open_commits:
  assumes "openOmisePayout env config om storeId amount processedBy remark s = (Inr (store, p), t)" and "payInv env s"
  shows "\<exists>s1 st. liveStore s storeId = Some st \<and> refreshStoreRecipientStatus env om st s = (Inr store, s1) \<and> dbPayouts s1 = dbPayouts s \<and>
    idCount s1 = idCount s \<and> opensPayout env config storeId RAIL_OMISE OMISE_PAYMENT_METHODS (Some amount) processedBy remark s1 p t"
proof -
  obtain st s1 where st: "liveStore s storeId = Some st" "refreshStoreRecipientStatus env om st s = (Inr store, s1)"
    "commitPayout env config storeId RAIL_OMISE OMISE_PAYMENT_METHODS (Some amount) processedBy remark s1 = (Inr p, t)"
    using assms(1) by (auto simp: openOmisePayout_def seqM_Inr_iff requireStore_def split: option.splits)
  have "wp (refreshStoreRecipientStatus env om st) (\<lambda>_ u. dbPayouts u = dbPayouts s \<and> idCount u = idCount s) (\<lambda>_ _. True) s"
    by (simp add: refreshStoreRecipientStatus_def wp Let_def split: sum.split)
  from wp_Inr [OF this st(2)] wp_Inr [OF commitPayout_wp st(3)] st show ?thesis by blast
qed

lemma payInv_rows: "dbPayouts t = dbPayouts s \<Longrightarrow> idCount t = idCount s \<Longrightarrow> payInv env s \<Longrightarrow> payInv env t"
  by (simp add: payInv_def oneOpen_def railPayouts_def)

lemma opens_orphan:
  assumes "opensPayout env config storeId RAIL_OMISE methods amount processedBy remark s p t" and "payInv env s"
  shows "findOrphanPendingPayout storeId t = Some p"
proof -
  note reads = opens_reads [OF assms]
  have "railPayouts storeId RAIL_OMISE PENDING_STATUSES s = []" using assms(1) by (auto simp: opensPayout_def)
  then have "filter (isOrphan storeId) (dbPayouts s) = []" by (auto simp: railPayouts_def PENDING_STATUSES_def filter_empty_conv isOrphan_def)
  then show ?thesis using reads by (simp add: findOrphanPendingPayout_def oldestPayout_def isOrphan_def)
qed

lemma open_errors:
  "wp (openOmisePayout env config om storeId amount processedBy remark) (\<lambda>_ _. True)
     (\<lambda>e u. dbPayouts u = dbPayouts s \<and> idCount u = idCount s \<and> e \<noteq> BadRequest ''OMISE_TRANSFER_FAILED'') s"
proof -
  let ?E = "\<lambda>e u. dbPayouts u = dbPayouts s \<and> idCount u = idCount s \<and> e \<noteq> BadRequest ''OMISE_TRANSFER_FAILED''"
  have commit: "wp (commitPayout env config storeId rail methods (Some amount) processedBy remark) (\<lambda>_ _. True) ?E u"
    if "dbPayouts u = dbPayouts s" "idCount u = idCount s" for u rail methods
    using that by (simp add: commitPayout_def lockStoreRowForPayout_def assertNoConcurrentPendingPayout_def insertSnapshotPayout_def wp Let_def
      computeUnpaidBreakdown_def assertCommissionFormula_def split: option.split sum.split prod.split)
      (simp add: wp_def savePayout_def)
  have refresh: "wp (refreshStoreRecipientStatus env om st) (\<lambda>_ u. dbPayouts u = dbPayouts s \<and> idCount u = idCount s) ?E s" for st
    by (simp add: refreshStoreRecipientStatus_def wp Let_def split: sum.split)
  have "wp (seqM (liftM (if hasCredentials om then assertRecipientReadyForTransfer st else Inr ())) (\<lambda>_.
      seqM (commitPayout env config storeId RAIL_OMISE OMISE_PAYMENT_METHODS (Some amount) processedBy remark) (\<lambda>payout. retM (st, payout))))
      (\<lambda>_ _. True) ?E u"
    if "dbPayouts u = dbPayouts s" "idCount u = idCount s" for u st
    using that wp_conseq [OF commit [OF that]]
    by (auto simp: wp_seq wp_lift wp_ret assertRecipientReadyForTransfer_def)
  then show ?thesis
    unfolding openOmisePayout_def wp_seq requireStore_wp
    by (auto split: option.split intro!: wp_conseq [OF refresh])
qed

lemma open_appends:
  assumes "openOmisePayout env config om storeId amount processedBy remark s = (Inr (store, p), t)" and "payInv env s"
  shows "dbPayouts t = dbPayouts s @ [p]" and "po_id p \<notin> po_id ` set (dbPayouts s)" and "payInv env t" and "findOrphanPendingPayout storeId t = Some p"
    and "po_status p = PS_PENDING" "po_transferReference p = None" "po_failureReason p = None" "po_storeId p = storeId" "findPayout t (po_id p) = Some p"
proof -
  obtain s1 where s1: "dbPayouts s1 = dbPayouts s" "idCount s1 = idCount s"
    "opensPayout env config storeId RAIL_OMISE OMISE_PAYMENT_METHODS (Some amount) processedBy remark s1 p t" using open_commits [OF assms] by auto
  have inv: "payInv env s1" by (rule payInv_rows [OF s1(1,2) assms(2)])
  note reads = opens_reads [OF s1(3) inv]
  show "dbPayouts t = dbPayouts s @ [p]" using reads(3) s1(1) by simp
  show "po_id p \<notin> po_id ` set (dbPayouts s)" using reads(5) assms(2) s1(2) by (simp add: payInv_def)
  show "payInv env t" "findPayout t (po_id p) = Some p" using opensPayout_keeps [OF s1(3) inv] by simp_all
  show "findOrphanPendingPayout storeId t = Some p" by (rule opens_orphan [OF s1(3) inv])
  show "po_status p = PS_PENDING" "po_transferReference p = None" "po_failureReason p = None" "po_storeId p = storeId" by (rule reads)+
qed

text \<open>Creating a payout leaves every payout that exists alone, whatever comes of it.\<close>

lemma create_untouched:
  assumes "payInv env s" and "findPayout s i = Some p"
  shows "wp (createOmisePayout env config om storeId amount processedBy remark)
    (\<lambda>_ t. payInv env t \<and> findPayout t i = Some p) (\<lambda>_ t. payInv env t \<and> findPayout t i = Some p) s"
  unfolding createOmisePayout_def wp_seq
proof (rule wpI)
  fix e t
  assume "openOmisePayout env config om storeId amount processedBy remark s = (Inl e, t)"
  from wp_Inl [OF open_errors this] show "payInv env t \<and> findPayout t i = Some p"
    using assms payInv_rows by (simp add: findPayout_def)
next
  fix x :: "store_row \<times> payout_row" and t
  obtain store q where x: "x = (store, q)" by (cases x)
  assume "openOmisePayout env config om storeId amount processedBy remark s = (Inr x, t)"
  note o = open_appends [OF this [unfolded x] assms(1)]
  have "p \<in> set (dbPayouts s)" using assms(2) payout_repo.byId_mem by (simp add: findPayout_def)
  then have "i \<in> po_id ` set (dbPayouts s)" using findPayout_id [OF assms(2)] by blast
  with o(2) have i: "i \<noteq> po_id q" by metis
  have "p \<in> set (dbPayouts t)" using \<open>p \<in> set (dbPayouts s)\<close> by (simp add: o(1))
  then have here: "findPayout t i = Some p"
    using byKey_in [of po_id "dbPayouts t" p] o(3) findPayout_id [OF assms(2)] by (simp add: findPayout_def payInv_def)
  have "isOpen q" using o(5) by (simp add: isOpen_def PENDING_STATUSES_def)
  from transfer_kept [OF kept_refl [OF o(3)] o(9) this] have inv: "wp (transferOmisePayout env om store q) (\<lambda>_. payInv env) (\<lambda>_. payInv env) t"
    by (rule wp_conseq) (auto simp: kept_def)
  have "wp (applyOmiseTransfer env om q r net) (\<lambda>y. wp (case y of (p, thrown) \<Rightarrow> case thrown of Some e \<Rightarrow> raiseM e | None \<Rightarrow> savePayout env p)
      (\<lambda>_ u. findPayout u i = Some p) (\<lambda>_ u. findPayout u i = Some p)) (\<lambda>_ u. findPayout u i = Some p) t" for r net
    by (rule wp_conseq [OF apply_wp]) (use i here in \<open>auto simp: wp sameMoney_def findPayout_def payout_repo.byId_save split: option.split\<close>)
  then have "wp (transferOmisePayout env om store q) (\<lambda>_ u. findPayout u i = Some p) (\<lambda>_ u. findPayout u i = Some p) t"
    using i here by (simp add: transferOmisePayout_def wp)
  with inv show "wp (case x of (store, payout) \<Rightarrow> transferOmisePayout env om store payout)
      (\<lambda>_ t. payInv env t \<and> findPayout t i = Some p) (\<lambda>_ t. payInv env t \<and> findPayout t i = Some p) t"
    unfolding x by (auto simp: wp_def split: prod.splits sum.splits)
qed

lemma formula_holds:
  assumes "validBuckets u" and "0 \<le> rate \<and> rate < 50" and "0 \<le> a"
  shows "assertCommissionFormula (consumeToAmount u a rate) u rate = Inr ()"
proof -
  have r: "0 \<le> rate \<and> rate \<le> 100" using assms(2) by simp
  note b = takes_bounds [OF r assms(1,3)]
  have "max 0 (takePreOf u a + takePostOf u a rate - toSatang (ub_pre u)) = takePostOf u a rate"
  proof (cases "takePreOf u a < toSatang (ub_pre u)")
    case True
    then show ?thesis using takePost_zero [OF assms(2,1,3) True] by simp
  next
    case False
    then show ?thesis using b(1,2) by simp
  qed
  then show ?thesis by (simp add: assertCommissionFormula_def consumeToAmount_takes [OF r assms(1,3)])
qed

section \<open>Sample states\<close>

definition sampleBank :: store_row where
  "sampleBank = (sampleStore ''s'' ST_APPROVED)\<lparr>st_commissionRate := Some 0, st_omiseRecipientId := Some ''rcpt'',
     st_omiseRecipientStatus := RS_ACTIVE\<rparr>"

definition sampleEarned :: "payment_method \<Rightarrow> db" where
  "sampleEarned m = empty_db\<lparr>dbOrders := [(sampleOrder ''o'' OS_DELIVERED)\<lparr>o_paymentMethod := m, o_total := 30\<rparr>],
     dbItems := [sampleItem ''i1'' 2], dbStores := [sampleBank],
     dbShippings := [\<lparr>ss_id = ''x'', ss_orderId = ''o'', ss_storeId = ''s'', ss_shippingOptionId = ''y'', ss_optionName = ''z'',
       ss_shippingFee = 10, ss_createdAt = 0\<rparr>]\<rparr>"

definition sampleConfig :: payout_config where
  "sampleConfig = \<lparr>pc_goLiveAt = None, pc_defaultRatePercent = None, pc_minPayoutAmount = Some 10\<rparr>"

definition sampleGateway :: omise where
  "sampleGateway = \<lparr>om_secretKey = ''key'',
     om_createTransfer = (\<lambda>_ _ a. Inr \<lparr>tr_id = ''trsf'', tr_amount = a, tr_currency = ''THB'', tr_sent = False, tr_paid = False, tr_failureCode = None, tr_failureMessage = None\<rparr>),
     om_getRecipient = (\<lambda>_ r. Inr \<lparr>rc_id = r, rc_verified = True, rc_active = True, rc_failureCode = None\<rparr>), om_getTransfer = (\<lambda>_ _. Inl ''none'')\<rparr>"

lemma sampleBank_simps [simp]:
  "st_id sampleBank = ''s''" "st_deletedAt sampleBank = None" "st_omiseRecipientId sampleBank = Some ''rcpt''"
  "st_omiseRecipientStatus sampleBank = RS_ACTIVE" "st_commissionRate sampleBank = Some 0"
  by (simp_all add: sampleBank_def sampleStore_def)

lemma sampleEarned_simps [simp]:
  "liveStore (sampleEarned m) ''s'' = Some sampleBank" "storeRate config sampleBank = 0"
  "dbPayouts (sampleEarned m) = []" "idCount (sampleEarned m) = 0" "dbEffects (sampleEarned m) = []" "linesPriced (sampleEarned m)"
  by (simp_all add: sampleEarned_def liveStore_def storeRate_def effectiveRate_def empty_db_def linesPriced_def sampleItem_def)

lemma sampleEarned_inv: "payInv sampleIds (sampleEarned m)" "priorsOk ''s'' rail (sampleEarned m)"
  by (auto simp: payInv_def uniqueKey_def oneOpen_def railPayouts_def priorsOk_def sampleIds_def inj_def dest: arg_cong [where f = length])

lemma sampleEarned_items:
  assumes "m \<in> set methods"
  shows "eligibleItems ''s'' methods (sampleEarned m) = [(sampleItem ''i1'' 2, (sampleOrder ''o'' OS_DELIVERED)\<lparr>o_paymentMethod := m, o_total := 30\<rparr>)]"
  using assms by (simp add: eligibleItems_def sampleEarned_def empty_db_def map_filter_simps findOrder_def sampleItem_def sampleOrder_def eligibleOrder_def)

lemma sampleEarned_unpaid:
  assumes "m \<in> set methods"
  shows "unpaidBuckets sampleConfig ''s'' rail methods (sampleEarned m) = \<lparr>ub_pre = 0, ub_post = 20, ub_ship = 10\<rparr>"
proof -
  have "storePromotionDiscounts ''s'' methods (sampleEarned m) = []" by (simp add: storePromotionDiscounts_def sampleEarned_def empty_db_def map_filter_simps)
  moreover have "railPayouts ''s'' rail st (sampleEarned m) = []" for st by (simp add: railPayouts_def)
  moreover have "listEligibleOrderSlices ''s'' methods (sampleEarned m) = [(20, 10)]"
    by (simp add: listEligibleOrderSlices_def sliceProduct_def sliceShipping_def sampleEarned_items [OF assms] Let_def)
      (simp add: sampleEarned_def empty_db_def sampleItem_def sampleOrder_def)
  ultimately show ?thesis
    by (simp add: unpaidBuckets_def calculateEligibleProductBuckets_def calculateItemSubtotal_def calculateStorePromotionDiscounts_def
        sampleEarned_items [OF assms] sampleConfig_def loadPriorPayoutsForConsume_def consumePriorPayouts_def
        unpaidShippingForRemainingProduct_def Let_def) (simp add: sampleItem_def fromSatang_def)
qed

lemma sampleEarned_breakdown:
  "finalizeBreakdown \<lparr>ub_pre = 0, ub_post = 20, ub_ship = 10\<rparr> 0 =
     \<lparr>bd_productSold = 20, bd_shippingFees = 10, bd_commissionAmount = 0, bd_commissionRate = 0, bd_net = 30\<rparr>"
  by (simp add: finalizeBreakdown_def Let_def commissionSatang_def) (simp add: fromSatang_def)

lemma sampleEarned_due:
  assumes "m \<in> set methods"
  shows "\<exists>l. computeUnpaidBreakdown sampleConfig ''s'' rail methods (sampleEarned m) = Inr \<lparr>ud_breakdown =
     \<lparr>bd_productSold = 20, bd_shippingFees = 10, bd_commissionAmount = 0, bd_commissionRate = 0, bd_net = 30\<rparr>,
     ud_lifetimeProduct = l, ud_unpaid = \<lparr>ub_pre = 0, ub_post = 20, ub_ship = 10\<rparr>\<rparr>"
  by (simp add: computeUnpaidBreakdown_def sampleEarned_unpaid [OF assms] sampleEarned_breakdown Let_def split: prod.split)

lemma sample_commit:
  assumes "m \<in> set methods" and "0 < nullish amount 30" "nullish amount 30 \<le> 30"
  shows "\<exists>p t. commitPayout sampleIds sampleConfig ''s'' rail methods amount processedBy remark (sampleEarned m) = (Inr p, t)"
proof -
  have "validBuckets \<lparr>ub_pre = 0, ub_post = 20, ub_ship = 10\<rparr>" by (simp add: validBuckets_def)
  then have "assertCommissionFormula (consumeToAmount \<lparr>ub_pre = 0, ub_post = 20, ub_ship = 10\<rparr> (nullish amount 30) 0) \<lparr>ub_pre = 0, ub_post = 20, ub_ship = 10\<rparr> 0 = Inr ()"
    using assms(2) by (intro formula_holds) auto
  then show ?thesis using assms sampleEarned_due [OF assms(1), of rail]
    by (auto simp: commitPayout_def lockStoreRowForPayout_def requireStore_def assertNoConcurrentPendingPayout_def railPayouts_def
        insertSnapshotPayout_def Let_def savePayout_def)
qed

lemma sample_manual_request:
  "\<exists>p t. requestManualPayout sampleIds sampleConfig ''s'' None (sampleEarned PM_BANK_TRANSFER) = (Inr p, t)"
proof -
  let ?s = "sampleEarned PM_BANK_TRANSFER" and ?n = "Some ''Vendor requested manual payout''"
  obtain summary where s: "getPayoutSummary sampleConfig ''s'' ?s = Inr summary"
    "buildRailSummary sampleConfig ''s'' RAIL_MANUAL MANUAL_PAYMENT_METHODS ?s = Inr (ps_manual summary)" "ps_minimumPayoutAmount summary = 10"
    using summary_rails [of ?s "''s''" sampleBank sampleConfig] by (auto simp: getMinimumPayoutAmount_def sampleConfig_def)
  have "rs_availableBalance (ps_manual summary) = 30" "rs_pendingPayoutAmount (ps_manual summary) = 0"
    using rail_summary [of ?s "''s''" sampleBank sampleConfig RAIL_MANUAL MANUAL_PAYMENT_METHODS] s(2)
    by (simp_all add: sampleEarned_unpaid sampleEarned_breakdown MANUAL_PAYMENT_METHODS_def calculatePendingPayoutAmount_def railPayouts_def)
  moreover obtain p t where "commitPayout sampleIds sampleConfig ''s'' RAIL_MANUAL MANUAL_PAYMENT_METHODS None None ?n ?s = (Inr p, t)"
    using sample_commit [of PM_BANK_TRANSFER MANUAL_PAYMENT_METHODS None RAIL_MANUAL None ?n] by (auto simp: MANUAL_PAYMENT_METHODS_def)
  ultimately show ?thesis using s(1,3)
    by (simp add: requestManualPayout_def requireStore_def Let_def seqM_simps(2) [where m = "commitPayout e c i r ms a b n" for e c i r ms a b n])
qed

lemma sample_up: "gatewayUp sampleGateway" "readyStore sampleBank"
  by (simp_all add: gatewayUp_def sampleGateway_def hasCredentials_def readyStore_def truthy_def)

lemma sample_open:
  "\<exists>p t. openOmisePayout sampleIds sampleConfig sampleGateway ''s'' 30 None None (sampleEarned PM_PROMPTPAY) = (Inr (sampleBank, p), t)"
proof -
  obtain p t where "commitPayout sampleIds sampleConfig ''s'' RAIL_OMISE OMISE_PAYMENT_METHODS (Some 30) None None (sampleEarned PM_PROMPTPAY) = (Inr p, t)"
    using sample_commit [of PM_PROMPTPAY OMISE_PAYMENT_METHODS "Some 30" RAIL_OMISE None None] by (auto simp: OMISE_PAYMENT_METHODS_def)
  then show ?thesis
    by (simp add: seqM_simps(2) [where m = "refreshStoreRecipientStatus sampleIds sampleGateway sampleBank", OF refresh_ready [OF sample_up]] openOmisePayout_def requireStore_def assertRecipientReadyForTransfer_def truthy_def
        seqM_simps(2) [where m = "commitPayout e c i r ms a b n" for e c i r ms a b n])
qed

definition sampleRefusing :: omise where
  "sampleRefusing = sampleGateway\<lparr>om_createTransfer := (\<lambda>_ _ _. Inl ''insufficient_balance'')\<rparr>"

definition samplePending :: payout_row where
  "samplePending = newPayoutRow sampleIds ''p'' ''s'' RAIL_OMISE (finalizeBreakdown \<lparr>ub_pre = 0, ub_post = 20, ub_ship = 10\<rparr> 0) None None"

lemma samplePending_inv:
  "payInv sampleIds ((sampleEarned PM_PROMPTPAY)\<lparr>dbPayouts := [samplePending]\<rparr>)"
  by (auto simp: payInv_def uniqueKey_def oneOpen_def railPayouts_def samplePending_def sampleIds_def inj_def dest: arg_cong [where f = length])

section \<open>Properties\<close>

text \<open>C7. Whatever requests, triggers, settlements, rejections, gateway webhooks and scheduled runs happen,
  successful or not: a store has at most one open payout per settlement rail, no payout is ever lost,
  its store, rail, amounts and commission snapshot never change, and once it is completed or failed
  nothing about it changes any more.\<close>

theorem payouts_only_progress:
  assumes "(payout_step (envUuid env))\<^sup>*\<^sup>* s t" and "payInv env s"
  shows "(\<forall>storeId rail. length (railPayouts storeId rail PENDING_STATUSES t) \<le> 1) \<and>
    (\<forall>i p. findPayout s i = Some p \<longrightarrow> (\<exists>q. findPayout t i = Some q \<and> po_storeId q = po_storeId p \<and>
       po_settlementRail q = po_settlementRail p \<and> po_netAmount q = po_netAmount p \<and> priorOf q = priorOf p \<and>
       (po_status p \<in> {PS_COMPLETED, PS_FAILED} \<longrightarrow> q = p)))"
proof -
  have "kept env s t" using assms(1) by (induction rule: rtranclp_induct) (auto intro: kept_refl [OF assms(2)] payout_step_kept)
  then show ?thesis
    by (fastforce simp: kept_def payInv_def oneOpen_def advances_def sameMoney_def isOpen_def PENDING_STATUSES_def)
qed

theorem payouts_only_progress_witness:
  "\<exists>q. findPayout (snd (requestPayout sampleIds sampleConfig sampleGateway ''s'' None ((sampleEarned PM_PROMPTPAY)\<lparr>dbPayouts := [samplePending]\<rparr>))) ''p'' = Some q \<and>
     priorOf q = priorOf samplePending"
proof -
  let ?s = "(sampleEarned PM_PROMPTPAY)\<lparr>dbPayouts := [samplePending]\<rparr>"
  have "(payout_step (envUuid sampleIds))\<^sup>*\<^sup>* ?s (snd (requestPayout sampleIds sampleConfig sampleGateway ''s'' None ?s))"
    by (rule r_into_rtranclp) (rule payout_step.request [OF refl])
  from payouts_only_progress [OF this samplePending_inv] have "\<forall>i p. findPayout ?s i = Some p \<longrightarrow>
      (\<exists>q. findPayout (snd (requestPayout sampleIds sampleConfig sampleGateway ''s'' None ?s)) i = Some q \<and> priorOf q = priorOf p)" by blast
  moreover have "findPayout ?s ''p'' = Some samplePending" by (simp add: findPayout_def samplePending_def)
  ultimately show ?thesis by blast
qed

text \<open>C8. A payout pays the amount asked for, to the satang (the whole unpaid net when none is given), and
  never more than is due; its snapshot adds up: net is product minus commission plus shipping; and the
  product all payouts of the rail have taken never exceeds what the store is eligible for.\<close>

theorem payout_pays_requested:
  assumes "commitPayout env config storeId rail methods amount processedBy remark s = (Inr p, t)" and "payInv env s"
    and "priorsOk storeId rail s" and "liveStore s storeId = Some store"
    and "0 \<le> storeRate config store \<and> storeRate config store \<le> 100" and "linesPriced s"
  shows "\<exists>due. buildRailSummary config storeId rail methods s = Inr due \<and>
     toSatang (po_netAmount p) = toSatang (nullish amount (rs_availableBalance due)) \<and> 0 \<le> po_netAmount p \<and>
     po_netAmount p \<le> rs_availableBalance due \<and> po_amount p = po_netAmount p \<and> po_status p = PS_PENDING \<and>
     po_netAmount p = the (po_productSold p) - the (po_commissionAmount p) + the (po_shippingFees p) \<and>
     paidProduct storeId rail t \<le> eligibleSatang config storeId methods t"
proof -
  have op: "opensPayout env config storeId rail methods amount processedBy remark s p t"
    by (rule wp_Inr [OF commitPayout_wp assms(1)])
  let ?u = "unpaidBuckets config storeId rail methods s" and ?rate = "storeRate config store"
  let ?net = "bd_net (finalizeBreakdown ?u ?rate)" let ?a = "nullish amount ?net"
  note takes = opens_takes [OF op assms(2,3,4,5)] and reads = opens_reads [OF op assms(2)]
  have net: "?net = fromSatang (toSatang ?net)" by (simp add: finalizeBreakdown_def Let_def)
  have pos: "0 < ?net" using takes(1,2) by simp
  obtain due where due: "buildRailSummary config storeId rail methods s = Inr due" "rs_availableBalance due = ?net"
    using rail_summary [OF assms(4), of config rail methods] pos by auto
  have eq: "toSatang (po_netAmount p) = toSatang (nullish amount (rs_availableBalance due))" unfolding takes(5) due(2) by simp
  have "toSatang ?a \<le> toSatang ?net" by (rule toSatang_mono [OF takes(2)])
  then have le: "po_netAmount p \<le> rs_availableBalance due" unfolding takes(5) due(2) by (metis net fromSatang_le)
  have nn: "0 \<le> po_netAmount p" unfolding takes(5) using takes(1) by auto
  have snap: "priorOf p = snapshotOf (consumeToAmount ?u ?a ?rate)" by (rule takes(4))
  have "po_netAmount p = the (po_productSold p) - the (po_commissionAmount p) + the (po_shippingFees p)"
    using arg_cong [OF snap, of pp_amount] arg_cong [OF snap, of pp_productSold] arg_cong [OF snap, of pp_commissionAmount]
      arg_cong [OF snap, of pp_shippingFees] takes(1,6) consumeToAmount_takes [OF assms(5) takes(3), of ?a]
    by (simp add: priorOf_def snapshotOf_def fromSatang_def diff_divide_distrib add_divide_distrib)
  moreover have "paidProduct storeId rail t \<le> eligibleSatang config storeId methods t"
  proof -
    have "\<not> eligibleSatang config storeId methods s \<le> paidProduct storeId rail s"
      using exhausted [where config = config and methods = methods and rate = ?rate, OF assms(3) _ slices_product_nonneg [OF assms(6)]] pos by auto
    then have "toSatang (ub_pre ?u) + toSatang (ub_post ?u) = eligibleSatang config storeId methods s - paidProduct storeId rail s"
      using unpaidBuckets_props(2) [OF assms(3), of config methods] by simp
    moreover have "eligibleSatang config storeId methods t = eligibleSatang config storeId methods s"
      by (simp add: eligibleSatang_def sameOrders_reads [OF reads(1)])
    moreover have "0 \<le> ?a" using takes(1) by simp
    ultimately show ?thesis using takes(10) takes_bounds(1,2) [OF assms(5) takes(3), of ?a] by linarith
  qed
  ultimately show ?thesis using due(1) eq le nn takes(6) reads(8) by blast
qed

theorem payout_pays_requested_witness:
  "\<exists>p t. commitPayout sampleIds sampleConfig ''s'' RAIL_OMISE [PM_PROMPTPAY] (Some 25) None None (sampleEarned PM_PROMPTPAY) = (Inr p, t) \<and>
     toSatang (po_netAmount p) = 2500"
proof -
  obtain p t where t: "commitPayout sampleIds sampleConfig ''s'' RAIL_OMISE [PM_PROMPTPAY] (Some 25) None None (sampleEarned PM_PROMPTPAY) = (Inr p, t)"
    using sample_commit [of PM_PROMPTPAY "[PM_PROMPTPAY]" "Some 25" RAIL_OMISE None None] by auto
  from payout_pays_requested [OF t sampleEarned_inv, of sampleBank] t show ?thesis by auto
qed



text \<open>C29. A manual payout request opens a payout of exactly the balance the summary shows for the rail; after it the balance is
zero and the amount pending. When the administration rejects the payout, the summary of the store is what it was before the request.\<close>

theorem manual_request_rejected_roundtrip:
  assumes "requestManualPayout env config storeId processedBy s = (Inr p, t)" and "payInv env s"
    and "priorsOk storeId RAIL_MANUAL s" and "liveStore s storeId = Some store"
    and "0 \<le> storeRate config store \<and> storeRate config store \<le> 100" and "linesPriced s"
  shows "(\<exists>before summary. getPayoutSummary config storeId s = Inr before \<and> po_amount p = rs_availableBalance (ps_manual before) \<and>
       getPayoutSummary config storeId t = Inr summary \<and> rs_availableBalance (ps_manual summary) = 0 \<and>
       rs_pendingPayoutAmount (ps_manual summary) = po_amount p) \<and>
    (\<exists>q u. rejectManualPayout env' storeId \<lparr>so_payoutId = None, so_processedBy = admin, so_notes = remark\<rparr> t = (Inr q, u) \<and>
       po_id q = po_id p \<and> po_status q = PS_FAILED \<and> getPayoutSummary config storeId u = getPayoutSummary config storeId s)"
proof -
  obtain v where op: "opensPayout env config storeId RAIL_MANUAL MANUAL_PAYMENT_METHODS None processedBy (Some ''Vendor requested manual payout'') s p v"
    and t: "t = v\<lparr>dbEffects := dbEffects s @ [NotifyManualPayout (po_id p), DashboardPayout (po_id p)]\<rparr>"
    using manual_request [OF assms(1,4)] by blast
  note reads = opens_reads [OF op assms(2)]
  have alone: "railPayouts storeId RAIL_MANUAL PENDING_STATUSES s = []" using op by (auto simp: opensPayout_def)
  let ?u = "unpaidBuckets config storeId RAIL_MANUAL MANUAL_PAYMENT_METHODS s" and ?rate = "storeRate config store"
  have "0 \<le> toSatang (ub_ship ?u)" using unpaidBuckets_props(1) [OF assms(3)] validBuckets_satang by blast
  then have "productNet ?u ?rate \<le> toSatang (bd_net (finalizeBreakdown ?u ?rate))" by (simp add: finalizeBreakdown_def Let_def productNet_def)
  then have zero: "bd_net (finalizeBreakdown (unpaidBuckets config storeId RAIL_MANUAL MANUAL_PAYMENT_METHODS v) ?rate) = 0"
    using opens_exhausts [OF op assms(2-6)] by simp
  have pending: "calculatePendingPayoutAmount storeId RAIL_MANUAL v = po_amount p"
    using reads(4) [of PENDING_STATUSES] alone by (simp add: calculatePendingPayoutAmount_def PENDING_STATUSES_def)
  have vt: "getPayoutSummary config storeId t = getPayoutSummary config storeId v"
    by (rule summary_cong) (simp_all add: t sameOrders_def liveStore_def fun_eq_iff railPayouts_def findOrphanPendingPayout_def oldestPayout_def)
  have storeV: "liveStore v storeId = Some store" using assms(4) reads(2) by simp
  have first: "\<exists>summary. getPayoutSummary config storeId t = Inr summary \<and> rs_availableBalance (ps_manual summary) = 0 \<and>
      rs_pendingPayoutAmount (ps_manual summary) = po_amount p"
    unfolding vt using summary_rails [OF storeV, of config] rail_summary [OF storeV, of config RAIL_MANUAL MANUAL_PAYMENT_METHODS] zero pending by auto
  have whole: "\<exists>before. getPayoutSummary config storeId s = Inr before \<and> po_amount p = rs_availableBalance (ps_manual before)"
    using opens_due [OF op assms(2-5)] summary_rails [OF assms(4), of config] by auto
  let ?o = "\<lparr>so_payoutId = None, so_processedBy = admin, so_notes = remark\<rparr>"
  let ?q = "stampPayout env' t (rejectRow env' ?o p)"
  have rowsT: "dbPayouts t = dbPayouts s @ [p]" by (simp add: t reads(3))
  have new: "po_id p \<notin> po_id ` set (dbPayouts s)" using assms(2) reads(5) by (simp add: payInv_def)
  have noneS: "filter (\<lambda>p. po_storeId p = storeId \<and> po_settlementRail p = RAIL_MANUAL \<and> po_status p = PS_PENDING) (dbPayouts s) = []"
    using alone by (auto simp: railPayouts_def PENDING_STATUSES_def filter_empty_conv)
  have pend: "resolvePendingManualPayout storeId None t = Inr p"
    by (simp add: resolvePendingManualPayout_def oldestPayout_def rowsT noneS reads(6,7,8))
  have storeT: "liveStore t storeId = Some store" using storeV by (simp add: t liveStore_def)
  have found: "findPayout t (po_id p) = Some p" using opensPayout_keeps [OF op assms(2)] by (simp add: t)
  let ?w = "t\<lparr>dbPayouts := dbPayouts s @ [?q], dbEffects := dbEffects t @ [DashboardPayout (po_id p)]\<rparr>"
  have "saveRow po_id ?q (dbPayouts t) = dbPayouts s @ [?q]"
    using saveRow_append [of po_id ?q "dbPayouts s" "[p]"] new by (simp add: rowsT rejectRow_def)
  moreover have "po_id ?q = po_id p" by (simp add: rejectRow_def)
  ultimately have run: "rejectManualPayout env' storeId ?o t = (Inr ?q, ?w)"
    using pend found reads(6,7,8) storeT
    by (simp add: rejectManualPayout_def closeManualPayout_def lockStoreRowForPayout_def requireStore_def savePayout_def txnM_simps)
  have "getPayoutSummary config storeId ?w = getPayoutSummary config storeId s"
  proof (rule summary_cong)
    show "sameOrders s ?w" "liveStore ?w = liveStore s" using reads(1,2) by (simp_all add: t sameOrders_def liveStore_def fun_eq_iff)
    show "railPayouts storeId rail PAID_OUT_STATUSES ?w = railPayouts storeId rail PAID_OUT_STATUSES s"
      "railPayouts storeId rail PENDING_STATUSES ?w = railPayouts storeId rail PENDING_STATUSES s" for rail
      by (simp_all add: railPayouts_def rejectRow_def PAID_OUT_STATUSES_def PENDING_STATUSES_def)
    show "findOrphanPendingPayout storeId ?w = findOrphanPendingPayout storeId s"
      by (simp add: findOrphanPendingPayout_def oldestPayout_def isOrphan_def rejectRow_def)
  qed
  moreover have "po_status ?q = PS_FAILED" "po_id ?q = po_id p" by (simp_all add: rejectRow_def)
  ultimately show ?thesis using whole first run by blast
qed

theorem manual_request_rejected_roundtrip_witness:
  "\<exists>p t q u. requestManualPayout sampleIds sampleConfig ''s'' None (sampleEarned PM_BANK_TRANSFER) = (Inr p, t) \<and>
     rejectManualPayout sampleIds ''s'' \<lparr>so_payoutId = None, so_processedBy = None, so_notes = None\<rparr> t = (Inr q, u) \<and>
     getPayoutSummary sampleConfig ''s'' u = getPayoutSummary sampleConfig ''s'' (sampleEarned PM_BANK_TRANSFER)"
proof -
  obtain p t where t: "requestManualPayout sampleIds sampleConfig ''s'' None (sampleEarned PM_BANK_TRANSFER) = (Inr p, t)"
    using sample_manual_request by blast
  from manual_request_rejected_roundtrip [OF t sampleEarned_inv, of sampleBank sampleIds None None] t show ?thesis by auto
qed

text \<open>C30. Two payout requests at the same time pay twice. When a second request of the store runs between the
  commit of the first and its transfer, it finds the row the first has just committed, takes it for an
  orphan and submits it; the first then transfers too: two transfers of the full amount for one payout.\<close>

theorem concurrent_requests_pay_twice:
  assumes "openOmisePayout env config om storeId amount processedBy remark s = (Inr (store, p), t)" and "payInv env s"
    and "gatewayUp om" and "liveStore s storeId = Some st" and "readyStore st"
  shows "\<exists>q u r v. requestPayout env' config om storeId processedBy' t = (Inr q, u) \<and>
     transferOmisePayout env om store p u = (Inr r, v) \<and> po_id q = po_id p \<and> po_id r = po_id p \<and>
     dbEffects v = dbEffects t @ [sentTo st p, sentTo st p]"
proof -
  obtain s1 where s1: "refreshStoreRecipientStatus env om st s = (Inr store, s1)" "dbPayouts s1 = dbPayouts s" "idCount s1 = idCount s"
    "opensPayout env config storeId RAIL_OMISE OMISE_PAYMENT_METHODS (Some amount) processedBy remark s1 p t"
    using open_commits [OF assms(1,2)] assms(4) by auto
  with refresh_ready [OF assms(3,5)] have store: "store = st" "s1 = s" by simp_all
  note op = s1(4) [unfolded store]
  note reads = opens_reads [OF op assms(2)]
  have found: "findPayout t (po_id p) = Some p" using opensPayout_keeps [OF op assms(2)] by simp
  have live: "liveStore t (po_storeId p) = Some st" using assms(4) reads(2,6) by simp
  obtain q u where q: "submitPayoutToOmise env' om p t = (Inr q, u)" "po_id q = po_id p" "dbEffects u = dbEffects t @ [sentTo st p]"
    using submit_up [OF assms(3) live assms(5) found reads(8,9)] by blast
  have request: "requestPayout env' config om storeId processedBy' t = (Inr q, u)"
    using q(1) opens_orphan [OF op assms(2)] by (simp add: requestPayout_def)
  obtain r where r: "applyOmiseTransfer env om p (nullish (st_omiseRecipientId st) []) (po_netAmount p) u =
      (Inr (r, None), u\<lparr>dbEffects := dbEffects u @ [sentTo st p]\<rparr>)" "po_id r = po_id p"
    using apply_up [OF assms(3)] by blast
  have "hasCredentials om \<and> truthy (st_omiseRecipientId st) \<and> st_omiseRecipientStatus st = RS_ACTIVE"
    using assms(3,5) by (simp add: gatewayUp_def readyStore_def)
  then have "transferOmisePayout env om store p u = savePayout env r (u\<lparr>dbEffects := dbEffects u @ [sentTo st p]\<rparr>)"
    by (simp add: transferOmisePayout_def store
        seqM_simps(2) [where m = "applyOmiseTransfer env om p (nullish (st_omiseRecipientId st) []) (po_netAmount p)", OF r(1)])
  with request q(2,3) r(2) show ?thesis by (auto simp: savePayout_def)
qed

theorem concurrent_requests_pay_twice_witness:
  "\<exists>store p t q u r v. openOmisePayout sampleIds sampleConfig sampleGateway ''s'' 30 None None (sampleEarned PM_PROMPTPAY) = (Inr (store, p), t) \<and>
     requestPayout sampleIds sampleConfig sampleGateway ''s'' None t = (Inr q, u) \<and>
     transferOmisePayout sampleIds sampleGateway store p u = (Inr r, v) \<and> length (dbEffects v) = length (dbEffects t) + 2"
proof -
  obtain p t where t: "openOmisePayout sampleIds sampleConfig sampleGateway ''s'' 30 None None (sampleEarned PM_PROMPTPAY) = (Inr (sampleBank, p), t)"
    using sample_open by blast
  from concurrent_requests_pay_twice [OF t sampleEarned_inv(1) sample_up(1) sampleEarned_simps(1) sample_up(2), of sampleIds None] t show ?thesis
    by fastforce
qed

text \<open>A payout whose transfer the gateway refused is not lost: it stays as the store's orphan, and the next
  request sends that same payout, with the same amounts, instead of opening another. The reason of the
  refusal, though, is not stored.\<close>

theorem refused_transfer_is_retried:
  assumes "createOmisePayout env config om storeId amount processedBy remark s = (Inl (BadRequest ''OMISE_TRANSFER_FAILED''), t)"
    and "payInv env s" and "liveStore s storeId = Some st" and "readyStore st" and "gatewayUp om'" and "liveStore t storeId = Some st"
  shows "\<exists>p q u. findPayout s (po_id p) = None \<and> findOrphanPendingPayout storeId t = Some p \<and> po_failureReason p = None \<and>
     requestPayout env' config om' storeId processedBy' t = (Inr q, u) \<and> po_id q = po_id p \<and> priorOf q = priorOf p \<and>
     po_status q \<in> {PS_PROCESSING, PS_COMPLETED}"
proof -
  obtain store p t1 where op: "openOmisePayout env config om storeId amount processedBy remark s = (Inr (store, p), t1)"
    and tr: "transferOmisePayout env om store p t1 = (Inl (BadRequest ''OMISE_TRANSFER_FAILED''), t)"
    using assms(1) wp_Inl [OF open_errors [of env config om storeId amount processedBy remark s]]
    unfolding createOmisePayout_def seqM_Inl_iff by fastforce
  note o = open_appends [OF op assms(2)]
  have rows: "dbPayouts t = dbPayouts t1"
    using tr by (auto simp: transferOmisePayout_def applyOmiseTransfer_def createTransfer_def Let_def savePayout_def split: if_splits sum.splits)
  have orphan: "findOrphanPendingPayout storeId t = Some p" using o(4) by (simp add: findOrphanPendingPayout_def oldestPayout_def rows)
  have "findPayout s (po_id p) = None" using o(2) by (simp add: findPayout_def byKey_None_iff)
  moreover have found: "findPayout t (po_id p) = Some p" using o(9) by (simp add: findPayout_def rows)
  moreover have live: "liveStore t (po_storeId p) = Some st" using assms(6) o(8) by simp
  moreover obtain q u where "submitPayoutToOmise env' om' p t = (Inr q, u)" "po_id q = po_id p" "sameMoney p q" "po_status q \<in> {PS_PROCESSING, PS_COMPLETED}"
    using submit_up [OF assms(5) live assms(4) found o(5,6)] by blast
  ultimately show ?thesis using orphan o(7) by (auto simp: requestPayout_def sameMoney_def)
qed

theorem refused_transfer_is_retried_witness:
  "\<exists>t q u. createOmisePayout sampleIds sampleConfig sampleRefusing ''s'' 30 None None (sampleEarned PM_PROMPTPAY) = (Inl (BadRequest ''OMISE_TRANSFER_FAILED''), t) \<and>
     requestPayout sampleIds sampleConfig sampleGateway ''s'' None t = (Inr q, u) \<and> po_status q \<in> {PS_PROCESSING, PS_COMPLETED}"
proof -
  have same: "refreshStoreRecipientStatus sampleIds sampleRefusing = refreshStoreRecipientStatus sampleIds sampleGateway"
    "hasCredentials sampleRefusing = hasCredentials sampleGateway"
    by (simp_all add: fun_eq_iff refreshStoreRecipientStatus_def sampleRefusing_def hasCredentials_def)
  obtain p t where t: "openOmisePayout sampleIds sampleConfig sampleGateway ''s'' 30 None None (sampleEarned PM_PROMPTPAY) = (Inr (sampleBank, p), t)"
    using sample_open by blast
  then have open': "openOmisePayout sampleIds sampleConfig sampleRefusing ''s'' 30 None None (sampleEarned PM_PROMPTPAY) = (Inr (sampleBank, p), t)"
    unfolding openOmisePayout_def same .
  have "hasCredentials sampleRefusing" using sample_up(1) by (simp add: same gatewayUp_def)
  then obtain u where u: "createOmisePayout sampleIds sampleConfig sampleRefusing ''s'' 30 None None (sampleEarned PM_PROMPTPAY) =
      (Inl (BadRequest ''OMISE_TRANSFER_FAILED''), u)" "dbStores u = dbStores t"
    unfolding createOmisePayout_def seqM_simps(2) [where m = "openOmisePayout sampleIds sampleConfig sampleRefusing ''s'' 30 None None", OF open'] prod.case
    by (simp add: transferOmisePayout_def applyOmiseTransfer_def createTransfer_def sampleRefusing_def truthy_def)
  obtain s1 where s1: "refreshStoreRecipientStatus sampleIds sampleGateway sampleBank (sampleEarned PM_PROMPTPAY) = (Inr sampleBank, s1)"
    "opensPayout sampleIds sampleConfig ''s'' RAIL_OMISE OMISE_PAYMENT_METHODS (Some 30) None None s1 p t"
    using open_commits [OF t sampleEarned_inv(1)] by auto
  then have "dbStores t = dbStores (sampleEarned PM_PROMPTPAY)" using refresh_ready [OF sample_up] by (auto simp: opensPayout_def)
  then have "liveStore u ''s'' = Some sampleBank" using sampleEarned_simps(1) [of PM_PROMPTPAY] u(2) by (simp add: liveStore_def)
  from refused_transfer_is_retried [OF u(1) sampleEarned_inv(1) sampleEarned_simps(1) sample_up(2,1) this, of sampleIds None] u(1) show ?thesis by blast
qed

text \<open>The scheduler never retries: a run leaves every payout that exists as it is, so an orphan whose
  transfer failed stays one, and a store with an open payout gets no new one from the job.\<close>

theorem scheduler_never_retries:
  assumes "payInv env s" and "findPayout s i = Some p"
  shows "findPayout (snd (runScheduledPayouts zone env config om s)) i = Some p \<and>
    (po_storeId p = st_id store \<and> po_settlementRail p = RAIL_OMISE \<and> po_status p \<in> {PS_PENDING, PS_PROCESSING} \<and> 0 < po_amount p \<longrightarrow>
       dbPayouts (snd (scheduledPayout env config om store s)) = dbPayouts s)"
proof -
  let ?I = "\<lambda>t. payInv env t \<and> findPayout t i = Some p"
  have sched: "wp (scheduledPayout env config om st) (\<lambda>_. ?I) (\<lambda>_. ?I) t" if "?I t" for st t
    using that wp_conseq [OF create_untouched [OF conjunct1 [OF that] conjunct2 [OF that]]]
    by (auto simp: scheduledPayout_def createManualPayout_def wp_seq wp_readM wp_ret wp_if split: sum.split)
  have one: "wp (if b then retM () else catchM (scheduledPayout env config om st) (\<lambda>_. retM ())) (\<lambda>_. ?I) (\<lambda>_. ?I) t" if "?I t" for b st t
    using that sched [OF that] unfolding wp_if wp_ret wp_catch by simp
  have "wp (runScheduledPayouts zone env config om) (\<lambda>_. ?I) (\<lambda>_. ?I) s"
    unfolding runScheduledPayouts_def wp_seq wp_get by (intro wp_forM one) (simp_all add: assms)
  from wp_invariant [where I = ?I, OF this] have "findPayout (snd (runScheduledPayouts zone env config om s)) i = Some p" by (rule conjunct2)
  moreover have "scheduledPayout env config om store s = (Inr (), s) \<or> (\<exists>e. scheduledPayout env config om store s = (Inl e, s))"
    if open_row: "po_storeId p = st_id store" "po_settlementRail p = RAIL_OMISE" "po_status p \<in> {PS_PENDING, PS_PROCESSING}" "0 < po_amount p"
  proof (cases "liveStore s (st_id store)")
    case None
    then show ?thesis by (simp add: scheduledPayout_def getPayoutSummary_def)
  next
    case (Some st)
    have "p \<in> set (railPayouts (st_id store) RAIL_OMISE PENDING_STATUSES s)"
      using open_row assms(2) payout_repo.byId_mem by (auto simp: railPayouts_def PENDING_STATUSES_def findPayout_def)
    moreover have "length (railPayouts (st_id store) RAIL_OMISE PENDING_STATUSES s) \<le> 1" using assms(1) by (simp add: payInv_def oneOpen_def)
    ultimately have "railPayouts (st_id store) RAIL_OMISE PENDING_STATUSES s = [p]"
      by (cases "railPayouts (st_id store) RAIL_OMISE PENDING_STATUSES s") auto
    then have "0 < calculatePendingPayoutAmount (st_id store) RAIL_OMISE s" using open_row(4) by (simp add: calculatePendingPayoutAmount_def)
    then show ?thesis
      using summary_rails [OF Some, of config] rail_summary [OF Some, of config RAIL_OMISE OMISE_PAYMENT_METHODS]
      by (auto simp: scheduledPayout_def)
  qed
  ultimately show ?thesis by auto
qed

theorem scheduler_never_retries_witness:
  "findPayout (snd (runScheduledPayouts 0 sampleIds sampleConfig sampleGateway ((sampleEarned PM_PROMPTPAY)\<lparr>dbPayouts := [samplePending]\<rparr>))) ''p'' = Some samplePending \<and>
   dbPayouts (snd (scheduledPayout sampleIds sampleConfig sampleGateway sampleBank ((sampleEarned PM_PROMPTPAY)\<lparr>dbPayouts := [samplePending]\<rparr>))) = [samplePending]"
  using scheduler_never_retries [OF samplePending_inv, of "''p''" samplePending 0 sampleConfig sampleGateway sampleBank]
  by (simp add: findPayout_def samplePending_def sampleEarned_breakdown)

text \<open>The check of the commission formula never rejects a payout while the rate of the store is below
  fifty percent.\<close>

theorem commission_check_never_fires:
  assumes "commitPayout env config storeId rail methods amount processedBy remark s = (Inl e, t)"
    and "priorsOk storeId rail s" and "liveStore s storeId = Some store" and "0 \<le> storeRate config store \<and> storeRate config store < 50"
  shows "e \<noteq> BadRequest ''COMMISSION_FORMULA_MISMATCH'' \<and> t = s"
proof -
  let ?u = "unpaidBuckets config storeId rail methods s" and ?rate = "storeRate config store"
  have rate: "bd_commissionRate (finalizeBreakdown ?u ?rate) = ?rate" by (simp add: finalizeBreakdown_def Let_def)
  have "0 < a \<Longrightarrow> assertCommissionFormula (consumeToAmount ?u a ?rate) ?u ?rate = Inr ()" for a
    using formula_holds [OF unpaidBuckets_props(1) [OF assms(2)] assms(4)] by simp
  then have "wp (commitPayout env config storeId rail methods amount processedBy remark) (\<lambda>_ _. True)
      (\<lambda>e _. e \<noteq> BadRequest ''COMMISSION_FORMULA_MISMATCH'') s"
    by (simp add: commitPayout_def lockStoreRowForPayout_def assertNoConcurrentPendingPayout_def insertSnapshotPayout_def wp Let_def
        computeUnpaidBreakdown_def rate assms(3) split: prod.split) (simp add: wp_def savePayout_def)
  from wp_Inl [OF this assms(1)] wp_Inl [OF commitPayout_wp assms(1)] show ?thesis by simp
qed

theorem commission_check_never_fires_witness:
  "\<exists>e. commitPayout sampleIds sampleConfig ''s'' RAIL_OMISE [PM_PROMPTPAY] (Some 31) None None (sampleEarned PM_PROMPTPAY) = (Inl e, sampleEarned PM_PROMPTPAY) \<and>
     e \<noteq> BadRequest ''COMMISSION_FORMULA_MISMATCH''"
proof -
  obtain e t where t: "commitPayout sampleIds sampleConfig ''s'' RAIL_OMISE [PM_PROMPTPAY] (Some 31) None None (sampleEarned PM_PROMPTPAY) = (Inl e, t)"
    using sampleEarned_due [of PM_PROMPTPAY "[PM_PROMPTPAY]" RAIL_OMISE]
    by (auto simp: commitPayout_def lockStoreRowForPayout_def requireStore_def assertNoConcurrentPendingPayout_def railPayouts_def
        insertSnapshotPayout_def Let_def txnM_simps)
  from commission_check_never_fires [OF t sampleEarned_inv(2) sampleEarned_simps(1)] t show ?thesis by auto
qed

end
