(* ===== verification/Bank_Cipher.thy ===== *)
theory Bank_Cipher
  imports Checkout_Util
begin

text \<open>
  Bank account numbers at rest: \<^verbatim>\<open>src/src/common/utils/bank-account-crypto.util.ts\<close>. A stored number is
  \<open>enc:v1:\<close> and the base64url forms of the initialisation vector, of the authentication tag and of the sealed text,
  separated by colons. Buffers are lists of characters, one for each byte; account numbers are ASCII, so that their
  UTF-8 bytes are their characters.

  Node's \<open>crypto\<close> is a parameter (\<open>bank_cipher\<close>): the environment variable, SHA-256, the twelve
  random bytes of the call, and AES-256-GCM, which seals a text under a key and a vector into a sealed text and a tag, and
  opens it or throws.
\<close>

section \<open>base64url\<close>

definition b64Char :: "nat \<Rightarrow> char" where
  "b64Char n = (if n < 26 then char_of (65 + n) else if n < 52 then char_of (71 + n)
     else if n < 62 then char_of (n - 4) else if n = 62 then CHR ''-'' else CHR ''_'')"

text \<open>Node decodes both alphabets of base64, whatever the name of the encoding.\<close>

definition b64Value :: "char \<Rightarrow> nat option" where
  "b64Value c = (let n = (of_char c :: nat) in
     if 65 \<le> n \<and> n \<le> 90 then Some (n - 65)
     else if 97 \<le> n \<and> n \<le> 122 then Some (n - 71)
     else if 48 \<le> n \<and> n \<le> 57 then Some (n + 4)
     else if c = CHR ''-'' \<or> c = CHR ''+'' then Some 62
     else if c = CHR ''_'' \<or> c = CHR ''/'' then Some 63 else None)"

text \<open>\<open>toString('base64url')\<close>: six bits a character, without padding.\<close>

fun base64url :: "string \<Rightarrow> string" where
  "base64url (a # b # c # t) =
     (let n = of_char a * 65536 + of_char b * 256 + of_char c
      in b64Char (n div 262144) # b64Char (n div 4096 mod 64) # b64Char (n div 64 mod 64) # b64Char (n mod 64) # base64url t)"
| "base64url [a, b] =
     (let n = of_char a * 65536 + of_char b * 256
      in [b64Char (n div 262144), b64Char (n div 4096 mod 64), b64Char (n div 64 mod 64)])"
| "base64url [a] = (let n = of_char a * 65536 in [b64Char (n div 262144), b64Char (n div 4096 mod 64)])"
| "base64url [] = []"

fun sextets :: "nat list \<Rightarrow> string" where
  "sextets (p # q # r # v # t) =
     (let n = ((p * 64 + q) * 64 + r) * 64 + v
      in char_of (n div 65536) # char_of (n div 256) # char_of n # sextets t)"
| "sextets [p, q, r] = (let n = ((p * 64 + q) * 64 + r) * 64 in [char_of (n div 65536), char_of (n div 256)])"
| "sextets [p, q] = [char_of ((p * 64 + q) * 4096 div 65536)]"
| "sextets _ = []"

text \<open>\<open>Buffer.from(_, 'base64url')\<close>: characters of neither alphabet are skipped.\<close>

definition fromBase64url :: "string \<Rightarrow> string" where
  "fromBase64url t = sextets (List.map_filter b64Value t)"

section \<open>The payload\<close>

record bank_cipher =
  bk_key :: "string option"
  bk_sha256 :: "string \<Rightarrow> string"
  bk_iv :: string
  bk_seal :: "string \<Rightarrow> string \<Rightarrow> string \<Rightarrow> string \<times> string"
  bk_open :: "string \<Rightarrow> string \<Rightarrow> string \<Rightarrow> string \<Rightarrow> string result"

definition ENC_PREFIX :: string where
  "ENC_PREFIX = ''enc:v1:''"

definition deriveKey :: "bank_cipher \<Rightarrow> string \<Rightarrow> string" where
  "deriveKey ci secret = bk_sha256 ci secret"

definition encryptBankAccountNumber :: "bank_cipher \<Rightarrow> string option \<Rightarrow> string option" where
  "encryptBankAccountNumber ci plaintext = (case plaintext of
     None \<Rightarrow> None
   | Some p \<Rightarrow>
       if p = [] then Some p
       else if startsWith p ENC_PREFIX then Some p
       else
         (let secret = js_trim (nullish (bk_key ci) []) in
          if secret = [] then Some p
          else
            (let iv = bk_iv ci; (encrypted, tag) = bk_seal ci (deriveKey ci secret) iv p
             in Some (ENC_PREFIX @ base64url iv @ '':'' @ base64url tag @ '':'' @ base64url encrypted))))"

definition decryptBankAccountNumber :: "bank_cipher \<Rightarrow> string option \<Rightarrow> string option result" where
  "decryptBankAccountNumber ci stored = (case stored of
     None \<Rightarrow> Inr None
   | Some p \<Rightarrow>
       if p = [] then Inr (Some p)
       else if \<not> startsWith p ENC_PREFIX then Inr (Some p)
       else
         (let secret = js_trim (nullish (bk_key ci) []) in
          if secret = [] then Inl (Failure ''BANK_DATA_ENCRYPTION_KEY is required to decrypt bank account numbers'')
          else case splitOn (CHR '':'') (drop (length ENC_PREFIX) p) of
            ivB64 # tagB64 # dataB64 # _ \<Rightarrow>
              if ivB64 = [] \<or> tagB64 = [] \<or> dataB64 = [] then Inl (Failure ''Invalid encrypted bank account payload'')
              else map_sum id Some
                (bk_open ci (deriveKey ci secret) (fromBase64url ivB64) (fromBase64url tagB64) (fromBase64url dataB64))
          | _ \<Rightarrow> Inl (Failure ''Invalid encrypted bank account payload'')))"

definition maskBankAccountNumber :: "string option \<Rightarrow> string option" where
  "maskBankAccountNumber value = (case value of
     None \<Rightarrow> None
   | Some v \<Rightarrow>
       if v = [] then Some v
       else let digits = digitsOf v in
         if length digits < 4 then Some ''****''
         else Some (''****'' @ drop (length digits - 4) digits))"

section \<open>base64url is read back\<close>

lemma b64_digit: "n < 64 \<Longrightarrow> b64Value (b64Char n) = Some n"
  by (auto simp: b64Value_def b64Char_def Let_def)

lemma b64_colon: "b64Value (CHR '':'') = None"
  by (simp add: b64Value_def)

lemma six_bits: "((n div 262144 * 64 + n div 4096 mod 64) * 64 + n div 64 mod 64) * 64 + n mod 64 = (n :: nat)"
proof -
  have "n div 4096 = n div 64 div 64" "n div 262144 = n div 64 div 64 div 64"
    using div_mult2_eq [of n 64 64] div_mult2_eq [of n "64 * 64" 64] by simp_all
  then show ?thesis by (simp only: div_mult_mod_eq)
qed

lemma sextets_group:
  "((p * 64 + q) * 64 + r) * 64 + v = n \<Longrightarrow>
     sextets (p # q # r # v # t) = char_of (n div 65536) # char_of (n div 256) # char_of n # sextets t"
  "((p * 64 + q) * 64 + r) * 64 = n \<Longrightarrow> sextets [p, q, r] = [char_of (n div 65536), char_of (n div 256)]"
  "(p * 64 + q) * 4096 = n \<Longrightarrow> sextets [p, q] = [char_of (n div 65536)]"
  by (simp_all only: sextets.simps Let_def)

lemma digits_read [simp]: "n < 64 \<Longrightarrow> b64Value (b64Char n) = Some n" "n < 64 \<Longrightarrow> CHR '':'' \<noteq> b64Char n"
  using b64_digit [of n] b64_colon by auto

lemma low_byte [simp]: "char_of ((of_char a :: nat) * 256 + of_char b) = b"
  by (simp add: char_of_eq_iff take_bit_eq_mod)

lemma base64url_read: "sextets (List.map_filter b64Value (base64url bs)) = bs \<and> CHR '':'' \<notin> set (base64url bs)"
proof (induction bs rule: base64url.induct)
  case (1 a b c t)
  define n :: nat where "n = of_char a * 65536 + of_char b * 256 + of_char c"
  have small: "n div 262144 < 64"
    using nat_of_char_less_256 [of a] nat_of_char_less_256 [of b] nat_of_char_less_256 [of c] unfolding n_def by linarith
  have bytes: "n div 65536 = of_char a" "n div 256 = of_char a * 256 + of_char b"
    using nat_of_char_less_256 [of b] nat_of_char_less_256 [of c] unfolding n_def by linarith+
  have "base64url (a # b # c # t) =
      b64Char (n div 262144) # b64Char (n div 4096 mod 64) # b64Char (n div 64 mod 64) # b64Char (n mod 64) # base64url t"
    by (simp add: n_def Let_def)
  moreover have "n = of_char c + (of_char a * 256 + of_char b) * 256" by (simp add: n_def)
  then have "n mod 256 = of_char c" using nat_of_char_less_256 [of c] by (simp only: mod_mult_self1 mod_less)
  then have "char_of n = c" by (simp add: char_of_eq_iff take_bit_eq_mod)
  then have "sextets (n div 262144 # n div 4096 mod 64 # n div 64 mod 64 # n mod 64 # xs) = a # b # c # sextets xs" for xs
    unfolding sextets_group(1) [OF six_bits] bytes by simp
  ultimately show ?case using 1 small by (simp add: map_filter_simps del: base64url.simps sextets.simps)
next
  case (2 a b)
  define n :: nat where "n = of_char a * 65536 + of_char b * 256"
  have small: "n div 262144 < 64"
    using nat_of_char_less_256 [of a] nat_of_char_less_256 [of b] unfolding n_def by linarith
  have bytes: "n div 65536 = of_char a" "n div 256 = of_char a * 256 + of_char b"
    using nat_of_char_less_256 [of b] unfolding n_def by linarith+
  have "n = (of_char a * 1024 + of_char b * 4) * 64" by (simp add: n_def)
  then have "n mod 64 = 0" by (simp only: mod_mult_self2_is_0)
  then have q: "((n div 262144 * 64 + n div 4096 mod 64) * 64 + n div 64 mod 64) * 64 = n" using six_bits [of n] by linarith
  have "sextets [n div 262144, n div 4096 mod 64, n div 64 mod 64] = [a, b]"
    unfolding sextets_group(2) [OF q] bytes by simp
  moreover have "base64url [a, b] = [b64Char (n div 262144), b64Char (n div 4096 mod 64), b64Char (n div 64 mod 64)]"
    by (simp add: n_def Let_def)
  ultimately show ?case using small by (simp add: map_filter_simps del: base64url.simps sextets.simps)
next
  case (3 a)
  define n :: nat where "n = of_char a * 65536"
  have small: "n div 262144 < 64" using nat_of_char_less_256 [of a] unfolding n_def by linarith
  have "n = of_char a * 1024 * 64" by (simp add: n_def)
  then have z1: "n mod 64 = 0" by (simp only: mod_mult_self2_is_0)
  have "n div 64 = of_char a * 16 * 64" unfolding n_def by linarith
  then have z2: "n div 64 mod 64 = 0" by (simp only: mod_mult_self2_is_0)
  have q: "(n div 262144 * 64 + n div 4096 mod 64) * 4096 = n" using six_bits [of n] unfolding z1 z2 by simp
  have "sextets [n div 262144, n div 4096 mod 64] = [a]"
    unfolding sextets_group(3) [OF q] by (simp add: n_def)
  moreover have "base64url [a] = [b64Char (n div 262144), b64Char (n div 4096 mod 64)]"
    by (simp add: n_def Let_def)
  ultimately show ?case using small by (simp add: map_filter_simps del: base64url.simps sextets.simps)
qed (simp add: map_filter_simps)

lemma fromBase64url_base64url [simp]: "fromBase64url (base64url bs) = bs"
  and base64url_no_colon [simp]: "CHR '':'' \<notin> set (base64url bs)"
  using base64url_read [of bs] by (simp_all add: fromBase64url_def)

lemma base64url_empty [simp]: "base64url bs = [] \<longleftrightarrow> bs = []"
  by (cases bs rule: base64url.cases) (simp_all add: Let_def)

lemma payload_parts:
  "splitOn (CHR '':'') (base64url iv @ '':'' @ base64url tag @ '':'' @ base64url d) = [base64url iv, base64url tag, base64url d]"
  by (simp add: splitOn_cons splitOn_word)

section \<open>Properties\<close>

text \<open>C34. A bank account number that is stored is read back as it was given, whether a key is set or not; an empty or
absent one stays as it is, and a number that is stored already is not encrypted a second time. Of AES-256-GCM only this is
assumed: what is sealed under a key and a vector of twelve bytes is opened again by the same key and vector with the tag of the
sealing, the tag has sixteen bytes and the sealed text the length of the text.\<close>

theorem bank_number_roundtrip:
  assumes "\<And>k iv p c tag. length iv = 12 \<Longrightarrow> bk_seal ci k iv p = (c, tag) \<Longrightarrow>
      length tag = 16 \<and> length c = length p \<and> bk_open ci k iv tag c = Inr p"
    and "length (bk_iv ci) = 12" and "\<And>p. number = Some p \<Longrightarrow> \<not> startsWith p ENC_PREFIX"
  shows "decryptBankAccountNumber ci (encryptBankAccountNumber ci number) = Inr number \<and>
    encryptBankAccountNumber ci (encryptBankAccountNumber ci number) = encryptBankAccountNumber ci number"
proof (cases "number = None \<or> number = Some [] \<or> js_trim (nullish (bk_key ci) []) = []")
  case True
  then show ?thesis using assms(3)
    by (auto simp: encryptBankAccountNumber_def decryptBankAccountNumber_def Let_def split: option.split)
next
  case False
  then obtain p where p: "number = Some p" "p \<noteq> []" "\<not> startsWith p ENC_PREFIX" using assms(3) by (cases number) auto
  let ?k = "deriveKey ci (js_trim (nullish (bk_key ci) []))"
  obtain c tag where seal: "bk_seal ci ?k (bk_iv ci) p = (c, tag)" by (cases "bk_seal ci ?k (bk_iv ci) p")
  note gcm = assms(1) [OF assms(2) seal]
  let ?stored = "ENC_PREFIX @ base64url (bk_iv ci) @ '':'' @ base64url tag @ '':'' @ base64url c"
  have enc: "encryptBankAccountNumber ci number = Some ?stored"
    using p False seal by (simp add: encryptBankAccountNumber_def Let_def)
  have pre: "startsWith ?stored ENC_PREFIX" "?stored \<noteq> []" by (simp_all add: startsWith_def ENC_PREFIX_def)
  have nonempty: "bk_iv ci \<noteq> []" "tag \<noteq> []" "c \<noteq> []" using assms(2) gcm p(2) by auto
  have "splitOn (CHR '':'') (drop (length ENC_PREFIX) ?stored) = [base64url (bk_iv ci), base64url tag, base64url c]"
    using payload_parts by simp
  then have "decryptBankAccountNumber ci (Some ?stored) = Inr number"
    using pre False nonempty gcm p(1) by (simp add: decryptBankAccountNumber_def Let_def)
  moreover have "encryptBankAccountNumber ci (Some ?stored) = Some ?stored"
    using pre by (simp add: encryptBankAccountNumber_def)
  ultimately show ?thesis unfolding enc by simp
qed

definition sampleCipher :: bank_cipher where
  "sampleCipher = \<lparr>bk_key = Some '' k '', bk_sha256 = id, bk_iv = ''abcdefghijkl'',
     bk_seal = (\<lambda>k iv p. (rev p, take 16 (k @ iv @ ''0123456789abcdef''))),
     bk_open = (\<lambda>k iv tag c. if tag = take 16 (k @ iv @ ''0123456789abcdef'') then Inr (rev c)
       else Inl (Failure ''Unsupported state or unable to authenticate data''))\<rparr>"

lemma sampleCipher_gcm:
  "length iv = 12 \<Longrightarrow> bk_seal sampleCipher k iv p = (c, tag) \<Longrightarrow>
     length tag = 16 \<and> length c = length p \<and> bk_open sampleCipher k iv tag c = Inr p"
  by (auto simp: sampleCipher_def)

lemma sample_base64:
  "base64url ''abcdefghijkl'' = ''YWJjZGVmZ2hpamts''" "base64url ''kabcdefghijkl012'' = ''a2FiY2RlZmdoaWprbDAxMg''"
  "base64url ''4321'' = ''NDMyMQ''"
  by (simp_all add: b64Char_def char_of_eq_iff)

lemma sampleCipher_stored:
  "encryptBankAccountNumber sampleCipher (Some ''1234'') = Some ''enc:v1:YWJjZGVmZ2hpamts:a2FiY2RlZmdoaWprbDAxMg:NDMyMQ''"
proof -
  have "js_trim (nullish (bk_key sampleCipher) []) = ''k''" by (simp add: sampleCipher_def js_trim_def js_ws_def)
  moreover have "bk_seal sampleCipher (deriveKey sampleCipher ''k'') (bk_iv sampleCipher) ''1234'' = (''4321'', ''kabcdefghijkl012'')"
    by (simp add: sampleCipher_def deriveKey_def)
  moreover have "bk_iv sampleCipher = ''abcdefghijkl''" by (simp add: sampleCipher_def)
  ultimately show ?thesis
    by (simp add: encryptBankAccountNumber_def ENC_PREFIX_def startsWith_def Let_def sample_base64 del: base64url.simps)
qed

theorem bank_number_roundtrip_witness:
  "decryptBankAccountNumber sampleCipher (encryptBankAccountNumber sampleCipher (Some ''1234'')) = Inr (Some ''1234'') \<and>
   encryptBankAccountNumber sampleCipher (Some ''1234'') = Some ''enc:v1:YWJjZGVmZ2hpamts:a2FiY2RlZmdoaWprbDAxMg:NDMyMQ''"
proof (rule conjI [OF _ sampleCipher_stored], rule conjunct1 [OF bank_number_roundtrip])
  show "length (bk_iv sampleCipher) = 12" by (simp add: sampleCipher_def)
  show "\<not> startsWith p ENC_PREFIX" if "Some ''1234'' = Some p" for p
    using that by (auto simp: startsWith_def ENC_PREFIX_def)
qed (rule sampleCipher_gcm)

end
