(* ===== verification/Store_Recipient.thy ===== *)
theory Store_Recipient
  imports Payouts Bank_Cipher
begin

text \<open>
  The payout account of a store: the recipient methods of \<^verbatim>\<open>src/src/modules/stores/stores.service.ts\<close>. The account
  number is stored as \<open>Bank_Cipher\<close> seals it; the answers of Omise to the calls that create and change a
  recipient are parameters.
\<close>

section \<open>The bank details of a store\<close>

text \<open>
  An optional field of an update: absent (\<open>undefined\<close>), or a value that may be \<open>null\<close>.
\<close>

type_synonym 'a field = "'a option option"

definition setField :: "'a field \<Rightarrow> 'a option \<Rightarrow> 'a option" where
  "setField f old = (case f of None \<Rightarrow> old | Some v \<Rightarrow> v)"

definition differs :: "'a field \<Rightarrow> 'a option \<Rightarrow> bool" where
  "differs f old \<longleftrightarrow> (case f of None \<Rightarrow> False | Some v \<Rightarrow> v \<noteq> old)"

record payout_details =
  pd_bankAccountName :: "string field"
  pd_bankAccountNumber :: "string field"
  pd_bankName :: "string field"
  pd_bankCode :: "string field"

text \<open>\<open>storeRepository.save\<close> returns the entity it stored.\<close>

definition savedStore :: "env \<Rightarrow> store_row \<Rightarrow> (db, store_row) op" where
  "savedStore env st = seqM (saveStore env st) (\<lambda>_. getM (\<lambda>s. nullish (byKey st_id (st_id st) (dbStores s)) st))"

text \<open>
  \<open>||\<close> is lazy: the stored number is decrypted, which may throw, only when a number is given and the
  account name is unchanged.
\<close>

definition bankDetailsChanged :: "bank_cipher \<Rightarrow> payout_details \<Rightarrow> store_row \<Rightarrow> bool result" where
  "bankDetailsChanged ci data store =
     (if differs (pd_bankAccountName data) (st_bankAccountName store) then Inr True
      else
        (let rest = (differs (pd_bankCode data) (st_bankCode store) \<or> differs (pd_bankName data) (st_bankName store))
         in case pd_bankAccountNumber data of
              None \<Rightarrow> Inr rest
            | Some v \<Rightarrow> (case decryptBankAccountNumber ci (st_bankAccountNumber store) of
                           Inl e \<Rightarrow> Inl e
                         | Inr plain \<Rightarrow> Inr (v \<noteq> plain \<or> rest))))"

definition updateStorePayout :: "env \<Rightarrow> bank_cipher \<Rightarrow> string \<Rightarrow> payout_details \<Rightarrow> (db, store_row) op" where
  "updateStorePayout env ci storeId data =
     seqM (findOneStore storeId) (\<lambda>store.
     seqM (liftM (bankDetailsChanged ci data store)) (\<lambda>changed.
       (let store1 = store\<lparr>st_bankAccountName := setField (pd_bankAccountName data) (st_bankAccountName store),
              st_bankAccountNumber := (case pd_bankAccountNumber data of
                 None \<Rightarrow> st_bankAccountNumber store | Some v \<Rightarrow> encryptBankAccountNumber ci v),
              st_bankName := setField (pd_bankName data) (st_bankName store),
              st_bankCode := setField (pd_bankCode data) (st_bankCode store)\<rparr>;
            store2 = (if changed
              then store1\<lparr>st_omiseRecipientStatus := RS_NOT_CONNECTED, st_omiseRecipientFailureMessage := None\<rparr>
              else store1)
        in savedStore env store2)))"

section \<open>The Omise recipient\<close>

datatype gateway_error = GE_Rejected string | GE_Unreachable

record recipient_params =
  rp_name :: string
  rp_email :: "string option"
  rp_bankBrand :: string
  rp_bankNumber :: "string option"
  rp_bankName :: string

record recipient_api =
  ra_create :: "nat \<Rightarrow> recipient_params \<Rightarrow> gateway_error + omise_recipient"
  ra_update :: "nat \<Rightarrow> string \<Rightarrow> recipient_params \<Rightarrow> gateway_error + omise_recipient"

definition recipientStatus :: "omise_recipient \<Rightarrow> recipient_status" where
  "recipientStatus r = (if rc_verified r \<and> rc_active r then RS_ACTIVE else RS_PENDING)"

definition LINK_FAILED :: string where
  "LINK_FAILED = ''Failed to link the receiving account to Omise''"

definition KEYS_MISSING :: string where
  "KEYS_MISSING = ''Omise API keys are not configured on the server. The receiving account cannot be linked to Omise until OMISE_SECRET_KEY is set.''"

text \<open>\<open>syncOmiseRecipient\<close>: the result is the store object the caller saves.\<close>

definition syncOmiseRecipient :: "omise \<Rightarrow> recipient_api \<Rightarrow> bank_cipher \<Rightarrow> store_row \<Rightarrow> (db, store_row) op" where
  "syncOmiseRecipient om api ci store =
     (if \<not> (truthy (st_bankCode store) \<and> truthy (st_bankAccountNumber store) \<and> truthy (st_bankAccountName store))
      then retM (store\<lparr>st_omiseRecipientStatus := RS_NOT_CONNECTED, st_omiseRecipientFailureMessage := None\<rparr>)
      else if \<not> hasCredentials om
      then retM (store\<lparr>st_omiseRecipientStatus := RS_NOT_CONNECTED, st_omiseRecipientFailureMessage := Some KEYS_MISSING\<rparr>)
      else seqM (liftM (decryptBankAccountNumber ci (st_bankAccountNumber store))) (\<lambda>number.
        (let accountName = nullish (st_bankAccountName store) [];
             params = \<lparr>rp_name = accountName, rp_email = st_contactEmail store,
               rp_bankBrand = nullish (st_bankCode store) [], rp_bankNumber = number, rp_bankName = accountName\<rparr>
         in seqM (getM (\<lambda>s. if truthy (st_omiseRecipientId store)
                   then ra_update api (length (dbEffects s)) (nullish (st_omiseRecipientId store) []) params
                   else ra_create api (length (dbEffects s)) params)) (\<lambda>answer.
              retM (case answer of
                Inr r \<Rightarrow> store\<lparr>st_omiseRecipientId := Some (rc_id r), st_omiseRecipientFailureMessage := None,
                          st_omiseRecipientStatus := recipientStatus r\<rparr>
              | Inl (GE_Rejected message) \<Rightarrow> store\<lparr>st_omiseRecipientStatus := RS_FAILED, st_omiseRecipientFailureMessage := Some message\<rparr>
              | Inl GE_Unreachable \<Rightarrow> store\<lparr>st_omiseRecipientStatus := RS_FAILED, st_omiseRecipientFailureMessage := Some LINK_FAILED\<rparr>)))))"

definition linkStoreOmiseRecipient :: "env \<Rightarrow> omise \<Rightarrow> recipient_api \<Rightarrow> bank_cipher \<Rightarrow> string \<Rightarrow> (db, store_row) op" where
  "linkStoreOmiseRecipient env om api ci storeId =
     seqM (findOneStore storeId) (\<lambda>store. seqM (syncOmiseRecipient om api ci store) (savedStore env))"

definition applyRecipientFlags :: "store_row \<Rightarrow> bool \<Rightarrow> bool \<Rightarrow> store_row" where
  "applyRecipientFlags store verified active =
     (if verified \<and> active
      then store\<lparr>st_omiseRecipientStatus := RS_ACTIVE, st_omiseRecipientFailureMessage := None\<rparr>
      else store\<lparr>st_omiseRecipientStatus := RS_PENDING\<rparr>)"

definition applyOmiseRecipientSnapshot ::
    "omise \<Rightarrow> store_row \<Rightarrow> (bool option \<times> bool option) option \<Rightarrow> (db, store_row) op" where
  "applyOmiseRecipientSnapshot om store fallback =
     (if st_omiseRecipientStatus store = RS_NOT_CONNECTED \<or> \<not> truthy (st_omiseRecipientId store) then retM store
      else seqM (getM (\<lambda>s. if hasCredentials om
             then (case om_getRecipient om (length (dbEffects s)) (nullish (st_omiseRecipientId store) []) of
                    Inl _ \<Rightarrow> None | Inr r \<Rightarrow> Some r)
             else None)) (\<lambda>fetched.
        retM (case fetched of
          Some r \<Rightarrow> applyRecipientFlags store (rc_verified r) (rc_active r)
        | None \<Rightarrow> (case fallback of
            Some (Some verified, Some active) \<Rightarrow> applyRecipientFlags store verified active
          | _ \<Rightarrow> store))))"

definition refreshOmiseRecipientStatus :: "env \<Rightarrow> omise \<Rightarrow> string \<Rightarrow> (db, store_row) op" where
  "refreshOmiseRecipientStatus env om storeId =
     seqM (findOneStore storeId) (\<lambda>store.
       if st_omiseRecipientStatus store = RS_NOT_CONNECTED then retM store
       else seqM (applyOmiseRecipientSnapshot om store None) (savedStore env))"

record recipient_event =
  re_object :: "string option"
  re_id :: "string option"
  re_verified :: "bool option"
  re_active :: "bool option"

definition storeOfRecipient :: "db \<Rightarrow> string option \<Rightarrow> store_row option" where
  "storeOfRecipient s i = List.find (\<lambda>st. st_omiseRecipientId st = i \<and> st_deletedAt st = None) (dbStores s)"

definition handleOmiseRecipientWebhook :: "env \<Rightarrow> omise \<Rightarrow> recipient_event \<Rightarrow> (db, unit) op" where
  "handleOmiseRecipientWebhook env om event =
     (if \<not> truthy (re_id event) \<or> re_object event \<noteq> Some ''recipient'' then retM ()
      else seqM (getM (\<lambda>s. storeOfRecipient s (re_id event))) (\<lambda>found. case found of
        None \<Rightarrow> retM ()
      | Some store \<Rightarrow>
          seqM (applyOmiseRecipientSnapshot om store (Some (re_verified event, re_active event))) (\<lambda>st.
            saveStore env st)))"

end
