(* ===== verification/Payments.thy ===== *)
theory Payments
  imports Store_Recipient Orders
begin

text \<open>
  \<^verbatim>\<open>src/src/modules/payments\<close>: the payments service, the check of the signature of a webhook, and the
  expiry job. The charge API of Omise is a parameter: what it answers to the call that is made after
  \<open>n\<close> recorded effects; every call that changes something at Omise is recorded as an effect. What is
  logged and how long a cancellation may take is not modelled, only that it may time out.

  The transaction of \<open>createCharge\<close> calls the gateway and publishes while it is open. A rollback takes
  its writes back but not what has been sent (\<open>txnSent\<close>).
\<close>

section \<open>Parameters\<close>

record bank_transfer_settings =
  bt_enabled :: bool
  bt_bankName :: string
  bt_accountName :: string
  bt_accountNumber :: string
  bt_branchName :: "string option"

record payment_config =
  pf_qrExpiryMinutes :: "int option"
  pf_unpaidOrderCancelAfterMs :: "int option"
  pf_storefrontUrl :: "string option"
  pf_webhookSecret :: string
  pf_bankTransfer :: bank_transfer_settings

record charge =
  ch_id :: string
  ch_status :: string
  ch_amount :: "int option"
  ch_authorizeUri :: "string option"
  ch_qrCodeUrl :: "string option"

record charge_body =
  cb_amount :: int
  cb_currency :: string
  cb_source :: "(string \<times> wallet_platform option) option"
  cb_expiresAt :: "date option"
  cb_customer :: "string option"
  cb_card :: "string option"
  cb_returnUri :: "string option"

datatype cancel_answer = CA_OK | CA_Refused | CA_TimedOut

record charge_api =
  ca_secretKey :: string
  ca_create :: "nat \<Rightarrow> charge_body \<Rightarrow> gateway_error + charge"
  ca_get :: "nat \<Rightarrow> string \<Rightarrow> gateway_error + charge"
  ca_expire :: "nat \<Rightarrow> string \<Rightarrow> cancel_answer"
  ca_reverse :: "nat \<Rightarrow> string \<Rightarrow> cancel_answer"

fun gatewayExn :: "gateway_error \<Rightarrow> exn" where
  "gatewayExn (GE_Rejected message) = BadRequest ''OMISE_ERROR''"
| "gatewayExn GE_Unreachable = Failure ''fetch failed''"

definition txnSent :: "(db, 'a) op \<Rightarrow> (db, 'a) op" where
  "txnSent m = (\<lambda>s. case m s of
     (Inl e, s') \<Rightarrow> (Inl e, s\<lparr>idCount := idCount s', dbEffects := dbEffects s'\<rparr>)
   | (Inr x, s') \<Rightarrow> (Inr x, s'))"

section \<open>Bank transfer settings\<close>

definition isComplete :: "bank_transfer_settings \<Rightarrow> bool" where
  "isComplete v \<longleftrightarrow> bt_bankName v \<noteq> [] \<and> bt_accountName v \<noteq> [] \<and> bt_accountNumber v \<noteq> []"

definition isAvailable :: "bank_transfer_settings \<Rightarrow> bool" where
  "isAvailable v \<longleftrightarrow> bt_enabled v \<and> isComplete v"

definition getBankTransferDetails :: "payment_config \<Rightarrow> (string \<times> string \<times> string \<times> string option) option" where
  "getBankTransferDetails config = (let v = pf_bankTransfer config in
     if \<not> isAvailable v then None
     else Some (bt_bankName v, bt_accountName v, bt_accountNumber v, bt_branchName v))"

definition assertBankTransferConfigured :: "payment_config \<Rightarrow> unit result" where
  "assertBankTransferConfigured config =
     (if \<not> isAvailable (pf_bankTransfer config) then Inl (BadRequest ''BANK_TRANSFER_NOT_CONFIGURED'') else Inr ())"

text \<open>\<open>toLowerCase\<close>, on ASCII letters\<close>

definition js_lower :: "string \<Rightarrow> string" where
  "js_lower s = map (\<lambda>c. if 65 \<le> (of_char c :: nat) \<and> (of_char c :: nat) \<le> 90
     then char_of ((of_char c :: nat) + 32) else c) s"

section \<open>Rows\<close>

definition findPayment :: "db \<Rightarrow> string \<Rightarrow> payment_row option" where
  "findPayment s i = byKey py_id i (dbPayments s)"

definition stampPayment :: "env \<Rightarrow> db \<Rightarrow> payment_row \<Rightarrow> payment_row" where
  "stampPayment env s p = (if findPayment s (py_id p) = Some p then p else p\<lparr>py_updatedAt := envNow env\<rparr>)"

definition savePayment :: "env \<Rightarrow> payment_row \<Rightarrow> (db, payment_row) op" where
  "savePayment env p = (\<lambda>s. (Inr (stampPayment env s p), s\<lparr>dbPayments := saveRow py_id (stampPayment env s p) (dbPayments s)\<rparr>))"

definition paymentsOf :: "db \<Rightarrow> string \<Rightarrow> payment_row list" where
  "paymentsOf s orderId = filter (\<lambda>p. py_orderId p = orderId) (dbPayments s)"

definition pendingPayments :: "db \<Rightarrow> string \<Rightarrow> payment_row list" where
  "pendingPayments s orderId = filter (\<lambda>p. py_status p = PY_PENDING) (paymentsOf s orderId)"

text \<open>\<open>order: { createdAt: 'DESC' }\<close>; of rows with one date the first inserted is taken.\<close>

definition latestPayment :: "db \<Rightarrow> string \<Rightarrow> payment_row option" where
  "latestPayment s orderId = List.find (\<lambda>_. True) (sort_key (\<lambda>p. - py_createdAt p) (paymentsOf s orderId))"

definition publishPaymentStatusUpdated :: "payment_row \<Rightarrow> (db, unit) op" where
  "publishPaymentStatusUpdated p = emit (PaymentUpdated (py_id p) (py_status p))"

text \<open>\<open>notifyOrderPaid\<close> is awaited and rethrows a refused e-mail, as \<open>notifyOrderStatusChanged\<close> does.\<close>

definition notifyOrderPaid :: "env \<Rightarrow> string \<Rightarrow> (db, unit) op" where
  "notifyOrderPaid env orderId = seqM (emit (NotifyOrderPaid orderId)) (\<lambda>_.
     failIf (envMailFails env orderId) (Failure ''Failed to send email''))"

section \<open>Expiry of QR codes\<close>

definition getQrExpiryMinutes :: "payment_config \<Rightarrow> int" where
  "getQrExpiryMinutes config = (case pf_qrExpiryMinutes config of
     Some m \<Rightarrow> if 0 < m then m else 15 | None \<Rightarrow> 15)"

definition computeQrExpiresAt :: "payment_config \<Rightarrow> date \<Rightarrow> date" where
  "computeQrExpiresAt config from = from + getQrExpiryMinutes config * 60000"

definition getEffectiveExpiresAt :: "payment_config \<Rightarrow> payment_row \<Rightarrow> date option" where
  "getEffectiveExpiresAt config p =
     (if py_expiresAt p \<noteq> None then py_expiresAt p
      else if py_paymentMethod p = PM_PROMPTPAY \<and> py_status p = PY_PENDING
      then Some (computeQrExpiresAt config (py_createdAt p)) else None)"

definition isQrPaymentExpired :: "payment_config \<Rightarrow> payment_row \<Rightarrow> date \<Rightarrow> bool" where
  "isQrPaymentExpired config p now = (case getEffectiveExpiresAt config p of None \<Rightarrow> False | Some e \<Rightarrow> e \<le> now)"

definition getUnpaidOrderCancelAfterMs :: "payment_config \<Rightarrow> int" where
  "getUnpaidOrderCancelAfterMs config = (case pf_unpaidOrderCancelAfterMs config of
     Some m \<Rightarrow> if 0 < m then m else 86400000 | None \<Rightarrow> 86400000)"

text \<open>
  \<open>cancelOmiseChargeBestEffort\<close>: a QR charge is expired; a card charge is expired and, when that is
  refused in time, reversed. The result is whether Omise confirmed.
\<close>

definition cancelOmiseChargeBestEffort :: "charge_api \<Rightarrow> string \<Rightarrow> payment_method \<Rightarrow> (db, bool) op" where
  "cancelOmiseChargeBestEffort api chargeId m =
     (if ca_secretKey api = [] \<or> chargeId = [] then retM False
      else seqM (getM (\<lambda>s. ca_expire api (length (dbEffects s)) chargeId)) (\<lambda>answer.
           seqM (emit (ChargeCancelRequested chargeId)) (\<lambda>_. case answer of
             CA_OK \<Rightarrow> retM True
           | CA_TimedOut \<Rightarrow> retM False
           | CA_Refused \<Rightarrow>
               if m = PM_PROMPTPAY then retM False
               else seqM (getM (\<lambda>s. ca_reverse api (length (dbEffects s)) chargeId)) (\<lambda>second.
                    seqM (emit (ChargeCancelRequested chargeId)) (\<lambda>_. retM (second = CA_OK))))))"

definition finalizeExpiredPayment :: "env \<Rightarrow> charge_api \<Rightarrow> payment_row \<Rightarrow> (db, payment_row) op" where
  "finalizeExpiredPayment env api payment =
     seqM (getM (\<lambda>s. findOrder s (py_orderId payment))) (\<lambda>found. case found of
       None \<Rightarrow> retM payment
     | Some ord \<Rightarrow>
         if o_status ord \<in> terminalOrderStatuses \<or> py_status payment \<noteq> PY_PENDING then retM payment
         else
           (let chargeId = orElse (py_omiseChargeId payment) (o_paymentReference ord) in
            seqM (txnM (seqM (savePayment env (payment\<lparr>py_status := PY_FAILED\<rparr>)) (\<lambda>failed.
              seqM (if truthy (o_paymentReference ord) \<and>
                       (\<not> truthy (py_omiseChargeId payment) \<or> o_paymentReference ord = py_omiseChargeId payment)
                    then saveOrder env (ord\<lparr>o_paymentReference := None\<rparr>) else retM ()) (\<lambda>_. retM failed)))) (\<lambda>failed.
            seqM (if truthy chargeId \<and> ca_secretKey api \<noteq> []
                  then seqM (cancelOmiseChargeBestEffort api (nullish chargeId []) (py_paymentMethod payment)) (\<lambda>_. retM ())
                  else retM ()) (\<lambda>_.
            seqM (publishPaymentStatusUpdated failed) (\<lambda>_.
            seqM (emit (VendorWebhook (o_id ord) ''order.payment_failed'')) (\<lambda>_. retM failed))))))"

definition expirePendingQrPaymentIfNeeded :: "env \<Rightarrow> payment_config \<Rightarrow> charge_api \<Rightarrow> payment_row \<Rightarrow> (db, payment_row) op" where
  "expirePendingQrPaymentIfNeeded env config api payment =
     (if py_paymentMethod payment \<noteq> PM_PROMPTPAY \<or> py_status payment \<noteq> PY_PENDING \<or>
         \<not> isQrPaymentExpired config payment (envNow env) then retM payment
      else finalizeExpiredPayment env api payment)"

definition expireOne :: "env \<Rightarrow> payment_config \<Rightarrow> charge_api \<Rightarrow> payment_row \<Rightarrow> (db, nat) op" where
  "expireOne env config api payment =
     (if \<not> isQrPaymentExpired config payment (envNow env) then retM 0
      else seqM (finalizeExpiredPayment env api payment) (\<lambda>updated.
             retM (if py_status updated = PY_FAILED then 1 else 0)))"

definition expirePendingQrPayments :: "env \<Rightarrow> payment_config \<Rightarrow> charge_api \<Rightarrow> (db, nat) op" where
  "expirePendingQrPayments env config api =
     seqM (getM (\<lambda>s. filter (\<lambda>p. py_paymentMethod p = PM_PROMPTPAY \<and> py_status p = PY_PENDING) (dbPayments s))) (\<lambda>pending.
     seqM (forM (expireOne env config api) pending) (\<lambda>counts. retM (sum_list counts)))"


section \<open>Stale unpaid orders\<close>

definition failIfPending :: "env \<Rightarrow> payment_row \<Rightarrow> (db, payment_row) op" where
  "failIfPending env p =
     (if py_status p = PY_PENDING then savePayment env (p\<lparr>py_status := PY_FAILED\<rparr>) else retM p)"

definition cancelOrderRestoreStockAndFailPayments ::
    "env \<Rightarrow> order_row \<Rightarrow> payment_row list \<Rightarrow> string \<Rightarrow> (db, unit) op" where
  "cancelOrderRestoreStockAndFailPayments env ord payments reason =
     seqM (txnM
       (seqM (forM (failIfPending env) payments) (\<lambda>updated.
        seqM (saveOrder env (ord\<lparr>o_status := OS_CANCELLED, o_paymentReference := None\<rparr>)) (\<lambda>_.
        seqM (restoreOrderStock env (o_id ord) (Some reason)) (\<lambda>_. retM updated))))) (\<lambda>updated.
     seqM (forM (\<lambda>p. if py_status p = PY_FAILED then publishPaymentStatusUpdated p else retM ()) updated) (\<lambda>_.
       emit (VendorWebhook (o_id ord) ''order.cancelled'')))"

definition staleCandidate :: "payment_config \<Rightarrow> date \<Rightarrow> order_row \<Rightarrow> bool" where
  "staleCandidate config now ord \<longleftrightarrow> o_status ord = OS_PENDING_PAYMENT \<and>
     (o_createdAt ord \<le> now - getUnpaidOrderCancelAfterMs config \<or>
      o_guestPhone ord \<noteq> None \<and> o_guestPayTokenHash ord = None)"

definition cancelIfUnpaid :: "env \<Rightarrow> order_view \<Rightarrow> (db, nat) op" where
  "cancelIfUnpaid env = (\<lambda>(ord, items).
     if o_status ord \<noteq> OS_PENDING_PAYMENT \<or> orderHasHeldItems items then retM 0
     else seqM (getM (\<lambda>s. paymentsOf s (o_id ord))) (\<lambda>payments.
       if list_ex (\<lambda>p. py_status p = PY_PAID) payments then retM 0
       else seqM (cancelOrderRestoreStockAndFailPayments env ord
                    (filter (\<lambda>p. py_status p = PY_PENDING) payments) ''Unpaid order expired'') (\<lambda>_. retM 1)))"

definition cancelStaleUnpaidOrders :: "env \<Rightarrow> payment_config \<Rightarrow> date \<Rightarrow> (db, nat) op" where
  "cancelStaleUnpaidOrders env config now =
     seqM (getM (\<lambda>s. map (\<lambda>ord. (ord, orderItems s (o_id ord))) (filter (staleCandidate config now) (dbOrders s)))) (\<lambda>candidates.
     seqM (forM (\<lambda>view. catchM (cancelIfUnpaid env view) (\<lambda>_. retM 0)) candidates) (\<lambda>counts. retM (sum_list counts)))"

section \<open>Who may pay\<close>

definition assertCanPayForOrder ::
    "env \<Rightarrow> (string \<Rightarrow> string) \<Rightarrow> string \<Rightarrow> string option \<Rightarrow> string option \<Rightarrow> (db, order_view) op" where
  "assertCanPayForOrder env hash orderId customerId guestPayToken =
     seqM (getM (\<lambda>s. (findOrder s orderId, orderItems s orderId))) (\<lambda>(found, items). case found of
       None \<Rightarrow> raiseM (BadRequest ''ORDER_NOT_FOUND'')
     | Some ord \<Rightarrow>
         if truthy customerId \<and> o_customerId ord = customerId then retM (ord, items)
         else if truthy customerId then raiseM (Forbidden ''FORBIDDEN'')
         else if \<not> truthy (o_guestPhone ord) then raiseM (Forbidden ''FORBIDDEN'')
         else seqM (liftM (assertGuestPayTokenAccess hash (envNow env) (o_guestPayTokenHash ord)
                      (o_guestPayTokenExpiresAt ord) guestPayToken)) (\<lambda>_. retM (ord, items)))"

definition assertCanAccessPayment ::
    "env \<Rightarrow> (string \<Rightarrow> string) \<Rightarrow> string \<Rightarrow> string option \<Rightarrow> string option \<Rightarrow> (db, unit) op" where
  "assertCanAccessPayment env hash paymentId customerId guestPayToken =
     seqM (getM (\<lambda>s. findPayment s paymentId)) (\<lambda>found. case found of
       None \<Rightarrow> raiseM (NotFound ''PAYMENT_NOT_FOUND'')
     | Some p \<Rightarrow> seqM (assertCanPayForOrder env hash (py_orderId p) customerId guestPayToken) (\<lambda>_. retM ()))"

definition findPaymentById ::
    "env \<Rightarrow> (string \<Rightarrow> string) \<Rightarrow> payment_config \<Rightarrow> charge_api \<Rightarrow> string \<Rightarrow> string option \<Rightarrow> string option \<Rightarrow> (db, payment_row) op" where
  "findPaymentById env hash config api paymentId customerId guestPayToken =
     seqM (getM (\<lambda>s. findPayment s paymentId)) (\<lambda>found. case found of
       None \<Rightarrow> raiseM (NotFound ''PAYMENT_NOT_FOUND'')
     | Some p \<Rightarrow> seqM (assertCanPayForOrder env hash (py_orderId p) customerId guestPayToken) (\<lambda>_.
                 expirePendingQrPaymentIfNeeded env config api p))"

definition findLatestByOrderId ::
    "env \<Rightarrow> (string \<Rightarrow> string) \<Rightarrow> payment_config \<Rightarrow> charge_api \<Rightarrow> string \<Rightarrow> string option \<Rightarrow> string option \<Rightarrow> (db, payment_row) op" where
  "findLatestByOrderId env hash config api orderId customerId guestPayToken =
     seqM (assertCanPayForOrder env hash orderId customerId guestPayToken) (\<lambda>_.
     seqM (getM (\<lambda>s. latestPayment s orderId)) (\<lambda>found. case found of
       None \<Rightarrow> raiseM (NotFound ''PAYMENT_NOT_FOUND'')
     | Some p \<Rightarrow> expirePendingQrPaymentIfNeeded env config api p))"

section \<open>Creating a charge\<close>

record create_charge =
  cc_orderId :: string
  cc_paymentMethod :: string
  cc_currency :: string
  cc_omiseToken :: "string option"
  cc_savedPaymentMethodId :: "string option"
  cc_customerId :: "string option"
  cc_guestPayToken :: "string option"
  cc_platformType :: "wallet_platform option"

record charge_result =
  cr_paymentId :: string
  cr_status :: string
  cr_amount :: money
  cr_currency :: string
  cr_paymentMethod :: payment_method
  cr_authorizeUri :: "string option"
  cr_qrCodeUrl :: "string option"
  cr_expiresAt :: "date option"

definition assertOrderPayableForCreate :: "order_row \<Rightarrow> item_row list \<Rightarrow> payment_row option \<Rightarrow> unit result" where
  "assertOrderPayableForCreate ord items latest =
     (if o_status ord \<noteq> OS_PENDING_PAYMENT then Inl (BadRequest ''ORDER_NOT_PAYABLE'')
      else if (case latest of None \<Rightarrow> False | Some p \<Rightarrow> py_status p \<noteq> PY_PENDING \<and> py_status p \<noteq> PY_FAILED)
      then Inl (BadRequest ''ORDER_NOT_PAYABLE'')
      else if orderHasHeldItems items then Inl (BadRequest ''PAYMENT_HELD_PORTION_BLOCKED'')
      else Inr ())"

definition supersedePendingPaymentsForOrder :: "env \<Rightarrow> string \<Rightarrow> (db, unit) op" where
  "supersedePendingPaymentsForOrder env orderId =
     seqM (getM (\<lambda>s. pendingPayments s orderId)) (\<lambda>pending.
     seqM (forM (\<lambda>p. seqM (savePayment env (p\<lparr>py_status := PY_FAILED\<rparr>)) publishPaymentStatusUpdated) pending) (\<lambda>_. retM ()))"

text \<open>
  Phase A: the charges to cancel, a JavaScript \<open>Map\<close> from charge id to payment method: \<open>set\<close> keeps the
  place of a key that is present.
\<close>

fun setTarget :: "string \<Rightarrow> payment_method \<Rightarrow> (string \<times> payment_method) list \<Rightarrow> (string \<times> payment_method) list" where
  "setTarget i m [] = [(i, m)]"
| "setTarget i m ((j, n) # ts) = (if i = j then (i, m) # ts else (j, n) # setTarget i m ts)"

definition ownTargets :: "payment_row list \<Rightarrow> (string \<times> payment_method) list" where
  "ownTargets pending = fold (\<lambda>p ts. if truthy (py_omiseChargeId p)
     then setTarget (nullish (py_omiseChargeId p) []) (py_paymentMethod p) ts else ts) pending []"

definition fallbackMethod :: "payment_row list \<Rightarrow> payment_method" where
  "fallbackMethod pending =
     (case orElse (List.find (\<lambda>p. \<not> truthy (py_omiseChargeId p)) pending)
        (orElse (List.find (\<lambda>p. py_paymentMethod p = PM_PROMPTPAY) pending) (List.find (\<lambda>_. True) pending)) of
        None \<Rightarrow> PM_PROMPTPAY | Some p \<Rightarrow> py_paymentMethod p)"

definition chargeTargets :: "order_row \<Rightarrow> payment_row list \<Rightarrow> (string \<times> payment_method) list" where
  "chargeTargets ord pending =
     (let targets = ownTargets pending;
          needsFallback = (list_ex (\<lambda>p. \<not> truthy (py_omiseChargeId p)) pending \<or> targets = []);
          ref = nullish (o_paymentReference ord) []
      in if needsFallback \<and> ref \<noteq> [] \<and> ref \<notin> fst ` set targets
         then setTarget ref (fallbackMethod pending) targets else targets)"

definition cancelPendingOmiseChargesForOrder :: "charge_api \<Rightarrow> order_row \<Rightarrow> (db, unit) op" where
  "cancelPendingOmiseChargesForOrder api ord =
     seqM (getM (\<lambda>s. pendingPayments s (o_id ord))) (\<lambda>pending.
       if pending = [] \<or> ca_secretKey api = [] then retM ()
       else seqM (forM (\<lambda>(chargeId, m). cancelOmiseChargeBestEffort api chargeId m) (chargeTargets ord pending)) (\<lambda>_. retM ()))"

text \<open>\<open>build-omise-return-uri.ts\<close> and \<open>applyOmiseReturnUri\<close>\<close>

definition buildOmiseReturnUri :: "string \<Rightarrow> string \<Rightarrow> string result" where
  "buildOmiseReturnUri storefrontUrl paymentId =
     (let origin = (if storefrontUrl \<noteq> [] \<and> last storefrontUrl = CHR ''/'' then butlast storefrontUrl else storefrontUrl)
      in if origin = [] then Inl (Failure ''STOREFRONT_URL_EMPTY'') else Inr (origin @ ''/payment/'' @ paymentId))"

definition applyOmiseReturnUri :: "payment_config \<Rightarrow> charge_body \<Rightarrow> string \<Rightarrow> charge_body result" where
  "applyOmiseReturnUri config body paymentId =
     (if js_trim (nullish (pf_storefrontUrl config) []) = [] then Inl (BadRequest ''STOREFRONT_URL_NOT_CONFIGURED'')
      else case buildOmiseReturnUri (nullish (pf_storefrontUrl config) []) paymentId of
             Inl _ \<Rightarrow> Inl (BadRequest ''STOREFRONT_URL_NOT_CONFIGURED'')
           | Inr uri \<Rightarrow> Inr (body\<lparr>cb_returnUri := Some uri\<rparr>))"

definition savedCard :: "db \<Rightarrow> string \<Rightarrow> string option \<Rightarrow> (string \<times> string) result" where
  "savedCard s methodId customerId =
     (if \<not> truthy customerId then Inl (BadRequest ''CUSTOMER_REQUIRED'')
      else case List.find (\<lambda>m. sm_id m = methodId \<and> sm_customerId m = nullish customerId [] \<and> sm_deletedAt m = None) (dbSavedMethods s) of
             None \<Rightarrow> Inl (BadRequest ''PAYMENT_METHOD_NOT_FOUND'')
           | Some m \<Rightarrow> (case Option.bind (findCustomerById s (nullish customerId [])) c_omiseCustomerId of
                          None \<Rightarrow> Inl (BadRequest ''OMISE_CUSTOMER_NOT_FOUND'')
                        | Some oc \<Rightarrow> if oc = [] then Inl (BadRequest ''OMISE_CUSTOMER_NOT_FOUND'')
                                    else Inr (oc, sm_omiseCardToken m)))"

definition chargeBody ::
    "env \<Rightarrow> payment_config \<Rightarrow> create_charge \<Rightarrow> payment_method \<Rightarrow> int \<Rightarrow> string \<Rightarrow> db \<Rightarrow> charge_body result" where
  "chargeBody env config dto m amountSatang paymentId s =
     (let body = \<lparr>cb_amount = amountSatang, cb_currency = js_lower (cc_currency dto), cb_source = None, cb_expiresAt = None,
            cb_customer = None, cb_card = None, cb_returnUri = None\<rparr>
      in if m = PM_PROMPTPAY
         then Inr (body\<lparr>cb_source := Some (''promptpay'', None), cb_expiresAt := Some (computeQrExpiresAt config (envNow env))\<rparr>)
         else if m = PM_CREDIT_CARD then
           (if truthy (cc_savedPaymentMethodId dto)
            then (case savedCard s (nullish (cc_savedPaymentMethodId dto) []) (cc_customerId dto) of
                    Inl e \<Rightarrow> Inl e
                  | Inr (customer, token) \<Rightarrow>
                      applyOmiseReturnUri config (body\<lparr>cb_customer := Some customer, cb_card := Some token\<rparr>) paymentId)
            else if truthy (cc_omiseToken dto)
            then applyOmiseReturnUri config (body\<lparr>cb_card := cc_omiseToken dto\<rparr>) paymentId
            else Inl (BadRequest ''CARD_TOKEN_REQUIRED''))
         else if isOmiseWalletPaymentMethod m
         then applyOmiseReturnUri config (body\<lparr>cb_source := Some (resolveOmiseWalletSource m (cc_platformType dto))\<rparr>) paymentId
         else Inr body)"

definition appendPaymentMethodChangedIfNeeded :: "env \<Rightarrow> order_row \<Rightarrow> payment_method \<Rightarrow> payment_method \<Rightarrow> (db, unit) op" where
  "appendPaymentMethodChangedIfNeeded env ord previous next =
     (if previous = next then retM ()
      else seqM (getM (\<lambda>s. resolveCustomerActorLabel s (o_customerId ord) (o_guestName ord))) (\<lambda>label.
        appendAudit env (o_id ord) AE_PAYMENT_METHOD_CHANGED AA_customer (o_customerId ord) (Some label) None
          (JObj [(''previousPaymentMethod'', JStr (payment_method_text previous)),
                 (''newPaymentMethod'', JStr (payment_method_text next))])))"

definition newPaymentRow :: "env \<Rightarrow> string \<Rightarrow> string \<Rightarrow> money \<Rightarrow> string \<Rightarrow> payment_method \<Rightarrow> payment_row" where
  "newPaymentRow env i orderId amount currency m =
     \<lparr>py_id = i, py_orderId = orderId, py_amount = amount, py_currency = currency, py_paymentMethod = m,
      py_status = PY_PENDING, py_authorizeUri = None, py_qrCodeUrl = None, py_expiresAt = None, py_omiseChargeId = None,
      py_createdAt = envNow env, py_updatedAt = envNow env\<rparr>"

fun payment_status_text :: "payment_status \<Rightarrow> string" where
  "payment_status_text PY_PENDING = ''pending''"
| "payment_status_text PY_PAID = ''paid''"
| "payment_status_text PY_FAILED = ''failed''"
| "payment_status_text PY_REFUNDED = ''refunded''"

text \<open>The order takes the method and the reference of the new payment.\<close>

definition pointOrder :: "env \<Rightarrow> order_row \<Rightarrow> payment_method \<Rightarrow> string option \<Rightarrow> (db, order_row) op" where
  "pointOrder env ord m ref =
     (let next = ord\<lparr>o_paymentMethod := m, o_paymentReference := ref\<rparr> in
      seqM (saveOrder env next) (\<lambda>_.
      seqM (appendPaymentMethodChangedIfNeeded env next (o_paymentMethod ord) m) (\<lambda>_. retM next)))"

definition createOffline :: "env \<Rightarrow> payment_config \<Rightarrow> create_charge \<Rightarrow> payment_method \<Rightarrow> order_row \<Rightarrow> (db, charge_result) op" where
  "createOffline env config dto m ord =
     seqM (liftM (if m = PM_BANK_TRANSFER then assertBankTransferConfigured config else Inr ())) (\<lambda>_.
     seqM (freshId env) (\<lambda>i.
     seqM (savePayment env (newPaymentRow env i (cc_orderId dto) (o_total ord) (cc_currency dto) m)) (\<lambda>payment.
     seqM (pointOrder env ord m None) (\<lambda>_.
       retM \<lparr>cr_paymentId = py_id payment, cr_status = ''pending'', cr_amount = o_total ord, cr_currency = cc_currency dto,
             cr_paymentMethod = m, cr_authorizeUri = None, cr_qrCodeUrl = None, cr_expiresAt = None\<rparr>))))"

definition requestCharge :: "charge_api \<Rightarrow> string \<Rightarrow> charge_body \<Rightarrow> (db, charge) op" where
  "requestCharge api paymentId body =
     seqM (getM (\<lambda>s. ca_create api (length (dbEffects s)) body)) (\<lambda>answer.
     seqM (emit (ChargeRequested paymentId (cb_amount body))) (\<lambda>_.
       case answer of Inl e \<Rightarrow> raiseM (gatewayExn e) | Inr c \<Rightarrow> retM c))"

text \<open>The second component is \<open>paidImmediately\<close>.\<close>

definition createOnline ::
    "env \<Rightarrow> payment_config \<Rightarrow> charge_api \<Rightarrow> create_charge \<Rightarrow> payment_method \<Rightarrow> order_row
       \<Rightarrow> (db, charge_result \<times> (order_row \<times> payment_row \<times> string) option) op" where
  "createOnline env config api dto m ord =
     seqM (failIf (ca_secretKey api = []) (BadRequest ''OMISE_NOT_CONFIGURED'')) (\<lambda>_.
     seqM (freshId env) (\<lambda>i.
     seqM (savePayment env (newPaymentRow env i (cc_orderId dto) (o_total ord) (cc_currency dto) m)) (\<lambda>created.
     seqM (readM (chargeBody env config dto m (js_round (o_total ord * 100)) i)) (\<lambda>body.
     seqM (requestCharge api i body) (\<lambda>c.
     (let expiresAt = (if m = PM_PROMPTPAY then Some (computeQrExpiresAt config (envNow env)) else None);
          status = (if ch_status c = ''failed'' then PY_FAILED else PY_PENDING)
      in seqM (savePayment env (created\<lparr>py_omiseChargeId := Some (ch_id c), py_status := status,
                 py_authorizeUri := ch_authorizeUri c, py_qrCodeUrl := ch_qrCodeUrl c, py_expiresAt := expiresAt\<rparr>)) (\<lambda>payment.
         seqM (pointOrder env ord m (Some (ch_id c))) (\<lambda>ord'.
         seqM (if status = PY_FAILED
               then seqM (publishPaymentStatusUpdated payment) (\<lambda>_. emit (VendorWebhook (o_id ord) ''order.payment_failed''))
               else retM ()) (\<lambda>_.
           retM (\<lparr>cr_paymentId = i, cr_status = (if ch_status c = ''successful'' then ''paid'' else payment_status_text status),
                   cr_amount = o_total ord, cr_currency = cc_currency dto, cr_paymentMethod = m,
                   cr_authorizeUri = ch_authorizeUri c, cr_qrCodeUrl = ch_qrCodeUrl c, cr_expiresAt = expiresAt\<rparr>,
                 if ch_status c = ''successful'' then Some (ord', payment, ch_id c) else None))))))))))"

text \<open>Phase B: what runs under the lock of the order row.\<close>

definition chargeUnderLock ::
    "env \<Rightarrow> payment_config \<Rightarrow> charge_api \<Rightarrow> create_charge \<Rightarrow> payment_method
       \<Rightarrow> (db, charge_result \<times> (order_row \<times> payment_row \<times> string) option) op" where
  "chargeUnderLock env config api dto m =
     seqM (getM (\<lambda>s. (findOrder s (cc_orderId dto), orderItems s (cc_orderId dto), latestPayment s (cc_orderId dto)))) (\<lambda>(found, items, latest).
       case found of
         None \<Rightarrow> raiseM (BadRequest ''ORDER_NOT_FOUND'')
       | Some ord \<Rightarrow>
           seqM (liftM (assertOrderPayableForCreate ord items latest)) (\<lambda>_.
           seqM (supersedePendingPaymentsForOrder env (cc_orderId dto)) (\<lambda>_.
           seqM (failIf (o_total ord < 0) (BadRequest ''INVALID_ORDER_TOTAL'')) (\<lambda>_.
             if isNonOmiseCheckoutPaymentMethod m
             then seqM (createOffline env config dto m ord) (\<lambda>r. retM (r, None))
             else createOnline env config api dto m ord))))"


section \<open>Marking an order paid\<close>

text \<open>
  The audience of a dashboard event: the stores of the order and their owners, a store that is gone being
  skipped.
\<close>

definition orderAudience :: "db \<Rightarrow> string \<Rightarrow> string list \<times> string list" where
  "orderAudience s orderId =
     (let storeIds = uniq (filter (\<lambda>i. i \<noteq> []) (map oi_storeId (orderItems s orderId)))
      in (storeIds, filter (\<lambda>i. i \<noteq> []) (concat (map (\<lambda>i. case liveStore s i of None \<Rightarrow> [] | Some st \<Rightarrow> [st_ownerId st]) storeIds))))"

definition publishOrderPaidActivity :: "string \<Rightarrow> (db, unit) op" where
  "publishOrderPaidActivity orderId = seqM (getM (\<lambda>s. orderAudience s orderId)) (\<lambda>(storeIds, ownerIds).
     emit (DashboardOrder orderId (case storeIds of [] \<Rightarrow> None | i # _ \<Rightarrow> Some i) ownerIds))"

definition publishBankTransferActivity :: "string \<Rightarrow> (db, unit) op" where
  "publishBankTransferActivity orderId = seqM (getM (\<lambda>s. orderAudience s orderId)) (\<lambda>(storeIds, ownerIds).
     emit (DashboardBankTransfer orderId (case storeIds of [] \<Rightarrow> None | i # _ \<Rightarrow> Some i) ownerIds))"

definition markOrderPaid :: "env \<Rightarrow> order_row \<Rightarrow> payment_row \<Rightarrow> string \<Rightarrow> (db, unit) op" where
  "markOrderPaid env ord payment chargeId =
     seqM (txnM
       (seqM (savePayment env (payment\<lparr>py_status := PY_PAID\<rparr>)) (\<lambda>paid.
        seqM (saveOrder env (ord\<lparr>o_status := OS_PAID, o_paymentReference := Some chargeId, o_paidAt := Some (envNow env)\<rparr>)) (\<lambda>_.
          retM paid)))) (\<lambda>paid.
     seqM (publishPaymentStatusUpdated paid) (\<lambda>_.
     seqM (notifyOrderPaid env (o_id ord)) (\<lambda>_.
     seqM (emit (VendorWebhook (o_id ord) ''order.paid'')) (\<lambda>_.
       publishOrderPaidActivity (o_id ord)))))"

definition createCharge ::
    "env \<Rightarrow> (string \<Rightarrow> string) \<Rightarrow> payment_config \<Rightarrow> charge_api \<Rightarrow> create_charge \<Rightarrow> (db, charge_result) op" where
  "createCharge env hash config api dto =
     seqM (liftM (normalizeCheckoutPaymentMethod (cc_paymentMethod dto))) (\<lambda>m.
     seqM (assertCanPayForOrder env hash (cc_orderId dto) (cc_customerId dto) (cc_guestPayToken dto)) (\<lambda>(ord, items).
     seqM (getM (\<lambda>s. latestPayment s (cc_orderId dto))) (\<lambda>latest.
     seqM (liftM (assertOrderPayableForCreate ord items latest)) (\<lambda>_.
     seqM (cancelPendingOmiseChargesForOrder api ord) (\<lambda>_.
     seqM (txnSent (chargeUnderLock env config api dto m)) (\<lambda>(r, paidImmediately). case paidImmediately of
       None \<Rightarrow> retM r
     | Some (ord', payment, chargeId) \<Rightarrow> seqM (markOrderPaid env ord' payment chargeId) (\<lambda>_. retM r)))))))"

section \<open>Webhooks\<close>

text \<open>
  \<open>omise-webhook.util.ts\<close>. \<open>hmac secret text\<close> is the hexadecimal HMAC-SHA256 under the decoded
  secret. \<open>parseInt\<close> reads white space, a sign and the leading digits; \<open>Buffer.from(_, 'hex')\<close>
  decodes pairs up to the first that is not hexadecimal; \<open>timingSafeEqual\<close> throws on unequal lengths.
\<close>

definition isDigit :: "char \<Rightarrow> bool" where
  "isDigit c \<longleftrightarrow> 48 \<le> (of_char c :: nat) \<and> (of_char c :: nat) \<le> 57"

definition digitsValue :: "string \<Rightarrow> int" where
  "digitsValue = foldl (\<lambda>n c. 10 * n + (int (of_char c) - 48)) 0"

definition parseInt :: "string \<Rightarrow> int option" where
  "parseInt t =
     (let u = dropWhile js_ws t;
          negative = (u \<noteq> [] \<and> hd u = CHR ''-'');
          digits = takeWhile isDigit (if u \<noteq> [] \<and> (hd u = CHR ''-'' \<or> hd u = CHR ''+'') then tl u else u)
      in if digits = [] then None else Some (if negative then - digitsValue digits else digitsValue digits))"

definition hexValue :: "char \<Rightarrow> nat option" where
  "hexValue c = (let n = (of_char c :: nat) in
     if 48 \<le> n \<and> n \<le> 57 then Some (n - 48)
     else if 65 \<le> n \<and> n \<le> 70 then Some (n - 55)
     else if 97 \<le> n \<and> n \<le> 102 then Some (n - 87) else None)"

fun hexBytes :: "string \<Rightarrow> nat list" where
  "hexBytes (a # b # t) = (case (hexValue a, hexValue b) of
     (Some x, Some y) \<Rightarrow> (16 * x + y) # hexBytes t | _ \<Rightarrow> [])"
| "hexBytes _ = []"

definition timingSafeEqualHex :: "string \<Rightarrow> string \<Rightarrow> bool" where
  "timingSafeEqualHex a b \<longleftrightarrow> length a = length b \<and> hexBytes a = hexBytes b"

definition isTimestampFresh :: "date \<Rightarrow> string \<Rightarrow> bool" where
  "isTimestampFresh now timestamp = (case parseInt timestamp of
     None \<Rightarrow> False
   | Some sec \<Rightarrow> now - sec * 1000 \<le> 5 * 60 * 1000 \<and> - (60 * 1000) \<le> now - sec * 1000)"

definition computeOmiseWebhookSignature :: "(string \<Rightarrow> string \<Rightarrow> string) \<Rightarrow> string \<Rightarrow> string \<Rightarrow> string \<Rightarrow> string" where
  "computeOmiseWebhookSignature hmac rawBody timestamp secret = hmac secret (timestamp @ ''.'' @ rawBody)"

definition verifyOmiseWebhookSignature ::
    "(string \<Rightarrow> string \<Rightarrow> string) \<Rightarrow> date \<Rightarrow> string \<Rightarrow> string option \<Rightarrow> string option \<Rightarrow> string \<Rightarrow> bool" where
  "verifyOmiseWebhookSignature hmac now rawBody timestamp signatureHeader secret =
     (if \<not> truthy timestamp \<or> \<not> truthy signatureHeader then False
      else if \<not> isTimestampFresh now (nullish timestamp []) then False
      else (let expected = computeOmiseWebhookSignature hmac rawBody (nullish timestamp []) secret
            in list_ex (\<lambda>sig. timingSafeEqualHex sig expected) (map js_trim (splitOn (CHR '','') (nullish signatureHeader [])))))"

record omise_event =
  ev_key :: "string option"
  ev_object :: "string option"
  ev_id :: "string option"
  ev_status :: "string option"
  ev_paid :: "bool option"
  ev_verified :: "bool option"
  ev_active :: "bool option"
  ev_failureCode :: "string option"
  ev_failureMessage :: "string option"

definition transferEvent :: "omise_event \<Rightarrow> transfer_event" where
  "transferEvent ev = \<lparr>te_key = ev_key ev, te_object = ev_object ev, te_id = ev_id ev, te_paid = ev_paid ev,
     te_failureCode = ev_failureCode ev, te_failureMessage = ev_failureMessage ev\<rparr>"

definition recipientEvent :: "omise_event \<Rightarrow> recipient_event" where
  "recipientEvent ev = \<lparr>re_object = ev_object ev, re_id = ev_id ev, re_verified = ev_verified ev, re_active = ev_active ev\<rparr>"

definition orderOfCharge :: "db \<Rightarrow> string \<Rightarrow> order_row option" where
  "orderOfCharge s chargeId = List.find (\<lambda>ord. o_paymentReference ord = Some chargeId) (dbOrders s)"

text \<open>
  What the event and the charge fetched anew ask for. \<open>fetched\<close> is the answer of the gateway, if the
  service has a key.
\<close>

datatype charge_verdict = CV_Ignore | CV_Paid | CV_Failed

definition webhookIgnored :: "omise_event \<Rightarrow> order_row \<Rightarrow> payment_row \<Rightarrow> bool" where
  "webhookIgnored ev ord payment \<longleftrightarrow>
     ev_key ev = Some ''charge.complete'' \<and>
       (o_status ord = OS_PAID \<or> py_status payment = PY_PAID \<or> o_status ord = OS_CANCELLED \<or> o_status ord = OS_REFUNDED) \<or>
     (ev_key ev = Some ''charge.fail'' \<or> ev_status ev = Some ''failed'') \<and>
       (o_status ord = OS_CANCELLED \<or> o_status ord = OS_REFUNDED)"

definition chargeVerdict :: "omise_event \<Rightarrow> order_row \<Rightarrow> charge option \<Rightarrow> charge_verdict" where
  "chargeVerdict ev ord fetched =
     (let status = (case fetched of None \<Rightarrow> ev_status ev | Some c \<Rightarrow> Some (ch_status c));
          amount = (case fetched of None \<Rightarrow> None | Some c \<Rightarrow> ch_amount c)
      in if ev_key ev = Some ''charge.complete'' \<and> status = Some ''successful''
         then (if amount = Some (js_round (o_total ord * 100)) then CV_Paid else CV_Ignore)
         else if ev_key ev = Some ''charge.fail'' \<or> status = Some ''failed'' then CV_Failed
         else CV_Ignore)"

definition failCharge :: "env \<Rightarrow> order_row \<Rightarrow> payment_row \<Rightarrow> string \<Rightarrow> (db, unit) op" where
  "failCharge env ord payment chargeId =
     seqM (txnM
       (seqM (savePayment env (payment\<lparr>py_status := PY_FAILED\<rparr>)) (\<lambda>failed.
        seqM (if o_paymentReference ord = Some chargeId
              then saveOrder env (ord\<lparr>o_paymentReference := None\<rparr>) else retM ()) (\<lambda>_. retM failed)))) (\<lambda>failed.
     seqM (publishPaymentStatusUpdated failed) (\<lambda>_.
       emit (VendorWebhook (o_id ord) ''order.payment_failed'')))"

definition handleChargeEvent :: "env \<Rightarrow> charge_api \<Rightarrow> omise_event \<Rightarrow> (db, unit) op" where
  "handleChargeEvent env api ev =
     (if \<not> truthy (ev_id ev) then retM ()
      else (let chargeId = nullish (ev_id ev) [] in
        seqM (getM (\<lambda>s. orderOfCharge s chargeId)) (\<lambda>found. case found of
          None \<Rightarrow> retM ()
        | Some ord \<Rightarrow> seqM (getM (\<lambda>s. latestPayment s (o_id ord))) (\<lambda>latest. case latest of
            None \<Rightarrow> retM ()
          | Some payment \<Rightarrow>
              if webhookIgnored ev ord payment then retM ()
              else seqM (getM (\<lambda>s. if ca_secretKey api \<noteq> []
                     then map_sum id Some (ca_get api (length (dbEffects s)) chargeId) else Inr None)) (\<lambda>answer. case answer of
                     Inl _ \<Rightarrow> retM ()
                   | Inr fetched \<Rightarrow> (case chargeVerdict ev ord fetched of
                       CV_Paid \<Rightarrow> markOrderPaid env ord payment chargeId
                     | CV_Failed \<Rightarrow> failCharge env ord payment chargeId
                     | CV_Ignore \<Rightarrow> retM ()))))))"

definition handleWebhook :: "env \<Rightarrow> charge_api \<Rightarrow> omise \<Rightarrow> omise_event \<Rightarrow> (db, unit) op" where
  "handleWebhook env api om ev =
     (if startsWith (nullish (ev_key ev) []) ''transfer.'' then handleOmiseTransferWebhook env om (transferEvent ev)
      else if startsWith (nullish (ev_key ev) []) ''recipient.'' then handleOmiseRecipientWebhook env om (recipientEvent ev)
      else handleChargeEvent env api ev)"

text \<open>The controller. \<open>raw\<close> is the body as received, \<open>ev\<close> the body as parsed.\<close>

definition handleOmiseWebhook ::
    "env \<Rightarrow> (string \<Rightarrow> string \<Rightarrow> string) \<Rightarrow> payment_config \<Rightarrow> charge_api \<Rightarrow> omise \<Rightarrow> string option \<Rightarrow> string option \<Rightarrow> string option
       \<Rightarrow> omise_event \<Rightarrow> (db, unit) op" where
  "handleOmiseWebhook env hmac config api om raw signature timestamp ev =
     seqM (failIf (raw = None) (BadRequest ''Missing raw request body'')) (\<lambda>_.
     seqM (failIf (pf_webhookSecret config = [] \<or>
             \<not> verifyOmiseWebhookSignature hmac (envNow env) (nullish raw []) timestamp signature (pf_webhookSecret config))
             (Unauthorized ''Invalid Omise webhook signature'')) (\<lambda>_.
       handleWebhook env api om ev))"

section \<open>Confirmation of a bank transfer\<close>

definition VENDOR_ADMIN_ACTOR_LABEL :: string where
  "VENDOR_ADMIN_ACTOR_LABEL = map (\<lambda>n. char_of (n :: nat))
     [224, 184, 156, 224, 184, 185, 224, 185, 137, 224, 184, 148, 224, 184, 185, 224, 185, 129, 224, 184, 165,
      224, 184, 163, 224, 184, 176, 224, 184, 154, 224, 184, 154] @ '' SOPET''"

definition confirmBankTransferPaid :: "env \<Rightarrow> string \<Rightarrow> string \<Rightarrow> string option \<Rightarrow> (db, order_view) op" where
  "confirmBankTransferPaid env orderId adminUserId remark =
     seqM (loadOrderWithItems orderId) (\<lambda>(ord, items).
     seqM (failIf (o_paymentMethod ord \<noteq> PM_BANK_TRANSFER) (BadRequest ''NOT_BANK_TRANSFER'')) (\<lambda>_.
     seqM (failIf (o_status ord \<noteq> OS_PENDING_PAYMENT) (BadRequest ''INVALID_ORDER_STATUS'')) (\<lambda>_.
     seqM (getM (\<lambda>s. latestPayment s orderId)) (\<lambda>latest. case latest of
       None \<Rightarrow> raiseM (BadRequest ''PAYMENT_NOT_CONFIRMABLE'')
     | Some payment \<Rightarrow>
         seqM (failIf (py_status payment = PY_PAID) (BadRequest ''PAYMENT_NOT_CONFIRMABLE'')) (\<lambda>_.
         seqM (failIf (py_paymentMethod payment \<noteq> PM_BANK_TRANSFER) (BadRequest ''NOT_BANK_TRANSFER'')) (\<lambda>_.
         (let nextStatus = deriveOrderStatusFromFulfillment OS_PAID (statusesOf items);
              note_text = js_trim (nullish remark []);
              paidOrder = ord\<lparr>o_status := nextStatus, o_paymentReference := Some (''bank_transfer:'' @ adminUserId),
                o_paidAt := Some (nullish (o_paidAt ord) (envNow env))\<rparr>
          in seqM (txnM
               (seqM (savePayment env (payment\<lparr>py_status := PY_PAID\<rparr>)) (\<lambda>paid.
                seqM (saveOrder env paidOrder) (\<lambda>_.
                seqM (addHistory env orderId nextStatus (Some adminUserId)
                        (if note_text \<noteq> [] then ''Admin confirmed bank transfer: '' @ note_text
                         else ''Admin confirmed bank transfer paid'')) (\<lambda>_.
                seqM (appendAudit env orderId AE_PAYMENT_APPROVED AA_admin (Some adminUserId) (Some VENDOR_ADMIN_ACTOR_LABEL) None
                        (JObj [(''approvalMethod'', JStr ''manual_bank_transfer''),
                               (''note'', if note_text \<noteq> [] then JStr note_text else JNull)])) (\<lambda>_.
                  retM paid)))))) (\<lambda>paid.
             seqM (publishPaymentStatusUpdated paid) (\<lambda>_.
             seqM (notifyOrderPaid env orderId) (\<lambda>_.
             seqM (emit (VendorWebhook orderId ''order.paid'')) (\<lambda>_.
             seqM (publishBankTransferActivity orderId) (\<lambda>_.
               getM (\<lambda>s. (nullish (findOrder s orderId) paidOrder, items))))))))))))))"

section \<open>The expiry job\<close>

text \<open>One run of \<open>PaymentExpiryScheduler\<close>; each part has its own \<open>try\<close>.\<close>

definition runExpiryCheck :: "env \<Rightarrow> payment_config \<Rightarrow> charge_api \<Rightarrow> int option \<Rightarrow> (db, unit) op" where
  "runExpiryCheck env config api slaMs =
     seqM (catchM (seqM (expirePendingQrPayments env config api) (\<lambda>_. retM ())) (\<lambda>_. retM ())) (\<lambda>_.
     seqM (catchM (seqM (cancelStaleUnpaidOrders env config (envNow env)) (\<lambda>_. retM ())) (\<lambda>_. retM ())) (\<lambda>_.
       catchM (seqM (cancelExpiredHeldItems env slaMs) (\<lambda>_. retM ())) (\<lambda>_. retM ())))"

end
