(* ===== verification/Payment_Invariant.thy ===== *)
theory Payment_Invariant
  imports Payments Payout_Proofs Order_System
begin

text \<open>
  The invariant of the payments service, kept by each of its operations: ids of payments are unique, those still to be
  generated are unused, and an order has at most one pending payment. The step relation
  \<open>charge_step\<close> is every operation that writes payments.
\<close>

section \<open>Weakest preconditions\<close>

lemma savePayment_wp [wp]:
  "wp (savePayment env p) Q E s = Q (stampPayment env s p) (s\<lparr>dbPayments := saveRow py_id (stampPayment env s p) (dbPayments s)\<rparr>)"
  by (simp add: savePayment_def wp_def)

lemma txnSent_wp [wp]:
  "wp (txnSent m) Q E s = wp m Q (\<lambda>e t. E e (s\<lparr>idCount := idCount t, dbEffects := dbEffects t\<rparr>)) s"
  by (auto simp: wp_def txnSent_def split: prod.splits sum.splits)

lemma publishPaymentStatusUpdated_wp [wp]:
  "wp (publishPaymentStatusUpdated p) Q E s = Q () (s\<lparr>dbEffects := dbEffects s @ [PaymentUpdated (py_id p) (py_status p)]\<rparr>)"
  by (simp add: publishPaymentStatusUpdated_def wp)

lemma notifyOrderPaid_wp [wp]:
  "wp (notifyOrderPaid env i) Q E s =
     (let t = s\<lparr>dbEffects := dbEffects s @ [NotifyOrderPaid i]\<rparr> in
      if envMailFails env i then E (Failure ''Failed to send email'') t else Q () t)"
  by (simp add: notifyOrderPaid_def wp Let_def)

lemma stampPayment_simps [simp]:
  "py_id (stampPayment env s p) = py_id p" "py_orderId (stampPayment env s p) = py_orderId p"
  "py_amount (stampPayment env s p) = py_amount p" "py_currency (stampPayment env s p) = py_currency p"
  "py_paymentMethod (stampPayment env s p) = py_paymentMethod p" "py_status (stampPayment env s p) = py_status p"
  "py_createdAt (stampPayment env s p) = py_createdAt p" "py_omiseChargeId (stampPayment env s p) = py_omiseChargeId p"
  by (simp_all add: stampPayment_def)

lemma findPayment_id: "findPayment s i = Some p \<Longrightarrow> py_id p = i"
  unfolding findPayment_def by (rule payment_repo.byId_key)

lemma preserves_prod [pres]: "(\<And>a b. preserves I (f a b)) \<Longrightarrow> preserves I (case x of (a, b) \<Rightarrow> f a b)"
  by (cases x) simp

lemma preserves_sum [pres]:
  "(\<And>a. preserves I (f a)) \<Longrightarrow> (\<And>b. preserves I (g b)) \<Longrightarrow> preserves I (case x of Inl a \<Rightarrow> f a | Inr b \<Rightarrow> g b)"
  by (cases x) simp_all

lemma preserves_let [pres]: "preserves I (f a) \<Longrightarrow> preserves I (let x = a in f x)"
  by simp

section \<open>Operations that leave the payments alone\<close>

definition payFrame :: "payment_row list \<Rightarrow> nat \<Rightarrow> db \<Rightarrow> bool" where
  "payFrame ps n v \<longleftrightarrow> dbPayments v = ps \<and> n \<le> idCount v"

lemma payFrame_tick [simp]: "payFrame ps n v \<Longrightarrow> payFrame ps n (v\<lparr>idCount := Suc (idCount v)\<rparr>)"
  by (simp add: payFrame_def)

lemma payFrame_simps [simp]:
  "payFrame ps n (v\<lparr>dbEffects := a\<rparr>) = payFrame ps n v" "payFrame ps n (v\<lparr>dbOrders := b\<rparr>) = payFrame ps n v"
  "payFrame ps n (v\<lparr>dbItems := c\<rparr>) = payFrame ps n v" "payFrame ps n (v\<lparr>dbHistory := d\<rparr>) = payFrame ps n v"
  "payFrame ps n (v\<lparr>dbAudits := e\<rparr>) = payFrame ps n v" "payFrame ps n (v\<lparr>dbInventoryTxs := f\<rparr>) = payFrame ps n v"
  "payFrame ps n (v\<lparr>dbStores := g\<rparr>) = payFrame ps n v" "payFrame ps n (v\<lparr>dbPayouts := h\<rparr>) = payFrame ps n v"
  "payFrame ps n (setStock env i q v) = payFrame ps n v"
  by (simp_all add: payFrame_def setStock_def)

lemma payFrame_basic [pres]:
  "preserves (payFrame ps n) (saveOrder env ord)"
  "preserves (payFrame ps n) (saveItems env items)"
  "preserves (payFrame ps n) (addHistory env orderId status who what)"
  "preserves (payFrame ps n) (appendAudit env orderId event actor a l st details)"
  "preserves (payFrame ps n) (savePayout env p)"
  "preserves (payFrame ps n) (saveStore env store)"
  "preserves (payFrame ps n) (recordTx env v ty c af orderId rem)"
  by (auto simp: saveOrder_def saveItems_def addHistory_def appendAudit_def saveStore_def recordTx_def preserves_def savePayout_def
      intro!: pres split: if_splits)


lemma payFrame_emit [pres]:
  "preserves (payFrame ps n) (emit e)"
  "preserves (payFrame ps n) (freshId env)"
  "preserves (payFrame ps n) (notifyOrderPaid env i)"
  "preserves (payFrame ps n) (publishPaymentStatusUpdated p)"
  "preserves (payFrame ps n) (notifyOrderStatusChanged env i st)"
  by (auto simp: notifyOrderPaid_def publishPaymentStatusUpdated_def notifyOrderStatusChanged_def intro!: pres)

lemma payFrame_stock [pres]: "preserves (payFrame ps n) (restoreOrderStock env i reason)"
  unfolding restoreOrderStock_def restoreStockForItems_def restoreOne_def by (auto intro!: pres simp: Let_def)

lemma payFrame_cancel [pres]: "preserves (payFrame ps n) (cancelOmiseChargeBestEffort api c m)"
  unfolding cancelOmiseChargeBestEffort_def by (auto intro!: pres split: cancel_answer.split)

lemma payFrame_cancelAll [pres]: "preserves (payFrame ps n) (cancelPendingOmiseChargesForOrder api ord)"
  unfolding cancelPendingOmiseChargesForOrder_def by (auto intro!: pres)

lemma payFrame_point [pres]: "preserves (payFrame ps n) (pointOrder env ord m ref)"
  unfolding pointOrder_def appendPaymentMethodChangedIfNeeded_def by (auto intro!: pres)

lemma payFrame_activity [pres]:
  "preserves (payFrame ps n) (publishOrderPaidActivity i)"
  "preserves (payFrame ps n) (publishBankTransferActivity i)"
  unfolding publishOrderPaidActivity_def publishBankTransferActivity_def by (auto intro!: pres)

lemma payFrame_access [pres]:
  "preserves (payFrame ps n) (assertCanPayForOrder env hash i c g)"
  "preserves (payFrame ps n) (loadOrderWithItems i)"
  unfolding assertCanPayForOrder_def loadOrderWithItems_def by (auto intro!: pres)

lemma payFrame_transfer [pres]: "preserves (payFrame ps n) (handleOmiseTransferWebhook env om ev)"
  unfolding handleOmiseTransferWebhook_def by (auto intro!: pres)

lemma payFrame_recipient [pres]: "preserves (payFrame ps n) (handleOmiseRecipientWebhook env om ev)"
  unfolding handleOmiseRecipientWebhook_def applyOmiseRecipientSnapshot_def by (auto intro!: pres)

lemma payFrame_hold [pres]: "preserves (payFrame ps n) (cancelExpiredHeldItems env sla)"
  unfolding cancelExpiredHeldItems_def cancelExpiredHeldItemsForOrder_def batchStep_def recordExpiry_def restoreItemStock_def
    restoreStockForItems_def restoreOne_def
  by (auto intro!: pres simp: Let_def)

lemma payFrame_request [pres]: "preserves (payFrame ps n) (requestCharge api i body)"
  unfolding requestCharge_def by (auto intro!: pres)

section \<open>The invariant\<close>

definition chargeInv :: "env \<Rightarrow> db \<Rightarrow> bool" where
  "chargeInv env s \<longleftrightarrow> uniqueKey py_id (dbPayments s) \<and> inj (envUuid env) \<and>
     (\<forall>k \<ge> idCount s. envUuid env k \<notin> py_id ` set (dbPayments s)) \<and>
     (\<forall>orderId. length (pendingPayments s orderId) \<le> 1)"

text \<open>
  Who acts on payments, and what may become of the status of a payment when only the actors of a set act:
  it fails while it is pending, or at Omise's word; it is paid at Omise's word, or, by bank transfer, at an admin's.
  Nothing makes it pending again.
\<close>

datatype charge_actor = By_Customer | By_Omise | By_Admin | By_Vendor | By_Job

definition mayBecome :: "charge_actor set \<Rightarrow> payment_method \<Rightarrow> payment_status \<Rightarrow> payment_status \<Rightarrow> bool" where
  "mayBecome A m a b \<longleftrightarrow> b = a \<or>
     b = PY_FAILED \<and> (a = PY_PENDING \<or> By_Omise \<in> A) \<or>
     b = PY_PAID \<and> (By_Omise \<in> A \<or> By_Admin \<in> A \<and> m = PM_BANK_TRANSFER)"

text \<open>
  What happens to a payment: its order, amount, currency and method stay, and its status changes only as its
  actors may change it.
\<close>

definition samePayment :: "charge_actor set \<Rightarrow> payment_row \<Rightarrow> payment_row \<Rightarrow> bool" where
  "samePayment A p q \<longleftrightarrow> py_id q = py_id p \<and> py_orderId q = py_orderId p \<and> py_amount q = py_amount p \<and>
     py_currency q = py_currency p \<and> py_paymentMethod q = py_paymentMethod p \<and> py_createdAt q = py_createdAt p \<and>
     mayBecome A (py_paymentMethod p) (py_status p) (py_status q)"

definition settles :: "charge_actor set \<Rightarrow> db \<Rightarrow> db \<Rightarrow> bool" where
  "settles A s t \<longleftrightarrow> (\<forall>i p. findPayment s i = Some p \<longrightarrow> (\<exists>q. findPayment t i = Some q \<and> samePayment A p q))"

definition payKept :: "charge_actor set \<Rightarrow> env \<Rightarrow> db \<Rightarrow> db \<Rightarrow> bool" where
  "payKept A env s0 s \<longleftrightarrow> chargeInv env s \<and> settles A s0 s"

lemma samePayment_refl [simp]: "samePayment A p p"
  by (simp add: samePayment_def mayBecome_def)

lemma mayBecome_trans: "mayBecome A m a b \<Longrightarrow> mayBecome A m b c \<Longrightarrow> mayBecome A m a c"
  by (auto simp: mayBecome_def)

lemma never_pending_again: "mayBecome A m a PY_PENDING \<Longrightarrow> a = PY_PENDING"
  by (simp add: mayBecome_def)

lemma samePayment_trans: "samePayment A p q \<Longrightarrow> samePayment A q r \<Longrightarrow> samePayment A p r"
  by (auto simp: samePayment_def intro: mayBecome_trans)

lemma samePayment_stamp [simp]: "samePayment A p (stampPayment env s q) = samePayment A p q"
  by (simp add: samePayment_def)

lemma settles_refl [simp]: "settles A s s"
  by (simp add: settles_def)

lemma settles_trans: "settles A s t \<Longrightarrow> settles A t u \<Longrightarrow> settles A s u"
  unfolding settles_def by (meson samePayment_trans)

lemma payKept_refl: "chargeInv env s \<Longrightarrow> payKept A env s s"
  by (simp add: payKept_def)

lemma payKept_frame:
  assumes "payKept A env s0 s" and "dbPayments t = dbPayments s" and "idCount s \<le> idCount t"
  shows "payKept A env s0 t"
proof -
  have "pendingPayments t = pendingPayments s" "findPayment t = findPayment s"
    by (simp_all add: fun_eq_iff pendingPayments_def paymentsOf_def findPayment_def assms(2))
  then show ?thesis using assms by (auto simp: payKept_def chargeInv_def settles_def)
qed

lemma findPayment_save [simp]:
  "findPayment (s\<lparr>dbPayments := saveRow py_id p (dbPayments s)\<rparr>) i = (if i = py_id p then Some p else findPayment s i)"
  by (simp add: findPayment_def payment_repo.byId_save)

lemma findPayment_mem: "findPayment s i = Some p \<Longrightarrow> p \<in> set (dbPayments s)"
  unfolding findPayment_def by (rule payment_repo.byId_mem)

lemma payKept_update:
  assumes "payKept A env s0 s" and "findPayment s (py_id p) = Some q" and "samePayment A q p"
  shows "payKept A env s0 (s\<lparr>dbPayments := saveRow py_id p (dbPayments s)\<rparr>)"
proof -
  let ?f = "\<lambda>x. if py_id x = py_id p then p else x"
  let ?t = "s\<lparr>dbPayments := saveRow py_id p (dbPayments s)\<rparr>"
  have inv: "chargeInv env s" and u: "uniqueKey py_id (dbPayments s)" using assms(1) by (simp_all add: payKept_def chargeInv_def)
  have row: "saveRow py_id p (dbPayments s) = map ?f (dbPayments s)"
    using saveRow_present [OF _ u] assms(2) by (simp add: findPayment_def)
  have ids: "map py_id (map ?f (dbPayments s)) = map py_id (dbPayments s)" by auto
  have only: "x = q" if "x \<in> set (dbPayments s)" "py_id x = py_id p" for x
    using byKey_in [OF u that(1)] that(2) assms(2) by (simp add: findPayment_def)
  have le: "length (pendingPayments ?t o') \<le> 1" for o'
  proof -
    let ?Q = "\<lambda>x. py_orderId x = o' \<and> py_status x = PY_PENDING"
    have "?Q x" if "x \<in> set (dbPayments s)" "?Q (?f x)" for x
    proof (cases "py_id x = py_id p")
      case True
      then have "x = q" using only that(1) by blast
      with True that(2) assms(3) show ?thesis by (auto simp: samePayment_def dest: never_pending_again)
    qed (use that(2) in simp)
    note le = length_filter_map_le [of "dbPayments s" ?Q ?f, OF this]
    have now: "pendingPayments s o' = filter ?Q (dbPayments s)" by (simp add: pendingPayments_def paymentsOf_def)
    have "dbPayments ?t = map ?f (dbPayments s)" using row by simp
    then have later: "pendingPayments ?t o' = filter ?Q (map ?f (dbPayments s))"
      unfolding pendingPayments_def paymentsOf_def filter_filter by (rule arg_cong)
    have "length (filter ?Q (dbPayments s)) \<le> 1" using inv unfolding chargeInv_def now [symmetric] by blast
    with le show ?thesis unfolding later by (rule order_trans)
  qed
  have "py_id ` set (map ?f (dbPayments s)) = py_id ` set (dbPayments s)" using arg_cong [OF ids, of set] unfolding set_map .
  moreover have "uniqueKey py_id (map ?f (dbPayments s))" using u unfolding uniqueKey_def ids .
  ultimately have "chargeInv env ?t" using inv le unfolding chargeInv_def row by (simp del: set_map list.set_map)
  moreover have "settles A s ?t" using assms(2,3) by (auto simp: settles_def)
  ultimately show ?thesis using assms(1) by (auto simp: payKept_def intro: settles_trans)
qed

lemma payKept_insert:
  assumes "payKept A env s0 s" and "py_id p = envUuid env (idCount s)" and "pendingPayments s (py_orderId p) = []"
  shows "payKept A env s0 (s\<lparr>idCount := Suc (idCount s), dbPayments := saveRow py_id p (dbPayments s)\<rparr>)"
proof -
  let ?t = "s\<lparr>idCount := Suc (idCount s), dbPayments := saveRow py_id p (dbPayments s)\<rparr>"
  have inv: "chargeInv env s" using assms(1) by (simp add: payKept_def)
  have new: "py_id p \<notin> py_id ` set (dbPayments s)" using inv assms(2) by (simp add: chargeInv_def)
  have row: "saveRow py_id p (dbPayments s) = dbPayments s @ [p]" using new by (rule saveRow_map_other)
  have "length (pendingPayments ?t o') \<le> 1" for o'
    using inv assms(3) by (cases "o' = py_orderId p") (auto simp: pendingPayments_def paymentsOf_def row chargeInv_def)
  moreover have "uniqueKey py_id (dbPayments s @ [p])" using inv new by (auto simp: chargeInv_def uniqueKey_def)
  moreover have "envUuid env k \<notin> py_id ` set (dbPayments s @ [p])" if "Suc (idCount s) \<le> k" for k
    using inv that assms(2) by (auto simp: chargeInv_def inj_eq)
  ultimately have "chargeInv env ?t" using inv by (simp add: chargeInv_def row)
  moreover have "settles A s ?t"
    unfolding settles_def
  proof (intro allI impI)
    fix i q
    assume q: "findPayment s i = Some q"
    have "findPayment s (py_id p) = None" using new by (simp add: findPayment_def byKey_None_iff)
    with q have "i \<noteq> py_id p" by auto
    then show "\<exists>r. findPayment ?t i = Some r \<and> samePayment A q r" using q by (simp add: findPayment_def payment_repo.byId_save)
  qed
  ultimately show ?thesis using assms(1) by (auto simp: payKept_def intro: settles_trans)
qed


section \<open>Every operation keeps it\<close>

lemma wp_framed:
  assumes "\<And>ps n. preserves (payFrame ps n) m"
  shows "wp m (\<lambda>_ t. dbPayments t = dbPayments s \<and> idCount s \<le> idCount t)
    (\<lambda>_ t. dbPayments t = dbPayments s \<and> idCount s \<le> idCount t) s"
  using wp_preserves [OF assms, of "dbPayments s" "idCount s" s] unfolding payFrame_def by simp

lemma frame_closed:
  assumes "\<And>u v. I u \<Longrightarrow> dbPayments v = dbPayments u \<Longrightarrow> idCount u \<le> idCount v \<Longrightarrow> I v"
    and "\<And>ps n. preserves (payFrame ps n) m"
  shows "preserves I m"
  unfolding preserves_wp [of I] by (blast intro: wp_conseq [OF wp_framed [OF assms(2)]] assms(1))

lemma kept_of_frame: "(\<And>ps n. preserves (payFrame ps n) m) \<Longrightarrow> preserves (payKept A env s0) m"
  by (rule frame_closed) (rule payKept_frame)

lemmas kept_frames = payFrame_basic [THEN kept_of_frame] payFrame_emit [THEN kept_of_frame]
  payFrame_stock [THEN kept_of_frame] payFrame_cancel [THEN kept_of_frame] payFrame_cancelAll [THEN kept_of_frame]
  payFrame_point [THEN kept_of_frame] payFrame_activity [THEN kept_of_frame] payFrame_access [THEN kept_of_frame]
  payFrame_transfer [THEN kept_of_frame] payFrame_recipient [THEN kept_of_frame] payFrame_hold [THEN kept_of_frame]
  payFrame_request [THEN kept_of_frame]

lemma payKept_trans: "payKept A env s0 s \<Longrightarrow> payKept A env s t \<Longrightarrow> payKept A env s0 t"
  by (auto simp: payKept_def intro: settles_trans)

lemma unknown_before: "payKept A env s0 s \<Longrightarrow> findPayment s i = None \<Longrightarrow> findPayment s0 i = None"
  by (cases "findPayment s0 i") (auto simp: payKept_def settles_def dest: spec [of _ i])

lemma payKept_self: "payKept A env s0 s \<Longrightarrow> payKept A env s s"
  by (simp add: payKept_def)

text \<open>Saving a settled form of a payment that was known at the start.\<close>

definition known :: "db \<Rightarrow> payment_row \<Rightarrow> bool" where
  "known s p \<longleftrightarrow> findPayment s (py_id p) = Some p"

lemma known_mem: "chargeInv env s \<Longrightarrow> p \<in> set (dbPayments s) \<Longrightarrow> known s p"
  unfolding known_def findPayment_def by (rule byKey_in) (simp_all add: chargeInv_def)

lemma failed_same: "py_status p = PY_PENDING \<or> By_Omise \<in> A \<Longrightarrow> samePayment A p (p\<lparr>py_status := PY_FAILED\<rparr>)"
  by (auto simp: samePayment_def mayBecome_def)

lemma paid_same: "By_Omise \<in> A \<or> By_Admin \<in> A \<and> py_paymentMethod p = PM_BANK_TRANSFER \<Longrightarrow>
    samePayment A p (p\<lparr>py_status := PY_PAID\<rparr>)"
  by (auto simp: samePayment_def mayBecome_def)

lemma anyone: "samePayment A p q \<Longrightarrow> samePayment UNIV p q"
  by (auto simp: samePayment_def mayBecome_def)

lemma payKept_settle:
  assumes t: "payKept A env0 s0 t" and p: "known s0 p" "samePayment A p p'" "py_status p' \<in> {PY_FAILED, PY_PAID}"
  shows "payKept A env0 s0 (t\<lparr>dbPayments := saveRow py_id p' (dbPayments t)\<rparr>)"
proof -
  let ?t = "t\<lparr>dbPayments := saveRow py_id p' (dbPayments t)\<rparr>"
  have id: "py_id p' = py_id p" using p(2) by (simp add: samePayment_def)
  obtain q where q: "findPayment t (py_id p) = Some q" "samePayment A p q" using p(1) t by (auto simp: payKept_def settles_def known_def)
  have "samePayment UNIV q p'" using q(2) p(2,3) by (auto simp: samePayment_def mayBecome_def)
  moreover have "payKept UNIV env0 t t" using t by (simp add: payKept_def)
  ultimately have "chargeInv env0 ?t" using payKept_update [of UNIV env0 t t p' q] q(1) id by (simp add: payKept_def)
  moreover have "settles A s0 ?t" using t p(1,2) id by (auto simp: payKept_def settles_def known_def)
  ultimately show ?thesis by (simp add: payKept_def)
qed

lemma save_known:
  assumes "known s0 p" and "samePayment A p p'" and "py_status p' \<in> {PY_FAILED, PY_PAID}"
  shows "preserves (payKept A env0 s0) (savePayment env p')"
  by (rule preservesI) (use payKept_settle [OF _ assms(1), of A env0 _ "stampPayment env _ p'"] assms(2,3) in
      \<open>simp add: savePayment_def\<close>)

lemmas save_failed = save_known [OF _ failed_same] and save_paid = save_known [OF _ paid_same]

lemma finalize_kept: "known s0 p \<Longrightarrow> preserves (payKept A env0 s0) (finalizeExpiredPayment env api p)"
  unfolding finalizeExpiredPayment_def Let_def by (auto intro!: pres save_failed kept_frames)

lemma expireIfNeeded_kept: "known s0 p \<Longrightarrow> preserves (payKept A env0 s0) (expirePendingQrPaymentIfNeeded env config api p)"
  unfolding expirePendingQrPaymentIfNeeded_def by (auto intro!: pres finalize_kept)

lemma markPaid_kept: "By_Omise \<in> A \<Longrightarrow> known s0 p \<Longrightarrow> preserves (payKept A env0 s0) (markOrderPaid env ord p c)"
  unfolding markOrderPaid_def by (auto intro!: pres save_paid kept_frames)

lemma failCharge_kept: "By_Omise \<in> A \<Longrightarrow> known s0 p \<Longrightarrow> preserves (payKept A env0 s0) (failCharge env ord p c)"
  unfolding failCharge_def by (auto intro!: pres save_failed kept_frames)

lemma preserves_forM_set: "(\<And>x. x \<in> set xs \<Longrightarrow> preserves I (f x)) \<Longrightarrow> preserves I (forM f xs)"
  by (induction xs) (auto intro!: pres)

lemma cancelOrder_kept:
  assumes "\<And>p. p \<in> set payments \<Longrightarrow> known s0 p"
  shows "preserves (payKept A env0 s0) (cancelOrderRestoreStockAndFailPayments env ord payments reason)"
proof -
  have "preserves (payKept A env0 s0) (forM (failIfPending env) payments)"
    by (rule preserves_forM_set) (auto simp: failIfPending_def intro!: pres save_failed assms)
  then show ?thesis unfolding cancelOrderRestoreStockAndFailPayments_def by (auto intro!: pres kept_frames)
qed

text \<open>Reads of the state the operation starts in, or has reached.\<close>

lemma kept_get:
  assumes "\<And>s. payKept A env s0 s \<Longrightarrow> preserves (payKept A env s) (f (g s))"
  shows "preserves (payKept A env s0) (seqM (getM g) f)"
proof (rule preservesI)
  fix s
  assume s: "payKept A env s0 s"
  from preservesD [OF assms [OF s] payKept_self [OF s], of "fst (f (g s) s)" "snd (f (g s) s)"]
  show "payKept A env s0 (snd (seqM (getM g) f s))" using payKept_trans [OF s] by simp
qed

lemma latest_known: "payKept A env s0 s \<Longrightarrow> latestPayment s i = Some p \<Longrightarrow> known s p"
  unfolding latestPayment_def by (drule find_Some_in) (auto simp: paymentsOf_def payKept_def intro: known_mem)

lemma found_known: "findPayment s i = Some p \<Longrightarrow> known s p"
  using findPayment_id by (auto simp: known_def)

lemma preserves_found:
  "(a = None \<Longrightarrow> preserves I m) \<Longrightarrow> (\<And>x. a = Some x \<Longrightarrow> preserves I (f x)) \<Longrightarrow>
     preserves I (case a of None \<Rightarrow> m | Some x \<Rightarrow> f x)"
  by (cases a) simp_all

lemma handleCharge_kept: "By_Omise \<in> A \<Longrightarrow> preserves (payKept A env0 s0) (handleChargeEvent env api ev)"
proof -
  assume omise: "By_Omise \<in> A"
  have event: "preserves (payKept A env0 s) (seqM (getM g) (\<lambda>answer. case answer of Inl e \<Rightarrow> retM ()
       | Inr fetched \<Rightarrow> (case chargeVerdict ev ord fetched of CV_Paid \<Rightarrow> markOrderPaid env ord p c
          | CV_Failed \<Rightarrow> failCharge env ord p c | CV_Ignore \<Rightarrow> retM ())))" if "known s p" for s p ord c and g :: "db \<Rightarrow> gateway_error + charge option"
    by (auto intro!: pres markPaid_kept [OF omise that] failCharge_kept [OF omise that] split: charge_verdict.split)
  show ?thesis
    unfolding handleChargeEvent_def Let_def
    by (rule preserves_if, rule preserves_ret, rule kept_get, rule preserves_found, rule preserves_ret, rule kept_get,
        rule preserves_found, rule preserves_ret, rule preserves_if, rule preserves_ret, rule event, erule latest_known, assumption)
qed

lemma handleWebhook_kept: "By_Omise \<in> A \<Longrightarrow> preserves (payKept A env0 s0) (handleWebhook env api om ev)"
  unfolding handleWebhook_def by (auto intro!: preserves_if handleCharge_kept kept_frames)

lemma expirePending_kept: "preserves (payKept A env0 s0) (expirePendingQrPayments env config api)"
proof -
  have "preserves (payKept A env0 s) (forM (expireOne env config api) (filter P (dbPayments s)))" if "payKept A env0 s0 s" for s P
    by (rule preserves_forM_set) (use that in \<open>auto simp: expireOne_def payKept_def intro!: pres finalize_kept intro: known_mem\<close>)
  then show ?thesis
    unfolding expirePendingQrPayments_def by (intro kept_get preserves_seq preserves_ret)
qed

lemma cancelStale_kept: "preserves (payKept A env0 s0) (cancelStaleUnpaidOrders env config now)"
proof -
  have one: "preserves (payKept A env0 s) (cancelIfUnpaid env view)" for s view
    unfolding cancelIfUnpaid_def
    by (cases view) (auto intro!: preserves_if preserves_ret kept_get cancelOrder_kept preserves_seq [OF cancelOrder_kept]
        simp: paymentsOf_def payKept_def intro: known_mem)
  show ?thesis
    unfolding cancelStaleUnpaidOrders_def
    by (intro kept_get preserves_seq preserves_ret preserves_forM preserves_catch one)
qed

lemma preserves_failIf_then: "(\<not> b \<Longrightarrow> preserves I m) \<Longrightarrow> preserves I (seqM (failIf b e) (\<lambda>_. m))"
  by (cases b) (simp_all add: failIf_def preserves_def raiseM_def retM_def seqM_def)

lemma confirm_kept: "By_Admin \<in> A \<Longrightarrow> preserves (payKept A env0 s0) (confirmBankTransferPaid env i admin remark)"
  unfolding confirmBankTransferPaid_def Let_def
  by (intro preserves_failIf_then kept_get preserves_found preserves_seq preserves_prod preserves_txn preserves_ret preserves_raise
      preserves_get save_paid kept_frames) (auto intro: latest_known)

lemma reads_kept:
  "preserves (payKept A env0 s0) (findPaymentById env hash config api i c g)"
  "preserves (payKept A env0 s0) (findLatestByOrderId env hash config api i c g)"
proof -
  have get: "preserves (payKept A env0 s) (expirePendingQrPaymentIfNeeded env config api p)" if "known s p" for s p
    by (rule expireIfNeeded_kept [OF that])
  show "preserves (payKept A env0 s0) (findPaymentById env hash config api i c g)"
    unfolding findPaymentById_def
    by (auto intro!: kept_get preserves_raise preserves_seq kept_frames get intro: found_known split: option.split)
  show "preserves (payKept A env0 s0) (findLatestByOrderId env hash config api i c g)"
    unfolding findLatestByOrderId_def
    by (auto intro!: preserves_seq kept_frames kept_get preserves_raise get intro: latest_known split: option.split)
qed

lemma runExpiry_kept: "preserves (payKept A env0 s0) (runExpiryCheck env config api sla)"
  unfolding runExpiryCheck_def
  by (intro preserves_seq preserves_catch preserves_ret expirePending_kept cancelStale_kept kept_frames)

text \<open>After the supersession no payment of the order is pending.\<close>

lemma pending_settled:
  assumes "chargeInv env s" and "p \<in> set (pendingPayments s i)" and "py_id q = py_id p" and "py_status q \<noteq> PY_PENDING"
  shows "pendingPayments (s\<lparr>dbPayments := saveRow py_id q (dbPayments s)\<rparr>) i = []"
proof -
  have u: "uniqueKey py_id (dbPayments s)" using assms(1) by (simp add: chargeInv_def)
  have p: "p \<in> set (dbPayments s)" using assms(2) by (simp add: pendingPayments_def paymentsOf_def)
  have row: "saveRow py_id q (dbPayments s) = map (\<lambda>x. if py_id x = py_id q then q else x) (dbPayments s)"
    using saveRow_present [of py_id q "dbPayments s" p] byKey_in [OF u p] u assms(3) by simp
  have "pendingPayments s i = [p]"
    using assms(1,2) by (cases "pendingPayments s i") (auto simp: chargeInv_def dest: spec [of _ i])
  then have only: "x = p" if "x \<in> set (dbPayments s)" "py_orderId x = i" "py_status x = PY_PENDING" for x
    using that filter_set [of "\<lambda>x. py_orderId x = i \<and> py_status x = PY_PENDING" "dbPayments s"]
    by (auto simp: pendingPayments_def paymentsOf_def)
  then show ?thesis using assms(3,4) by (auto simp: pendingPayments_def paymentsOf_def filter_empty_conv row)
qed

lemma supersede_wp:
  assumes "chargeInv env0 s"
  shows "wp (supersedePendingPaymentsForOrder env i)
    (\<lambda>_ t. payKept A env0 s t \<and> pendingPayments t i = [] \<and> idCount t = idCount s \<and> dbOrders t = dbOrders s) E s"
proof -
  have one: "length (pendingPayments s i) \<le> 1" using assms by (simp add: chargeInv_def)
  have "payKept A env0 s (s\<lparr>dbPayments := saveRow py_id q (dbPayments s)\<rparr>) \<and>
      pendingPayments (s\<lparr>dbPayments := saveRow py_id q (dbPayments s)\<rparr>) i = []"
    if p: "pendingPayments s i = [p]" and q: "q = stampPayment env s (p\<lparr>py_status := PY_FAILED\<rparr>)" for p q
  proof -
    have "p \<in> set (dbPayments s)" using p filter_set [of "\<lambda>x. py_orderId x = i \<and> py_status x = PY_PENDING" "dbPayments s"]
      by (auto simp: pendingPayments_def paymentsOf_def)
    then have "known s p" by (rule known_mem [OF assms])
    moreover have "py_status p = PY_PENDING"
      using p filter_set [of "\<lambda>x. py_orderId x = i \<and> py_status x = PY_PENDING" "dbPayments s"]
      by (auto simp: pendingPayments_def paymentsOf_def)
    ultimately have "preserves (payKept A env0 s) (savePayment env (p\<lparr>py_status := PY_FAILED\<rparr>))"
      by (auto intro!: save_failed)
    from preservesD [OF this payKept_refl [OF assms]] q
    have "payKept A env0 s (s\<lparr>dbPayments := saveRow py_id q (dbPayments s)\<rparr>)" by (simp add: savePayment_def)
    moreover have "pendingPayments (s\<lparr>dbPayments := saveRow py_id q (dbPayments s)\<rparr>) i = []"
      by (rule pending_settled [OF assms, of p]) (simp_all add: p q)
    ultimately show ?thesis by simp
  qed
  moreover have "payKept A env0 s s" by (rule payKept_refl [OF assms])
  ultimately show ?thesis using one
    by (cases "pendingPayments s i"; cases "tl (pendingPayments s i)")
      (auto simp: supersedePendingPaymentsForOrder_def wp pendingPayments_def paymentsOf_def payKept_def chargeInv_def settles_def findPayment_def)
qed


lemma created_status: "mayBecome A m PY_PENDING (if b then PY_FAILED else PY_PENDING)"
  by (simp add: mayBecome_def)

lemma newPaymentRow_simps [simp]:
  "py_id (newPaymentRow env i oid amt cur m) = i" "py_orderId (newPaymentRow env i oid amt cur m) = oid"
  "py_amount (newPaymentRow env i oid amt cur m) = amt" "py_status (newPaymentRow env i oid amt cur m) = PY_PENDING"
  "py_paymentMethod (newPaymentRow env i oid amt cur m) = m" "py_createdAt (newPaymentRow env i oid amt cur m) = envNow env"
  "stampPayment env s (newPaymentRow env i oid amt cur m) = newPaymentRow env i oid amt cur m"
  by (simp_all add: newPaymentRow_def stampPayment_def)

text \<open>The state after the insertion of a payment, and after its next save.\<close>

definition withPayment :: "env \<Rightarrow> payment_row \<Rightarrow> db \<Rightarrow> db" where
  "withPayment env p s = s\<lparr>idCount := Suc (idCount s), dbPayments := saveRow py_id p (dbPayments s)\<rparr>"

lemma insert_kept:
  assumes "payKept A env s0 s" and "pendingPayments s oid = []"
  shows "payKept A env s0 (withPayment env (newPaymentRow env (envUuid env (idCount s)) oid amt cur m) s)"
    and "known (withPayment env p s) p"
  using payKept_insert [OF assms(1), of "newPaymentRow env (envUuid env (idCount s)) oid amt cur m"] assms(2)
  by (simp_all add: withPayment_def known_def findPayment_def payment_repo.byId_save)

lemma update_current:
  assumes "payKept A env0 s0 u" and "known u p" and "samePayment A p p'"
  shows "payKept A env0 s0 (u\<lparr>dbPayments := saveRow py_id (stampPayment env u p') (dbPayments u)\<rparr>)"
    and "known (u\<lparr>dbPayments := saveRow py_id (stampPayment env u p') (dbPayments u)\<rparr>) (stampPayment env u p')"
proof -
  have "py_id p' = py_id p" using assms(3) by (simp add: samePayment_def)
  then show "payKept A env0 s0 (u\<lparr>dbPayments := saveRow py_id (stampPayment env u p') (dbPayments u)\<rparr>)"
    using payKept_update [OF assms(1), of "stampPayment env u p'" p] assms(2,3) by (simp add: known_def)
qed (simp add: known_def)

lemma known_frame: "dbPayments t = dbPayments s \<Longrightarrow> known t p = known s p"
  by (simp add: known_def findPayment_def)

definition lockDone :: "charge_actor set \<Rightarrow> env \<Rightarrow> db \<Rightarrow> nat \<Rightarrow> 'r \<times> (order_row \<times> payment_row \<times> string) option \<Rightarrow> db \<Rightarrow> bool" where
  "lockDone A env s0 n r t \<longleftrightarrow> payKept A env s0 t \<and> n \<le> idCount t \<and> (case snd r of None \<Rightarrow> True
     | Some (_, p, _) \<Rightarrow> known t p \<and> findPayment s0 (py_id p) = None)"

lemma point_done:
  assumes "payKept A env s0 u" and "n \<le> idCount u" and "known u p" and "findPayment s0 (py_id p) = None"
  shows "wp (seqM (pointOrder env' ord m ref) (\<lambda>ord'. seqM (if b then seqM (publishPaymentStatusUpdated p) (\<lambda>_. emit e) else retM ())
       (\<lambda>_. retM (r, if c then Some (ord', p, i) else None)))) (lockDone A env s0 n) (\<lambda>_ t. n \<le> idCount t) u"
proof -
  have "payKept A env s0 t" if "dbPayments t = dbPayments u" "idCount u \<le> idCount t" for t by (rule payKept_frame [OF assms(1) that])
  then show ?thesis
    unfolding wp_seq by (intro wp_conseq [OF wp_framed [OF payFrame_point]])
      (use assms in \<open>auto simp: wp lockDone_def known_def findPayment_def\<close>)
qed

lemma offline_done:
  assumes "payKept A env s0 s" and "pendingPayments s (cc_orderId dto) = []" and "n \<le> idCount s"
  shows "wp (seqM (createOffline env config dto m ord) (\<lambda>r. retM (r, None))) (lockDone A env s0 n) (\<lambda>_ t. n \<le> idCount t) s"
proof -
  let ?u = "withPayment env (newPaymentRow env (envUuid env (idCount s)) (cc_orderId dto) (o_total ord) (cc_currency dto) m) s"
  have u: "payKept A env s0 ?u" "n \<le> idCount ?u" using insert_kept(1) [OF assms(1,2)] assms(3) by (auto simp: withPayment_def)
  have "wp (pointOrder env ord m None) (\<lambda>_ t. payKept A env s0 t \<and> n \<le> idCount t) (\<lambda>_ t. n \<le> idCount t) ?u"
    by (rule wp_conseq [OF wp_framed [OF payFrame_point]]) (use payKept_frame [OF u(1)] u(2) in auto)
  then show ?thesis
    by (auto simp: createOffline_def wp lockDone_def withPayment_def assms(3) split: sum.split elim!: wp_conseq)
qed

lemma online_done:
  assumes "payKept A env s0 s" and "pendingPayments s (cc_orderId dto) = []" and "n \<le> idCount s"
  shows "wp (createOnline env config api dto m ord) (lockDone A env s0 n) (\<lambda>_ t. n \<le> idCount t) s"
proof -
  let ?p = "newPaymentRow env (envUuid env (idCount s)) (cc_orderId dto) (o_total ord) (cc_currency dto) m"
  let ?u = "withPayment env ?p s"
  have u: "payKept A env s0 ?u" "n \<le> idCount ?u" "known ?u ?p"
    using insert_kept [OF assms(1,2)] assms(3) by (auto simp: withPayment_def)
  have new: "findPayment s0 (py_id ?p) = None"
    by (rule unknown_before [OF assms(1)]) (use assms(1) in \<open>auto simp: payKept_def chargeInv_def findPayment_def byKey_None_iff\<close>)
  have save: "wp (seqM (savePayment env p') (\<lambda>payment. seqM (pointOrder env ord m ref) (\<lambda>ord'.
       seqM (if b then seqM (publishPaymentStatusUpdated payment) (\<lambda>_. emit e) else retM ())
         (\<lambda>_. retM (r, if c then Some (ord', payment, i) else None))))) (lockDone A env s0 n) (\<lambda>_ t. n \<le> idCount t) t"
    if "samePayment A ?p p'" "dbPayments t = dbPayments ?u" "idCount ?u \<le> idCount t" for p' ref b e r c i t
  proof -
    have t: "payKept A env s0 t" "known t ?p" using payKept_frame [OF u(1) that(2,3)] u(3) known_frame [OF that(2)] by simp_all
    show ?thesis
      unfolding wp_seq [of "savePayment env p'"] savePayment_wp
      by (rule point_done) (use update_current [OF t that(1)] u(2) that(1,3) new in \<open>auto simp: samePayment_def\<close>)
  qed
  have rest: "wp (requestCharge api i body) (\<lambda>c. wp (f c) (lockDone A env s0 n) (\<lambda>_ t. n \<le> idCount t)) (\<lambda>_ t. n \<le> idCount t) ?u"
    if "\<And>c t. dbPayments t = dbPayments ?u \<Longrightarrow> idCount ?u \<le> idCount t \<Longrightarrow> wp (f c) (lockDone A env s0 n) (\<lambda>_ t. n \<le> idCount t) t" for i body f
    by (rule wp_conseq [OF wp_framed [OF payFrame_request]]) (use that u(2) in auto)
  have eq: "s\<lparr>idCount := Suc (idCount s), dbPayments := saveRow py_id ?p (dbPayments (s\<lparr>idCount := Suc (idCount s)\<rparr>))\<rparr> = ?u"
    by (simp add: withPayment_def)
  show ?thesis
    unfolding createOnline_def Let_def wp_seq [of "failIf b e" for b e] wp_failIf wp_seq [of "freshId e" for e] wp_freshId
      wp_seq [of "savePayment e (newPaymentRow a b c d f g)" for e a b c d f g] savePayment_wp newPaymentRow_simps
      wp_seq [of "readM f" for f] wp_readM wp_seq [of "requestCharge a b c" for a b c] eq
    using u(2) assms(3)
    by (cases "ca_secretKey api = []") (auto simp: samePayment_def created_status split: sum.split split del: if_split intro!: rest save)
qed


lemma lock_done:
  assumes "chargeInv env s"
  shows "wp (chargeUnderLock env config api dto m) (lockDone A env s (idCount s)) (\<lambda>_ t. idCount s \<le> idCount t) s"
proof -
  have branch: "wp (if isNonOmiseCheckoutPaymentMethod m then seqM (createOffline env config dto m ord) (\<lambda>r. retM (r, None))
      else createOnline env config api dto m ord) (lockDone A env s (idCount s)) (\<lambda>_ t. idCount s \<le> idCount t) t"
    if "payKept A env s t" "pendingPayments t (cc_orderId dto) = []" "idCount t = idCount s" for ord t
    using offline_done [OF that(1,2)] online_done [OF that(1,2)] that(3) by simp
  have "wp (seqM (supersedePendingPaymentsForOrder env (cc_orderId dto)) (\<lambda>_. seqM (failIf b e) (\<lambda>_.
      if isNonOmiseCheckoutPaymentMethod m then seqM (createOffline env config dto m ord) (\<lambda>r. retM (r, None))
      else createOnline env config api dto m ord))) (lockDone A env s (idCount s)) (\<lambda>_ t. idCount s \<le> idCount t) s" for b e ord
    unfolding wp_seq [of "supersedePendingPaymentsForOrder a c" for a c]
    by (rule wp_conseq [OF supersede_wp [OF assms]]) (cases b; auto simp: wp_seq [of "failIf b e" for b e] wp_failIf wp_raise intro!: branch split del: if_split)
  then show ?thesis
    by (auto simp: chargeUnderLock_def wp_seq [of "getM f" for f] wp_get wp_raise wp_seq [of "liftM f" for f] wp_lift split: option.split sum.split)
qed

text \<open>A payment created by the call itself may be paid at once; the others are not touched.\<close>

lemma newPaid_kept:
  assumes t: "payKept A env s0 t" and p: "known t p" "findPayment s0 (py_id p) = None"
  shows "wp (markOrderPaid env ord p c) (\<lambda>_. payKept A env s0) (\<lambda>_. payKept A env s0) t"
proof -
  let ?I = "\<lambda>u. payKept UNIV env t u \<and> (\<forall>i. i \<noteq> py_id p \<longrightarrow> findPayment u i = findPayment t i)"
  have frames: "preserves ?I m" if "\<And>ps n. preserves (payFrame ps n) m" for m :: "(db, 'x) op"
    by (rule frame_closed [OF _ that]) (auto intro: payKept_frame simp: findPayment_def)
  have save: "preserves ?I (savePayment env (p\<lparr>py_status := PY_PAID\<rparr>))"
  proof (rule preservesI)
    fix u
    assume u: "?I u"
    have "preserves (payKept UNIV env t) (savePayment env (p\<lparr>py_status := PY_PAID\<rparr>))" by (rule save_paid) (simp_all add: p(1))
    with u show "?I (snd (savePayment env (p\<lparr>py_status := PY_PAID\<rparr>) u))" by (auto simp: preserves_def savePayment_def)
  qed
  have "preserves ?I (markOrderPaid env ord p c)"
    unfolding markOrderPaid_def
    by (intro preserves_seq preserves_txn save preserves_ret frames payFrame_basic payFrame_emit payFrame_activity)
  moreover have "?I t" using t by (simp add: payKept_def)
  moreover have "payKept A env s0 u" if "?I u" for u
  proof -
    have "settles A s0 u"
      unfolding settles_def
    proof (intro allI impI)
      fix i q
      assume q: "findPayment s0 i = Some q"
      with p(2) have "i \<noteq> py_id p" by auto
      then have "findPayment u i = findPayment t i" using that by simp
      with q t show "\<exists>r. findPayment u i = Some r \<and> samePayment A q r" by (simp add: payKept_def settles_def)
    qed
    with that show ?thesis by (simp add: payKept_def)
  qed
  ultimately show ?thesis by (intro wp_conseq [OF wp_preserves [of ?I]])
qed

lemma createCharge_kept:
  assumes "chargeInv env s"
  shows "wp (createCharge env hash config api dto) (\<lambda>_. payKept A env s) (\<lambda>_. payKept A env s) s"
proof -
  have finish: "wp (case paid of None \<Rightarrow> retM r | Some (ord, p, c) \<Rightarrow> seqM (markOrderPaid env ord p c) (\<lambda>_. retM r))
      (\<lambda>_. payKept A env s) (\<lambda>_. payKept A env s) t" if "lockDone A env s n (r, paid) t" for n r paid t
    using that by (cases paid) (auto simp: lockDone_def wp_seq wp_ret intro!: wp_conseq [OF newPaid_kept])
  have "wp (seqM (txnSent (chargeUnderLock env config api dto m)) (\<lambda>(r, paid). case paid of None \<Rightarrow> retM r
      | Some (ord, p, c) \<Rightarrow> seqM (markOrderPaid env ord p c) (\<lambda>_. retM r))) (\<lambda>_. payKept A env s) (\<lambda>_. payKept A env s) t"
    if t: "payKept A env s t" for t m
  proof -
    have inv: "chargeInv env t" using t by (simp add: payKept_def)
    have fail: "payKept A env s (t\<lparr>idCount := idCount u, dbEffects := dbEffects u\<rparr>)" if "idCount t \<le> idCount u" for u
      by (rule payKept_frame [OF t]) (use that in simp_all)
    have ok: "lockDone A env s n r u" if "lockDone A env t n r u" for n r u
      using that t by (auto simp: lockDone_def intro: payKept_trans [OF t] unknown_before split: option.splits)
    show ?thesis
      unfolding wp_seq [of "txnSent x" for x] txnSent_wp
      by (rule wp_conseq [OF lock_done [OF inv]]) (auto intro: fail finish [OF ok] split: prod.split)
  qed
  note lock = this
  have "wp (cancelPendingOmiseChargesForOrder api ord) (\<lambda>_. payKept A env s) (\<lambda>_. payKept A env s) s" for ord
    by (rule wp_preserves [OF kept_of_frame [OF payFrame_cancelAll] payKept_refl [OF assms]])
  note phaseA = this
  have access: "wp (assertCanPayForOrder env hash i c g) (\<lambda>_ t. t = s) (\<lambda>_ t. t = s) s" for i c g
    by (auto simp: assertCanPayForOrder_def wp split: option.split sum.split)
  show ?thesis
    unfolding createCharge_def wp_seq [of "liftM x" for x] wp_lift wp_seq [of "assertCanPayForOrder a b c d e" for a b c d e]
    by (auto simp: payKept_refl [OF assms] wp_seq [of "getM f" for f] wp_seq [of "liftM f" for f] wp_seq [of "cancelPendingOmiseChargesForOrder a b" for a b]
        wp_lift wp_get split: sum.split intro!: wp_conseq [OF access] wp_conseq [OF phaseA] lock)
qed


lemma failPending_kept: "preserves (payKept A env0 s0) (failPendingPayments env i)"
proof (rule preservesI)
  fix s
  assume s: "payKept A env0 s0 s"
  define f :: "payment_row \<Rightarrow> payment_row" where "f = (\<lambda>p. if py_orderId p = i \<and> py_status p = PY_PENDING
    then p\<lparr>py_status := PY_FAILED, py_updatedAt := envNow env\<rparr> else p)"
  let ?t = "s\<lparr>dbPayments := map f (dbPayments s)\<rparr>"
  have f: "samePayment A p (f p)" "py_id (f p) = py_id p" "py_orderId (f p) = py_orderId p" for p
    by (simp_all add: f_def samePayment_def mayBecome_def)
  have inv: "chargeInv env0 s" using s by (simp add: payKept_def)
  have "map py_id (map f (dbPayments s)) = map py_id (dbPayments s)" using f(2) by simp
  note ids = this arg_cong [OF this, of set, unfolded set_map]
  have "length (pendingPayments ?t j) \<le> 1" for j
  proof -
    let ?Q = "\<lambda>x. py_orderId x = j \<and> py_status x = PY_PENDING"
    have "?Q x" if "?Q (f x)" for x using that f(1) [of x] by (auto simp: samePayment_def dest: never_pending_again)
    note le = length_filter_map_le [of "dbPayments s" ?Q f, OF this]
    have now: "pendingPayments s j = filter ?Q (dbPayments s)" and later: "pendingPayments ?t j = filter ?Q (map f (dbPayments s))"
      by (simp_all add: pendingPayments_def paymentsOf_def)
    have "length (filter ?Q (dbPayments s)) \<le> 1" using inv unfolding chargeInv_def now [symmetric] by blast
    with le show ?thesis unfolding later by (rule order_trans)
  qed
  moreover have "uniqueKey py_id (map f (dbPayments s))" using inv unfolding uniqueKey_def ids(1) chargeInv_def by blast
  ultimately have "chargeInv env0 ?t" using inv ids(2) by (simp add: chargeInv_def)
  moreover have "byKey py_id k (map f ps) = map_option f (byKey py_id k ps)" for k ps by (induction ps) (simp_all add: f(2))
  then have "settles A s ?t" using f(1) by (auto simp: settles_def findPayment_def)
  ultimately show "payKept A env0 s0 (snd (failPendingPayments env i s))"
    using s by (auto simp: failPendingPayments_def payKept_def f_def intro: settles_trans)
qed

lemma vendorCancel_kept: "preserves (payKept A env0 s0) (cancelVendorOrder env userId storeId i)"
proof -
  have access: "preserves (payKept A env0 s0) (assertVendorStoreAccess userId items storeId)" for items
    by (rule kept_of_frame) (auto simp: assertVendorStoreAccess_def intro!: pres)
  show ?thesis
    unfolding cancelVendorOrder_def cancelCommit_def
    by (auto intro!: pres access failPending_kept kept_frames)
qed

section \<open>The life of payments\<close>

text \<open>\<open>charge_step A\<close>: a step of one of the actors in \<open>A\<close>.\<close>

inductive charge_step :: "charge_actor set \<Rightarrow> (nat \<Rightarrow> string) \<Rightarrow> db \<Rightarrow> db \<Rightarrow> bool" for A uuid where
  create: "By_Customer \<in> A \<Longrightarrow> envUuid env = uuid \<Longrightarrow> charge_step A uuid s (snd (createCharge env hash config api dto s))"
| webhook: "By_Omise \<in> A \<Longrightarrow> charge_step A uuid s (snd (handleWebhook env api om ev s))"
| confirm: "By_Admin \<in> A \<Longrightarrow> charge_step A uuid s (snd (confirmBankTransferPaid env orderId adminId remark s))"
| read: "By_Customer \<in> A \<Longrightarrow> charge_step A uuid s (snd (findPaymentById env hash config api paymentId customerId token s))"
| read_latest: "By_Customer \<in> A \<Longrightarrow> charge_step A uuid s (snd (findLatestByOrderId env hash config api orderId customerId token s))"
| expiry_job: "By_Job \<in> A \<Longrightarrow> charge_step A uuid s (snd (runExpiryCheck env config api slaMs s))"
| vendor_cancel: "By_Vendor \<in> A \<Longrightarrow> charge_step A uuid s (snd (cancelVendorOrder env userId storeId orderId s))"

lemma kept_snd: "payKept A env0 s0 s \<Longrightarrow> preserves (payKept A env0 s0) m \<Longrightarrow> payKept A env0 s0 (snd (m s))"
  by (simp add: preserves_def)

lemma chargeInv_uuid: "envUuid env = envUuid env' \<Longrightarrow> chargeInv env s = chargeInv env' s"
  by (simp add: chargeInv_def)

lemma charge_step_kept:
  assumes "charge_step A (envUuid env0) s t" and "payKept A env0 s0 s"
  shows "payKept A env0 s0 t"
proof -
  have create: "payKept A env0 s0 (snd (createCharge env hash config api dto s))" if "envUuid env = envUuid env0" for env hash config api dto
  proof -
    have "chargeInv env s" using chargeInv_uuid [OF that] assms(2) by (simp add: payKept_def)
    from wp_invariant [OF createCharge_kept [OF this]] have "payKept A env s (snd (createCharge env hash config api dto s))" .
    then have "payKept A env0 s (snd (createCharge env hash config api dto s))" using chargeInv_uuid [OF that] by (simp add: payKept_def)
    with assms(2) show ?thesis by (rule payKept_trans)
  qed
  from assms(1) show ?thesis
    by cases (auto intro: create kept_snd [OF assms(2)] handleWebhook_kept confirm_kept reads_kept runExpiry_kept vendorCancel_kept)
qed

end
