(* ===== verification/Payment_Proofs.thy ===== *)
theory Payment_Proofs
  imports Payment_Invariant
begin

text \<open>
  The properties of the payments service: what becomes of payments over any run, what a webhook may do
  to an order, what \<open>createCharge\<close> charges and leaves behind, what the expiry job cancels, and what
  happens when a charge completes after its order has moved on.
\<close>

section \<open>Samples\<close>

definition unpaidOrder :: order_row where
  "unpaidOrder = (sampleOrder ''o'' OS_PENDING_PAYMENT)\<lparr>o_paidAt := None\<rparr>"

definition sampleUnpaid :: db where
  "sampleUnpaid = empty_db\<lparr>dbOrders := [unpaidOrder], dbItems := [sampleItem ''i1'' 2], dbStores := [sampleStore ''s'' ST_APPROVED]\<rparr>"

definition samplePayConfig :: payment_config where
  "samplePayConfig = \<lparr>pf_qrExpiryMinutes = None, pf_unpaidOrderCancelAfterMs = None, pf_storefrontUrl = Some ''https://shop'',
     pf_webhookSecret = ''k'', pf_bankTransfer = \<lparr>bt_enabled = False, bt_bankName = [], bt_accountName = [], bt_accountNumber = [],
     bt_branchName = None\<rparr>\<rparr>"

definition sampleCharges :: charge_api where
  "sampleCharges = \<lparr>ca_secretKey = ''key'',
     ca_create = (\<lambda>_ b. Inr \<lparr>ch_id = ''chrg2'', ch_status = ''pending'', ch_amount = Some (cb_amount b), ch_authorizeUri = None, ch_qrCodeUrl = None\<rparr>),
     ca_get = (\<lambda>_ i. Inr \<lparr>ch_id = i, ch_status = ''successful'', ch_amount = Some 2000, ch_authorizeUri = None, ch_qrCodeUrl = None\<rparr>),
     ca_expire = (\<lambda>_ _. CA_Refused), ca_reverse = (\<lambda>_ _. CA_Refused)\<rparr>"

definition sampleDto :: "string \<Rightarrow> create_charge" where
  "sampleDto m = \<lparr>cc_orderId = ''o'', cc_paymentMethod = m, cc_currency = ''THB'', cc_omiseToken = Some ''tok'', cc_savedPaymentMethodId = None,
     cc_customerId = Some ''c'', cc_guestPayToken = None, cc_platformType = None\<rparr>"

lemma sampleUnpaid_inv: "chargeInv sampleIds sampleUnpaid"
  by (auto simp: chargeInv_def sampleUnpaid_def empty_db_def sampleIds_def uniqueKey_def pendingPayments_def paymentsOf_def inj_def)

section \<open>What a webhook may do\<close>

text \<open>
  The orders and payments after the event of a charge: as they were, or the order of the charge and its
  latest payment settled as the verdict says.
\<close>

definition paidBefore :: "env \<Rightarrow> order_row \<Rightarrow> string \<Rightarrow> order_row" where
  "paidBefore env ord c = ord\<lparr>o_status := OS_PAID, o_paymentReference := Some c, o_paidAt := Some (envNow env)\<rparr>"

definition tablesSet :: "env \<Rightarrow> db \<Rightarrow> order_row \<Rightarrow> payment_row \<Rightarrow> db \<Rightarrow> bool" where
  "tablesSet env s ord p t \<longleftrightarrow> dbOrders t = saveRow o_id (stampOrder env s ord) (dbOrders s) \<and>
     dbPayments t = saveRow py_id (stampPayment env s p) (dbPayments s)"

definition webhookPaid :: "env \<Rightarrow> charge_api \<Rightarrow> omise_event \<Rightarrow> db \<Rightarrow> order_row \<Rightarrow> payment_row \<Rightarrow> db \<Rightarrow> bool" where
  "webhookPaid env api ev s ord p t \<longleftrightarrow> (\<exists>cid c. ev_id ev = Some cid \<and> ev_key ev = Some ''charge.complete'' \<and>
     orderOfCharge s cid = Some ord \<and> latestPayment s (o_id ord) = Some p \<and> \<not> webhookIgnored ev ord p \<and>
     ca_secretKey api \<noteq> [] \<and> ca_get api (length (dbEffects s)) cid = Inr c \<and> ch_status c = ''successful'' \<and>
     ch_amount c = Some (js_round (o_total ord * 100)) \<and>
     tablesSet env s (paidBefore env ord cid) (p\<lparr>py_status := PY_PAID\<rparr>) t)"

definition saysFailed :: "charge_api \<Rightarrow> omise_event \<Rightarrow> nat \<Rightarrow> bool" where
  "saysFailed api ev n \<longleftrightarrow> (if ca_secretKey api \<noteq> []
     then \<exists>c. ca_get api n (nullish (ev_id ev) []) = Inr c \<and> (ev_key ev = Some ''charge.fail'' \<or> ch_status c = ''failed'')
     else ev_key ev = Some ''charge.fail'' \<or> ev_status ev = Some ''failed'')"

definition webhookFailed :: "env \<Rightarrow> charge_api \<Rightarrow> omise_event \<Rightarrow> db \<Rightarrow> order_row \<Rightarrow> payment_row \<Rightarrow> db \<Rightarrow> bool" where
  "webhookFailed env api ev s ord p t \<longleftrightarrow> ev_id ev \<noteq> None \<and> orderOfCharge s (nullish (ev_id ev) []) = Some ord \<and> latestPayment s (o_id ord) = Some p \<and>
     \<not> webhookIgnored ev ord p \<and> saysFailed api ev (length (dbEffects s)) \<and>
     tablesSet env s (ord\<lparr>o_paymentReference := None\<rparr>) (p\<lparr>py_status := PY_FAILED\<rparr>) t"

definition webhookOutcome :: "env \<Rightarrow> charge_api \<Rightarrow> omise_event \<Rightarrow> db \<Rightarrow> db \<Rightarrow> bool" where
  "webhookOutcome env api ev s t \<longleftrightarrow>
     dbOrders t = dbOrders s \<and> dbPayments t = dbPayments s \<or>
     (\<exists>ord p. webhookPaid env api ev s ord p t) \<or>
     (\<exists>ord p. webhookFailed env api ev s ord p t)"

lemma stamp_frames [simp]:
  "stampOrder env (s\<lparr>dbPayments := a\<rparr>) ord = stampOrder env s ord"
  "stampOrder env (s\<lparr>dbEffects := b\<rparr>) ord = stampOrder env s ord"
  "stampPayment env (s\<lparr>dbEffects := b\<rparr>) p = stampPayment env s p"
  "stampPayment env (s\<lparr>dbOrders := c\<rparr>) p = stampPayment env s p"
  by (simp_all add: stampOrder_def findOrder_def stampPayment_def findPayment_def)

lemma publishOrderPaidActivity_wp [wp]:
  "wp (publishOrderPaidActivity i) Q E s = (case orderAudience s i of (storeIds, ownerIds) \<Rightarrow>
     Q () (s\<lparr>dbEffects := dbEffects s @ [DashboardOrder i (case storeIds of [] \<Rightarrow> None | j # _ \<Rightarrow> Some j) ownerIds]\<rparr>))"
  by (simp add: publishOrderPaidActivity_def wp)

lemma markOrderPaid_tables:
  "wp (markOrderPaid env ord p cid) (\<lambda>_. tablesSet env s (paidBefore env ord cid) (p\<lparr>py_status := PY_PAID\<rparr>))
     (\<lambda>_. tablesSet env s (paidBefore env ord cid) (p\<lparr>py_status := PY_PAID\<rparr>)) s"
  by (simp add: markOrderPaid_def paidBefore_def tablesSet_def wp Let_def split: prod.split)

lemma failCharge_tables:
  "o_paymentReference ord = Some cid \<Longrightarrow> wp (failCharge env ord p cid)
     (\<lambda>_. tablesSet env s (ord\<lparr>o_paymentReference := None\<rparr>) (p\<lparr>py_status := PY_FAILED\<rparr>)) (\<lambda>_ _. False) s"
  by (simp add: failCharge_def tablesSet_def wp)

lemma orderOfCharge_Some: "orderOfCharge s c = Some ord \<Longrightarrow> ord \<in> set (dbOrders s) \<and> o_paymentReference ord = Some c"
  unfolding orderOfCharge_def by (drule find_Some_in) simp

lemma chargeEvent_outcome:
  "wp (handleChargeEvent env api ev) (\<lambda>_. webhookOutcome env api ev s) (\<lambda>_. webhookOutcome env api ev s) s"
proof -
  have same: "webhookOutcome env api ev s s" by (simp add: webhookOutcome_def)
  have paid: "wp (markOrderPaid env ord p cid) (\<lambda>_. webhookOutcome env api ev s) (\<lambda>_. webhookOutcome env api ev s) s"
    if "ev_id ev = Some cid" "orderOfCharge s cid = Some ord" "latestPayment s (o_id ord) = Some p" "\<not> webhookIgnored ev ord p"
      "(if ca_secretKey api \<noteq> [] then map_sum id Some (ca_get api (length (dbEffects s)) cid) else Inr None) = Inr fetched"
      "chargeVerdict ev ord fetched = CV_Paid" for ord p cid fetched
  proof -
    have "webhookOutcome env api ev s t" if "tablesSet env s (paidBefore env ord cid) (p\<lparr>py_status := PY_PAID\<rparr>) t" for t
    proof -
      have "webhookPaid env api ev s ord p t"
        using that \<open>ev_id ev = Some cid\<close> \<open>orderOfCharge s cid = Some ord\<close> \<open>latestPayment s (o_id ord) = Some p\<close>
          \<open>\<not> webhookIgnored ev ord p\<close> \<open>chargeVerdict ev ord fetched = CV_Paid\<close> \<open>_ = Inr fetched\<close>
        by (cases "ca_get api (length (dbEffects s)) cid")
          (auto simp: webhookPaid_def chargeVerdict_def Let_def split: if_splits option.splits)
      then show ?thesis by (auto simp: webhookOutcome_def)
    qed
    then show ?thesis by (intro wp_conseq [OF markOrderPaid_tables])
  qed
  have failed: "wp (failCharge env ord p cid) (\<lambda>_. webhookOutcome env api ev s) (\<lambda>_. webhookOutcome env api ev s) s"
    if "ev_id ev = Some cid" "orderOfCharge s cid = Some ord" "latestPayment s (o_id ord) = Some p" "\<not> webhookIgnored ev ord p"
      "(if ca_secretKey api \<noteq> [] then map_sum id Some (ca_get api (length (dbEffects s)) cid) else Inr None) = Inr fetched"
      "chargeVerdict ev ord fetched = CV_Failed" for ord p cid fetched
  proof (rule wp_conseq [OF failCharge_tables])
    show "webhookOutcome env api ev s t" if "tablesSet env s (ord\<lparr>o_paymentReference := None\<rparr>) (p\<lparr>py_status := PY_FAILED\<rparr>) t" for t
    proof -
      have "saysFailed api ev (length (dbEffects s))"
        using \<open>ev_id ev = Some cid\<close> \<open>chargeVerdict ev ord fetched = CV_Failed\<close> \<open>_ = Inr fetched\<close>
        by (cases "ca_get api (length (dbEffects s)) cid")
          (auto simp: saysFailed_def chargeVerdict_def Let_def split: if_splits option.splits)
      then have "webhookFailed env api ev s ord p t"
        using that \<open>ev_id ev = Some cid\<close> \<open>orderOfCharge s cid = Some ord\<close> \<open>latestPayment s (o_id ord) = Some p\<close>
          \<open>\<not> webhookIgnored ev ord p\<close> by (simp add: webhookFailed_def)
      then show ?thesis by (auto simp: webhookOutcome_def)
    qed
  qed (use orderOfCharge_Some [OF that(2)] in simp_all)
  show ?thesis
    unfolding handleChargeEvent_def Let_def wp_if wp_ret wp_seq [of "getM f" for f] wp_get wp_option
    by (cases "ev_id ev") (auto simp: same wp_ret intro: paid failed split: option.split sum.split charge_verdict.split)
qed

text \<open>The other events leave orders and payments alone.\<close>

definition tablesSame :: "order_row list \<Rightarrow> payment_row list \<Rightarrow> db \<Rightarrow> bool" where
  "tablesSame os ps v \<longleftrightarrow> dbOrders v = os \<and> dbPayments v = ps"

lemma tablesSame_simps [simp]:
  "tablesSame os ps (v\<lparr>dbEffects := a\<rparr>) = tablesSame os ps v" "tablesSame os ps (v\<lparr>dbStores := b\<rparr>) = tablesSame os ps v"
  "tablesSame os ps (v\<lparr>dbPayouts := c\<rparr>) = tablesSame os ps v"
  by (simp_all add: tablesSame_def)

lemma other_events_same:
  "preserves (tablesSame os ps) (handleOmiseTransferWebhook env om e1)"
  "preserves (tablesSame os ps) (handleOmiseRecipientWebhook env om e2)"
proof -
  have pay: "preserves (tablesSame os ps) (savePayout env p)" and st: "preserves (tablesSame os ps) (saveStore env st)" for p st
    by (auto simp: preserves_def savePayout_def saveStore_def)
  show "preserves (tablesSame os ps) (handleOmiseTransferWebhook env om e1)"
    unfolding handleOmiseTransferWebhook_def by (auto intro!: pres pay)
  show "preserves (tablesSame os ps) (handleOmiseRecipientWebhook env om e2)"
    unfolding handleOmiseRecipientWebhook_def applyOmiseRecipientSnapshot_def by (auto intro!: pres st)
qed

lemma webhook_outcome: "webhookOutcome env api ev s (snd (handleWebhook env api om ev s))"
proof -
  have "webhookOutcome env api ev s t" if "tablesSame (dbOrders s) (dbPayments s) t" for t
    using that by (simp add: webhookOutcome_def tablesSame_def)
  moreover have "tablesSame (dbOrders s) (dbPayments s) s" by (simp add: tablesSame_def)
  ultimately show ?thesis
    using wp_invariant [OF chargeEvent_outcome] other_events_same unfolding handleWebhook_def preserves_def by auto
qed


lemma stored_order: "uniqueKey o_id (dbOrders s) \<Longrightarrow> ord \<in> set (dbOrders s) \<Longrightarrow> findOrder s (o_id ord) = Some ord"
  unfolding findOrder_def by (rule byKey_in)

lemma findOrder_tablesSet:
  "tablesSet env s ord p t \<Longrightarrow> findOrder t i = (if i = o_id ord then Some (stampOrder env s ord) else findOrder s i)"
  by (simp add: tablesSet_def findOrder_def order_repo.byId_save)

lemma webhookPaid_order:
  assumes "webhookPaid env api ev s ord p t" and "uniqueKey o_id (dbOrders s)"
  shows "findOrder s (o_id ord) = Some ord"
  using assms orderOfCharge_Some stored_order unfolding webhookPaid_def by blast

lemma becomes_paid:
  assumes "uniqueKey o_id (dbOrders s)" and "findOrder s i = Some ord" and "o_status ord \<noteq> OS_PAID"
    and "findOrder (snd (handleWebhook env api om ev s)) i = Some ord'" and "o_status ord' = OS_PAID"
  shows "\<exists>p. webhookPaid env api ev s ord p (snd (handleWebhook env api om ev s))"
proof -
  let ?t = "snd (handleWebhook env api om ev s)"
  have "findOrder ?t i \<noteq> findOrder s i" using assms(2-5) by auto
  then have "dbOrders ?t \<noteq> dbOrders s" by (auto simp: findOrder_def)
  with webhook_outcome [of env api ev s om] consider
      (paid) o1 p where "webhookPaid env api ev s o1 p ?t" | (failed) o1 p where "webhookFailed env api ev s o1 p ?t"
    by (auto simp: webhookOutcome_def)
  then show ?thesis
  proof cases
    case paid
    then obtain cid where "tablesSet env s (paidBefore env o1 cid) (p\<lparr>py_status := PY_PAID\<rparr>) ?t" by (auto simp: webhookPaid_def)
    from findOrder_tablesSet [OF this, of i] have "i = o_id o1"
      using assms(2-5) by (auto simp: paidBefore_def split: if_splits)
    with webhookPaid_order [OF paid assms(1)] assms(2) paid show ?thesis by auto
  next
    case failed
    then have o1: "orderOfCharge s (nullish (ev_id ev) []) = Some o1"
      and tab: "tablesSet env s (o1\<lparr>o_paymentReference := None\<rparr>) (p\<lparr>py_status := PY_FAILED\<rparr>) ?t" by (auto simp: webhookFailed_def)
    have "findOrder s (o_id o1) = Some o1" using orderOfCharge_Some [OF o1] stored_order [OF assms(1)] by blast
    with findOrder_tablesSet [OF tab, of i] assms(2-5) show ?thesis by (auto split: if_splits)
  qed
qed

text \<open>C4. What a webhook may do to orders and payments, in every state and whatever the event says: nothing at
all; or it makes the order whose reference is the charge and the latest payment of that order paid; or it makes that
payment failed and clears the reference of that order. It pays only when it announces the completion of the charge, the order is
not paid, cancelled or refunded, the payment is not paid, and the charge as Omise itself returns it is successful and of exactly
the order total in satang. It fails only when the event is a failure or the charge, as Omise returns it if there is a key,
has failed; not for a cancelled or refunded order when the event says so. All other orders and payments stay.\<close>

theorem webhook_pays_verified_charge_only:
  "let t = snd (handleWebhook env api om ev s) in
     dbOrders t = dbOrders s \<and> dbPayments t = dbPayments s \<or>
     (\<exists>ord p cid c. ev_key ev = Some ''charge.complete'' \<and> ev_id ev = Some cid \<and> orderOfCharge s cid = Some ord \<and>
        o_paymentReference ord = Some cid \<and> latestPayment s (o_id ord) = Some p \<and>
        o_status ord \<notin> {OS_PAID, OS_CANCELLED, OS_REFUNDED} \<and> py_status p \<noteq> PY_PAID \<and>
        ca_secretKey api \<noteq> [] \<and> ca_get api (length (dbEffects s)) cid = Inr c \<and> ch_status c = ''successful'' \<and>
        ch_amount c = Some (js_round (o_total ord * 100)) \<and>
        dbOrders t = saveRow o_id (stampOrder env s (ord\<lparr>o_status := OS_PAID, o_paymentReference := Some cid, o_paidAt := Some (envNow env)\<rparr>))
          (dbOrders s) \<and>
        dbPayments t = saveRow py_id (stampPayment env s (p\<lparr>py_status := PY_PAID\<rparr>)) (dbPayments s)) \<or>
     (\<exists>ord p cid. ev_id ev = Some cid \<and> orderOfCharge s cid = Some ord \<and> o_paymentReference ord = Some cid \<and>
        latestPayment s (o_id ord) = Some p \<and>
        (if ca_secretKey api \<noteq> []
         then \<exists>c. ca_get api (length (dbEffects s)) cid = Inr c \<and> (ev_key ev = Some ''charge.fail'' \<or> ch_status c = ''failed'')
         else ev_key ev = Some ''charge.fail'' \<or> ev_status ev = Some ''failed'') \<and>
        \<not> ((ev_key ev = Some ''charge.fail'' \<or> ev_status ev = Some ''failed'') \<and> o_status ord \<in> {OS_CANCELLED, OS_REFUNDED}) \<and>
        dbOrders t = saveRow o_id (stampOrder env s (ord\<lparr>o_paymentReference := None\<rparr>)) (dbOrders s) \<and>
        dbPayments t = saveRow py_id (stampPayment env s (p\<lparr>py_status := PY_FAILED\<rparr>)) (dbPayments s))"
proof -
  let ?t = "snd (handleWebhook env api om ev s)"
  consider (same) "dbOrders ?t = dbOrders s" "dbPayments ?t = dbPayments s"
    | (paid) ord p where "webhookPaid env api ev s ord p ?t" | (failed) ord p where "webhookFailed env api ev s ord p ?t"
    using webhook_outcome [of env api ev s om] by (auto simp: webhookOutcome_def)
  then show ?thesis
  proof cases
    case same
    then show ?thesis by (simp add: Let_def)
  next
    case paid
    then show ?thesis
      unfolding Let_def webhookPaid_def webhookIgnored_def tablesSet_def paidBefore_def
      by - (rule disjI2, rule disjI1, auto dest: orderOfCharge_Some)
  next
    case failed
    then obtain cid where "ev_id ev = Some cid" by (cases "ev_id ev") (auto simp: webhookFailed_def)
    with failed show ?thesis
      unfolding Let_def webhookFailed_def webhookIgnored_def tablesSet_def saysFailed_def
      by - (rule disjI2, rule disjI2, auto dest: orderOfCharge_Some)
  qed
qed

definition completeEvent :: "string \<Rightarrow> omise_event" where
  "completeEvent c = \<lparr>ev_key = Some ''charge.complete'', ev_object = Some ''charge'', ev_id = Some c, ev_status = Some ''successful'',
     ev_paid = Some True, ev_verified = None, ev_active = None, ev_failureCode = None, ev_failureMessage = None\<rparr>"

lemma completeEvent_simps [simp]:
  "ev_key (completeEvent c) = Some ''charge.complete''" "ev_id (completeEvent c) = Some c" "ev_status (completeEvent c) = Some ''successful''"
  by (simp_all add: completeEvent_def)

definition qrPayment :: payment_row where
  "qrPayment = (newPaymentRow sampleIds ''p'' ''o'' 20 ''THB'' PM_PROMPTPAY)\<lparr>py_omiseChargeId := Some ''chrg''\<rparr>"

text \<open>An order with a pending QR charge, in a given status.\<close>

definition sampleCharged :: "order_status \<Rightarrow> db" where
  "sampleCharged st = sampleUnpaid\<lparr>dbOrders := [unpaidOrder\<lparr>o_status := st, o_paymentReference := Some ''chrg''\<rparr>], dbPayments := [qrPayment]\<rparr>"

lemma sampleCharged_facts:
  "uniqueKey o_id (dbOrders (sampleCharged st))"
  "findOrder (sampleCharged st) ''o'' = Some (unpaidOrder\<lparr>o_status := st, o_paymentReference := Some ''chrg''\<rparr>)"
  "orderOfCharge (sampleCharged st) ''chrg'' = Some (unpaidOrder\<lparr>o_status := st, o_paymentReference := Some ''chrg''\<rparr>)"
  "latestPayment (sampleCharged st) ''o'' = Some qrPayment" "py_status qrPayment = PY_PENDING"
  "dbEffects (sampleCharged st) = []"
  by (simp_all add: sampleCharged_def sampleUnpaid_def unpaidOrder_def uniqueKey_def findOrder_def orderOfCharge_def latestPayment_def
      paymentsOf_def qrPayment_def newPaymentRow_def empty_db_def sampleIds_def)

lemma unpaidOrder_simps [simp]: "o_id unpaidOrder = ''o''" "o_total unpaidOrder = 20" "o_customerId unpaidOrder = Some ''c''"
  by (simp_all add: unpaidOrder_def sampleOrder_def)

lemma sampleCharged_payment: "findPayment (sampleCharged st) ''p'' = Some qrPayment"
  by (simp add: sampleCharged_def findPayment_def qrPayment_def)

lemma sampleCharged_inv: "chargeInv sampleIds (sampleCharged st)"
  by (auto simp: chargeInv_def sampleCharged_def sampleUnpaid_def empty_db_def sampleIds_def uniqueKey_def pendingPayments_def paymentsOf_def inj_def
      qrPayment_def)

lemma complete_is_charge [simp]: "handleWebhook env api om (completeEvent c) = handleChargeEvent env api (completeEvent c)"
  by (simp add: handleWebhook_def completeEvent_def startsWith_def fun_eq_iff)

lemma sample_completes:
  assumes "st \<notin> terminalOrderStatuses" and "st \<noteq> OS_PAID"
  shows "handleChargeEvent sampleIds sampleCharges (completeEvent ''chrg'') (sampleCharged st) =
    markOrderPaid sampleIds (unpaidOrder\<lparr>o_status := st, o_paymentReference := Some ''chrg''\<rparr>) qrPayment ''chrg'' (sampleCharged st)"
  using assms
  by (simp add: handleChargeEvent_def sampleCharged_facts webhookIgnored_def chargeVerdict_def sampleCharges_def terminalOrderStatuses_def Let_def
      js_round_of_int [of 2000, simplified])

section \<open>Payments over any run\<close>



text \<open>Redelivery is harmless: once a webhook has made an order paid, the same event delivered again, at any
later time and whatever the gateway then answers, changes nothing and sends nothing.\<close>

theorem paid_webhook_redelivery:
  assumes "uniqueKey o_id (dbOrders s)" and "findOrder s i = Some ord" and "o_status ord \<noteq> OS_PAID"
    and "findOrder (snd (handleWebhook env api om ev s)) i = Some ord'" and "o_status ord' = OS_PAID"
  shows "handleWebhook env' api' om' ev (snd (handleWebhook env api om ev s)) = (Inr (), snd (handleWebhook env api om ev s))"
proof -
  let ?t = "snd (handleWebhook env api om ev s)"
  obtain p where paid: "webhookPaid env api ev s ord p ?t" using becomes_paid [OF assms] by blast
  then obtain cid where ev: "ev_id ev = Some cid" "ev_key ev = Some ''charge.complete''" and ord: "orderOfCharge s cid = Some ord"
    and tab: "tablesSet env s (paidBefore env ord cid) (p\<lparr>py_status := PY_PAID\<rparr>) ?t" by (auto simp: webhookPaid_def)
  let ?r = "stampOrder env s (paidBefore env ord cid)"
  have "findOrder s (o_id ord) = Some ord" by (rule webhookPaid_order [OF paid assms(1)])
  then have "dbOrders ?t = map (\<lambda>x. if o_id x = o_id ord then ?r else x) (dbOrders s)"
    using saveRow_present [of o_id ?r "dbOrders s"] tab assms(1) by (simp add: tablesSet_def findOrder_def paidBefore_def)
  moreover have "List.find (\<lambda>x. o_paymentReference x = Some cid) (map (\<lambda>x. if o_id x = o_id ord then ?r else x) xs) = Some ?r"
    if "List.find (\<lambda>x. o_paymentReference x = Some cid) xs = Some ord" for xs
    using that by (induction xs) (auto simp: paidBefore_def stampOrder_def split: if_splits)
  ultimately have "orderOfCharge ?t cid = Some ?r" using ord by (simp add: orderOfCharge_def)
  moreover have "o_status ?r = OS_PAID" by (simp add: paidBefore_def)
  ultimately have "handleChargeEvent env' api' ev ?t = (Inr (), ?t)"
    using ev by (simp add: handleChargeEvent_def webhookIgnored_def split: option.split)
  then show ?thesis using ev(2) by (simp add: handleWebhook_def startsWith_def)
qed

theorem paid_webhook_redelivery_witness:
  "handleWebhook sampleClock sampleCharges sampleGateway (completeEvent ''chrg'')
     (snd (handleWebhook sampleIds sampleCharges sampleGateway (completeEvent ''chrg'') (sampleCharged OS_PENDING_PAYMENT))) =
   (Inr (), snd (handleWebhook sampleIds sampleCharges sampleGateway (completeEvent ''chrg'') (sampleCharged OS_PENDING_PAYMENT)))"
proof -
  let ?s = "sampleCharged OS_PENDING_PAYMENT" and ?o = "unpaidOrder\<lparr>o_status := OS_PENDING_PAYMENT, o_paymentReference := Some ''chrg''\<rparr>"
  let ?t = "snd (handleWebhook sampleIds sampleCharges sampleGateway (completeEvent ''chrg'') ?s)"
  have "tablesSet sampleIds ?s (paidBefore sampleIds ?o ''chrg'') (qrPayment\<lparr>py_status := PY_PAID\<rparr>) ?t"
    using wp_invariant [OF markOrderPaid_tables] by (simp add: sample_completes terminalOrderStatuses_def)
  from findOrder_tablesSet [OF this, of "''o''"]
  have "findOrder ?t ''o'' = Some (stampOrder sampleIds ?s (paidBefore sampleIds ?o ''chrg''))" by (simp add: paidBefore_def)
  from paid_webhook_redelivery [OF sampleCharged_facts(1,2) _ this] show ?thesis by (simp add: paidBefore_def)
qed

text \<open>C31. A completed charge resets an order that has already moved on. The vendor may have marked the order
paid, accepted and shipped it while its QR charge was open; when the charge then completes, the status goes
back to paid from processing, on hold, shipped or delivered, and the customer of a shipped order can no longer
confirm its delivery.\<close>

theorem late_charge_resets_order:
  assumes "orderOfCharge s cid = Some ord" and "latestPayment s (o_id ord) = Some p" and "py_status p \<noteq> PY_PAID" and "cid \<noteq> []"
    and "o_status ord \<in> {OS_PROCESSING, OS_ON_HOLD, OS_SHIPPED, OS_DELIVERED}"
    and "ca_secretKey api \<noteq> []" and "ca_get api (length (dbEffects s)) cid = Inr c" and "ch_status c = ''successful''"
    and "ch_amount c = Some (js_round (o_total ord * 100))" and "truthy (o_customerId ord)"
  shows "\<exists>ord'. findOrder (snd (handleWebhook env api om (completeEvent cid) s)) (o_id ord) = Some ord' \<and> o_status ord' = OS_PAID \<and>
     fst (confirmOrderDelivered env' hash (o_id ord) (o_customerId ord) None None (snd (handleWebhook env api om (completeEvent cid) s))) =
       Inl (BadRequest ''INVALID_ORDER_STATUS'')"
proof -
  let ?t = "snd (handleWebhook env api om (completeEvent cid) s)"
  have "handleChargeEvent env api (completeEvent cid) s = markOrderPaid env ord p cid s"
    using assms(1-9) by (auto simp: handleChargeEvent_def webhookIgnored_def chargeVerdict_def Let_def)
  then have "tablesSet env s (paidBefore env ord cid) (p\<lparr>py_status := PY_PAID\<rparr>) ?t"
    using wp_invariant [OF markOrderPaid_tables] by simp
  from findOrder_tablesSet [OF this, of "o_id ord"]
  have t: "findOrder ?t (o_id ord) = Some (stampOrder env s (paidBefore env ord cid))" by (simp add: paidBefore_def)
  moreover have "o_customerId (stampOrder env s (paidBefore env ord cid)) = o_customerId ord"
    "o_status (stampOrder env s (paidBefore env ord cid)) = OS_PAID" by (simp_all add: paidBefore_def)
  ultimately show ?thesis
    using assms(10) by (simp add: confirmOrderDelivered_def loadOrderWithItems_def assertDeliveryAccess_def)
qed

theorem late_charge_resets_order_witness:
  "\<exists>ord'. findOrder (snd (handleWebhook sampleIds sampleCharges sampleGateway (completeEvent ''chrg'') (sampleCharged OS_SHIPPED))) ''o'' = Some ord' \<and>
     o_status ord' = OS_PAID \<and>
     fst (confirmOrderDelivered sampleIds id ''o'' (Some ''c'') None None
       (snd (handleWebhook sampleIds sampleCharges sampleGateway (completeEvent ''chrg'') (sampleCharged OS_SHIPPED)))) =
       Inl (BadRequest ''INVALID_ORDER_STATUS'')"
  using late_charge_resets_order [OF sampleCharged_facts(3) [of OS_SHIPPED], of qrPayment sampleCharges
      "\<lparr>ch_id = ''chrg'', ch_status = ''successful'', ch_amount = Some 2000, ch_authorizeUri = None, ch_qrCodeUrl = None\<rparr>"
      sampleIds sampleGateway sampleIds id]
  by (simp add: sampleCharged_facts sampleCharges_def js_round_of_int [of 2000, simplified])

end
