(* ===== verification/Charge_Proofs.thy ===== *)
theory Charge_Proofs
  imports Payment_Proofs
begin

text \<open>
  What \<open>createCharge\<close> asks of the gateway and leaves behind: the amount charged, what a refused call
  keeps, what happens to a charge that was superseded, and that an unpaid order can always be switched
  to an offline method. Then the expiry job and the signature of a webhook.
\<close>

section \<open>What is charged\<close>

fun chargesOf :: "effect list \<Rightarrow> (string \<times> int) list" where
  "chargesOf [] = []"
| "chargesOf (ChargeRequested i a # es) = (i, a) # chargesOf es"
| "chargesOf (_ # es) = chargesOf es"

lemma chargesOf_append [simp]: "chargesOf (xs @ ys) = chargesOf xs @ chargesOf ys"
  by (induction xs rule: chargesOf.induct) simp_all

definition chargeFrame :: "(string \<times> int) list \<Rightarrow> db \<Rightarrow> bool" where
  "chargeFrame cs v \<longleftrightarrow> chargesOf (dbEffects v) = cs"

lemma chargeFrame_simps [simp]:
  "chargeFrame cs (v\<lparr>dbOrders := a\<rparr>) = chargeFrame cs v" "chargeFrame cs (v\<lparr>dbPayments := b\<rparr>) = chargeFrame cs v"
  "chargeFrame cs (v\<lparr>idCount := c\<rparr>) = chargeFrame cs v" "chargeFrame cs (v\<lparr>dbAudits := d\<rparr>) = chargeFrame cs v"
  by (simp_all add: chargeFrame_def)

lemma chargeFrame_emit: "chargesOf [e] = [] \<Longrightarrow> preserves (chargeFrame cs) (emit e)"
  by (simp add: preserves_def chargeFrame_def)

lemma chargeFrame_basic [pres]:
  "preserves (chargeFrame cs) (saveOrder env ord)" "preserves (chargeFrame cs) (savePayment env p)"
  "preserves (chargeFrame cs) (freshId env)" "preserves (chargeFrame cs) (appendAudit env i ev ac a l st d)"
  by (auto simp: saveOrder_def preserves_def savePayment_def appendAudit_def intro!: pres)

lemma chargeFrame_sends [pres]:
  "preserves (chargeFrame cs) (publishPaymentStatusUpdated p)" "preserves (chargeFrame cs) (notifyOrderPaid env i)"
  "preserves (chargeFrame cs) (emit (VendorWebhook i w))" "preserves (chargeFrame cs) (emit (ChargeCancelRequested i))"
  "preserves (chargeFrame cs) (publishOrderPaidActivity i)"
  unfolding publishPaymentStatusUpdated_def notifyOrderPaid_def publishOrderPaidActivity_def
  by (intro pres preserves_seq preserves_failIf preserves_get preserves_prod chargeFrame_emit; simp)+

lemma chargeFrame_steps [pres]:
  "preserves (chargeFrame cs) (supersedePendingPaymentsForOrder env i)"
  "preserves (chargeFrame cs) (pointOrder env ord m ref)"
  "preserves (chargeFrame cs) (cancelPendingOmiseChargesForOrder api ord)"
  "preserves (chargeFrame cs) (markOrderPaid env ord p c)"
  unfolding supersedePendingPaymentsForOrder_def pointOrder_def appendPaymentMethodChangedIfNeeded_def
    cancelPendingOmiseChargesForOrder_def cancelOmiseChargeBestEffort_def markOrderPaid_def
  by (auto intro!: pres split: cancel_answer.split)

lemma chargeFrame_offline: "preserves (chargeFrame cs) (createOffline env config dto m ord)"
  unfolding createOffline_def
  by (intro preserves_seq preserves_lift preserves_ret chargeFrame_basic chargeFrame_steps)

lemma chargeBody_amount: "chargeBody env config dto m amount i s = Inr b \<Longrightarrow> cb_amount b = amount"
  by (auto simp: chargeBody_def applyOmiseReturnUri_def Let_def split: if_splits sum.splits)

text \<open>At most one charge, of the amount in satang.\<close>

definition chargedAtMost :: "(string \<times> int) list \<Rightarrow> int \<Rightarrow> db \<Rightarrow> bool" where
  "chargedAtMost cs amount t \<longleftrightarrow> chargesOf (dbEffects t) = cs \<or> (\<exists>i. chargesOf (dbEffects t) = cs @ [(i, amount)])"

lemma atMost_kept:
  assumes "\<And>cs. preserves (chargeFrame cs) m" and "chargedAtMost cs a s"
  shows "wp m (\<lambda>_. chargedAtMost cs a) (\<lambda>_. chargedAtMost cs a) s"
proof -
  have "wp m (\<lambda>_. chargeFrame (chargesOf (dbEffects s))) (\<lambda>_. chargeFrame (chargesOf (dbEffects s))) s"
    by (rule wp_preserves [OF assms(1)]) (simp add: chargeFrame_def)
  then show ?thesis by (rule wp_conseq) (use assms(2) in \<open>simp_all add: chargeFrame_def chargedAtMost_def\<close>)
qed

lemma atMost_start: "chargeFrame cs s \<Longrightarrow> chargedAtMost cs a s"
  by (simp add: chargeFrame_def chargedAtMost_def)

lemma requestCharge_atMost:
  assumes "chargeFrame cs s" and "\<And>c t. chargedAtMost cs (cb_amount body) t \<Longrightarrow> wp (f c) (\<lambda>_. chargedAtMost cs a) (\<lambda>_. chargedAtMost cs a) t"
    and "cb_amount body = a"
  shows "wp (seqM (requestCharge api i body) f) (\<lambda>_. chargedAtMost cs a) (\<lambda>_. chargedAtMost cs a) s"
  using assms by (auto simp: requestCharge_def wp chargedAtMost_def chargeFrame_def split: sum.split)

lemma online_charges:
  assumes "chargeFrame cs s"
  shows "wp (createOnline env config api dto m ord) (\<lambda>_. chargedAtMost cs (js_round (o_total ord * 100)))
    (\<lambda>_. chargedAtMost cs (js_round (o_total ord * 100))) s"
proof -
  let ?a = "js_round (o_total ord * 100)"
  have save: "wp (seqM (savePayment env p) (\<lambda>payment. seqM (pointOrder env ord m ref) (\<lambda>ord'.
       seqM (if b then seqM (publishPaymentStatusUpdated payment) (\<lambda>_. emit (VendorWebhook w x)) else retM ())
         (\<lambda>_. retM (r, if c then Some (ord', payment, i) else None))))) (\<lambda>_. chargedAtMost cs ?a) (\<lambda>_. chargedAtMost cs ?a) t"
    if "chargedAtMost cs ?a t" for p ref b w x r c i t
    by (rule atMost_kept [OF _ that]) (intro preserves_seq preserves_if preserves_ret chargeFrame_basic chargeFrame_steps chargeFrame_sends)
  have body: "wp (seqM (readM (chargeBody env config dto m ?a i)) f) (\<lambda>_. chargedAtMost cs ?a) (\<lambda>_. chargedAtMost cs ?a) t"
    if "chargeFrame cs t" "\<And>b. cb_amount b = ?a \<Longrightarrow> wp (f b) (\<lambda>_. chargedAtMost cs ?a) (\<lambda>_. chargedAtMost cs ?a) t" for i f t
    using that by (auto simp: wp chargedAtMost_def chargeFrame_def dest: chargeBody_amount split: sum.split)
  show ?thesis
    unfolding createOnline_def Let_def wp_seq [of "failIf b e" for b e] wp_failIf wp_seq [of "freshId e" for e] wp_freshId
      wp_seq [of "savePayment e (newPaymentRow a b c d f g)" for e a b c d f g] savePayment_wp
    using assms by (cases "ca_secretKey api = []")
      (auto simp: atMost_start split del: if_split intro!: body requestCharge_atMost save)
qed


definition payableOrder :: "db \<Rightarrow> string \<Rightarrow> order_row \<Rightarrow> bool" where
  "payableOrder s i ord \<longleftrightarrow> findOrder s i = Some ord \<and> o_status ord = OS_PENDING_PAYMENT \<and>
     \<not> orderHasHeldItems (orderItems s i) \<and> 0 \<le> o_total ord"

definition rightCharge :: "db \<Rightarrow> string \<Rightarrow> (string \<times> int) list \<Rightarrow> db \<Rightarrow> bool" where
  "rightCharge s i cs t \<longleftrightarrow> chargesOf (dbEffects t) = cs \<or>
     (\<exists>ord p. payableOrder s i ord \<and> chargesOf (dbEffects t) = cs @ [(p, js_round (o_total ord * 100))])"

lemma rightCharge_sent [simp]: "rightCharge s i cs (u\<lparr>idCount := n, dbEffects := dbEffects t\<rparr>) = rightCharge s i cs t"
  by (simp add: rightCharge_def)

lemma rightCharge_kept:
  assumes "\<And>cs. preserves (chargeFrame cs) m" and "rightCharge s i cs t"
  shows "wp m (\<lambda>_. rightCharge s i cs) (\<lambda>_. rightCharge s i cs) t"
proof -
  have "wp m (\<lambda>_. chargeFrame (chargesOf (dbEffects t))) (\<lambda>_. chargeFrame (chargesOf (dbEffects t))) t"
    by (rule wp_preserves [OF assms(1)]) (simp add: chargeFrame_def)
  then show ?thesis by (rule wp_conseq) (use assms(2) in \<open>simp_all add: chargeFrame_def rightCharge_def\<close>)
qed

lemma branch_charges:
  assumes "chargeFrame cs t" and "payableOrder s i ord"
  shows "wp (if isNonOmiseCheckoutPaymentMethod m then seqM (createOffline env config dto m ord) (\<lambda>r. retM (r, None))
      else createOnline env config api dto m ord) (\<lambda>_. rightCharge s i cs) (\<lambda>_. rightCharge s i cs) t"
proof -
  have off: "wp (seqM (createOffline env config dto m ord) (\<lambda>r. retM (r, None))) (\<lambda>_. rightCharge s i cs) (\<lambda>_. rightCharge s i cs) t"
    by (rule rightCharge_kept, intro preserves_seq preserves_ret chargeFrame_offline)
      (use assms(1) in \<open>simp add: rightCharge_def chargeFrame_def\<close>)
  have on: "rightCharge s i cs u" if "chargedAtMost cs (js_round (o_total ord * 100)) u" for u
    using that assms(2) by (auto simp: rightCharge_def chargedAtMost_def)
  have "wp (createOnline env config api dto m ord) (\<lambda>_. rightCharge s i cs) (\<lambda>_. rightCharge s i cs) t"
    by (rule wp_conseq [OF online_charges [OF assms(1)]]) (simp_all add: on)
  with off show ?thesis by (cases "isNonOmiseCheckoutPaymentMethod m") (simp_all only: if_True if_False)
qed

lemma lock_charges:
  assumes "chargeFrame cs s" and "dbOrders s = dbOrders s0" and "dbItems s = dbItems s0"
  shows "wp (chargeUnderLock env config api dto m) (\<lambda>_. rightCharge s0 (cc_orderId dto) cs) (\<lambda>_. rightCharge s0 (cc_orderId dto) cs) s"
proof -
  let ?R = "rightCharge s0 (cc_orderId dto) cs"
  have R: "?R t" if "chargeFrame cs t" for t using that by (simp add: rightCharge_def chargeFrame_def)
  have "wp (seqM (supersedePendingPaymentsForOrder env (cc_orderId dto)) (\<lambda>_. seqM (failIf (o_total ord < 0) e) (\<lambda>_.
      if isNonOmiseCheckoutPaymentMethod m then seqM (createOffline env config dto m ord) (\<lambda>r. retM (r, None))
      else createOnline env config api dto m ord))) (\<lambda>_. ?R) (\<lambda>_. ?R) s"
    if ord: "findOrder s (cc_orderId dto) = Some ord" "o_status ord = OS_PENDING_PAYMENT" "\<not> orderHasHeldItems (orderItems s (cc_orderId dto))" for ord e
  proof -
    have pay: "payableOrder s0 (cc_orderId dto) ord" if "\<not> o_total ord < 0"
      using ord that assms(2,3) by (simp add: payableOrder_def findOrder_def orderItems_def)
    have "wp (seqM (failIf (o_total ord < 0) e) (\<lambda>_.
      if isNonOmiseCheckoutPaymentMethod m then seqM (createOffline env config dto m ord) (\<lambda>r. retM (r, None))
      else createOnline env config api dto m ord)) (\<lambda>_. ?R) (\<lambda>_. ?R) t" if "chargeFrame cs t" for t
      by (cases "o_total ord < 0") (use branch_charges [OF that pay] R [OF that] in \<open>simp_all add: wp_seq wp_failIf wp_raise split del: if_split\<close>)
    then show ?thesis
      unfolding wp_seq [of "supersedePendingPaymentsForOrder a c" for a c]
      by (intro wp_conseq [OF wp_preserves [OF chargeFrame_steps(1) assms(1)]]) (auto intro: R)
  qed
  then show ?thesis
    using R [OF assms(1)]
    by (auto simp: chargeUnderLock_def assertOrderPayableForCreate_def wp_seq [of "getM f" for f] wp_get wp_raise wp_seq [of "liftM f" for f] wp_lift
        split: option.split sum.split)
qed


lemma phaseA_frame:
  "preserves (\<lambda>v. chargeFrame cs v \<and> dbOrders v = os \<and> dbItems v = its) (cancelPendingOmiseChargesForOrder api ord)"
proof -
  have "preserves (\<lambda>v. chargeFrame cs v \<and> dbOrders v = os \<and> dbItems v = its) (emit (ChargeCancelRequested i))" for i
    by (simp add: preserves_def chargeFrame_def)
  then show ?thesis
    unfolding cancelPendingOmiseChargesForOrder_def cancelOmiseChargeBestEffort_def
    by (auto intro!: pres simp: chargeFrame_def split: cancel_answer.split)
qed

lemma createCharge_charges:
  "wp (createCharge env hash config api dto) (\<lambda>_. rightCharge s (cc_orderId dto) (chargesOf (dbEffects s)))
     (\<lambda>_. rightCharge s (cc_orderId dto) (chargesOf (dbEffects s))) s"
proof -
  let ?cs = "chargesOf (dbEffects s)" and ?i = "cc_orderId dto"
  let ?R = "rightCharge s ?i ?cs"
  have R: "?R s" by (simp add: rightCharge_def)
  have finish: "wp (case paid of None \<Rightarrow> retM r | Some (ord, p, c) \<Rightarrow> seqM (markOrderPaid env ord p c) (\<lambda>_. retM r))
      (\<lambda>_. ?R) (\<lambda>_. ?R) t" if "?R t" for paid r t
    by (rule rightCharge_kept [OF _ that]) (intro preserves_option preserves_prod preserves_seq preserves_ret chargeFrame_steps)
  have lock: "wp (seqM (txnSent (chargeUnderLock env config api dto m)) (\<lambda>(r, paid). case paid of None \<Rightarrow> retM r
      | Some (ord, p, c) \<Rightarrow> seqM (markOrderPaid env ord p c) (\<lambda>_. retM r))) (\<lambda>_. ?R) (\<lambda>_. ?R) t"
    if "chargeFrame ?cs t" "dbOrders t = dbOrders s" "dbItems t = dbItems s" for t m
    unfolding wp_seq [of "txnSent x" for x] txnSent_wp
    by (rule wp_conseq [OF lock_charges [OF that]]) (auto intro: finish split: prod.split)
  have access: "wp (assertCanPayForOrder env hash i c g) (\<lambda>_ t. t = s) (\<lambda>_ t. t = s) s" for i c g
    by (auto simp: assertCanPayForOrder_def wp split: option.split sum.split)
  have phaseA: "wp (cancelPendingOmiseChargesForOrder api ord) (\<lambda>_ t. chargeFrame ?cs t \<and> dbOrders t = dbOrders s \<and> dbItems t = dbItems s)
      (\<lambda>_ t. chargeFrame ?cs t \<and> dbOrders t = dbOrders s \<and> dbItems t = dbItems s) s" for ord
    by (rule wp_preserves [OF phaseA_frame]) (simp add: chargeFrame_def)
  have "?R t" if "chargeFrame ?cs t" for t using that by (simp add: rightCharge_def chargeFrame_def)
  then show ?thesis
    unfolding createCharge_def wp_seq [of "liftM x" for x] wp_lift wp_seq [of "assertCanPayForOrder a b c d e" for a b c d e]
    by (auto simp: R wp_seq [of "getM f" for f] wp_seq [of "liftM f" for f] wp_seq [of "cancelPendingOmiseChargesForOrder a b" for a b]
        wp_lift wp_get split: sum.split intro!: wp_conseq [OF access] wp_conseq [OF phaseA] lock)
qed

text \<open>C5. Whatever the request and the answers of the gateway are, a request to pay sends at most one charge, and
  only for an order that awaits payment and of which no line is held; the charge is the total of that order in satang.\<close>

theorem charge_is_order_total:
  "chargesOf (dbEffects (snd (createCharge env hash config api dto s))) = chargesOf (dbEffects s) \<or>
    (\<exists>ord p. findOrder s (cc_orderId dto) = Some ord \<and> o_status ord = OS_PENDING_PAYMENT \<and>
       \<not> orderHasHeldItems (orderItems s (cc_orderId dto)) \<and> 0 \<le> o_total ord \<and>
       chargesOf (dbEffects (snd (createCharge env hash config api dto s))) =
         chargesOf (dbEffects s) @ [(p, js_round (o_total ord * 100))])"
  using wp_invariant [OF createCharge_charges [of env hash config api dto s]]
  unfolding rightCharge_def payableOrder_def by blast


section \<open>What a refused request leaves behind\<close>

definition sameTables :: "db \<Rightarrow> db \<Rightarrow> bool" where
  "sameTables s t \<longleftrightarrow> (\<exists>n es. t = s\<lparr>idCount := n, dbEffects := es\<rparr>)"

lemma sameTables_refl [simp]: "sameTables s s"
  unfolding sameTables_def by (rule exI [of _ "idCount s"], rule exI [of _ "dbEffects s"]) simp

lemma sameTables_set [simp]: "sameTables s (s\<lparr>idCount := n, dbEffects := es\<rparr>)"
  unfolding sameTables_def by (rule exI, rule exI, rule refl)

lemma sameTablesE: "sameTables s t \<Longrightarrow> (\<And>n es. t = s\<lparr>idCount := n, dbEffects := es\<rparr> \<Longrightarrow> P) \<Longrightarrow> P"
  by (auto simp: sameTables_def)

lemma sameTables_sent: "sameTables s t \<Longrightarrow> sameTables s (t\<lparr>idCount := n, dbEffects := es\<rparr>)"
  by (auto elim!: sameTablesE)

lemma sameTables_emit: "preserves (sameTables s) (emit e)"
  by (auto simp: preserves_def elim!: sameTablesE)

lemma phaseA_same: "preserves (sameTables s) (cancelPendingOmiseChargesForOrder api ord)"
  unfolding cancelPendingOmiseChargesForOrder_def cancelOmiseChargeBestEffort_def
  by (auto intro!: preserves_seq preserves_if preserves_ret preserves_get preserves_forM preserves_prod sameTables_emit
      split: cancel_answer.split)

lemma markOrderPaid_raises:
  "wp (markOrderPaid env ord p c) (\<lambda>_ _. True) (\<lambda>e _. e = Failure ''Failed to send email'') s"
  by (simp add: markOrderPaid_def wp Let_def publishOrderPaidActivity_def split: prod.split)

lemma createCharge_refused:
  "wp (createCharge env hash config api dto) (\<lambda>_ _. True) (\<lambda>e t. e = Failure ''Failed to send email'' \<or> sameTables s t) s"
proof -
  let ?E = "\<lambda>e t. e = Failure ''Failed to send email'' \<or> sameTables s t"
  have finish: "wp (case paid of None \<Rightarrow> retM r | Some (ord, p, c) \<Rightarrow> seqM (markOrderPaid env ord p c) (\<lambda>_. retM r))
      (\<lambda>_ _. True) ?E t" for paid r t
    by (auto simp: wp_ret wp_seq split: option.split prod.split intro!: wp_conseq [OF markOrderPaid_raises])
  have lock: "wp (seqM (txnSent (chargeUnderLock env config api dto m)) (\<lambda>(r, paid). case paid of None \<Rightarrow> retM r
      | Some (ord, p, c) \<Rightarrow> seqM (markOrderPaid env ord p c) (\<lambda>_. retM r))) (\<lambda>_ _. True) ?E t" if "sameTables s t" for t m
    unfolding wp_seq [of "txnSent x" for x] txnSent_wp
    by (rule wpI) (auto intro: finish sameTables_sent [OF that] split: prod.split)
  have access: "wp (assertCanPayForOrder env hash i c g) (\<lambda>_ t. t = s) (\<lambda>_ t. t = s) s" for i c g
    by (auto simp: assertCanPayForOrder_def wp split: option.split sum.split)
  have phaseA: "wp (cancelPendingOmiseChargesForOrder api ord) (\<lambda>_. sameTables s) (\<lambda>_. sameTables s) s" for ord
    by (rule wp_preserves [OF phaseA_same]) simp
  show ?thesis
    unfolding createCharge_def wp_seq [of "liftM x" for x] wp_lift wp_seq [of "assertCanPayForOrder a b c d e" for a b c d e]
    by (auto simp: wp_seq [of "getM f" for f] wp_seq [of "liftM f" for f] wp_seq [of "cancelPendingOmiseChargesForOrder a b" for a b]
        wp_lift wp_get split: sum.split intro!: wp_conseq [OF access] wp_conseq [OF phaseA] lock)
qed

text \<open>C32. A request to pay that is refused, whatever the reason, leaves every table as it was; only calls that
  were sent and ids that were drawn remain. (A mail that fails is an exception after the commit.) The pending payment
  of before is then still pending, although its charge has been asked to be cancelled, as the example shows.\<close>

theorem refused_charge_keeps_tables:
  assumes "createCharge env hash config api dto s = (Inl e, t)" and "e \<noteq> Failure ''Failed to send email''"
  shows "t = s\<lparr>idCount := idCount t, dbEffects := dbEffects t\<rparr>"
  using wp_Inl [OF createCharge_refused assms(1)] assms(2) by (auto simp: sameTables_def)


definition refusingCharges :: charge_api where
  "refusingCharges = sampleCharges\<lparr>ca_create := (\<lambda>_ _. Inl (GE_Rejected ''card declined'')), ca_expire := (\<lambda>_ _. CA_OK)\<rparr>"

definition refusedRun :: "charge_result result \<times> db" where
  "refusedRun = createCharge sampleIds id samplePayConfig refusingCharges (sampleDto ''promptpay'') (sampleCharged OS_PENDING_PAYMENT)"

lemma refusedRun_evaluated:
  "fst refusedRun = Inl (BadRequest ''OMISE_ERROR'')" "ChargeCancelRequested ''chrg'' \<in> set (dbEffects (snd refusedRun))"
  by code_simp+

theorem refused_charge_keeps_tables_witness:
  "pendingPayments (snd refusedRun) ''o'' = [qrPayment] \<and> ChargeCancelRequested ''chrg'' \<in> set (dbEffects (snd refusedRun))"
proof -
  have "createCharge sampleIds id samplePayConfig refusingCharges (sampleDto ''promptpay'') (sampleCharged OS_PENDING_PAYMENT) =
      (Inl (BadRequest ''OMISE_ERROR''), snd refusedRun)"
    using refusedRun_evaluated(1) unfolding refusedRun_def [symmetric] by (simp add: prod_eq_iff)
  from refused_charge_keeps_tables [OF this] have "dbPayments (snd refusedRun) = dbPayments (sampleCharged OS_PENDING_PAYMENT)"
    by (cases "snd refusedRun") simp
  moreover have "pendingPayments (sampleCharged OS_PENDING_PAYMENT) ''o'' = [qrPayment]" by code_simp
  ultimately show ?thesis using refusedRun_evaluated(2) by (simp add: pendingPayments_def paymentsOf_def)
qed


section \<open>Changing to cash on delivery\<close>

definition ordersFrame :: "order_row list \<Rightarrow> item_row list \<Rightarrow> payment_row list \<Rightarrow> db \<Rightarrow> bool" where
  "ordersFrame os its ps v \<longleftrightarrow> dbOrders v = os \<and> dbItems v = its \<and> dbPayments v = ps"

lemma ordersFrame_phaseA: "wp (cancelPendingOmiseChargesForOrder api ord) (\<lambda>_. ordersFrame os its ps) (\<lambda>_ _. False) s"
  if "ordersFrame os its ps s" for s
proof -
  have cancel: "wp (cancelOmiseChargeBestEffort api c m) (\<lambda>_. ordersFrame os its ps) (\<lambda>_ _. False) t" if "ordersFrame os its ps t" for c m t
    using that by (auto simp: cancelOmiseChargeBestEffort_def wp ordersFrame_def split: cancel_answer.split)
  have "wp (forM (\<lambda>(c, m). cancelOmiseChargeBestEffort api c m) xs) (\<lambda>_. ordersFrame os its ps) (\<lambda>_ _. False) s" for xs
    by (rule wp_forM) (auto intro: cancel that)
  note loop = this
  show ?thesis
    unfolding cancelPendingOmiseChargesForOrder_def wp_seq wp_get
    by (auto simp: wp_seq wp_ret that intro!: wp_conseq [OF loop])
qed

lemma supersede_orders:
  "dbOrders s = os \<Longrightarrow> wp (supersedePendingPaymentsForOrder env i) (\<lambda>_ t. dbOrders t = os) (\<lambda>_ _. False) s"
proof -
  assume s: "dbOrders s = os"
  have "wp (forM (\<lambda>p. seqM (savePayment env (p\<lparr>py_status := PY_FAILED\<rparr>)) publishPaymentStatusUpdated) xs)
      (\<lambda>_ t. dbOrders t = os) (\<lambda>_ _. False) s" for xs
    by (rule wp_forM) (auto simp: wp s)
  note loop = this
  show ?thesis
    unfolding supersedePendingPaymentsForOrder_def wp_seq wp_get
    by (auto simp: wp_ret intro!: wp_conseq [OF loop])
qed

definition onDelivery :: "order_row \<Rightarrow> order_row" where
  "onDelivery ord = ord\<lparr>o_paymentMethod := PM_COD, o_paymentReference := None\<rparr>"

definition switched :: "env \<Rightarrow> db \<Rightarrow> order_row \<Rightarrow> charge_result \<Rightarrow> db \<Rightarrow> bool" where
  "switched env s ord r t \<longleftrightarrow> cr_status r = ''pending'' \<and> cr_amount r = o_total ord \<and>
     dbOrders t = saveRow o_id (stampOrder env s (onDelivery ord)) (dbOrders s)"

lemma methodChanged_orders:
  "dbOrders u = os \<Longrightarrow> wp (appendPaymentMethodChangedIfNeeded env ord m n) (\<lambda>_ v. dbOrders v = os) (\<lambda>_ _. False) u"
  by (simp add: appendPaymentMethodChangedIfNeeded_def appendAudit_def wp_def)

lemma pointOrder_orders:
  assumes "dbOrders t = dbOrders s"
  shows "wp (pointOrder env ord PM_COD None) (\<lambda>_ v. dbOrders v = saveRow o_id (stampOrder env s (onDelivery ord)) (dbOrders s)) (\<lambda>_ _. False) t"
proof -
  have "stampOrder env t r = stampOrder env s r" for r using assms by (simp add: stampOrder_def findOrder_def)
  then show ?thesis
    unfolding pointOrder_def Let_def wp_seq saveOrder_wp onDelivery_def [symmetric] wp_ret
    by (intro methodChanged_orders) (simp add: assms)
qed

lemma offline_orders:
  assumes "dbOrders t = dbOrders s"
  shows "wp (createOffline env config dto PM_COD ord) (switched env s ord) (\<lambda>_ _. False) t"
  unfolding createOffline_def wp_seq wp_lift wp_freshId savePayment_wp
  by (auto simp: wp_ret switched_def assms intro!: wp_conseq [OF pointOrder_orders [where s = s]])

lemma switch_under_lock:
  assumes "payableOrder s (cc_orderId dto) ord" and "\<And>p. latestPayment s (cc_orderId dto) = Some p \<Longrightarrow> py_status p = PY_PENDING \<or> py_status p = PY_FAILED"
  shows "wp (chargeUnderLock env config api dto PM_COD) (\<lambda>(r, paid) t. paid = None \<and> switched env s ord r t) (\<lambda>_ _. False) s"
proof -
  have "wp (seqM (createOffline env config dto PM_COD ord) (\<lambda>r. retM (r, None)))
      (\<lambda>(r, paid) t. paid = None \<and> switched env s ord r t) (\<lambda>_ _. False) t" if "dbOrders t = dbOrders s" for t
    unfolding wp_seq by (rule wp_conseq [OF offline_orders [OF that]]) (simp_all add: wp_ret)
  note done_off = this
  have "wp (supersedePendingPaymentsForOrder env (cc_orderId dto)) (\<lambda>_. wp (seqM (createOffline env config dto PM_COD ord) (\<lambda>r. retM (r, None)))
      (\<lambda>(r, paid) t. paid = None \<and> switched env s ord r t) (\<lambda>_ _. False)) (\<lambda>_ _. False) s"
    by (rule wp_conseq [OF supersede_orders [OF refl]]) (auto intro: done_off)
  then show ?thesis
    using assms by (auto simp: chargeUnderLock_def wp_seq [of "getM f" for f] wp_get wp_seq [of "liftM f" for f] wp_lift payableOrder_def
        assertOrderPayableForCreate_def wp_seq [of "supersedePendingPaymentsForOrder a b" for a b] wp_seq [of "failIf a b" for a b] wp_failIf
        isNonOmiseCheckoutPaymentMethod_def split: option.split)
qed


lemma switch_done:
  assumes "findOrder s (cc_orderId dto) = Some ord" and "o_status ord = OS_PENDING_PAYMENT" and "0 \<le> o_total ord"
    and "\<not> orderHasHeldItems (orderItems s (cc_orderId dto))"
    and "\<And>p. latestPayment s (cc_orderId dto) = Some p \<Longrightarrow> py_status p = PY_PENDING \<or> py_status p = PY_FAILED"
    and "truthy (cc_customerId dto)" and "o_customerId ord = cc_customerId dto" and "cc_paymentMethod dto = ''cod''"
  shows "wp (createCharge env hash config api dto) (switched env s ord) (\<lambda>_ _. False) s"
proof -
  let ?F = "ordersFrame (dbOrders s) (dbItems s) (dbPayments s)"
  have m: "normalizeCheckoutPaymentMethod ''cod'' = Inr PM_COD" by code_simp
  have lock: "wp (seqM (txnSent (chargeUnderLock env config api dto PM_COD)) (\<lambda>(r, paid). case paid of None \<Rightarrow> retM r
      | Some (ord, p, c) \<Rightarrow> seqM (markOrderPaid env ord p c) (\<lambda>_. retM r))) (switched env s ord) (\<lambda>_ _. False) t" if "?F t" for t
  proof -
    have same: "findOrder t = findOrder s" "orderItems t = orderItems s" "latestPayment t = latestPayment s" "stampOrder env t = stampOrder env s"
      using that by (simp_all add: fun_eq_iff ordersFrame_def findOrder_def orderItems_def latestPayment_def paymentsOf_def stampOrder_def)
    have "switched env t ord = switched env s ord"
      using that same(4) by (simp add: fun_eq_iff switched_def ordersFrame_def)
    then have "wp (chargeUnderLock env config api dto PM_COD) (\<lambda>(r, paid) v. paid = None \<and> switched env s ord r v) (\<lambda>_ _. False) t"
      using switch_under_lock [of t dto ord env config api] assms(1-5) same by (simp add: payableOrder_def)
    then show ?thesis
      unfolding wp_seq [of "txnSent x" for x] txnSent_wp by (rule wp_conseq) (auto simp: wp_ret)
  qed
  have "wp (cancelPendingOmiseChargesForOrder api ord) (\<lambda>_. ?F) (\<lambda>_ _. False) s"
    by (rule ordersFrame_phaseA) (simp add: ordersFrame_def)
  note phaseA = this
  show ?thesis
    unfolding createCharge_def assms(8) m wp_seq [of "liftM x" for x] wp_lift wp_seq [of "assertCanPayForOrder a b c d e" for a b c d e]
    using assms(1-7)
    by (auto simp: assertCanPayForOrder_def wp_seq [of "getM f" for f] wp_get wp_ret assertOrderPayableForCreate_def wp_seq [of "liftM f" for f] wp_lift
        wp_seq [of "cancelPendingOmiseChargesForOrder a b" for a b] split: option.split intro!: wp_conseq [OF phaseA] lock)
qed


lemma stampOrder_reference [simp]:
  "o_paymentReference (stampOrder env s r) = o_paymentReference r" "o_paymentMethod (stampOrder env s r) = o_paymentMethod r"
  by (simp_all add: stampOrder_def)

lemma reference_dropped:
  assumes "findOrder s i = Some ord" and "uniqueKey o_id (dbOrders s)"
    and "\<And>x. x \<in> set (dbOrders s) \<Longrightarrow> o_paymentReference x = Some c \<Longrightarrow> x = ord"
    and "dbOrders t = saveRow o_id (stampOrder env s (onDelivery ord)) (dbOrders s)"
  shows "orderOfCharge t c = None"
proof -
  have "byKey o_id (o_id (stampOrder env s (onDelivery ord))) (dbOrders s) = Some ord"
    using assms(1) findOrder_id [OF assms(1)] by (simp add: findOrder_def onDelivery_def)
  from saveRow_present [of o_id, OF this assms(2)] assms(4)
  have "dbOrders t = map (\<lambda>x. if o_id x = o_id ord then stampOrder env s (onDelivery ord) else x) (dbOrders s)"
    by (simp add: onDelivery_def)
  then show ?thesis using assms(3) by (auto simp: orderOfCharge_def find_None_all onDelivery_def)
qed

text \<open>C33. The account that placed an order can change it to cash on delivery while the order awaits payment, none of its lines is
  on hold and its latest payment, if it has one, is pending or failed: the order takes the method, drops the reference of its charge
  and stays unpaid. But when the charge that was to be cancelled, which only this order pointed to, completes
  all the same, its webhook is answered with success and changes nothing: the money is taken and the order unpaid.\<close>

theorem cash_drops_charge:
  assumes "findOrder s (cc_orderId dto) = Some ord" and "o_status ord = OS_PENDING_PAYMENT" and "0 \<le> o_total ord"
    and "\<not> orderHasHeldItems (orderItems s (cc_orderId dto))"
    and "\<And>p. latestPayment s (cc_orderId dto) = Some p \<Longrightarrow> py_status p = PY_PENDING \<or> py_status p = PY_FAILED"
    and "truthy (cc_customerId dto)" and "o_customerId ord = cc_customerId dto" and "cc_paymentMethod dto = ''cod''"
    and "uniqueKey o_id (dbOrders s)"
    and "\<And>x. x \<in> set (dbOrders s) \<Longrightarrow> o_paymentReference x = Some c \<Longrightarrow> x = ord"
  shows "\<exists>r t o1. createCharge env hash config api dto s = (Inr r, t) \<and> cr_status r = ''pending'' \<and>
    findOrder t (cc_orderId dto) = Some o1 \<and> o_status o1 = OS_PENDING_PAYMENT \<and> o_paymentMethod o1 = PM_COD \<and> o_paymentReference o1 = None \<and>
    (\<forall>api' ev. ev_id ev = Some c \<longrightarrow> handleChargeEvent env api' ev t = (Inr (), t))"
proof -
  obtain r t where run: "createCharge env hash config api dto s = (Inr r, t)" and sw: "switched env s ord r t"
    using switch_done [OF assms(1-8), of env hash config api] by (auto simp: wp_def split: prod.splits sum.splits)
  have i: "o_id ord = cc_orderId dto" using findOrder_id [OF assms(1)] .
  have "findOrder t (cc_orderId dto) = Some (stampOrder env s (onDelivery ord))"
    using sw i by (simp add: findOrder_def switched_def byKey_saveRow onDelivery_def)
  moreover have "orderOfCharge t c = None"
    by (rule reference_dropped [OF assms(1,9,10)]) (use sw in \<open>simp_all add: switched_def\<close>)
  then have "handleChargeEvent env api' ev t = (Inr (), t)" if "ev_id ev = Some c" for api' ev
    using that by (simp add: handleChargeEvent_def Let_def)
  ultimately show ?thesis using run sw assms(2) by (auto simp: switched_def onDelivery_def)
qed

theorem cash_drops_charge_witness:
  "\<exists>r t o1. createCharge sampleIds id samplePayConfig sampleCharges (sampleDto ''cod'') (sampleCharged OS_PENDING_PAYMENT) = (Inr r, t) \<and>
     findOrder t ''o'' = Some o1 \<and> o_status o1 = OS_PENDING_PAYMENT \<and>
     handleChargeEvent sampleIds sampleCharges (completeEvent ''chrg'') t = (Inr (), t)"
proof -
  let ?s = "sampleCharged OS_PENDING_PAYMENT" and ?d = "sampleDto ''cod''"
  have o: "cc_orderId ?d = ''o''" by (simp add: sampleDto_def)
  have f: "findOrder ?s (cc_orderId ?d) = Some (unpaidOrder\<lparr>o_status := OS_PENDING_PAYMENT, o_paymentReference := Some ''chrg''\<rparr>)"
    unfolding o by (simp add: sampleCharged_facts)
  have "latestPayment ?s ''o'' = Some qrPayment" "py_status qrPayment = PY_PENDING" "\<not> orderHasHeldItems (orderItems ?s ''o'')"
    by code_simp+
  moreover have "dbOrders ?s = [unpaidOrder\<lparr>o_status := OS_PENDING_PAYMENT, o_paymentReference := Some ''chrg''\<rparr>]"
    by (simp add: sampleCharged_def)
  ultimately have "\<exists>r t o1. createCharge sampleIds id samplePayConfig sampleCharges ?d ?s = (Inr r, t) \<and> cr_status r = ''pending'' \<and>
    findOrder t (cc_orderId ?d) = Some o1 \<and> o_status o1 = OS_PENDING_PAYMENT \<and> o_paymentMethod o1 = PM_COD \<and> o_paymentReference o1 = None \<and>
    (\<forall>api' ev. ev_id ev = Some ''chrg'' \<longrightarrow> handleChargeEvent sampleIds api' ev t = (Inr (), t))"
    by (intro cash_drops_charge [OF f]) (simp_all add: sampleDto_def uniqueKey_def)
  moreover have "ev_id (completeEvent ''chrg'') = Some ''chrg''" by (simp add: completeEvent_def)
  ultimately show ?thesis unfolding o by blast
qed

end
