(* ===== verification/Recipient_Proofs.thy ===== *)
theory Recipient_Proofs
  imports Store_Recipient Payout_Proofs
begin

text \<open>
  The payout account over its components: what a change of the account does to the payouts that follow it.
\<close>

section \<open>A changed account\<close>

lemma liveStore_saved:
  assumes "liveStore s i = Some st0" and "st_id st = i" and "st_deletedAt st = None" and "uniqueKey st_id (dbStores s)"
  shows "wp (savedStore env st) (\<lambda>r t. liveStore t i = Some r \<and> st_omiseRecipientId r = st_omiseRecipientId st \<and>
     st_omiseRecipientStatus r = st_omiseRecipientStatus st) (\<lambda>_ _. False) s"
proof -
  let ?r = "if byKey st_id i (dbStores s) = Some st then st else st\<lparr>st_updatedAt := envNow env\<rparr>"
  have live: "List.find (\<lambda>x. st_id x = i \<and> st_deletedAt x = None) (saveRow st_id r xs) = Some r"
    if "uniqueKey st_id xs" "i \<in> st_id ` set xs" "st_id r = i" "st_deletedAt r = None" for r xs
    using that by (induction xs) (auto simp: uniqueKey_def)
  have "i \<in> st_id ` set (dbStores s)" using liveStore_Some [OF assms(1)] by auto
  from live [OF assms(4) this, of ?r] have "List.find (\<lambda>x. st_id x = i \<and> st_deletedAt x = None) (saveRow st_id ?r (dbStores s)) = Some ?r"
    using assms(2,3) by simp
  then show ?thesis
    using assms(2) by (simp add: savedStore_def saveStore_def wp liveStore_def byKey_saveRow)
qed

text \<open>The store after its bank details have changed: the recipient stays, but is marked as not connected.\<close>

lemma update_disconnects:
  assumes "liveStore s i = Some st0" and "uniqueKey st_id (dbStores s)" and "bankDetailsChanged ci data st0 = Inr True"
  shows "wp (updateStorePayout env ci i data) (\<lambda>r t. liveStore t i = Some r \<and> st_omiseRecipientId r = st_omiseRecipientId st0 \<and>
     st_omiseRecipientStatus r = RS_NOT_CONNECTED) (\<lambda>_ _. False) s"
  using liveStore_Some [OF assms(1)] assms
  by (auto simp: updateStorePayout_def wp_seq findOneStore_wp wp_lift Let_def split del: if_split
      intro!: wp_conseq [OF liveStore_saved [OF assms(1) _ _ assms(2)]])

lemma transfer_sends:
  assumes "hasCredentials om" and "truthy (st_omiseRecipientId store)" and "st_omiseRecipientStatus store = RS_ACTIVE"
    and "transferOmisePayout env om store p s = (Inr q, t)"
  shows "OmiseTransferSent (nullish (st_omiseRecipientId store) []) (js_round (po_netAmount p * 100)) \<in> set (dbEffects t)"
proof -
  have "wp (transferOmisePayout env om store p) (\<lambda>_ t. OmiseTransferSent (nullish (st_omiseRecipientId store) []) (js_round (po_netAmount p * 100)) \<in> set (dbEffects t))
      (\<lambda>_ _. True) s"
    using assms(1-3) by (simp add: transferOmisePayout_def applyOmiseTransfer_def createTransfer_def wp Let_def split: sum.split option.split)
  from wp_Inr [OF this assms(4)] show ?thesis .
qed

text \<open>C35. When the vendor changes the bank account, the store is marked as not connected, and looking at the payout
  settings leaves it so. But a payout asks the gateway about the recipient that is still stored, takes its answer for
  the new account, and sends the money to the old recipient.\<close>

theorem changed_account_still_paid:
  assumes "liveStore s i = Some st0" and "uniqueKey st_id (dbStores s)" and "bankDetailsChanged ci data st0 = Inr True"
    and "st_omiseRecipientId st0 = Some r" and "r \<noteq> []" and "hasCredentials om"
    and "\<And>n. \<exists>c. om_getRecipient om n r = Inr c \<and> rc_verified c \<and> rc_active c"
    and "updateStorePayout env ci i data s = (Inr st, t)"
  shows "st_omiseRecipientStatus st = RS_NOT_CONNECTED \<and> refreshOmiseRecipientStatus env om i t = (Inr st, t) \<and>
    (\<forall>config amount processedBy remark p u. createOmisePayout env config om i amount processedBy remark t = (Inr p, u) \<longrightarrow>
       (\<exists>a. OmiseTransferSent r a \<in> set (dbEffects u)))"
proof -
  from wp_Inr [OF update_disconnects [OF assms(1-3)] assms(8)]
  have st: "liveStore t i = Some st" "st_omiseRecipientId st = Some r" "st_omiseRecipientStatus st = RS_NOT_CONNECTED"
    using assms(4) by simp_all
  have "wp (refreshStoreRecipientStatus env om st) (\<lambda>x _. st_omiseRecipientId x = Some r \<and> st_omiseRecipientStatus x = RS_ACTIVE) (\<lambda>_ _. False) t"
    using assms(5,6) st assms(7) [of "length (dbEffects t)"] by (auto simp: refreshStoreRecipientStatus_def wp Let_def)
  note ready = this
  have "\<exists>a. OmiseTransferSent r a \<in> set (dbEffects u)"
    if "createOmisePayout env config om i amount processedBy remark t = (Inr p, u)" for config amount processedBy remark p u
  proof -
    note run = that
    obtain store q v where o: "openOmisePayout env config om i amount processedBy remark t = (Inr (store, q), v)"
      and tr: "transferOmisePayout env om store q v = (Inr p, u)"
      using run by (auto simp: createOmisePayout_def seqM_Inr_iff)
    obtain w where "refreshStoreRecipientStatus env om st t = (Inr store, w)"
      using o st(1) by (auto simp: openOmisePayout_def seqM_Inr_iff requireStore_def)
    from wp_Inr [OF ready this] transfer_sends [OF assms(6) _ _ tr] assms(5) show ?thesis by auto
  qed
  moreover have "refreshOmiseRecipientStatus env om i t = (Inr st, t)"
    using st by (simp add: refreshOmiseRecipientStatus_def findOneStore_simp)
  ultimately show ?thesis using st(3) by blast
qed


text \<open>The account is removed from the settings, and the payout of the balance goes to the old one.\<close>

definition emptiedAccount :: payout_details where
  "emptiedAccount = \<lparr>pd_bankAccountName = Some None, pd_bankAccountNumber = None, pd_bankName = None, pd_bankCode = None\<rparr>"

definition namedBank :: store_row where
  "namedBank = sampleBank\<lparr>st_bankAccountName := Some ''Shop''\<rparr>"

definition namedEarned :: db where
  "namedEarned = (sampleEarned PM_PROMPTPAY)\<lparr>dbStores := [namedBank]\<rparr>"

lemma named_update:
  "updateStorePayout sampleIds sampleCipher ''s'' emptiedAccount namedEarned =
     (Inr (sampleBank\<lparr>st_omiseRecipientStatus := RS_NOT_CONNECTED\<rparr>),
      (sampleEarned PM_PROMPTPAY)\<lparr>dbStores := [sampleBank\<lparr>st_omiseRecipientStatus := RS_NOT_CONNECTED\<rparr>]\<rparr>)"
  by (simp add: updateStorePayout_def findOneStore_simp liveStore_def namedEarned_def namedBank_def bankDetailsChanged_def differs_def
      emptiedAccount_def setField_def savedStore_def saveStore_def Let_def sampleBank_def sampleStore_def sampleIds_def)

lemma named_payout:
  "\<exists>p u. createOmisePayout sampleIds sampleConfig sampleGateway ''s'' 30 None None
     ((sampleEarned PM_PROMPTPAY)\<lparr>dbStores := [sampleBank\<lparr>st_omiseRecipientStatus := RS_NOT_CONNECTED\<rparr>]\<rparr>) = (Inr p, u)"
proof -
  let ?b = "sampleBank\<lparr>st_omiseRecipientStatus := RS_NOT_CONNECTED\<rparr>"
  let ?t = "(sampleEarned PM_PROMPTPAY)\<lparr>dbStores := [?b]\<rparr>"
  have "\<exists>p v. commitPayout sampleIds sampleConfig ''s'' RAIL_OMISE OMISE_PAYMENT_METHODS (Some 30) None None (sampleEarned PM_PROMPTPAY) = (Inr p, v)"
    by (rule sample_commit) (simp_all add: OMISE_PAYMENT_METHODS_def)
  then obtain p v where c: "commitPayout sampleIds sampleConfig ''s'' RAIL_OMISE OMISE_PAYMENT_METHODS (Some 30) None None (sampleEarned PM_PROMPTPAY) = (Inr p, v)"
    by blast
  have "sampleEarned PM_PROMPTPAY = ?t\<lparr>dbStores := [sampleBank]\<rparr>" by (simp add: sampleEarned_def)
  moreover have "refreshStoreRecipientStatus sampleIds sampleGateway ?b ?t = (Inr sampleBank, ?t\<lparr>dbStores := [sampleBank]\<rparr>)"
    by (simp add: refreshStoreRecipientStatus_def hasCredentials_def sampleGateway_def saveStore_def Let_def sampleBank_def sampleStore_def sampleIds_def)
  moreover have "liveStore ?t ''s'' = Some ?b" by (simp add: liveStore_def)
  ultimately have "openOmisePayout sampleIds sampleConfig sampleGateway ''s'' 30 None None ?t = (Inr (sampleBank, p), v)"
    using c by (simp add: openOmisePayout_def requireStore_def seqM_def assertRecipientReadyForTransfer_def)
  moreover have "\<exists>q u. transferOmisePayout sampleIds sampleGateway sampleBank p v = (Inr q, u)"
    by (simp add: transferOmisePayout_def applyOmiseTransfer_def createTransfer_def sampleGateway_def hasCredentials_def savePayout_def Let_def)
  ultimately show ?thesis by (auto simp: createOmisePayout_def)
qed

theorem changed_account_still_paid_witness:
  "\<exists>st t p u a. updateStorePayout sampleIds sampleCipher ''s'' emptiedAccount namedEarned = (Inr st, t) \<and>
     st_bankAccountName st = None \<and> st_omiseRecipientStatus st = RS_NOT_CONNECTED \<and>
     createOmisePayout sampleIds sampleConfig sampleGateway ''s'' 30 None None t = (Inr p, u) \<and> OmiseTransferSent ''rcpt'' a \<in> set (dbEffects u)"
proof -
  have "liveStore namedEarned ''s'' = Some namedBank" by (simp add: liveStore_def namedEarned_def namedBank_def)
  moreover have "uniqueKey st_id (dbStores namedEarned)" by (simp add: namedEarned_def uniqueKey_def)
  moreover have "bankDetailsChanged sampleCipher emptiedAccount namedBank = Inr True"
    by (simp add: bankDetailsChanged_def differs_def emptiedAccount_def namedBank_def)
  moreover have "st_omiseRecipientId namedBank = Some ''rcpt''" by (simp add: namedBank_def)
  moreover have "hasCredentials sampleGateway" by (simp add: hasCredentials_def sampleGateway_def)
  moreover have "\<exists>c. om_getRecipient sampleGateway n ''rcpt'' = Inr c \<and> rc_verified c \<and> rc_active c" for n by (simp add: sampleGateway_def)
  ultimately have paid: "createOmisePayout sampleIds sampleConfig sampleGateway ''s'' 30 None None
      ((sampleEarned PM_PROMPTPAY)\<lparr>dbStores := [sampleBank\<lparr>st_omiseRecipientStatus := RS_NOT_CONNECTED\<rparr>]\<rparr>) = (Inr p, u) \<Longrightarrow>
      \<exists>a. OmiseTransferSent ''rcpt'' a \<in> set (dbEffects u)" for p u
    using changed_account_still_paid [OF _ _ _ _ _ _ _ named_update] by blast
  moreover have "st_bankAccountName sampleBank = None" by (simp add: sampleBank_def sampleStore_def)
  ultimately show ?thesis using named_update named_payout by fastforce
qed

end
