(* ===== verification/Seeded_Shuffle.thy ===== *)
theory Seeded_Shuffle
  imports Prelude "HOL-Library.Word" "HOL-Library.Multiset"
begin

text \<open>
  \<^verbatim>\<open>src/src/common/utils/seeded-shuffle.ts\<close>: a Fisher-Yates shuffle driven by a linear congruential
  generator on 32 bits. The code computes in doubles and cuts to 32 bits with \<open>>>> 0\<close>; every
  intermediate value is an integer below \<open>2 ^ 53\<close>, so this is arithmetic on \<open>32 word\<close>. The swap index
  is the floor of the exact quotient (the rounding of the double division is not modelled). An
  element that is \<open>undefined\<close> is \<open>None\<close>: reading past the end gives it, writing past the end
  extends the array.
\<close>

section \<open>The generator\<close>

definition seedState :: "string \<Rightarrow> 32 word" where
  "seedState seed = foldl (\<lambda>state c. state * 31 + word_of_nat (of_char c)) 0 seed"

definition nextState :: "32 word \<Rightarrow> 32 word" where
  "nextState state = state * 1664525 + 1013904223"

text \<open>\<open>Math.floor(state / 0xffffffff * (index + 1))\<close>\<close>

definition swapIndex :: "32 word \<Rightarrow> nat \<Rightarrow> nat" where
  "swapIndex state index = unat state * (index + 1) div 4294967295"

section \<open>The shuffle\<close>

text \<open>The array reads and writes of JavaScript.\<close>

definition readAt :: "'a option list \<Rightarrow> nat \<Rightarrow> 'a option" where
  "readAt xs i = (if i < length xs then xs ! i else None)"

definition writeAt :: "nat \<Rightarrow> 'a option \<Rightarrow> 'a option list \<Rightarrow> 'a option list" where
  "writeAt i x xs = (if i < length xs then xs[i := x] else xs @ replicate (i - length xs) None @ [x])"

definition swapAt :: "nat \<Rightarrow> nat \<Rightarrow> 'a option list \<Rightarrow> 'a option list" where
  "swapAt i j xs = (let a = readAt xs j; b = readAt xs i in writeAt j b (writeAt i a xs))"

fun shuffleFrom :: "nat \<Rightarrow> 32 word \<Rightarrow> 'a option list \<Rightarrow> 'a option list" where
  "shuffleFrom 0 state xs = xs"
| "shuffleFrom (Suc index) state xs =
     (let state' = nextState state
      in shuffleFrom index state' (swapAt (Suc index) (swapIndex state' (Suc index)) xs))"

definition seededShuffle :: "'a list \<Rightarrow> string \<Rightarrow> 'a option list" where
  "seededShuffle items seed = shuffleFrom (length items - 1) (seedState seed) (map Some items)"

section \<open>Lemmas\<close>

lemma unat_all_ones: "unat (- 1 :: 32 word) = 4294967295"
  by (simp add: unsigned_minus_1_eq_mask mask_eq_exp_minus_1)

lemma swapIndex_in_range: "state \<noteq> - 1 \<Longrightarrow> swapIndex state index \<le> index"
proof -
  assume "state \<noteq> - 1"
  have "unat state < 4294967295"
  proof (rule ccontr)
    assume "\<not> unat state < 4294967295"
    moreover have "unat state < 4294967296" using unsigned_less [of state] by simp
    ultimately have "unat state = unat (- 1 :: 32 word)" by (simp add: unat_all_ones)
    with \<open>state \<noteq> - 1\<close> show False by (simp add: word_unat_eq_iff)
  qed
  then have "unat state * (index + 1) < 4294967295 * (index + 1)" by (intro mult_strict_right_mono) simp_all
  then have "swapIndex state index < index + 1" unfolding swapIndex_def by (intro less_mult_imp_div_less) (simp add: mult.commute)
  then show ?thesis by simp
qed

lemma swapIndex_overflow: "swapIndex (- 1) index = index + 1"
  by (simp add: swapIndex_def unat_all_ones)

lemma swapAt_mset: "i < length xs \<Longrightarrow> j < length xs \<Longrightarrow> mset (swapAt i j xs) = mset xs"
  by (simp add: swapAt_def readAt_def writeAt_def Let_def mset_swap)

lemma swapAt_length: "i < length xs \<Longrightarrow> j < length xs \<Longrightarrow> length (swapAt i j xs) = length xs"
  by (simp add: swapAt_def readAt_def writeAt_def Let_def)

text \<open>
  Once the index is behind the last element, every swap is inside the array: one past the index is an index.
\<close>

lemma swapIndex_le: "swapIndex state index \<le> index + 1"
  using swapIndex_in_range [of state index] swapIndex_overflow [of index] by (cases "state = - 1") auto

lemma shuffleFrom_permutes: "index + 1 < length xs \<or> index = 0 \<Longrightarrow> mset (shuffleFrom index state xs) = mset xs"
proof (induction index state xs rule: shuffleFrom.induct)
  case (2 index state xs)
  let ?j = "swapIndex (nextState state) (Suc index)"
  have "?j < length xs" using swapIndex_le [of "nextState state" "Suc index"] 2(2) by auto
  with 2(2) have "mset (swapAt (Suc index) ?j xs) = mset xs" "length (swapAt (Suc index) ?j xs) = length xs"
    by (auto intro: swapAt_mset swapAt_length)
  with 2 show ?case by (auto simp: Let_def)
qed simp

lemma swapAt_past: "i + 1 = length xs \<Longrightarrow> mset (swapAt i (length xs) xs) = add_mset None (mset xs)"
proof -
  assume i: "i + 1 = length xs"
  then obtain ys y where xs: "xs = ys @ [y]" by (cases xs rule: rev_cases) auto
  with i have "i = length ys" by simp
  then show ?thesis by (simp add: xs swapAt_def readAt_def writeAt_def Let_def nth_append list_update_append)
qed

lemma swapAt_past_length: "i + 1 = length xs \<Longrightarrow> length (swapAt i (length xs) xs) = Suc (length xs)"
  by (simp add: swapAt_def readAt_def writeAt_def Let_def)

lemma seededShuffle_two:
  assumes "length items = Suc (Suc n)"
  shows "mset (seededShuffle items seed) = (if nextState (seedState seed) = - 1
     then add_mset None (image_mset Some (mset items)) else image_mset Some (mset items))"
proof -
  let ?st = "nextState (seedState seed)" and ?xs = "map Some items"
  let ?ys = "swapAt (Suc n) (swapIndex ?st (Suc n)) ?xs"
  have run: "seededShuffle items seed = shuffleFrom n ?st ?ys" by (simp add: seededShuffle_def assms Let_def)
  show ?thesis
  proof (cases "?st = - 1")
    case True
    then have "?ys = swapAt (Suc n) (length ?xs) ?xs" using assms by (simp add: swapIndex_overflow)
    then have "mset ?ys = add_mset None (mset ?xs)" "length ?ys = Suc (Suc (Suc n))"
      using swapAt_past [of "Suc n" ?xs] swapAt_past_length [of "Suc n" ?xs] assms by simp_all
    then show ?thesis unfolding run using True shuffleFrom_permutes [of n ?ys ?st] by simp
  next
    case False
    have "swapIndex ?st (Suc n) \<le> Suc n" by (rule swapIndex_in_range [OF False])
    then have "mset ?ys = mset ?xs" "length ?ys = Suc (Suc n)"
      using swapAt_mset [of "Suc n" ?xs] swapAt_length [of "Suc n" ?xs] assms by simp_all
    then show ?thesis unfolding run using False shuffleFrom_permutes [of n ?ys ?st] by simp
  qed
qed

section \<open>Properties\<close>

text \<open>C38. The shuffle of a list of at least two elements is a permutation of it exactly when the first state the generator
draws is not the largest one, which the division maps to exactly 1. Then the first swap reaches behind the end of the array, and the
result has all elements and an undefined one. A shorter list stays as it is.\<close>

theorem shuffle_permutes:
  "mset (seededShuffle items seed) = (if 2 \<le> length items \<and> nextState (seedState seed) = - 1
     then add_mset None (image_mset Some (mset items)) else image_mset Some (mset items))"
proof (cases "length items < 2")
  case True
  then show ?thesis by (cases items) (auto simp: seededShuffle_def)
next
  case False
  then obtain n where "length items = Suc (Suc n)" by (metis Suc_diff_Suc diff_Suc_Suc less_2_cases_iff not_less0 gr0_implies_Suc not_gr_zero numeral_2_eq_2 Suc_lessI)
  then show ?thesis using seededShuffle_two [of items n seed] by simp
qed

lemma states_of_seed:
  "seedState ''yqfgabou'' = 653637408" "nextState 653637408 = - 1" "nextState (- 1) = 1012239698"
  "seedState ''seed'' = 3526257" "nextState 3526257 = 3631510812" "nextState 3631510812 = 280890827"
  by (simp_all add: seedState_def nextState_def)

lemma swaps_of_seed: "swapIndex (- 1) (Suc (Suc 0)) = 3" "swapIndex 1012239698 (Suc 0) = 0"
  by (simp add: swapIndex_overflow) (simp add: swapIndex_def)

lemma overflowing_seed: "seededShuffle [a, b, c] ''yqfgabou'' = [Some b, Some a, None, Some c]"
  by (simp add: seededShuffle_def states_of_seed swaps_of_seed swapAt_def readAt_def writeAt_def Let_def)

text \<open>Two seeds: one that shuffles and one whose first state is the largest.\<close>

lemma shuffles_of_seeds:
  "mset (seededShuffle [1 :: nat, 2, 3] ''seed'') = {# Some 1, Some 2, Some 3 #}"
  "seededShuffle [a, b, c] ''yqfgabou'' = [Some b, Some a, None, Some c]"
  using seededShuffle_two [of "[1 :: nat, 2, 3]" 1 "''seed''"] overflowing_seed by (simp_all add: states_of_seed)

end
