(* ===== verification/Remote_Images.thy ===== *)
theory Remote_Images
  imports Payments "HOL-Library.Word"
begin

text \<open>
  Files of the storage service: \<^verbatim>\<open>src/src/common/utils/safe-remote-url.util.ts\<close>, and of
  \<^verbatim>\<open>src/src/modules/storage\<close> the upload rules, the folders of a role, the public URLs and the download of
  remote images. Parameters: \<open>new URL\<close>, the DNS, \<open>isIP\<close>, \<open>fetch\<close>, what sharp reads of an image, and how it
  converts one. Strings here are UTF-8 bytes; malformed UTF-8 in a URL is not modelled.
\<close>

section \<open>Private addresses\<close>

text \<open>
  \<open>Number(part)\<close> on the parts of an address: the empty part is 0, digits are their value. A sign, a
  fraction, an exponent or a hexadecimal notation does not occur in an address; they count as \<open>NaN\<close>.
\<close>

definition octet :: "string \<Rightarrow> int option" where
  "octet part = (if part = [] then Some 0 else if list_all isDigit part then Some (digitsValue part) else None)"

definition reservedV4 :: "int \<Rightarrow> int \<Rightarrow> bool" where
  "reservedV4 a b \<longleftrightarrow> a = 10 \<or> a = 127 \<or> a = 0 \<or> (a = 169 \<and> b = 254) \<or> (a = 172 \<and> 16 \<le> b \<and> b \<le> 31) \<or>
     (a = 192 \<and> b = 168) \<or> (a = 100 \<and> 64 \<le> b \<and> b \<le> 127)"

definition isPrivateV4 :: "string \<Rightarrow> bool" where
  "isPrivateV4 address = (case map octet (splitOn (CHR ''.'') address) of
     [Some a, Some b, Some c, Some d] \<Rightarrow>
       (if list_ex (\<lambda>p. p < 0 \<or> 255 < p) [a, b, c, d] then True else reservedV4 a b)
   | _ \<Rightarrow> True)"

text \<open>\<open>/^::ffff:(\d+\.\d+\.\d+\.\d+)$/\<close>\<close>

definition mappedV4 :: "string \<Rightarrow> string option" where
  "mappedV4 lower = (if startsWith lower ''::ffff:'' then
     (let rest = drop 7 lower; parts = splitOn (CHR ''.'') rest
      in if length parts = 4 \<and> list_all (\<lambda>p. p \<noteq> [] \<and> list_all isDigit p) parts then Some rest else None)
     else None)"

definition isPrivateOrReservedIp :: "string \<Rightarrow> bool" where
  "isPrivateOrReservedIp address =
     (if address = ''::1'' \<or> address = ''::'' \<or> startsWith address ''fe80:'' then True
      else if CHR '':'' \<in> set address then
        (let lower = js_lower address
         in if startsWith lower ''fc'' \<or> startsWith lower ''fd'' then True
            else case mappedV4 lower of Some v4 \<Rightarrow> isPrivateV4 v4 | None \<Rightarrow> False)
      else isPrivateV4 address)"

section \<open>Safe URLs\<close>

record parsed_url =
  pu_protocol :: string
  pu_username :: string
  pu_password :: string
  pu_hostname :: string
  pu_pathname :: string
  pu_href :: string

text \<open>What the outside answers. The n-th lookup and the n-th fetch have answers of their own.\<close>

record web =
  wb_parse :: "string \<Rightarrow> parsed_url option"
  wb_resolve :: "string \<Rightarrow> parsed_url \<Rightarrow> string option"
  wb_isIP :: "string \<Rightarrow> bool"
  wb_lookup :: "nat \<Rightarrow> string \<Rightarrow> string list option"

record web_log =
  wl_lookups :: nat
  wl_checked :: "(parsed_url \<times> string list) list"
  wl_fetched :: "string list"

definition endsWith :: "string \<Rightarrow> string \<Rightarrow> bool" where
  "endsWith s t \<longleftrightarrow> length t \<le> length s \<and> drop (length s - length t) s = t"

definition localHost :: "string \<Rightarrow> bool" where
  "localHost hostname \<longleftrightarrow> hostname = ''localhost'' \<or> endsWith hostname ''.localhost'' \<or> endsWith hostname ''.local'' \<or>
     endsWith hostname ''.internal'' \<or> hostname = ''0.0.0.0''"

definition assertSafeRemoteUrl :: "web \<Rightarrow> string list \<Rightarrow> string \<Rightarrow> string \<Rightarrow> (web_log, parsed_url) op" where
  "assertSafeRemoteUrl web allowedProtocols errorCode urlString =
     (case wb_parse web urlString of
        None \<Rightarrow> raiseM (BadRequest errorCode)
      | Some parsed \<Rightarrow>
          (let hostname = js_lower (pu_hostname parsed) in
           seqM (failIf (pu_protocol parsed \<notin> set allowedProtocols) (BadRequest errorCode)) (\<lambda>_.
           seqM (failIf (pu_username parsed \<noteq> [] \<or> pu_password parsed \<noteq> []) (BadRequest errorCode)) (\<lambda>_.
           seqM (failIf (localHost hostname) (BadRequest errorCode)) (\<lambda>_.
           seqM (getM (\<lambda>l. if wb_isIP web hostname then Some [hostname] else wb_lookup web (wl_lookups l) hostname)) (\<lambda>found.
           seqM (modM (\<lambda>l. if wb_isIP web hostname then l else l\<lparr>wl_lookups := Suc (wl_lookups l)\<rparr>)) (\<lambda>_.
             case found of
               None \<Rightarrow> raiseM (BadRequest errorCode)
             | Some addresses \<Rightarrow>
                 seqM (failIf (addresses = []) (BadRequest errorCode)) (\<lambda>_.
                 seqM (failIf (list_ex isPrivateOrReservedIp addresses) (BadRequest errorCode)) (\<lambda>_.
                 seqM (modM (\<lambda>l. l\<lparr>wl_checked := wl_checked l @ [(parsed, addresses)]\<rparr>)) (\<lambda>_.
                   retM parsed))))))))))"

section \<open>Upload rules\<close>

record upload_rules =
  ur_maxSizeBytes :: nat
  ur_allowedMimeTypes :: "string list"
  ur_aspectRatio :: "(nat \<times> nat \<times> rat) option"

definition UPLOAD_FOLDERS :: "string list" where
  "UPLOAD_FOLDERS = [''products'', ''stores'', ''reviews'', ''profiles'', ''banners'', ''sponsors'', ''ads'', ''categories'',
     ''pet-types'', ''login-images'']"

definition DEFAULT_RULES :: upload_rules where
  "DEFAULT_RULES = \<lparr>ur_maxSizeBytes = 5 * 1024 * 1024,
     ur_allowedMimeTypes = [''image/jpeg'', ''image/jpg'', ''image/png'', ''image/webp'', ''image/gif''], ur_aspectRatio = None\<rparr>"

definition getFolderUploadRules :: "string \<Rightarrow> upload_rules" where
  "getFolderUploadRules folder =
     (if folder = ''ads'' then \<lparr>ur_maxSizeBytes = 1024 * 1024,
        ur_allowedMimeTypes = [''image/jpeg'', ''image/jpg'', ''image/png'', ''image/webp''], ur_aspectRatio = Some (4, 5, 2 / 100)\<rparr>
      else DEFAULT_RULES)"

definition isAspectRatioWithinTolerance :: "nat \<Rightarrow> nat \<Rightarrow> nat \<times> nat \<times> rat \<Rightarrow> bool" where
  "isAspectRatioWithinTolerance width height rule = (case rule of (rw, rh, tolerance) \<Rightarrow>
     (let expected = of_nat rw / of_nat rh; actual = of_nat width / of_nat height
      in \<bar>actual - expected\<bar> / expected \<le> tolerance))"

definition foldersAllowedForRole :: "string option \<Rightarrow> string list" where
  "foldersAllowedForRole role =
     (if role = Some ''admin'' then UPLOAD_FOLDERS
      else if role = Some ''vendor'' then [''products'', ''stores'', ''reviews'']
      else if role = Some ''customer'' then [''profiles'', ''reviews'']
      else [])"

text \<open>\<open>dimensions\<close>: the width and height sharp reads, absent or zero when it cannot.\<close>

definition validateImageUpload :: "(nat list \<Rightarrow> (nat \<times> nat) option) \<Rightarrow> nat list \<Rightarrow> string \<Rightarrow> string \<Rightarrow> unit result" where
  "validateImageUpload dimensions buffer contentType folder =
     (let rules = getFolderUploadRules folder in
      if js_lower contentType \<notin> set (ur_allowedMimeTypes rules) then Inl (BadRequest ''INVALID_IMAGE_TYPE'')
      else if ur_maxSizeBytes rules < length buffer then Inl (BadRequest ''IMAGE_TOO_LARGE'')
      else case ur_aspectRatio rules of
             None \<Rightarrow> Inr ()
           | Some ratio \<Rightarrow> (case dimensions buffer of
               None \<Rightarrow> Inl (BadRequest ''INVALID_IMAGE'')
             | Some (w, h) \<Rightarrow>
                 if w = 0 \<or> h = 0 then Inl (BadRequest ''INVALID_IMAGE'')
                 else if \<not> isAspectRatioWithinTolerance w h ratio then Inl (BadRequest ''INVALID_ASPECT_RATIO'')
                 else Inr ()))"

section \<open>Downloading an image\<close>

text \<open>A response: \<open>hr_contentLength\<close> is the header as a finite number, \<open>hr_chunks\<close> what its body delivers.\<close>

record http_response =
  hr_status :: nat
  hr_location :: "string option"
  hr_contentLength :: "int option"
  hr_contentType :: "string option"
  hr_chunks :: "nat list list option"

record image_tools =
  im_fetch :: "nat \<Rightarrow> string \<Rightarrow> http_response option"
  im_dimensions :: "nat list \<Rightarrow> (nat \<times> nat) option"
  im_format :: "nat list \<Rightarrow> string option"
  im_toWebp :: "nat list \<Rightarrow> nat list"

definition REMOTE_IMAGE_MAX_REDIRECTS :: nat where
  "REMOTE_IMAGE_MAX_REDIRECTS = 3"

fun readChunks :: "nat \<Rightarrow> nat list list \<Rightarrow> nat list \<Rightarrow> nat list result" where
  "readChunks maxSizeBytes [] acc = (if acc = [] then Inl (BadRequest ''INVALID_IMAGE_URL'') else Inr acc)"
| "readChunks maxSizeBytes (c # cs) acc =
     (if c = [] then readChunks maxSizeBytes cs acc
      else if maxSizeBytes < length acc + length c then Inl (BadRequest ''IMAGE_TOO_LARGE'')
      else readChunks maxSizeBytes cs (acc @ c))"

definition mimeFromSharpFormat :: "string option \<Rightarrow> string option" where
  "mimeFromSharpFormat format = (case format of None \<Rightarrow> None
     | Some f \<Rightarrow> if f = ''jpeg'' \<or> f = ''jpg'' then Some ''image/jpeg''
                else if f = ''png'' then Some ''image/png''
                else if f = ''webp'' then Some ''image/webp''
                else if f = ''gif'' then Some ''image/gif'' else None)"

definition resolveDownloadedImageContentType :: "image_tools \<Rightarrow> nat list \<Rightarrow> string \<Rightarrow> string result" where
  "resolveDownloadedImageContentType tools buffer header =
     (if startsWith header ''image/'' then Inr (if header = ''image/jpg'' then ''image/jpeg'' else header)
      else case mimeFromSharpFormat (im_format tools buffer) of
             Some mime \<Rightarrow> Inr mime | None \<Rightarrow> Inl (BadRequest ''INVALID_IMAGE_TYPE''))"

definition headerType :: "http_response \<Rightarrow> string" where
  "headerType response = js_lower (js_trim (hd (splitOn (CHR '';'') (nullish (hr_contentType response) []))))"

definition acceptResponse :: "image_tools \<Rightarrow> nat \<Rightarrow> http_response \<Rightarrow> (nat list \<times> string) result" where
  "acceptResponse tools maxSizeBytes response =
     (case hr_chunks response of
        None \<Rightarrow> Inl (BadRequest ''INVALID_IMAGE_URL'')
      | Some chunks \<Rightarrow>
          if hr_status response < 200 \<or> 299 < hr_status response then Inl (BadRequest ''INVALID_IMAGE_URL'')
          else if (case hr_contentLength response of None \<Rightarrow> False | Some n \<Rightarrow> int maxSizeBytes < n) then Inl (BadRequest ''IMAGE_TOO_LARGE'')
          else case readChunks maxSizeBytes chunks [] of
                 Inl e \<Rightarrow> Inl e
               | Inr buffer \<Rightarrow> (case resolveDownloadedImageContentType tools buffer (headerType response) of
                                 Inl e \<Rightarrow> Inl e | Inr mime \<Rightarrow> Inr (buffer, mime)))"

text \<open>The loop over the redirects; \<open>left\<close> is how many requests may still be made.\<close>

primrec downloadFrom :: "nat \<Rightarrow> web \<Rightarrow> image_tools \<Rightarrow> nat \<Rightarrow> string \<Rightarrow> (web_log, nat list \<times> string) op" where
  "downloadFrom 0 web tools maxSizeBytes currentUrl = raiseM (BadRequest ''INVALID_IMAGE_URL'')"
| "downloadFrom (Suc left) web tools maxSizeBytes currentUrl =
     seqM (assertSafeRemoteUrl web [''http:'', ''https:''] ''INVALID_IMAGE_URL'' currentUrl) (\<lambda>parsed.
     seqM (getM (\<lambda>l. im_fetch tools (length (wl_fetched l)) (pu_href parsed))) (\<lambda>answer.
     seqM (modM (\<lambda>l. l\<lparr>wl_fetched := wl_fetched l @ [pu_href parsed]\<rparr>)) (\<lambda>_.
       case answer of
         None \<Rightarrow> raiseM (BadRequest ''INVALID_IMAGE_URL'')
       | Some response \<Rightarrow>
           if 300 \<le> hr_status response \<and> hr_status response < 400 then
             (if \<not> truthy (hr_location response) then raiseM (BadRequest ''INVALID_IMAGE_URL'')
              else case wb_resolve web (nullish (hr_location response) []) parsed of
                     None \<Rightarrow> raiseM (Failure ''Invalid URL'')
                   | Some next \<Rightarrow> downloadFrom left web tools maxSizeBytes next)
           else liftM (acceptResponse tools maxSizeBytes response))))"

definition downloadRemoteImage :: "web \<Rightarrow> image_tools \<Rightarrow> string \<Rightarrow> nat \<Rightarrow> (web_log, nat list \<times> string) op" where
  "downloadRemoteImage web tools sourceUrl maxSizeBytes =
     downloadFrom (Suc REMOTE_IMAGE_MAX_REDIRECTS) web tools maxSizeBytes (js_trim sourceUrl)"

text \<open>\<open>importImageFromUrl\<close> up to the upload: the converted image.\<close>

definition importImageFromUrl :: "web \<Rightarrow> image_tools \<Rightarrow> string \<Rightarrow> string \<Rightarrow> (web_log, nat list) op" where
  "importImageFromUrl web tools sourceUrl folder =
     seqM (downloadRemoteImage web tools sourceUrl (ur_maxSizeBytes (getFolderUploadRules folder))) (\<lambda>(buffer, contentType).
     seqM (liftM (validateImageUpload (im_dimensions tools) buffer contentType folder)) (\<lambda>_.
       retM (im_toWebp tools buffer)))"


section \<open>Which addresses are refused\<close>

text \<open>An IPv4 address as a \<open>32 word\<close>, its dotted notation, and the blocks of the specification: network and prefix length.\<close>

definition octetsOf :: "32 word \<Rightarrow> nat list" where
  "octetsOf w = map (\<lambda>k. unat w div 2 ^ k mod 256) [24, 16, 8, 0]"

fun joinWith :: "char \<Rightarrow> string list \<Rightarrow> string" where
  "joinWith d [] = []"
| "joinWith d [w] = w"
| "joinWith d (w # ws) = w @ d # joinWith d ws"

definition dotted :: "32 word \<Rightarrow> string" where
  "dotted w = joinWith (CHR ''.'') (map show_nat (octetsOf w))"

definition privateBlocks :: "(32 word \<times> nat) list" where
  "privateBlocks = [(0x0A000000, 8), (0x7F000000, 8), (0x00000000, 8), (0xA9FE0000, 16), (0xAC100000, 12), (0xC0A80000, 16), (0x64400000, 10)]"

definition inBlock :: "32 word \<Rightarrow> 32 word \<times> nat \<Rightarrow> bool" where
  "inBlock w block = (case block of (network, prefix) \<Rightarrow> drop_bit (32 - prefix) w = drop_bit (32 - prefix) network)"

lemma inBlock_div: "inBlock w (network, prefix) \<longleftrightarrow> unat w div 2 ^ (32 - prefix) = unat network div 2 ^ (32 - prefix)"
proof -
  have "take_bit 32 (unat x) = unat x" for x :: "32 word" using unsigned_less [of x] by (simp add: take_bit_nat_eq_self_iff)
  then show ?thesis
    by (simp add: inBlock_def word_unat_eq_iff unsigned_drop_bit_eq) (simp add: drop_bit_eq_div)
qed

lemma show_nat_digits: "list_all isDigit (show_nat n) \<and> show_nat n \<noteq> [] \<and> digitsValue (show_nat n) = int n"
proof (induction n rule: show_nat.induct)
  case (1 n)
  have digit: "isDigit (char_of (48 + d)) \<and> (of_char (char_of (48 + d) :: char) :: nat) = 48 + d" if "d < 10" for d :: nat
    using that by (simp add: isDigit_def)
  show ?case
  proof (cases "n < 10")
    case True
    then show ?thesis using digit [OF True] by (subst (1 2 3) show_nat.simps) (simp add: digitsValue_def)
  next
    case False
    have m: "n mod 10 < 10" by simp
    have d: "digitsValue (u @ [c]) = 10 * digitsValue u + (int (of_char c) - 48)" for u c by (simp add: digitsValue_def)
    have "10 * (int n div 10) + int n mod 10 = int n" by simp
    then show ?thesis using False 1 [OF False] digit [OF m]
      by (subst (1 2 3) show_nat.simps) (simp add: d zdiv_int zmod_int)
  qed
qed

lemma splitOn_joined: "ws \<noteq> [] \<Longrightarrow> (\<And>w. w \<in> set ws \<Longrightarrow> d \<notin> set w) \<Longrightarrow> splitOn d (joinWith d ws) = ws"
  by (induction d ws rule: joinWith.induct) (simp_all add: splitOn_word splitOn_cons)

lemma show_nat_no_dot: "CHR ''.'' \<notin> set (show_nat n)" "CHR '':'' \<notin> set (show_nat n)"
  using show_nat_digits [of n] by (auto simp: list_all_iff isDigit_def)

lemma octet_show [simp]: "octet (show_nat n) = Some (int n)"
  using show_nat_digits [of n] by (simp add: octet_def)

lemma joined_chars: "c \<in> set (joinWith d ws) \<Longrightarrow> c = d \<or> (\<exists>w \<in> set ws. c \<in> set w)"
  by (induction d ws rule: joinWith.induct) auto

lemma dotted_private: "isPrivateOrReservedIp (dotted w) \<longleftrightarrow> reservedV4 (int (unat w div 2 ^ 24)) (int (unat w div 2 ^ 16 mod 256))"
proof -
  have "CHR '':'' \<notin> set (dotted w)"
    using show_nat_no_dot(2) by (auto simp: dotted_def dest!: joined_chars)
  moreover have "\<not> startsWith (dotted w) ''fe80:''"
  proof
    assume "startsWith (dotted w) ''fe80:''"
    then have "take 5 (dotted w) = ''fe80:''" by (simp add: startsWith_def eval_nat_numeral)
    then have "CHR '':'' \<in> set (take 5 (dotted w))" by simp
    with \<open>CHR '':'' \<notin> set (dotted w)\<close> show False by (blast dest: in_set_takeD)
  qed
  moreover have "unat w < 2 ^ 32" using unsigned_less [of w] by simp
  then have "unat w div 2 ^ 24 < 256" by (simp add: less_mult_imp_div_less)
  moreover have "splitOn (CHR ''.'') (dotted w) = map show_nat (octetsOf w)"
    unfolding dotted_def by (rule splitOn_joined) (use show_nat_no_dot(1) in \<open>auto simp: octetsOf_def\<close>)
  ultimately show ?thesis
    by (auto simp: isPrivateOrReservedIp_def isPrivateV4_def octetsOf_def)
qed

text \<open>A block as a condition on the first two octets \<open>a\<close> and \<open>b\<close>.\<close>

lemma div_range: "0 < (k :: nat) \<Longrightarrow> q div k = n \<longleftrightarrow> n * k \<le> q \<and> q < (n + 1) * k"
proof
  assume a: "0 < k" "q div k = n"
  have "q mod k < k" using a(1) by simp
  with a(2) show "n * k \<le> q \<and> q < (n + 1) * k" using div_mult_mod_eq [of q k] by (simp add: algebra_simps)
next
  assume "0 < k" "n * k \<le> q \<and> q < (n + 1) * k"
  then show "q div k = n" by (intro div_nat_eqI) (simp_all add: algebra_simps)
qed

lemma block_octets:
  assumes "(q :: nat) = 256 * a + b" "b < 256"
  shows "q div 16 = 0xAC1 \<longleftrightarrow> a = 172 \<and> 16 \<le> b \<and> b \<le> 31" "q div 64 = 0x191 \<longleftrightarrow> a = 100 \<and> 64 \<le> b \<and> b \<le> 127"
    "q = 0xA9FE \<longleftrightarrow> a = 169 \<and> b = 254" "q = 0xC0A8 \<longleftrightarrow> a = 192 \<and> b = 168"
proof -
  show "q div 16 = 0xAC1 \<longleftrightarrow> a = 172 \<and> 16 \<le> b \<and> b \<le> 31" using assms by (auto simp: div_range; presburger)
  show "q div 64 = 0x191 \<longleftrightarrow> a = 100 \<and> 64 \<le> b \<and> b \<le> 127" using assms by (auto simp: div_range; presburger)
  show "q = 0xA9FE \<longleftrightarrow> a = 169 \<and> b = 254" using assms by (auto; presburger)
  show "q = 0xC0A8 \<longleftrightarrow> a = 192 \<and> b = 168" using assms by (auto; presburger)
qed

text \<open>C36. An IPv4 address, written in dotted notation, is refused exactly if it lies in one of the seven blocks 10/8, 127/8,
  0/8, 169.254/16, 172.16/12, 192.168/16 and 100.64/10.\<close>

theorem private_address_blocks:
  "isPrivateOrReservedIp (dotted w) \<longleftrightarrow> list_ex (inBlock w) privateBlocks"
proof -
  define q where "q = unat w div 65536"
  have a: "unat w div 16777216 = q div 256" "unat w div 1048576 = q div 16" "unat w div 4194304 = q div 64"
    by (simp_all add: q_def div_mult2_eq [symmetric])
  have "q = 256 * (q div 256) + q mod 256" "q mod 256 < 256" by simp_all
  note blocks = block_octets [OF this]
  have r: "reservedV4 (int a) (int b) \<longleftrightarrow> a = 10 \<or> a = 127 \<or> a = 0 \<or> a = 169 \<and> b = 254 \<or> a = 172 \<and> 16 \<le> b \<and> b \<le> 31 \<or>
      a = 192 \<and> b = 168 \<or> a = 100 \<and> 64 \<le> b \<and> b \<le> 127" for a b by (simp add: reservedV4_def)
  have "list_ex (inBlock w) privateBlocks \<longleftrightarrow> q div 256 = 10 \<or> q div 256 = 127 \<or> q div 256 = 0 \<or> q = 0xA9FE \<or> q div 16 = 0xAC1 \<or> q = 0xC0A8 \<or> q div 64 = 0x191"
    by (simp add: privateBlocks_def inBlock_div a q_def [symmetric])
  also have "\<dots> \<longleftrightarrow> reservedV4 (int (q div 256)) (int (q mod 256))"
    by (simp only: r blocks)
  finally show ?thesis by (simp add: dotted_private a q_def [symmetric])
qed


text \<open>Link-local addresses outside \<open>fe80::/16\<close>, and the loopback written as a mapped address in hexadecimal, pass.\<close>

lemma addresses_that_pass: "\<not> isPrivateOrReservedIp ''fe90::1''" "\<not> isPrivateOrReservedIp ''::ffff:7f00:1''"
  by code_simp+

section \<open>What a download may fetch\<close>

definition safeTarget :: "parsed_url \<times> string list \<Rightarrow> bool" where
  "safeTarget = (\<lambda>(parsed, addresses). pu_protocol parsed \<in> {''http:'', ''https:''} \<and> pu_username parsed = [] \<and> pu_password parsed = [] \<and>
     \<not> localHost (js_lower (pu_hostname parsed)) \<and> addresses \<noteq> [] \<and> (\<forall>a \<in> set addresses. \<not> isPrivateOrReservedIp a))"

definition safeLog :: "nat \<Rightarrow> web_log \<Rightarrow> bool" where
  "safeLog n l \<longleftrightarrow> wl_fetched l = map (pu_href \<circ> fst) (wl_checked l) \<and> list_all safeTarget (wl_checked l) \<and> length (wl_checked l) \<le> n"

lemma safeLog_mono: "safeLog n l \<Longrightarrow> n \<le> m \<Longrightarrow> safeLog m l"
  by (simp add: safeLog_def)

text \<open>A check that passes adds a safe target; a check that fails adds none.\<close>

lemma assertSafe_wp:
  assumes "safeLog n l"
  shows "wp (assertSafeRemoteUrl web [''http:'', ''https:''] code url)
    (\<lambda>parsed l'. \<exists>as. safeTarget (parsed, as) \<and> wl_checked l' = wl_checked l @ [(parsed, as)] \<and> wl_fetched l' = wl_fetched l)
    (\<lambda>_. safeLog n) l"
proof -
  have keep: "safeLog n (l\<lparr>wl_lookups := k\<rparr>)" for k using assms by (simp add: safeLog_def)
  show ?thesis
    unfolding assertSafeRemoteUrl_def Let_def wp
    using assms keep by (auto simp: safeTarget_def list_ex_iff split: option.split)
qed

lemma readChunks_bounds: "readChunks m cs acc = Inr b \<Longrightarrow> length acc \<le> m \<Longrightarrow> b \<noteq> [] \<and> length b \<le> m"
  by (induction m cs acc rule: readChunks.induct) (auto split: if_splits)

lemma acceptResponse_bounds: "acceptResponse tools m r = Inr (b, mime) \<Longrightarrow> b \<noteq> [] \<and> length b \<le> m"
  by (auto simp: acceptResponse_def dest: readChunks_bounds split: option.splits if_splits sum.splits)

lemma downloadFrom_wp:
  "safeLog n l \<Longrightarrow> wp (downloadFrom left web tools m url) (\<lambda>(b, mime) l'. safeLog (n + left) l' \<and> b \<noteq> [] \<and> length b \<le> m) (\<lambda>_. safeLog (n + left)) l"
proof (induction left arbitrary: n l url)
  case 0
  then show ?case by (simp add: wp)
next
  case (Suc left)
  have step: "safeLog (Suc n) (l'\<lparr>wl_fetched := wl_fetched l' @ [pu_href parsed]\<rparr>)"
    if "safeTarget (parsed, as)" "wl_checked l' = wl_checked l @ [(parsed, as)]" "wl_fetched l' = wl_fetched l" for parsed as l'
    using that Suc.prems by (simp add: safeLog_def)
  have now: "safeLog (Suc (n + left)) l'" if "safeLog (Suc n) l'" for l' using that by (rule safeLog_mono) simp
  have next_hop: "wp (downloadFrom left web tools m url) (\<lambda>(b, mime) l'. safeLog (Suc (n + left)) l' \<and> b \<noteq> [] \<and> length b \<le> m)
      (\<lambda>_. safeLog (Suc (n + left))) l'" if "safeLog (Suc n) l'" for url l'
    using Suc.IH [OF that] by simp
  show ?case
    unfolding downloadFrom.simps wp_seq [of "assertSafeRemoteUrl a b c d" for a b c d]
    by (rule wp_conseq [OF assertSafe_wp [OF Suc.prems]])
      (auto simp: wp_seq wp_get wp_mod wp_raise wp_lift dest: acceptResponse_bounds step safeLog_mono [OF Suc.prems]
        intro!: next_hop now split: option.split sum.split elim!: step safeLog_mono)
qed

text \<open>C16. Importing an image makes at most four requests, each to an URL that has been checked: HTTP or HTTPS, without
  credentials, not a local host, resolved to addresses none of which is private. Also a redirect is only followed
  after this check. What is stored is converted from a body that is not empty and no longer than the folder allows.\<close>

theorem import_fetches_safe_urls:
  assumes "importImageFromUrl web tools url folder \<lparr>wl_lookups = 0, wl_checked = [], wl_fetched = []\<rparr> = (r, l)"
  shows "length (wl_fetched l) \<le> 4 \<and> wl_fetched l = map (pu_href \<circ> fst) (wl_checked l) \<and> list_all safeTarget (wl_checked l) \<and>
    (\<forall>image. r = Inr image \<longrightarrow> (\<exists>b. image = im_toWebp tools b \<and> b \<noteq> [] \<and> length b \<le> ur_maxSizeBytes (getFolderUploadRules folder)))"
proof -
  let ?l = "\<lparr>wl_lookups = 0, wl_checked = [], wl_fetched = []\<rparr>" and ?m = "ur_maxSizeBytes (getFolderUploadRules folder)"
  have "safeLog 0 ?l" by (simp add: safeLog_def)
  from downloadFrom_wp [OF this, of 4 web tools ?m "js_trim url"]
  have "wp (downloadRemoteImage web tools url ?m) (\<lambda>(b, mime) l'. safeLog 4 l' \<and> b \<noteq> [] \<and> length b \<le> ?m) (\<lambda>_. safeLog 4) ?l"
    by (simp add: downloadRemoteImage_def REMOTE_IMAGE_MAX_REDIRECTS_def del: downloadFrom.simps)
  then have "wp (importImageFromUrl web tools url folder)
      (\<lambda>image l'. safeLog 4 l' \<and> (\<exists>b. image = im_toWebp tools b \<and> b \<noteq> [] \<and> length b \<le> ?m)) (\<lambda>_. safeLog 4) ?l"
    unfolding importImageFromUrl_def wp_seq [of "downloadRemoteImage a b c d" for a b c d]
    by (rule wp_conseq) (auto simp: wp split: sum.split)
  with assms show ?thesis by (cases r) (auto simp: wp_def safeLog_def)
qed


text \<open>A redirect to the loopback address is not followed.\<close>

definition sampleWeb :: web where
  "sampleWeb = \<lparr>wb_parse = (\<lambda>u. if u = ''http://shop.test/a'' then Some \<lparr>pu_protocol = ''http:'', pu_username = [], pu_password = [],
         pu_hostname = ''shop.test'', pu_pathname = ''/a'', pu_href = u\<rparr>
       else Some \<lparr>pu_protocol = ''http:'', pu_username = [], pu_password = [], pu_hostname = ''127.0.0.1'', pu_pathname = ''/'', pu_href = u\<rparr>),
     wb_resolve = (\<lambda>t _. Some t), wb_isIP = (\<lambda>h. h = ''127.0.0.1''), wb_lookup = (\<lambda>_ _. Some [''93.184.216.34''])\<rparr>"

definition sampleTools :: image_tools where
  "sampleTools = \<lparr>im_fetch = (\<lambda>_ _. Some \<lparr>hr_status = 302, hr_location = Some ''http://127.0.0.1/'', hr_contentLength = None, hr_contentType = None, hr_chunks = None\<rparr>),
     im_dimensions = (\<lambda>_. None), im_format = (\<lambda>_. None), im_toWebp = id\<rparr>"

lemma sample_checks:
  "assertSafeRemoteUrl sampleWeb [''http:'', ''https:''] code ''http://shop.test/a'' l =
     (Inr (the (wb_parse sampleWeb ''http://shop.test/a'')),
      l\<lparr>wl_lookups := Suc (wl_lookups l), wl_checked := wl_checked l @ [(the (wb_parse sampleWeb ''http://shop.test/a''), [''93.184.216.34''])]\<rparr>)"
  "assertSafeRemoteUrl sampleWeb [''http:'', ''https:''] code ''http://127.0.0.1/'' l = (Inl (BadRequest code), l)"
proof -
  have a: "js_lower ''shop.test'' = ''shop.test''" "js_lower ''127.0.0.1'' = ''127.0.0.1''" "\<not> localHost ''shop.test''" "\<not> localHost ''127.0.0.1''"
    "\<not> isPrivateOrReservedIp ''93.184.216.34''" "isPrivateOrReservedIp ''127.0.0.1''" by code_simp+
  show "assertSafeRemoteUrl sampleWeb [''http:'', ''https:''] code ''http://shop.test/a'' l =
     (Inr (the (wb_parse sampleWeb ''http://shop.test/a'')),
      l\<lparr>wl_lookups := Suc (wl_lookups l), wl_checked := wl_checked l @ [(the (wb_parse sampleWeb ''http://shop.test/a''), [''93.184.216.34''])]\<rparr>)"
    using a by (simp add: assertSafeRemoteUrl_def sampleWeb_def Let_def)
  show "assertSafeRemoteUrl sampleWeb [''http:'', ''https:''] code ''http://127.0.0.1/'' l = (Inl (BadRequest code), l)"
    using a by (simp add: assertSafeRemoteUrl_def sampleWeb_def Let_def)
qed

lemma sample_run:
  "importImageFromUrl sampleWeb sampleTools ''http://shop.test/a'' ''stores'' l =
     (Inl (BadRequest ''INVALID_IMAGE_URL''),
      l\<lparr>wl_lookups := Suc (wl_lookups l), wl_checked := wl_checked l @ [(the (wb_parse sampleWeb ''http://shop.test/a''), [''93.184.216.34''])],
        wl_fetched := wl_fetched l @ [''http://shop.test/a'']\<rparr>)"
proof -
  have t: "js_trim ''http://shop.test/a'' = ''http://shop.test/a''" by code_simp
  have p: "pu_href (the (wb_parse sampleWeb ''http://shop.test/a'')) = ''http://shop.test/a''" "wb_resolve sampleWeb u x = Some u" for u x
    by (simp_all add: sampleWeb_def)
  show ?thesis
    by (simp add: importImageFromUrl_def downloadRemoteImage_def REMOTE_IMAGE_MAX_REDIRECTS_def eval_nat_numeral t p sampleTools_def sample_checks seqM_def)
qed

theorem import_fetches_safe_urls_witness:
  "\<exists>l. importImageFromUrl sampleWeb sampleTools ''http://shop.test/a'' ''stores'' \<lparr>wl_lookups = 0, wl_checked = [], wl_fetched = []\<rparr> =
     (Inl (BadRequest ''INVALID_IMAGE_URL''), l) \<and> wl_fetched l = [''http://shop.test/a''] \<and> list_all safeTarget (wl_checked l)"
proof -
  let ?run = "importImageFromUrl sampleWeb sampleTools ''http://shop.test/a'' ''stores'' \<lparr>wl_lookups = 0, wl_checked = [], wl_fetched = []\<rparr>"
  have "fst ?run = Inl (BadRequest ''INVALID_IMAGE_URL'')" "wl_fetched (snd ?run) = [''http://shop.test/a'']" by (simp_all add: sample_run)
  moreover have "list_all safeTarget (wl_checked (snd ?run))"
    using import_fetches_safe_urls [of sampleWeb sampleTools "''http://shop.test/a''" "''stores''" "fst ?run" "snd ?run"] by simp
  ultimately show ?thesis by (intro exI [of _ "snd ?run"]) (simp add: prod_eq_iff)
qed

section \<open>Public URLs\<close>

text \<open>\<open>encodeURIComponent\<close> and \<open>decodeURIComponent\<close> on bytes.\<close>

definition unreserved :: "char \<Rightarrow> bool" where
  "unreserved c \<longleftrightarrow> (let n = (of_char c :: nat) in 65 \<le> n \<and> n \<le> 90 \<or> 97 \<le> n \<and> n \<le> 122 \<or> 48 \<le> n \<and> n \<le> 57) \<or>
     c \<in> set ''-_.!~*'' \<or> c = CHR 0x27 \<or> c = CHR ''('' \<or> c = CHR '')''"

definition hexDigit :: "nat \<Rightarrow> char" where
  "hexDigit n = (if n < 10 then char_of (48 + n) else char_of (55 + n))"

definition percent :: "char \<Rightarrow> string" where
  "percent c = (let n = (of_char c :: nat) in [CHR ''%'', hexDigit (n div 16), hexDigit (n mod 16)])"

definition encodeURIComponent :: "string \<Rightarrow> string" where
  "encodeURIComponent t = concat (map (\<lambda>c. if unreserved c then [c] else percent c) t)"

fun decodeURIComponent :: "string \<Rightarrow> string option" where
  "decodeURIComponent [] = Some []"
| "decodeURIComponent (c # t) =
     (if c \<noteq> CHR ''%'' then map_option ((#) c) (decodeURIComponent t)
      else case t of
        a # b # t' \<Rightarrow> (case (hexValue a, hexValue b) of
            (Some x, Some y) \<Rightarrow> map_option ((#) (char_of (16 * x + y))) (decodeURIComponent t')
          | _ \<Rightarrow> None)
      | _ \<Rightarrow> None)"

text \<open>\<open>storage.config.ts\<close>, with an absent variable as the code reads it: the empty string or \<open>undefined\<close>.\<close>

record s3_config =
  s3_accessKeyId :: string
  s3_secretAccessKey :: string
  s3_region :: string
  s3_bucket :: string
  s3_endpoint :: "string option"
  s3_forcePathStyle :: bool
  s3_publicUrl :: string
  s3_objectAcl :: string

record r2_config =
  r2_accountId :: string
  r2_accessKeyId :: string
  r2_secretAccessKey :: string
  r2_bucket :: string

record storage_config =
  cf_s3 :: s3_config
  cf_cloudflareR2 :: r2_config
  cf_provider :: string
  cf_cdnUrl :: string

record storage_settings =
  ss_accessKeyId :: string
  ss_secretAccessKey :: string
  ss_region :: string
  ss_bucket :: string
  ss_endpoint :: "string option"
  ss_forcePathStyle :: bool
  ss_publicUrl :: string
  ss_acl :: "string option"

text \<open>\<open>x || undefined\<close>\<close>

definition orUndefined :: "string \<Rightarrow> string option" where
  "orUndefined x = (if x = [] then None else Some x)"

text \<open>The settings are resolved once and kept; the configuration does not change while the process runs.\<close>

definition getSettings :: "storage_config \<Rightarrow> storage_settings result" where
  "getSettings config =
     (let resolved =
        (if cf_provider config = ''r2''
         then (let r2 = cf_cloudflareR2 config in
           \<lparr>ss_accessKeyId = r2_accessKeyId r2, ss_secretAccessKey = r2_secretAccessKey r2, ss_region = ''auto'',
            ss_bucket = r2_bucket r2,
            ss_endpoint = (if r2_accountId r2 \<noteq> [] then Some (''https://'' @ r2_accountId r2 @ ''.r2.cloudflarestorage.com'') else None),
            ss_forcePathStyle = False, ss_publicUrl = cf_cdnUrl config, ss_acl = None\<rparr>)
         else (let s3 = cf_s3 config in
           \<lparr>ss_accessKeyId = s3_accessKeyId s3, ss_secretAccessKey = s3_secretAccessKey s3,
            ss_region = str_or (Some (s3_region s3)) ''ap-southeast-1'', ss_bucket = s3_bucket s3,
            ss_endpoint = orUndefined (nullish (s3_endpoint s3) []), ss_forcePathStyle = s3_forcePathStyle s3,
            ss_publicUrl = s3_publicUrl s3, ss_acl = orUndefined (s3_objectAcl s3)\<rparr>))
      in if ss_bucket resolved = [] \<or> ss_accessKeyId resolved = [] \<or> ss_secretAccessKey resolved = []
         then Inl (BadRequest ''STORAGE_NOT_CONFIGURED'') else Inr resolved)"

text \<open>\<open>replace(/\/$/, '')\<close>\<close>

definition withoutSlash :: "string \<Rightarrow> string" where
  "withoutSlash u = (if u \<noteq> [] \<and> last u = CHR ''/'' then butlast u else u)"

definition buildPublicUrl :: "storage_settings \<Rightarrow> string \<Rightarrow> string" where
  "buildPublicUrl settings key =
     (let encodedKey = joinWith (CHR ''/'') (map encodeURIComponent (splitOn (CHR ''/'') key))
      in if ss_publicUrl settings \<noteq> [] then withoutSlash (ss_publicUrl settings) @ CHR ''/'' # encodedKey
         else case ss_endpoint settings of
           Some e \<Rightarrow> if e \<noteq> [] then withoutSlash e @ CHR ''/'' # ss_bucket settings @ CHR ''/'' # encodedKey
                     else ''https://'' @ ss_bucket settings @ ''.s3.amazonaws.com/'' @ encodedKey
         | None \<Rightarrow> ''https://'' @ ss_bucket settings @ ''.s3.amazonaws.com/'' @ encodedKey)"

definition getPublicUrlPrefixes :: "storage_config \<Rightarrow> string list" where
  "getPublicUrlPrefixes config =
     (if cf_provider config = ''r2''
      then (if cf_cdnUrl config \<noteq> [] then [withoutSlash (cf_cdnUrl config)] else [])
      else
        (let s3 = cf_s3 config in
         (if s3_publicUrl s3 \<noteq> [] then [withoutSlash (s3_publicUrl s3)] else []) @
         (if truthy (s3_endpoint s3) \<and> s3_bucket s3 \<noteq> []
          then [withoutSlash (nullish (s3_endpoint s3) []) @ CHR ''/'' # s3_bucket s3] else [])))"

text \<open>\<open>indexOf(marker)\<close> and \<open>slice\<close>: the text from the first occurrence on.\<close>

fun fromMarker :: "string \<Rightarrow> string \<Rightarrow> string option" where
  "fromMarker marker [] = (if marker = [] then Some [] else None)"
| "fromMarker marker (c # t) = (if startsWith (c # t) marker then Some (c # t) else fromMarker marker t)"

definition extractObjectKeyFromUrl :: "web \<Rightarrow> storage_config \<Rightarrow> string \<Rightarrow> string \<Rightarrow> string result" where
  "extractObjectKeyFromUrl web config url folder =
     (let normalizedUrl = js_trim url in
      case List.find (\<lambda>p. startsWith normalizedUrl (p @ ''/'')) (getPublicUrlPrefixes config) of
        Some p \<Rightarrow> (case decodeURIComponent (drop (length p + 1) normalizedUrl) of
                     None \<Rightarrow> Inl (Failure ''URI malformed'') | Some key \<Rightarrow> Inr key)
      | None \<Rightarrow> (case wb_parse web normalizedUrl of
            None \<Rightarrow> Inl (Failure ''Invalid URL'')
          | Some parsed \<Rightarrow>
              (let path = (if startsWith (pu_pathname parsed) ''/'' then tl (pu_pathname parsed) else pu_pathname parsed)
               in case decodeURIComponent path of
                    None \<Rightarrow> Inl (Failure ''URI malformed'')
                  | Some pathname \<Rightarrow> Inr (nullish (fromMarker (folder @ ''/'') pathname) pathname))))"

definition assertFolderImageUrl :: "web \<Rightarrow> storage_config \<Rightarrow> string \<Rightarrow> string \<Rightarrow> unit result" where
  "assertFolderImageUrl web config url folder =
     (let trimmed = js_trim url in
      if trimmed = [] then Inl (BadRequest ''INVALID_CATEGORY_IMAGE_URL'')
      else case wb_parse web trimmed of
        None \<Rightarrow> Inl (BadRequest ''INVALID_CATEGORY_IMAGE_URL'')
      | Some parsed \<Rightarrow>
          if pu_protocol parsed \<noteq> ''http:'' \<and> pu_protocol parsed \<noteq> ''https:'' then Inl (BadRequest ''INVALID_CATEGORY_IMAGE_URL'')
          else case extractObjectKeyFromUrl web config trimmed folder of
                 Inl e \<Rightarrow> Inl e
               | Inr key \<Rightarrow> if startsWith key (folder @ ''/'') then Inr () else Inl (BadRequest ''INVALID_CATEGORY_IMAGE_URL''))"

definition isOurPublicFolderUrl :: "storage_config \<Rightarrow> string \<Rightarrow> string \<Rightarrow> bool result" where
  "isOurPublicFolderUrl config url folder =
     (let trimmed = js_trim url in
      if trimmed = [] then Inr False
      else case List.find (\<lambda>p. startsWith trimmed (p @ ''/'')) (getPublicUrlPrefixes config) of
        None \<Rightarrow> Inr False
      | Some p \<Rightarrow> (case decodeURIComponent (drop (length p + 1) trimmed) of
                     None \<Rightarrow> Inl (Failure ''URI malformed'') | Some key \<Rightarrow> Inr (startsWith key (folder @ ''/''))))"

definition extensionFromContentType :: "string \<Rightarrow> string" where
  "extensionFromContentType contentType = (let m = js_lower contentType in
     if m = ''image/jpeg'' \<or> m = ''image/jpg'' then ''jpg'' else if m = ''image/png'' then ''png''
     else if m = ''image/webp'' then ''webp'' else if m = ''image/gif'' then ''gif'' else ''jpg'')"

definition buildObjectKey :: "string \<Rightarrow> string \<Rightarrow> string \<Rightarrow> string" where
  "buildObjectKey uuid folder contentType = folder @ ''/'' @ uuid @ ''.'' @ extensionFromContentType contentType"


lemma hexValue_hexDigit: "n < 16 \<Longrightarrow> hexValue (hexDigit n) = Some n"
  by (simp add: hexValue_def hexDigit_def Let_def)

lemma char_parts: "char_of (16 * (of_char c div 16) + of_char c mod 16) = (c :: char)"
  by simp

lemma decode_percent: "decodeURIComponent (percent c @ t) = map_option ((#) c) (decodeURIComponent t)"
proof -
  have "(of_char c :: nat) div 16 < 16" by (rule less_mult_imp_div_less) simp
  then have "hexValue (hexDigit (of_char c div 16)) = Some (of_char c div 16)" "hexValue (hexDigit (of_char c mod 16)) = Some (of_char c mod 16)"
    by (auto intro!: hexValue_hexDigit)
  then show ?thesis by (simp add: percent_def Let_def char_parts)
qed

lemma decode_encode: "decodeURIComponent (encodeURIComponent u @ t) = map_option ((@) u) (decodeURIComponent t)"
proof (induction u)
  case Nil
  then show ?case by (simp add: encodeURIComponent_def option.map_ident)
next
  case (Cons c u)
  have "\<not> unreserved (CHR ''%'')" by code_simp
  then have "unreserved c \<Longrightarrow> c \<noteq> CHR ''%''" by auto
  then have "decodeURIComponent (encodeURIComponent (c # u) @ t) = map_option ((#) c) (decodeURIComponent (encodeURIComponent u @ t))"
    by (auto simp: encodeURIComponent_def decode_percent simp del: decodeURIComponent.simps(2))
      (simp_all add: encodeURIComponent_def)
  then show ?case by (simp add: Cons.IH option.map_comp comp_def)
qed

lemma decode_joined: "decodeURIComponent (joinWith (CHR ''/'') (map encodeURIComponent ws)) = Some (joinWith (CHR ''/'') ws)"
proof (induction ws)
  case (Cons w ws)
  show ?case
  proof (cases ws)
    case Nil
    then show ?thesis using decode_encode [of w "[]"] by simp
  next
    case (Cons v vs)
    then show ?thesis using Cons.IH by (simp add: decode_encode)
  qed
qed simp

lemma joinWith_splitOn: "joinWith d (splitOn d t) = t"
proof (induction t)
  case (Cons c t)
  have "splitOn d t \<noteq> []" by (cases t) (auto split: list.split)
  then show ?case using Cons by (cases "splitOn d t"; cases "tl (splitOn d t)") auto
qed simp

lemma trim_id:
  "x \<noteq> [] \<Longrightarrow> \<not> js_ws (hd x) \<Longrightarrow> \<not> js_ws (last x) \<Longrightarrow> js_trim x = x"
proof -
  have drop: "dropWhile js_ws y = y" if "y \<noteq> []" "\<not> js_ws (hd y)" for y using that by (cases y) simp_all
  assume "x \<noteq> []" "\<not> js_ws (hd x)" "\<not> js_ws (last x)"
  then show "js_trim x = x" using drop [of x] drop [of "rev x"] by (simp add: js_trim_def hd_rev)
qed

lemma encoded_chars: "c \<in> set (encodeURIComponent t) \<Longrightarrow> \<not> js_ws c"
proof -
  have "list_all (\<lambda>n. \<not> js_ws (hexDigit n)) [0..<16]" by code_simp
  then have hex: "\<not> js_ws (hexDigit n)" if "n < 16" for n using that by (simp add: list_all_iff)
  have "(of_char c' :: nat) div 16 < 16" for c' :: char by (rule less_mult_imp_div_less) simp
  then have "\<not> js_ws (hexDigit (of_char c' div 16))" "\<not> js_ws (hexDigit (of_char c' mod 16))" for c' :: char by (simp_all add: hex)
  moreover have "\<not> js_ws (CHR ''%'')" by code_simp
  ultimately have "\<not> js_ws d" if "d \<in> set (percent c')" for d c'
    using that unfolding percent_def Let_def by (metis empty_iff empty_set set_ConsD)
  moreover have "\<not> js_ws d" if "unreserved d" for d using that by (auto simp: unreserved_def js_ws_def Let_def)
  ultimately show "c \<in> set (encodeURIComponent t) \<Longrightarrow> \<not> js_ws c" by (auto simp: encodeURIComponent_def split: if_splits)
qed

text \<open>The prefix of the public URLs of the storage, where the configuration gives one that is recognised.\<close>

definition urlBase :: "storage_settings \<Rightarrow> string" where
  "urlBase settings = (if ss_publicUrl settings \<noteq> [] then withoutSlash (ss_publicUrl settings)
     else withoutSlash (nullish (ss_endpoint settings) []) @ CHR ''/'' # ss_bucket settings)"

definition recognised :: "storage_config \<Rightarrow> storage_settings \<Rightarrow> bool" where
  "recognised config settings \<longleftrightarrow> ss_publicUrl settings \<noteq> [] \<or> cf_provider config \<noteq> ''r2'' \<and> truthy (ss_endpoint settings)"

lemma url_prefixes:
  assumes "getSettings config = Inr settings" and "recognised config settings"
  shows "\<exists>rest. getPublicUrlPrefixes config = urlBase settings # rest"
  using assms
  by (auto simp: getSettings_def getPublicUrlPrefixes_def recognised_def urlBase_def orUndefined_def Let_def nullish_def
      split: if_splits option.splits)

lemma public_url:
  assumes "getSettings config = Inr settings" and "recognised config settings" and "\<not> js_ws (hd (buildPublicUrl settings key))"
  shows "js_trim (buildPublicUrl settings key) = buildPublicUrl settings key" and "buildPublicUrl settings key \<noteq> []"
    and "List.find (\<lambda>p. startsWith (buildPublicUrl settings key) (p @ ''/'')) (getPublicUrlPrefixes config) = Some (urlBase settings)"
    and "decodeURIComponent (drop (length (urlBase settings) + 1) (buildPublicUrl settings key)) = Some key"
proof -
  let ?k = "joinWith (CHR ''/'') (map encodeURIComponent (splitOn (CHR ''/'') key))"
  have url: "buildPublicUrl settings key = urlBase settings @ CHR ''/'' # ?k"
    using assms(2) by (cases "ss_endpoint settings") (auto simp: buildPublicUrl_def urlBase_def recognised_def)
  have ws: "\<not> js_ws c" if "c \<in> set ?k" for c using that by (auto dest!: joined_chars encoded_chars) (auto simp: js_ws_def)
  have slash: "\<not> js_ws (CHR ''/'')" by (simp add: js_ws_def)
  have "\<not> js_ws (last (buildPublicUrl settings key))" using slash ws by (auto simp: url)
  then show "js_trim (buildPublicUrl settings key) = buildPublicUrl settings key" using assms(3) by (intro trim_id) (simp_all add: url)
  show "buildPublicUrl settings key \<noteq> []" by (simp add: url)
  show "List.find (\<lambda>p. startsWith (buildPublicUrl settings key) (p @ ''/'')) (getPublicUrlPrefixes config) = Some (urlBase settings)"
    using url_prefixes [OF assms(1,2)] by (auto simp: url startsWith_def)
  show "decodeURIComponent (drop (length (urlBase settings) + 1) (buildPublicUrl settings key)) = Some key"
    by (simp add: url decode_joined joinWith_splitOn)
qed

text \<open>C37. Where the storage has a public URL, or is an S3 storage with an endpoint, the public URL of an object, whatever its
key is, is recognised as an URL of the storage, and gives the key back. (It must not begin with a blank.)\<close>

theorem public_url_roundtrip:
  assumes "getSettings config = Inr settings"
    and "ss_publicUrl settings \<noteq> [] \<or> cf_provider config \<noteq> ''r2'' \<and> truthy (ss_endpoint settings)"
    and "\<not> js_ws (hd (buildPublicUrl settings key))"
  shows "extractObjectKeyFromUrl web config (buildPublicUrl settings key) folder = Inr key \<and>
    isOurPublicFolderUrl config (buildPublicUrl settings key) folder = Inr (startsWith key (folder @ ''/''))"
proof -
  have "recognised config settings" using assms(2) by (simp add: recognised_def)
  from public_url [OF assms(1) this assms(3)] show ?thesis by (simp add: extractObjectKeyFromUrl_def isOurPublicFolderUrl_def Let_def)
qed

definition sampleStorage :: "string option \<Rightarrow> storage_config" where
  "sampleStorage endpoint = \<lparr>cf_s3 = \<lparr>s3_accessKeyId = ''k'', s3_secretAccessKey = ''x'', s3_region = [], s3_bucket = ''b'', s3_endpoint = endpoint,
     s3_forcePathStyle = False, s3_publicUrl = [], s3_objectAcl = []\<rparr>,
     cf_cloudflareR2 = \<lparr>r2_accountId = [], r2_accessKeyId = [], r2_secretAccessKey = [], r2_bucket = []\<rparr>, cf_provider = [], cf_cdnUrl = []\<rparr>"

theorem public_url_roundtrip_witness:
  "\<exists>settings. getSettings (sampleStorage (Some ''https://s3.test/'')) = Inr settings \<and>
     buildPublicUrl settings ''stores/a b.webp'' = ''https://s3.test/b/stores/a%20b.webp'' \<and>
     isOurPublicFolderUrl (sampleStorage (Some ''https://s3.test/'')) ''https://s3.test/b/stores/a%20b.webp'' ''stores'' = Inr True"
proof -
  define st where "st = \<lparr>ss_accessKeyId = ''k'', ss_secretAccessKey = ''x'', ss_region = ''ap-southeast-1'', ss_bucket = ''b'',
    ss_endpoint = Some ''https://s3.test/'', ss_forcePathStyle = False, ss_publicUrl = [], ss_acl = None\<rparr>"
  have settings: "getSettings (sampleStorage (Some ''https://s3.test/'')) = Inr st"
    by (simp add: getSettings_def sampleStorage_def orUndefined_def str_or_def st_def)
  have b: "buildPublicUrl st ''stores/a b.webp'' = ''https://s3.test/b/stores/a%20b.webp''" unfolding st_def by code_simp
  have "truthy (ss_endpoint st)" by (simp add: st_def)
  moreover have "cf_provider (sampleStorage (Some ''https://s3.test/'')) \<noteq> ''r2''" by (simp add: sampleStorage_def)
  moreover have "startsWith ''stores/a b.webp'' (''stores'' @ ''/'')" by code_simp
  ultimately show ?thesis
    using settings b public_url_roundtrip [OF settings, of "''stores/a b.webp''" undefined "''stores''"] by (simp add: js_ws_def)
qed

text \<open>Without either, an URL of the storage is not recognised, and its key is read from the name of the folder on: an object of
another folder passes for one of the folder.\<close>

theorem unrecognised_url_misread:
  assumes "wb_parse web ''https://b.s3.amazonaws.com/users/stores/a'' = Some parsed" and "pu_pathname parsed = ''/users/stores/a''"
  shows "\<exists>settings. getSettings (sampleStorage None) = Inr settings \<and>
    buildPublicUrl settings ''users/stores/a'' = ''https://b.s3.amazonaws.com/users/stores/a'' \<and>
    isOurPublicFolderUrl (sampleStorage None) (buildPublicUrl settings ''users/stores/a'') ''users'' = Inr False \<and>
    extractObjectKeyFromUrl web (sampleStorage None) (buildPublicUrl settings ''users/stores/a'') ''stores'' = Inr ''stores/a''"
proof -
  define st where "st = \<lparr>ss_accessKeyId = ''k'', ss_secretAccessKey = ''x'', ss_region = ''ap-southeast-1'', ss_bucket = ''b'',
    ss_endpoint = None, ss_forcePathStyle = False, ss_publicUrl = [], ss_acl = None\<rparr>"
  have settings: "getSettings (sampleStorage None) = Inr st"
    by (simp add: getSettings_def sampleStorage_def orUndefined_def str_or_def st_def)
  have b: "buildPublicUrl st ''users/stores/a'' = ''https://b.s3.amazonaws.com/users/stores/a''" unfolding st_def by code_simp
  have none: "getPublicUrlPrefixes (sampleStorage None) = []" by (simp add: getPublicUrlPrefixes_def sampleStorage_def)
  have tr: "js_trim ''https://b.s3.amazonaws.com/users/stores/a'' = ''https://b.s3.amazonaws.com/users/stores/a''"
    by (rule trim_id) (simp_all add: js_ws_def)
  have "startsWith ''/users/stores/a'' ''/''" "decodeURIComponent ''users/stores/a'' = Some ''users/stores/a''"
    "fromMarker (''stores'' @ ''/'') ''users/stores/a'' = Some ''stores/a''" by code_simp+
  then have "extractObjectKeyFromUrl web (sampleStorage None) ''https://b.s3.amazonaws.com/users/stores/a'' ''stores'' = Inr ''stores/a''"
    using assms by (simp add: extractObjectKeyFromUrl_def none tr Let_def del: decodeURIComponent.simps fromMarker.simps)
  moreover have "isOurPublicFolderUrl (sampleStorage None) ''https://b.s3.amazonaws.com/users/stores/a'' ''users'' = Inr False"
    by (simp add: isOurPublicFolderUrl_def none tr Let_def)
  ultimately show ?thesis using settings b by auto
qed

end
