(* ===== verification/Store_Admin.thy ===== *)
theory Store_Admin
  imports Store_Recipient Store_Hold Remote_Images Pagination
begin

text \<open>
  The life of a store: \<^verbatim>\<open>src/src/common/utils/slug.util.ts\<close> and the registration and administration of
  \<^verbatim>\<open>src/src/modules/stores/stores.service.ts\<close>. Parameters: the hash of a password, the random slugs, and the
  Unicode classes of the regular expressions. The unique indexes of PostgreSQL on e-mail addresses and slugs
  are modelled: a row that breaks one raises \<open>DUPLICATE\<close>.
\<close>

definition DUPLICATE :: exn where
  "DUPLICATE = Failure ''duplicate key value violates unique constraint''"

section \<open>Slugs\<close>

text \<open>The classes \<open>\p{L}\<close>, \<open>\p{N}\<close> and \<open>\p{M}\<close> of the regular expressions.\<close>

record unicode =
  uc_letter :: "char \<Rightarrow> bool"
  uc_number :: "char \<Rightarrow> bool"
  uc_mark :: "char \<Rightarrow> bool"

definition slugChar :: "unicode \<Rightarrow> char \<Rightarrow> bool" where
  "slugChar uc c \<longleftrightarrow> uc_letter uc c \<or> uc_number uc c \<or> uc_mark uc c"

text \<open>\<open>replace(/[^\p{L}\p{N}\p{M}]+/gu, '-')\<close>: a run of other characters becomes one dash.\<close>

fun dashed :: "unicode \<Rightarrow> bool \<Rightarrow> string \<Rightarrow> string" where
  "dashed uc inRun [] = []"
| "dashed uc inRun (c # t) =
     (if slugChar uc c then c # dashed uc False t
      else if inRun then dashed uc True t else CHR ''-'' # dashed uc True t)"

definition trimDashes :: "string \<Rightarrow> string" where
  "trimDashes t = rev (dropWhile (\<lambda>c. c = CHR ''-'') (rev (dropWhile (\<lambda>c. c = CHR ''-'') t)))"

definition generateSlug :: "unicode \<Rightarrow> string \<Rightarrow> string \<Rightarrow> string" where
  "generateSlug uc name fallback =
     (let slug = trimDashes (dashed uc False (js_lower (js_trim name))) in if slug \<noteq> [] then slug else fallback)"

definition latinLetter :: "char \<Rightarrow> bool" where
  "latinLetter c \<longleftrightarrow> (let n = (of_char c :: nat) in 65 \<le> n \<and> n \<le> 90 \<or> 97 \<le> n \<and> n \<le> 122)"

definition isAllThaiStoreName :: "unicode \<Rightarrow> string \<Rightarrow> bool" where
  "isAllThaiStoreName uc name =
     (let trimmed = js_trim name in list_ex (uc_letter uc) trimmed \<and> \<not> list_ex latinLetter trimmed)"

definition RANDOM_SLUG_CHARS :: string where
  "RANDOM_SLUG_CHARS = ''abcdefghijklmnopqrstuvwxyz0123456789''"

definition DEFAULT_RANDOM_SLUG_LENGTH :: nat where
  "DEFAULT_RANDOM_SLUG_LENGTH = 8"

definition generateRandomSlug :: "nat list \<Rightarrow> string" where
  "generateRandomSlug bytes = map (\<lambda>b. RANDOM_SLUG_CHARS ! (b mod length RANDOM_SLUG_CHARS)) bytes"

definition MAX_UNIQUE_SLUG_ATTEMPTS :: nat where
  "MAX_UNIQUE_SLUG_ATTEMPTS = 20"

text \<open>\<open>random n\<close> are the eight bytes of the n-th attempt.\<close>

definition generateUniqueStoreSlug :: "unicode \<Rightarrow> (nat \<Rightarrow> nat list) \<Rightarrow> string \<Rightarrow> (string \<Rightarrow> bool) \<Rightarrow> string result" where
  "generateUniqueStoreSlug uc random name isSlugTaken =
     (let candidate = generateSlug uc name ''store'' in
      if \<not> isAllThaiStoreName uc name \<and> candidate \<noteq> ''store'' \<and> \<not> isSlugTaken candidate then Inr candidate
      else case List.find (\<lambda>slug. \<not> isSlugTaken slug) (map (\<lambda>n. generateRandomSlug (random n)) [0..<MAX_UNIQUE_SLUG_ATTEMPTS]) of
             Some slug \<Rightarrow> Inr slug
           | None \<Rightarrow> Inl (Failure ''Failed to generate unique store slug''))"

definition slugTaken :: "db \<Rightarrow> string \<Rightarrow> bool" where
  "slugTaken s slug \<longleftrightarrow> List.find (\<lambda>st. st_slug st = slug \<and> st_deletedAt st = None) (dbStores s) \<noteq> None"

definition resolveUniqueStoreSlug :: "unicode \<Rightarrow> (nat \<Rightarrow> nat list) \<Rightarrow> string \<Rightarrow> (db, string) op" where
  "resolveUniqueStoreSlug uc random name = readM (\<lambda>s. generateUniqueStoreSlug uc random name (slugTaken s))"

section \<open>Rows\<close>

definition slugClash :: "db \<Rightarrow> store_row \<Rightarrow> bool" where
  "slugClash s st \<longleftrightarrow> st_deletedAt st = None \<and>
     list_ex (\<lambda>x. st_id x \<noteq> st_id st \<and> st_slug x = st_slug st \<and> st_deletedAt x = None) (dbStores s)"

definition putStore :: "env \<Rightarrow> store_row \<Rightarrow> (db, store_row) op" where
  "putStore env st = seqM (getM (\<lambda>s. slugClash s st)) (\<lambda>clash.
     seqM (failIf clash DUPLICATE) (\<lambda>_. savedStore env st))"

definition newStore :: "env \<Rightarrow> string \<Rightarrow> string \<Rightarrow> string \<Rightarrow> string \<Rightarrow> store_status \<Rightarrow> store_row" where
  "newStore env i ownerId name slug status =
     \<lparr>st_id = i, st_ownerId = ownerId, st_name = name, st_slug = slug, st_description = None, st_logoUrl = None,
      st_bannerUrl = None, st_status = status, st_approvedBy = None, st_approvedAt = None, st_rejectionReason = None,
      st_contactPhone = None, st_contactEmail = None, st_address = None, st_bankAccountName = None,
      st_bankAccountNumber = None, st_bankName = None, st_bankCode = None, st_omiseRecipientId = None,
      st_omiseRecipientStatus = RS_NOT_CONNECTED, st_omiseRecipientFailureMessage = None,
      st_payoutSchedule = SCH_MANUAL, st_payoutSchedulePaused = False, st_commissionRate = None,
      st_createdAt = envNow env, st_updatedAt = envNow env, st_deletedAt = None\<rparr>"

definition findUserByEmail :: "db \<Rightarrow> string \<Rightarrow> user_row option" where
  "findUserByEmail s email = List.find (\<lambda>u. u_email u = email \<and> u_deletedAt u = None) (dbUsers s)"

definition findUserById :: "db \<Rightarrow> string \<Rightarrow> user_row option" where
  "findUserById s i = List.find (\<lambda>u. u_id u = i \<and> u_deletedAt u = None) (dbUsers s)"

definition emailClash :: "db \<Rightarrow> user_row \<Rightarrow> bool" where
  "emailClash s u \<longleftrightarrow> u_deletedAt u = None \<and>
     list_ex (\<lambda>x. u_id x \<noteq> u_id u \<and> u_email x = u_email u \<and> u_deletedAt x = None) (dbUsers s)"

definition stampUser :: "env \<Rightarrow> db \<Rightarrow> user_row \<Rightarrow> user_row" where
  "stampUser env s u = (if byKey u_id (u_id u) (dbUsers s) = Some u then u else u\<lparr>u_updatedAt := envNow env\<rparr>)"

definition putUser :: "env \<Rightarrow> user_row \<Rightarrow> (db, user_row) op" where
  "putUser env u = seqM (getM (\<lambda>s. emailClash s u)) (\<lambda>clash. seqM (failIf clash DUPLICATE) (\<lambda>_.
     seqM (getM (\<lambda>s. stampUser env s u)) (\<lambda>v. seqM (modM (\<lambda>s. s\<lparr>dbUsers := saveRow u_id v (dbUsers s)\<rparr>)) (\<lambda>_. retM v))))"

definition newVendor :: "env \<Rightarrow> string \<Rightarrow> string \<Rightarrow> string \<Rightarrow> string \<Rightarrow> user_row" where
  "newVendor env i email passwordHash fullName =
     \<lparr>u_id = i, u_email = email, u_passwordHash = passwordHash, u_fullName = fullName, u_profilePhotoUrl = None,
      u_role = UR_VENDOR, u_isActive = True, u_emailVerified = False, u_lastLoginAt = None, u_tokenVersion = 0,
      u_createdAt = envNow env, u_updatedAt = envNow env, u_deletedAt = None\<rparr>"

definition saveMember :: "env \<Rightarrow> member_row \<Rightarrow> (db, member_row) op" where
  "saveMember env m =
     seqM (readM (\<lambda>s. if list_ex (\<lambda>x. mb_id x \<noteq> mb_id m \<and> mb_userId x = mb_userId m \<and> mb_storeId x = mb_storeId m) (dbMembers s)
       then Inl DUPLICATE else Inr ())) (\<lambda>_.
     seqM (getM (\<lambda>s. if byKey mb_id (mb_id m) (dbMembers s) = Some m then m else m\<lparr>mb_updatedAt := envNow env\<rparr>)) (\<lambda>v.
     seqM (modM (\<lambda>s. s\<lparr>dbMembers := saveRow mb_id v (dbMembers s)\<rparr>)) (\<lambda>_. retM v)))"

definition newMember :: "env \<Rightarrow> string \<Rightarrow> string \<Rightarrow> string \<Rightarrow> member_role \<Rightarrow> member_row" where
  "newMember env i storeId userId role = \<lparr>mb_id = i, mb_storeId = storeId, mb_userId = userId, mb_role = role,
     mb_permissions = [], mb_createdAt = envNow env, mb_updatedAt = envNow env\<rparr>"

section \<open>Registration\<close>

record create_store =
  cs_name :: string
  cs_description :: "string option"
  cs_contactPhone :: "string option"
  cs_contactEmail :: "string option"
  cs_address :: "string option"
  cs_ownerEmail :: string
  cs_ownerPassword :: string
  cs_ownerFullName :: string
  cs_bankAccountName :: "string option"
  cs_bankAccountNumber :: "string option"
  cs_bankName :: "string option"

text \<open>\<open>create\<close>: the user stays when the store cannot be saved.\<close>

definition createStore :: "env \<Rightarrow> unicode \<Rightarrow> (nat \<Rightarrow> nat list) \<Rightarrow> (string \<Rightarrow> string) \<Rightarrow> create_store \<Rightarrow> (db, store_row) op" where
  "createStore env uc random bcrypt dto =
     seqM (getM (\<lambda>s. findUserByEmail s (cs_ownerEmail dto))) (\<lambda>existing.
     seqM (failIf (existing \<noteq> None) (Conflict ''EMAIL_EXISTS'')) (\<lambda>_.
     seqM (freshId env) (\<lambda>userId.
     seqM (putUser env (newVendor env userId (cs_ownerEmail dto) (bcrypt (cs_ownerPassword dto)) (cs_ownerFullName dto))) (\<lambda>user.
     seqM (resolveUniqueStoreSlug uc random (cs_name dto)) (\<lambda>slug.
     seqM (freshId env) (\<lambda>i.
       putStore env ((newStore env i (u_id user) (cs_name dto) slug ST_PENDING)
         \<lparr>st_description := cs_description dto, st_contactPhone := cs_contactPhone dto, st_contactEmail := cs_contactEmail dto,
          st_address := cs_address dto, st_bankAccountName := cs_bankAccountName dto,
          st_bankAccountNumber := cs_bankAccountNumber dto, st_bankName := cs_bankName dto\<rparr>)))))))"

definition registerVendor :: "env \<Rightarrow> (string \<Rightarrow> string) \<Rightarrow> string \<Rightarrow> string \<Rightarrow> string \<Rightarrow> (db, user_row) op" where
  "registerVendor env bcrypt email password fullName =
     seqM (getM (\<lambda>s. findUserByEmail s email)) (\<lambda>existing.
     seqM (failIf (existing \<noteq> None) (Conflict ''EMAIL_EXISTS'')) (\<lambda>_.
     seqM (freshId env) (\<lambda>i. putUser env (newVendor env i email (bcrypt password) (js_trim fullName)))))"

section \<open>Approval and suspension\<close>

definition logAdminStoreAction :: "string \<Rightarrow> string \<Rightarrow> store_row \<Rightarrow> (db, unit) op" where
  "logAdminStoreAction adminId action store = emit (AuditLogged adminId action (st_id store))"

text \<open>The notification to the vendor is sent in a \<open>catch\<close>; the dashboard event is not awaited.\<close>

definition tellVendor :: "store_row \<Rightarrow> store_status \<Rightarrow> (db, unit) op" where
  "tellVendor store status =
     seqM (emit (NotifyVendorStoreStatus (st_ownerId store) (st_id store) status)) (\<lambda>_.
       emit (DashboardStoreStatus (st_id store) (st_ownerId store)))"

definition approveStore :: "env \<Rightarrow> string \<Rightarrow> string \<Rightarrow> (db, store_row) op" where
  "approveStore env storeId adminId =
     seqM (findOneStore storeId) (\<lambda>store.
     seqM (failIf (st_status store \<noteq> ST_PENDING) (BadRequest ''INVALID_STATUS'')) (\<lambda>_.
     seqM (putStore env (store\<lparr>st_status := ST_APPROVED, st_approvedBy := Some adminId, st_approvedAt := Some (envNow env)\<rparr>)) (\<lambda>saved.
     seqM (tellVendor saved ST_APPROVED) (\<lambda>_.
     seqM (logAdminStoreAction adminId ''store.approved'' saved) (\<lambda>_. retM saved)))))"

definition rejectStore :: "env \<Rightarrow> string \<Rightarrow> string \<Rightarrow> string option \<Rightarrow> (db, store_row) op" where
  "rejectStore env storeId adminId reason =
     seqM (findOneStore storeId) (\<lambda>store.
     seqM (failIf (st_status store \<noteq> ST_PENDING) (BadRequest ''INVALID_STATUS'')) (\<lambda>_.
     seqM (putStore env (store\<lparr>st_status := ST_REJECTED, st_rejectionReason := reason\<rparr>)) (\<lambda>saved.
     seqM (tellVendor saved ST_REJECTED) (\<lambda>_.
     seqM (logAdminStoreAction adminId ''store.rejected'' saved) (\<lambda>_. retM saved)))))"

definition suspendStore :: "env \<Rightarrow> string \<Rightarrow> string \<Rightarrow> (db, store_row) op" where
  "suspendStore env storeId adminId =
     seqM (findOneStore storeId) (\<lambda>store.
     seqM (putStore env (store\<lparr>st_status := ST_SUSPENDED\<rparr>)) (\<lambda>saved.
     seqM (logAdminStoreAction adminId ''store.suspended'' saved) (\<lambda>_.
     seqM (applyHoldForStore env (st_id saved)) (\<lambda>_. retM saved))))"

definition reactivateStore :: "env \<Rightarrow> string \<Rightarrow> string \<Rightarrow> (db, store_row) op" where
  "reactivateStore env storeId adminId =
     seqM (findOneStore storeId) (\<lambda>store.
     seqM (failIf (st_status store \<noteq> ST_SUSPENDED) (BadRequest ''INVALID_STATUS'')) (\<lambda>_.
     seqM (putStore env (store\<lparr>st_status := ST_APPROVED, st_approvedBy := Some adminId, st_approvedAt := Some (envNow env)\<rparr>)) (\<lambda>saved.
     seqM (logAdminStoreAction adminId ''store.reactivated'' saved) (\<lambda>_.
     seqM (restoreHoldForStore env (st_id saved)) (\<lambda>_. retM saved)))))"

section \<open>Settings\<close>

record store_settings =
  sn_name :: "string option"
  sn_description :: "string field"
  sn_contactPhone :: "string field"
  sn_contactEmail :: "string field"
  sn_address :: "string field"
  sn_logoUrl :: "string field"
  sn_bannerUrl :: "string field"

text \<open>An image: \<open>undefined\<close> keeps the old one, a blank one clears it, any other must lie in the folder of the stores.\<close>

definition imageField :: "web \<Rightarrow> storage_config \<Rightarrow> string field \<Rightarrow> string option \<Rightarrow> string option result" where
  "imageField web config f old = (case f of
     None \<Rightarrow> Inr old
   | Some v \<Rightarrow> (let trimmed = js_trim (nullish v []) in
       if trimmed = [] then Inr None
       else case assertFolderImageUrl web config trimmed ''stores'' of Inl e \<Rightarrow> Inl e | Inr _ \<Rightarrow> Inr (Some trimmed)))"

definition updateStoreSettings :: "env \<Rightarrow> web \<Rightarrow> storage_config \<Rightarrow> string \<Rightarrow> store_settings \<Rightarrow> (db, store_row) op" where
  "updateStoreSettings env web config storeId data =
     seqM (findOneStore storeId) (\<lambda>store.
     seqM (liftM (imageField web config (sn_logoUrl data) (st_logoUrl store))) (\<lambda>logo.
     seqM (liftM (imageField web config (sn_bannerUrl data) (st_bannerUrl store))) (\<lambda>banner.
       putStore env (store\<lparr>st_name := nullish (sn_name data) (st_name store),
         st_description := setField (sn_description data) (st_description store),
         st_contactPhone := setField (sn_contactPhone data) (st_contactPhone store),
         st_contactEmail := setField (sn_contactEmail data) (st_contactEmail store),
         st_address := setField (sn_address data) (st_address store), st_logoUrl := logo, st_bannerUrl := banner\<rparr>))))"


text \<open>\<open>update\<close>: \<open>Object.assign\<close> of the fields that are present.\<close>

record update_store =
  us_settings :: store_settings
  us_bankAccountName :: "string field"
  us_bankAccountNumber :: "string field"
  us_bankName :: "string field"
  us_bankCode :: "string field"

definition updateStore :: "env \<Rightarrow> string \<Rightarrow> update_store \<Rightarrow> (db, store_row) op" where
  "updateStore env storeId dto =
     seqM (findOneStore storeId) (\<lambda>store.
       (let d = us_settings dto in
        putStore env (store\<lparr>st_name := nullish (sn_name d) (st_name store),
          st_description := setField (sn_description d) (st_description store),
          st_contactPhone := setField (sn_contactPhone d) (st_contactPhone store),
          st_contactEmail := setField (sn_contactEmail d) (st_contactEmail store),
          st_address := setField (sn_address d) (st_address store), st_logoUrl := setField (sn_logoUrl d) (st_logoUrl store),
          st_bannerUrl := setField (sn_bannerUrl d) (st_bannerUrl store),
          st_bankAccountName := setField (us_bankAccountName dto) (st_bankAccountName store),
          st_bankAccountNumber := setField (us_bankAccountNumber dto) (st_bankAccountNumber store),
          st_bankName := setField (us_bankName dto) (st_bankName store),
          st_bankCode := setField (us_bankCode dto) (st_bankCode store)\<rparr>)))"

section \<open>Stores of the administration\<close>

definition findVendor :: "db \<Rightarrow> string \<Rightarrow> user_row option" where
  "findVendor s i = List.find (\<lambda>u. u_id u = i \<and> u_role u = UR_VENDOR \<and> u_deletedAt u = None) (dbUsers s)"

record admin_store =
  as_ownerUserId :: string
  as_name :: string
  as_description :: "string option"
  as_contactPhone :: "string option"
  as_contactEmail :: "string option"
  as_address :: "string option"
  as_logoUrl :: "string option"
  as_bannerUrl :: "string option"
  as_status :: "store_status option"

definition createAsAdmin :: "env \<Rightarrow> unicode \<Rightarrow> (nat \<Rightarrow> nat list) \<Rightarrow> admin_store \<Rightarrow> (db, store_row) op" where
  "createAsAdmin env uc random input =
     seqM (failIf (js_trim (as_ownerUserId input) = []) (BadRequest ''OWNER_REQUIRED'')) (\<lambda>_.
     seqM (getM (\<lambda>s. findVendor s (as_ownerUserId input))) (\<lambda>owner.
     seqM (failIf (owner = None) (NotFound ''VENDOR_NOT_FOUND'')) (\<lambda>_.
     seqM (resolveUniqueStoreSlug uc random (js_trim (as_name input))) (\<lambda>slug.
     seqM (freshId env) (\<lambda>i.
     seqM (putStore env ((newStore env i (as_ownerUserId input) (js_trim (as_name input)) slug (nullish (as_status input) ST_APPROVED))
       \<lparr>st_description := as_description input, st_contactPhone := as_contactPhone input, st_contactEmail := as_contactEmail input,
        st_address := as_address input, st_logoUrl := as_logoUrl input, st_bannerUrl := as_bannerUrl input,
        st_approvedAt := (if as_status input = Some ST_APPROVED then Some (envNow env) else None)\<rparr>)) (\<lambda>saved.
     seqM (freshId env) (\<lambda>m.
     seqM (saveMember env (newMember env m (st_id saved) (as_ownerUserId input) MR_OWNER)) (\<lambda>_.
       findOneStore (st_id saved)))))))))"

definition setRole :: "env \<Rightarrow> string \<Rightarrow> string \<Rightarrow> member_role \<Rightarrow> (db, unit) op" where
  "setRole env storeId userId role =
     seqM (getM (\<lambda>s. membershipOf s storeId userId)) (\<lambda>found. case found of
       Some m \<Rightarrow> seqM (saveMember env (m\<lparr>mb_role := role\<rparr>)) (\<lambda>_. retM ())
     | None \<Rightarrow> seqM (freshId env) (\<lambda>i. seqM (saveMember env (newMember env i storeId userId role)) (\<lambda>_. retM ())))"

definition syncStoreOwnerMembership :: "env \<Rightarrow> string \<Rightarrow> string \<Rightarrow> string \<Rightarrow> (db, unit) op" where
  "syncStoreOwnerMembership env storeId previousOwnerId newOwnerId =
     seqM (setRole env storeId newOwnerId MR_OWNER) (\<lambda>_.
       if previousOwnerId = newOwnerId then retM ()
       else seqM (getM (\<lambda>s. membershipOf s storeId previousOwnerId)) (\<lambda>previous. case previous of
         None \<Rightarrow> retM ()
       | Some m \<Rightarrow> if mb_role m = MR_OWNER then seqM (saveMember env (m\<lparr>mb_role := MR_STAFF\<rparr>)) (\<lambda>_. retM ()) else retM ()))"

record admin_update =
  au_id :: string
  au_ownerUserId :: "string field"
  au_name :: "string option"
  au_slug :: "string option"
  au_description :: "string field"
  au_contactPhone :: "string field"
  au_contactEmail :: "string field"
  au_address :: "string field"
  au_logoUrl :: "string option"
  au_bannerUrl :: "string option"
  au_status :: "store_status option"
  au_adminId :: "string option"
  au_commissionRate :: "rat option"

text \<open>\<open>value?.trim() || null\<close>, and \<open>value || null\<close>\<close>

definition trimmedField :: "string field \<Rightarrow> string option \<Rightarrow> string option" where
  "trimmedField f old = (case f of None \<Rightarrow> old
     | Some v \<Rightarrow> (let t = js_trim (nullish v []) in if t = [] then None else Some t))"

definition orNullField :: "string field \<Rightarrow> string option \<Rightarrow> string option" where
  "orNullField f old = (case f of None \<Rightarrow> old | Some v \<Rightarrow> if truthy v then v else None)"

definition validRate :: "rat option \<Rightarrow> unit result" where
  "validRate rate = (case rate of None \<Rightarrow> Inr ()
     | Some r \<Rightarrow> if of_int \<lfloor>r\<rfloor> \<noteq> r \<or> r < 0 \<or> 100 < r then Inl (BadRequest ''INVALID_COMMISSION_RATE'') else Inr ())"

text \<open>The new owner: the memberships follow at once, before the store itself is saved.\<close>

definition changeOwner :: "env \<Rightarrow> string field \<Rightarrow> store_row \<Rightarrow> (db, store_row) op" where
  "changeOwner env owner store = (case owner of
     None \<Rightarrow> retM store
   | Some None \<Rightarrow> raiseM (BadRequest ''OWNER_REQUIRED'')
   | Some (Some userId) \<Rightarrow>
       if userId = st_ownerId store then retM store
       else seqM (getM (\<lambda>s. findVendor s userId)) (\<lambda>found. case found of
         None \<Rightarrow> raiseM (NotFound ''VENDOR_NOT_FOUND'')
       | Some u \<Rightarrow> seqM (syncStoreOwnerMembership env (st_id store) (st_ownerId store) (u_id u)) (\<lambda>_.
                     retM (store\<lparr>st_ownerId := u_id u\<rparr>))))"

definition adminFields :: "env \<Rightarrow> admin_update \<Rightarrow> store_row \<Rightarrow> store_row" where
  "adminFields env input store =
     (let store1 = store\<lparr>st_name := (case au_name input of None \<Rightarrow> st_name store | Some n \<Rightarrow> js_trim n),
        st_slug := nullish (au_slug input) (st_slug store), st_description := trimmedField (au_description input) (st_description store),
        st_contactPhone := orNullField (au_contactPhone input) (st_contactPhone store),
        st_contactEmail := trimmedField (au_contactEmail input) (st_contactEmail store),
        st_address := trimmedField (au_address input) (st_address store),
        st_logoUrl := orElse (au_logoUrl input) (st_logoUrl store), st_bannerUrl := orElse (au_bannerUrl input) (st_bannerUrl store),
        st_commissionRate := (case au_commissionRate input of None \<Rightarrow> st_commissionRate store | Some r \<Rightarrow> Some \<lfloor>r\<rfloor>)\<rparr>
      in case au_status input of
           None \<Rightarrow> store1
         | Some status \<Rightarrow>
             (if status = ST_APPROVED \<and> st_status store = ST_SUSPENDED \<and> truthy (au_adminId input)
              then store1\<lparr>st_approvedBy := au_adminId input, st_approvedAt := Some (envNow env)\<rparr> else store1)\<lparr>st_status := status\<rparr>)"

definition updateAsAdmin :: "env \<Rightarrow> admin_update \<Rightarrow> (db, store_row) op" where
  "updateAsAdmin env input =
     seqM (findOneStore (au_id input)) (\<lambda>store0.
     seqM (liftM (validRate (au_commissionRate input))) (\<lambda>_.
     seqM (changeOwner env (au_ownerUserId input) store0) (\<lambda>store.
     seqM (putStore env (adminFields env input store)) (\<lambda>_.
     seqM (findOneStore (au_id input)) (\<lambda>saved.
     (let log = (\<lambda>action. if truthy (au_adminId input) then logAdminStoreAction (nullish (au_adminId input) []) action saved else retM ()) in
      if au_status input = Some ST_SUSPENDED \<and> st_status store0 \<noteq> ST_SUSPENDED
      then seqM (log ''store.suspended'') (\<lambda>_. seqM (applyHoldForStore env (st_id saved)) (\<lambda>_. retM saved))
      else if st_status store0 = ST_SUSPENDED \<and> au_status input = Some ST_APPROVED
      then seqM (log ''store.reactivated'') (\<lambda>_. seqM (restoreHoldForStore env (st_id saved)) (\<lambda>_. retM saved))
      else retM saved))))))"

section \<open>Vendors\<close>

definition findVendorById :: "string \<Rightarrow> (db, user_row) op" where
  "findVendorById i = seqM (getM (\<lambda>s. findVendor s i)) (\<lambda>found. case found of
     None \<Rightarrow> raiseM (NotFound ''VENDOR_NOT_FOUND'') | Some u \<Rightarrow> retM u)"

record vendor_update =
  vu_id :: string
  vu_email :: "string option"
  vu_fullName :: "string option"
  vu_isActive :: "bool option"

text \<open>The stores of the vendor as the e-mail names them; \<open>join(', ')\<close>.\<close>

fun joinComma :: "string list \<Rightarrow> string" where
  "joinComma [] = []"
| "joinComma [n] = n"
| "joinComma (n # ns) = n @ '', '' @ joinComma ns"

definition storeNames :: "db \<Rightarrow> string \<Rightarrow> string option" where
  "storeNames s userId =
     (let names = joinComma (filter (\<lambda>n. js_trim n \<noteq> []) (map st_name (filter (\<lambda>st. st_ownerId st = userId \<and> st_deletedAt st = None) (dbStores s))))
      in if names = [] then None else Some names)"

definition updateVendorAsAdmin :: "env \<Rightarrow> vendor_update \<Rightarrow> (db, user_row) op" where
  "updateVendorAsAdmin env input =
     seqM (findVendorById (vu_id input)) (\<lambda>user.
     seqM (getM (\<lambda>s. storeNames s (u_id user))) (\<lambda>names.
     seqM (getM (\<lambda>s. case vu_email input of None \<Rightarrow> None | Some e \<Rightarrow> findUserByEmail s e)) (\<lambda>existing.
     seqM (failIf (case existing of None \<Rightarrow> False | Some x \<Rightarrow> u_id x \<noteq> vu_id input) (Conflict ''EMAIL_EXISTS'')) (\<lambda>_.
     (let user1 = (case vu_email input of None \<Rightarrow> user
            | Some e \<Rightarrow> if e \<noteq> u_email user then user\<lparr>u_email := e, u_emailVerified := False\<rparr> else user);
          user2 = user1\<lparr>u_fullName := nullish (vu_fullName input) (u_fullName user1), u_isActive := nullish (vu_isActive input) (u_isActive user1)\<rparr>
      in seqM (putUser env user2) (\<lambda>saved.
         seqM (if u_isActive user \<and> vu_isActive input = Some False then emit (EmailVendorSuspended (u_email saved) names) else retM ()) (\<lambda>_.
           retM saved)))))))"

end
