(* ===== verification/Store_Team.thy ===== *)
theory Store_Team
  imports Store_Admin
begin

text \<open>
  Who works for a store and who may open one: \<^verbatim>\<open>store-team.service.ts\<close>, \<^verbatim>\<open>vendor-invitation.service.ts\<close>,
  \<^verbatim>\<open>store-request.service.ts\<close> and \<^verbatim>\<open>store-reactivation-request.service.ts\<close> of \<^verbatim>\<open>src/src/modules/stores\<close>.
  Tokens are drawn like ids (\<open>randomToken\<close>); the mails of invitations are awaited and may be refused. The services use no transaction:
  what was saved before an exception stays.
\<close>

section \<open>Rows\<close>

text \<open>\<open>new Date(Date.now() + 7 * 24 * 60 * 60 * 1000)\<close>\<close>

definition inSevenDays :: "env \<Rightarrow> date" where
  "inSevenDays env = envNow env + 7 * 24 * 60 * 60 * 1000"

definition findInvitation :: "db \<Rightarrow> string \<Rightarrow> member_invitation_row option" where
  "findInvitation s token = List.find (\<lambda>i. mi_token i = token) (dbMemberInvitations s)"

text \<open>The unique indexes: on the token, and on store and e-mail of the pending ones.\<close>

definition invitationClash :: "db \<Rightarrow> member_invitation_row \<Rightarrow> bool" where
  "invitationClash s i \<longleftrightarrow> list_ex (\<lambda>x. mi_id x \<noteq> mi_id i \<and> (mi_token x = mi_token i \<or>
     mi_status x = IN_PENDING \<and> mi_status i = IN_PENDING \<and> mi_storeId x = mi_storeId i \<and> mi_email x = mi_email i)) (dbMemberInvitations s)"

definition saveInvitation :: "env \<Rightarrow> member_invitation_row \<Rightarrow> (db, member_invitation_row) op" where
  "saveInvitation env i =
     seqM (getM (\<lambda>s. invitationClash s i)) (\<lambda>clash. seqM (failIf clash DUPLICATE) (\<lambda>_.
     seqM (getM (\<lambda>s. if byKey mi_id (mi_id i) (dbMemberInvitations s) = Some i then i else i\<lparr>mi_updatedAt := envNow env\<rparr>)) (\<lambda>v.
     seqM (modM (\<lambda>s. s\<lparr>dbMemberInvitations := saveRow mi_id v (dbMemberInvitations s)\<rparr>)) (\<lambda>_. retM v))))"

section \<open>Members\<close>

definition memberByEmail :: "db \<Rightarrow> string \<Rightarrow> string \<Rightarrow> bool" where
  "memberByEmail s storeId email \<longleftrightarrow> list_ex (\<lambda>m. mb_storeId m = storeId \<and>
     (case findUserById s (mb_userId m) of None \<Rightarrow> False | Some u \<Rightarrow> js_lower (u_email u) = email)) (dbMembers s)"

definition STORE_FALLBACK :: string where
  "STORE_FALLBACK = map (\<lambda>n. char_of (n :: nat))
     [224, 184, 163, 224, 185, 137, 224, 184, 178, 224, 184, 153, 224, 184, 132, 224, 185, 137, 224, 184, 178]"

definition storeNameOf :: "db \<Rightarrow> string \<Rightarrow> string" where
  "storeNameOf s storeId = (case liveStore s storeId of None \<Rightarrow> STORE_FALLBACK | Some st \<Rightarrow> st_name st)"

definition inviteMember :: "env \<Rightarrow> string \<Rightarrow> string \<Rightarrow> string \<Rightarrow> member_role \<Rightarrow> (db, member_invitation_row) op" where
  "inviteMember env storeId invitedBy email role =
     (let normalizedEmail = js_lower email in
      seqM (failIf (role = MR_OWNER) (BadRequest ''INVALID_ROLE'')) (\<lambda>_.
      seqM (getM (\<lambda>s. memberByEmail s storeId normalizedEmail)) (\<lambda>member.
      seqM (failIf member (Conflict ''MEMBER_EXISTS'')) (\<lambda>_.
      seqM (getM (\<lambda>s. list_ex (\<lambda>i. mi_storeId i = storeId \<and> mi_email i = normalizedEmail \<and> mi_status i = IN_PENDING) (dbMemberInvitations s))) (\<lambda>pending.
      seqM (failIf pending (Conflict ''INVITATION_EXISTS'')) (\<lambda>_.
      seqM (freshId env) (\<lambda>token.
      seqM (freshId env) (\<lambda>i.
      seqM (saveInvitation env \<lparr>mi_id = i, mi_storeId = storeId, mi_invitedBy = invitedBy, mi_email = normalizedEmail, mi_role = role,
              mi_token = token, mi_status = IN_PENDING, mi_expiresAt = inSevenDays env, mi_acceptedAt = None,
              mi_createdAt = envNow env, mi_updatedAt = envNow env\<rparr>) (\<lambda>saved.
      seqM (getM (\<lambda>s. storeNameOf s storeId)) (\<lambda>name.
      seqM (emit (EmailStoreInvite (mi_email saved) name)) (\<lambda>_.
      seqM (failIf (envMailFails env (mi_email saved)) (Failure ''Failed to send email'')) (\<lambda>_.
        retM saved))))))))))))"

text \<open>The checks shared by the methods that take a token: an expired invitation is marked as such.\<close>

definition findValidPendingInvitation :: "env \<Rightarrow> string \<Rightarrow> (db, member_invitation_row) op" where
  "findValidPendingInvitation env token =
     seqM (getM (\<lambda>s. findInvitation s token)) (\<lambda>found. case found of
       None \<Rightarrow> raiseM (NotFound ''INVITATION_NOT_FOUND'')
     | Some i \<Rightarrow>
         seqM (failIf (mi_status i \<noteq> IN_PENDING) (BadRequest ''INVITATION_INVALID'')) (\<lambda>_.
           if mi_expiresAt i < envNow env
           then seqM (saveInvitation env (i\<lparr>mi_status := IN_EXPIRED\<rparr>)) (\<lambda>_. raiseM (BadRequest ''INVITATION_EXPIRED''))
           else retM i))"

record invitation_view =
  iv_storeName :: string
  iv_email :: string
  iv_role :: member_role
  iv_expiresAt :: date
  iv_userExists :: bool

definition getInvitationByToken :: "env \<Rightarrow> string \<Rightarrow> (db, invitation_view) op" where
  "getInvitationByToken env token =
     seqM (findValidPendingInvitation env token) (\<lambda>i.
       getM (\<lambda>s. \<lparr>iv_storeName = storeNameOf s (mi_storeId i), iv_email = mi_email i, iv_role = mi_role i,
         iv_expiresAt = mi_expiresAt i, iv_userExists = (findUserByEmail s (mi_email i) \<noteq> None)\<rparr>))"

definition acceptInvitation :: "env \<Rightarrow> string \<Rightarrow> string \<Rightarrow> (db, member_row) op" where
  "acceptInvitation env token userId =
     seqM (findValidPendingInvitation env token) (\<lambda>i.
     seqM (getM (\<lambda>s. findUserById s userId)) (\<lambda>found. case found of
       None \<Rightarrow> raiseM (NotFound ''USER_NOT_FOUND'')
     | Some u \<Rightarrow>
         seqM (failIf (js_lower (u_email u) \<noteq> js_lower (mi_email i)) (BadRequest ''EMAIL_MISMATCH'')) (\<lambda>_.
         seqM (getM (\<lambda>s. membershipOf s (mi_storeId i) userId)) (\<lambda>member.
         seqM (failIf (member \<noteq> None) (Conflict ''MEMBER_EXISTS'')) (\<lambda>_.
         seqM (freshId env) (\<lambda>m.
         seqM (saveMember env (newMember env m (mi_storeId i) userId (mi_role i))) (\<lambda>saved.
         seqM (saveInvitation env (i\<lparr>mi_status := IN_ACCEPTED, mi_acceptedAt := Some (envNow env)\<rparr>)) (\<lambda>_.
           retM saved))))))))"

definition acceptInvitationAsNewUser :: "env \<Rightarrow> (string \<Rightarrow> string) \<Rightarrow> string \<Rightarrow> string \<Rightarrow> string \<Rightarrow> (db, member_row) op" where
  "acceptInvitationAsNewUser env bcrypt token password fullName =
     seqM (findValidPendingInvitation env token) (\<lambda>i.
     seqM (getM (\<lambda>s. findUserByEmail s (mi_email i))) (\<lambda>existing.
     seqM (failIf (existing \<noteq> None) (Conflict ''EMAIL_EXISTS'')) (\<lambda>_.
     seqM (freshId env) (\<lambda>userId.
     seqM (putUser env (newVendor env userId (mi_email i) (bcrypt password) (js_trim fullName))) (\<lambda>user.
       acceptInvitation env token (u_id user))))))"

definition listMembers :: "string \<Rightarrow> db \<Rightarrow> member_row list" where
  "listMembers storeId s = sort_key mb_createdAt (filter (\<lambda>m. mb_storeId m = storeId) (dbMembers s))"

definition listInvitations :: "string \<Rightarrow> db \<Rightarrow> member_invitation_row list" where
  "listInvitations storeId s = sort_key (\<lambda>i. - mi_createdAt i) (filter (\<lambda>i. mi_storeId i = storeId) (dbMemberInvitations s))"

definition listPendingInvitations :: "string \<Rightarrow> db \<Rightarrow> member_invitation_row list" where
  "listPendingInvitations storeId s =
     sort_key (\<lambda>i. - mi_createdAt i) (filter (\<lambda>i. mi_storeId i = storeId \<and> mi_status i = IN_PENDING) (dbMemberInvitations s))"

definition listPendingInvitationsForEmail :: "env \<Rightarrow> string \<Rightarrow> db \<Rightarrow> member_invitation_row list" where
  "listPendingInvitationsForEmail env email s = sort_key (\<lambda>i. - mi_createdAt i)
     (filter (\<lambda>i. js_lower (mi_email i) = js_lower email \<and> mi_status i = IN_PENDING \<and> envNow env < mi_expiresAt i) (dbMemberInvitations s))"

definition findMember :: "db \<Rightarrow> string \<Rightarrow> string \<Rightarrow> member_row option" where
  "findMember s storeId memberId = List.find (\<lambda>m. mb_id m = memberId \<and> mb_storeId m = storeId) (dbMembers s)"

definition updateMemberRole :: "env \<Rightarrow> string \<Rightarrow> string \<Rightarrow> member_role \<Rightarrow> (db, member_row) op" where
  "updateMemberRole env storeId memberId role =
     seqM (failIf (role \<noteq> MR_MANAGER \<and> role \<noteq> MR_STAFF) (BadRequest ''INVALID_ROLE'')) (\<lambda>_.
     seqM (getM (\<lambda>s. findMember s storeId memberId)) (\<lambda>found. case found of
       None \<Rightarrow> raiseM (NotFound ''MEMBER_NOT_FOUND'')
     | Some m \<Rightarrow>
         seqM (failIf (mb_role m = MR_OWNER) (BadRequest ''CANNOT_CHANGE_OWNER'')) (\<lambda>_.
         seqM (getM (\<lambda>s. liveStore s storeId)) (\<lambda>store.
         seqM (failIf (map_option st_ownerId store = Some (mb_userId m)) (BadRequest ''CANNOT_CHANGE_OWNER'')) (\<lambda>_.
           saveMember env (m\<lparr>mb_role := role\<rparr>))))))"

definition removeMember :: "string \<Rightarrow> string \<Rightarrow> (db, unit) op" where
  "removeMember storeId memberId =
     seqM (getM (\<lambda>s. findMember s storeId memberId)) (\<lambda>found. case found of
       None \<Rightarrow> raiseM (NotFound ''MEMBER_NOT_FOUND'')
     | Some m \<Rightarrow> seqM (failIf (mb_role m = MR_OWNER) (BadRequest ''CANNOT_REMOVE_OWNER'')) (\<lambda>_.
         modM (\<lambda>s. s\<lparr>dbMembers := filter (\<lambda>x. mb_id x \<noteq> mb_id m) (dbMembers s)\<rparr>)))"

definition revokeInvitation :: "env \<Rightarrow> string \<Rightarrow> string \<Rightarrow> (db, member_invitation_row) op" where
  "revokeInvitation env storeId invitationId =
     seqM (getM (\<lambda>s. List.find (\<lambda>i. mi_id i = invitationId \<and> mi_storeId i = storeId) (dbMemberInvitations s))) (\<lambda>found. case found of
       None \<Rightarrow> raiseM (NotFound ''INVITATION_NOT_FOUND'')
     | Some i \<Rightarrow> seqM (failIf (mi_status i \<noteq> IN_PENDING) (BadRequest ''INVITATION_NOT_PENDING'')) (\<lambda>_.
         saveInvitation env (i\<lparr>mi_status := IN_REVOKED\<rparr>)))"

text \<open>Declining deletes the row; an expired invitation can be declined.\<close>

definition declineInvitation :: "string \<Rightarrow> string \<Rightarrow> (db, unit) op" where
  "declineInvitation token userId =
     seqM (getM (\<lambda>s. findInvitation s token)) (\<lambda>found. case found of
       None \<Rightarrow> raiseM (NotFound ''INVITATION_NOT_FOUND'')
     | Some i \<Rightarrow>
         seqM (failIf (mi_status i \<noteq> IN_PENDING) (BadRequest ''INVITATION_INVALID'')) (\<lambda>_.
         seqM (getM (\<lambda>s. findUserById s userId)) (\<lambda>user. case user of
           None \<Rightarrow> raiseM (NotFound ''USER_NOT_FOUND'')
         | Some u \<Rightarrow>
             seqM (failIf (js_lower (u_email u) \<noteq> js_lower (mi_email i)) (BadRequest ''EMAIL_MISMATCH'')) (\<lambda>_.
               modM (\<lambda>s. s\<lparr>dbMemberInvitations := filter (\<lambda>x. mi_id x \<noteq> mi_id i) (dbMemberInvitations s)\<rparr>)))))"

end
