(* ===== verification/Store_Requests.thy ===== *)
theory Store_Requests
  imports Store_Team
begin

text \<open>
  How a vendor comes to a store: \<^verbatim>\<open>vendor-invitation.service.ts\<close>, \<^verbatim>\<open>store-request.service.ts\<close> and
  \<^verbatim>\<open>store-reactivation-request.service.ts\<close> of \<^verbatim>\<open>src/src/modules/stores\<close>. None of them uses a transaction, so
  that what was saved before an exception stays. The notification of the administration about a new request, which
  is sent in a \<open>catch\<close>, is not recorded.
\<close>

section \<open>Invitation of vendors\<close>

definition findVendorInvitation :: "db \<Rightarrow> string \<Rightarrow> vendor_invitation_row option" where
  "findVendorInvitation s token = List.find (\<lambda>i. vi_token i = token) (dbVendorInvitations s)"

definition saveVendorInvitation :: "env \<Rightarrow> vendor_invitation_row \<Rightarrow> (db, vendor_invitation_row) op" where
  "saveVendorInvitation env i =
     seqM (readM (\<lambda>s. if list_ex (\<lambda>x. vi_id x \<noteq> vi_id i \<and> (vi_token x = vi_token i \<or>
         vi_status x = IN_PENDING \<and> vi_status i = IN_PENDING \<and> vi_email x = vi_email i)) (dbVendorInvitations s) then Inl DUPLICATE else Inr ())) (\<lambda>_.
     seqM (getM (\<lambda>s. if byKey vi_id (vi_id i) (dbVendorInvitations s) = Some i then i else i\<lparr>vi_updatedAt := envNow env\<rparr>)) (\<lambda>v.
     seqM (modM (\<lambda>s. s\<lparr>dbVendorInvitations := saveRow vi_id v (dbVendorInvitations s)\<rparr>)) (\<lambda>_. retM v)))"

definition inviteVendor :: "env \<Rightarrow> string \<Rightarrow> string \<Rightarrow> (db, vendor_invitation_row) op" where
  "inviteVendor env email invitedBy =
     (let normalizedEmail = js_lower email in
      seqM (getM (\<lambda>s. findUserByEmail s normalizedEmail)) (\<lambda>existing.
      seqM (failIf (existing \<noteq> None) (Conflict ''EMAIL_EXISTS'')) (\<lambda>_.
      seqM (getM (\<lambda>s. list_ex (\<lambda>i. vi_email i = normalizedEmail \<and> vi_status i = IN_PENDING) (dbVendorInvitations s))) (\<lambda>pending.
      seqM (failIf pending (Conflict ''INVITATION_EXISTS'')) (\<lambda>_.
      seqM (freshId env) (\<lambda>token.
      seqM (freshId env) (\<lambda>i.
      seqM (saveVendorInvitation env \<lparr>vi_id = i, vi_email = normalizedEmail, vi_token = token, vi_invitedBy = invitedBy,
              vi_status = IN_PENDING, vi_expiresAt = inSevenDays env, vi_acceptedAt = None, vi_createdAt = envNow env, vi_updatedAt = envNow env\<rparr>) (\<lambda>saved.
      seqM (emit (EmailVendorInvite (vi_email saved))) (\<lambda>_.
      seqM (failIf (envMailFails env (vi_email saved)) (Failure ''Failed to send email'')) (\<lambda>_.
        retM saved))))))))))"

definition findPendingVendorInvitations :: "db \<Rightarrow> vendor_invitation_row list" where
  "findPendingVendorInvitations s = sort_key (\<lambda>i. - vi_createdAt i) (filter (\<lambda>i. vi_status i = IN_PENDING) (dbVendorInvitations s))"

definition acceptVendorInvitation :: "env \<Rightarrow> (string \<Rightarrow> string) \<Rightarrow> string \<Rightarrow> string \<Rightarrow> string \<Rightarrow> (db, user_row) op" where
  "acceptVendorInvitation env bcrypt token password fullName =
     seqM (getM (\<lambda>s. findVendorInvitation s token)) (\<lambda>found. case found of
       None \<Rightarrow> raiseM (NotFound ''INVITATION_NOT_FOUND'')
     | Some i \<Rightarrow>
         seqM (failIf (vi_status i \<noteq> IN_PENDING) (BadRequest ''INVITATION_INVALID'')) (\<lambda>_.
           if vi_expiresAt i < envNow env
           then seqM (saveVendorInvitation env (i\<lparr>vi_status := IN_EXPIRED\<rparr>)) (\<lambda>_. raiseM (BadRequest ''INVITATION_EXPIRED''))
           else
             seqM (freshId env) (\<lambda>userId.
             seqM (putUser env (newVendor env userId (vi_email i) (bcrypt password) (js_trim fullName))) (\<lambda>user.
             seqM (saveVendorInvitation env (i\<lparr>vi_status := IN_ACCEPTED, vi_acceptedAt := Some (envNow env)\<rparr>)) (\<lambda>_.
               retM user)))))"

section \<open>Requests for a store\<close>

record submit_request =
  sq_storeName :: string
  sq_description :: "string option"
  sq_contactPhone :: "string option"
  sq_contactEmail :: "string option"
  sq_address :: "string option"
  sq_logoUrl :: "string option"

definition saveStoreRequest :: "env \<Rightarrow> store_request_row \<Rightarrow> (db, store_request_row) op" where
  "saveStoreRequest env r =
     seqM (getM (\<lambda>s. if byKey sr_id (sr_id r) (dbStoreRequests s) = Some r then r else r\<lparr>sr_updatedAt := envNow env\<rparr>)) (\<lambda>v.
     seqM (modM (\<lambda>s. s\<lparr>dbStoreRequests := saveRow sr_id v (dbStoreRequests s)\<rparr>)) (\<lambda>_. retM v))"

definition submitStoreRequest :: "env \<Rightarrow> web \<Rightarrow> storage_config \<Rightarrow> string \<Rightarrow> submit_request \<Rightarrow> (db, store_request_row) op" where
  "submitStoreRequest env web config vendorUserId data =
     seqM (getM (\<lambda>s. List.find (\<lambda>u. u_id u = vendorUserId \<and> u_isActive u \<and> u_deletedAt u = None) (dbUsers s))) (\<lambda>found. case found of
       None \<Rightarrow> raiseM (NotFound ''VENDOR_NOT_FOUND'')
     | Some vendor \<Rightarrow>
         seqM (failIf (\<not> u_emailVerified vendor) (Forbidden ''EMAIL_NOT_VERIFIED'')) (\<lambda>_.
         seqM (getM (\<lambda>s. list_ex (\<lambda>r. sr_vendorUserId r = vendorUserId \<and> sr_status r = SR_PENDING) (dbStoreRequests s))) (\<lambda>pending.
         seqM (failIf pending (Conflict ''PENDING_REQUEST_EXISTS'')) (\<lambda>_.
         (let logo = js_trim (nullish (sq_logoUrl data) []) in
          seqM (if logo \<noteq> [] then liftM (assertFolderImageUrl web config logo ''stores'') else retM ()) (\<lambda>_.
          seqM (freshId env) (\<lambda>i.
          seqM (saveStoreRequest env \<lparr>sr_id = i, sr_vendorUserId = vendorUserId, sr_storeName = sq_storeName data,
                 sr_description = sq_description data, sr_contactPhone = sq_contactPhone data, sr_contactEmail = sq_contactEmail data,
                 sr_address = sq_address data, sr_logoUrl = (if logo = [] then None else Some logo), sr_status = SR_PENDING,
                 sr_rejectionReason = None, sr_reviewedBy = None, sr_reviewedAt = None, sr_createdStoreId = None,
                 sr_createdAt = envNow env, sr_updatedAt = envNow env\<rparr>) (\<lambda>saved.
          seqM (emit (DashboardStoreRequest (sr_id saved) None [vendorUserId])) (\<lambda>_. retM saved)))))))))"

definition findStoreRequest :: "string \<Rightarrow> (db, store_request_row) op" where
  "findStoreRequest i = seqM (getM (\<lambda>s. byKey sr_id i (dbStoreRequests s))) (\<lambda>found. case found of
     None \<Rightarrow> raiseM (NotFound ''STORE_REQUEST_NOT_FOUND'') | Some r \<Rightarrow> retM r)"

definition findStoreRequestsByVendor :: "string \<Rightarrow> db \<Rightarrow> store_request_row list" where
  "findStoreRequestsByVendor vendorUserId s =
     sort_key (\<lambda>r. - sr_createdAt r) (filter (\<lambda>r. sr_vendorUserId r = vendorUserId) (dbStoreRequests s))"

definition findPendingStoreRequests :: "db \<Rightarrow> store_request_row list" where
  "findPendingStoreRequests s = sort_key sr_createdAt (filter (\<lambda>r. sr_status r = SR_PENDING) (dbStoreRequests s))"

definition approveStoreRequest :: "env \<Rightarrow> unicode \<Rightarrow> (nat \<Rightarrow> nat list) \<Rightarrow> string \<Rightarrow> string \<Rightarrow> (db, store_request_row) op" where
  "approveStoreRequest env uc random requestId adminId =
     seqM (findStoreRequest requestId) (\<lambda>request.
     seqM (failIf (sr_status request \<noteq> SR_PENDING) (BadRequest ''INVALID_STATUS'')) (\<lambda>_.
     seqM (resolveUniqueStoreSlug uc random (sr_storeName request)) (\<lambda>slug.
     seqM (freshId env) (\<lambda>i.
     seqM (putStore env ((newStore env i (sr_vendorUserId request) (sr_storeName request) slug ST_APPROVED)
       \<lparr>st_description := sr_description request, st_contactPhone := sr_contactPhone request, st_contactEmail := sr_contactEmail request,
        st_address := sr_address request, st_logoUrl := sr_logoUrl request, st_approvedBy := Some adminId, st_approvedAt := Some (envNow env)\<rparr>)) (\<lambda>store.
     seqM (freshId env) (\<lambda>m.
     seqM (saveMember env (newMember env m (st_id store) (sr_vendorUserId request) MR_OWNER)) (\<lambda>_.
     seqM (saveStoreRequest env (request\<lparr>sr_status := SR_APPROVED, sr_reviewedBy := Some adminId, sr_reviewedAt := Some (envNow env),
             sr_createdStoreId := Some (st_id store)\<rparr>)) (\<lambda>saved.
     seqM (emit (NotifyStoreRequest (sr_vendorUserId request) (sr_id request) True)) (\<lambda>_.
     seqM (emit (DashboardStoreRequest (sr_id saved) (Some (st_id store)) [sr_vendorUserId request])) (\<lambda>_.
       retM saved))))))))))"

definition rejectStoreRequest :: "env \<Rightarrow> string \<Rightarrow> string \<Rightarrow> string option \<Rightarrow> (db, store_request_row) op" where
  "rejectStoreRequest env requestId adminId reason =
     seqM (findStoreRequest requestId) (\<lambda>request.
     seqM (failIf (sr_status request \<noteq> SR_PENDING) (BadRequest ''INVALID_STATUS'')) (\<lambda>_.
     seqM (saveStoreRequest env (request\<lparr>sr_status := SR_REJECTED, sr_rejectionReason := reason, sr_reviewedBy := Some adminId,
             sr_reviewedAt := Some (envNow env)\<rparr>)) (\<lambda>saved.
     seqM (emit (NotifyStoreRequest (sr_vendorUserId request) (sr_id request) False)) (\<lambda>_.
     seqM (emit (DashboardStoreRequest (sr_id saved) None [sr_vendorUserId request])) (\<lambda>_.
       retM saved)))))"

section \<open>Requests for reactivation\<close>

definition saveReactivation :: "env \<Rightarrow> reactivation_row \<Rightarrow> (db, reactivation_row) op" where
  "saveReactivation env r =
     seqM (getM (\<lambda>s. if byKey rr_id (rr_id r) (dbReactivations s) = Some r then r else r\<lparr>rr_updatedAt := envNow env\<rparr>)) (\<lambda>v.
     seqM (modM (\<lambda>s. s\<lparr>dbReactivations := saveRow rr_id v (dbReactivations s)\<rparr>)) (\<lambda>_. retM v))"

definition findReactivation :: "string \<Rightarrow> (db, reactivation_row) op" where
  "findReactivation i = seqM (getM (\<lambda>s. byKey rr_id i (dbReactivations s))) (\<lambda>found. case found of
     None \<Rightarrow> raiseM (NotFound ''REACTIVATION_REQUEST_NOT_FOUND'') | Some r \<Rightarrow> retM r)"

text \<open>The dashboard event goes to the submitter and to the owner of the store, if it is still there.\<close>

definition tellReactivation :: "reactivation_row \<Rightarrow> (db, unit) op" where
  "tellReactivation r = seqM (getM (\<lambda>s. liveStore s (rr_storeId r))) (\<lambda>store.
     emit (DashboardReactivation (rr_id r) (Some (rr_storeId r))
       (filter (\<lambda>u. u \<noteq> []) (rr_submittedByUserId r # (case store of None \<Rightarrow> [] | Some st \<Rightarrow> [st_ownerId st])))))"

definition addImage :: "env \<Rightarrow> string \<Rightarrow> nat \<times> string \<Rightarrow> (db, unit) op" where
  "addImage env requestId = (\<lambda>(index, url). seqM (freshId env) (\<lambda>i. modM (\<lambda>s. s\<lparr>dbReactivationImages := dbReactivationImages s @
     [\<lparr>ri_id = i, ri_requestId = requestId, ri_imageUrl = url, ri_sortOrder = int index, ri_createdAt = envNow env\<rparr>]\<rparr>)))"

definition submitReactivation :: "env \<Rightarrow> string \<Rightarrow> string \<Rightarrow> string \<Rightarrow> string \<Rightarrow> string list \<Rightarrow> (db, reactivation_row) op" where
  "submitReactivation env userId storeId title content mediaUrls =
     seqM (getM (\<lambda>s. liveStore s storeId)) (\<lambda>found. case found of
       None \<Rightarrow> raiseM (NotFound ''STORE_NOT_FOUND'')
     | Some store \<Rightarrow>
         seqM (failIf (st_status store \<noteq> ST_SUSPENDED) (BadRequest ''STORE_NOT_SUSPENDED'')) (\<lambda>_.
         seqM (getM (\<lambda>s. userHasStoreManagerAccess s userId storeId)) (\<lambda>canManage.
         seqM (failIf (\<not> canManage) (Forbidden ''STORE_MANAGER_REQUIRED'')) (\<lambda>_.
         seqM (getM (\<lambda>s. list_ex (\<lambda>r. rr_storeId r = storeId \<and> rr_status r = RQ_PENDING) (dbReactivations s))) (\<lambda>pending.
         seqM (failIf pending (Conflict ''PENDING_REACTIVATION_REQUEST_EXISTS'')) (\<lambda>_.
         seqM (freshId env) (\<lambda>i.
         seqM (saveReactivation env \<lparr>rr_id = i, rr_storeId = storeId, rr_submittedByUserId = userId, rr_title = title, rr_content = content,
                rr_status = RQ_PENDING, rr_reviewNote = None, rr_reviewedBy = None, rr_reviewedAt = None,
                rr_createdAt = envNow env, rr_updatedAt = envNow env\<rparr>) (\<lambda>saved.
         seqM (forM (addImage env (rr_id saved)) (enumerate 0 mediaUrls)) (\<lambda>_.
         seqM (emit (DashboardReactivation (rr_id saved) (Some storeId) (filter (\<lambda>u. u \<noteq> []) [userId, st_ownerId store]))) (\<lambda>_.
           findReactivation (rr_id saved)))))))))))"

definition findReactivationsByStore :: "string \<Rightarrow> db \<Rightarrow> reactivation_row list" where
  "findReactivationsByStore storeId s = sort_key (\<lambda>r. - rr_createdAt r) (filter (\<lambda>r. rr_storeId r = storeId) (dbReactivations s))"

definition findReactivationsForAdmin :: "reactivation_status option \<Rightarrow> db \<Rightarrow> reactivation_row list" where
  "findReactivationsForAdmin status s =
     sort_key (\<lambda>r. - rr_createdAt r) (filter (\<lambda>r. status = None \<or> Some (rr_status r) = status) (dbReactivations s))"

definition approveReactivation :: "env \<Rightarrow> string \<Rightarrow> string \<Rightarrow> (db, reactivation_row) op" where
  "approveReactivation env requestId adminId =
     seqM (findReactivation requestId) (\<lambda>request.
     seqM (failIf (rr_status request \<noteq> RQ_PENDING) (BadRequest ''INVALID_STATUS'')) (\<lambda>_.
     seqM (reactivateStore env (rr_storeId request) adminId) (\<lambda>_.
     seqM (saveReactivation env (request\<lparr>rr_status := RQ_APPROVED, rr_reviewedBy := Some adminId, rr_reviewedAt := Some (envNow env)\<rparr>)) (\<lambda>saved.
     seqM (tellReactivation saved) (\<lambda>_. retM saved)))))"

definition rejectReactivation :: "env \<Rightarrow> string \<Rightarrow> string \<Rightarrow> string option \<Rightarrow> (db, reactivation_row) op" where
  "rejectReactivation env requestId adminId reviewNote =
     seqM (findReactivation requestId) (\<lambda>request.
     seqM (failIf (rr_status request \<noteq> RQ_PENDING) (BadRequest ''INVALID_STATUS'')) (\<lambda>_.
     seqM (saveReactivation env (request\<lparr>rr_status := RQ_REJECTED, rr_reviewNote := reviewNote, rr_reviewedBy := Some adminId,
             rr_reviewedAt := Some (envNow env)\<rparr>)) (\<lambda>saved.
     seqM (tellReactivation saved) (\<lambda>_. retM saved))))"

end
