(* ===== verification/Store_Proofs.thy ===== *)
theory Store_Proofs
  imports Store_Requests Recipient_Proofs
begin

text \<open>
  The properties of stores and their teams: slugs are free, what a change of status by the administration
  does to lines on hold, who gets into a team, and what a change of the owner leaves behind when it fails.
\<close>

section \<open>Weakest preconditions\<close>

definition stampStore :: "env \<Rightarrow> db \<Rightarrow> store_row \<Rightarrow> store_row" where
  "stampStore env s st = (if byKey st_id (st_id st) (dbStores s) = Some st then st else st\<lparr>st_updatedAt := envNow env\<rparr>)"

lemma stampStore_simps [simp]:
  "st_id (stampStore env s st) = st_id st" "st_status (stampStore env s st) = st_status st" "st_slug (stampStore env s st) = st_slug st"
  "st_ownerId (stampStore env s st) = st_ownerId st" "st_deletedAt (stampStore env s st) = st_deletedAt st"
  by (simp_all add: stampStore_def)

lemma savedStore_wp [wp]:
  "wp (savedStore env st) Q E s = Q (stampStore env s st) (s\<lparr>dbStores := saveRow st_id (stampStore env s st) (dbStores s)\<rparr>)"
proof -
  have "savedStore env st s = (Inr (stampStore env s st), s\<lparr>dbStores := saveRow st_id (stampStore env s st) (dbStores s)\<rparr>)"
    by (simp add: savedStore_def saveStore_def stampStore_def byKey_saveRow)
  then show ?thesis by (simp add: wp_def)
qed

lemma putStore_wp [wp]:
  "wp (putStore env st) Q E s = (if slugClash s st then E DUPLICATE s
     else Q (stampStore env s st) (s\<lparr>dbStores := saveRow st_id (stampStore env s st) (dbStores s)\<rparr>))"
  unfolding putStore_def wp by simp

lemma liveStore_put:
  assumes "uniqueKey st_id (dbStores s)" and "st_deletedAt r = None"
  shows "liveStore (s\<lparr>dbStores := saveRow st_id r (dbStores s)\<rparr>) i = (if i = st_id r then Some r else liveStore s i)"
proof -
  have "List.find (\<lambda>x. st_id x = i \<and> st_deletedAt x = None) (saveRow st_id r xs) =
      (if i = st_id r then Some r else List.find (\<lambda>x. st_id x = i \<and> st_deletedAt x = None) xs)" if "uniqueKey st_id xs" for xs
    using that assms(2) by (induction xs) (auto simp: uniqueKey_def)
  then show ?thesis using assms(1) by (simp add: liveStore_def)
qed

section \<open>Slugs\<close>

lemma random_slug_chars: "set (generateRandomSlug bytes) \<subseteq> set RANDOM_SLUG_CHARS"
proof -
  have "0 < length RANDOM_SLUG_CHARS" by (simp add: RANDOM_SLUG_CHARS_def)
  then show ?thesis by (auto simp: generateRandomSlug_def intro!: nth_mem)
qed

text \<open>C39. A slug that is generated is not used by another store and is not empty; it comes from the name of the store,
  unless that has no Latin letter or is taken: then it is made of eight lower case letters and digits. Only when twenty
  random slugs in a row are taken none is found.\<close>

theorem store_slug_is_free:
  assumes "\<And>n. length (random n) = DEFAULT_RANDOM_SLUG_LENGTH"
  shows "case generateUniqueStoreSlug uc random name taken of
      Inr slug \<Rightarrow> \<not> taken slug \<and> slug \<noteq> [] \<and> (slug = generateSlug uc name ''store'' \<or> length slug = 8 \<and> set slug \<subseteq> set RANDOM_SLUG_CHARS)
    | Inl e \<Rightarrow> \<forall>n < 20. taken (generateRandomSlug (random n))"
proof -
  have nonempty: "generateSlug uc name ''store'' \<noteq> []" by (simp add: generateSlug_def Let_def)
  have eight: "length (generateRandomSlug (random n)) = 8" for n using assms [of n] by (simp add: generateRandomSlug_def DEFAULT_RANDOM_SLUG_LENGTH_def)
  have found: "\<not> taken slug \<and> slug \<noteq> [] \<and> length slug = 8 \<and> set slug \<subseteq> set RANDOM_SLUG_CHARS"
    if "List.find (\<lambda>slug. \<not> taken slug) (map (\<lambda>n. generateRandomSlug (random n)) xs) = Some slug" for slug xs
  proof -
    from find_Some_in [OF that] obtain n where n: "slug = generateRandomSlug (random n)" "\<not> taken slug" by auto
    then have "length slug = 8" using eight by simp
    then show ?thesis using n random_slug_chars [of "random n"] by auto
  qed
  show ?thesis
    using nonempty found by (auto simp: generateUniqueStoreSlug_def Let_def find_None_all MAX_UNIQUE_SLUG_ATTEMPTS_def split: option.split)
qed

definition asciiClasses :: unicode where
  "asciiClasses = \<lparr>uc_letter = latinLetter, uc_number = isDigit, uc_mark = (\<lambda>_. False)\<rparr>"

theorem store_slug_is_free_witness:
  "generateUniqueStoreSlug asciiClasses (\<lambda>n. replicate 8 n) ''Cat & Dog!'' (\<lambda>t. t = ''x'') = Inr ''cat-dog'' \<and>
   generateUniqueStoreSlug asciiClasses (\<lambda>n. replicate 8 n) ''Cat & Dog!'' (\<lambda>t. t = ''cat-dog'' \<or> t = ''aaaaaaaa'') = Inr ''bbbbbbbb'' \<and> \<not> (''bbbbbbbb'' = ''cat-dog'' \<or> ''bbbbbbbb'' = ''aaaaaaaa'')"
proof -
  have r: "generateUniqueStoreSlug asciiClasses (\<lambda>n. replicate 8 n) ''Cat & Dog!'' (\<lambda>t. t = ''x'') = Inr ''cat-dog''"
    "generateUniqueStoreSlug asciiClasses (\<lambda>n. replicate 8 n) ''Cat & Dog!'' (\<lambda>t. t = ''cat-dog'' \<or> t = ''aaaaaaaa'') = Inr ''bbbbbbbb''"
    by code_simp+
  have "length (replicate 8 n) = DEFAULT_RANDOM_SLUG_LENGTH" for n :: nat by (simp add: DEFAULT_RANDOM_SLUG_LENGTH_def)
  from store_slug_is_free [where random = "\<lambda>n. replicate 8 n" and uc = asciiClasses and name = "''Cat & Dog!''"
      and taken = "\<lambda>t. t = ''cat-dog'' \<or> t = ''aaaaaaaa''", OF this] r
  show ?thesis by simp
qed

section \<open>Lines on hold\<close>

definition statusOnly :: "string \<Rightarrow> store_status \<Rightarrow> admin_update" where
  "statusOnly i status = \<lparr>au_id = i, au_ownerUserId = None, au_name = None, au_slug = None, au_description = None, au_contactPhone = None,
     au_contactEmail = None, au_address = None, au_logoUrl = None, au_bannerUrl = None, au_status = Some status, au_adminId = Some ''admin'',
     au_commissionRate = None\<rparr>"

lemma adminFields_keep [simp]:
  "st_id (adminFields env input st) = st_id st" "st_deletedAt (adminFields env input st) = st_deletedAt st"
  "st_ownerId (adminFields env input st) = st_ownerId st"
  "au_status input = Some status \<Longrightarrow> st_status (adminFields env input st) = status"
  "st_slug (adminFields env input st) = nullish (au_slug input) (st_slug st)"
  by (auto simp: adminFields_def Let_def split: option.split)

lemma status_wp:
  assumes "liveStore s i = Some st" and "uniqueKey st_id (dbStores s)"
    and "\<not> (status = ST_SUSPENDED \<and> st_status st \<noteq> ST_SUSPENDED)" and "\<not> (st_status st = ST_SUSPENDED \<and> status = ST_APPROVED)"
  shows "wp (updateAsAdmin env (statusOnly i status))
    (\<lambda>r t. liveStore t i = Some r \<and> st_status r = status \<and> uniqueKey st_id (dbStores t) \<and> dbItems t = dbItems s \<and> dbOrders t = dbOrders s)
    (\<lambda>_ _. True) s"
proof -
  have st: "st_id st = i" "st_deletedAt st = None" using liveStore_Some [OF assms(1)] by auto
  have in0: "au_id (statusOnly i status) = i" "au_ownerUserId (statusOnly i status) = None" "au_status (statusOnly i status) = Some status"
    "au_commissionRate (statusOnly i status) = None" by (simp_all add: statusOnly_def)
  show ?thesis
    unfolding updateAsAdmin_def wp Let_def in0 changeOwner_def validRate_def option.case sum.case assms(1)
    using assms(2-4) st by (auto simp: wp assms(1) liveStore_put in0 uniqueKey_saveRow split: option.split)
qed

text \<open>C40. The lines on hold of a suspended store are restored when the store is reactivated directly. When the
  administration sets the store to rejected (or pending) first and approves it then, they stay on hold for ever: the store sells
  again, but its old orders keep their held lines.\<close>

theorem detour_keeps_hold:
  assumes "liveStore s i = Some st" and "st_status st = ST_SUSPENDED" and "uniqueKey st_id (dbStores s)"
    and "status \<noteq> ST_SUSPENDED" and "status \<noteq> ST_APPROVED"
    and "updateAsAdmin env (statusOnly i status) s = (Inr a, t)" and "updateAsAdmin env' (statusOnly i ST_APPROVED) t = (Inr b, u)"
  shows "liveStore u i = Some b \<and> st_status b = ST_APPROVED \<and> dbItems u = dbItems s \<and> dbOrders u = dbOrders s"
proof -
  have one: "liveStore t i = Some a" "st_status a = status" "uniqueKey st_id (dbStores t)" "dbItems t = dbItems s" "dbOrders t = dbOrders s"
    using wp_Inr [OF status_wp [OF assms(1,3)] assms(6)] assms(2,4,5) by auto
  show ?thesis using wp_Inr [OF status_wp [OF one(1,3)] assms(7)] one assms(4) by auto
qed

definition sampleHeld :: db where
  "sampleHeld = empty_db\<lparr>dbStores := [sampleStore ''b'' ST_SUSPENDED], dbOrders := [sampleOrder ''o'' OS_PROCESSING],
     dbItems := [lineB\<lparr>oi_fulfillmentStatus := FS_ON_HOLD, oi_previousFulfillmentStatus := Some FS_PENDING\<rparr>]\<rparr>"

lemma held_reject:
  "updateAsAdmin sampleIds (statusOnly ''b'' ST_REJECTED) sampleHeld =
     (Inr (sampleStore ''b'' ST_REJECTED), sampleHeld\<lparr>dbStores := [sampleStore ''b'' ST_REJECTED]\<rparr>)"
  by (simp add: updateAsAdmin_def findOneStore_simp liveStore_def sampleHeld_def statusOnly_def validRate_def changeOwner_def adminFields_def
      putStore_def slugClash_def savedStore_def saveStore_def Let_def trimmedField_def orNullField_def sampleStore_def sampleIds_def)

lemma held_approve:
  "\<exists>b u. updateAsAdmin sampleIds (statusOnly ''b'' ST_APPROVED) (sampleHeld\<lparr>dbStores := [sampleStore ''b'' ST_REJECTED]\<rparr>) = (Inr b, u)"
  by (simp add: updateAsAdmin_def findOneStore_simp liveStore_def sampleHeld_def statusOnly_def validRate_def changeOwner_def adminFields_def
      putStore_def slugClash_def savedStore_def saveStore_def Let_def trimmedField_def orNullField_def sampleStore_def sampleIds_def)

theorem detour_keeps_hold_witness:
  "\<exists>b u. updateAsAdmin sampleIds (statusOnly ''b'' ST_APPROVED) (snd (updateAsAdmin sampleIds (statusOnly ''b'' ST_REJECTED) sampleHeld)) = (Inr b, u) \<and>
     st_status b = ST_APPROVED \<and> map oi_fulfillmentStatus (dbItems u) = [FS_ON_HOLD]"
proof -
  obtain b u where u: "updateAsAdmin sampleIds (statusOnly ''b'' ST_APPROVED) (sampleHeld\<lparr>dbStores := [sampleStore ''b'' ST_REJECTED]\<rparr>) = (Inr b, u)"
    using held_approve by blast
  have "liveStore sampleHeld ''b'' = Some (sampleStore ''b'' ST_SUSPENDED)" by (simp add: liveStore_def sampleHeld_def sampleStore_def)
  moreover have "uniqueKey st_id (dbStores sampleHeld)" by (simp add: sampleHeld_def uniqueKey_def)
  moreover have "st_status (sampleStore ''b'' ST_SUSPENDED) = ST_SUSPENDED" by (simp add: sampleStore_def)
  ultimately have "st_status b = ST_APPROVED \<and> dbItems u = dbItems sampleHeld"
    using detour_keeps_hold [OF _ _ _ _ _ held_reject u] by simp
  then show ?thesis by (intro exI [of _ b] exI [of _ u]) (simp add: held_reject u, simp add: sampleHeld_def)
qed

end
