(* ===== verification/Spec2Isabelle.thy ===== *)
theory Spec2Isabelle
  imports Payout_Commission Sale_Pricing Promotion_Rules Promotion_Admin Pagination Fulfillment Store_Hold Cart_Service Orders Order_System Payout_Proofs
    Store_Recipient Payments Payment_Invariant Payment_Proofs Charge_Proofs Recipient_Proofs
    Seeded_Shuffle Remote_Images Store_Admin Store_Team Store_Requests Store_Proofs
begin

text \<open>
  A verification library for the order, cart, promotion and payout logic of a marketplace for pet shops:
  a NestJS backend over PostgreSQL (TypeORM) whose vendors run stores, whose customers fill carts that span
  stores, and whose platform collects the money and pays the stores.

  \<^bold>\<open>How the program is put together.\<close> A GraphQL resolver or REST controller checks the caller and calls one
  method of a service; services read and write entities through repositories, group writes with
  \<open>dataSource.transaction\<close>, call each other, and call out: mail, push messages, vendor webhooks, dashboard
  events and the payment gateway Omise. The services under \<^verbatim>\<open>src/src/modules\<close> are what is modelled here.

  \<^bold>\<open>How it is modelled.\<close> The state \<open>db\<close> (\<open>Entities\<close>) is the database, one list of rows per table with a record
  per entity class of \<^verbatim>\<open>src/src/database/entities\<close>, the number of ids generated so far, and the calls sent to
  the outside. A service method is an \<open>op\<close> (\<open>Prelude\<close>): from a state it returns a value or raises an exception
  (\<open>exn\<close>, the NestJS class with its \<open>code\<close>), and a new state; \<open>seqM\<close> is \<open>await\<close> in sequence, \<open>txnM\<close> a
  transaction (an exception restores the state), \<open>catchM\<close> a \<open>try\<close>. Methods that only read are functions of
  the state. Handlers are atomic unless a property splits one at an \<open>await\<close>: then its two halves are
  definitions of their own and the property interleaves them.

  \<^bold>\<open>The theories, in the order they build on each other.\<close>
  \<^item> \<open>Prelude\<close>: exceptions, sequencing, the calculus \<open>wp\<close> and the collection \<open>pres\<close> with which the handlers are
    proved, and the JavaScript functions the code uses. \<open>Entities\<close>: enums, rows, \<open>db\<close>, the environment \<open>env\<close>
    (clock, generated ids, refused e-mails). \<open>Repository\<close>: \<open>save\<close> and \<open>findOne\<close> on lists of rows with the
    locale \<open>repository\<close>, interpreted for every table written.
  \<^item> \<open>Payout_Commission\<close> (\<^verbatim>\<open>payouts/payout-commission.calculator.ts\<close>), with the locale \<open>commission_scheme\<close>: the
    binary search of a payout amount is exact; prior payouts are consumed once.
  \<^item> \<open>Sale_Pricing\<close> (\<^verbatim>\<open>sale-campaigns/sale-campaign-pricing.ts\<close> and its service): which campaign item wins a
    line and what the customer then pays.
  \<^item> \<open>Promotion_Rules\<close>, \<open>Promotion_Admin\<close> (\<^verbatim>\<open>promotions/promotions.service.ts\<close>): evaluation of codes with all
    gates, buy-x-get-y, stacking, the batch evaluation; creation, update and lookups of promotions.
  \<^item> \<open>Pagination\<close> (\<^verbatim>\<open>common/utils/admin-list-pagination.util.ts\<close>).
  \<^item> \<open>Inventory\<close> (\<^verbatim>\<open>inventory/inventory.service.ts\<close>), \<open>Order_Util\<close> (\<^verbatim>\<open>orders/order-fulfillment.util.ts\<close>, totals,
    tracking data, tabs, guest tokens), \<open>Store_Access\<close> (which stores a user reaches), \<open>Order_Store\<close> (loading and
    saving orders, status history, audit log).
  \<^item> \<open>Fulfillment\<close> (\<^verbatim>\<open>orders/order-fulfillment.service.ts\<close>): pay, acknowledge, ship, track, deliver and cancel,
    each with its plan (the checks) and its commit; \<open>Store_Hold\<close> (\<^verbatim>\<open>orders/store-suspension-hold.service.ts\<close>).
  \<^item> \<open>Cart_Service\<close> (\<^verbatim>\<open>cart/cart.service.ts\<close>), a refinement of a map from variants to quantities.
  \<^item> \<open>Checkout_Util\<close> (phone numbers, payment methods, guest orders) and \<open>Orders\<close> (\<^verbatim>\<open>orders/orders.service.ts\<close>):
    the checkout with its stock reservation, and the status and address changes of the administration.
  \<^item> \<open>Order_System\<close>: the handlers above as one step relation with its reachable states.
  \<^item> \<open>Payout_Balance\<close>, \<open>Payouts\<close>, \<open>Payout_Proofs\<close> (\<^verbatim>\<open>payouts/payouts.service.ts\<close>, \<^verbatim>\<open>payout-scheduler.service.ts\<close>):
    what a store can be paid, the payouts on both rails, webhooks of the gateway, the scheduler.
  \<^item> \<open>Bank_Cipher\<close> (\<^verbatim>\<open>common/utils/bank-account-crypto.util.ts\<close>): the stored form of an account number, with base64url;
    \<open>Store_Recipient\<close>, \<open>Recipient_Proofs\<close> (the recipient methods of \<^verbatim>\<open>stores/stores.service.ts\<close>): the account a store is paid to.
  \<^item> \<open>Payments\<close>, \<open>Payment_Invariant\<close>, \<open>Payment_Proofs\<close>, \<open>Charge_Proofs\<close> (\<^verbatim>\<open>payments/payments.service.ts\<close> with the signature of
    webhooks and the expiry job): charging an order, and what may pay it.
  \<^item> \<open>Store_Admin\<close>, \<open>Store_Team\<close>, \<open>Store_Requests\<close>, \<open>Store_Proofs\<close> (\<^verbatim>\<open>stores/\<close>: stores, team, invitations and
    requests; \<^verbatim>\<open>common/utils/slug.util.ts\<close>): how stores come to be, who works for them and what their status does.
  \<^item> \<open>Remote_Images\<close> (\<^verbatim>\<open>storage/storage.service.ts\<close>, \<^verbatim>\<open>common/utils/safe-remote-url.util.ts\<close>): which URLs the server
    fetches and how images are named; \<open>Seeded_Shuffle\<close> (\<^verbatim>\<open>common/utils/seeded-shuffle.ts\<close>) on 32 bit words.

  \<^bold>\<open>What the lemmas show.\<close> Per component: the functional behaviour of each operation on its branches, the
  well-formedness it keeps (\<open>ordersInv\<close>: headers agree with lines; \<open>stockSound\<close>: no negative stock; \<open>holdInv\<close>;
  \<open>payInv\<close>: one open payout per store and rail), round trips (suspend and restore, place and cancel, request
  and reject), refinement of the cart, and over all steps that headers stay consistent, that work on an order
  ends and that a paid order of an account can always be completed. Where the code does not do what it means to, the property
  says what it does; these are the findings of the manifest.

  \<^bold>\<open>Parameters.\<close> The URL parser, the hash of the guest pay token, generated ids, order number and token, the
  clock, which e-mails the provider refuses, the answers of the Omise API, of the DNS, of \<open>fetch\<close> and of sharp, the
  letters of Unicode, random bytes, password hashes, SHA-256 and AES-256-GCM are arguments. Nothing is assumed
  of them but what a property states: that generated ids differ (\<open>inj (envUuid env)\<close>) and are not in use yet,
  that the gateway answers, or that AES-256-GCM opens what it has sealed.

  \<^bold>\<open>Numbers.\<close> Money is rational: the rounding of the code is written out, IEEE rounding of intermediate results
  and the width of \<open>decimal(10,2)\<close> are not modelled. Satang, stock and quantities are unbounded integers, as
  JavaScript's are up to \<open>2^53\<close>. No definition needs fuel: loops are structural recursion, folds over rows, or
  the binary search with its measure.

  \<^bold>\<open>Not modelled.\<close> Authentication, guards and resolvers (the methods take the caller as arguments); rendering and
  delivery of mail, SMS and notifications (a call is an effect); logging; search, analytics, the S3 client and the
  CMS settings, which do not touch orders or money; the administration of products, taxonomy and reviews, and
  shipping options; database errors other than the unique
  indexes, the columns that are not null of a promotion and the uuid column a guest's confirmation violates. Row locks appear as the atomicity of the
  transaction that takes them.
\<close>

end
